(* ===== verification/Prelude.thy ===== *)
theory Prelude
  imports Main "HOL-Library.Word" "HOL-Library.Multiset"
begin

text \<open>
  Shared vocabulary of the development: the C integer types the firmware uses, byte buffers
  and \<^verbatim>\<open>memcpy\<close> on them, little-endian encodings of packed struct fields, the result of an
  operation that may perform an out-of-bounds access, and the library lemmas on lists, words
  and finite bit tables that the component theories use.

  Conventions of the whole development. A byte buffer is a list of 8-bit words. A pointer
  argument that every caller passes as the address of an object is modelled by the object's
  value, so the \<^verbatim>\<open>CHECK_NULL_ARG\<close> guards on it are branches that a value cannot take; a pointer
  that the code itself sets to \<^verbatim>\<open>NULL\<close> (a callback, a buffer, a list cell, the result of
  \<^verbatim>\<open>malloc\<close>) is an \<^verbatim>\<open>option\<close>. Logging is omitted. Services of the RTOS (clock, mutex, heap) are
  arguments.
\<close>

unbundle bit_operations_syntax

type_synonym u8 = "8 word"
type_synonym u16 = "16 word"
type_synonym u32 = "32 word"
type_synonym u64 = "64 word"
type_synonym bytes = "8 word list"

section \<open>Named theorem collections\<close>

named_theorems struct_defs \<open>encodings and decodings of packed structs\<close>
named_theorems frame_simps \<open>what an operation leaves unchanged\<close>
named_theorems inv_intros \<open>preservation of component invariants\<close>

section \<open>Buffers\<close>

definition memcpy_at :: "nat \<Rightarrow> 'a list \<Rightarrow> 'a list \<Rightarrow> 'a list" where
  "memcpy_at ofs src dst = take ofs dst @ src @ drop (ofs + length src) dst"

definition slice :: "nat \<Rightarrow> nat \<Rightarrow> 'a list \<Rightarrow> 'a list" where
  "slice ofs n xs = take n (drop ofs xs)"

definition nth0 :: "bytes \<Rightarrow> nat \<Rightarrow> u8" where
  "nth0 bs i = (if i < length bs then bs ! i else 0)"

definition le16 :: "u16 \<Rightarrow> bytes" where
  "le16 v = [ucast v, ucast (drop_bit 8 v)]"

definition le32 :: "u32 \<Rightarrow> bytes" where
  "le32 v = [ucast v, ucast (drop_bit 8 v), ucast (drop_bit 16 v), ucast (drop_bit 24 v)]"

definition get16 :: "bytes \<Rightarrow> nat \<Rightarrow> u16" where
  "get16 bs i = ucast (nth0 bs i) OR push_bit 8 (ucast (nth0 bs (i + 1)))"

definition get32 :: "bytes \<Rightarrow> nat \<Rightarrow> u32" where
  "get32 bs i = ucast (nth0 bs i) OR push_bit 8 (ucast (nth0 bs (i + 1)))
     OR push_bit 16 (ucast (nth0 bs (i + 2))) OR push_bit 24 (ucast (nth0 bs (i + 3)))"

definition zeros :: "nat \<Rightarrow> bytes" where
  "zeros n = replicate n 0"

definition flag :: "bool \<Rightarrow> u8" where
  "flag b = (if b then 1 else 0)"

lemma length_memcpy_at [simp]:
  "ofs + length src \<le> length dst \<Longrightarrow> length (memcpy_at ofs src dst) = length dst"
  by (simp add: memcpy_at_def)

lemma memcpy_at_Nil [simp]: "memcpy_at ofs [] dst = dst"
  by (simp add: memcpy_at_def)

lemma take_memcpy_at [simp]:
  "ofs \<le> length dst \<Longrightarrow> take (ofs + length src) (memcpy_at ofs src dst) = take ofs dst @ src"
  by (simp add: memcpy_at_def)

lemma take_memcpy_at_before:
  "n \<le> ofs \<Longrightarrow> ofs \<le> length dst \<Longrightarrow> take n (memcpy_at ofs src dst) = take n dst"
  by (simp add: memcpy_at_def min_def)

lemma drop_memcpy_at_after:
  "ofs + length src \<le> n \<Longrightarrow> ofs \<le> length dst \<Longrightarrow> drop n (memcpy_at ofs src dst) = drop n dst"
  by (simp add: memcpy_at_def min_def)

lemma length_slice [simp]: "length (slice ofs n xs) = min n (length xs - ofs)"
  by (simp add: slice_def min_def)

lemma slice_append_next:
  "slice ofs n xs @ slice (ofs + n) m xs = slice ofs (n + m) xs"
  by (simp add: slice_def take_add add.commute [of n ofs])

lemma slice_0_all [simp]: "length xs \<le> n \<Longrightarrow> slice 0 n xs = xs"
  by (simp add: slice_def)

lemma length_zeros [simp]: "length (zeros n) = n"
  by (simp add: zeros_def)

lemma length_le16 [simp]: "length (le16 v) = 2"
  by (simp add: le16_def)

lemma length_le32 [simp]: "length (le32 v) = 4"
  by (simp add: le32_def)

lemma nth0_Cons_0 [simp]: "nth0 (x # xs) 0 = x"
  by (simp add: nth0_def)

lemma nth0_Cons_Suc [simp]: "nth0 (x # xs) (Suc i) = nth0 xs i"
  by (simp add: nth0_def)

lemma nth0_Nil [simp]: "nth0 [] i = 0"
  by (simp add: nth0_def)

lemma nth0_append:
  "nth0 (xs @ ys) i = (if i < length xs then nth0 xs i else nth0 ys (i - length xs))"
  by (auto simp: nth0_def nth_append)

lemma nth0_append_zeros [simp]: "nth0 (xs @ replicate n 0) i = nth0 xs i"
  by (auto simp: nth0_def nth_append)

lemma nth0_take: "i < n \<Longrightarrow> nth0 (take n xs) i = nth0 xs i"
  by (auto simp: nth0_def)

lemma nth0_slice: "i < n \<Longrightarrow> nth0 (slice ofs n xs) i = nth0 xs (ofs + i)"
  by (auto simp: nth0_def slice_def)

lemma nth0_memcpy_at_0: "i < length src \<Longrightarrow> nth0 (memcpy_at 0 src dst) i = nth0 src i"
  by (simp add: memcpy_at_def nth0_def nth_append)

section \<open>Words\<close>

lemma bit_word_le16_lo:
  "(ucast (ucast (v :: u16) :: u8) :: u16) OR push_bit 8 (ucast (ucast (drop_bit 8 v) :: u8)) = v"
  by (rule bit_word_eqI) (auto simp: bit_simps)

lemma get16_le16 [simp]: "get16 (le16 v @ bs) 0 = v"
  by (simp add: get16_def le16_def bit_word_le16_lo)

lemma get32_le32 [simp]: "get32 (le32 v @ bs) 0 = v"
proof -
  have "(ucast (ucast v :: u8) :: u32) OR push_bit 8 (ucast (ucast (drop_bit 8 v) :: u8))
     OR push_bit 16 (ucast (ucast (drop_bit 16 v) :: u8))
     OR push_bit 24 (ucast (ucast (drop_bit 24 v) :: u8)) = v"
    by (rule bit_word_eqI)
      (auto simp: bit_simps not_less less_diff_conv2, rule ccontr, simp add: not_less)
  then show ?thesis
    by (simp add: get32_def le32_def numeral_2_eq_2 numeral_3_eq_3)
qed

lemma get16_shift: "get16 (xs @ ys) (length xs + i) = get16 ys i"
  by (simp add: get16_def nth0_append)

lemma get32_shift: "get32 (xs @ ys) (length xs + i) = get32 ys i"
  by (simp add: get32_def nth0_append)

lemma unat_ucast_8_16 [simp]: "unat (ucast (x :: u8) :: u16) = unat x"
  by (simp add: unsigned_ucast_eq take_bit_nat_eq_self order.strict_trans2 [OF unsigned_less])

lemma unat_ucast_8_32 [simp]: "unat (ucast (x :: u8) :: u32) = unat x"
  by (simp add: unsigned_ucast_eq take_bit_nat_eq_self order.strict_trans2 [OF unsigned_less])

lemma unat_ucast_16_32 [simp]: "unat (ucast (x :: u16) :: u32) = unat x"
  by (simp add: unsigned_ucast_eq take_bit_nat_eq_self order.strict_trans2 [OF unsigned_less])

lemma unat_of_nat_lt:
  "n < 2 ^ LENGTH('a) \<Longrightarrow> unat (of_nat n :: 'a :: len word) = n"
  by (simp add: unat_of_nat take_bit_nat_eq_self)

lemma unat_u8_lt [simp]: "unat (x :: u8) < 256"
  using unsigned_less [of x] by simp

lemma unat_u8_le [simp]: "unat (x :: u8) \<le> 255" "unat (x :: u8) \<le> 256" "\<not> 256 < unat (x :: u8)"
proof -
  have "unat x < 256" by (rule unat_u8_lt)
  then show "unat x \<le> 255" "unat x \<le> 256" "\<not> 256 < unat x" by linarith+
qed

lemma unat_u16_lt [simp]: "unat (x :: u16) < 65536"
  using unsigned_less [of x] by simp

lemma unat_u32_lt [simp]: "unat (x :: u32) < 4294967296"
  using unsigned_less [of x] by simp

lemma unat_plus_no_wrap:
  fixes x y :: "'a :: len word"
  assumes "unat x + unat y < 2 ^ LENGTH('a)"
  shows "unat (x + y) = unat x + unat y"
  using assms by (simp add: unat_word_ariths)

lemma unat_minus_no_wrap:
  fixes x y :: "'a :: len word"
  shows "y \<le> x \<Longrightarrow> unat (x - y) = unat x - unat y"
  by (rule unat_sub)

lemma nth0_4:
  "nth0 (a # b # c # d # bs) 1 = b" "nth0 (a # b # c # d # bs) 2 = c" "nth0 (a # b # c # d # bs) 3 = d"
  by (simp_all add: nth0_def)

lemma u8_eqI:
  fixes a b :: u8
  assumes "bit a 0 = bit b 0" "bit a 1 = bit b 1" "bit a 2 = bit b 2" "bit a 3 = bit b 3"
    "bit a 4 = bit b 4" "bit a 5 = bit b 5" "bit a 6 = bit b 6" "bit a 7 = bit b 7"
  shows "a = b"
proof (rule bit_word_eqI)
  fix n :: nat
  assume "n < LENGTH(8)"
  then have "n = 0 \<or> n = 1 \<or> n = 2 \<or> n = 3 \<or> n = 4 \<or> n = 5 \<or> n = 6 \<or> n = 7"
    by (simp add: less_Suc_eq numeral_eq_Suc)
  then show "bit a n = bit b n" using assms by metis
qed

text \<open>
  The first two bytes of a PLDM and of an MCTP control header: message type and integrity bit, then instance
  id, reserved bit, datagram bit and request bit.
\<close>

lemma msg_type_byte:
  "(ucast (ucast t OR push_bit 7 (flag ic) :: u8) :: 7 word) = t"
  "bit (ucast (t :: 7 word) OR push_bit 7 (flag ic) :: u8) 7 = ic"
  by (rule bit_word_eqI) (auto simp: flag_def bit_simps dest: bit_imp_le_length)

lemma req_d_id_byte:
  fixes i :: "5 word" and rsvd d rq :: bool
  defines "b \<equiv> ucast i OR push_bit 5 (flag rsvd) OR push_bit 6 (flag d) OR push_bit 7 (flag rq) :: u8"
  shows "(ucast b :: 5 word) = i" and "bit b 5 = rsvd" and "bit b 6 = d" and "bit b 7 = rq"
proof -
  show "(ucast b :: 5 word) = i" unfolding b_def by (rule bit_word_eqI) (auto simp: flag_def bit_simps)
  show "bit b 5 = rsvd" "bit b 6 = d" "bit b 7 = rq"
    unfolding b_def by (auto simp: flag_def bit_simps dest: bit_imp_le_length)
qed

section \<open>Interleavings\<close>

lemma shuffles_map:
  "ps \<in> shuffles (map f xs) (map f ys) \<Longrightarrow> \<exists>qs \<in> shuffles xs ys. ps = map f qs"
proof (induction xs ys arbitrary: ps rule: shuffles.induct)
  case (3 x xs y ys)
  from "3.prems" consider (l) ps' where "ps = f x # ps'" "ps' \<in> shuffles (map f xs) (map f (y # ys))"
    | (r) ps' where "ps = f y # ps'" "ps' \<in> shuffles (map f (x # xs)) (map f ys)"
    by (auto elim: shufflesE)
  then show ?case
  proof cases
    case l
    then obtain qs where "qs \<in> shuffles xs (y # ys)" "ps' = map f qs" using "3.IH"(1) by blast
    with l show ?thesis by (intro bexI [of _ "x # qs"]) (auto intro: Cons_in_shuffles_leftI)
  next
    case r
    then obtain qs where "qs \<in> shuffles (x # xs) ys" "ps' = map f qs" using "3.IH"(2) by blast
    with r show ?thesis by (intro bexI [of _ "y # qs"]) (auto intro: Cons_in_shuffles_rightI)
  qed
qed auto

lemma two_filters:
  assumes "filter P xs = [a]" and "filter (\<lambda>x. \<not> P x) xs = [b]"
  shows "xs = [a, b] \<or> xs = [b, a]"
proof (cases xs)
  case Nil
  then show ?thesis using assms by simp
next
  case (Cons x ys)
  then show ?thesis using assms
    by (cases ys) (auto split: if_splits simp: filter_empty_conv)
qed

end
