(* ===== verification/Libutil.thy ===== *)
theory Libutil
  imports Prelude
begin

text \<open>
  The helper library \<^verbatim>\<open>src/common/lib/libutil.c\<close> with the two message structs it builds
  (\<^verbatim>\<open>ipmi_msg\<close> of \<^verbatim>\<open>service/ipmb/ipmb.h\<close>, \<^verbatim>\<open>I2C_MSG\<close> of \<^verbatim>\<open>hal/hal_i2c.h\<close>). Arrays that the C code
  updates in place are lists that the operation takes and returns; a loop over an index is a
  recursive function over that index. \<^verbatim>\<open>None\<close> is an access outside the array. The routine
  \<^verbatim>\<open>power\<close> works on \<^verbatim>\<open>double\<close> and is not modelled.
\<close>

section \<open>Definitions\<close>

subsection \<open>Message structs\<close>

definition IPMI_MSG_MAX_LENGTH :: nat where
  "IPMI_MSG_MAX_LENGTH = 527"

definition I2C_BUFF_SIZE :: nat where
  "I2C_BUFF_SIZE = 256"

record ipmi_msg =
  im_dest_addr :: u8
  im_netfn :: u8
  im_dest_LUN :: u8
  im_hdr_chksum :: u8
  im_src_addr :: u8
  im_seq_source :: u8
  im_seq_target :: u8
  im_seq :: u8
  im_pldm_inst_id :: u8
  im_InF_source :: u8
  im_InF_target :: u8
  im_src_LUN :: u8
  im_cmd :: u8
  im_completion_code :: u8
  im_data_len :: u16
  im_data :: bytes
  im_timestamp :: u32
  im_msg_chksum :: u8

record I2C_MSG =
  i2c_bus :: u8
  i2c_target_addr :: u8
  i2c_rx_len :: u8
  i2c_tx_len :: u8
  i2c_data :: bytes

text \<open>The local struct of the two constructors is not initialised; its content is an argument.\<close>

definition construct_ipmi_message ::
  "ipmi_msg \<Rightarrow> u8 \<Rightarrow> u8 \<Rightarrow> u8 \<Rightarrow> u8 \<Rightarrow> u8 \<Rightarrow> u16 \<Rightarrow> bytes option \<Rightarrow> ipmi_msg option" where
  "construct_ipmi_message m seq_source netFn command source_inft target_inft data_len data =
     (let m = m\<lparr>im_seq_source := seq_source, im_netfn := netFn, im_cmd := command,
                im_InF_source := source_inft, im_InF_target := target_inft,
                im_data_len := data_len\<rparr>
      in case data of
           None \<Rightarrow> Some m
         | Some d \<Rightarrow>
             if data_len = 0 then Some m
             else if unat data_len \<le> length d \<and> unat data_len \<le> length (im_data m)
             then Some (m\<lparr>im_data := memcpy_at 0 (take (unat data_len) d) (im_data m)\<rparr>)
             else None)"

definition construct_i2c_message ::
  "I2C_MSG \<Rightarrow> u8 \<Rightarrow> u8 \<Rightarrow> u8 \<Rightarrow> bytes option \<Rightarrow> u8 \<Rightarrow> I2C_MSG option" where
  "construct_i2c_message m bus_id address tx_len data rx_len =
     (let m = m\<lparr>i2c_bus := bus_id, i2c_target_addr := address, i2c_tx_len := tx_len,
                i2c_rx_len := rx_len\<rparr>
      in case data of
           None \<Rightarrow> Some m
         | Some d \<Rightarrow>
             if tx_len = 0 then Some m
             else if unat tx_len \<le> length d \<and> unat tx_len \<le> length (i2c_data m)
             then Some (m\<lparr>i2c_data := memcpy_at 0 (take (unat tx_len) d) (i2c_data m)\<rparr>)
             else None)"

subsection \<open>Arrays and numbers\<close>

definition swap_at :: "nat \<Rightarrow> nat \<Rightarrow> 'a list \<Rightarrow> 'a list" where
  "swap_at i j xs = xs[i := xs ! j, j := xs ! i]"

function reverse_array_loop :: "nat \<Rightarrow> nat \<Rightarrow> 'a list \<Rightarrow> 'a list" where
  "reverse_array_loop i sz arr =
     (if i < sz div 2 then reverse_array_loop (i + 1) sz (swap_at i (sz - 1 - i) arr)
      else arr)"
  by pat_completeness auto
termination
  by (relation "measure (\<lambda>(i, sz, _). sz div 2 - i)") auto

declare reverse_array_loop.simps [simp del]

definition reverse_array :: "bytes \<Rightarrow> u8 \<Rightarrow> bytes option" where
  "reverse_array arr sz =
     (if unat sz \<le> length arr then Some (reverse_array_loop 0 (unat sz) arr) else None)"

definition ascii_to_val :: "u8 \<Rightarrow> int" where
  "ascii_to_val b =
     (if 0x30 \<le> b \<and> b < 0x3A then uint b - 0x30
      else if 0x41 \<le> b \<and> b < 0x47 then uint b - 0x41 + 10
      else -1)"

definition uint32_t_byte_reverse :: "u32 \<Rightarrow> u32" where
  "uint32_t_byte_reverse d =
     (let r = drop_bit 1 (d AND 0xaaaaaaaa) OR push_bit 1 (d AND 0x55555555);
          r = drop_bit 2 (r AND 0xcccccccc) OR push_bit 2 (r AND 0x33333333);
          r = drop_bit 4 (r AND 0xf0f0f0f0) OR push_bit 4 (r AND 0x0f0f0f0f);
          r = drop_bit 8 (r AND 0xff00ff00) OR push_bit 8 (r AND 0x00ff00ff)
      in drop_bit 16 r OR (push_bit 16 r AND 0xffffffff))"

datatype byte_endian = SMALL_ENDIAN | BIG_ENDIAN

text \<open>The two conversions leave the output as it was when the length is not four.\<close>

definition convert_uint32_t_to_uint8_t_pointer ::
  "u32 \<Rightarrow> bytes \<Rightarrow> u8 \<Rightarrow> byte_endian \<Rightarrow> bytes" where
  "convert_uint32_t_to_uint8_t_pointer data_32 data_8 len endian =
     (if len \<noteq> 4 then data_8
      else memcpy_at 0
        (map (\<lambda>i. case endian of
                    SMALL_ENDIAN \<Rightarrow> ucast (drop_bit (8 * i) data_32 AND 0xFF)
                  | BIG_ENDIAN \<Rightarrow> ucast (drop_bit (24 - 8 * i) data_32 AND 0xFF))
          [0..<4])
        data_8)"

definition convert_uint8_t_pointer_to_uint32_t ::
  "u32 \<Rightarrow> bytes \<Rightarrow> u8 \<Rightarrow> byte_endian \<Rightarrow> u32" where
  "convert_uint8_t_pointer_to_uint32_t data_32 data_8 len endian =
     (if len \<noteq> 4 then data_32
      else case endian of
        SMALL_ENDIAN \<Rightarrow>
          push_bit 24 (ucast (nth0 data_8 3)) + push_bit 16 (ucast (nth0 data_8 2))
          + push_bit 8 (ucast (nth0 data_8 1)) + ucast (nth0 data_8 0)
      | BIG_ENDIAN \<Rightarrow>
          push_bit 24 (ucast (nth0 data_8 0)) + push_bit 16 (ucast (nth0 data_8 1))
          + push_bit 8 (ucast (nth0 data_8 2)) + ucast (nth0 data_8 3))"

function dec_ascii_loop :: "nat \<Rightarrow> u8 \<Rightarrow> bytes \<Rightarrow> nat \<Rightarrow> nat \<Rightarrow> nat \<times> bytes" where
  "dec_ascii_loop divisor val result idx len =
     (if divisor > 0 \<and> idx < len then
        if unat val div divisor = 0 \<and> idx = 0 \<and> divisor \<noteq> 1
        then dec_ascii_loop (divisor div 10) val result idx len
        else let digit = of_nat (unat val div divisor)
             in dec_ascii_loop (divisor div 10) (val - digit * of_nat divisor)
                  (result[idx := 0x30 + digit]) (idx + 1) len
      else (idx, result))"
  by pat_completeness auto
termination
  by (relation "measure (\<lambda>(divisor, _). divisor)") auto

declare dec_ascii_loop.simps [simp del]

definition uint8_t_to_dec_ascii_pointer :: "u8 \<Rightarrow> bytes \<Rightarrow> u8 \<Rightarrow> nat \<times> bytes" where
  "uint8_t_to_dec_ascii_pointer val result len = dec_ascii_loop 100 val result 0 (unat len)"

function find_byte_data_in_buf :: "bytes \<Rightarrow> u8 \<Rightarrow> int \<Rightarrow> int \<Rightarrow> int option" where
  "find_byte_data_in_buf buf byte_data index end_index =
     (if index < end_index then
        if index < 0 \<or> int (length buf) \<le> index then None
        else if buf ! nat index = byte_data then Some index
        else find_byte_data_in_buf buf byte_data (index + 1) end_index
      else Some (-1))"
  by pat_completeness auto
termination
  by (relation "measure (\<lambda>(_, _, index, end_index). nat (end_index - index))") auto

declare find_byte_data_in_buf.simps [simp del]

definition CLEARBIT :: "u32 \<Rightarrow> nat \<Rightarrow> u32" where
  "CLEARBIT x y = ucast ((ucast x :: u64) AND NOT (push_bit y 1))"

definition clear_bits :: "u32 \<Rightarrow> int \<Rightarrow> int \<Rightarrow> u32" where
  "clear_bits value start_bit end_bit =
     (if start_bit < 0 \<or> 31 < end_bit then value
      else fold (\<lambda>index v. CLEARBIT v index) [nat start_bit..<nat (end_bit + 1)] value)"

function bubble_pass :: "nat \<Rightarrow> nat \<Rightarrow> int list \<Rightarrow> int list" where
  "bubble_pass j m a =
     (if j < m then bubble_pass (j + 1) m (if a ! (j + 1) < a ! j then swap_at j (j + 1) a else a)
      else a)"
  by pat_completeness auto
termination
  by (relation "measure (\<lambda>(j, m, _). m - j)") auto

declare bubble_pass.simps [simp del]

function bubble_rounds :: "nat \<Rightarrow> nat \<Rightarrow> int list \<Rightarrow> int list" where
  "bubble_rounds i len a =
     (if i < len - 1 then bubble_rounds (i + 1) len (bubble_pass 0 (len - i - 1) a) else a)"
  by pat_completeness auto
termination
  by (relation "measure (\<lambda>(i, len, _). len - i)") auto

declare bubble_rounds.simps [simp del]

definition sort_bubble :: "int list \<Rightarrow> int \<Rightarrow> int list option" where
  "sort_bubble a len =
     (if len \<le> int (length a) then Some (bubble_rounds 0 (nat len) a) else None)"

subsection \<open>Strings of 16-bit characters\<close>

fun strlen16 :: "u16 list \<Rightarrow> nat option" where
  "strlen16 [] = None"
| "strlen16 (c # cs) = (if c = 0 then Some 0 else map_option Suc (strlen16 cs))"

fun strcpy16 :: "u16 list \<Rightarrow> u16 list \<Rightarrow> u16 list option" where
  "strcpy16 (d # ds) (s # ss) =
     (if s = 0 then Some (0 # ds) else map_option ((#) s) (strcpy16 ds ss))"
| "strcpy16 _ _ = None"

definition ch16_strcat_char :: "u16 list \<Rightarrow> u16 list option" where
  "ch16_strcat_char dest = map_option (\<lambda>len. dest[len := 0]) (strlen16 dest)"

subsection \<open>Reference: the number a decimal string denotes\<close>

fun dec_val :: "bytes \<Rightarrow> nat \<Rightarrow> nat" where
  "dec_val [] acc = acc"
| "dec_val (c # cs) acc = dec_val cs (10 * acc + (unat c - 48))"

section \<open>Reversal\<close>

lemma length_swap_at [simp]: "length (swap_at i j xs) = length xs"
  by (simp add: swap_at_def)

lemma nth_swap_at:
  "i < length xs \<Longrightarrow> j < length xs \<Longrightarrow>
   swap_at i j xs ! k = (if k = i then xs ! j else if k = j then xs ! i else xs ! k)"
  by (auto simp: swap_at_def nth_list_update)

lemma mset_swap_at [simp]:
  "i < length xs \<Longrightarrow> j < length xs \<Longrightarrow> mset (swap_at i j xs) = mset xs"
  by (simp add: swap_at_def mset_swap)

lemma reverse_array_loop_props:
  assumes "sz \<le> length arr" and "i \<le> sz div 2"
  shows "length (reverse_array_loop i sz arr) = length arr \<and>
    (\<forall>k < length arr. reverse_array_loop i sz arr ! k =
       (if i \<le> k \<and> k < sz - i then arr ! (sz - 1 - k) else arr ! k))"
  using assms
proof (induction i sz arr rule: reverse_array_loop.induct)
  case (1 i sz arr)
  show ?case
  proof (cases "i < sz div 2")
    case True
    let ?a = "swap_at i (sz - 1 - i) arr"
    have ij: "i < length arr" "sz - 1 - i < length arr" "i < sz - 1 - i"
      using True 1(2) by linarith+
    have step: "reverse_array_loop i sz arr = reverse_array_loop (i + 1) sz ?a"
      using True by (simp add: reverse_array_loop.simps [of i sz arr])
    have len: "length (reverse_array_loop (i + 1) sz ?a) = length arr"
      and nth: "\<forall>k < length arr. reverse_array_loop (i + 1) sz ?a ! k =
         (if i + 1 \<le> k \<and> k < sz - (i + 1) then ?a ! (sz - 1 - k) else ?a ! k)"
      using 1(1) [OF True] 1(2) True by simp_all
    have "(if i + 1 \<le> k \<and> k < sz - (i + 1) then ?a ! (sz - 1 - k) else ?a ! k) =
        (if i \<le> k \<and> k < sz - i then arr ! (sz - 1 - k) else arr ! k)" if "k < length arr" for k
    proof -
      consider "k = i" | "k = sz - 1 - i" | "i < k \<and> k < sz - 1 - i" | "k < i \<or> sz - 1 - i < k"
        by linarith
      then show ?thesis
        using ij by cases (auto simp: nth_swap_at)
    qed
    with step len nth show ?thesis by simp
  next
    case False
    with 1 have i: "i = sz div 2" by simp
    have "k = sz - 1 - k" if "i \<le> k" "k < sz - i" for k
      using that i by linarith
    with False show ?thesis
      by (auto simp: reverse_array_loop.simps [of i sz arr])
  qed
qed

lemma reverse_array_eq:
  assumes "unat sz \<le> length arr"
  shows "reverse_array arr sz = Some (rev (take (unat sz) arr) @ drop (unat sz) arr)"
proof -
  let ?n = "unat sz"
  have "reverse_array_loop 0 ?n arr = rev (take ?n arr) @ drop ?n arr"
    using reverse_array_loop_props [of ?n arr 0] assms
    by (auto intro!: nth_equalityI simp: nth_append rev_nth)
  with assms show ?thesis by (simp add: reverse_array_def)
qed

section \<open>Bubble sort\<close>

lemma length_bubble_pass [simp]: "length (bubble_pass j m a) = length a"
  by (induction j m a rule: bubble_pass.induct) (subst bubble_pass.simps, auto)

lemma mset_bubble_pass: "m < length a \<Longrightarrow> mset (bubble_pass j m a) = mset a"
  by (induction j m a rule: bubble_pass.induct) (subst bubble_pass.simps, auto)

text \<open>One pass leaves the maximum of the scanned prefix at its end and the rest in place.\<close>

lemma bubble_pass_props:
  assumes "m < length a" and "j \<le> m" and "\<forall>k < j. a ! k \<le> a ! j"
  shows "(\<forall>k \<le> m. bubble_pass j m a ! k \<le> bubble_pass j m a ! m) \<and>
    (\<forall>k. m < k \<longrightarrow> bubble_pass j m a ! k = a ! k)"
  using assms
proof (induction j m a rule: bubble_pass.induct)
  case (1 j m a)
  show ?case
  proof (cases "j < m")
    case True
    let ?a = "if a ! (j + 1) < a ! j then swap_at j (j + 1) a else a"
    have "\<forall>k < j + 1. ?a ! k \<le> ?a ! (j + 1)"
      using 1(2-4) True by (auto simp: nth_swap_at less_Suc_eq)
    moreover have "\<forall>k. m < k \<longrightarrow> ?a ! k = a ! k"
      using True 1(2) by (auto simp: nth_swap_at)
    ultimately show ?thesis
      using 1(1) [OF True] 1(2) True by (auto simp: bubble_pass.simps [of j m a])
  next
    case False
    with 1 have "j = m" by simp
    with 1 show ?thesis
      by (auto simp: bubble_pass.simps [of m m a] le_less)
  qed
qed

lemma length_bubble_rounds [simp]: "length (bubble_rounds i len a) = length a"
  by (induction i len a rule: bubble_rounds.induct) (subst bubble_rounds.simps, auto)

lemma mset_bubble_rounds: "len \<le> length a \<Longrightarrow> mset (bubble_rounds i len a) = mset a"
  by (induction i len a rule: bubble_rounds.induct)
    (subst bubble_rounds.simps, auto simp: mset_bubble_pass)

definition tail_sorted :: "nat \<Rightarrow> nat \<Rightarrow> int list \<Rightarrow> bool" where
  "tail_sorted p len a \<longleftrightarrow> (\<forall>k l. k < l \<and> p \<le> l \<and> l < len \<longrightarrow> a ! k \<le> a ! l)"

lemma bubble_pass_set_prefix:
  assumes "m < length a"
  shows "k \<le> m \<Longrightarrow> \<exists>k' \<le> m. bubble_pass j m a ! k = a ! k'"
  using assms
proof (induction j m a arbitrary: k rule: bubble_pass.induct)
  case (1 j m a)
  show ?case
  proof (cases "j < m")
    case True
    let ?a = "if a ! (j + 1) < a ! j then swap_at j (j + 1) a else a"
    have len: "m < length ?a" using 1 by simp
    from 1(1) [OF True 1(2) len] obtain k' where
      "k' \<le> m" "bubble_pass (j + 1) m ?a ! k = ?a ! k'" by blast
    moreover have "\<exists>k'' \<le> m. ?a ! k' = a ! k''"
      using \<open>k' \<le> m\<close> True 1(3)
      by (cases "k' = j"; cases "k' = j + 1")
        (auto simp: nth_swap_at intro: exI [of _ j] exI [of _ "Suc j"])
    ultimately show ?thesis
      using True by (auto simp: bubble_pass.simps [of j m a])
  next
    case False
    with 1(2) show ?thesis by (subst bubble_pass.simps) auto
  qed
qed

lemma bubble_pass_tail_sorted:
  assumes "tail_sorted (Suc m) len a" and "m < len" and "len \<le> length a"
  shows "tail_sorted m len (bubble_pass 0 m a)"
  unfolding tail_sorted_def
proof (intro allI impI)
  let ?b = "bubble_pass 0 m a"
  fix k l
  assume kl: "k < l \<and> m \<le> l \<and> l < len"
  have m: "m < length a" using assms by simp
  have max: "\<forall>k \<le> m. ?b ! k \<le> ?b ! m" and rest: "\<forall>k. m < k \<longrightarrow> ?b ! k = a ! k"
    using bubble_pass_props [of m a 0] m by auto
  show "?b ! k \<le> ?b ! l"
  proof (cases "l = m")
    case True
    with kl max show ?thesis by simp
  next
    case False
    with kl have l: "m < l" "l < len" by auto
    obtain k' where k': "k' < l" "?b ! k = a ! k'"
    proof (cases "k \<le> m")
      case True
      then obtain k' where "k' \<le> m" "?b ! k = a ! k'"
        using bubble_pass_set_prefix [OF m] by blast
      with l that [of k'] show ?thesis by simp
    next
      case False
      with rest kl that [of k] show ?thesis by simp
    qed
    with l rest assms(1) show ?thesis by (auto simp: tail_sorted_def)
  qed
qed

lemma bubble_rounds_sorted:
  assumes "tail_sorted (len - i) len a" and "len \<le> length a"
  shows "tail_sorted (min 1 len) len (bubble_rounds i len a)"
  using assms
proof (induction i len a rule: bubble_rounds.induct)
  case (1 i len a)
  show ?case
  proof (cases "i < len - 1")
    case True
    then have "Suc (len - i - 1) = len - i" by simp
    with 1(2,3) True have "tail_sorted (len - i - 1) len (bubble_pass 0 (len - i - 1) a)"
      by (intro bubble_pass_tail_sorted) auto
    with 1(1) [OF True] 1(3) True show ?thesis
      by (subst bubble_rounds.simps) simp
  next
    case False
    then have "len - i \<le> min 1 len" by auto
    with 1(2) False show ?thesis
      by (subst bubble_rounds.simps) (auto simp: tail_sorted_def)
  qed
qed

lemma tail_sorted_sorted:
  "tail_sorted (min 1 len) len a \<Longrightarrow> len \<le> length a \<Longrightarrow> sorted (take len a)"
  by (auto simp: sorted_iff_nth_mono_less tail_sorted_def)

lemma bubble_pass_drop: "m < n \<Longrightarrow> m < length a \<Longrightarrow> drop n (bubble_pass 0 m a) = drop n a"
  using bubble_pass_props [of m a 0] by (auto intro!: nth_equalityI)

lemma bubble_rounds_drop:
  "len \<le> length a \<Longrightarrow> drop len (bubble_rounds i len a) = drop len a"
proof (induction i len a rule: bubble_rounds.induct)
  case (1 i len a)
  then show ?case
    by (subst bubble_rounds.simps) (auto simp: bubble_pass_drop)
qed

text \<open>
  For any length within the array, the bubble sort returns the first \<open>len\<close> elements in
  ascending order, as the library's sort of them, and leaves the elements behind them alone.
\<close>

theorem sort_bubble_sorts:
  assumes "0 \<le> len" and "len \<le> int (length a)"
  shows "sort_bubble a len = Some (sort (take (nat len) a) @ drop (nat len) a)"
proof -
  let ?n = "nat len" and ?b = "bubble_rounds 0 (nat len) a"
  have n: "?n \<le> length a" using assms by simp
  have "tail_sorted ?n ?n a" by (auto simp: tail_sorted_def)
  then have "sorted (take ?n ?b)"
    using bubble_rounds_sorted [of ?n 0 a] n by (simp add: tail_sorted_sorted)
  moreover have "mset (take ?n ?b) = mset (take ?n a)"
  proof -
    have "mset (take ?n ?b @ drop ?n ?b) = mset (take ?n a @ drop ?n a)"
      by (simp add: mset_bubble_rounds n)
    then show ?thesis
      unfolding mset_append bubble_rounds_drop [OF n] by simp
  qed
  ultimately have "take ?n ?b = sort (take ?n a)"
    by (simp add: properties_for_sort)
  then show ?thesis
    using assms bubble_rounds_drop [OF n, of 0]
    by (simp add: sort_bubble_def) (metis append_take_drop_id)
qed

theorem sort_bubble_sorts_witness: "sort_bubble [3, 1, 2, 0] 3 = Some [1, 2, 3, 0]"
proof -
  have "sort_bubble [3, 1, 2, 0] 3 = Some (sort (take (nat 3) [3, 1, 2, 0]) @ drop (nat 3) [3, 1, 2, 0])"
    by (rule sort_bubble_sorts) simp_all
  then show ?thesis by (simp add: numeral_3_eq_3)
qed

section \<open>Bit reversal\<close>

lemma bit_swap_stage:
  "bit (drop_bit k (d AND m) OR push_bit k (d AND m') :: u32) i \<longleftrightarrow>
     bit d (k + i) \<and> bit m (k + i) \<or> k \<le> i \<and> i < 32 \<and> bit d (i - k) \<and> bit m' (i - k)"
  by (auto simp: bit_simps)

lemma bit_swap_last:
  "bit (drop_bit 16 r OR (push_bit 16 r AND 0xffffffff) :: u32) i \<longleftrightarrow>
     bit r (16 + i) \<or> 16 \<le> i \<and> i < 32 \<and> bit r (i - 16)"
proof -
  have "(0xffffffff :: u32) = - 1" by simp
  then have "push_bit 16 r AND 0xffffffff = push_bit 16 r" by (simp only: and.right_neutral)
  then show ?thesis by (auto simp: bit_simps)
qed

lemma bit_uint32_t_byte_reverse:
  "bit (uint32_t_byte_reverse d) i \<longleftrightarrow> i < 32 \<and> bit d (31 - i)"
proof (cases "i < 32")
  case True
  have "[0..<32] = [0, 1, 2, 3, 4, 5, 6, 7, 8, 9, 10, 11, 12, 13, 14, 15,
      16, 17, 18, 19, 20, 21, 22, 23, 24, 25, 26, 27, 28, 29, 30, 31]"
    by (simp add: upt_conv_Cons)
  with True have "i \<in> set [0, 1, 2, 3, 4, 5, 6, 7, 8, 9, 10, 11, 12, 13, 14, 15,
      16, 17, 18, 19, 20, 21, 22, 23, 24, 25, 26, 27, 28, 29, 30, 31]"
    by (metis atLeast0LessThan lessThan_iff set_upt)
  then show ?thesis
    unfolding uint32_t_byte_reverse_def Let_def list.set
    by (elim insertE emptyE; simp only: bit_swap_last bit_swap_stage; simp;
        simp add: numeral_2_eq_2 numeral_3_eq_3)
next
  case False
  then show ?thesis by (auto dest: bit_imp_le_length)
qed

lemma uint32_t_byte_reverse_involution: "uint32_t_byte_reverse (uint32_t_byte_reverse d) = d"
  by (rule bit_word_eqI) (auto simp: bit_uint32_t_byte_reverse)

section \<open>Byte order conversions\<close>

lemma push_add_or: 
  "push_bit 24 (ucast (d :: u8)) + push_bit 16 (ucast (c :: u8)) + push_bit 8 (ucast (b :: u8)) + ucast (a :: u8)
   = (ucast a OR push_bit 8 (ucast b) OR push_bit 16 (ucast c) OR push_bit 24 (ucast d) :: u32)"
proof -
  have "push_bit 24 (ucast d) + push_bit 16 (ucast c) = (push_bit 24 (ucast d) OR push_bit 16 (ucast c) :: u32)"
    by (rule disjunctive_add) (auto simp: bit_simps dest: bit_imp_le_length)
  moreover have "\<dots> + push_bit 8 (ucast b) = (\<dots> OR push_bit 8 (ucast b) :: u32)"
    by (rule disjunctive_add) (auto simp: bit_simps dest: bit_imp_le_length)
  moreover have "((push_bit 24 (ucast d) OR push_bit 16 (ucast c)) OR push_bit 8 (ucast b)) + ucast a
     = (((push_bit 24 (ucast d) OR push_bit 16 (ucast c)) OR push_bit 8 (ucast b)) OR ucast a :: u32)"
    by (rule disjunctive_add) (auto simp: bit_simps dest: bit_imp_le_length)
  ultimately show ?thesis by (simp add: ac_simps)
qed

lemma mask_ucast: "ucast (x AND 0xFF :: u32) = (ucast x :: u8)"
proof -
  have "(0xFF :: u32) = mask 8" by (simp add: mask_eq_exp_minus_1)
  moreover have "ucast (x AND mask 8 :: u32) = (ucast x :: u8)"
    by (rule bit_word_eqI) (auto simp: bit_simps simp del: mask_numeral)
  ultimately show ?thesis by (simp only:)
qed

lemma convert_uint8_t_pointer_eq:
  "convert_uint8_t_pointer_to_uint32_t v bs 4 SMALL_ENDIAN = get32 bs 0"
  "convert_uint8_t_pointer_to_uint32_t v bs 4 BIG_ENDIAN =
     get32 [nth0 bs 3, nth0 bs 2, nth0 bs 1, nth0 bs 0] 0"
  by (simp_all add: convert_uint8_t_pointer_to_uint32_t_def push_add_or get32_def
      numeral_2_eq_2 numeral_3_eq_3)

lemma convert_uint32_t_eq:
  "convert_uint32_t_to_uint8_t_pointer v bs 4 SMALL_ENDIAN = memcpy_at 0 (le32 v) bs"
  "convert_uint32_t_to_uint8_t_pointer v bs 4 BIG_ENDIAN = memcpy_at 0 (rev (le32 v)) bs"
  by (simp_all add: convert_uint32_t_to_uint8_t_pointer_def le32_def upt_conv_Cons mask_ucast)

lemma nth0_memcpy_rev:
  "\<forall>i \<in> {0,1,2,3}. nth0 (memcpy_at 0 (rev (le32 v)) bs) i = nth0 (le32 v) (3 - i)"
  by (simp add: memcpy_at_def le32_def numeral_2_eq_2 numeral_3_eq_3)

text \<open>
  Writing a 32-bit value into a buffer and reading it back gives the value, in either byte
  order, whatever the buffer held before.
\<close>

theorem convert_roundtrip:
  "convert_uint8_t_pointer_to_uint32_t w (convert_uint32_t_to_uint8_t_pointer v bs 4 e) 4 e = v"
proof (cases e)
  case SMALL_ENDIAN
  then show ?thesis
    by (simp add: convert_uint8_t_pointer_eq convert_uint32_t_eq memcpy_at_def)
next
  case BIG_ENDIAN
  have "[nth0 (le32 v) 0, nth0 (le32 v) 1, nth0 (le32 v) 2, nth0 (le32 v) 3] = le32 v"
    by (simp add: le32_def numeral_2_eq_2 numeral_3_eq_3)
  with BIG_ENDIAN nth0_memcpy_rev [of v bs] get32_le32 [of v "[]"] show ?thesis
    by (simp add: convert_uint8_t_pointer_eq convert_uint32_t_eq)
qed

section \<open>Decimal digits\<close>

lemma unat_digit: "n < 10 \<Longrightarrow> unat (0x30 + of_nat n :: u8) = 48 + n"
  by (simp add: unat_word_ariths unat_of_nat take_bit_nat_eq_self)

lemma unat_rem: 
  assumes "0 < d" "d < 256"
  shows "unat (v - of_nat (unat (v::u8) div d) * of_nat d) = unat v mod d"
proof -
  have "v - of_nat (unat v div d) * of_nat d = of_nat (unat v) - of_nat (unat v div d * d)"
    by simp
  also have "\<dots> = of_nat (unat v - unat v div d * d)"
    by (simp add: of_nat_diff div_times_less_eq_dividend)
  also have "\<dots> = of_nat (unat v mod d)"
    by (simp add: minus_div_mult_eq_mod)
  finally have "v - of_nat (unat v div d) * of_nat d = of_nat (unat v mod d)" .
  moreover have "unat v mod d < 256" using assms by (meson mod_less_divisor less_trans)
  ultimately show ?thesis by (simp add: unat_of_nat_lt)
qed

lemma dec_ascii_loop_stop [simp]: "dec_ascii_loop 0 v r i len = (i, r)"
  by (simp add: dec_ascii_loop.simps)

lemma dec_ascii_skip:
  "unat v < d \<Longrightarrow> 1 < d \<Longrightarrow> 0 < len \<Longrightarrow>
   dec_ascii_loop d v r 0 len = dec_ascii_loop (d div 10) v r 0 len"
  by (simp add: dec_ascii_loop.simps [of d])

lemma dec_ascii_emit:
  "0 < d \<Longrightarrow> i < len \<Longrightarrow> d \<le> unat v \<or> 0 < i \<or> d = 1 \<Longrightarrow>
   dec_ascii_loop d v r i len =
     dec_ascii_loop (d div 10) (v - of_nat (unat v div d) * of_nat d)
       (r[i := 0x30 + of_nat (unat v div d)]) (i + 1) len"
  by (auto simp: dec_ascii_loop.simps [of d] Let_def div_eq_0_iff)

lemma dec_ascii_cases:
  assumes "3 \<le> len" and "length r = len"
  shows
    "unat v < 10 \<Longrightarrow> dec_ascii_loop 100 v r 0 len = (1, r[0 := 0x30 + of_nat (unat v)])"
    "10 \<le> unat v \<Longrightarrow> unat v < 100 \<Longrightarrow> dec_ascii_loop 100 v r 0 len =
       (2, r[0 := 0x30 + of_nat (unat v div 10), 1 := 0x30 + of_nat (unat v mod 10)])"
    "100 \<le> unat v \<Longrightarrow> dec_ascii_loop 100 v r 0 len =
       (3, r[0 := 0x30 + of_nat (unat v div 100), 1 := 0x30 + of_nat (unat v mod 100 div 10),
             2 := 0x30 + of_nat (unat v mod 10)])"
proof -
  have step3: "dec_ascii_loop 1 w q i len = (i + 1, q[i := 0x30 + of_nat (unat w)])"
    if "i < len" for w q i
    using that by (simp add: dec_ascii_emit)
  have step2: "dec_ascii_loop 10 w q i len =
      (i + 2, q[i := 0x30 + of_nat (unat w div 10), i + 1 := 0x30 + of_nat (unat w mod 10)])"
    if "i + 1 < len" "10 \<le> unat w \<or> 0 < i" for w q i
    using that step3 unat_rem [of 10 w] by (simp add: dec_ascii_emit)
  show "unat v < 10 \<Longrightarrow> dec_ascii_loop 100 v r 0 len = (1, r[0 := 0x30 + of_nat (unat v)])"
    using assms step3 [of 0] by (simp add: dec_ascii_skip)
  show "10 \<le> unat v \<Longrightarrow> unat v < 100 \<Longrightarrow> dec_ascii_loop 100 v r 0 len =
       (2, r[0 := 0x30 + of_nat (unat v div 10), 1 := 0x30 + of_nat (unat v mod 10)])"
    using assms step2 [of 0] by (simp add: dec_ascii_skip)
  show "100 \<le> unat v \<Longrightarrow> dec_ascii_loop 100 v r 0 len =
       (3, r[0 := 0x30 + of_nat (unat v div 100), 1 := 0x30 + of_nat (unat v mod 100 div 10),
             2 := 0x30 + of_nat (unat v mod 10)])"
    using assms step2 [of 1] unat_rem [of 100 v]
    by (simp add: dec_ascii_emit [of 100] mod_mod_cancel) (simp add: numeral_2_eq_2)
qed

text \<open>
  Given room for three characters, the routine writes between one and three digits, which
  denote the value in decimal without a leading zero, and changes nothing behind them.
\<close>

theorem uint8_t_to_dec_ascii_pointer_correct:
  assumes "3 \<le> len" and "length r = unat len"
    and "uint8_t_to_dec_ascii_pointer v r len = (n, out)"
  shows "1 \<le> n \<and> n \<le> 3 \<and> length out = length r \<and> drop n out = drop n r \<and>
    dec_val (take n out) 0 = unat v \<and> (1 < n \<longrightarrow> out ! 0 \<noteq> 0x30)"
proof -
  from assms(1) have len: "3 \<le> unat len" by (simp add: word_le_nat_alt)
  with assms(2) obtain a b c q where r: "r = a # b # c # q"
    by (cases r rule: list.exhaust; cases "tl r"; cases "tl (tl r)") auto
  have digits: "unat v div 100 < 10" "unat v mod 100 div 10 < 10" "unat v mod 10 < 10"
    using unat_u8_lt [of v] by linarith+
  have split: "100 * (unat v div 100) + 10 * (unat v mod 100 div 10) + unat v mod 10 = unat v"
  proof -
    have "unat v mod 10 = unat v mod 100 mod 10" by (simp add: mod_mod_cancel)
    then show ?thesis by (simp only: add.assoc mult_div_mod_eq)
  qed
  have nz: "(0x30 + of_nat m :: u8) \<noteq> 0x30" if "0 < m" "m < 10" for m
  proof
    assume eq: "(0x30 + of_nat m :: u8) = 0x30"
    have "48 + m = unat (0x30 + of_nat m :: u8)" using unat_digit that by simp
    also have "\<dots> = 48" by (simp only: eq) simp
    finally show False using that by simp
  qed
  have "dec_ascii_loop 100 v r 0 (unat len) = (n, out)"
    using assms(3) by (simp add: uint8_t_to_dec_ascii_pointer_def)
  note cases3 = dec_ascii_cases [OF len assms(2), of v, unfolded this prod.inject]
  consider "unat v < 10" | "10 \<le> unat v" "unat v < 100" | "100 \<le> unat v" by linarith
  then show ?thesis
  proof cases
    case 1
    with cases3(1) show ?thesis using unat_digit [of "unat v"] by (simp add: r)
  next
    case 2
    with cases3(2) show ?thesis
      using nz [of "unat v div 10"] by (auto simp: r unat_digit numeral_2_eq_2)
  next
    case 3
    with cases3(3) show ?thesis
      using nz [of "unat v div 100"] digits split by (auto simp: r unat_digit numeral_2_eq_2 numeral_3_eq_3)
  qed
qed

theorem uint8_t_to_dec_ascii_pointer_correct_witness:
  "uint8_t_to_dec_ascii_pointer 205 [0, 0, 0] 3 = (3, [50, 48, 53]) \<and>
   dec_val (take 3 [50, 48, 53]) 0 = unat (205 :: u8)"
proof -
  have e: "uint8_t_to_dec_ascii_pointer 205 [0, 0, 0] 3 = (3, [50, 48, 53])"
    by code_simp
  show ?thesis
    using e uint8_t_to_dec_ascii_pointer_correct [OF _ _ e] by simp
qed

section \<open>Searching, clearing bits, 16-bit strings\<close>

lemma find_byte_data_in_buf_eq:
  assumes "0 \<le> i" and "e \<le> int (length buf)"
  shows "find_byte_data_in_buf buf b i e =
    Some (case find (\<lambda>k. buf ! k = b) [nat i..<nat e] of None \<Rightarrow> -1 | Some k \<Rightarrow> int k)"
  using assms
proof (induction buf b i e rule: find_byte_data_in_buf.induct)
  case (1 buf b i e)
  show ?case
  proof (cases "i < e")
    case True
    with "1.prems" have "[nat i..<nat e] = nat i # [nat (i + 1)..<nat e]"
      by (simp add: upt_conv_Cons nat_add_distrib)
    with True 1 show ?thesis
      by (simp add: find_byte_data_in_buf.simps [of buf b i e])
  next
    case False
    with "1.prems" show ?thesis by (simp add: find_byte_data_in_buf.simps [of buf b i e])
  qed
qed

lemma bit_CLEARBIT: "y < 32 \<Longrightarrow> bit (CLEARBIT x y) i \<longleftrightarrow> bit x i \<and> i \<noteq> y"
  by (auto simp: CLEARBIT_def bit_simps dest: bit_imp_le_length)

lemma bit_clear_bits:
  assumes "0 \<le> s" and "e \<le> 31"
  shows "bit (clear_bits v s e) i \<longleftrightarrow> bit v i \<and> \<not> (s \<le> int i \<and> int i \<le> e)"
proof -
  have "bit (fold (\<lambda>index v. CLEARBIT v index) ks v) i \<longleftrightarrow> bit v i \<and> i \<notin> set ks"
    if "\<forall>k \<in> set ks. k < 32" for ks
    using that by (induction ks arbitrary: v) (auto simp: bit_CLEARBIT)
  moreover have "\<forall>k \<in> set [nat s..<nat (e + 1)]. k < 32" using assms by auto
  ultimately show ?thesis
    using assms by (auto simp: clear_bits_def)
qed

lemma strlen16_Some: "strlen16 cs = Some n \<longleftrightarrow> n < length cs \<and> cs ! n = 0 \<and> (\<forall>k < n. cs ! k \<noteq> 0)"
proof (induction cs arbitrary: n)
  case (Cons c cs)
  then show ?case by (cases n) (auto simp: less_Suc_eq_0_disj)
qed simp

lemma strcpy16_strlen16:
  "strlen16 src = Some n \<Longrightarrow> n < length dest \<Longrightarrow>
   strcpy16 dest src = Some (take (Suc n) src @ drop (Suc n) dest)"
proof (induction dest src arbitrary: n rule: strcpy16.induct)
  case (1 d ds s ss)
  then show ?case by (auto split: if_splits)
qed auto

end
