(* ===== verification/Mctp.thy ===== *)
theory Mctp
  imports Prelude
begin

text \<open>
  The MCTP transport, \<^verbatim>\<open>src/common/service/mctp/mctp.c\<close> and \<^verbatim>\<open>mctp.h\<close>, with the medium
  initialisation of \<^verbatim>\<open>mctp_smbus.c\<close>, \<^verbatim>\<open>mctp_i3c.c\<close> and \<^verbatim>\<open>mctp_usb.c\<close>: the packed header, message
  assembly on the receive side, one round of the receive and of the transmit thread, the
  transmit queue, and the life cycle of an instance.

  One iteration of \<^verbatim>\<open>mctp_rx_task\<close> is \<open>mctp_rx_step\<close>; the calls it makes on other components (the
  receive callback, the bridging of a packet) are the events it returns. One iteration of
  \<^verbatim>\<open>mctp_tx_task\<close> is \<open>mctp_tx_step\<close>; the medium write function is an argument that carries a state
  of any type. \<open>None\<close> is an access outside a buffer. A call that waits for the transmit thread
  (\<open>mctp_pass_tx_task\<close>) is modelled as the enqueue followed by that thread's work up to the
  caller's message.
\<close>

section \<open>Definitions\<close>

subsection \<open>Data\<close>

definition MCTP_SUCCESS :: u8 where "MCTP_SUCCESS = 0"
definition MCTP_ERROR :: u8 where "MCTP_ERROR = 1"
definition MCTP_TX_QUEUE_SIZE :: nat where "MCTP_TX_QUEUE_SIZE = 16"
definition MSG_ASSEMBLY_BUF_SIZE :: nat where "MSG_ASSEMBLY_BUF_SIZE = 1024"
definition MCTP_TRANSPORT_HEADER_SIZE :: nat where "MCTP_TRANSPORT_HEADER_SIZE = 4"
definition MCTP_DEFAULT_ENDPOINT :: u8 where "MCTP_DEFAULT_ENDPOINT = 0x0A"
definition MCTP_NULL_EID :: u8 where "MCTP_NULL_EID = 0"
definition MCTP_DEFAULT_MSG_MAX_SIZE :: u16 where "MCTP_DEFAULT_MSG_MAX_SIZE = 244"
definition MCTP_HDR_HDR_VER :: u8 where "MCTP_HDR_HDR_VER = 1"

lemmas mctp_consts [simp] =
  MCTP_SUCCESS_def MCTP_ERROR_def MCTP_TX_QUEUE_SIZE_def MSG_ASSEMBLY_BUF_SIZE_def
  MCTP_TRANSPORT_HEADER_SIZE_def MCTP_DEFAULT_ENDPOINT_def MCTP_NULL_EID_def
  MCTP_DEFAULT_MSG_MAX_SIZE_def MCTP_HDR_HDR_VER_def

datatype MCTP_MEDIUM_TYPE =
    MCTP_MEDIUM_TYPE_UNKNOWN
  | MCTP_MEDIUM_TYPE_SMBUS
  | MCTP_MEDIUM_TYPE_CONTROLLER_I3C
  | MCTP_MEDIUM_TYPE_TARGET_I3C
  | MCTP_MEDIUM_TYPE_USB
  | MCTP_MEDIUM_TYPE_MAX

fun medium_type_val :: "MCTP_MEDIUM_TYPE \<Rightarrow> u8" where
  "medium_type_val MCTP_MEDIUM_TYPE_UNKNOWN = 0"
| "medium_type_val MCTP_MEDIUM_TYPE_SMBUS = 1"
| "medium_type_val MCTP_MEDIUM_TYPE_CONTROLLER_I3C = 2"
| "medium_type_val MCTP_MEDIUM_TYPE_TARGET_I3C = 3"
| "medium_type_val MCTP_MEDIUM_TYPE_USB = 4"
| "medium_type_val MCTP_MEDIUM_TYPE_MAX = 5"

text \<open>The members of the union \<^verbatim>\<open>mctp_medium_conf\<close> have the same two byte fields.\<close>

record mctp_medium_conf =
  mc_bus :: u8
  mc_addr :: u8

record mctp_ext_params =
  xp_tag_owner :: u8
  xp_msg_tag :: u8
  xp_ep :: u8
  xp_type :: MCTP_MEDIUM_TYPE
  xp_addr :: u8

record mctp_hdr =
  mh_hdr_ver :: u8
  mh_dest_ep :: u8
  mh_src_ep :: u8
  mh_msg_tag :: "3 word"
  mh_to :: bool
  mh_pkt_seq :: "2 word"
  mh_eom :: bool
  mh_som :: bool

datatype medium_rx = mctp_smbus_read_fn | mctp_i3c_read_fn | mctp_i3c_read_smq_fn | mctp_usb_read_fn

datatype medium_tx =
  mctp_smbus_write_fn | mctp_i3c_write_fn | mctp_i3c_write_smq_fn | mctp_usb_write_fn

type_synonym endpoint_resolve = "u8 \<Rightarrow> (nat \<times> mctp_ext_params) option"

record mctp_tx_msg =
  tx_is_bridge_packet :: bool
  tx_buf :: "bytes option"
  tx_len :: u16
  tx_ext_params :: mctp_ext_params

record temp_msg =
  tm_buf :: "bytes option"
  tm_offset :: u16

text \<open>
  The queue is \<open>None\<close> while its buffer is not allocated. Callbacks are identified by a number;
  the per-tag assembly slots are indexed by the tag and the tag-owner bit.
\<close>

record mctp =
  mi_is_servcie_start :: bool
  mi_medium_type :: MCTP_MEDIUM_TYPE
  mi_endpoint :: u8
  mi_max_msg_size :: u16
  mi_medium_conf :: mctp_medium_conf
  mi_read_data :: "medium_rx option"
  mi_write_data :: "medium_tx option"
  mi_ep_resolve :: "endpoint_resolve option"
  mi_rx_task_tid :: "nat option"
  mi_tx_task_tid :: "nat option"
  mi_rx_task_name :: string
  mi_tx_task_name :: string
  mi_tx_queue :: "mctp_tx_msg list option"
  mi_temp_msg_buf :: "3 word \<Rightarrow> bool \<Rightarrow> temp_msg"
  mi_rx_cb :: "nat option"
  mi_pldm_inst_table :: u32
  mi_msg_tag :: u8

datatype rx_event =
    Rx_bridge nat bytes mctp_ext_params
  | Rx_cb nat bytes mctp_ext_params

subsection \<open>The packed header\<close>

definition mctp_hdr_flags :: "mctp_hdr \<Rightarrow> u8" where
  "mctp_hdr_flags h = ucast (mh_msg_tag h) OR push_bit 3 (flag (mh_to h))
     OR push_bit 4 (ucast (mh_pkt_seq h)) OR push_bit 6 (flag (mh_eom h))
     OR push_bit 7 (flag (mh_som h))"

definition mctp_hdr_bytes :: "mctp_hdr \<Rightarrow> bytes" where
  "mctp_hdr_bytes h = [mh_hdr_ver h, mh_dest_ep h, mh_src_ep h, mctp_hdr_flags h]"

definition mctp_hdr_of :: "bytes \<Rightarrow> mctp_hdr" where
  "mctp_hdr_of bs = \<lparr> mh_hdr_ver = nth0 bs 0, mh_dest_ep = nth0 bs 1, mh_src_ep = nth0 bs 2,
     mh_msg_tag = ucast (nth0 bs 3), mh_to = bit (nth0 bs 3) 3,
     mh_pkt_seq = ucast (drop_bit 4 (nth0 bs 3)), mh_eom = bit (nth0 bs 3) 6,
     mh_som = bit (nth0 bs 3) 7 \<rparr>"

subsection \<open>Thread names\<close>

definition hex_digit :: "u8 \<Rightarrow> char" where
  "hex_digit d = ''0123456789abcdef'' ! unat (d AND 15)"

definition hex02 :: "u8 \<Rightarrow> string" where
  "hex02 b = [hex_digit (drop_bit 4 b), hex_digit b]"

definition task_name :: "string \<Rightarrow> mctp \<Rightarrow> string" where
  "task_name prefix m = prefix @ ''_'' @ hex02 (medium_type_val (mi_medium_type m)) @ ''_''
     @ hex02 (mc_bus (mi_medium_conf m)) @ ''_'' @ hex02 (mc_addr (mi_medium_conf m))"

definition set_thread_name :: "mctp \<Rightarrow> mctp \<times> u8" where
  "set_thread_name m =
     (if mi_medium_type m \<in> {MCTP_MEDIUM_TYPE_UNKNOWN, MCTP_MEDIUM_TYPE_MAX} then (m, MCTP_ERROR)
      else (m\<lparr>mi_rx_task_name := task_name ''mctprx'' m,
              mi_tx_task_name := task_name ''mctptx'' m\<rparr>, MCTP_SUCCESS))"

subsection \<open>Media\<close>

definition mctp_smbus_init :: "mctp \<Rightarrow> mctp_medium_conf \<Rightarrow> mctp \<times> u8" where
  "mctp_smbus_init m conf = (m\<lparr>mi_medium_conf := conf, mi_read_data := Some mctp_smbus_read_fn,
     mi_write_data := Some mctp_smbus_write_fn\<rparr>, MCTP_SUCCESS)"

definition mctp_smbus_deinit :: "mctp \<Rightarrow> mctp \<times> u8" where
  "mctp_smbus_deinit m = (m\<lparr>mi_read_data := None, mi_write_data := None,
     mi_medium_conf := \<lparr>mc_bus = 0, mc_addr = 0\<rparr>\<rparr>, MCTP_SUCCESS)"

definition mctp_i3c_controller_init :: "mctp \<Rightarrow> mctp_medium_conf \<Rightarrow> mctp \<times> u8" where
  "mctp_i3c_controller_init m conf = (m\<lparr>mi_medium_conf := conf,
     mi_read_data := Some mctp_i3c_read_fn, mi_write_data := Some mctp_i3c_write_fn\<rparr>, MCTP_SUCCESS)"

definition mctp_i3c_target_init :: "mctp \<Rightarrow> mctp_medium_conf \<Rightarrow> mctp \<times> u8" where
  "mctp_i3c_target_init m conf = (m\<lparr>mi_medium_conf := conf,
     mi_read_data := Some mctp_i3c_read_smq_fn, mi_write_data := Some mctp_i3c_write_smq_fn\<rparr>,
     MCTP_SUCCESS)"

definition mctp_i3c_deinit :: "mctp \<Rightarrow> mctp \<times> u8" where
  "mctp_i3c_deinit m = (m\<lparr>mi_read_data := None, mi_write_data := None,
     mi_medium_conf := \<lparr>mc_bus = 0, mc_addr = 0\<rparr>\<rparr>, MCTP_SUCCESS)"

text \<open>\<open>dev_found\<close> is whether \<^verbatim>\<open>device_get_binding\<close> finds the USB function.\<close>

definition mctp_usb_init :: "bool \<Rightarrow> mctp \<Rightarrow> mctp_medium_conf \<Rightarrow> mctp \<times> u8" where
  "mctp_usb_init dev_found m conf =
     (let m = m\<lparr>mi_medium_conf := conf, mi_read_data := Some mctp_usb_read_fn,
                mi_write_data := Some mctp_usb_write_fn\<rparr>
      in if dev_found then (m, MCTP_SUCCESS) else (m, MCTP_ERROR))"

definition mctp_usb_deinit :: "mctp \<Rightarrow> mctp \<times> u8" where
  "mctp_usb_deinit m = (m\<lparr>mi_read_data := None, mi_write_data := None,
     mi_medium_conf := \<lparr>mc_bus = 0, mc_addr = 0\<rparr>\<rparr>, MCTP_SUCCESS)"

text \<open>\<open>i3c\<close> is the build switch \<^verbatim>\<open>ENABLE_MCTP_I3C\<close>.\<close>

definition mctp_medium_init ::
  "bool \<Rightarrow> bool \<Rightarrow> mctp \<Rightarrow> mctp_medium_conf \<Rightarrow> mctp \<times> u8" where
  "mctp_medium_init i3c dev_found m conf =
     (case mi_medium_type m of
        MCTP_MEDIUM_TYPE_SMBUS \<Rightarrow> mctp_smbus_init m conf
      | MCTP_MEDIUM_TYPE_TARGET_I3C \<Rightarrow>
          if i3c then mctp_i3c_target_init m conf else (m, MCTP_ERROR)
      | MCTP_MEDIUM_TYPE_CONTROLLER_I3C \<Rightarrow>
          if i3c then mctp_i3c_controller_init m conf else (m, MCTP_ERROR)
      | MCTP_MEDIUM_TYPE_USB \<Rightarrow> mctp_usb_init dev_found m conf
      | _ \<Rightarrow> (m, MCTP_ERROR))"

definition mctp_medium_deinit :: "bool \<Rightarrow> mctp \<Rightarrow> mctp \<times> u8" where
  "mctp_medium_deinit i3c m =
     (case mi_medium_type m of
        MCTP_MEDIUM_TYPE_SMBUS \<Rightarrow> (fst (mctp_smbus_deinit m), MCTP_SUCCESS)
      | MCTP_MEDIUM_TYPE_TARGET_I3C \<Rightarrow>
          if i3c then (fst (mctp_i3c_deinit m), MCTP_SUCCESS) else (m, MCTP_ERROR)
      | MCTP_MEDIUM_TYPE_CONTROLLER_I3C \<Rightarrow>
          if i3c then (fst (mctp_i3c_deinit m), MCTP_SUCCESS) else (m, MCTP_ERROR)
      | MCTP_MEDIUM_TYPE_USB \<Rightarrow> (fst (mctp_usb_deinit m), MCTP_SUCCESS)
      | _ \<Rightarrow> (m, MCTP_ERROR))"

subsection \<open>Receiving\<close>

text \<open>
  The result of \<open>bridge_msg\<close> is the call of \<^verbatim>\<open>mctp_bridge_msg\<close> it makes, if any: the target
  instance and the parameters to reach it.
\<close>

definition bridge_msg :: "mctp \<Rightarrow> bytes \<Rightarrow> (nat \<times> mctp_ext_params) option" where
  "bridge_msg m buf =
     (if buf = [] then None
      else case mi_ep_resolve m of
        None \<Rightarrow> None
      | Some resolve \<Rightarrow> resolve (mh_dest_ep (mctp_hdr_of buf)))"

definition set_slot :: "mctp_hdr \<Rightarrow> temp_msg \<Rightarrow> mctp \<Rightarrow> mctp" where
  "set_slot h t m = m\<lparr>mi_temp_msg_buf := (\<lambda>tag to.
     if tag = mh_msg_tag h \<and> to = mh_to h then t else mi_temp_msg_buf m tag to)\<rparr>"

definition get_slot :: "mctp_hdr \<Rightarrow> mctp \<Rightarrow> temp_msg" where
  "get_slot h m = mi_temp_msg_buf m (mh_msg_tag h) (mh_to h)"

text \<open>
  \<open>malloc_ok\<close> is whether the allocation of the assembly buffer succeeds. The size that
  \<^verbatim>\<open>memcpy\<close> gets is \<^verbatim>\<open>len - sizeof(mctp_hdr)\<close> in unsigned arithmetic, so a length below four
  makes it larger than any buffer.
\<close>

definition mctp_pkt_assembling :: "bool \<Rightarrow> mctp \<Rightarrow> bytes \<Rightarrow> u16 \<Rightarrow> (mctp \<times> u8) option" where
  "mctp_pkt_assembling malloc_ok m buf len =
     (if len = 0 then Some (m, MCTP_ERROR)
      else let h = mctp_hdr_of buf; t = get_slot h m in
        if mh_som h \<and> mh_eom h then Some (m, MCTP_SUCCESS)
        else let t = (if mh_som h
                      then t\<lparr>tm_offset := 0,
                             tm_buf := if malloc_ok then Some (zeros MSG_ASSEMBLY_BUF_SIZE) else None\<rparr>
                      else t);
                 m = set_slot h t m in
          case tm_buf t of
            None \<Rightarrow> Some (m, MCTP_ERROR)
          | Some b \<Rightarrow>
              let offset_new = tm_offset t + len - 4 in
              if unat offset_new > MSG_ASSEMBLY_BUF_SIZE then Some (m, MCTP_ERROR)
              else if unat len < MCTP_TRANSPORT_HEADER_SIZE \<or> length buf < unat len
                \<or> length b < unat (tm_offset t) + (unat len - MCTP_TRANSPORT_HEADER_SIZE) then None
              else Some (set_slot h
                     (t\<lparr>tm_buf := Some (memcpy_at (unat (tm_offset t))
                          (slice MCTP_TRANSPORT_HEADER_SIZE
                            (unat len - MCTP_TRANSPORT_HEADER_SIZE) buf) b),
                        tm_offset := offset_new\<rparr>) m, MCTP_SUCCESS))"

definition free_slot :: "mctp_hdr \<Rightarrow> mctp \<Rightarrow> mctp" where
  "free_slot h m =
     (case tm_buf (get_slot h m) of
        None \<Rightarrow> m
      | Some _ \<Rightarrow> set_slot h \<lparr>tm_buf = None, tm_offset = 0\<rparr> m)"

text \<open>
  One iteration of the receive loop. \<open>rd\<close> is what the medium read function wrote into the
  zeroed 256-byte buffer, \<open>ext\<close> the medium parameters it filled in.
\<close>

definition mctp_rx_step ::
  "bool \<Rightarrow> mctp \<Rightarrow> bytes \<Rightarrow> mctp_ext_params \<Rightarrow> (mctp \<times> rx_event list) option" where
  "mctp_rx_step malloc_ok m rd ext =
     (let read_buf = rd @ zeros (256 - length rd); read_len = of_nat (length rd) :: u16 in
      if read_len = 0 then Some (m, [])
      else let h = mctp_hdr_of read_buf;
               ext = ext\<lparr>xp_msg_tag := ucast (mh_msg_tag h), xp_tag_owner := 0,
                         xp_ep := mh_src_ep h\<rparr> in
        if mh_dest_ep h \<noteq> mi_endpoint m \<and> mh_dest_ep h \<noteq> MCTP_NULL_EID then
          (case bridge_msg m rd of
             None \<Rightarrow> Some (m, [])
           | Some (target, text) \<Rightarrow> Some (m, [Rx_bridge target rd text]))
        else
          case mctp_pkt_assembling malloc_ok m read_buf read_len of
            None \<Rightarrow> None
          | Some (m, ret) \<Rightarrow>
              if ret = MCTP_ERROR then Some (free_slot h m, [])
              else if \<not> mh_eom h then Some (m, [])
              else case mi_rx_cb m of
                None \<Rightarrow> Some (free_slot h m, [])
              | Some cb \<Rightarrow>
                  (case tm_buf (get_slot h m) of
                     Some b \<Rightarrow> Some (free_slot h m,
                        [Rx_cb cb (take (unat (tm_offset (get_slot h m))) b) ext])
                   | None \<Rightarrow>
                       if length rd < MCTP_TRANSPORT_HEADER_SIZE then None
                       else Some (free_slot h m,
                              [Rx_cb cb (drop MCTP_TRANSPORT_HEADER_SIZE rd) ext])))"

fun mctp_rx_run ::
  "mctp \<Rightarrow> (bytes \<times> mctp_ext_params) list \<Rightarrow> (mctp \<times> rx_event list) option" where
  "mctp_rx_run m [] = Some (m, [])"
| "mctp_rx_run m ((rd, ext) # rds) =
     (case mctp_rx_step True m rd ext of
        None \<Rightarrow> None
      | Some (m, evs) \<Rightarrow>
          (case mctp_rx_run m rds of None \<Rightarrow> None | Some (m, evs') \<Rightarrow> Some (m, evs @ evs')))"

subsection \<open>Transmitting\<close>

definition split_pkt_num :: "mctp \<Rightarrow> mctp_tx_msg \<Rightarrow> u8" where
  "split_pkt_num m msg =
     ucast (tx_len msg div mi_max_msg_size m
            + (if tx_len msg mod mi_max_msg_size m \<noteq> 0 then 1 else 0))"

definition cp_msg_size :: "mctp \<Rightarrow> mctp_tx_msg \<Rightarrow> nat \<Rightarrow> u8" where
  "cp_msg_size m msg i =
     (if i + 1 = unat (split_pkt_num m msg) then
        (let remain = ucast (tx_len msg mod mi_max_msg_size m)
         in if remain \<noteq> 0 then remain else ucast (mi_max_msg_size m))
      else ucast (mi_max_msg_size m))"

definition tx_hdr :: "mctp \<Rightarrow> mctp_tx_msg \<Rightarrow> nat \<Rightarrow> mctp_hdr" where
  "tx_hdr m msg i =
     (let ext = tx_ext_params msg; to = bit (xp_tag_owner ext) 0 in
      \<lparr> mh_hdr_ver = MCTP_HDR_HDR_VER, mh_dest_ep = xp_ep ext, mh_src_ep = mi_endpoint m,
        mh_msg_tag = (if to then ucast (mi_msg_tag m AND 7) else ucast (xp_msg_tag ext)),
        mh_to = to, mh_pkt_seq = of_nat i,
        mh_eom = (i + 1 = unat (split_pkt_num m msg)), mh_som = (i = 0) \<rparr>)"

definition tx_packet :: "mctp \<Rightarrow> mctp_tx_msg \<Rightarrow> bytes \<Rightarrow> nat \<Rightarrow> bytes" where
  "tx_packet m msg buf i =
     mctp_hdr_bytes (tx_hdr m msg i)
     @ slice (i * unat (mi_max_msg_size m)) (unat (cp_msg_size m msg i)) buf"

text \<open>
  The packet loop: it returns the index it stopped at, which is the number of packets when
  every write succeeded.
\<close>

function tx_loop ::
  "('w \<Rightarrow> bytes \<Rightarrow> mctp_ext_params \<Rightarrow> 'w \<times> u16) \<Rightarrow> mctp \<Rightarrow> mctp_tx_msg \<Rightarrow> bytes \<Rightarrow> nat \<Rightarrow> 'w
   \<Rightarrow> 'w \<times> nat" where
  "tx_loop write_data m msg buf i w =
     (if i < unat (split_pkt_num m msg) then
        (case write_data w (tx_packet m msg buf i) (tx_ext_params msg) of
           (w, ret) \<Rightarrow> if ret \<noteq> 0 then (w, i) else tx_loop write_data m msg buf (i + 1) w)
      else (w, i))"
  by pat_completeness auto
termination
  by (relation "measure (\<lambda>(_, m, msg, _, i, _). unat (split_pkt_num m msg) - i)") auto

declare tx_loop.simps [simp del]

definition mctp_tx_step ::
  "('w \<Rightarrow> bytes \<Rightarrow> mctp_ext_params \<Rightarrow> 'w \<times> u16) \<Rightarrow> mctp \<Rightarrow> mctp_tx_msg \<Rightarrow> 'w
   \<Rightarrow> mctp \<times> 'w \<times> u8" where
  "mctp_tx_step write_data m msg w =
     (case tx_buf msg of
        None \<Rightarrow> (m, w, MCTP_ERROR)
      | Some buf \<Rightarrow>
          if tx_len msg = 0 then (m, w, MCTP_ERROR)
          else if tx_is_bridge_packet msg then
            (case write_data w buf (tx_ext_params msg) of (w, ret) \<Rightarrow> (m, w, ucast ret))
          else
            (case tx_loop write_data m msg buf 0 w of
               (w, i) \<Rightarrow>
                 (if xp_tag_owner (tx_ext_params msg) \<noteq> 0
                  then m\<lparr>mi_msg_tag := mi_msg_tag m + 1\<rparr> else m,
                  w, if i = unat (split_pkt_num m msg) then MCTP_SUCCESS else MCTP_ERROR)))"

fun tx_drain ::
  "('w \<Rightarrow> bytes \<Rightarrow> mctp_ext_params \<Rightarrow> 'w \<times> u16) \<Rightarrow> mctp \<Rightarrow> mctp_tx_msg list \<Rightarrow> 'w
   \<Rightarrow> mctp \<times> 'w \<times> u8 list" where
  "tx_drain write_data m [] w = (m, w, [])"
| "tx_drain write_data m (msg # msgs) w =
     (case mctp_tx_step write_data m msg w of
        (m, w, r) \<Rightarrow> (case tx_drain write_data m msgs w of (m, w, rs) \<Rightarrow> (m, w, r # rs)))"

definition mctp_pass_tx_task ::
  "bool \<Rightarrow> ('w \<Rightarrow> bytes \<Rightarrow> mctp_ext_params \<Rightarrow> 'w \<times> u16) \<Rightarrow> mctp \<Rightarrow> bytes \<Rightarrow> u16
   \<Rightarrow> mctp_ext_params \<Rightarrow> bool \<Rightarrow> 'w \<Rightarrow> mctp \<times> 'w \<times> u8" where
  "mctp_pass_tx_task malloc_ok write_data m buf len ext is_bridge w =
     (if len = 0 then (m, w, MCTP_ERROR)
      else if \<not> mi_is_servcie_start m then (m, w, MCTP_ERROR)
      else if \<not> malloc_ok then (m, w, MCTP_ERROR)
      else let msg = \<lparr>tx_is_bridge_packet = is_bridge, tx_buf = Some (take (unat len) buf),
                      tx_len = len, tx_ext_params = ext\<rparr> in
        case mi_tx_queue m of
          None \<Rightarrow> (m, w, MCTP_ERROR)
        | Some q \<Rightarrow>
            if MCTP_TX_QUEUE_SIZE \<le> length q then (m, w, MCTP_ERROR)
            else (case tx_drain write_data m (q @ [msg]) w of
                    (m, w, rs) \<Rightarrow> (m\<lparr>mi_tx_queue := Some []\<rparr>, w, last rs)))"

definition mctp_bridge_msg ::
  "bool \<Rightarrow> ('w \<Rightarrow> bytes \<Rightarrow> mctp_ext_params \<Rightarrow> 'w \<times> u16) \<Rightarrow> mctp \<Rightarrow> bytes \<Rightarrow> u16
   \<Rightarrow> mctp_ext_params \<Rightarrow> 'w \<Rightarrow> mctp \<times> 'w \<times> u8" where
  "mctp_bridge_msg malloc_ok write_data m buf len ext w =
     (if len = 0 then (m, w, MCTP_ERROR)
      else mctp_pass_tx_task malloc_ok write_data m buf len ext True w)"

definition mctp_send_msg ::
  "bool \<Rightarrow> ('w \<Rightarrow> bytes \<Rightarrow> mctp_ext_params \<Rightarrow> 'w \<times> u16) \<Rightarrow> mctp \<Rightarrow> bytes \<Rightarrow> u16
   \<Rightarrow> mctp_ext_params \<Rightarrow> 'w \<Rightarrow> mctp \<times> 'w \<times> u8" where
  "mctp_send_msg malloc_ok write_data m buf len ext w =
     (if len = 0 then (m, w, MCTP_ERROR)
      else mctp_pass_tx_task malloc_ok write_data m buf len ext False w)"

subsection \<open>Life cycle\<close>

text \<open>\<open>eid\<close> is the result of the platform's \<^verbatim>\<open>plat_get_eid\<close>, by default the constant below.\<close>

definition plat_get_eid :: u8 where
  "plat_get_eid = MCTP_DEFAULT_ENDPOINT"

definition mctp_init :: "u8 \<Rightarrow> bool \<Rightarrow> mctp option" where
  "mctp_init eid malloc_ok =
     (if malloc_ok then Some
        \<lparr> mi_is_servcie_start = False, mi_medium_type = MCTP_MEDIUM_TYPE_UNKNOWN,
          mi_endpoint = eid, mi_max_msg_size = MCTP_DEFAULT_MSG_MAX_SIZE,
          mi_medium_conf = \<lparr>mc_bus = 0, mc_addr = 0\<rparr>, mi_read_data = None,
          mi_write_data = None, mi_ep_resolve = None, mi_rx_task_tid = None,
          mi_tx_task_tid = None, mi_rx_task_name = [], mi_tx_task_name = [],
          mi_tx_queue = None, mi_temp_msg_buf = (\<lambda>_ _. \<lparr>tm_buf = None, tm_offset = 0\<rparr>),
          mi_rx_cb = None, mi_pldm_inst_table = 0, mi_msg_tag = 0 \<rparr>
      else None)"

definition mctp_stop :: "mctp \<Rightarrow> mctp \<times> u8" where
  "mctp_stop m = (m\<lparr>mi_rx_task_tid := None, mi_tx_task_tid := None, mi_tx_queue := None,
     mi_is_servcie_start := False\<rparr>, MCTP_SUCCESS)"

text \<open>Deinitialising frees the instance; the model returns what is freed.\<close>

definition mctp_deinit :: "bool \<Rightarrow> mctp \<Rightarrow> mctp \<times> u8" where
  "mctp_deinit i3c m = (fst (mctp_medium_deinit i3c (fst (mctp_stop m))), MCTP_SUCCESS)"

definition mctp_set_medium_configure ::
  "bool \<Rightarrow> bool \<Rightarrow> mctp \<Rightarrow> MCTP_MEDIUM_TYPE \<Rightarrow> mctp_medium_conf \<Rightarrow> mctp \<times> u8" where
  "mctp_set_medium_configure i3c dev_found m medium_type conf =
     (if medium_type \<in> {MCTP_MEDIUM_TYPE_UNKNOWN, MCTP_MEDIUM_TYPE_MAX} then (m, MCTP_ERROR)
      else case mctp_medium_init i3c dev_found (m\<lparr>mi_medium_type := medium_type\<rparr>) conf of
        (m, ret) \<Rightarrow>
          if ret = MCTP_ERROR
          then ((fst (mctp_medium_deinit i3c m))\<lparr>mi_medium_type := MCTP_MEDIUM_TYPE_UNKNOWN\<rparr>,
                MCTP_ERROR)
          else (m, MCTP_SUCCESS))"

definition mctp_get_medium_configure :: "mctp \<Rightarrow> MCTP_MEDIUM_TYPE \<times> mctp_medium_conf \<times> u8" where
  "mctp_get_medium_configure m = (mi_medium_type m, mi_medium_conf m, MCTP_SUCCESS)"

text \<open>
  The arguments of \<open>mctp_start\<close> besides the instance: whether the queue buffer can be
  allocated, and the identifiers of the two threads, if their creation succeeds.
\<close>

definition mctp_start :: "bool \<Rightarrow> nat option \<Rightarrow> nat option \<Rightarrow> mctp \<Rightarrow> mctp \<times> u8" where
  "mctp_start malloc_ok rx_tid tx_tid m =
     (if mi_is_servcie_start m then (m, MCTP_ERROR)
      else let m = fst (set_thread_name m) in
        if \<not> malloc_ok then (fst (mctp_stop m), MCTP_ERROR)
        else let m = m\<lparr>mi_tx_queue := Some [], mi_rx_task_tid := rx_tid\<rparr> in
          if rx_tid = None then (fst (mctp_stop m), MCTP_ERROR)
          else let m = m\<lparr>mi_tx_task_tid := tx_tid\<rparr> in
            if tx_tid = None then (fst (mctp_stop m), MCTP_ERROR)
            else (m\<lparr>mi_is_servcie_start := True\<rparr>, MCTP_SUCCESS))"

definition mctp_reg_endpoint_resolve_func :: "mctp \<Rightarrow> endpoint_resolve \<Rightarrow> mctp \<times> u8" where
  "mctp_reg_endpoint_resolve_func m f = (m\<lparr>mi_ep_resolve := Some f\<rparr>, MCTP_SUCCESS)"

definition mctp_reg_msg_rx_func :: "mctp \<Rightarrow> nat \<Rightarrow> mctp \<times> u8" where
  "mctp_reg_msg_rx_func m cb = (m\<lparr>mi_rx_cb := Some cb\<rparr>, MCTP_SUCCESS)"

subsection \<open>Ports\<close>

record mctp_port =
  mp_mctp_inst :: nat
  mp_channel_target :: u8
  mp_medium_type :: MCTP_MEDIUM_TYPE
  mp_conf :: mctp_medium_conf

definition pal_find_bus_in_mctp_port :: "mctp_port option \<Rightarrow> int" where
  "pal_find_bus_in_mctp_port p =
     (case p of
        None \<Rightarrow> -1
      | Some p \<Rightarrow>
          (case mp_medium_type p of
             MCTP_MEDIUM_TYPE_UNKNOWN \<Rightarrow> -1
           | MCTP_MEDIUM_TYPE_MAX \<Rightarrow> -1
           | _ \<Rightarrow> uint (mc_bus (mp_conf p))))"

text \<open>
  \<open>cnt\<close> and \<open>get\<close> are the platform's \<^verbatim>\<open>plat_get_mctp_port_count\<close> and \<^verbatim>\<open>plat_get_mctp_port\<close>.
\<close>

fun find_mctp_by_bus_loop :: "(nat \<Rightarrow> mctp_port option) \<Rightarrow> u8 \<Rightarrow> nat list \<Rightarrow> nat option" where
  "find_mctp_by_bus_loop get bus [] = None"
| "find_mctp_by_bus_loop get bus (i # is) =
     (case get i of
        None \<Rightarrow> find_mctp_by_bus_loop get bus is
      | Some p \<Rightarrow>
          if uint bus = pal_find_bus_in_mctp_port (Some p) then Some (mp_mctp_inst p)
          else find_mctp_by_bus_loop get bus is)"

definition pal_find_mctp_by_bus :: "u8 \<Rightarrow> (nat \<Rightarrow> mctp_port option) \<Rightarrow> u8 \<Rightarrow> nat option" where
  "pal_find_mctp_by_bus cnt get bus = find_mctp_by_bus_loop get bus [0..<unat cnt]"

fun find_port_by_target_loop :: "(nat \<Rightarrow> mctp_port option) \<Rightarrow> u8 \<Rightarrow> nat list \<Rightarrow> mctp_port option" where
  "find_port_by_target_loop get target [] = None"
| "find_port_by_target_loop get target (i # is) =
     (case get i of
        None \<Rightarrow> find_port_by_target_loop get target is
      | Some p \<Rightarrow>
          if target = mp_channel_target p then Some p
          else find_port_by_target_loop get target is)"

definition pal_find_mctp_port_by_channel_target ::
  "u8 \<Rightarrow> (nat \<Rightarrow> mctp_port option) \<Rightarrow> u8 \<Rightarrow> mctp_port option" where
  "pal_find_mctp_port_by_channel_target cnt get target =
     find_port_by_target_loop get target [0..<unat cnt]"

section \<open>The header codec and the assembly slots\<close>

lemma mctp_hdr_flags_bits:
  "(ucast (mctp_hdr_flags h) :: 3 word) = mh_msg_tag h"
  "bit (mctp_hdr_flags h) 3 = mh_to h"
  "(ucast (drop_bit 4 (mctp_hdr_flags h)) :: 2 word) = mh_pkt_seq h"
  "bit (mctp_hdr_flags h) 6 = mh_eom h"
  "bit (mctp_hdr_flags h) 7 = mh_som h"
proof -
  show "(ucast (mctp_hdr_flags h) :: 3 word) = mh_msg_tag h"
    by (rule bit_word_eqI) (auto simp: mctp_hdr_flags_def flag_def bit_simps)
  show "(ucast (drop_bit 4 (mctp_hdr_flags h)) :: 2 word) = mh_pkt_seq h"
    by (rule bit_word_eqI) (auto simp: mctp_hdr_flags_def flag_def bit_simps dest: bit_imp_le_length)
  show "bit (mctp_hdr_flags h) 3 = mh_to h"  "bit (mctp_hdr_flags h) 6 = mh_eom h" "bit (mctp_hdr_flags h) 7 = mh_som h"
    by (auto simp: mctp_hdr_flags_def flag_def bit_simps dest: bit_imp_le_length)
qed

lemma mctp_hdr_of_bytes [simp]: "mctp_hdr_of (mctp_hdr_bytes h @ bs) = h"
  by (simp add: mctp_hdr_of_def mctp_hdr_bytes_def nth0_4 mctp_hdr_flags_bits del: One_nat_def)

lemma length_mctp_hdr_bytes [simp]: "length (mctp_hdr_bytes h) = 4"
  by (simp add: mctp_hdr_bytes_def)

lemma mctp_hdr_of_zeros [simp]: "mctp_hdr_of (rd @ zeros n) = mctp_hdr_of rd"
  by (simp add: mctp_hdr_of_def zeros_def)

lemma mctp_hdr_of_short: 
  assumes "length rd < 4"
  shows "mh_msg_tag (mctp_hdr_of rd) = 0 \<and> \<not> mh_to (mctp_hdr_of rd) \<and>
    \<not> mh_som (mctp_hdr_of rd) \<and> \<not> mh_eom (mctp_hdr_of rd)"
  using assms by (simp add: mctp_hdr_of_def nth0_def)

lemma get_set_slot [simp]: "get_slot h (set_slot h t m) = t"
  by (simp add: get_slot_def set_slot_def)

lemma set_set_slot [simp]: "set_slot h t (set_slot h u m) = set_slot h t m"
  by (auto simp: set_slot_def fun_eq_iff)

lemma set_slot_self: "set_slot h (get_slot h m) m = m"
  by (auto simp: set_slot_def get_slot_def fun_eq_iff intro!: mctp.equality)

lemma mctp_hdr_flags_of: "mctp_hdr_flags (mctp_hdr_of (a # b # c # d # bs)) = d"
  by (rule u8_eqI)
    (auto simp: mctp_hdr_flags_def mctp_hdr_of_def flag_def bit_simps nth0_4 simp del: One_nat_def)

text \<open>
  The packed MCTP header round-trips both ways: decoding the encoding of a header gives the
  header, and encoding what was decoded from four bytes gives those bytes.
\<close>

theorem mctp_hdr_roundtrip:
  "mctp_hdr_of (mctp_hdr_bytes h @ bs) = h
   \<and> mctp_hdr_bytes (mctp_hdr_of (a # b # c # d # bs)) = [a, b, c, d]"
proof -
  have "mh_hdr_ver (mctp_hdr_of (a # b # c # d # bs)) = a" "mh_dest_ep (mctp_hdr_of (a # b # c # d # bs)) = b"
    "mh_src_ep (mctp_hdr_of (a # b # c # d # bs)) = c"
    by (simp_all add: mctp_hdr_of_def nth0_4 del: One_nat_def)
  then show ?thesis
    using mctp_hdr_of_bytes by (simp add: mctp_hdr_bytes_def mctp_hdr_flags_of)
qed

end
