(* ===== verification/Mctp_Assembly.thy ===== *)
theory Mctp_Assembly
  imports Mctp
begin

text \<open>
  Message assembly of the MCTP receive loop (\<^verbatim>\<open>mctp_pkt_assembling\<close> and \<^verbatim>\<open>mctp_rx_task\<close> of
  \<^verbatim>\<open>src/common/service/mctp/mctp.c\<close>). The abstract specification \<open>assemble\<close> keeps, per message
  tag and tag-owner bit, the bytes collected so far; one iteration of the receive loop refines
  it. On the abstract level packets of different tags do not interfere.
\<close>

section \<open>Definitions\<close>

definition slot_ok :: "temp_msg \<Rightarrow> bool" where
  "slot_ok t = (case tm_buf t of None \<Rightarrow> True
     | Some b \<Rightarrow> length b = MSG_ASSEMBLY_BUF_SIZE \<and> unat (tm_offset t) \<le> MSG_ASSEMBLY_BUF_SIZE)"

definition mctp_inv :: "mctp \<Rightarrow> bool" where
  "mctp_inv m = (\<forall>tag to. slot_ok (mi_temp_msg_buf m tag to))"

definition abs_slot :: "temp_msg \<Rightarrow> bytes option" where
  "abs_slot t = map_option (take (unat (tm_offset t))) (tm_buf t)"

definition abs_mctp :: "mctp \<Rightarrow> 3 word \<times> bool \<Rightarrow> bytes option" where
  "abs_mctp m = (\<lambda>(tag, to). abs_slot (mi_temp_msg_buf m tag to))"

definition assemble ::
  "(3 word \<times> bool \<Rightarrow> bytes option) \<Rightarrow> mctp_hdr \<Rightarrow> bytes
   \<Rightarrow> (3 word \<times> bool \<Rightarrow> bytes option) \<times> bytes list" where
  "assemble A h data =
     (let k = (mh_msg_tag h, mh_to h) in
      if mh_som h \<and> mh_eom h then (A(k := None), [case A k of None \<Rightarrow> data | Some old \<Rightarrow> old])
      else case (if mh_som h then Some [] else A k) of
        None \<Rightarrow> (A, [])
      | Some acc \<Rightarrow>
          if MSG_ASSEMBLY_BUF_SIZE < length acc + length data then (A(k := None), [])
          else if mh_eom h then (A(k := None), [acc @ data])
          else (A(k := Some (acc @ data)), []))"

text \<open>The same when memory is short: the first of several packets gets no buffer, and what was collected before is lost.\<close>

definition assemble_on ::
  "bool \<Rightarrow> (3 word \<times> bool \<Rightarrow> bytes option) \<Rightarrow> mctp_hdr \<Rightarrow> bytes
   \<Rightarrow> (3 word \<times> bool \<Rightarrow> bytes option) \<times> bytes list" where
  "assemble_on ok A h data =
     (if \<not> ok \<and> mh_som h \<and> \<not> mh_eom h then (A((mh_msg_tag h, mh_to h) := None), []) else assemble A h data)"

definition start_slot :: "mctp_hdr \<Rightarrow> mctp \<Rightarrow> mctp" where
  "start_slot h m = (if mh_som h
     then set_slot h ((get_slot h m)\<lparr>tm_offset := 0, tm_buf := Some (zeros 1024)\<rparr>) m else m)"

definition rx_ext :: "mctp_hdr \<Rightarrow> mctp_ext_params \<Rightarrow> mctp_ext_params" where
  "rx_ext h ext = ext\<lparr>xp_msg_tag := ucast (mh_msg_tag h), xp_tag_owner := 0, xp_ep := mh_src_ep h\<rparr>"

definition addressed :: "mctp \<Rightarrow> mctp_hdr \<Rightarrow> bool" where
  "addressed m h = (mh_dest_ep h = mi_endpoint m \<or> mh_dest_ep h = MCTP_NULL_EID)"

definition same_but_slots :: "mctp \<Rightarrow> mctp \<Rightarrow> bool" where
  "same_but_slots m m' = (m' = m\<lparr>mi_temp_msg_buf := mi_temp_msg_buf m'\<rparr>)"

definition append_slot :: "mctp_hdr \<Rightarrow> bytes \<Rightarrow> bytes \<Rightarrow> mctp \<Rightarrow> mctp" where
  "append_slot h b data m = (let t = get_slot h m in
     set_slot h (t\<lparr>tm_buf := Some (memcpy_at (unat (tm_offset t)) data b),
       tm_offset := of_nat (unat (tm_offset t) + length data)\<rparr>) m)"

type_synonym packet = "mctp_hdr \<times> bytes \<times> mctp_ext_params"

abbreviation pkt_key :: "packet \<Rightarrow> 3 word \<times> bool" where
  "pkt_key p \<equiv> (mh_msg_tag (fst p), mh_to (fst p))"

abbreviation pkt_bytes :: "packet \<Rightarrow> bytes \<times> mctp_ext_params" where
  "pkt_bytes p \<equiv> (mctp_hdr_bytes (fst p) @ fst (snd p), snd (snd p))"

abbreviation deliver :: "nat \<Rightarrow> packet \<Rightarrow> rx_event" where
  "deliver cb p \<equiv> Rx_cb cb (fst (snd p)) (rx_ext (fst p) (snd (snd p)))"

fun assemble_run ::
  "(3 word \<times> bool \<Rightarrow> bytes option) \<Rightarrow> packet list \<Rightarrow> (3 word \<times> bool \<Rightarrow> bytes option) \<times> packet list" where
  "assemble_run A [] = (A, [])"
| "assemble_run A ((h, data, e) # ps) =
     (case assemble A h data of
        (A, ds) \<Rightarrow> (case assemble_run A ps of (A, out) \<Rightarrow> (A, map (\<lambda>d. (h, d, e)) ds @ out)))"

text \<open>A concrete instance, peer and first packet for the witnesses.\<close>

definition demo_mctp :: mctp where
  "demo_mctp = (fst (mctp_reg_msg_rx_func (the (mctp_init 10 True)) 1))\<lparr>mi_max_msg_size := 64\<rparr>"

definition demo_ext :: mctp_ext_params where
  "demo_ext = \<lparr>xp_tag_owner = 1, xp_msg_tag = 0, xp_ep = 10, xp_type = MCTP_MEDIUM_TYPE_SMBUS, xp_addr = 0x40\<rparr>"

definition demo_msg :: "u8 \<Rightarrow> bytes \<Rightarrow> mctp_tx_msg" where
  "demo_msg owner buf = \<lparr>tx_is_bridge_packet = False, tx_buf = Some buf, tx_len = of_nat (length buf),
     tx_ext_params = demo_ext\<lparr>xp_tag_owner := owner\<rparr>\<rparr>"

definition demo_som :: mctp_hdr where
  "demo_som = \<lparr>mh_hdr_ver = 1, mh_dest_ep = 10, mh_src_ep = 8, mh_msg_tag = 0, mh_to = False,
     mh_pkt_seq = 0, mh_eom = False, mh_som = True\<rparr>"

section \<open>Refinement of the specification\<close>

lemma mctp_inv_slot: "mctp_inv m \<Longrightarrow> slot_ok (get_slot h m)"
  by (simp add: mctp_inv_def get_slot_def)

lemma mctp_inv_set_slot [inv_intros]: "mctp_inv m \<Longrightarrow> slot_ok t \<Longrightarrow> mctp_inv (set_slot h t m)"
  by (simp add: mctp_inv_def set_slot_def)

lemma mctp_inv_free_slot [inv_intros]: "mctp_inv m \<Longrightarrow> mctp_inv (free_slot h m)"
  by (auto simp: free_slot_def slot_ok_def split: option.split intro: inv_intros)

lemma abs_set_slot: "abs_mctp (set_slot h t m) = (abs_mctp m)((mh_msg_tag h, mh_to h) := abs_slot t)"
  by (auto simp: abs_mctp_def set_slot_def fun_eq_iff)

lemma abs_get_slot: "abs_mctp m (mh_msg_tag h, mh_to h) = abs_slot (get_slot h m)"
  by (simp add: abs_mctp_def get_slot_def)

lemma abs_free_slot: "abs_mctp (free_slot h m) = (abs_mctp m)((mh_msg_tag h, mh_to h) := None)"
proof (cases "tm_buf (get_slot h m)")
  case None
  then have "abs_mctp m (mh_msg_tag h, mh_to h) = None" by (simp add: abs_get_slot abs_slot_def)
  with None show ?thesis by (simp add: free_slot_def fun_upd_idem)
next
  case (Some b)
  then show ?thesis by (simp add: free_slot_def abs_set_slot abs_slot_def)
qed

lemma set_slot_frame [frame_simps]:
  "mi_rx_cb (set_slot h t m) = mi_rx_cb m" "mi_endpoint (set_slot h t m) = mi_endpoint m"
  by (simp_all add: set_slot_def)

lemma free_slot_frame [frame_simps]:
  "mi_rx_cb (free_slot h m) = mi_rx_cb m" "mi_endpoint (free_slot h m) = mi_endpoint m"
  by (simp_all add: free_slot_def frame_simps split: option.split)

lemma offset_new_unat:
  fixes ofs len :: u16
  assumes "unat ofs \<le> 1024" and "4 \<le> unat len" and "unat len \<le> 256"
  shows "unat (ofs + len - 4) = unat ofs + (unat len - 4)"
proof -
  have s: "unat (ofs + len) = unat ofs + unat len"
    using assms by (intro unat_plus_no_wrap) simp
  have "(4 :: u16) \<le> ofs + len"
    using s assms by (simp add: word_le_nat_alt)
  from unat_sub [OF this] s assms show ?thesis by simp
qed

lemma slot_started [simp]: "slot_ok (t\<lparr>tm_offset := 0, tm_buf := Some (zeros 1024)\<rparr>)"
  by (simp add: slot_ok_def)

lemma slot_append:
  assumes "tm_buf t = Some b" and "slot_ok t" and "unat (tm_offset t) + length data \<le> 1024"
    and "unat ofs = unat (tm_offset t) + length data"
  shows "slot_ok (t\<lparr>tm_buf := Some (memcpy_at (unat (tm_offset t)) data b), tm_offset := ofs\<rparr>)"
    and "abs_slot (t\<lparr>tm_buf := Some (memcpy_at (unat (tm_offset t)) data b), tm_offset := ofs\<rparr>)
      = Some (take (unat (tm_offset t)) b @ data)"
  using assms by (auto simp: slot_ok_def abs_slot_def)

lemma start_slot_facts:
  "mctp_inv m \<Longrightarrow> mctp_inv (start_slot h m)"
  "mi_rx_cb (start_slot h m) = mi_rx_cb m"
  "abs_mctp (start_slot h m) = (if mh_som h then (abs_mctp m)((mh_msg_tag h, mh_to h) := Some []) else abs_mctp m)"
  by (auto simp: start_slot_def mctp_inv_set_slot frame_simps abs_set_slot abs_slot_def)

lemma assembling_multi:
  assumes "mctp_inv m" and "\<not> (mh_som h \<and> mh_eom h)" and "length data \<le> 252"
  defines "p \<equiv> mctp_hdr_bytes h @ data"
  defines "m1 \<equiv> start_slot h m"
  shows "mctp_pkt_assembling True m (p @ zeros n) (of_nat (length p)) =
    (case tm_buf (get_slot h m1) of
       None \<Rightarrow> Some (m1, MCTP_ERROR)
     | Some b \<Rightarrow>
         if 1024 < unat (tm_offset (get_slot h m1)) + length data then Some (m1, MCTP_ERROR)
         else Some (set_slot h ((get_slot h m1)\<lparr>tm_buf := Some (memcpy_at (unat (tm_offset (get_slot h m1))) data b),
            tm_offset := of_nat (unat (tm_offset (get_slot h m1)) + length data)\<rparr>) m1, MCTP_SUCCESS))"
proof -
  have len: "unat (of_nat (length p) :: u16) = length data + 4"
    using assms(3) unat_of_nat_lt [of "length p", where 'a = 16] by (simp add: p_def)
  have nz: "(of_nat (length p) :: u16) \<noteq> 0"
    using len by (metis add_is_0 unsigned_0 zero_neq_numeral)
  let ?t = "get_slot h m1"
  have inv: "slot_ok ?t" using assms(1) m1_def start_slot_facts(1) mctp_inv_slot by blast
  have ofs: "unat (tm_offset ?t + of_nat (length p) - 4) = unat (tm_offset ?t) + length data"
    if "tm_buf ?t = Some b" for b
    using offset_new_unat [of "tm_offset ?t" "of_nat (length p)"] inv that len assms(3)
    by (simp add: slot_ok_def)
  have ofs': "tm_offset ?t + of_nat (length p) - 4 = of_nat (unat (tm_offset ?t) + length data)"
    if "tm_buf ?t = Some b" for b
    unfolding ofs [OF that, symmetric] by simp
  have m1: "set_slot h ?t m = m1"
    by (simp add: m1_def start_slot_def set_slot_self)
  have t: "(if mh_som h then (get_slot h m)\<lparr>tm_offset := 0,
      tm_buf := if True then Some (zeros MSG_ASSEMBLY_BUF_SIZE) else None\<rparr> else get_slot h m) = ?t"
    by (simp add: m1_def start_slot_def)
  have sl: "slice 4 (length data) (p @ zeros n) = data"
    by (simp add: p_def slice_def)
  have hd: "mctp_hdr_of (p @ zeros n) = h" by (simp add: p_def)
  show ?thesis
    unfolding mctp_pkt_assembling_def hd Let_def t m1
    using nz assms(2) len inv ofs ofs' sl
    by (auto simp: slot_ok_def p_def split: option.split)
qed

lemma same_but_slots_set [simp, intro]: "same_but_slots m (set_slot h t m)"
  by (simp add: same_but_slots_def set_slot_def)

lemma same_but_slots_refl [simp, intro]: "same_but_slots m m"
  by (simp add: same_but_slots_def)

lemma same_but_slots_trans [trans]:
  "same_but_slots a b \<Longrightarrow> same_but_slots b c \<Longrightarrow> same_but_slots a c"
  by (cases a; cases b; cases c) (simp add: same_but_slots_def)

lemma same_but_slots_free [simp, intro]: "same_but_slots m (free_slot h m)"
  by (simp add: free_slot_def split: option.split)

lemma same_but_slots_start [simp, intro]: "same_but_slots m (start_slot h m)"
  by (simp add: start_slot_def)

lemma same_but_slots_fields:
  assumes "same_but_slots m m'"
  shows "mi_rx_cb m' = mi_rx_cb m" "mi_endpoint m' = mi_endpoint m"
    "mi_max_msg_size m' = mi_max_msg_size m" "addressed m' h = addressed m h"
  using assms by (cases m; cases m'; simp add: same_but_slots_def addressed_def)+

lemma rx_step_self:
  assumes "addressed m h" and "length data \<le> 252"
  defines "p \<equiv> mctp_hdr_bytes h @ data"
  shows "mctp_rx_step ok m p ext =
    (case mctp_pkt_assembling ok m (p @ zeros (256 - length p)) (of_nat (length p)) of
       None \<Rightarrow> None
     | Some (m', ret) \<Rightarrow>
         if ret = MCTP_ERROR then Some (free_slot h m', [])
         else if \<not> mh_eom h then Some (m', [])
         else case mi_rx_cb m' of
           None \<Rightarrow> Some (free_slot h m', [])
         | Some cb \<Rightarrow> Some (free_slot h m', [Rx_cb cb
             (case abs_slot (get_slot h m') of None \<Rightarrow> data | Some b \<Rightarrow> b) (rx_ext h ext)]))"
proof -
  have "unat (of_nat (length p) :: u16) = length data + 4"
    using assms(2) unat_of_nat_lt [of "length p", where 'a = 16] by (simp add: p_def)
  then have nz: "(of_nat (length p) :: u16) \<noteq> 0"
    by (metis add_is_0 unsigned_0 zero_neq_numeral)
  have hd: "mctp_hdr_of (p @ zeros (256 - length p)) = h" by (simp add: p_def)
  have d: "length p \<ge> 4" "drop 4 p = data" by (simp_all add: p_def)
  have a: "\<not> (mh_dest_ep h \<noteq> mi_endpoint m \<and> mh_dest_ep h \<noteq> MCTP_NULL_EID)"
    using assms(1) by (auto simp: addressed_def)
  show ?thesis
    unfolding mctp_rx_step_def Let_def hd if_not_P [OF nz] if_not_P [OF a]
    using d by (auto simp: rx_ext_def abs_slot_def split: option.split prod.split)
qed

lemma assembling_single:
  assumes "mh_som h" and "mh_eom h" and "length data \<le> 252"
  defines "p \<equiv> mctp_hdr_bytes h @ data"
  shows "mctp_pkt_assembling True m (p @ zeros n) (of_nat (length p)) = Some (m, MCTP_SUCCESS)"
proof -
  have "unat (of_nat (length p) :: u16) = length data + 4"
    using assms(3) unat_of_nat_lt [of "length p", where 'a = 16] by (simp add: p_def)
  then have nz: "(of_nat (length p) :: u16) \<noteq> 0"
    by (metis add_is_0 unsigned_0 zero_neq_numeral)
  have hd: "mctp_hdr_of (p @ zeros n) = h" by (simp add: p_def)
  show ?thesis unfolding mctp_pkt_assembling_def hd Let_def if_not_P [OF nz]
    using assms(1,2) by simp
qed

lemma rx_step_single:
  assumes "addressed m h" and "mi_rx_cb m = Some cb" and "length data \<le> 252" and "mh_som h" and "mh_eom h"
  shows "mctp_rx_step True m (mctp_hdr_bytes h @ data) ext = Some (free_slot h m,
    [Rx_cb cb (case abs_slot (get_slot h m) of None \<Rightarrow> data | Some b \<Rightarrow> b) (rx_ext h ext)])"
  unfolding rx_step_self [OF assms(1,3)] using assembling_single [OF assms(4,5,3)] assms(2,5) by simp

lemma same_but_slots_append [simp, intro]: "same_but_slots m (append_slot h b data m)"
  by (simp add: append_slot_def Let_def)

lemma append_slot_facts:
  assumes inv: "mctp_inv m" and b: "tm_buf (get_slot h m) = Some b"
    and fit: "unat (tm_offset (get_slot h m)) + length data \<le> 1024"
  shows "mctp_inv (append_slot h b data m)"
    "abs_slot (get_slot h (append_slot h b data m)) = Some (take (unat (tm_offset (get_slot h m))) b @ data)"
    "abs_mctp (append_slot h b data m)
      = (abs_mctp m)((mh_msg_tag h, mh_to h) := Some (take (unat (tm_offset (get_slot h m))) b @ data))"
proof -
  let ?t = "get_slot h m"
  have u: "unat (of_nat (unat (tm_offset ?t) + length data) :: u16) = unat (tm_offset ?t) + length data"
    by (rule unat_of_nat_lt) (use fit in simp)
  note t2 = slot_append [OF b mctp_inv_slot [OF inv] fit u]
  show "mctp_inv (append_slot h b data m)"
    using t2(1) inv by (simp add: append_slot_def Let_def mctp_inv_set_slot)
  show "abs_slot (get_slot h (append_slot h b data m)) = Some (take (unat (tm_offset ?t)) b @ data)"
    "abs_mctp (append_slot h b data m)
      = (abs_mctp m)((mh_msg_tag h, mh_to h) := Some (take (unat (tm_offset ?t)) b @ data))"
    using t2(2) by (simp_all add: append_slot_def Let_def abs_set_slot)
qed

lemma rx_step_multi:
  assumes inv: "mctp_inv m" and ad: "addressed m h" and cb: "mi_rx_cb m = Some cb"
    and len: "length data \<le> 252" and multi: "\<not> (mh_som h \<and> mh_eom h)"
  defines "m1 \<equiv> start_slot h m"
  defines "t \<equiv> get_slot h m1"
  shows "mctp_rx_step True m (mctp_hdr_bytes h @ data) ext =
    (case tm_buf t of
       None \<Rightarrow> Some (free_slot h m1, [])
     | Some b \<Rightarrow>
         if 1024 < unat (tm_offset t) + length data then Some (free_slot h m1, [])
         else if \<not> mh_eom h then Some (append_slot h b data m1, [])
         else Some (free_slot h (append_slot h b data m1),
           [Rx_cb cb (take (unat (tm_offset t)) b @ data) (rx_ext h ext)]))"
proof -
  have inv1: "mctp_inv m1" using start_slot_facts(1) [OF inv] m1_def by simp
  note asm = assembling_multi [OF inv multi len, folded m1_def, folded t_def]
  show ?thesis
  proof (cases "tm_buf t")
    case None
    then show ?thesis unfolding rx_step_self [OF ad len] asm by simp
  next
    case (Some b)
    note ap = append_slot_facts [OF inv1, of h b data, folded t_def, OF Some]
    have e: "set_slot h (t\<lparr>tm_buf := Some (memcpy_at (unat (tm_offset t)) data b),
        tm_offset := of_nat (unat (tm_offset t) + length data)\<rparr>) m1 = append_slot h b data m1"
      by (simp add: append_slot_def t_def Let_def)
    have "mi_rx_cb (append_slot h b data m1) = Some cb"
      using cb start_slot_facts(2) by (simp add: append_slot_def Let_def frame_simps m1_def)
    then show ?thesis
      unfolding rx_step_self [OF ad len] asm Some option.case e using ap(2) by (simp add: not_less)
  qed
qed

lemma rx_step_refines_multi:
  assumes inv: "mctp_inv m" and ad: "addressed m h" and cb: "mi_rx_cb m = Some cb"
    and len: "length data \<le> 252" and multi: "\<not> (mh_som h \<and> mh_eom h)"
    and asm: "assemble (abs_mctp m) h data = (A, ds)"
  shows "\<exists>m'. mctp_rx_step True m (mctp_hdr_bytes h @ data) ext
      = Some (m', map (\<lambda>d. Rx_cb cb d (rx_ext h ext)) ds)
    \<and> abs_mctp m' = A \<and> mctp_inv m' \<and> same_but_slots m m'"
proof -
  let ?m1 = "start_slot h m" and ?k = "(mh_msg_tag h, mh_to h)"
  let ?t = "get_slot h ?m1"
  note m1 = start_slot_facts(1) [OF inv, of h] start_slot_facts(2,3)
  note step = rx_step_multi [OF inv ad cb len multi, of ext]
  have k: "abs_slot ?t = (if mh_som h then Some [] else abs_mctp m ?k)"
    by (auto simp: start_slot_def abs_slot_def abs_get_slot)
  have upd: "(abs_mctp ?m1)(?k := v) = (abs_mctp m)(?k := v)" for v by (simp add: m1(3))
  show ?thesis
  proof (cases "tm_buf ?t")
    case None
    then have ns: "\<not> mh_som h" "abs_mctp m ?k = None"
      using k by (auto simp: start_slot_def abs_slot_def split: if_splits)
    then have "A = abs_mctp m" "ds = []" using asm by (auto simp: assemble_def)
    with None ns step m1 show ?thesis
      by (intro exI [of _ "free_slot h ?m1"])
        (auto simp: abs_free_slot fun_upd_idem intro: inv_intros same_but_slots_trans)
  next
    case (Some b)
    let ?acc = "take (unat (tm_offset ?t)) b"
    note ap = append_slot_facts [OF m1(1) Some]
    have lacc: "length ?acc = unat (tm_offset ?t)"
      using mctp_inv_slot [OF m1(1), of h] Some by (simp add: slot_ok_def)
    have kk: "(if mh_som h then Some [] else abs_mctp m ?k) = Some ?acc"
      using k Some by (simp add: abs_slot_def)
    have asm': "(if 1024 < unat (tm_offset ?t) + length data then ((abs_mctp m)(?k := None), [])
       else if mh_eom h then ((abs_mctp m)(?k := None), [?acc @ data])
       else ((abs_mctp m)(?k := Some (?acc @ data)), [])) = (A, ds)"
      using asm unfolding assemble_def Let_def if_not_P [OF multi] kk option.case lacc by simp
    have same: "same_but_slots m (free_slot h (append_slot h b data ?m1))"
      "same_but_slots m (append_slot h b data ?m1)" "same_but_slots m (free_slot h ?m1)"
      by (meson same_but_slots_append same_but_slots_free same_but_slots_start same_but_slots_trans)+
    show ?thesis
      using step asm' ap [of data] m1(1) Some same
      by (auto simp: abs_free_slot upd not_less split: if_splits intro: inv_intros)
  qed
qed

lemma rx_step_refines:
  assumes "mctp_inv m" and "addressed m h" and "mi_rx_cb m = Some cb" and "length data \<le> 252"
    and "assemble (abs_mctp m) h data = (A, ds)"
  shows "\<exists>m'. mctp_rx_step True m (mctp_hdr_bytes h @ data) ext
      = Some (m', map (\<lambda>d. Rx_cb cb d (rx_ext h ext)) ds)
    \<and> abs_mctp m' = A \<and> mctp_inv m' \<and> same_but_slots m m'"
proof (cases "mh_som h \<and> mh_eom h")
  case True
  with assms rx_step_single [OF assms(2-4), of ext] show ?thesis
    by (intro exI [of _ "free_slot h m"])
      (auto simp: abs_free_slot abs_get_slot assemble_def intro: inv_intros)
next
  case False
  with rx_step_refines_multi [OF assms(1-4) _ assms(5)] show ?thesis by blast
qed

text \<open>The other outcomes of a step: no memory, and no callback.\<close>

lemma frame_len_nz:
  assumes "length data \<le> 252"
  shows "(of_nat (length (mctp_hdr_bytes h @ data)) :: u16) \<noteq> 0"
proof -
  have "unat (of_nat (length (mctp_hdr_bytes h @ data)) :: u16) = length data + 4"
    using assms unat_of_nat_lt [of "length (mctp_hdr_bytes h @ data)", where 'a = 16] by simp
  then show ?thesis by (metis add_is_0 unsigned_0 zero_neq_numeral)
qed

lemma assembling_no_memory:
  assumes "mh_som h" and "\<not> mh_eom h" and "length data \<le> 252"
  shows "mctp_pkt_assembling False m ((mctp_hdr_bytes h @ data) @ zeros n) (of_nat (length (mctp_hdr_bytes h @ data)))
    = Some (set_slot h ((get_slot h m)\<lparr>tm_offset := 0, tm_buf := None\<rparr>) m, MCTP_ERROR)"
proof -
  have hd: "mctp_hdr_of ((mctp_hdr_bytes h @ data) @ zeros n) = h" by simp
  show ?thesis unfolding mctp_pkt_assembling_def hd Let_def if_not_P [OF frame_len_nz [OF assms(3)]]
    using assms(1,2) by simp
qed

lemma assembling_memory:
  assumes "ok \<or> \<not> mh_som h \<or> mh_eom h"
  shows "mctp_pkt_assembling ok m ((mctp_hdr_bytes h @ data) @ zeros n) len
    = mctp_pkt_assembling True m ((mctp_hdr_bytes h @ data) @ zeros n) len"
proof -
  have hd: "mctp_hdr_of ((mctp_hdr_bytes h @ data) @ zeros n) = h" by simp
  show ?thesis unfolding mctp_pkt_assembling_def hd Let_def using assms by auto
qed

lemma slot_cb:
  "set_slot h t (m\<lparr>mi_rx_cb := c\<rparr>) = (set_slot h t m)\<lparr>mi_rx_cb := c\<rparr>" 
  "get_slot h (m\<lparr>mi_rx_cb := c\<rparr>) = get_slot h m"
  by (cases m; simp add: set_slot_def get_slot_def cong: if_cong)+

lemma assembling_cb:
  "mctp_pkt_assembling ok (m\<lparr>mi_rx_cb := c\<rparr>) buf len
    = map_option (\<lambda>(m', r). (m'\<lparr>mi_rx_cb := c\<rparr>, r)) (mctp_pkt_assembling ok m buf len)"
  unfolding mctp_pkt_assembling_def slot_cb Let_def if_distrib [of "map_option _"] option.case_distrib [of "map_option _"]
      option.map prod.case
  ..

lemma free_slot_cb: "free_slot h (m\<lparr>mi_rx_cb := c\<rparr>) = (free_slot h m)\<lparr>mi_rx_cb := c\<rparr>"
  unfolding free_slot_def slot_cb by (cases "tm_buf (get_slot h m)") simp_all

lemma rx_step_no_cb:
  assumes ad: "addressed m h" and len: "length data \<le> 252" and none: "mi_rx_cb m = None"
    and s: "mctp_rx_step ok (m\<lparr>mi_rx_cb := Some cb\<rparr>) (mctp_hdr_bytes h @ data) ext = Some (m', evs)"
  shows "mctp_rx_step ok m (mctp_hdr_bytes h @ data) ext = Some (m'\<lparr>mi_rx_cb := None\<rparr>, [])"
proof -
  let ?p = "mctp_hdr_bytes h @ data"
  have ad': "addressed (m\<lparr>mi_rx_cb := Some cb\<rparr>) h" using ad by (simp add: addressed_def)
  let ?buf = "?p @ zeros (256 - length ?p)"
  obtain m1 r where a: "mctp_pkt_assembling ok m ?buf (of_nat (length ?p)) = Some (m1, r)"
  proof (cases "mctp_pkt_assembling ok m ?buf (of_nat (length ?p))")
    case None
    then show ?thesis using s unfolding rx_step_self [OF ad' len] assembling_cb by simp
  next
    case (Some x)
    then show ?thesis using that by (cases x) simp
  qed
  have m: "m\<lparr>mi_rx_cb := None\<rparr> = m" using none by (cases m) simp
  have e1: "m1\<lparr>mi_rx_cb := None\<rparr> = m1"
    using assembling_cb [where ok = ok and m = m and c = None and buf = "?buf" and len = "of_nat (length ?p)"]
    unfolding m a by simp
  then have n1: "mi_rx_cb m1 = None" by (metis mctp.select_convs(15) mctp.surjective mctp.update_convs(15))
  have e2: "(free_slot h m1)\<lparr>mi_rx_cb := None\<rparr> = free_slot h m1"
    using free_slot_cb [where h = h and m = m1 and c = None] unfolding e1 by simp
  show ?thesis
    using s unfolding rx_step_self [OF ad len] rx_step_self [OF ad' len] assembling_cb a
    by (auto simp: n1 free_slot_cb e1 e2 split: if_splits)
qed

lemma rx_step_refines_ok:
  assumes inv: "mctp_inv m" and ad: "addressed m h" and cb: "mi_rx_cb m = Some cb" and len: "length data \<le> 252"
    and asm: "assemble_on ok (abs_mctp m) h data = (A, ds)"
  shows "\<exists>m'. mctp_rx_step ok m (mctp_hdr_bytes h @ data) ext = Some (m', map (\<lambda>d. Rx_cb cb d (rx_ext h ext)) ds)
    \<and> abs_mctp m' = A \<and> mctp_inv m' \<and> same_but_slots m m'"
proof (cases "\<not> ok \<and> mh_som h \<and> \<not> mh_eom h")
  case True
  let ?m1 = "set_slot h ((get_slot h m)\<lparr>tm_offset := 0, tm_buf := None\<rparr>) m"
  have "A = (abs_mctp m)((mh_msg_tag h, mh_to h) := None)" "ds = []" using asm True by (auto simp: assemble_on_def)
  moreover have "mctp_rx_step ok m (mctp_hdr_bytes h @ data) ext = Some (free_slot h ?m1, [])"
    using True assembling_no_memory [OF _ _ len, of h m] by (simp add: rx_step_self [OF ad len])
  moreover have "abs_mctp (free_slot h ?m1) = (abs_mctp m)((mh_msg_tag h, mh_to h) := None)"
    by (simp add: abs_free_slot abs_set_slot)
  moreover have "mctp_inv (free_slot h ?m1)" by (intro inv_intros inv) (simp add: slot_ok_def)
  moreover have "same_but_slots m (free_slot h ?m1)" by (meson same_but_slots_free same_but_slots_set same_but_slots_trans)
  ultimately show ?thesis by (intro exI [of _ "free_slot h ?m1"]) simp
next
  case False
  then have "mctp_rx_step ok m (mctp_hdr_bytes h @ data) ext = mctp_rx_step True m (mctp_hdr_bytes h @ data) ext"
    using assembling_memory [of ok h] by (simp add: rx_step_self [OF ad len])
  moreover have "assemble (abs_mctp m) h data = (A, ds)" using asm False by (auto simp: assemble_on_def)
  ultimately show ?thesis using rx_step_refines [OF inv ad cb len] by simp
qed

lemma same_but_slots_cb: "same_but_slots (m\<lparr>mi_rx_cb := c\<rparr>) m' \<Longrightarrow> mi_rx_cb m = d \<Longrightarrow> same_but_slots m (m'\<lparr>mi_rx_cb := d\<rparr>)"
  by (cases m; cases m') (simp add: same_but_slots_def)

lemma rx_run_refines:
  assumes "mctp_inv m" and "mi_rx_cb m = Some cb"
    and "\<forall>p \<in> set ps. addressed m (fst p) \<and> length (fst (snd p)) \<le> 252"
    and "assemble_run (abs_mctp m) ps = (A, out)"
  shows "\<exists>m'. mctp_rx_run m (map pkt_bytes ps) = Some (m', map (deliver cb) out)
    \<and> abs_mctp m' = A \<and> mctp_inv m' \<and> same_but_slots m m'"
  using assms
proof (induction ps arbitrary: m out)
  case Nil
  then show ?case by simp
next
  case (Cons p ps)
  obtain h data e where p: "p = (h, data, e)" by (cases p)
  obtain A1 ds where 1: "assemble (abs_mctp m) h data = (A1, ds)" by force
  obtain out' where 2: "assemble_run A1 ps = (A, out')" and out: "out = map (\<lambda>d. (h, d, e)) ds @ out'"
    using Cons.prems(4) by (auto simp: p 1 split: prod.splits)
  obtain m1 where m1: "mctp_rx_step True m (mctp_hdr_bytes h @ data) e
      = Some (m1, map (\<lambda>d. Rx_cb cb d (rx_ext h e)) ds)"
    "abs_mctp m1 = A1" "mctp_inv m1" "same_but_slots m m1"
    using rx_step_refines [OF Cons.prems(1) _ Cons.prems(2) _ 1, of e] Cons.prems(3) p by auto
  obtain m2 where "mctp_rx_run m1 (map pkt_bytes ps) = Some (m2, map (deliver cb) out')"
    "abs_mctp m2 = A" "mctp_inv m2" "same_but_slots m1 m2"
    using Cons.IH [of m1 out'] m1 2 Cons.prems(2,3) same_but_slots_fields [OF m1(4)] by auto
  with m1 show ?case
    by (auto simp: p out intro: same_but_slots_trans)
qed

lemma assemble_frame:
  "assemble A h data = (A', ds) \<Longrightarrow> k \<noteq> (mh_msg_tag h, mh_to h) \<Longrightarrow> A' k = A k"
  by (auto simp: assemble_def Let_def split: if_splits option.splits)

lemma assemble_local:
  assumes "A (mh_msg_tag h, mh_to h) = B (mh_msg_tag h, mh_to h)"
    and "assemble A h data = (A', ds)" and "assemble B h data = (B', ds')"
  shows "ds' = ds \<and> B' (mh_msg_tag h, mh_to h) = A' (mh_msg_tag h, mh_to h)"
  using assms by (auto simp: assemble_def Let_def split: if_splits option.splits)

lemma assemble_run_project:
  assumes "A k = B k"
    and "assemble_run A ps = (A', out)" and "assemble_run B (filter (\<lambda>p. pkt_key p = k) ps) = (B', out')"
  shows "filter (\<lambda>p. pkt_key p = k) out = out' \<and> A' k = B' k"
  using assms
proof (induction ps arbitrary: A B out out')
  case Nil
  then show ?case by simp
next
  case (Cons p ps)
  obtain h data e where p: "p = (h, data, e)" by (cases p)
  obtain A1 ds where 1: "assemble A h data = (A1, ds)" by force
  obtain o1 where 2: "assemble_run A1 ps = (A', o1)" and out: "out = map (\<lambda>d. (h, d, e)) ds @ o1"
    using Cons.prems(2) by (auto simp: p 1 split: prod.splits)
  show ?case
  proof (cases "(mh_msg_tag h, mh_to h) = k")
    case False
    then have "A1 k = B k" using assemble_frame [OF 1] Cons.prems(1) by metis
    from Cons.IH [of A1 B o1 out', OF this 2] Cons.prems(3) False show ?thesis
      by (auto simp: p out filter_map comp_def)
  next
    case True
    obtain B1 ds' where b: "assemble B h data = (B1, ds')" by force
    obtain o2 where 3: "assemble_run B1 (filter (\<lambda>p. pkt_key p = k) ps) = (B', o2)"
      and out': "out' = map (\<lambda>d. (h, d, e)) ds' @ o2"
      using Cons.prems(3) True by (auto simp: p b split: prod.splits)
    have "ds' = ds" "A1 k = B1 k"
      using assemble_local [OF _ 1 b] True Cons.prems(1) by auto
    with Cons.IH [of A1 B1 o1 o2, OF _ 2 3] True show ?thesis
      by (auto simp: out out' filter_map comp_def)
  qed
qed

lemma assemble_run_outside:
  "assemble_run A ps = (A', out) \<Longrightarrow> k \<notin> set (map pkt_key ps) \<Longrightarrow> A' k = A k"
  by (induction A ps arbitrary: out rule: assemble_run.induct)
    (auto split: prod.splits dest: assemble_frame)

lemma assemble_run_keys:
  "assemble_run A ps = (A', out) \<Longrightarrow> pkt_key ` set out \<subseteq> pkt_key ` set ps"
proof (induction ps arbitrary: A out)
  case (Cons p ps)
  obtain h data e where p: "p = (h, data, e)" by (cases p)
  obtain A1 ds where 1: "assemble A h data = (A1, ds)" by force
  obtain o1 where 2: "assemble_run A1 ps = (A', o1)" and out: "out = map (\<lambda>d. (h, d, e)) ds @ o1"
    using Cons.prems by (auto simp: p 1 split: prod.splits)
  from Cons.IH [OF 2] show ?case by (auto simp: p out)
qed simp

lemma filter_key_shuffle:
  assumes "ps \<in> shuffles xs ys" and "\<forall>p \<in> set xs. pkt_key p = k" and "\<forall>p \<in> set ys. pkt_key p \<noteq> k"
  shows "filter (\<lambda>p. pkt_key p = k) ps = xs"
proof -
  have "filter (\<lambda>p. pkt_key p = k) xs = xs" "filter (\<lambda>p. pkt_key p = k) ys = []"
    using assms(2,3) by (auto simp: filter_empty_conv)
  moreover have "filter (\<lambda>p. pkt_key p = k) ps \<in> shuffles (filter (\<lambda>p. pkt_key p = k) xs) (filter (\<lambda>p. pkt_key p = k) ys)"
    using assms(1) filter_shuffles by blast
  ultimately show ?thesis by simp
qed

lemma assembling_safe:
  assumes "mctp_inv m" and "4 \<le> unat len" and "unat len \<le> 256" and "unat len \<le> length buf"
  shows "\<exists>m' r. mctp_pkt_assembling ok m buf len = Some (m', r) \<and> mctp_inv m'"
proof -
  let ?h = "mctp_hdr_of buf"
  let ?t = "if mh_som ?h then (get_slot ?h m)\<lparr>tm_offset := 0,
      tm_buf := if ok then Some (zeros MSG_ASSEMBLY_BUF_SIZE) else None\<rparr> else get_slot ?h m"
  have t: "slot_ok ?t" using mctp_inv_slot [OF assms(1)] by (simp add: slot_ok_def)
  then have m1: "mctp_inv (set_slot ?h ?t m)" by (rule mctp_inv_set_slot [OF assms(1)])
  have nz: "len \<noteq> 0" using assms(2) by auto
  show ?thesis
  proof (cases "tm_buf ?t")
    case None
    then show ?thesis using m1 assms(1) nz
      by (simp add: mctp_pkt_assembling_def Let_def split: if_split)
  next
    case (Some b)
    let ?d = "slice 4 (unat len - 4) buf"
    have ofs: "unat (tm_offset ?t) \<le> 1024" "length b = 1024"
      using t Some by (simp_all add: slot_ok_def)
    have on: "unat (tm_offset ?t + len - 4) = unat (tm_offset ?t) + (unat len - 4)"
      using offset_new_unat [OF ofs(1) assms(2,3)] .
    have dl: "length ?d = unat len - 4" using assms by simp
    have "slot_ok (?t\<lparr>tm_buf := Some (memcpy_at (unat (tm_offset ?t)) ?d b),
        tm_offset := tm_offset ?t + len - 4\<rparr>)"
      if "unat (tm_offset ?t) + (unat len - 4) \<le> 1024"
      using slot_append(1) [OF Some t, of ?d "tm_offset ?t + len - 4"] that on dl by simp
    then have m2: "mctp_inv (set_slot ?h (?t\<lparr>tm_buf := Some (memcpy_at (unat (tm_offset ?t)) ?d b),
        tm_offset := tm_offset ?t + len - 4\<rparr>) (set_slot ?h ?t m))"
      if "unat (tm_offset ?t) + (unat len - 4) \<le> 1024"
      using that mctp_inv_set_slot [OF m1] by blast
    have lt: "\<not> (unat len < MCTP_TRANSPORT_HEADER_SIZE \<or> length buf < unat len
      \<or> length b < unat (tm_offset ?t) + (unat len - MCTP_TRANSPORT_HEADER_SIZE))"
      if "unat (tm_offset ?t) + (unat len - 4) \<le> 1024"
      using that ofs(2) assms by simp
    show ?thesis
    proof (cases "mh_som ?h \<and> mh_eom ?h")
      case True
      then show ?thesis using assms(1) nz by (simp add: mctp_pkt_assembling_def Let_def)
    next
      case False
      have eq: "mctp_pkt_assembling ok m buf len =
        (if unat (tm_offset ?t + len - 4) > MSG_ASSEMBLY_BUF_SIZE then Some (set_slot ?h ?t m, MCTP_ERROR)
         else if unat len < MCTP_TRANSPORT_HEADER_SIZE \<or> length buf < unat len
                \<or> length b < unat (tm_offset ?t) + (unat len - MCTP_TRANSPORT_HEADER_SIZE) then None
         else Some (set_slot ?h (?t\<lparr>tm_buf := Some (memcpy_at (unat (tm_offset ?t))
                (slice MCTP_TRANSPORT_HEADER_SIZE (unat len - MCTP_TRANSPORT_HEADER_SIZE) buf) b),
              tm_offset := tm_offset ?t + len - 4\<rparr>) (set_slot ?h ?t m), MCTP_SUCCESS))"
        unfolding mctp_pkt_assembling_def Let_def if_not_P [OF nz] if_not_P [OF False] Some by simp
      show ?thesis
      proof (cases "unat (tm_offset ?t) + (unat len - 4) \<le> 1024")
        case True
        then show ?thesis unfolding eq on if_not_P [OF lt [OF True]] using m2 by simp
      next
        case False
        then show ?thesis unfolding eq on using m1 by simp
      qed
    qed
  qed
qed

lemma rx_step_safe:
  assumes "mctp_inv m" and "length rd \<le> 256" and "rd = [] \<or> 4 \<le> length rd"
  shows "\<exists>m' evs. mctp_rx_step ok m rd ext = Some (m', evs) \<and> mctp_inv m'"
proof (cases "rd = []")
  case True
  then show ?thesis using assms(1) by (simp add: mctp_rx_step_def)
next
  case False
  let ?buf = "rd @ zeros (256 - length rd)"
  have len: "unat (of_nat (length rd) :: u16) = length rd"
    using assms(2) by (intro unat_of_nat_lt) simp
  obtain m1 r where a: "mctp_pkt_assembling ok m ?buf (of_nat (length rd)) = Some (m1, r)" "mctp_inv m1"
    using assembling_safe [OF assms(1), of "of_nat (length rd)" ?buf ok] assms(2,3) False len by auto
  then show ?thesis
    using assms False
    by (auto simp: mctp_rx_step_def Let_def split: option.split intro: inv_intros)
qed

section \<open>Properties\<close>

lemmas demo_defs = demo_mctp_def demo_ext_def demo_msg_def mctp_init_def mctp_reg_msg_rx_func_def

lemma demo_ready:
  "mctp_inv demo_mctp" "mi_rx_cb demo_mctp = Some 1"
  "addressed demo_mctp (tx_hdr demo_mctp (demo_msg owner buf) 0)"
  "abs_mctp demo_mctp k = None"
  by (simp_all add: demo_defs mctp_inv_def slot_ok_def addressed_def tx_hdr_def abs_mctp_def
      abs_slot_def Let_def split: prod.split)

text \<open>
  (C4) Functional refinement: on every packet addressed to the instance, whether or not memory can be allocated and
  whether or not a callback is registered, one iteration of the receive loop does to the assembled contents what the
  abstract assembly specifies, and calls the callback, if there is one, with exactly the messages that it delivers.
\<close>

theorem mctp_rx_step_refines:
  assumes "mctp_inv m" and "addressed m h" and "length data \<le> 252"
    and "assemble_on ok (abs_mctp m) h data = (A, ds)"
  shows "\<exists>m'. mctp_rx_step ok m (mctp_hdr_bytes h @ data) ext
      = Some (m', case mi_rx_cb m of None \<Rightarrow> [] | Some cb \<Rightarrow> map (\<lambda>d. Rx_cb cb d (rx_ext h ext)) ds)
    \<and> abs_mctp m' = A \<and> mctp_inv m' \<and> same_but_slots m m'"
proof (cases "mi_rx_cb m")
  case None
  let ?m = "m\<lparr>mi_rx_cb := Some 0\<rparr>"
  have "mctp_inv ?m" "addressed ?m h" "mi_rx_cb ?m = Some 0" "abs_mctp ?m = abs_mctp m"
    using assms(1,2) by (simp_all add: mctp_inv_def addressed_def abs_mctp_def)
  from rx_step_refines_ok [OF this(1-3) assms(3)] this(4) assms(4) obtain m' where
    m': "mctp_rx_step ok ?m (mctp_hdr_bytes h @ data) ext = Some (m', map (\<lambda>d. Rx_cb 0 d (rx_ext h ext)) ds)"
    "abs_mctp m' = A" "mctp_inv m'" "same_but_slots ?m m'" by fastforce
  have "mctp_rx_step ok m (mctp_hdr_bytes h @ data) ext = Some (m'\<lparr>mi_rx_cb := None\<rparr>, [])"
    by (rule rx_step_no_cb [OF assms(2,3) None m'(1)])
  moreover have "abs_mctp (m'\<lparr>mi_rx_cb := None\<rparr>) = A" "mctp_inv (m'\<lparr>mi_rx_cb := None\<rparr>)"
    using m'(2,3) by (simp_all add: mctp_inv_def abs_mctp_def)
  ultimately show ?thesis using same_but_slots_cb [OF m'(4) None] None by auto
next
  case (Some cb)
  from rx_step_refines_ok [OF assms(1,2) Some assms(3,4)] show ?thesis by (simp add: Some)
qed

theorem mctp_rx_step_refines_witness:
  "\<exists>m'. mctp_rx_step True demo_mctp (mctp_hdr_bytes (tx_hdr demo_mctp (demo_msg 1 [1, 2]) 0) @ [1, 2]) demo_ext
      = Some (m', [Rx_cb 1 [1, 2] (rx_ext (tx_hdr demo_mctp (demo_msg 1 [1, 2]) 0) demo_ext)])"
proof -
  have "assemble_on True (abs_mctp demo_mctp) (tx_hdr demo_mctp (demo_msg 1 [1, 2]) 0) [1, 2]
     = (abs_mctp demo_mctp, [[1, 2]])"
    using demo_ready(4)
    by (simp add: assemble_on_def assemble_def Let_def fun_upd_idem tx_hdr_def split_pkt_num_def demo_defs)
  from mctp_rx_step_refines [OF demo_ready(1,3) _ this, of demo_ext] demo_ready(2) show ?thesis by auto
qed

text \<open>
  (C5) Safety of the receive loop: whatever a medium delivers (nothing, or between 4 and 256 bytes)
  and whether or not memory can be allocated, the step accesses no buffer out of bounds and every
  assembly slot stays within its 1024-byte buffer.
\<close>

theorem mctp_rx_step_safe:
  assumes "mctp_inv m" and "length rd \<le> 256" and "rd = [] \<or> 4 \<le> length rd"
  shows "\<exists>m' evs. mctp_rx_step ok m rd ext = Some (m', evs) \<and> mctp_inv m'"
  by (rule rx_step_safe [OF assms])

theorem mctp_rx_step_safe_witness:
  "\<exists>m' evs. mctp_rx_step False demo_mctp [1, 10, 8, 0x88, 5] demo_ext = Some (m', evs) \<and> mctp_inv m'"
  using mctp_rx_step_safe [OF demo_ready(1), of "[1, 10, 8, 0x88, 5]"] by simp

text \<open>
  (C40) Without the lower bound on the length the previous property fails: while a message with
  tag 0 and tag-owner bit 0 is being assembled, a frame of 1 to 3 bytes addressed to the
  instance makes the copy size \<^verbatim>\<open>len - sizeof(mctp_hdr)\<close> wrap around.
\<close>

theorem mctp_rx_short_frame_fault:
  assumes "tm_buf (mi_temp_msg_buf m 0 False) = Some b"
    and "3 \<le> unat (tm_offset (mi_temp_msg_buf m 0 False))" and "unat (tm_offset (mi_temp_msg_buf m 0 False)) \<le> 1024"
    and "rd = [v] \<or> rd = [v, 0] \<or> rd = [v, 0, s]"
  shows "mctp_rx_step ok m rd ext = None"
proof -
  have h: "mctp_hdr_of (rd @ zeros n) = mctp_hdr_of rd" for n by simp
  have f: "mh_msg_tag (mctp_hdr_of rd) = 0" "mh_to (mctp_hdr_of rd) = False" "mh_som (mctp_hdr_of rd) = False"
    "mh_dest_ep (mctp_hdr_of rd) = 0"
    using assms(4) by (auto simp: mctp_hdr_of_def nth0_def)
  have len: "unat (of_nat (length rd) :: u16) = length rd" "0 < length rd" "length rd < 4"
    using assms(4) by (auto simp: unat_of_nat_lt)
  have nz: "(of_nat (length rd) :: u16) \<noteq> 0" using len by (metis unsigned_0 less_numeral_extra(3))
  let ?o = "tm_offset (mi_temp_msg_buf m 0 False)"
  have s: "unat (?o + of_nat (length rd)) = unat ?o + length rd"
    using assms(3) len by (subst unat_plus_no_wrap) auto
  then have "unat (?o + of_nat (length rd) - 4) = unat ?o + length rd - 4"
    using assms(2) len Suc_leI [OF len(2)] by (subst unat_sub) (auto simp: word_le_nat_alt simp del: length_greater_0_conv)
  then have "\<not> unat (?o + of_nat (length rd) - 4) > MSG_ASSEMBLY_BUF_SIZE"
    using assms(3) len(3) by simp
  then have "mctp_pkt_assembling ok m (rd @ zeros (256 - length rd)) (of_nat (length rd)) = None"
    unfolding mctp_pkt_assembling_def h Let_def f if_not_P [OF nz] get_slot_def
    using assms(1) len by simp
  then show ?thesis
    unfolding mctp_rx_step_def h Let_def if_not_P [OF nz] using f(4) by simp
qed

lemma abs_mctp_Some:
  assumes "mctp_inv m" and "abs_mctp m (tag, to) = Some acc"
  obtains b where "tm_buf (mi_temp_msg_buf m tag to) = Some b" "unat (tm_offset (mi_temp_msg_buf m tag to)) = length acc"
    "length acc \<le> 1024"
proof -
  have "slot_ok (mi_temp_msg_buf m tag to)" using assms(1) by (simp add: mctp_inv_def)
  then show thesis using assms(2) that by (auto simp: abs_mctp_def abs_slot_def slot_ok_def)
qed

lemma demo_started:
  obtains m' where "mctp_rx_step True demo_mctp (mctp_hdr_bytes demo_som @ [1, 2, 3, 4]) demo_ext = Some (m', [])"
    "mctp_inv m'" "abs_mctp m' (0, False) = Some [1, 2, 3, 4]" "mi_rx_cb m' = Some 1" "mi_endpoint m' = 10"
proof -
  have a: "assemble (abs_mctp demo_mctp) demo_som [1, 2, 3, 4]
     = ((abs_mctp demo_mctp)((0, False) := Some [1, 2, 3, 4]), [])"
    by (simp add: assemble_def Let_def demo_som_def)
  have ep: "mi_endpoint demo_mctp = 10" "addressed demo_mctp demo_som"
    by (simp_all add: addressed_def demo_som_def demo_defs)
  obtain m' where m': "mctp_rx_step True demo_mctp (mctp_hdr_bytes demo_som @ [1, 2, 3, 4]) demo_ext = Some (m', [])"
    "abs_mctp m' = (abs_mctp demo_mctp)((0, False) := Some [1, 2, 3, 4])" "mctp_inv m'"
    "same_but_slots demo_mctp m'"
    using rx_step_refines [OF demo_ready(1) ep(2) demo_ready(2) _ a, of demo_ext] by auto
  show thesis
    by (rule that [OF m'(1,3)])
      (use m'(2) same_but_slots_fields [OF m'(4)] demo_ready(2) ep(1) in simp_all)
qed

theorem mctp_rx_short_frame_fault_witness:
  "\<exists>m'. mctp_rx_step True demo_mctp (mctp_hdr_bytes demo_som @ [1, 2, 3, 4]) demo_ext = Some (m', [])
     \<and> mctp_rx_step True m' [1] demo_ext = None"
proof -
  obtain m' where m': "mctp_rx_step True demo_mctp (mctp_hdr_bytes demo_som @ [1, 2, 3, 4]) demo_ext = Some (m', [])"
    "mctp_inv m'" "abs_mctp m' (0, False) = Some [1, 2, 3, 4]" by (rule demo_started)
  obtain b where "tm_buf (mi_temp_msg_buf m' 0 False) = Some b"
      "unat (tm_offset (mi_temp_msg_buf m' 0 False)) = length [1 :: u8, 2, 3, 4]"
    by (rule abs_mctp_Some [OF m'(2,3)])
  from mctp_rx_short_frame_fault [OF this(1), of "[1]" 1 0 True demo_ext] this(2) m'(1) show ?thesis by simp
qed

text \<open>
  A message that fits one packet and arrives while an unfinished message with the same tag
  is being assembled is not delivered: the callback gets the unfinished data in its place.
\<close>

theorem mctp_single_packet_stale:
  assumes "mctp_inv m" and "addressed m h" and "mi_rx_cb m = Some cb" and "length data \<le> 252"
    and "mh_som h" and "mh_eom h" and "abs_mctp m (mh_msg_tag h, mh_to h) = Some old"
  shows "\<exists>m'. mctp_rx_step True m (mctp_hdr_bytes h @ data) ext = Some (m', [Rx_cb cb old (rx_ext h ext)])"
proof -
  have "assemble (abs_mctp m) h data = ((abs_mctp m)((mh_msg_tag h, mh_to h) := None), [old])"
    using assms(5-7) by (simp add: assemble_def)
  from rx_step_refines [OF assms(1-4) this, of ext] show ?thesis by auto
qed

theorem mctp_single_packet_stale_witness:
  "\<exists>m' m''. mctp_rx_step True demo_mctp (mctp_hdr_bytes demo_som @ [1, 2, 3, 4]) demo_ext = Some (m', [])
     \<and> mctp_rx_step True m' (mctp_hdr_bytes (demo_som\<lparr>mh_eom := True\<rparr>) @ [9, 9]) demo_ext
       = Some (m'', [Rx_cb 1 [1, 2, 3, 4] (rx_ext (demo_som\<lparr>mh_eom := True\<rparr>) demo_ext)])"
proof -
  obtain m' where m': "mctp_rx_step True demo_mctp (mctp_hdr_bytes demo_som @ [1, 2, 3, 4]) demo_ext = Some (m', [])"
    "mctp_inv m'" "abs_mctp m' (0, False) = Some [1, 2, 3, 4]" "mi_rx_cb m' = Some 1" "mi_endpoint m' = 10"
    by (rule demo_started)
  from mctp_single_packet_stale [OF m'(2) _ m'(4), of "demo_som\<lparr>mh_eom := True\<rparr>" "[9, 9]" "[1, 2, 3, 4]" demo_ext] m'
  show ?thesis by (auto simp: addressed_def demo_som_def)
qed

end
