(* ===== verification/Mctp_Transfer.thy ===== *)
theory Mctp_Transfer
  imports Mctp_Assembly
begin

text \<open>
  Splitting and transfer of messages by \<^verbatim>\<open>mctp_tx_task\<close>, and the instances the operations of
  \<^verbatim>\<open>src/common/service/mctp/mctp.c\<close> can reach. The locale \<open>lossless_medium\<close> states what the transport
  relies on a medium's write function for; \<open>Mctp_Smbus\<close> interprets it for the SMBus binding.
\<close>

section \<open>Definitions\<close>

definition msg_ok :: "mctp \<Rightarrow> mctp_tx_msg \<Rightarrow> bytes \<Rightarrow> bool" where
  "msg_ok m msg buf = (tx_buf msg = Some buf \<and> length buf = unat (tx_len msg) \<and> tx_len msg \<noteq> 0
     \<and> \<not> tx_is_bridge_packet msg \<and> 0 < unat (mi_max_msg_size m) \<and> unat (mi_max_msg_size m) \<le> 252
     \<and> length buf \<le> 255 * unat (mi_max_msg_size m))"

abbreviation tx_key :: "mctp \<Rightarrow> mctp_tx_msg \<Rightarrow> 3 word \<times> bool" where
  "tx_key m msg \<equiv> (mh_msg_tag (tx_hdr m msg 0), mh_to (tx_hdr m msg 0))"

definition tx_frags :: "mctp \<Rightarrow> mctp_tx_msg \<Rightarrow> bytes \<Rightarrow> mctp_ext_params \<Rightarrow> packet list" where
  "tx_frags m msg buf e = map (\<lambda>i. (tx_hdr m msg i,
     slice (i * unat (mi_max_msg_size m)) (unat (cp_msg_size m msg i)) buf, e))
     [0..<unat (split_pkt_num m msg)]"

inductive mctp_reach ::
  "('w \<Rightarrow> bytes \<Rightarrow> mctp_ext_params \<Rightarrow> 'w \<times> u16) \<Rightarrow> mctp \<Rightarrow> bool"
  for write_data :: "'w \<Rightarrow> bytes \<Rightarrow> mctp_ext_params \<Rightarrow> 'w \<times> u16" where
  init: "mctp_init eid ok = Some m \<Longrightarrow> mctp_reach write_data m"
| configure: "mctp_reach write_data m \<Longrightarrow>
    mctp_reach write_data (fst (mctp_set_medium_configure i3c dev m ty conf))"
| start: "mctp_reach write_data m \<Longrightarrow> mctp_reach write_data (fst (mctp_start ok rx tx m))"
| stop: "mctp_reach write_data m \<Longrightarrow> mctp_reach write_data (fst (mctp_stop m))"
| reg_rx: "mctp_reach write_data m \<Longrightarrow> mctp_reach write_data (fst (mctp_reg_msg_rx_func m cb))"
| reg_ep: "mctp_reach write_data m \<Longrightarrow> mctp_reach write_data (fst (mctp_reg_endpoint_resolve_func m f))"
| rx: "mctp_reach write_data m \<Longrightarrow> length rd \<le> 256 \<Longrightarrow> mctp_rx_step ok m rd ext = Some (m', evs) \<Longrightarrow>
    mctp_reach write_data m'"
| tx: "mctp_reach write_data m \<Longrightarrow>
    mctp_reach write_data (fst (mctp_pass_tx_task ok write_data m buf len ext bridge w))"

definition lifecycle_ok :: "mctp \<Rightarrow> bool" where
  "lifecycle_ok m =
     (if mi_is_servcie_start m
      then mi_tx_queue m \<noteq> None \<and> mi_rx_task_tid m \<noteq> None \<and> mi_tx_task_tid m \<noteq> None
      else mi_tx_queue m = None \<and> mi_rx_task_tid m = None \<and> mi_tx_task_tid m = None)"

definition mctp_good :: "mctp \<Rightarrow> bool" where
  "mctp_good m = (mctp_inv m \<and> lifecycle_ok m \<and> (\<forall>q. mi_tx_queue m = Some q \<longrightarrow> q = []))"

section \<open>Packets of a message\<close>

lemma ceil_div_facts:
  fixes l mx :: nat
  assumes "0 < l" and "0 < mx" and "l \<le> 255 * mx"
  defines "n \<equiv> l div mx + (if l mod mx \<noteq> 0 then 1 else 0)"
  shows "0 < n" "n \<le> 255" "l \<le> n * mx" "(n - 1) * mx < l"
    "(if l mod mx \<noteq> 0 then l mod mx else mx) = l - (n - 1) * mx"
proof -
  have d: "l = l div mx * mx + l mod mx" by simp
  have r: "l mod mx < mx" using assms by simp
  show "0 < n" using assms(1,2) d by (cases "l div mx = 0") (auto simp: n_def)
  show "l \<le> n * mx"
  proof (cases "l mod mx = 0")
    case True
    then show ?thesis using d by (simp add: n_def)
  next
    case False
    then have "n * mx = l div mx * mx + mx" by (simp add: n_def)
    then show ?thesis using d r by linarith
  qed
  show "(n - 1) * mx < l"
  proof (cases "l mod mx = 0")
    case True
    with assms(1) have "l div mx \<noteq> 0" by (metis d add.right_neutral mult_0 less_numeral_extra(3))
    then obtain q where q: "l div mx = Suc q" by (auto simp: gr0_conv_Suc)
    with True d assms(2) have "l = Suc q * mx" by simp
    with True q assms(2) show ?thesis by (simp add: n_def)
  next
    case False
    then have "(n - 1) * mx = l div mx * mx" by (simp add: n_def)
    then show ?thesis using d False by linarith
  qed
  show "(if l mod mx \<noteq> 0 then l mod mx else mx) = l - (n - 1) * mx"
  proof (cases "l mod mx = 0")
    case True
    with assms(1) have "l div mx \<noteq> 0" by (metis d add.right_neutral mult_0 less_numeral_extra(3))
    then obtain q where q: "l div mx = Suc q" by (auto simp: gr0_conv_Suc)
    with True d have "l = Suc q * mx" by simp
    with True q show ?thesis by (simp add: n_def)
  next
    case False
    then have "(n - 1) * mx = l div mx * mx" by (simp add: n_def)
    then have "l - (n - 1) * mx = l mod mx" using d by linarith
    then show ?thesis using False by simp
  qed
  have "l div mx \<le> 255" using assms(2,3) by (metis div_le_mono nonzero_mult_div_cancel_right less_numeral_extra(3))
  moreover have "l mod mx = 0" if "l div mx = 255"
    using assms(3) d that by simp
  ultimately show "n \<le> 255" by (cases "l div mx = 255") (auto simp: n_def)
qed

lemma tx_sizes:
  assumes "msg_ok m msg buf"
  defines "n \<equiv> unat (split_pkt_num m msg)" and "mx \<equiv> unat (mi_max_msg_size m)"
  shows "0 < n" "n \<le> 255" "length buf \<le> n * mx" "(n - 1) * mx < length buf"
    "i < n \<Longrightarrow> unat (cp_msg_size m msg i) = (if i + 1 = n then length buf - i * mx else mx)"
proof -
  let ?l = "unat (tx_len msg)"
  have l: "0 < ?l" "length buf = ?l" "0 < mx" "mx \<le> 252" "?l \<le> 255 * mx"
    using assms by (auto simp: msg_ok_def unat_gt_0)
  note c = ceil_div_facts [OF l(1,3,5)]
  have md: "unat (tx_len msg mod mi_max_msg_size m) = ?l mod mx"
    and dv: "unat (tx_len msg div mi_max_msg_size m) = ?l div mx"
    by (simp_all add: mx_def unat_mod unat_div)
  have z: "(tx_len msg mod mi_max_msg_size m \<noteq> 0) = (?l mod mx \<noteq> 0)"
    using md by (metis unat_eq_0)
  have s: "unat (tx_len msg div mi_max_msg_size m + (if tx_len msg mod mi_max_msg_size m \<noteq> 0 then 1 else 0))
      = ?l div mx + (if ?l mod mx \<noteq> 0 then 1 else 0)"
    unfolding z using dv c(2) by (subst unat_plus_no_wrap) auto
  have n: "n = ?l div mx + (if ?l mod mx \<noteq> 0 then 1 else 0)"
    unfolding n_def split_pkt_num_def using s c(2)
    by (simp add: unsigned_ucast_eq take_bit_nat_eq_self)
  show "0 < n" "n \<le> 255" "length buf \<le> n * mx" "(n - 1) * mx < length buf"
    using c n l by simp_all
  have r: "unat (ucast (tx_len msg mod mi_max_msg_size m) :: u8) = ?l mod mx"
  proof -
    have "?l mod mx < 256" using mod_less_divisor [OF l(3), of ?l] l(4) by linarith
    then show ?thesis using md by (simp add: unsigned_ucast_eq take_bit_nat_eq_self)
  qed
  have x: "unat (ucast (mi_max_msg_size m) :: u8) = mx"
    using l(4) by (simp add: mx_def unsigned_ucast_eq take_bit_nat_eq_self)
  have r0: "((ucast (tx_len msg mod mi_max_msg_size m) :: u8) \<noteq> 0) = (?l mod mx \<noteq> 0)"
    using r by (metis unat_eq_0)
  show "unat (cp_msg_size m msg i) = (if i + 1 = n then length buf - i * mx else mx)" if "i < n"
    unfolding cp_msg_size_def n_def [symmetric] Let_def r0
  proof (cases "i + 1 = n")
    case True
    then have "i = n - 1" by simp
    then have "(if ?l mod mx \<noteq> 0 then ?l mod mx else mx) = length buf - i * mx"
      using c(5) l(2) unfolding n by simp
    then show "unat (if i + 1 = n then if ?l mod mx \<noteq> 0 then ucast (tx_len msg mod mi_max_msg_size m)
        else ucast (mi_max_msg_size m) else ucast (mi_max_msg_size m) :: u8)
      = (if i + 1 = n then length buf - i * mx else mx)"
      using x r True by (auto split: if_splits)
  qed (use x in simp)
qed

lemma tx_chunk_le:
  assumes "msg_ok m msg buf" and "i < unat (split_pkt_num m msg)"
  shows "length (slice (i * unat (mi_max_msg_size m)) (unat (cp_msg_size m msg i)) buf)
    \<le> unat (mi_max_msg_size m)"
proof -
  note s = tx_sizes [OF assms(1)]
  have "length buf - i * unat (mi_max_msg_size m) \<le> unat (mi_max_msg_size m)"
    if "i + 1 = unat (split_pkt_num m msg)"
    using s(3) unfolding that [symmetric] by (simp add: le_diff_conv)
  then show ?thesis using s(5) [OF assms(2)] by auto
qed

lemma tx_frags_bytes:
  "map pkt_bytes (tx_frags m msg buf e)
   = map (\<lambda>i. (tx_packet m msg buf i, e)) [0..<unat (split_pkt_num m msg)]"
  by (simp add: tx_frags_def tx_packet_def)

lemma tx_frags_key: "p \<in> set (tx_frags m msg buf e) \<Longrightarrow> pkt_key p = tx_key m msg"
  by (auto simp: tx_frags_def tx_hdr_def Let_def)

lemma assemble_run_append:
  "assemble_run A (ps @ qs) = (case assemble_run A ps of (A1, o1) \<Rightarrow>
     (case assemble_run A1 qs of (A2, o2) \<Rightarrow> (A2, o1 @ o2)))"
  by (induction A ps rule: assemble_run.induct) (auto split: prod.splits)

lemma tx_frags_prefix:
  assumes ok: "msg_ok m msg buf" and short: "length buf \<le> 1024"
    and i: "i < unat (split_pkt_num m msg)"
  defines "k \<equiv> tx_key m msg"
  shows "assemble_run A (map (\<lambda>i. (tx_hdr m msg i,
     slice (i * unat (mi_max_msg_size m)) (unat (cp_msg_size m msg i)) buf, e)) [0..<i])
    = (if i = 0 then A else A(k := Some (take (i * unat (mi_max_msg_size m)) buf)), [])"
  using i
proof (induction i)
  case 0
  then show ?case by simp
next
  case (Suc i)
  let ?mx = "unat (mi_max_msg_size m)" and ?n = "unat (split_pkt_num m msg)"
  have sz: "unat (cp_msg_size m msg i) = ?mx"
    using tx_sizes(5) [OF ok, of i] Suc.prems by simp
  have tk: "take (i * ?mx) buf @ slice (i * ?mx) ?mx buf = take (Suc i * ?mx) buf"
    using take_add [of "i * ?mx" ?mx buf] by (simp add: slice_def add.commute [of _ ?mx])
  have key: "(mh_msg_tag (tx_hdr m msg i), mh_to (tx_hdr m msg i)) = k"
    by (simp add: k_def tx_hdr_def Let_def)
  have flags: "mh_som (tx_hdr m msg i) = (i = 0)" "mh_eom (tx_hdr m msg i) = False"
    using Suc.prems by (simp_all add: tx_hdr_def Let_def)
  have fit: "length (take (Suc i * ?mx) buf) \<le> 1024" using short by simp
  have "assemble (if i = 0 then A else A(k := Some (take (i * ?mx) buf))) (tx_hdr m msg i)
      (slice (i * ?mx) ?mx buf) = (A(k := Some (take (Suc i * ?mx) buf)), [])"
    using fit unfolding assemble_def key Let_def tk [symmetric] flags
    by (cases "i = 0") (auto simp del: length_take length_slice)
  then show ?case
    using Suc sz by (simp add: assemble_run_append fun_eq_iff)
qed

lemma tx_frags_assemble:
  assumes ok: "msg_ok m msg buf" and short': "length buf \<le> 1024"
  defines "k \<equiv> tx_key m msg"
  defines "n \<equiv> unat (split_pkt_num m msg)"
  assumes empty: "A k = None"
  shows "assemble_run A (tx_frags m msg buf e) = (A, [(tx_hdr m msg (n - 1), buf, e)])"
proof -
  let ?mx = "unat (mi_max_msg_size m)"
  note s = tx_sizes [OF ok, folded n_def]
  let ?f = "\<lambda>i. (tx_hdr m msg i, slice (i * ?mx) (unat (cp_msg_size m msg i)) buf, e)"
  have fr: "tx_frags m msg buf e = map ?f [0..<n - 1] @ [?f (n - 1)]"
    using s(1) unfolding tx_frags_def n_def [symmetric] by (cases n) simp_all
  have pre: "assemble_run A (map ?f [0..<n - 1])
      = (if n = 1 then A else A(k := Some (take ((n - 1) * ?mx) buf)), [])"
    using tx_frags_prefix [OF ok short', of "n - 1" A] s(1) by (simp add: n_def k_def)
  have sz: "unat (cp_msg_size m msg (n - 1)) = length buf - (n - 1) * ?mx"
    using s(5) [of "n - 1"] s(1) by simp
  have sl: "slice ((n - 1) * ?mx) (length buf - (n - 1) * ?mx) buf = drop ((n - 1) * ?mx) buf"
    by (simp add: slice_def)
  have key: "(mh_msg_tag (tx_hdr m msg (n - 1)), mh_to (tx_hdr m msg (n - 1))) = k"
    by (simp add: k_def tx_hdr_def Let_def)
  have flags: "mh_som (tx_hdr m msg (n - 1)) = (n = 1)" "mh_eom (tx_hdr m msg (n - 1)) = True"
    using s(1) by (auto simp: tx_hdr_def Let_def n_def)
  have last: "assemble (if n = 1 then A else A(k := Some (take ((n - 1) * ?mx) buf))) (tx_hdr m msg (n - 1))
      (drop ((n - 1) * ?mx) buf) = (A, [buf])"
    using short' empty s(4) unfolding assemble_def key Let_def flags
    by (cases "n = 1") (auto simp: fun_upd_idem)
  show ?thesis unfolding fr assemble_run_append pre
    using last sz sl by simp
qed

lemma rx_ext_tx_hdr: "rx_ext (tx_hdr m msg i) e = rx_ext (tx_hdr m msg 0) e"
  by (simp add: rx_ext_def tx_hdr_def Let_def)

lemma addressed_tx_hdr: "addressed r (tx_hdr m msg i) = addressed r (tx_hdr m msg 0)"
  by (simp add: addressed_def tx_hdr_def Let_def)

lemma tx_frags_ok:
  assumes "msg_ok m msg buf" and "addressed r (tx_hdr m msg 0)"
  shows "\<forall>p \<in> set (tx_frags m msg buf e). addressed r (fst p) \<and> length (fst (snd p)) \<le> 252"
proof -
  have "unat (mi_max_msg_size m) \<le> 252" using assms(1) by (simp add: msg_ok_def)
  then show ?thesis
    using assms addressed_tx_hdr tx_chunk_le [OF assms(1)]
    by (fastforce simp: tx_frags_def simp del: length_slice)
qed

lemma rx_run_frags:
  assumes "msg_ok m msg buf" and "length buf \<le> 1024"
    and "mctp_inv r" and "mi_rx_cb r = Some cb" and "addressed r (tx_hdr m msg 0)"
    and "abs_mctp r (tx_key m msg) = None"
  shows "\<exists>r'. mctp_rx_run r (map (\<lambda>i. (tx_packet m msg buf i, e)) [0..<unat (split_pkt_num m msg)])
      = Some (r', [Rx_cb cb buf (rx_ext (tx_hdr m msg 0) e)])
    \<and> abs_mctp r' = abs_mctp r \<and> mctp_inv r' \<and> same_but_slots r r'"
  using rx_run_refines [OF assms(3,4) tx_frags_ok [OF assms(1,5)]
      tx_frags_assemble [of m msg buf "abs_mctp r" e, OF assms(1,2,6)]]
  by (simp add: tx_frags_bytes rx_ext_tx_hdr [of m msg "_ - 1"] del: One_nat_def)

lemma assemble_run_two:
  assumes run: "assemble_run A ps = (A', out)" and ps: "ps \<in> shuffles xs ys"
    and k: "k \<noteq> k'" "\<forall>p \<in> set xs. pkt_key p = k" "\<forall>p \<in> set ys. pkt_key p = k'"
    and x: "assemble_run A xs = (A, [a])" and y: "assemble_run A ys = (A, [b])"
  shows "A' = A \<and> (out = [a, b] \<or> out = [b, a])"
proof -
  have fx: "filter (\<lambda>p. pkt_key p = k) ps = xs"
    by (rule filter_key_shuffle [OF ps]) (use k in auto)
  have fy: "filter (\<lambda>p. pkt_key p = k') ps = ys"
    by (rule filter_key_shuffle [of ps ys xs]) (use k ps shuffles_commutes [of xs ys] in auto)
  have 1: "filter (\<lambda>p. pkt_key p = k) out = [a] \<and> A' k = A k"
    using assemble_run_project [of A k A ps A' out A "[a]"] run fx x by simp
  have 2: "filter (\<lambda>p. pkt_key p = k') out = [b] \<and> A' k' = A k'"
    using assemble_run_project [of A k' A ps A' out A "[b]"] run fy y by simp
  have keys: "pkt_key ` set ps \<subseteq> {k, k'}" using k(2,3) set_shuffles [OF ps] by auto
  then have "pkt_key ` set out \<subseteq> {k, k'}" using assemble_run_keys [OF run] by blast
  then have "\<forall>p \<in> set out. (\<not> pkt_key p = k) = (pkt_key p = k')" using k(1) by blast
  then have "filter (\<lambda>p. \<not> pkt_key p = k) out = filter (\<lambda>p. pkt_key p = k') out"
    by (intro filter_cong) auto
  with 1 2 have "out = [a, b] \<or> out = [b, a]" by (intro two_filters [of "\<lambda>p. pkt_key p = k"]) auto
  moreover have "A' j = A j" for j
  proof (cases "j = k \<or> j = k'")
    case False
    then have "j \<notin> set (map pkt_key ps)" using keys by auto
    then show ?thesis using assemble_run_outside [OF run] by blast
  qed (use 1 2 in auto)
  ultimately show ?thesis by auto
qed

section \<open>The medium interface\<close>

locale lossless_medium =
  fixes wr :: "'w \<Rightarrow> bytes \<Rightarrow> mctp_ext_params \<Rightarrow> 'w \<times> u16"
    and received :: "'w \<Rightarrow> bytes list"
    and usable :: "'w \<Rightarrow> mctp_ext_params \<Rightarrow> bool"
    and mtu :: nat
  assumes wr_result: "usable w e \<Longrightarrow> 4 \<le> length p \<Longrightarrow> length p \<le> mtu \<Longrightarrow> snd (wr w p e) = 0"
    and wr_received: "usable w e \<Longrightarrow> 4 \<le> length p \<Longrightarrow> length p \<le> mtu \<Longrightarrow>
      received (fst (wr w p e)) = received w @ [p]"
    and wr_usable: "usable w e \<Longrightarrow> 4 \<le> length p \<Longrightarrow> length p \<le> mtu \<Longrightarrow> usable (fst (wr w p e)) e"
begin

lemma tx_loop_delivers:
  assumes "usable w (tx_ext_params msg)" and "i \<le> unat (split_pkt_num m msg)"
    and "\<forall>j < unat (split_pkt_num m msg). length (tx_packet m msg buf j) \<le> mtu"
  shows "\<exists>w'. tx_loop wr m msg buf i w = (w', unat (split_pkt_num m msg))
     \<and> received w' = received w @ map (tx_packet m msg buf) [i..<unat (split_pkt_num m msg)]
     \<and> usable w' (tx_ext_params msg)"
  using assms
proof (induction "unat (split_pkt_num m msg) - i" arbitrary: i w)
  case 0
  then show ?case by (subst tx_loop.simps) simp
next
  case (Suc k)
  let ?n = "unat (split_pkt_num m msg)" and ?p = "tx_packet m msg buf i"
  have i: "i < ?n" using Suc by simp
  have p: "4 \<le> length ?p" "length ?p \<le> mtu" using Suc.prems(3) i by (auto simp: tx_packet_def)
  let ?w = "fst (wr w ?p (tx_ext_params msg))"
  note law = wr_result [OF Suc.prems(1) p] wr_received [OF Suc.prems(1) p] wr_usable [OF Suc.prems(1) p]
  have step: "tx_loop wr m msg buf i w = tx_loop wr m msg buf (i + 1) ?w"
    using i law(1) by (subst tx_loop.simps) (auto split: prod.split)
  have "k = ?n - (i + 1)" "i + 1 \<le> ?n" using Suc i by auto
  from Suc.hyps(1) [OF this(1) law(3) this(2) Suc.prems(3)] show ?case
    unfolding step law(2) using i by (simp add: upt_conv_Cons)
qed

lemma tx_step_delivers:
  assumes ok: "msg_ok m msg buf" and "usable w (tx_ext_params msg)"
    and mtu: "unat (mi_max_msg_size m) + 4 \<le> mtu"
  shows "\<exists>m' w'. mctp_tx_step wr m msg w = (m', w', MCTP_SUCCESS)
     \<and> received w' = received w @ map (tx_packet m msg buf) [0..<unat (split_pkt_num m msg)]
     \<and> m' = m\<lparr>mi_msg_tag := mi_msg_tag m + (if xp_tag_owner (tx_ext_params msg) \<noteq> 0 then 1 else 0)\<rparr>"
proof -
  have "\<forall>j < unat (split_pkt_num m msg). length (tx_packet m msg buf j) \<le> mtu"
    using tx_chunk_le [OF ok] mtu by (fastforce simp: tx_packet_def simp del: length_slice)
  from tx_loop_delivers [OF assms(2) _ this, of 0] ok show ?thesis
    by (auto simp: mctp_tx_step_def msg_ok_def)
qed

lemma tx_step_rx_run:
  assumes ok: "msg_ok m msg buf" and "usable w (tx_ext_params msg)" and "received w = []"
    and "unat (mi_max_msg_size m) + 4 \<le> mtu" and short: "length buf \<le> 1024"
    and r: "mctp_inv r" "mi_rx_cb r = Some cb" "addressed r (tx_hdr m msg 0)"
      "abs_mctp r (tx_key m msg) = None"
  shows "\<exists>m' w' r'. mctp_tx_step wr m msg w = (m', w', MCTP_SUCCESS)
     \<and> mctp_rx_run r (map (\<lambda>p. (p, e)) (received w'))
       = Some (r', [Rx_cb cb buf (rx_ext (tx_hdr m msg 0) e)])"
proof -
  from tx_step_delivers [OF ok assms(2,4)] obtain m' w' where
    1: "mctp_tx_step wr m msg w = (m', w', MCTP_SUCCESS)"
      "received w' = map (tx_packet m msg buf) [0..<unat (split_pkt_num m msg)]"
    using assms(3) by auto
  from rx_run_frags [OF ok short r] 1 show ?thesis by (auto simp: comp_def)
qed

end

section \<open>Properties of a transfer\<close>

text \<open>
  (C1) A message of at most 1024 bytes that one instance splits into packets is delivered by a
  receiving instance as one callback with exactly the message's bytes.
\<close>

theorem mctp_fragment_roundtrip:
  assumes "msg_ok m msg buf" and "length buf \<le> 1024"
    and "mctp_inv r" and "mi_rx_cb r = Some cb" and "addressed r (tx_hdr m msg 0)"
    and "abs_mctp r (tx_key m msg) = None"
  shows "\<exists>r'. mctp_rx_run r (map (\<lambda>i. (tx_packet m msg buf i, e)) [0..<unat (split_pkt_num m msg)])
      = Some (r', [Rx_cb cb buf (rx_ext (tx_hdr m msg 0) e)])
    \<and> abs_mctp r' = abs_mctp r \<and> mctp_inv r' \<and> same_but_slots r r'"
  by (rule rx_run_frags [OF assms])

lemma demo_msg_ok: "msg_ok demo_mctp (demo_msg owner (replicate 150 7)) (replicate 150 7)"
  by (simp add: msg_ok_def demo_defs)

theorem mctp_fragment_roundtrip_witness:
  "\<exists>r'. mctp_rx_run demo_mctp (map (\<lambda>i. (tx_packet demo_mctp (demo_msg 1 (replicate 150 7)) (replicate 150 7) i,
      demo_ext)) [0..<unat (split_pkt_num demo_mctp (demo_msg 1 (replicate 150 7)))])
      = Some (r', [Rx_cb 1 (replicate 150 7)
          (rx_ext (tx_hdr demo_mctp (demo_msg 1 (replicate 150 7)) 0) demo_ext)])"
  using mctp_fragment_roundtrip [OF demo_msg_ok _ demo_ready, of 1 demo_ext] by auto

text \<open>
  (C3) Two messages whose packets carry different tags or tag-owner bits are both delivered
  intact whatever the order in which their packets interleave on the medium.
\<close>

theorem mctp_interleaved_messages:
  assumes "msg_ok m msg buf" and "length buf \<le> 1024" and "addressed r (tx_hdr m msg 0)"
    and "msg_ok m' msg' buf'" and "length buf' \<le> 1024" and "addressed r (tx_hdr m' msg' 0)"
    and "tx_key m msg \<noteq> tx_key m' msg'"
    and "mctp_inv r" and "mi_rx_cb r = Some cb" and "\<forall>k. abs_mctp r k = None"
    and "ps \<in> shuffles
      (map (\<lambda>i. (tx_packet m msg buf i, e)) [0..<unat (split_pkt_num m msg)])
      (map (\<lambda>i. (tx_packet m' msg' buf' i, e')) [0..<unat (split_pkt_num m' msg')])"
  shows "\<exists>r' evs. mctp_rx_run r ps = Some (r', evs) \<and> (\<forall>k. abs_mctp r' k = None)
    \<and> set evs = {Rx_cb cb buf (rx_ext (tx_hdr m msg 0) e), Rx_cb cb buf' (rx_ext (tx_hdr m' msg' 0) e')}
    \<and> length evs = 2"
proof -
  obtain qs where qs: "qs \<in> shuffles (tx_frags m msg buf e) (tx_frags m' msg' buf' e')"
    "ps = map pkt_bytes qs"
    using assms(11) shuffles_map [of ps pkt_bytes "tx_frags m msg buf e" "tx_frags m' msg' buf' e'"]
    unfolding tx_frags_bytes by blast
  obtain A out where run: "assemble_run (abs_mctp r) qs = (A, out)" by force
  have k: "\<forall>p \<in> set (tx_frags m msg buf e). pkt_key p = tx_key m msg"
    "\<forall>p \<in> set (tx_frags m' msg' buf' e'). pkt_key p = tx_key m' msg'"
    using tx_frags_key by blast+
  have none: "abs_mctp r (tx_key m msg) = None" "abs_mctp r (tx_key m' msg') = None"
    using assms(10) by blast+
  from assemble_run_two [OF run qs(1) assms(7) k
      tx_frags_assemble [of m msg buf "abs_mctp r" e, OF assms(1,2) none(1)]
      tx_frags_assemble [of m' msg' buf' "abs_mctp r" e', OF assms(4,5) none(2)]]
  have out: "A = abs_mctp r" "set (map (deliver cb) out) = {Rx_cb cb buf (rx_ext (tx_hdr m msg 0) e),
      Rx_cb cb buf' (rx_ext (tx_hdr m' msg' 0) e')}" "length out = 2"
    by (auto simp: rx_ext_tx_hdr [of _ _ "_ - 1"] simp del: One_nat_def)
  have "\<forall>p \<in> set qs. addressed r (fst p) \<and> length (fst (snd p)) \<le> 252"
    using set_shuffles [OF qs(1)] tx_frags_ok [OF assms(1,3)] tx_frags_ok [OF assms(4,6)] by blast
  from rx_run_refines [OF assms(8,9) this run] obtain r' where
    r': "mctp_rx_run r ps = Some (r', map (deliver cb) out)" "abs_mctp r' = A"
    unfolding qs(2) by blast
  have "\<forall>k. abs_mctp r' k = None" using r'(2) out(1) assms(10) by simp
  with r'(1) out(2,3) show ?thesis by (intro exI conjI) (assumption | simp)+
qed

theorem mctp_interleaved_messages_witness:
  "\<exists>r' evs. mctp_rx_run demo_mctp (splice
      (map (\<lambda>i. (tx_packet demo_mctp (demo_msg 1 (replicate 150 7)) (replicate 150 7) i, demo_ext))
         [0..<unat (split_pkt_num demo_mctp (demo_msg 1 (replicate 150 7)))])
      (map (\<lambda>i. (tx_packet demo_mctp (demo_msg 0 (replicate 150 7)) (replicate 150 7) i, demo_ext))
         [0..<unat (split_pkt_num demo_mctp (demo_msg 0 (replicate 150 7)))])) = Some (r', evs)
    \<and> length evs = 2"
proof -
  have "tx_key demo_mctp (demo_msg 1 (replicate 150 7)) \<noteq> tx_key demo_mctp (demo_msg 0 (replicate 150 7))"
    by (simp add: tx_hdr_def demo_defs Let_def)
  from mctp_interleaved_messages [OF demo_msg_ok _ demo_ready(3) demo_msg_ok _ demo_ready(3) this
      demo_ready(1,2) _ splice_in_shuffles, of demo_ext demo_ext]
  show ?thesis using demo_ready(4) by auto
qed

text \<open>
  The packet count is kept in a byte: a message of 256 full packets is reported as sent
  although nothing is written to the medium.
\<close>

theorem mctp_tx_packet_count_wraps:
  assumes "tx_buf msg = Some buf" and "\<not> tx_is_bridge_packet msg"
    and "0 < unat (mi_max_msg_size m)" and "unat (tx_len msg) = 256 * unat (mi_max_msg_size m)"
  shows "\<exists>m'. mctp_tx_step write_data m msg w = (m', w, MCTP_SUCCESS)"
proof -
  have md: "unat (tx_len msg mod mi_max_msg_size m) = 0" and dv: "unat (tx_len msg div mi_max_msg_size m) = 256"
    using assms(3,4) by (simp_all add: unat_mod unat_div)
  have "tx_len msg mod mi_max_msg_size m = 0" using md by (simp add: unat_eq_0)
  moreover have "(ucast (tx_len msg div mi_max_msg_size m) :: u8) = 0"
    using dv by (simp flip: unat_eq_0 add: unsigned_ucast_eq take_bit_eq_mod)
  ultimately have n: "split_pkt_num m msg = 0" by (simp add: split_pkt_num_def)
  have "tx_len msg \<noteq> 0" using assms(3,4) by auto
  moreover have "tx_loop write_data m msg buf 0 w = (w, 0)" by (subst tx_loop.simps) (simp add: n)
  ultimately show ?thesis using assms(1,2) n by (simp add: mctp_tx_step_def)
qed

theorem mctp_tx_packet_count_wraps_witness:
  "\<exists>m'. mctp_tx_step (\<lambda>w p e. (p # w, 0)) demo_mctp (demo_msg 1 (replicate 16384 7)) []
     = (m', [], MCTP_SUCCESS)"
  by (rule mctp_tx_packet_count_wraps [of _ "replicate 16384 7"])
    (simp_all add: demo_defs)

text \<open>
  (C24) The packets of a message: the first alone has SOM, the last alone has EOM, the sequence
  number counts modulo 4, tag, tag owner and endpoints are the same in all of them, no payload is
  larger than the configured size, and the payloads in order are the message.
\<close>

theorem mctp_tx_packets:
  assumes "msg_ok m msg buf"
  defines "n \<equiv> unat (split_pkt_num m msg)"
  shows "concat (map (\<lambda>i. drop 4 (tx_packet m msg buf i)) [0..<n]) = buf
    \<and> (\<forall>i<n. length (tx_packet m msg buf i) \<le> unat (mi_max_msg_size m) + 4
      \<and> mctp_hdr_of (tx_packet m msg buf i) = (tx_hdr m msg 0)\<lparr>mh_pkt_seq := of_nat i,
          mh_som := (i = 0), mh_eom := (i + 1 = n)\<rparr>)"
proof -
  let ?mx = "unat (mi_max_msg_size m)"
  note s = tx_sizes [OF assms(1), folded n_def]
  have "concat (map (\<lambda>i. drop 4 (tx_packet m msg buf i)) [0..<i]) = take (i * ?mx) buf" if "i \<le> n" for i
    using that
  proof (induction i)
    case (Suc i)
    have "slice (i * ?mx) (unat (cp_msg_size m msg i)) buf = slice (i * ?mx) ?mx buf"
      using s(5) [of i] s(3) Suc.prems by (auto simp: slice_def)
    then show ?case
      using Suc take_add [of "i * ?mx" ?mx buf] by (simp add: tx_packet_def slice_def add.commute [of _ ?mx])
  qed simp
  from this [of n] s(3) have "concat (map (\<lambda>i. drop 4 (tx_packet m msg buf i)) [0..<n]) = buf" by simp
  moreover have "\<forall>i<n. length (tx_packet m msg buf i) \<le> ?mx + 4
      \<and> mctp_hdr_of (tx_packet m msg buf i) = (tx_hdr m msg 0)\<lparr>mh_pkt_seq := of_nat i,
          mh_som := (i = 0), mh_eom := (i + 1 = n)\<rparr>"
    using tx_chunk_le [OF assms(1)]
    by (auto simp: n_def tx_packet_def tx_hdr_def Let_def simp del: length_slice)
  ultimately show ?thesis by blast
qed

theorem mctp_tx_packets_witness:
  "concat (map (\<lambda>i. drop 4 (tx_packet demo_mctp (demo_msg 1 (replicate 150 7)) (replicate 150 7) i))
     [0..<unat (split_pkt_num demo_mctp (demo_msg 1 (replicate 150 7)))]) = replicate 150 7"
  using mctp_tx_packets [OF demo_msg_ok] by blast

section \<open>Reachable instances\<close>

lemma short_frame_step:
  assumes "mctp_inv m" and "rd \<noteq> []" and "length rd < 4" and "mctp_rx_step ok m rd ext = Some (m', evs)"
  shows "same_but_slots m m' \<and> mctp_inv m'"
proof -
  let ?h = "mctp_hdr_of rd" and ?l = "of_nat (length rd) :: u16"
  have h: "mctp_hdr_of (rd @ zeros n) = ?h" for n by simp
  note f = mctp_hdr_of_short [OF assms(3)]
  have len: "unat ?l = length rd" using assms(3) by (simp add: unat_of_nat_lt)
  then have nz: "?l \<noteq> 0" using assms(2) by (metis length_0_conv unsigned_0)
  have "mctp_pkt_assembling ok m (rd @ zeros (256 - length rd)) ?l \<in> {None, Some (m, MCTP_ERROR)}"
    using f len nz assms(3)
    by (auto simp: mctp_pkt_assembling_def h Let_def set_slot_self split: option.split)
  then show ?thesis
    using assms(1,4) nz
    by (auto simp: mctp_rx_step_def h Let_def split: option.splits if_splits prod.splits intro: inv_intros)
qed

lemma assembling_same:
  "mctp_pkt_assembling ok m buf len = Some (m', r) \<Longrightarrow> same_but_slots m m'"
  by (auto simp: mctp_pkt_assembling_def Let_def split: if_splits option.splits)

lemma rx_step_same:
  "mctp_rx_step ok m rd ext = Some (m', evs) \<Longrightarrow> same_but_slots m m'"
  by (auto simp: mctp_rx_step_def Let_def split: if_splits option.splits prod.splits
      dest!: assembling_same intro: same_but_slots_trans)

lemma rx_step_inv:
  assumes "mctp_inv m" and "length rd \<le> 256" and "mctp_rx_step ok m rd ext = Some (m', evs)"
  shows "mctp_inv m'"
proof (cases "rd = [] \<or> 4 \<le> length rd")
  case True
  with rx_step_safe [OF assms(1,2), of ok ext] assms(3) show ?thesis by auto
next
  case False
  with short_frame_step [OF assms(1) _ _ assms(3)] show ?thesis by auto
qed

lemma same_but_slots_life:
  assumes "same_but_slots m m'"
  shows "mi_is_servcie_start m' = mi_is_servcie_start m" "mi_tx_queue m' = mi_tx_queue m"
    "mi_rx_task_tid m' = mi_rx_task_tid m" "mi_tx_task_tid m' = mi_tx_task_tid m"
  using assms by (cases m; cases m'; simp add: same_but_slots_def)+

lemma same_but_slots_good:
  "same_but_slots m m' \<Longrightarrow> mctp_good m \<Longrightarrow> mctp_inv m' \<Longrightarrow> mctp_good m'"
  by (simp add: mctp_good_def lifecycle_ok_def same_but_slots_life)

lemma tx_step_tag: "fst (mctp_tx_step wr m msg w) = m \<or> fst (mctp_tx_step wr m msg w) = m\<lparr>mi_msg_tag := mi_msg_tag m + 1\<rparr>"
  by (auto simp: mctp_tx_step_def split: option.split prod.split)

lemma tx_step_good: "mctp_good m \<Longrightarrow> mctp_good (fst (mctp_tx_step wr m msg w))"
  using tx_step_tag [of wr m msg w] by (auto simp: mctp_good_def mctp_inv_def lifecycle_ok_def)

lemma tx_drain_good: "mctp_good m \<Longrightarrow> mctp_good (fst (tx_drain wr m msgs w))"
proof (induction wr m msgs w rule: tx_drain.induct)
  case (2 wr m msg msgs w)
  then show ?case using tx_step_good [of m wr msg w] by (auto split: prod.split)
qed simp

lemma queue_reset_good: "mctp_good m \<Longrightarrow> mi_is_servcie_start m \<Longrightarrow> mctp_good (m\<lparr>mi_tx_queue := Some []\<rparr>)"
  by (simp add: mctp_good_def lifecycle_ok_def mctp_inv_def)

lemma tx_drain_started: "mi_is_servcie_start (fst (tx_drain wr m msgs w)) = mi_is_servcie_start m"
proof (induction wr m msgs w rule: tx_drain.induct)
  case (2 wr m msg msgs w)
  then show ?case using tx_step_tag [of wr m msg w] by (auto split: prod.split)
qed simp

lemma pass_tx_good:
  assumes "mctp_good m"
  shows "mctp_good (fst (mctp_pass_tx_task ok wr m buf len ext bridge w))"
proof -
  have "mctp_good ((fst (tx_drain wr m msgs w))\<lparr>mi_tx_queue := Some []\<rparr>)" if "mi_is_servcie_start m" for msgs
    using that by (intro queue_reset_good tx_drain_good assms) (simp add: tx_drain_started)
  then show ?thesis
    using assms unfolding mctp_pass_tx_task_def Let_def
    by (auto simp: case_prod_beta split: option.split)
qed

lemmas life_defs = mctp_start_def mctp_stop_def set_thread_name_def mctp_set_medium_configure_def
  mctp_medium_init_def mctp_medium_deinit_def mctp_smbus_init_def mctp_smbus_deinit_def
  mctp_i3c_controller_init_def mctp_i3c_target_init_def mctp_i3c_deinit_def mctp_usb_init_def
  mctp_usb_deinit_def mctp_reg_msg_rx_func_def mctp_reg_endpoint_resolve_func_def

lemma start_good: "mctp_good m \<Longrightarrow> mctp_good (fst (mctp_start ok rx tx m))"
  by (auto simp: life_defs Let_def mctp_good_def lifecycle_ok_def mctp_inv_def)

lemma configure_good: "mctp_good m \<Longrightarrow> mctp_good (fst (mctp_set_medium_configure i3c dev m ty conf))"
  by (cases ty) (auto simp: life_defs Let_def mctp_good_def lifecycle_ok_def mctp_inv_def)

lemma stop_good: "mctp_good m \<Longrightarrow> mctp_good (fst (mctp_stop m))"
  by (simp add: life_defs mctp_good_def lifecycle_ok_def mctp_inv_def)

lemma reg_good: "mctp_good m \<Longrightarrow> mctp_good (fst (mctp_reg_msg_rx_func m cb))"
  "mctp_good m \<Longrightarrow> mctp_good (fst (mctp_reg_endpoint_resolve_func m f))"
  by (simp_all add: life_defs mctp_good_def lifecycle_ok_def mctp_inv_def)

text \<open>
  (C22) In every instance that the operations of the transport can produce, in any order, the
  assembly slots stay within their buffers, and the service is marked as started exactly while
  the transmit queue and both threads exist.
\<close>

theorem mctp_reach_good:
  assumes "mctp_reach write_data m"
  shows "mctp_good m"
  using assms
proof (induction rule: mctp_reach.induct)
  case (init eid ok m)
  then show ?case
    by (auto simp: mctp_init_def mctp_good_def lifecycle_ok_def mctp_inv_def slot_ok_def split: if_splits)
next
  case (rx m rd ok ext m' evs)
  then show ?case
    using same_but_slots_good rx_step_same rx_step_inv by (metis mctp_good_def)
qed (auto intro: configure_good start_good stop_good reg_good pass_tx_good)

theorem mctp_reach_good_witness:
  "mctp_good (fst (mctp_start True (Some 1) (Some 2)
     (fst (mctp_set_medium_configure True True (the (mctp_init 10 True)) MCTP_MEDIUM_TYPE_SMBUS
        \<lparr>mc_bus = 3, mc_addr = 0x40\<rparr>))))"
proof -
  have "mctp_init 10 True = Some (the (mctp_init 10 True))" by (simp add: mctp_init_def)
  then show ?thesis
    by (intro mctp_reach_good [of "\<lambda>w p e. (p # w, 0)"] mctp_reach.start mctp_reach.configure)
      (rule mctp_reach.init)
qed

end
