(* ===== verification/Hal_I2c.thy ===== *)
theory Hal_I2c
  imports Libutil
begin

text \<open>
  The I2C controller side of the hardware abstraction, \<^verbatim>\<open>src/common/hal/hal_i2c.c\<close>: transfers
  with retries, with and without the bus mutex, SPD register reads and the bus scan.

  The Zephyr driver calls (\<^verbatim>\<open>i2c_write\<close>, \<^verbatim>\<open>i2c_write_read\<close>, \<^verbatim>\<open>i2c_read\<close>, \<^verbatim>\<open>i2c_transfer\<close>) are arguments
  that carry a state of any type and return a result code; \<open>i2c_env\<close> holds the outcomes of the
  remaining services: whether the bus has a device, whether the mutex is obtained, whether the
  transfer buffers can be allocated, and the build switch \<^verbatim>\<open>CONFIG_USB_DEVICE_OBMF\<close>. The retry
  counter is a byte compared with a byte, so the loops are partial functions: \<open>None\<close> is a loop
  that does not end.
\<close>

section \<open>Definitions\<close>

definition EAGAIN :: int where "EAGAIN = 11"
definition ENOLCK :: int where "ENOLCK = 46"
definition EMSGSIZE :: int where "EMSGSIZE = 122"

record i2c_env =
  ie_dev :: "u8 \<Rightarrow> bool"
  ie_lock :: bool
  ie_malloc_tx :: bool
  ie_malloc_rx :: bool
  ie_obmf :: bool

type_synonym 'w i2c_write_fn = "'w \<Rightarrow> bytes \<Rightarrow> u8 \<Rightarrow> 'w \<times> int"

text \<open>A read call gets the bytes to write first and the number of bytes to read.\<close>

type_synonym 'w i2c_read_fn = "'w \<Rightarrow> u8 \<Rightarrow> bytes \<Rightarrow> nat \<Rightarrow> 'w \<times> int \<times> bytes"

definition check_i2c_bus_valid :: "i2c_env \<Rightarrow> u8 \<Rightarrow> int" where
  "check_i2c_bus_valid env bus = (if ie_dev env bus then 0 else -1)"

text \<open>\<open>stop_early\<close> is the switch of the locked variants: errors other than a busy bus end the loop.\<close>

partial_function (option) write_retry ::
  "bool \<Rightarrow> 'w i2c_write_fn \<Rightarrow> bytes \<Rightarrow> u8 \<Rightarrow> u8 \<Rightarrow> u8 \<Rightarrow> 'w \<Rightarrow> int \<Rightarrow> ('w \<times> int) option" where
  "write_retry stop_early i2c_write txbuf addr retry i w ret =
     (if i \<le> retry then
        (case i2c_write w txbuf addr of
           (w, ret) \<Rightarrow>
             if ret = 0 then Some (w, ret)
             else if stop_early \<and> ret \<noteq> - EAGAIN then Some (w, ret)
             else write_retry stop_early i2c_write txbuf addr retry (i + 1) w ret)
      else Some (w, ret))"

definition i2c_master_write ::
  "i2c_env \<Rightarrow> 'w i2c_write_fn \<Rightarrow> 'w \<Rightarrow> I2C_MSG \<Rightarrow> u8 \<Rightarrow> ('w \<times> int) option" where
  "i2c_master_write env i2c_write w msg retry =
     (if check_i2c_bus_valid env (i2c_bus msg) < 0 then Some (w, -1)
      else if unat (i2c_tx_len msg) > I2C_BUFF_SIZE then Some (w, -1)
      else if \<not> ie_lock env then Some (w, ENOLCK)
      else if \<not> ie_malloc_tx env then Some (w, -1)
      else write_retry (ie_obmf env) i2c_write (take (unat (i2c_tx_len msg)) (i2c_data msg))
             (i2c_target_addr msg) retry 0 w (-1))"

definition i2c_master_write_without_mutex ::
  "i2c_env \<Rightarrow> 'w i2c_write_fn \<Rightarrow> 'w \<Rightarrow> I2C_MSG \<Rightarrow> u8 \<Rightarrow> ('w \<times> int) option" where
  "i2c_master_write_without_mutex env i2c_write w msg retry =
     (if check_i2c_bus_valid env (i2c_bus msg) < 0 then Some (w, -1)
      else if unat (i2c_tx_len msg) > I2C_BUFF_SIZE then Some (w, -1)
      else if \<not> ie_malloc_tx env then Some (w, -1)
      else write_retry False i2c_write (take (unat (i2c_tx_len msg)) (i2c_data msg))
             (i2c_target_addr msg) retry 0 w (-1))"

text \<open>
  One transfer of a read: \<^verbatim>\<open>i2c_write_read\<close> when there are bytes to write, else \<^verbatim>\<open>i2c_read\<close>.
\<close>

partial_function (option) read_retry ::
  "bool \<Rightarrow> 'w i2c_read_fn \<Rightarrow> 'w i2c_read_fn \<Rightarrow> u8 \<Rightarrow> u8 \<Rightarrow> 'w \<Rightarrow> I2C_MSG \<Rightarrow> int
   \<Rightarrow> ('w \<times> I2C_MSG \<times> int) option" where
  "read_retry stop_early i2c_write_read i2c_read retry i w msg ret =
     (if i \<le> retry then
        (case (if 0 < i2c_tx_len msg
               then i2c_write_read w (i2c_target_addr msg)
                      (take (unat (i2c_tx_len msg)) (i2c_data msg)) (unat (i2c_rx_len msg))
               else i2c_read w (i2c_target_addr msg) [] (unat (i2c_rx_len msg))) of
           (w, ret, rxbuf) \<Rightarrow>
             if ret = 0 then
               Some (w, msg\<lparr>i2c_data := memcpy_at 0 (take (unat (i2c_rx_len msg)) rxbuf)
                              (i2c_data msg)\<rparr>, ret)
             else if stop_early \<and> ret \<noteq> - EAGAIN then Some (w, msg, ret)
             else read_retry stop_early i2c_write_read i2c_read retry (i + 1) w msg ret)
      else Some (w, msg, ret))"

definition i2c_master_read ::
  "i2c_env \<Rightarrow> 'w i2c_read_fn \<Rightarrow> 'w i2c_read_fn \<Rightarrow> 'w \<Rightarrow> I2C_MSG \<Rightarrow> u8
   \<Rightarrow> ('w \<times> I2C_MSG \<times> int) option" where
  "i2c_master_read env i2c_write_read i2c_read w msg retry =
     (if check_i2c_bus_valid env (i2c_bus msg) < 0 then Some (w, msg, -1)
      else if i2c_rx_len msg = 0 then Some (w, msg, EMSGSIZE)
      else if unat (i2c_rx_len msg) > I2C_BUFF_SIZE then Some (w, msg, -1)
      else if unat (i2c_tx_len msg) > I2C_BUFF_SIZE then Some (w, msg, -1)
      else if \<not> ie_lock env then Some (w, msg, ENOLCK)
      else if \<not> ie_malloc_tx env then Some (w, msg, -1)
      else if \<not> ie_malloc_rx env then Some (w, msg, -1)
      else read_retry (ie_obmf env) i2c_write_read i2c_read retry 0 w msg (-1))"

definition i2c_master_read_without_mutex ::
  "i2c_env \<Rightarrow> 'w i2c_read_fn \<Rightarrow> 'w i2c_read_fn \<Rightarrow> 'w \<Rightarrow> I2C_MSG \<Rightarrow> u8
   \<Rightarrow> ('w \<times> I2C_MSG \<times> int) option" where
  "i2c_master_read_without_mutex env i2c_write_read i2c_read w msg retry =
     (if check_i2c_bus_valid env (i2c_bus msg) < 0 then Some (w, msg, -1)
      else if i2c_rx_len msg = 0 then Some (w, msg, EMSGSIZE)
      else if unat (i2c_rx_len msg) > I2C_BUFF_SIZE then Some (w, msg, -1)
      else if unat (i2c_tx_len msg) > I2C_BUFF_SIZE then Some (w, msg, -1)
      else if \<not> ie_malloc_tx env then Some (w, msg, -1)
      else if \<not> ie_malloc_rx env then Some (w, msg, -1)
      else read_retry False i2c_write_read i2c_read retry 0 w msg (-1))"

definition i2c_master_read_without_error_log ::
  "i2c_env \<Rightarrow> 'w i2c_read_fn \<Rightarrow> 'w i2c_read_fn \<Rightarrow> 'w \<Rightarrow> I2C_MSG \<Rightarrow> u8
   \<Rightarrow> ('w \<times> I2C_MSG \<times> int) option" where
  "i2c_master_read_without_error_log env i2c_write_read i2c_read w msg retry =
     (if check_i2c_bus_valid env (i2c_bus msg) < 0 then Some (w, msg, -1)
      else if i2c_rx_len msg = 0 then Some (w, msg, EMSGSIZE)
      else if unat (i2c_tx_len msg) > I2C_BUFF_SIZE then Some (w, msg, -1)
      else if \<not> ie_lock env then Some (w, msg, ENOLCK)
      else if \<not> ie_malloc_tx env then Some (w, msg, -1)
      else if \<not> ie_malloc_rx env then Some (w, msg, -1)
      else read_retry False i2c_write_read i2c_read retry 0 w msg (-1))"

text \<open>
  The byte address of an SPD register is split into a block and an offset within it.
\<close>

definition spd_offsets :: "bool \<Rightarrow> u8 \<Rightarrow> u8 \<Rightarrow> u8 \<times> u8" where
  "spd_offsets is_nvm d0 d1 =
     (let v = unat d1 * 256 + unat d0;
          addr = of_nat (v mod 64) :: u8;
          block_addr = of_nat (v div 64) :: u8;
          offset0 = push_bit 6 (flag (bit block_addr 0)) OR (addr AND 0x3F);
          offset1 = drop_bit 1 block_addr AND 0xF
      in (if is_nvm then offset0 OR 0x80 else offset0 AND NOT 0x80, offset1))"

definition i2c_spd_reg_read ::
  "i2c_env \<Rightarrow> 'w i2c_read_fn \<Rightarrow> 'w i2c_read_fn \<Rightarrow> 'w \<Rightarrow> I2C_MSG \<Rightarrow> bool
   \<Rightarrow> ('w \<times> I2C_MSG \<times> int) option" where
  "i2c_spd_reg_read env i2c_write_read i2c_read w msg is_nvm =
     (if check_i2c_bus_valid env (i2c_bus msg) < 0 then Some (w, msg, -1)
      else case spd_offsets is_nvm (nth0 (i2c_data msg) 0) (nth0 (i2c_data msg) 1) of
        (offset0, offset1) \<Rightarrow>
          i2c_master_read env i2c_write_read i2c_read w
            (msg\<lparr>i2c_tx_len := 2, i2c_data := memcpy_at 0 [offset0, offset1] (i2c_data msg)\<rparr>) 3)"

text \<open>\<open>probe\<close> is the empty write transfer to a 7-bit address; the scan returns 8-bit addresses.\<close>

fun scan_loop :: "('w \<Rightarrow> u8 \<Rightarrow> 'w \<times> int) \<Rightarrow> 'w \<Rightarrow> u8 list \<Rightarrow> 'w \<times> bytes" where
  "scan_loop probe w [] = (w, [])"
| "scan_loop probe w (a # as) =
     (if a < 0x04 \<or> a > 0x77 then scan_loop probe w as
      else case probe w a of
        (w, ret) \<Rightarrow>
          (case scan_loop probe w as of
             (w, found) \<Rightarrow> (w, if ret = 0 then push_bit 1 a # found else found)))"

definition scan_addrs :: "u8 list" where
  "scan_addrs = concat (map (\<lambda>i. map (\<lambda>j. of_nat (16 * i + j)) [0..<16]) [0..<8])"

definition i2c_scan :: "i2c_env \<Rightarrow> ('w \<Rightarrow> u8 \<Rightarrow> 'w \<times> int) \<Rightarrow> 'w \<Rightarrow> u8 \<Rightarrow> 'w \<times> bytes" where
  "i2c_scan env probe w bus =
     (if check_i2c_bus_valid env bus < 0 then (w, []) else scan_loop probe w scan_addrs)"

subsection \<open>Reference definitions and examples\<close>

fun write_attempts ::
  "bool \<Rightarrow> 'w i2c_write_fn \<Rightarrow> bytes \<Rightarrow> u8 \<Rightarrow> nat \<Rightarrow> 'w \<Rightarrow> int \<Rightarrow> 'w \<times> int" where
  "write_attempts stop_early i2c_write txbuf addr 0 w ret = (w, ret)"
| "write_attempts stop_early i2c_write txbuf addr (Suc n) w ret =
     (case i2c_write w txbuf addr of
        (w, ret) \<Rightarrow>
          if ret = 0 \<or> stop_early \<and> ret \<noteq> - EAGAIN then (w, ret)
          else write_attempts stop_early i2c_write txbuf addr n w ret)"

fun read_attempts ::
  "bool \<Rightarrow> 'w i2c_read_fn \<Rightarrow> 'w i2c_read_fn \<Rightarrow> nat \<Rightarrow> 'w \<Rightarrow> I2C_MSG \<Rightarrow> int \<Rightarrow> 'w \<times> I2C_MSG \<times> int" where
  "read_attempts stop_early wr rd 0 w msg ret = (w, msg, ret)"
| "read_attempts stop_early wr rd (Suc n) w msg ret =
     (case (if 0 < i2c_tx_len msg
            then wr w (i2c_target_addr msg) (take (unat (i2c_tx_len msg)) (i2c_data msg)) (unat (i2c_rx_len msg))
            else rd w (i2c_target_addr msg) [] (unat (i2c_rx_len msg))) of
        (w, ret, rxbuf) \<Rightarrow>
          if ret = 0 then (w, msg\<lparr>i2c_data := memcpy_at 0 (take (unat (i2c_rx_len msg)) rxbuf) (i2c_data msg)\<rparr>, 0)
          else if stop_early \<and> ret \<noteq> - EAGAIN then (w, msg, ret)
          else read_attempts stop_early wr rd n w msg ret)"

definition demo_i2c_env :: i2c_env where
  "demo_i2c_env = \<lparr>ie_dev = (\<lambda>bus. bus < 12), ie_lock = True, ie_malloc_tx = True, ie_malloc_rx = True,
     ie_obmf = False\<rparr>"

definition demo_i2c_msg :: I2C_MSG where
  "demo_i2c_msg = \<lparr>i2c_bus = 3, i2c_target_addr = 0x20, i2c_rx_len = 2, i2c_tx_len = 2,
     i2c_data = [7, 8] @ zeros 254\<rparr>"

section \<open>Properties\<close>

lemma u8_succ_le:
  fixes i r :: u8
  assumes "i \<le> r" and "r < 255"
  shows "unat (i + 1) = unat i + 1" and "unat r < 255"
proof -
  have r: "unat r < 255" using assms(2) by (simp add: word_less_nat_alt)
  then show "unat r < 255" .
  have "unat i \<le> unat r" using assms(1) by (simp add: word_le_nat_alt)
  then show "unat (i + 1) = unat i + 1" using r by (subst unat_plus_no_wrap) auto
qed

lemma write_retry_attempts:
  assumes "retry < 255"
  shows "write_retry s f b a retry i w r = Some (write_attempts s f b a (unat retry + 1 - unat i) w r)"
proof (induction "unat retry + 1 - unat i" arbitrary: i w r)
  case 0
  then have "\<not> i \<le> retry" by (simp add: word_le_nat_alt)
  with 0 show ?case by (subst write_retry.simps) simp
next
  case (Suc n)
  then have le: "i \<le> retry" by (simp add: word_le_nat_alt)
  have n: "n = unat retry + 1 - unat (i + 1)" using Suc(2) u8_succ_le [OF le assms] by simp
  show ?case
    unfolding Suc(2) [symmetric] using le Suc(1) [OF n] n
    by (subst write_retry.simps) (auto split: prod.split)
qed

lemma write_retry_forever:
  assumes "\<forall>w. snd (f w b a) \<noteq> 0 \<and> (s \<longrightarrow> snd (f w b a) = - EAGAIN)"
  shows "write_retry s f b a 255 i w r = None"
proof -
  let ?P = "\<lambda>s f b a retry i w r (y :: _ \<times> int). retry = (255 :: u8) \<longrightarrow>
    \<not> (\<forall>w. snd (f w b a) \<noteq> 0 \<and> (s \<longrightarrow> snd (f w b a) = - EAGAIN))"
  have "?P s f b a 255 i w r y" if "write_retry s f b a 255 i w r = Some y" for y
  proof (rule write_retry.raw_induct [of ?P, OF _ that])
    fix rec s f b a retry i w r y
    assume IH: "\<And>s f b a retry i w r y. rec s f b a retry i w r = Some y \<Longrightarrow> ?P s f b a retry i w r y"
      and eq: "(if i \<le> retry then case f w b a of (w, ret) \<Rightarrow> if ret = 0 then Some (w, ret)
          else if s \<and> ret \<noteq> - EAGAIN then Some (w, ret) else rec s f b a retry (i + 1) w ret
        else Some (w, r)) = Some y"
    show "?P s f b a retry i w r y"
    proof (intro impI notI)
      assume r: "retry = 255" and all: "\<forall>w. snd (f w b a) \<noteq> 0 \<and> (s \<longrightarrow> snd (f w b a) = - EAGAIN)"
      obtain w' e where fw: "f w b a = (w', e)" by force
      have "e \<noteq> 0" "s \<longrightarrow> e = - EAGAIN" using all fw by (metis snd_conv)+
      moreover have "i \<le> retry" using r by (simp add: word_le_nat_alt)
      ultimately have "rec s f b a retry (i + 1) w' e = Some y" using eq fw by auto
      then show False using IH r all by blast
    qed
  qed
  then show ?thesis using assms by (cases "write_retry s f b a 255 i w r") auto
qed

lemma read_retry_attempts:
  assumes "retry < 255"
  shows "read_retry s f g retry i w msg r = Some (read_attempts s f g (unat retry + 1 - unat i) w msg r)"
proof (induction "unat retry + 1 - unat i" arbitrary: i w r)
  case 0
  then have "\<not> i \<le> retry" by (simp add: word_le_nat_alt)
  with 0 show ?case by (subst read_retry.simps) simp
next
  case (Suc n)
  then have le: "i \<le> retry" by (simp add: word_le_nat_alt)
  have n: "n = unat retry + 1 - unat (i + 1)" using Suc(2) u8_succ_le [OF le assms] by simp
  show ?case
    unfolding Suc(2) [symmetric] using le Suc(1) [OF n] n
    by (subst read_retry.simps) (auto split: prod.split)
qed

lemmas i2c_defs = i2c_master_write_def i2c_master_write_without_mutex_def i2c_master_read_def
  i2c_master_read_without_mutex_def i2c_master_read_without_error_log_def check_i2c_bus_valid_def
  I2C_BUFF_SIZE_def

lemma i2c_master_write_eq:
  assumes "retry < 255"
  shows "i2c_master_write env i2c_write w msg retry = Some
    (if ie_dev env (i2c_bus msg) \<and> ie_lock env \<and> ie_malloc_tx env
     then write_attempts (ie_obmf env) i2c_write (take (unat (i2c_tx_len msg)) (i2c_data msg))
            (i2c_target_addr msg) (unat retry + 1) w (-1)
     else (w, if ie_dev env (i2c_bus msg) \<and> \<not> ie_lock env then ENOLCK else -1))"
  by (simp add: i2c_defs write_retry_attempts [OF assms])

text \<open>
  A controller write with a retry count below 255 always returns. When the bus is known, the
  mutex is obtained and the buffer allocated, it makes at most \<open>retry + 1\<close> attempts with exactly
  the first \<open>tx_len\<close> bytes of the message and stops at the first success; in every other case it
  returns a nonzero code and does not touch the bus.
\<close>

theorem i2c_master_write_attempts:
  assumes "retry < 255"
  shows "i2c_master_write env i2c_write w msg retry = Some
    (if ie_dev env (i2c_bus msg) \<and> ie_lock env \<and> ie_malloc_tx env
     then write_attempts (ie_obmf env) i2c_write (take (unat (i2c_tx_len msg)) (i2c_data msg))
            (i2c_target_addr msg) (unat retry + 1) w (-1)
     else (w, if ie_dev env (i2c_bus msg) \<and> \<not> ie_lock env then ENOLCK else -1))"
  by (rule i2c_master_write_eq [OF assms])

theorem i2c_master_write_attempts_witness:
  "i2c_master_write demo_i2c_env (\<lambda>w b a. (w @ [b], if length w < 2 then -5 else 0)) [] demo_i2c_msg 5
   = Some ([[7, 8], [7, 8], [7, 8]], 0)"
proof -
  have "write_attempts False (\<lambda>w b a. (w @ [b], if length w < 2 then -5 else 0)) [7, 8] 0x20 6 [] (-1)
     = ([[7, 8], [7, 8], [7, 8 :: u8]], 0 :: int)"
    by code_simp
  then show ?thesis
    using i2c_master_write_attempts [of 5 demo_i2c_env "\<lambda>w b a. (w @ [b], if length w < 2 then -5 else 0)" "[]" demo_i2c_msg]
    by (simp add: demo_i2c_env_def demo_i2c_msg_def)
qed

lemma read_attempts_frame:
  assumes "read_attempts s f g n w msg r = (w', msg', r')"
    and "\<And>w a b k. length (snd (snd (f w a b k))) = k" and "\<And>w a b k. length (snd (snd (g w a b k))) = k"
    and "length (i2c_data msg) = 256" and "r \<noteq> 0"
  shows "length (i2c_data msg') = 256 \<and> i2c_bus msg' = i2c_bus msg \<and> i2c_target_addr msg' = i2c_target_addr msg
    \<and> drop (unat (i2c_rx_len msg)) (i2c_data msg') = drop (unat (i2c_rx_len msg)) (i2c_data msg)
    \<and> (r' \<noteq> 0 \<longrightarrow> msg' = msg)"
  using assms(1,5)
proof (induction n arbitrary: w r)
  case 0
  then show ?case using assms(4) by simp
next
  case (Suc n)
  let ?x = "if 0 < i2c_tx_len msg
      then f w (i2c_target_addr msg) (take (unat (i2c_tx_len msg)) (i2c_data msg)) (unat (i2c_rx_len msg))
      else g w (i2c_target_addr msg) [] (unat (i2c_rx_len msg))"
  obtain w1 r1 rx where x: "?x = (w1, r1, rx)" by (metis prod_cases3)
  have "length rx = unat (i2c_rx_len msg)" using x assms(2,3) by (metis snd_conv)
  then show ?case
    using Suc x assms(4)
    by (auto split: if_splits simp: memcpy_at_def)
qed

lemma scan_loop_acks:
  "scan_loop (\<lambda>w a. (w, if acks a then 0 else - 5)) w as
   = (w, map (push_bit 1) (filter (\<lambda>a. 4 \<le> a \<and> a \<le> 0x77 \<and> acks a) as))"
  by (induction as) (auto simp: not_less not_le)

lemma filter_upt_range:
  assumes "a \<le> b" and "b \<le> (c :: nat)"
  shows "filter (\<lambda>n. (a \<le> n \<and> n < b) \<and> P n) [0..<c] = filter P [a..<b]"
proof -
  have "[0..<c] = [0..<a] @ [a..<b] @ [b..<c]"
    using upt_add_eq_append [of 0 a "c - a"] upt_add_eq_append [of a b "c - b"] assms by simp
  moreover have "filter (\<lambda>n. (a \<le> n \<and> n < b) \<and> P n) [a..<b] = filter P [a..<b]"
    by (intro filter_cong) auto
  ultimately show ?thesis by (simp add: filter_empty_conv)
qed

text \<open>
  The bus scan reports, in ascending order and as 8-bit addresses, exactly the 7-bit addresses
  from 0x04 to 0x77 that acknowledge an empty write.
\<close>

theorem i2c_scan_acks:
  "i2c_scan env (\<lambda>w a. (w, if acks a then 0 else - 5)) w bus =
   (w, if ie_dev env bus then map (\<lambda>n. push_bit 1 (of_nat n)) (filter (\<lambda>n. acks (of_nat n)) [4..<0x78]) else [])"
proof -
  have "scan_addrs = map of_nat [0..<128]" by (simp add: scan_addrs_def upt_rec)
  moreover have "filter (\<lambda>a. 4 \<le> a \<and> a \<le> 0x77 \<and> acks a) (map of_nat [0..<128])
     = map of_nat (filter (\<lambda>n. acks (of_nat n)) [4..<0x78])"
  proof -
    have "(4 \<le> (of_nat n :: u8) \<and> (of_nat n :: u8) \<le> 0x77) = (4 \<le> n \<and> n < 0x78)" if "n < 128" for n
      using that by (auto simp: word_le_nat_alt unat_of_nat_lt)
    then have "filter (\<lambda>a. 4 \<le> a \<and> a \<le> 0x77 \<and> acks a) (map of_nat [0..<128])
      = map of_nat (filter (\<lambda>n. (4 \<le> n \<and> n < 0x78) \<and> acks (of_nat n)) [0..<128])"
      unfolding filter_map comp_def by (intro arg_cong [of _ _ "map of_nat"] filter_cong) auto
    also have "filter (\<lambda>n. (4 \<le> n \<and> n < 0x78) \<and> acks (of_nat n)) [0..<128]
      = filter (\<lambda>n. acks (of_nat n)) [4..<0x78]"
      by (rule filter_upt_range) simp_all
    finally show ?thesis .
  qed
  ultimately show ?thesis
    by (simp add: i2c_scan_def check_i2c_bus_valid_def scan_loop_acks)
qed

end
