(* ===== verification/Hal_I2c_Target.thy ===== *)
theory Hal_I2c_Target
  imports Prelude
begin

text \<open>
  The I2C target (slave) driver, \<^verbatim>\<open>src/common/hal/hal_i2c_target.c\<close>: the callbacks the
  controller driver invokes byte by byte, the bounded queue of received messages, and the flow
  control that unregisters the target while the queue is full. The state is one entry of
  \<^verbatim>\<open>i2c_target_device_global\<close>.

  \<open>target_env\<close> holds the outcomes of the services the code calls: whether the controller is found,
  mutex and heap, the results of \<^verbatim>\<open>i2c_slave_register\<close> and \<^verbatim>\<open>i2c_slave_unregister\<close>, and the build switch
  \<^verbatim>\<open>ENABLE_I2C_MULTI_SLAVE\<close>. The platform's hooks are named by a number, \<open>None\<close> being the default ones
  of this file, and given meaning by an argument. \<open>None\<close> as a result is an access to memory that is
  not the target's.
\<close>

section \<open>Definitions\<close>

definition MAX_I2C_TARGET_BUFF :: nat where "MAX_I2C_TARGET_BUFF = 256"
definition MAX_TARGET_NUM :: nat where "MAX_TARGET_NUM = 16"

definition I2C_TARGET_HAS_NO_ERR :: u8 where "I2C_TARGET_HAS_NO_ERR = 0"
definition I2C_TARGET_BUS_INVALID :: u8 where "I2C_TARGET_BUS_INVALID = 1"
definition I2C_TARGET_NOT_INIT :: u8 where "I2C_TARGET_NOT_INIT = 2"
definition I2C_TARGET_NOT_REGISTER :: u8 where "I2C_TARGET_NOT_REGISTER = 4"
definition I2C_TARGET_CONTROLLER_ERR :: u8 where "I2C_TARGET_CONTROLLER_ERR = 8"

definition I2C_TARGET_API_NO_ERR :: int where "I2C_TARGET_API_NO_ERR = 0"
definition I2C_TARGET_API_INPUT_ERR :: int where "I2C_TARGET_API_INPUT_ERR = 1"
definition I2C_TARGET_API_LOCK_ERR :: int where "I2C_TARGET_API_LOCK_ERR = 2"
definition I2C_TARGET_API_MEMORY_ERR :: int where "I2C_TARGET_API_MEMORY_ERR = 3"
definition I2C_TARGET_API_MSGQ_ERR :: int where "I2C_TARGET_API_MSGQ_ERR = 4"
definition I2C_TARGET_API_BUS_GET_FAIL :: int where "I2C_TARGET_API_BUS_GET_FAIL = 5"
definition I2C_TARGET_MULTI_BUS_SKIP :: int where "I2C_TARGET_MULTI_BUS_SKIP = 6"

lemmas target_consts =
  MAX_I2C_TARGET_BUFF_def MAX_TARGET_NUM_def I2C_TARGET_HAS_NO_ERR_def I2C_TARGET_BUS_INVALID_def
  I2C_TARGET_NOT_INIT_def I2C_TARGET_NOT_REGISTER_def I2C_TARGET_CONTROLLER_ERR_def
  I2C_TARGET_API_NO_ERR_def I2C_TARGET_API_INPUT_ERR_def I2C_TARGET_API_LOCK_ERR_def
  I2C_TARGET_API_MEMORY_ERR_def I2C_TARGET_API_MSGQ_ERR_def I2C_TARGET_API_BUS_GET_FAIL_def
  I2C_TARGET_MULTI_BUS_SKIP_def

record i2c_msg_package =
  pk_msg_length :: u16
  pk_msg :: bytes

text \<open>The queue is \<open>None\<close> while it has no buffer.\<close>

record i2c_target_data =
  td_i2c_bus :: u8
  td_address :: u8
  td_address_sec :: u8
  td_address_thd :: u8
  td_req_address :: u8
  td_wr_buffer_idx :: u16
  td_target_wr_msg :: i2c_msg_package
  td_target_wr_msgq :: "i2c_msg_package list option"
  td_max_msgs :: nat
  td_max_msg_count :: u16
  td_skip_msg_wr :: bool
  td_post_wr_rcv_func :: "nat option"
  td_rd_buffer_idx :: u32
  td_target_rd_msg :: i2c_msg_package
  td_rd_data_collect_func :: "nat option"

record i2c_target_config =
  tc_address :: u8
  tc_i2c_msg_count :: u32
  tc_rd_data_collect_func :: "nat option"
  tc_post_wr_rcv_func :: "nat option"
  tc_address_sec :: u8
  tc_is_enable_sec :: bool
  tc_address_thd :: u8
  tc_is_enable_thd :: bool

record i2c_target_device =
  dv_data :: i2c_target_data
  dv_is_init :: bool
  dv_is_register :: bool
  dv_is_enable_sec :: bool
  dv_is_enable_thd :: bool

record target_env =
  te_ctrl :: bool
  te_mutex_init :: bool
  te_lock :: bool
  te_malloc :: bool
  te_slave_register :: int
  te_slave_unregister :: int
  te_multi :: bool

datatype slave_config = config | config_sec | config_thd

text \<open>The hooks a platform may install, by number.\<close>

record target_hooks =
  th_collect :: "nat \<Rightarrow> i2c_target_data \<Rightarrow> i2c_target_data \<times> bool"
  th_post :: "nat \<Rightarrow> i2c_target_data \<Rightarrow> i2c_target_data"

definition do_something_while_rd_start :: "i2c_target_data \<Rightarrow> i2c_target_data \<times> bool" where
  "do_something_while_rd_start d = (d, True)"

definition do_something_after_wr_rcv :: "i2c_target_data \<Rightarrow> i2c_target_data" where
  "do_something_after_wr_rcv d = d"

definition rd_data_collect :: "target_hooks \<Rightarrow> i2c_target_data \<Rightarrow> i2c_target_data \<times> bool" where
  "rd_data_collect hk d = (case td_rd_data_collect_func d of
     None \<Rightarrow> do_something_while_rd_start d | Some f \<Rightarrow> th_collect hk f d)"

definition post_wr_rcv :: "target_hooks \<Rightarrow> i2c_target_data \<Rightarrow> i2c_target_data" where
  "post_wr_rcv hk d = (case td_post_wr_rcv_func d of
     None \<Rightarrow> do_something_after_wr_rcv d | Some f \<Rightarrow> th_post hk f d)"

subsection \<open>Registration\<close>

definition i2c_target_status_get :: "target_env \<Rightarrow> u8 \<Rightarrow> i2c_target_device \<Rightarrow> u8" where
  "i2c_target_status_get env bus_num dev =
     (if unat bus_num \<ge> MAX_TARGET_NUM then I2C_TARGET_HAS_NO_ERR OR I2C_TARGET_BUS_INVALID
      else if \<not> te_ctrl env then I2C_TARGET_HAS_NO_ERR OR I2C_TARGET_CONTROLLER_ERR
      else I2C_TARGET_HAS_NO_ERR
        OR (if \<not> dv_is_init dev then I2C_TARGET_NOT_INIT else 0)
        OR (if \<not> dv_is_register dev then I2C_TARGET_NOT_REGISTER else 0))"

abbreviation status_fails :: "u8 \<Rightarrow> bool" where
  "status_fails st \<equiv>
     st AND (I2C_TARGET_BUS_INVALID OR I2C_TARGET_CONTROLLER_ERR OR I2C_TARGET_NOT_INIT) \<noteq> 0"

definition queue_used :: "i2c_target_data \<Rightarrow> nat" where
  "queue_used d = (case td_target_wr_msgq d of None \<Rightarrow> 0 | Some q \<Rightarrow> length q)"

definition do_i2c_target_register ::
  "target_env \<Rightarrow> u8 \<Rightarrow> i2c_target_device \<Rightarrow> i2c_target_device \<times> int" where
  "do_i2c_target_register env bus_num dev =
     (let st = i2c_target_status_get env bus_num dev in
      if status_fails st then (dev, I2C_TARGET_API_BUS_GET_FAIL)
      else if st AND I2C_TARGET_NOT_REGISTER = 0 then (dev, I2C_TARGET_API_BUS_GET_FAIL)
      else if td_max_msgs (dv_data dev) - queue_used (dv_data dev) = 0
        then (dev, I2C_TARGET_API_MSGQ_ERR)
      else if te_slave_register env \<noteq> 0 then (dev, te_slave_register env)
      else (dev\<lparr>dv_is_register := True\<rparr>, I2C_TARGET_API_NO_ERR))"

definition do_i2c_target_unregister ::
  "target_env \<Rightarrow> u8 \<Rightarrow> i2c_target_device \<Rightarrow> i2c_target_device \<times> int" where
  "do_i2c_target_unregister env bus_num dev =
     (let st = i2c_target_status_get env bus_num dev in
      if status_fails st then (dev, I2C_TARGET_API_BUS_GET_FAIL)
      else if st AND I2C_TARGET_NOT_REGISTER \<noteq> 0 then (dev, I2C_TARGET_API_BUS_GET_FAIL)
      else if te_slave_unregister env \<noteq> 0 then (dev, te_slave_unregister env)
      else (dev\<lparr>dv_is_register := False\<rparr>, I2C_TARGET_API_NO_ERR))"

definition target_cfg_data ::
  "target_env \<Rightarrow> u8 \<Rightarrow> bool \<Rightarrow> i2c_target_config \<Rightarrow> i2c_target_data \<Rightarrow> i2c_target_data" where
  "target_cfg_data env bus_num not_init cfg d =
     (let d = (if not_init then d\<lparr>td_i2c_bus := bus_num\<rparr> else d\<lparr>td_target_wr_msgq := None\<rparr>);
          d = d\<lparr>td_max_msg_count := ucast (tc_i2c_msg_count cfg),
                td_address := drop_bit 1 (tc_address cfg)\<rparr>;
          d = (if te_multi env \<and> tc_is_enable_sec cfg
               then d\<lparr>td_address_sec := drop_bit 1 (tc_address_sec cfg)\<rparr> else d);
          d = (if te_multi env \<and> tc_is_enable_thd cfg
               then d\<lparr>td_address_thd := drop_bit 1 (tc_address_thd cfg)\<rparr> else d)
      in d\<lparr>td_rd_data_collect_func := tc_rd_data_collect_func cfg,
           td_post_wr_rcv_func := tc_post_wr_rcv_func cfg\<rparr>)"

definition do_i2c_target_cfg ::
  "target_env \<Rightarrow> u8 \<Rightarrow> i2c_target_config \<Rightarrow> i2c_target_device \<Rightarrow> i2c_target_device \<times> int" where
  "do_i2c_target_cfg env bus_num cfg dev =
     (let st = i2c_target_status_get env bus_num dev in
      if st AND (I2C_TARGET_BUS_INVALID OR I2C_TARGET_CONTROLLER_ERR) \<noteq> 0
        then (dev, I2C_TARGET_API_BUS_GET_FAIL)
      else let dev = dev\<lparr>dv_is_enable_sec := tc_is_enable_sec cfg,
                         dv_is_enable_thd := tc_is_enable_thd cfg\<rparr> in
        case (if st AND I2C_TARGET_NOT_REGISTER = 0
              then do_i2c_target_unregister env bus_num dev else (dev, 0)) of
          (dev, status) \<Rightarrow>
            if status \<noteq> 0 then (dev, I2C_TARGET_API_BUS_GET_FAIL)
            else if st AND I2C_TARGET_NOT_INIT \<noteq> 0 \<and> \<not> te_mutex_init env
              then (dev, I2C_TARGET_API_LOCK_ERR)
            else if \<not> te_lock env then (dev, I2C_TARGET_API_LOCK_ERR)
            else let d = target_cfg_data env bus_num (st AND I2C_TARGET_NOT_INIT \<noteq> 0) cfg (dv_data dev)
                 in if \<not> te_malloc env
                    then (dev\<lparr>dv_data := d\<rparr>, I2C_TARGET_API_MEMORY_ERR)
                    else (dev\<lparr>dv_data := d\<lparr>td_target_wr_msgq := Some [],
                                            td_max_msgs := unat (td_max_msg_count d)\<rparr>,
                              dv_is_init := True\<rparr>, I2C_TARGET_API_NO_ERR))"

datatype control_mode = I2C_CONTROL_UNREGISTER | I2C_CONTROL_REGISTER | I2C_CONTROL_MAX

definition i2c_target_control ::
  "target_env \<Rightarrow> u8 \<Rightarrow> i2c_target_config \<Rightarrow> control_mode \<Rightarrow> i2c_target_device
   \<Rightarrow> i2c_target_device \<times> int" where
  "i2c_target_control env bus_num cfg mode dev =
     (if i2c_target_status_get env bus_num dev
         AND (I2C_TARGET_BUS_INVALID OR I2C_TARGET_CONTROLLER_ERR) \<noteq> 0
      then (dev, I2C_TARGET_API_BUS_GET_FAIL)
      else case mode of
        I2C_CONTROL_REGISTER \<Rightarrow>
          (case do_i2c_target_cfg env bus_num cfg dev of
             (dev, ret) \<Rightarrow>
               if ret \<noteq> 0 then (dev, ret) else do_i2c_target_register env bus_num dev)
      | I2C_CONTROL_UNREGISTER \<Rightarrow> do_i2c_target_unregister env bus_num dev
      | I2C_CONTROL_MAX \<Rightarrow> (dev, I2C_TARGET_API_INPUT_ERR))"

subsection \<open>Callbacks of the controller driver\<close>

text \<open>Whether the data found for a configuration is the target's.\<close>

definition i2c_find_slave_config ::
  "target_env \<Rightarrow> i2c_target_device \<Rightarrow> slave_config \<Rightarrow> i2c_target_data option" where
  "i2c_find_slave_config env dev c =
     (case c of
        config \<Rightarrow> Some (dv_data dev)
      | config_sec \<Rightarrow> if te_multi env \<and> dv_is_init dev \<and> dv_is_register dev \<and> dv_is_enable_sec dev
                      then Some (dv_data dev) else None
      | config_thd \<Rightarrow> if te_multi env \<and> dv_is_init dev \<and> dv_is_register dev \<and> dv_is_enable_thd dev
                      then Some (dv_data dev) else None)"

definition config_address :: "i2c_target_data \<Rightarrow> slave_config \<Rightarrow> u8" where
  "config_address d c = (case c of
     config \<Rightarrow> td_address d | config_sec \<Rightarrow> td_address_sec d | config_thd \<Rightarrow> td_address_thd d)"

definition i2c_target_write_requested ::
  "target_env \<Rightarrow> slave_config \<Rightarrow> i2c_target_device \<Rightarrow> (i2c_target_device \<times> int) option" where
  "i2c_target_write_requested env c dev =
     (case i2c_find_slave_config env dev c of
        None \<Rightarrow> None
      | Some d \<Rightarrow> Some (dev\<lparr>dv_data := d\<lparr>td_req_address := config_address d c AND 0xFF,
          td_target_wr_msg := \<lparr>pk_msg_length = 0, pk_msg = zeros MAX_I2C_TARGET_BUFF\<rparr>,
          td_wr_buffer_idx := 0, td_skip_msg_wr := False\<rparr>\<rparr>, 0))"

definition i2c_target_write_received ::
  "target_env \<Rightarrow> target_hooks \<Rightarrow> slave_config \<Rightarrow> u8 \<Rightarrow> i2c_target_device
   \<Rightarrow> (i2c_target_device \<times> int) option" where
  "i2c_target_write_received env hk c val dev =
     (case i2c_find_slave_config env dev c of
        None \<Rightarrow> None
      | Some d \<Rightarrow>
          if unat (td_wr_buffer_idx d) \<ge> MAX_I2C_TARGET_BUFF then Some (dev, 1)
          else Some (dev\<lparr>dv_data := post_wr_rcv hk (d\<lparr>td_target_wr_msg :=
                 (td_target_wr_msg d)\<lparr>pk_msg :=
                    (pk_msg (td_target_wr_msg d))[unat (td_wr_buffer_idx d) := val]\<rparr>,
                 td_wr_buffer_idx := td_wr_buffer_idx d + 1\<rparr>)\<rparr>, 0))"

text \<open>The third component of a read callback is the byte it hands to the controller.\<close>

definition i2c_target_read_requested ::
  "target_env \<Rightarrow> target_hooks \<Rightarrow> slave_config \<Rightarrow> i2c_target_device
   \<Rightarrow> (i2c_target_device \<times> int \<times> u8 option) option" where
  "i2c_target_read_requested env hk c dev =
     (case i2c_find_slave_config env dev c of
        None \<Rightarrow> None
      | Some d \<Rightarrow>
          (case rd_data_collect hk d of
             (d, collected) \<Rightarrow>
               let d = (if \<not> collected then d\<lparr>td_skip_msg_wr := True\<rparr> else d) in
               if pk_msg_length (td_target_rd_msg d) = 0
               then Some (dev\<lparr>dv_data := d\<rparr>, 1, None)
               else Some (dev\<lparr>dv_data := d\<lparr>td_rd_buffer_idx := 1\<rparr>\<rparr>, 0,
                          Some (nth0 (pk_msg (td_target_rd_msg d)) 0))))"

definition i2c_target_read_processed ::
  "target_env \<Rightarrow> slave_config \<Rightarrow> i2c_target_device
   \<Rightarrow> (i2c_target_device \<times> int \<times> u8 option) option" where
  "i2c_target_read_processed env c dev =
     (case i2c_find_slave_config env dev c of
        None \<Rightarrow> None
      | Some d \<Rightarrow>
          if ucast (pk_msg_length (td_target_rd_msg d)) - td_rd_buffer_idx d = 0
          then Some (dev, 1, None)
          else if unat (td_rd_buffer_idx d) \<ge> MAX_I2C_TARGET_BUFF then Some (dev, 1, None)
          else Some (dev\<lparr>dv_data := d\<lparr>td_rd_buffer_idx := td_rd_buffer_idx d + 1\<rparr>\<rparr>, 0,
                     Some (nth0 (pk_msg (td_target_rd_msg d)) (unat (td_rd_buffer_idx d)))))"

text \<open>
  Putting a message into a queue that has room but no buffer would write through a null pointer.
\<close>

definition i2c_target_stop ::
  "target_env \<Rightarrow> slave_config \<Rightarrow> i2c_target_device \<Rightarrow> (i2c_target_device \<times> int) option" where
  "i2c_target_stop env c dev =
     (case i2c_find_slave_config env dev c of
        None \<Rightarrow> None
      | Some d \<Rightarrow>
          let clean_up = (\<lambda>dev. dev\<lparr>dv_data :=
                (dv_data dev)\<lparr>td_rd_buffer_idx := 0, td_wr_buffer_idx := 0\<rparr>\<rparr>) in
          if td_wr_buffer_idx d = 0 then Some (clean_up dev, 0)
          else if td_skip_msg_wr d then Some (clean_up dev, 0)
          else let d = d\<lparr>td_target_wr_msg :=
                     (td_target_wr_msg d)\<lparr>pk_msg_length := td_wr_buffer_idx d\<rparr>\<rparr> in
            if queue_used d \<ge> td_max_msgs d then Some (clean_up (dev\<lparr>dv_data := d\<rparr>), 1)
            else case td_target_wr_msgq d of
              None \<Rightarrow> None
            | Some q \<Rightarrow>
                let d = d\<lparr>td_target_wr_msgq := Some (q @ [td_target_wr_msg d])\<rparr>;
                    dev = dev\<lparr>dv_data := d\<rparr>;
                    dev = (if td_max_msgs d - queue_used d = 0
                           then fst (do_i2c_target_unregister env (td_i2c_bus d) dev) else dev)
                in Some (clean_up dev, 0))"

subsection \<open>Client interface\<close>

definition i2c_target_cfg_get ::
  "target_env \<Rightarrow> u8 \<Rightarrow> i2c_target_device \<Rightarrow> (u8 \<times> nat) option \<times> int" where
  "i2c_target_cfg_get env bus_num dev =
     (if status_fails (i2c_target_status_get env bus_num dev)
      then (None, I2C_TARGET_API_BUS_GET_FAIL)
      else (Some (td_address (dv_data dev), td_max_msgs (dv_data dev)), I2C_TARGET_API_NO_ERR))"

text \<open>
  A read takes the oldest message; \<open>forever\<close> is whether the timeout is \<^verbatim>\<open>K_FOREVER\<close>, with which the
  call waits for a message, so an empty queue is then outside the function's domain.
\<close>

definition multi_bus_i2c_target_read ::
  "target_env \<Rightarrow> u8 \<Rightarrow> u16 \<Rightarrow> bool \<Rightarrow> i2c_target_device
   \<Rightarrow> (i2c_target_device \<times> int \<times> bytes) option" where
  "multi_bus_i2c_target_read env bus_num buff_len forever dev =
     (if status_fails (i2c_target_status_get env bus_num dev)
      then Some (dev, I2C_TARGET_API_BUS_GET_FAIL, [])
      else case td_target_wr_msgq (dv_data dev) of
        None \<Rightarrow> if forever then None else Some (dev, I2C_TARGET_MULTI_BUS_SKIP, [])
      | Some [] \<Rightarrow> if forever then None else Some (dev, I2C_TARGET_MULTI_BUS_SKIP, [])
      | Some (local_buf # q) \<Rightarrow>
          let dev = dev\<lparr>dv_data := (dv_data dev)\<lparr>td_target_wr_msgq := Some q\<rparr>\<rparr>;
              buff = (if buff_len < pk_msg_length local_buf
                      then take (unat buff_len) (pk_msg local_buf)
                      else take (unat (pk_msg_length local_buf)) (pk_msg local_buf)) in
          if int (queue_used (dv_data dev)) = int (td_max_msgs (dv_data dev)) - 1 then
            (case do_i2c_target_register env bus_num dev of
               (dev, ret) \<Rightarrow>
                 if ret \<noteq> 0 then Some (dev, I2C_TARGET_API_BUS_GET_FAIL, buff)
                 else Some (dev, I2C_TARGET_API_NO_ERR, buff))
          else Some (dev, I2C_TARGET_API_NO_ERR, buff))"

definition i2c_target_read ::
  "target_env \<Rightarrow> u8 \<Rightarrow> u16 \<Rightarrow> i2c_target_device \<Rightarrow> (i2c_target_device \<times> int \<times> bytes) option" where
  "i2c_target_read env bus_num buff_len dev = multi_bus_i2c_target_read env bus_num buff_len True dev"

definition i2c_target_write ::
  "target_env \<Rightarrow> u8 \<Rightarrow> bytes \<Rightarrow> u16 \<Rightarrow> i2c_target_device \<Rightarrow> i2c_target_device \<times> int" where
  "i2c_target_write env bus_num buff buff_len dev =
     (if status_fails (i2c_target_status_get env bus_num dev)
      then (dev, I2C_TARGET_API_BUS_GET_FAIL)
      else let n = (if unat buff_len > MAX_I2C_TARGET_BUFF then 256 else buff_len);
               d = dv_data dev in
        (dev\<lparr>dv_data := d\<lparr>td_target_rd_msg := \<lparr>pk_msg_length = n,
           pk_msg = memcpy_at 0 (take (unat n) buff) (pk_msg (td_target_rd_msg d))\<rparr>\<rparr>\<rparr>,
         I2C_TARGET_API_NO_ERR))"

subsection \<open>Reference definitions and examples\<close>

text \<open>The statically allocated device before any call.\<close>

definition target_zero :: i2c_target_device where
  "target_zero = \<lparr>dv_data = \<lparr>td_i2c_bus = 0, td_address = 0, td_address_sec = 0, td_address_thd = 0,
      td_req_address = 0, td_wr_buffer_idx = 0,
      td_target_wr_msg = \<lparr>pk_msg_length = 0, pk_msg = zeros 256\<rparr>, td_target_wr_msgq = None,
      td_max_msgs = 0, td_max_msg_count = 0, td_skip_msg_wr = False, td_post_wr_rcv_func = None,
      td_rd_buffer_idx = 0, td_target_rd_msg = \<lparr>pk_msg_length = 0, pk_msg = zeros 256\<rparr>,
      td_rd_data_collect_func = None\<rparr>,
    dv_is_init = False, dv_is_register = False, dv_is_enable_sec = False, dv_is_enable_thd = False\<rparr>"

text \<open>A whole write transfer on the bus, and the queue a client sees.\<close>

fun bus_bytes ::
  "target_env \<Rightarrow> target_hooks \<Rightarrow> slave_config \<Rightarrow> bytes \<Rightarrow> i2c_target_device \<Rightarrow> i2c_target_device option" where
  "bus_bytes env hk c [] dev = Some dev"
| "bus_bytes env hk c (v # vs) dev =
     (case i2c_target_write_received env hk c v dev of
        None \<Rightarrow> None | Some (dev, _) \<Rightarrow> bus_bytes env hk c vs dev)"

definition bus_write ::
  "target_env \<Rightarrow> target_hooks \<Rightarrow> slave_config \<Rightarrow> bytes \<Rightarrow> i2c_target_device
   \<Rightarrow> (i2c_target_device \<times> int) option" where
  "bus_write env hk c vs dev =
     (case i2c_target_write_requested env c dev of
        None \<Rightarrow> None
      | Some (dev, _) \<Rightarrow>
          (case bus_bytes env hk c vs dev of None \<Rightarrow> None | Some dev \<Rightarrow> i2c_target_stop env c dev))"

definition queued :: "i2c_target_device \<Rightarrow> i2c_msg_package list" where
  "queued dev = (case td_target_wr_msgq (dv_data dev) of None \<Rightarrow> [] | Some q \<Rightarrow> q)"

definition pkg_ok :: "i2c_msg_package \<Rightarrow> bool" where
  "pkg_ok p = (length (pk_msg p) = MAX_I2C_TARGET_BUFF \<and> unat (pk_msg_length p) \<le> MAX_I2C_TARGET_BUFF)"

definition data_inv :: "i2c_target_data \<Rightarrow> bool" where
  "data_inv d = (length (pk_msg (td_target_wr_msg d)) = MAX_I2C_TARGET_BUFF
     \<and> unat (td_wr_buffer_idx d) \<le> MAX_I2C_TARGET_BUFF \<and> pkg_ok (td_target_rd_msg d)
     \<and> unat (td_rd_buffer_idx d) \<le> MAX_I2C_TARGET_BUFF \<and> queue_used d \<le> td_max_msgs d
     \<and> (\<forall>q. td_target_wr_msgq d = Some q \<longrightarrow> (\<forall>p \<in> set q. pkg_ok p)))"

text \<open>
  The invariant of a target. With \<^verbatim>\<open>room\<close> a registered target has room for another message: that needs a controller that
  is found and unregisters its targets, for \<^verbatim>\<open>i2c_target_stop\<close> ignores that unregistering a full target has failed.
\<close>

definition target_inv :: "bool \<Rightarrow> u8 \<Rightarrow> i2c_target_device \<Rightarrow> bool" where
  "target_inv room bus dev = (data_inv (dv_data dev)
     \<and> (dv_is_init dev \<longrightarrow> td_i2c_bus (dv_data dev) = bus \<and> unat bus < MAX_TARGET_NUM)
     \<and> (dv_is_register dev \<longrightarrow> dv_is_init dev \<and> td_target_wr_msgq (dv_data dev) \<noteq> None
          \<and> (room \<longrightarrow> queue_used (dv_data dev) < td_max_msgs (dv_data dev))))"

definition env_ok :: "target_env \<Rightarrow> bool" where
  "env_ok env = (te_ctrl env \<and> te_slave_unregister env = 0)"

definition hooks_ok :: "target_hooks \<Rightarrow> bool" where
  "hooks_ok hk = (\<forall>f d. data_inv d \<longrightarrow>
     (let d' = fst (th_collect hk f d) in data_inv d' \<and> td_target_wr_msgq d' = td_target_wr_msgq d
        \<and> td_max_msgs d' = td_max_msgs d \<and> td_i2c_bus d' = td_i2c_bus d)
     \<and> (let d' = th_post hk f d in data_inv d' \<and> td_target_wr_msgq d' = td_target_wr_msgq d
        \<and> td_max_msgs d' = td_max_msgs d \<and> td_i2c_bus d' = td_i2c_bus d))"

text \<open>The callbacks and the calls of the clients, each in some environment of the set \<^verbatim>\<open>E\<close>.\<close>

inductive target_step ::
  "(target_env \<Rightarrow> bool) \<Rightarrow> target_hooks \<Rightarrow> u8 \<Rightarrow> i2c_target_device \<Rightarrow> i2c_target_device \<Rightarrow> bool"
  for E :: "target_env \<Rightarrow> bool" and hk :: target_hooks and bus :: u8 where
  wreq: "E env \<Longrightarrow> dv_is_register dev \<Longrightarrow> i2c_target_write_requested env c dev = Some (dev', r) \<Longrightarrow>
    target_step E hk bus dev dev'"
| wrcv: "E env \<Longrightarrow> dv_is_register dev \<Longrightarrow> i2c_target_write_received env hk c v dev = Some (dev', r) \<Longrightarrow>
    target_step E hk bus dev dev'"
| rreq: "E env \<Longrightarrow> dv_is_register dev \<Longrightarrow> i2c_target_read_requested env hk c dev = Some (dev', r, b) \<Longrightarrow>
    target_step E hk bus dev dev'"
| rproc: "E env \<Longrightarrow> dv_is_register dev \<Longrightarrow> i2c_target_read_processed env c dev = Some (dev', r, b) \<Longrightarrow>
    target_step E hk bus dev dev'"
| stop: "E env \<Longrightarrow> dv_is_register dev \<Longrightarrow> i2c_target_stop env c dev = Some (dev', r) \<Longrightarrow>
    target_step E hk bus dev dev'"
| read: "E env \<Longrightarrow> multi_bus_i2c_target_read env bus n forever dev = Some (dev', r, buff) \<Longrightarrow>
    target_step E hk bus dev dev'"
| set_rd: "E env \<Longrightarrow> unat n \<le> length buff \<Longrightarrow> i2c_target_write env bus buff n dev = (dev', r) \<Longrightarrow>
    target_step E hk bus dev dev'"
| control: "E env \<Longrightarrow> i2c_target_control env bus cfg mode dev = (dev', r) \<Longrightarrow>
    target_step E hk bus dev dev'"

definition store_byte :: "u8 \<Rightarrow> i2c_target_data \<Rightarrow> i2c_target_data" where
  "store_byte val d = d\<lparr>td_target_wr_msg :=
     (td_target_wr_msg d)\<lparr>pk_msg := (pk_msg (td_target_wr_msg d))[unat (td_wr_buffer_idx d) := val]\<rparr>,
     td_wr_buffer_idx := td_wr_buffer_idx d + 1\<rparr>"

fun recv_all :: "('s \<Rightarrow> 's \<times> bytes) \<Rightarrow> nat \<Rightarrow> 's \<Rightarrow> 's \<times> bytes list" where
  "recv_all recv 0 s = (s, [])"
| "recv_all recv (Suc n) s =
     (case recv s of (s, b) \<Rightarrow> (case recv_all recv n s of (s, bs) \<Rightarrow> (s, b # bs)))"

definition pkg_bytes :: "i2c_msg_package \<Rightarrow> bytes" where
  "pkg_bytes p = take (unat (pk_msg_length p)) (pk_msg p)"

definition target_good :: "u8 \<Rightarrow> i2c_target_device \<Rightarrow> bool" where
  "target_good bus dev = (target_inv True bus dev \<and> dv_is_init dev \<and> td_target_wr_msgq (dv_data dev) \<noteq> None
     \<and> td_post_wr_rcv_func (dv_data dev) = None \<and> 0 < td_max_msgs (dv_data dev)
     \<and> dv_is_register dev = (queue_used (dv_data dev) < td_max_msgs (dv_data dev)))"

definition target_send :: "target_env \<Rightarrow> target_hooks \<Rightarrow> bytes \<Rightarrow> i2c_target_device \<Rightarrow> i2c_target_device" where
  "target_send env hk b dev = (case bus_write env hk config b dev of None \<Rightarrow> dev | Some (dev, _) \<Rightarrow> dev)"

definition target_recv :: "target_env \<Rightarrow> u8 \<Rightarrow> i2c_target_device \<Rightarrow> i2c_target_device \<times> bytes" where
  "target_recv env bus dev = (case i2c_target_read env bus 256 dev of
     None \<Rightarrow> (dev, []) | Some (dev, _, b) \<Rightarrow> (dev, b))"

definition target_contents :: "i2c_target_device \<Rightarrow> bytes list" where
  "target_contents dev = map pkg_bytes (queued dev)"

definition target_room :: "i2c_target_device \<Rightarrow> nat" where
  "target_room dev = td_max_msgs (dv_data dev) - queue_used (dv_data dev)"

definition received_prefix :: "bytes \<Rightarrow> i2c_target_data \<Rightarrow> i2c_target_data \<Rightarrow> bool" where
  "received_prefix vs d d' = (data_inv d' \<and> unat (td_wr_buffer_idx d') = length vs
     \<and> take (length vs) (pk_msg (td_target_wr_msg d')) = vs \<and> td_target_wr_msgq d' = td_target_wr_msgq d
     \<and> td_max_msgs d' = td_max_msgs d \<and> td_i2c_bus d' = td_i2c_bus d
     \<and> td_address d' = td_address d \<and> td_post_wr_rcv_func d' = td_post_wr_rcv_func d \<and> \<not> td_skip_msg_wr d')"

definition nominal_env :: target_env where
  "nominal_env = \<lparr>te_ctrl = True, te_mutex_init = True, te_lock = True, te_malloc = True,
     te_slave_register = 0, te_slave_unregister = 0, te_multi = False\<rparr>"

definition no_hooks :: target_hooks where
  "no_hooks = \<lparr>th_collect = (\<lambda>_ d. (d, True)), th_post = (\<lambda>_ d. d)\<rparr>"

definition demo_target_cfg :: i2c_target_config where
  "demo_target_cfg = \<lparr>tc_address = 0x40, tc_i2c_msg_count = 2, tc_rd_data_collect_func = None,
     tc_post_wr_rcv_func = None, tc_address_sec = 0, tc_is_enable_sec = False, tc_address_thd = 0,
     tc_is_enable_thd = False\<rparr>"

definition demo_target :: i2c_target_device where
  "demo_target = fst (i2c_target_control nominal_env 3 demo_target_cfg I2C_CONTROL_REGISTER target_zero)"

section \<open>Properties\<close>

lemma status_bits:
  "status_fails (i2c_target_status_get env bus dev)
    = (\<not> (unat bus < MAX_TARGET_NUM \<and> te_ctrl env \<and> dv_is_init dev))"
  "(i2c_target_status_get env bus dev AND (I2C_TARGET_BUS_INVALID OR I2C_TARGET_CONTROLLER_ERR) \<noteq> 0)
    = (\<not> (unat bus < MAX_TARGET_NUM \<and> te_ctrl env))"
  "unat bus < MAX_TARGET_NUM \<Longrightarrow> te_ctrl env \<Longrightarrow>
    (i2c_target_status_get env bus dev AND I2C_TARGET_NOT_REGISTER = 0) = dv_is_register dev"
  "unat bus < MAX_TARGET_NUM \<Longrightarrow> te_ctrl env \<Longrightarrow>
    (i2c_target_status_get env bus dev AND I2C_TARGET_NOT_INIT = 0) = dv_is_init dev"
  by (auto simp: i2c_target_status_get_def target_consts)

lemma register_cases:
  "do_i2c_target_register env bus dev =
    (if \<not> (unat bus < MAX_TARGET_NUM \<and> te_ctrl env \<and> dv_is_init dev) \<or> dv_is_register dev
       then (dev, I2C_TARGET_API_BUS_GET_FAIL)
     else if td_max_msgs (dv_data dev) \<le> queue_used (dv_data dev) then (dev, I2C_TARGET_API_MSGQ_ERR)
     else if te_slave_register env \<noteq> 0 then (dev, te_slave_register env)
     else (dev\<lparr>dv_is_register := True\<rparr>, 0))"
  by (auto simp: do_i2c_target_register_def Let_def status_bits I2C_TARGET_API_NO_ERR_def)

lemma unregister_cases:
  "do_i2c_target_unregister env bus dev =
    (if \<not> (unat bus < MAX_TARGET_NUM \<and> te_ctrl env \<and> dv_is_init dev) \<or> \<not> dv_is_register dev
       then (dev, I2C_TARGET_API_BUS_GET_FAIL)
     else if te_slave_unregister env \<noteq> 0 then (dev, te_slave_unregister env)
     else (dev\<lparr>dv_is_register := False\<rparr>, 0))"
  by (auto simp: do_i2c_target_unregister_def Let_def status_bits I2C_TARGET_API_NO_ERR_def)

lemma queue_used_simps [simp]:
  "queue_used (d\<lparr>td_target_wr_msgq := Some q\<rparr>) = length q"
  "queue_used (d\<lparr>td_target_wr_msgq := None\<rparr>) = 0"
  "queue_used (d\<lparr>td_wr_buffer_idx := i\<rparr>) = queue_used d"
  "queue_used (d\<lparr>td_rd_buffer_idx := j\<rparr>) = queue_used d"
  "queue_used (d\<lparr>td_target_wr_msg := m\<rparr>) = queue_used d"
  "queue_used (d\<lparr>td_target_rd_msg := m\<rparr>) = queue_used d"
  "queue_used (d\<lparr>td_skip_msg_wr := b\<rparr>) = queue_used d"
  "queue_used (d\<lparr>td_req_address := a\<rparr>) = queue_used d"
  by (simp_all add: queue_used_def)

lemma data_inv_simps [simp]:
  "data_inv (d\<lparr>td_i2c_bus := x\<rparr>) = data_inv d" "data_inv (d\<lparr>td_address := x\<rparr>) = data_inv d"
  "data_inv (d\<lparr>td_address_sec := x\<rparr>) = data_inv d" "data_inv (d\<lparr>td_address_thd := x\<rparr>) = data_inv d"
  "data_inv (d\<lparr>td_max_msg_count := n\<rparr>) = data_inv d" "data_inv (d\<lparr>td_skip_msg_wr := b\<rparr>) = data_inv d"
  "data_inv (d\<lparr>td_post_wr_rcv_func := f\<rparr>) = data_inv d" "data_inv (d\<lparr>td_req_address := x\<rparr>) = data_inv d"
  "data_inv (d\<lparr>td_rd_data_collect_func := f\<rparr>) = data_inv d"
  by (simp_all add: data_inv_def queue_used_def)

lemma data_inv_queue:
  "data_inv d \<Longrightarrow> data_inv (d\<lparr>td_target_wr_msgq := None\<rparr>)"
  "data_inv d \<Longrightarrow> data_inv (d\<lparr>td_target_wr_msgq := Some [], td_max_msgs := n\<rparr>)"
  "data_inv d \<Longrightarrow> td_target_wr_msgq d = Some (m # q) \<Longrightarrow> data_inv (d\<lparr>td_target_wr_msgq := Some q\<rparr>)"
  by (simp_all add: data_inv_def queue_used_def)

lemmas tinv_defs = target_inv_def data_inv_def pkg_ok_def target_consts

lemma find_slave_data: "i2c_find_slave_config env dev c = Some d \<Longrightarrow> d = dv_data dev"
  by (auto simp: i2c_find_slave_config_def split: slave_config.splits if_splits)

lemma find_slave_config [simp]: "i2c_find_slave_config env dev config = Some (dv_data dev)"
  by (simp add: i2c_find_slave_config_def)

lemma write_requested_inv:
  assumes "target_inv rm bus dev" and "i2c_target_write_requested env c dev = Some (dev', r)"
  shows "target_inv rm bus dev'"
  using assms by (auto simp: i2c_target_write_requested_def tinv_defs
      split: option.splits dest!: find_slave_data)

lemma post_wr_rcv_keeps:
  assumes "hooks_ok hk" and "data_inv d"
  shows "data_inv (post_wr_rcv hk d)" "td_target_wr_msgq (post_wr_rcv hk d) = td_target_wr_msgq d"
    "td_max_msgs (post_wr_rcv hk d) = td_max_msgs d" "td_i2c_bus (post_wr_rcv hk d) = td_i2c_bus d"
  using assms by (auto simp: hooks_ok_def post_wr_rcv_def do_something_after_wr_rcv_def Let_def
      split: option.split)

lemma rd_data_collect_keeps:
  assumes "hooks_ok hk" and "data_inv d" and "rd_data_collect hk d = (d', b)"
  shows "data_inv d'" "td_target_wr_msgq d' = td_target_wr_msgq d"
    "td_max_msgs d' = td_max_msgs d" "td_i2c_bus d' = td_i2c_bus d"
proof -
  have d': "d' = fst (rd_data_collect hk d)" using assms(3) by simp
  show "data_inv d'" "td_target_wr_msgq d' = td_target_wr_msgq d"
    "td_max_msgs d' = td_max_msgs d" "td_i2c_bus d' = td_i2c_bus d"
    using assms(1,2) unfolding d'
    by (auto simp: hooks_ok_def rd_data_collect_def do_something_while_rd_start_def Let_def
        split: option.split)
qed

text \<open>Replacing the data by one with the same queue keeps the invariant.\<close>

lemma target_inv_data:
  assumes "target_inv rm bus dev" and "data_inv d" and "td_target_wr_msgq d = td_target_wr_msgq (dv_data dev)"
    and "td_max_msgs d = td_max_msgs (dv_data dev)" and "td_i2c_bus d = td_i2c_bus (dv_data dev)"
  shows "target_inv rm bus (dev\<lparr>dv_data := d\<rparr>)"
  using assms by (simp add: target_inv_def queue_used_def)

lemma store_byte_keeps:
  assumes "data_inv d" and "unat (td_wr_buffer_idx d) < 256"
  shows "data_inv (store_byte v d)" "unat (td_wr_buffer_idx (store_byte v d)) = unat (td_wr_buffer_idx d) + 1"
    "td_target_wr_msgq (store_byte v d) = td_target_wr_msgq d"
    "td_max_msgs (store_byte v d) = td_max_msgs d" "td_i2c_bus (store_byte v d) = td_i2c_bus d"
proof -
  have u: "unat (td_wr_buffer_idx d + 1) = unat (td_wr_buffer_idx d) + 1"
    using assms(2) by (subst unat_plus_no_wrap) auto
  then show "unat (td_wr_buffer_idx (store_byte v d)) = unat (td_wr_buffer_idx d) + 1"
    by (simp add: store_byte_def)
  show "data_inv (store_byte v d)"
    using assms u by (simp add: store_byte_def tinv_defs queue_used_def)
qed (simp_all add: store_byte_def)

lemma write_received_eq:
  "i2c_target_write_received env hk c v dev =
    map_option (\<lambda>d. if 256 \<le> unat (td_wr_buffer_idx d) then (dev, 1)
      else (dev\<lparr>dv_data := post_wr_rcv hk (store_byte v d)\<rparr>, 0)) (i2c_find_slave_config env dev c)"
  by (auto simp: i2c_target_write_received_def store_byte_def target_consts split: option.split)

lemma write_received_inv:
  assumes "target_inv rm bus dev" and "hooks_ok hk" and "i2c_target_write_received env hk c v dev = Some (dev', r)"
  shows "target_inv rm bus dev'"
proof (cases "256 \<le> unat (td_wr_buffer_idx (dv_data dev))")
  case True
  with assms show ?thesis by (auto simp: write_received_eq dest!: find_slave_data)
next
  case False
  let ?d = "dv_data dev"
  have inv: "data_inv ?d" using assms(1) by (simp add: target_inv_def)
  note st = store_byte_keeps [OF inv, of v]
  have "dev' = dev\<lparr>dv_data := post_wr_rcv hk (store_byte v ?d)\<rparr>"
    using assms(3) False by (auto simp: write_received_eq dest!: find_slave_data)
  with False st post_wr_rcv_keeps [OF assms(2), of "store_byte v ?d"] show ?thesis
    by (auto intro!: target_inv_data [OF assms(1)])
qed

lemma read_requested_inv:
  assumes "target_inv rm bus dev" and "hooks_ok hk" and "i2c_target_read_requested env hk c dev = Some (dev', r, b)"
  shows "target_inv rm bus dev'"
proof -
  obtain d ok where col: "rd_data_collect hk (dv_data dev) = (d, ok)" by force
  have inv: "data_inv (dv_data dev)" using assms(1) by (simp add: target_inv_def)
  note k = rd_data_collect_keeps [OF assms(2) inv col]
  have "dev' = dev\<lparr>dv_data := d\<rparr> \<or> dev' = dev\<lparr>dv_data := d\<lparr>td_skip_msg_wr := True\<rparr>\<rparr>
      \<or> dev' = dev\<lparr>dv_data := d\<lparr>td_rd_buffer_idx := 1\<rparr>\<rparr>
      \<or> dev' = dev\<lparr>dv_data := d\<lparr>td_skip_msg_wr := True, td_rd_buffer_idx := 1\<rparr>\<rparr>"
    using assms(3) col
    by (auto simp: i2c_target_read_requested_def Let_def split: option.splits if_splits dest!: find_slave_data)
  moreover have "data_inv (d\<lparr>td_rd_buffer_idx := 1\<rparr>)" "data_inv (d\<lparr>td_skip_msg_wr := True, td_rd_buffer_idx := 1\<rparr>)"
    using k(1) by (simp_all add: data_inv_def target_consts)
  ultimately show ?thesis using k by (elim disjE) (simp_all add: target_inv_data [OF assms(1)])
qed

lemma read_processed_inv:
  assumes "target_inv rm bus dev" and "i2c_target_read_processed env c dev = Some (dev', r, b)"
  shows "target_inv rm bus dev'"
proof -
  let ?d = "dv_data dev"
  have "unat (td_rd_buffer_idx ?d + 1) = unat (td_rd_buffer_idx ?d) + 1" if "unat (td_rd_buffer_idx ?d) < 256"
    using that by (subst unat_plus_no_wrap) auto
  moreover have "data_inv ?d" using assms(1) by (simp add: target_inv_def)
  ultimately have "data_inv (?d\<lparr>td_rd_buffer_idx := td_rd_buffer_idx ?d + 1\<rparr>)" if "unat (td_rd_buffer_idx ?d) < 256"
    using that by (simp add: tinv_defs)
  then show ?thesis
    using assms by (auto simp: i2c_target_read_processed_def target_consts not_le
        split: option.splits if_splits dest!: find_slave_data intro!: target_inv_data)
qed

lemma stop_eq:
  assumes inv: "target_inv True bus dev" and env: "env_ok env" and reg: "dv_is_register dev"
    and d: "i2c_find_slave_config env dev c = Some d"
  shows "\<exists>q. td_target_wr_msgq d = Some q \<and> length q < td_max_msgs d \<and> i2c_target_stop env c dev = Some
    (if td_wr_buffer_idx d = 0 \<or> td_skip_msg_wr d
     then dev\<lparr>dv_data := d\<lparr>td_rd_buffer_idx := 0, td_wr_buffer_idx := 0\<rparr>\<rparr>
     else dev\<lparr>dv_data := d\<lparr>td_target_wr_msg := (td_target_wr_msg d)\<lparr>pk_msg_length := td_wr_buffer_idx d\<rparr>,
            td_target_wr_msgq := Some (q @ [(td_target_wr_msg d)\<lparr>pk_msg_length := td_wr_buffer_idx d\<rparr>]),
            td_rd_buffer_idx := 0, td_wr_buffer_idx := 0\<rparr>,
          dv_is_register := (length q + 1 < td_max_msgs d)\<rparr>, 0)"
proof -
  have dd: "d = dv_data dev" using find_slave_data [OF d] .
  obtain q where q: "td_target_wr_msgq d = Some q" using inv reg dd by (auto simp: target_inv_def)
  have lt: "length q < td_max_msgs d" using inv reg dd q by (simp add: target_inv_def queue_used_def)
  have b: "td_i2c_bus d = bus" "unat bus < MAX_TARGET_NUM" "dv_is_init dev"
    using inv reg dd by (auto simp: target_inv_def)
  have used: "queue_used d = length q" using q by (simp add: queue_used_def)
  show ?thesis
    using q lt used b reg env dd
    by (auto simp: i2c_target_stop_def d Let_def unregister_cases env_ok_def)
qed

lemma data_inv_stop:
  assumes "data_inv d" and "td_target_wr_msgq d = Some q" and "length q < td_max_msgs d"
  shows "data_inv (d\<lparr>td_rd_buffer_idx := 0, td_wr_buffer_idx := 0\<rparr>)"
    "data_inv (d\<lparr>td_target_wr_msg := (td_target_wr_msg d)\<lparr>pk_msg_length := td_wr_buffer_idx d\<rparr>,
       td_target_wr_msgq := Some (q @ [(td_target_wr_msg d)\<lparr>pk_msg_length := td_wr_buffer_idx d\<rparr>]),
       td_rd_buffer_idx := 0, td_wr_buffer_idx := 0\<rparr>)"
  using assms by (auto simp: data_inv_def pkg_ok_def queue_used_def)

lemma stop_inv_room:
  assumes "target_inv True bus dev" and "env_ok env" and "dv_is_register dev" and "i2c_target_stop env c dev = Some (dev', r)"
  shows "target_inv True bus dev'"
proof -
  obtain d where d: "i2c_find_slave_config env dev c = Some d"
    using assms(4) by (auto simp: i2c_target_stop_def split: option.splits)
  note dd = find_slave_data [OF d]
  from stop_eq [OF assms(1-3) d] obtain q where q: "td_target_wr_msgq d = Some q" "length q < td_max_msgs d"
    and eq: "Some (dev', r) = Some (if td_wr_buffer_idx d = 0 \<or> td_skip_msg_wr d
       then dev\<lparr>dv_data := d\<lparr>td_rd_buffer_idx := 0, td_wr_buffer_idx := 0\<rparr>\<rparr>
       else dev\<lparr>dv_data := d\<lparr>td_target_wr_msg := (td_target_wr_msg d)\<lparr>pk_msg_length := td_wr_buffer_idx d\<rparr>,
            td_target_wr_msgq := Some (q @ [(td_target_wr_msg d)\<lparr>pk_msg_length := td_wr_buffer_idx d\<rparr>]),
            td_rd_buffer_idx := 0, td_wr_buffer_idx := 0\<rparr>,
          dv_is_register := (length q + 1 < td_max_msgs d)\<rparr>, 0)"
    using assms(4) by auto
  have inv: "data_inv d" using assms(1) dd by (simp add: target_inv_def)
  note keep = data_inv_stop [OF inv q]
  show ?thesis
  proof (cases "td_wr_buffer_idx d = 0 \<or> td_skip_msg_wr d")
    case True
    with eq have "dev' = dev\<lparr>dv_data := d\<lparr>td_rd_buffer_idx := 0, td_wr_buffer_idx := 0\<rparr>\<rparr>" by simp
    then show ?thesis using keep(1) dd by (simp add: target_inv_data [OF assms(1)])
  next
    case False
    with eq keep(2) q assms(1,3) dd show ?thesis by (simp add: target_inv_def)
  qed
qed

text \<open>In an environment that may refuse to unregister, a full target can stay registered; the rest of the invariant holds.\<close>

lemma data_inv_push:
  assumes "data_inv d" and "td_target_wr_msgq d = Some q" and "length q < td_max_msgs d"
    and "m = (td_target_wr_msg d)\<lparr>pk_msg_length := td_wr_buffer_idx d\<rparr>"
  shows "data_inv (d\<lparr>td_target_wr_msg := m, td_target_wr_msgq := Some (q @ [m]), td_rd_buffer_idx := 0, td_wr_buffer_idx := 0\<rparr>)"
  unfolding assms(4) by (rule data_inv_stop(2) [OF assms(1-3)])

lemma unregister_shape:
  "\<exists>b. fst (do_i2c_target_unregister env n dev) = dev\<lparr>dv_is_register := b\<rparr> \<and> (b \<longrightarrow> dv_is_register dev)"
proof (cases "snd (do_i2c_target_unregister env n dev) = 0")
  case True
  then show ?thesis by (intro exI [of _ False]) (auto simp: unregister_cases I2C_TARGET_API_BUS_GET_FAIL_def split: if_splits)
next
  case False
  then show ?thesis by (intro exI [of _ "dv_is_register dev"]) (auto simp: unregister_cases split: if_splits)
qed

lemma stop_inv_any:
  assumes "target_inv False bus dev" and "dv_is_register dev" and "i2c_target_stop env c dev = Some (dev', r)"
  shows "target_inv False bus dev'"
proof -
  obtain d where d: "i2c_find_slave_config env dev c = Some d"
    using assms(3) by (auto simp: i2c_target_stop_def split: option.splits)
  note dd = find_slave_data [OF d]
  have inv: "data_inv d" using assms(1) dd by (simp add: target_inv_def)
  obtain q where q: "td_target_wr_msgq d = Some q" using assms(1,2) dd by (auto simp: target_inv_def)
  let ?m = "(td_target_wr_msg d)\<lparr>pk_msg_length := td_wr_buffer_idx d\<rparr>"
  let ?clean = "\<lambda>d. d\<lparr>td_rd_buffer_idx := 0, td_wr_buffer_idx := 0\<rparr>"
  let ?d' = "d\<lparr>td_target_wr_msg := ?m, td_target_wr_msgq := Some (q @ [?m])\<rparr>"
  have used: "queue_used d = length q" using q by (simp add: queue_used_def)
  consider "dev' = dev\<lparr>dv_data := ?clean d\<rparr>" | "dev' = dev\<lparr>dv_data := ?clean (d\<lparr>td_target_wr_msg := ?m\<rparr>)\<rparr>"
    | b where "length q < td_max_msgs d" "dev' = dev\<lparr>dv_data := ?clean ?d', dv_is_register := b\<rparr>" "b \<longrightarrow> dv_is_register dev"
  proof -
    show thesis
    proof (cases "td_wr_buffer_idx d = 0 \<or> td_skip_msg_wr d \<or> td_max_msgs d \<le> length q")
      case True
      then show thesis using assms(3) d dd that(1,2) used
        by (auto simp: i2c_target_stop_def Let_def queue_used_def split: if_splits)
    next
      case False
      let ?dev = "dev\<lparr>dv_data := ?d'\<rparr>"
      obtain b where u: "fst (do_i2c_target_unregister env (td_i2c_bus d) ?dev) = ?dev\<lparr>dv_is_register := b\<rparr>"
        "b \<longrightarrow> dv_is_register dev" using unregister_shape [of env "td_i2c_bus d" ?dev] by auto
      have "dev' = (if td_max_msgs d \<le> Suc (length q) then ?dev\<lparr>dv_data := ?clean ?d', dv_is_register := b\<rparr>
          else ?dev\<lparr>dv_data := ?clean ?d', dv_is_register := dv_is_register dev\<rparr>)"
        using assms(3) False d dd q u(1)
        by (cases "td_max_msgs d \<le> Suc (length q)") (auto simp: i2c_target_stop_def Let_def queue_used_def)
      then show thesis using False that(3) [of "if td_max_msgs d \<le> Suc (length q) then b else dv_is_register dev"] u(2)
        by (simp split: if_splits)
    qed
  qed
  then show ?thesis
  proof cases
    case 1
    then show ?thesis using data_inv_simps inv dd by (simp add: target_inv_data [OF assms(1)] data_inv_def queue_used_def)
  next
    case 2
    moreover have "data_inv (?clean (d\<lparr>td_target_wr_msg := ?m\<rparr>))" using inv by (simp add: data_inv_def queue_used_def)
    ultimately show ?thesis using dd by (simp add: target_inv_data [OF assms(1)])
  next
    case 3
    from data_inv_push [OF inv q 3(1) refl] show ?thesis using 3 assms(1,2) dd by (simp add: target_inv_def)
  qed
qed

lemma stop_inv:
  assumes "target_inv rm bus dev" and "rm \<longrightarrow> env_ok env" and "dv_is_register dev" and "i2c_target_stop env c dev = Some (dev', r)"
  shows "target_inv rm bus dev'"
  using assms stop_inv_room stop_inv_any by (cases rm) auto

lemma register_inv:
  assumes "target_inv rm bus dev" and "dv_is_init dev \<longrightarrow> td_target_wr_msgq (dv_data dev) \<noteq> None"
  shows "target_inv rm bus (fst (do_i2c_target_register env bus dev))"
  using assms by (auto simp: register_cases target_inv_def)

lemma unregister_inv:
  "target_inv rm bus dev \<Longrightarrow> target_inv rm bus (fst (do_i2c_target_unregister env b dev))"
  by (auto simp: unregister_cases target_inv_def)

lemma pop_inv:
  assumes "target_inv rm bus dev" and "td_target_wr_msgq (dv_data dev) = Some (m # q)"
  shows "target_inv rm bus (dev\<lparr>dv_data := (dv_data dev)\<lparr>td_target_wr_msgq := Some q\<rparr>\<rparr>)"
  using assms data_inv_queue(3) [OF _ assms(2)] by (auto simp: target_inv_def queue_used_def)

lemma read_inv:
  assumes "target_inv rm bus dev" and "multi_bus_i2c_target_read env bus n forever dev = Some (dev', r, buff)"
  shows "target_inv rm bus dev'"
proof (cases "status_fails (i2c_target_status_get env bus dev) \<or> queued dev = []")
  case True
  with assms show ?thesis
    by (auto simp: multi_bus_i2c_target_read_def queued_def split: option.splits if_splits)
next
  case False
  then obtain m q where q: "td_target_wr_msgq (dv_data dev) = Some (m # q)"
    by (auto simp: queued_def neq_Nil_conv split: option.splits)
  let ?dev = "dev\<lparr>dv_data := (dv_data dev)\<lparr>td_target_wr_msgq := Some q\<rparr>\<rparr>"
  have "dev' = ?dev \<or> dev' = fst (do_i2c_target_register env bus ?dev)"
    using assms(2) False q
    by (auto simp: multi_bus_i2c_target_read_def Let_def split: if_splits prod.splits)
  then show ?thesis
    using pop_inv [OF assms(1) q] register_inv [of rm bus ?dev env] by auto
qed

lemma set_rd_inv:
  assumes "target_inv rm bus dev" and "unat n \<le> length buff" and "i2c_target_write env bus buff n dev = (dev', r)"
  shows "target_inv rm bus dev'"
proof -
  let ?n = "if unat n > MAX_I2C_TARGET_BUFF then 256 else n"
  have "unat ?n \<le> 256" "length (take (unat ?n) buff) \<le> 256" by (auto simp: target_consts min_def)
  then have "pkg_ok \<lparr>pk_msg_length = ?n, pk_msg = memcpy_at 0 (take (unat ?n) buff) (pk_msg p)\<rparr>" if "pkg_ok p" for p
    using that by (simp add: pkg_ok_def target_consts del: length_take)
  then have "data_inv d \<Longrightarrow> data_inv (d\<lparr>td_target_rd_msg := \<lparr>pk_msg_length = ?n,
      pk_msg = memcpy_at 0 (take (unat ?n) buff) (pk_msg (td_target_rd_msg d))\<rparr>\<rparr>)" for d
    by (simp add: data_inv_def)
  then have "data_inv (dv_data dev) \<Longrightarrow> data_inv ((dv_data dev)\<lparr>td_target_rd_msg := \<lparr>pk_msg_length = ?n,
      pk_msg = memcpy_at 0 (take (unat ?n) buff) (pk_msg (td_target_rd_msg (dv_data dev)))\<rparr>\<rparr>)" .
  moreover have "dev' = dev \<or> dev' = dev\<lparr>dv_data := (dv_data dev)\<lparr>td_target_rd_msg := \<lparr>pk_msg_length = ?n,
      pk_msg = memcpy_at 0 (take (unat ?n) buff) (pk_msg (td_target_rd_msg (dv_data dev)))\<rparr>\<rparr>\<rparr>"
    using assms(3) unfolding i2c_target_write_def Let_def by (auto split: if_splits)
  ultimately show ?thesis
    using assms(1) by (elim disjE) (simp_all add: target_inv_def del: if_split)
qed

lemma cfg_data_inv:
  assumes "data_inv d"
  shows "data_inv (target_cfg_data env bus ni cfg d)"
    and "data_inv ((target_cfg_data env bus ni cfg d)\<lparr>td_target_wr_msgq := Some [], td_max_msgs := n\<rparr>)"
    and "td_i2c_bus (target_cfg_data env bus ni cfg d) = (if ni then bus else td_i2c_bus d)"
proof -
  show *: "data_inv (target_cfg_data env bus ni cfg d)"
    using assms data_inv_queue(1) [OF assms] by (simp add: target_cfg_data_def Let_def)
  show "data_inv ((target_cfg_data env bus ni cfg d)\<lparr>td_target_wr_msgq := Some [], td_max_msgs := n\<rparr>)"
    by (rule data_inv_queue(2) [OF *])
qed (simp add: target_cfg_data_def Let_def)

lemma cfg_inv:
  assumes inv: "target_inv rm bus dev" and cfg: "do_i2c_target_cfg env bus cfg dev = (dev', r)"
  shows "target_inv rm bus dev' \<and> (r = 0 \<longrightarrow> td_target_wr_msgq (dv_data dev') = Some [])"
proof (cases "unat bus < MAX_TARGET_NUM \<and> te_ctrl env")
  case False
  then show ?thesis using inv cfg
    by (auto simp: do_i2c_target_cfg_def Let_def status_bits(2) I2C_TARGET_API_BUS_GET_FAIL_def)
next
  case True
  have inv': "data_inv (dv_data dev)" using inv by (simp add: target_inv_def)
  have b: "unat bus < MAX_TARGET_NUM" and te: "te_ctrl env" using True by simp_all
  have ni: "(i2c_target_status_get env bus dev AND I2C_TARGET_NOT_INIT \<noteq> 0) = (\<not> dv_is_init dev)"
    using status_bits(4) [OF b te, of dev] by simp
  have st: "\<not> (i2c_target_status_get env bus dev AND (I2C_TARGET_BUS_INVALID OR I2C_TARGET_CONTROLLER_ERR) \<noteq> 0)"
    using True te by (simp add: status_bits(2))
  note d = cfg_data_inv [OF inv', where env = env and bus = bus and ni = "\<not> dv_is_init dev" and cfg = cfg]
  show ?thesis
    using cfg inv b te d inv'
    unfolding do_i2c_target_cfg_def Let_def if_not_P [OF st] ni status_bits(3) [OF b te] unregister_cases
    by (auto simp: target_inv_def I2C_TARGET_API_BUS_GET_FAIL_def I2C_TARGET_API_LOCK_ERR_def
        I2C_TARGET_API_MEMORY_ERR_def split: if_splits)
qed

lemma control_inv:
  assumes inv: "target_inv rm bus dev" and c: "i2c_target_control env bus cfg mode dev = (dev', r)"
  shows "target_inv rm bus dev'"
proof (cases mode)
  case I2C_CONTROL_REGISTER
  obtain d1 r1 where 1: "do_i2c_target_cfg env bus cfg dev = (d1, r1)" by force
  note cf = cfg_inv [OF inv 1]
  then have "target_inv rm bus (fst (do_i2c_target_register env bus d1))" if "r1 = 0"
    using that register_inv [of rm bus d1 env] by simp
  moreover have "dev' = dev \<or> dev' = d1 \<or> r1 = 0 \<and> dev' = fst (do_i2c_target_register env bus d1)"
    using c I2C_CONTROL_REGISTER 1 by (auto simp: i2c_target_control_def split: if_splits)
  ultimately show ?thesis using inv cf by auto
next
  case I2C_CONTROL_UNREGISTER
  then have "dev' = dev \<or> dev' = fst (do_i2c_target_unregister env bus dev)"
    using c by (auto simp: i2c_target_control_def split: if_splits)
  then show ?thesis using inv unregister_inv by auto
next
  case I2C_CONTROL_MAX
  then show ?thesis using inv c by (auto simp: i2c_target_control_def split: if_splits)
qed

lemma target_step_inv:
  assumes "target_step E hk bus dev dev'" and "\<And>env. E env \<Longrightarrow> rm \<Longrightarrow> env_ok env" and "hooks_ok hk" and "target_inv rm bus dev"
  shows "target_inv rm bus dev'"
  using assms
proof (induction rule: target_step.induct)
  case (wreq env dev c dev' r)
  then show ?case by (blast intro: write_requested_inv)
next
  case (wrcv env dev c v dev' r)
  then show ?case by (blast intro: write_received_inv)
next
  case (rreq env dev c dev' r b)
  then show ?case by (blast intro: read_requested_inv)
next
  case (rproc env dev c dev' r b)
  then show ?case by (blast intro: read_processed_inv)
next
  case (stop env dev c dev' r)
  then show ?case by (blast intro: stop_inv)
next
  case (read env n forever dev dev' r buff)
  then show ?case by (blast intro: read_inv)
next
  case (set_rd env n buff dev dev' r)
  then show ?case by (blast intro: set_rd_inv)
next
  case (control env cfg mode dev dev' r)
  then show ?case by (blast intro: control_inv)
qed

lemma target_zero_inv: "target_inv rm bus target_zero"
  by (simp add: target_zero_def tinv_defs queue_used_def)

lemma target_reach_inv:
  assumes "(target_step E hk bus)\<^sup>*\<^sup>* target_zero dev" and "\<And>env. E env \<Longrightarrow> rm \<Longrightarrow> env_ok env" and "hooks_ok hk"
  shows "target_inv rm bus dev"
  using assms(1)
  by (induction rule: rtranclp_induct) (use target_zero_inv target_step_inv [OF _ assms(2,3)] in blast)+

text \<open>
  A bounded first-in first-out channel of messages: what the clients of the target (the SMBus
  binding of MCTP, SSIF) rely on.
\<close>

locale message_fifo =
  fixes good :: "'s \<Rightarrow> bool"
    and send :: "bytes \<Rightarrow> 's \<Rightarrow> 's"
    and recv :: "'s \<Rightarrow> 's \<times> bytes"
    and contents :: "'s \<Rightarrow> bytes list"
    and room :: "'s \<Rightarrow> nat"
    and mtu :: nat
  assumes send_good: "good s \<Longrightarrow> 0 < room s \<Longrightarrow> b \<noteq> [] \<Longrightarrow> length b \<le> mtu \<Longrightarrow> good (send b s)"
    and send_contents: "good s \<Longrightarrow> 0 < room s \<Longrightarrow> b \<noteq> [] \<Longrightarrow> length b \<le> mtu \<Longrightarrow>
      contents (send b s) = contents s @ [b]"
    and send_room: "good s \<Longrightarrow> 0 < room s \<Longrightarrow> b \<noteq> [] \<Longrightarrow> length b \<le> mtu \<Longrightarrow> room (send b s) + 1 = room s"
    and recv_good: "good s \<Longrightarrow> contents s \<noteq> [] \<Longrightarrow> good (fst (recv s))"
    and recv_contents: "good s \<Longrightarrow> contents s = b # bs \<Longrightarrow> snd (recv s) = b \<and> contents (fst (recv s)) = bs"
    and recv_room: "good s \<Longrightarrow> contents s \<noteq> [] \<Longrightarrow> room (fst (recv s)) = room s + 1"
begin

lemma fold_send:
  assumes "good s" and "length ms \<le> room s" and "\<forall>m \<in> set ms. m \<noteq> [] \<and> length m \<le> mtu"
  shows "good (fold send ms s) \<and> contents (fold send ms s) = contents s @ ms \<and> room (fold send ms s) + length ms = room s"
  using assms
proof (induction ms arbitrary: s)
  case (Cons m ms)
  then have m: "0 < room s" "m \<noteq> []" "length m \<le> mtu" by auto
  note step = send_good [OF Cons.prems(1) m] send_contents [OF Cons.prems(1) m] send_room [OF Cons.prems(1) m]
  from Cons.IH [OF step(1)] Cons.prems step(2,3) show ?case by auto
qed simp

lemma recv_all_contents:
  "good s \<Longrightarrow> n \<le> length (contents s) \<Longrightarrow> snd (recv_all recv n s) = take n (contents s)"
proof (induction n arbitrary: s)
  case (Suc n)
  then obtain b bs where c: "contents s = b # bs" by (cases "contents s") auto
  note r = recv_contents [OF Suc.prems(1) c] recv_good [OF Suc.prems(1)]
  have "snd (recv_all recv n (fst (recv s))) = take n bs" using Suc c r by auto
  then show ?case using c r by (auto split: prod.split)
qed simp

lemma fifo_order:
  assumes "good s" and "contents s = []" and "length ms \<le> room s" and "\<forall>m \<in> set ms. m \<noteq> [] \<and> length m \<le> mtu"
  shows "snd (recv_all recv (length ms) (fold send ms s)) = ms"
  using recv_all_contents [of "fold send ms s" "length ms"] fold_send [OF assms(1,3,4)] assms(2) by simp

lemma send_recv:
  assumes "good s" and "contents s = []" and "0 < room s" and "b \<noteq> []" and "length b \<le> mtu"
  shows "snd (recv (send b s)) = b" "good (fst (recv (send b s)))" "contents (fst (recv (send b s))) = []"
    "room (fst (recv (send b s))) = room s"
  using send_good [OF assms(1,3-5)] send_contents [OF assms(1,3-5)] send_room [OF assms(1,3-5)]
    recv_contents [of "send b s" b "[]"] recv_good [of "send b s"] recv_room [of "send b s"] assms(2) by auto

end

lemma bus_bytes_prefix:
  assumes "received_prefix us d0 (dv_data dev)" and "td_post_wr_rcv_func d0 = None" and "length us + length vs \<le> 256"
  shows "\<exists>d. bus_bytes env hk config vs dev = Some (dev\<lparr>dv_data := d\<rparr>) \<and> received_prefix (us @ vs) d0 d"
  using assms
proof (induction vs arbitrary: us dev)
  case Nil
  then show ?case by (intro exI [of _ "dv_data dev"]) simp
next
  case (Cons v vs)
  let ?d = "dv_data dev"
  have idx: "unat (td_wr_buffer_idx ?d) = length us" "length us < 256" "length (pk_msg (td_target_wr_msg ?d)) = 256"
    using Cons.prems by (auto simp: received_prefix_def data_inv_def target_consts)
  have inv: "data_inv ?d" using Cons.prems(1) by (simp add: received_prefix_def)
  note st = store_byte_keeps [OF inv, of v]
  have "take (length us + 1) (pk_msg (td_target_wr_msg (store_byte v ?d))) = us @ [v]"
    using Cons.prems(1) idx by (simp add: store_byte_def received_prefix_def take_Suc_conv_app_nth)
  then have rp: "received_prefix (us @ [v]) d0 (store_byte v ?d)"
    using Cons.prems(1) st idx by (simp add: received_prefix_def) (simp add: store_byte_def)
  have rcv: "i2c_target_write_received env hk config v dev = Some (dev\<lparr>dv_data := store_byte v ?d\<rparr>, 0)"
    using idx Cons.prems(1,2)
    by (simp add: write_received_eq post_wr_rcv_def do_something_after_wr_rcv_def received_prefix_def store_byte_def)
  from Cons.IH [of "us @ [v]" "dev\<lparr>dv_data := store_byte v ?d\<rparr>"] rp Cons.prems(2,3) rcv show ?case by auto
qed

lemma bus_write_enqueues:
  assumes good: "target_good bus dev" and env: "env_ok env" and room: "queue_used (dv_data dev) < td_max_msgs (dv_data dev)"
    and vs: "vs \<noteq> []" "length vs \<le> 256"
  shows "\<exists>dev' p. bus_write env hk config vs dev = Some (dev', 0) \<and> target_good bus dev'
    \<and> queued dev' = queued dev @ [p] \<and> pkg_bytes p = vs \<and> td_max_msgs (dv_data dev') = td_max_msgs (dv_data dev)
    \<and> td_address (dv_data dev') = td_address (dv_data dev)"
proof -
  let ?d0 = "(dv_data dev)\<lparr>td_req_address := td_address (dv_data dev) AND 0xFF,
          td_target_wr_msg := \<lparr>pk_msg_length = 0, pk_msg = zeros 256\<rparr>,
          td_wr_buffer_idx := 0, td_skip_msg_wr := False\<rparr>"
  let ?dev1 = "dev\<lparr>dv_data := ?d0\<rparr>"
  have wq: "i2c_target_write_requested env config dev = Some (?dev1, 0)"
    by (simp add: i2c_target_write_requested_def config_address_def target_consts)
  have inv: "target_inv True bus dev" using good by (simp add: target_good_def)
  have inv1: "target_inv True bus ?dev1" by (rule write_requested_inv [OF inv wq])
  then have "received_prefix [] ?d0 (dv_data ?dev1)" by (simp add: received_prefix_def target_inv_def)
  from bus_bytes_prefix [OF this, of vs env hk] vs good obtain d where
    bb: "bus_bytes env hk config vs ?dev1 = Some (dev\<lparr>dv_data := d\<rparr>)" and rp: "received_prefix vs ?d0 d"
    by (auto simp: target_good_def)
  let ?dev2 = "dev\<lparr>dv_data := d\<rparr>"
  have inv2: "target_inv True bus ?dev2"
    using target_inv_data [OF inv, of d] rp by (simp add: received_prefix_def)
  have reg: "dv_is_register ?dev2" using good room by (simp add: target_good_def)
  obtain q where q: "td_target_wr_msgq d = Some q" "length q < td_max_msgs d"
    and stop: "i2c_target_stop env config ?dev2 = Some
      (if td_wr_buffer_idx d = 0 \<or> td_skip_msg_wr d
       then ?dev2\<lparr>dv_data := d\<lparr>td_rd_buffer_idx := 0, td_wr_buffer_idx := 0\<rparr>\<rparr>
       else ?dev2\<lparr>dv_data := d\<lparr>td_target_wr_msg := (td_target_wr_msg d)\<lparr>pk_msg_length := td_wr_buffer_idx d\<rparr>,
            td_target_wr_msgq := Some (q @ [(td_target_wr_msg d)\<lparr>pk_msg_length := td_wr_buffer_idx d\<rparr>]),
            td_rd_buffer_idx := 0, td_wr_buffer_idx := 0\<rparr>,
          dv_is_register := (length q + 1 < td_max_msgs d)\<rparr>, 0)"
    using stop_eq [OF inv2 env reg, of config d] by auto
  have nz: "\<not> (td_wr_buffer_idx d = 0 \<or> td_skip_msg_wr d)"
    using rp vs(1) by (auto simp: received_prefix_def)
  note stop' = stop [unfolded if_not_P [OF nz]]
  let ?p = "(td_target_wr_msg d)\<lparr>pk_msg_length := td_wr_buffer_idx d\<rparr>"
  let ?dev3 = "?dev2\<lparr>dv_data := d\<lparr>td_target_wr_msg := ?p, td_target_wr_msgq := Some (q @ [?p]),
            td_rd_buffer_idx := 0, td_wr_buffer_idx := 0\<rparr>, dv_is_register := (length q + 1 < td_max_msgs d)\<rparr>"
  have inv3: "target_inv True bus ?dev3" by (rule stop_inv_room [OF inv2 env reg stop'])
  have "bus_write env hk config vs dev = Some (?dev3, 0)" by (simp add: bus_write_def wq bb stop')
  moreover have "target_good bus ?dev3"
    using inv3 good rp by (simp add: target_good_def received_prefix_def)
  moreover have "queued ?dev3 = queued dev @ [?p]" "pkg_bytes ?p = vs"
    "td_max_msgs (dv_data ?dev3) = td_max_msgs (dv_data dev)" "td_address (dv_data ?dev3) = td_address (dv_data dev)"
    using q rp by (auto simp: queued_def received_prefix_def pkg_bytes_def split: option.splits)
  ultimately show ?thesis by blast
qed

lemma read_dequeues:
  assumes good: "target_good bus dev" and env: "env_ok env" "te_slave_register env = 0" and q: "queued dev = p # q"
  shows "\<exists>dev'. i2c_target_read env bus 256 dev = Some (dev', 0, pkg_bytes p) \<and> target_good bus dev'
    \<and> queued dev' = q \<and> td_max_msgs (dv_data dev') = td_max_msgs (dv_data dev)
    \<and> td_address (dv_data dev') = td_address (dv_data dev)"
proof -
  let ?d = "(dv_data dev)\<lparr>td_target_wr_msgq := Some q\<rparr>"
  let ?dev1 = "dev\<lparr>dv_data := ?d\<rparr>"
  have g: "target_inv True bus dev" "dv_is_init dev" "td_post_wr_rcv_func (dv_data dev) = None"
    "dv_is_register dev = (queue_used (dv_data dev) < td_max_msgs (dv_data dev))"
    using good by (auto simp: target_good_def)
  have mq: "td_target_wr_msgq (dv_data dev) = Some (p # q)"
    using q by (auto simp: queued_def split: option.splits)
  have used: "queue_used (dv_data dev) = length q + 1" using mq by (simp add: queue_used_def)
  have bus: "unat bus < MAX_TARGET_NUM" using g(1,2) by (simp add: target_inv_def)
  have ok: "pkg_ok p" "length q + 1 \<le> td_max_msgs (dv_data dev)"
    using g(1) mq used by (auto simp: target_inv_def data_inv_def)
  have buff: "(if 256 < pk_msg_length p then take (unat (256 :: u16)) (pk_msg p)
      else take (unat (pk_msg_length p)) (pk_msg p)) = pkg_bytes p"
    using ok(1) by (auto simp: pkg_ok_def pkg_bytes_def target_consts word_less_nat_alt)
  have st: "\<not> status_fails (i2c_target_status_get env bus dev)" 
    using status_bits(1) [of env bus dev] bus g(2) env(1) by (simp add: env_ok_def)
  let ?dev2 = "if length q + 1 = td_max_msgs (dv_data dev) then ?dev1\<lparr>dv_is_register := True\<rparr> else ?dev1"
  have reg: "do_i2c_target_register env bus ?dev1 = (?dev1\<lparr>dv_is_register := True\<rparr>, 0)"
    if "length q + 1 = td_max_msgs (dv_data dev)"
    using that g used bus env by (simp add: register_cases env_ok_def)
  have "i2c_target_read env bus 256 dev = Some (?dev2, 0, pkg_bytes p)"
    unfolding i2c_target_read_def multi_bus_i2c_target_read_def if_not_P [OF st] mq Let_def option.case list.case buff
    using reg by (auto simp: I2C_TARGET_API_NO_ERR_def)
  moreover have "target_inv True bus ?dev2"
    using pop_inv [OF g(1) mq] g(2) ok(2) by (auto simp: target_inv_def)
  moreover have "dv_is_register ?dev2 = (length q < td_max_msgs (dv_data dev))"
    using g(4) used ok(2) by auto
  ultimately show ?thesis
    using g ok(2) by (intro exI [of _ ?dev2]) (auto simp: target_good_def queued_def split: if_splits)
qed

lemma nominal_env_ok [simp]: "env_ok nominal_env" "te_slave_register nominal_env = 0"
  by (simp_all add: env_ok_def nominal_env_def)

lemma no_hooks_ok: "hooks_ok no_hooks"
  by (simp add: hooks_ok_def no_hooks_def)

lemma length_queued: "length (queued dev) = queue_used (dv_data dev)"
  by (simp add: queued_def queue_used_def split: option.split)

lemma target_send_enqueues:
  assumes "target_good bus dev" and "0 < target_room dev" and "b \<noteq> []" and "length b \<le> 256"
  shows "target_good bus (target_send nominal_env hk b dev)"
    "target_contents (target_send nominal_env hk b dev) = target_contents dev @ [b]"
    "target_room (target_send nominal_env hk b dev) + 1 = target_room dev"
    "td_address (dv_data (target_send nominal_env hk b dev)) = td_address (dv_data dev)"
proof -
  obtain dev' p where d: "bus_write nominal_env hk config b dev = Some (dev', 0)" "target_good bus dev'"
    "queued dev' = queued dev @ [p]" "pkg_bytes p = b" "td_max_msgs (dv_data dev') = td_max_msgs (dv_data dev)"
    "td_address (dv_data dev') = td_address (dv_data dev)"
    using bus_write_enqueues [OF assms(1) nominal_env_ok(1) _ assms(3,4), of hk] assms(2)
    by (auto simp: target_room_def)
  then have "queue_used (dv_data dev') = queue_used (dv_data dev) + 1"
    by (simp flip: length_queued)
  with d assms(2) show "target_good bus (target_send nominal_env hk b dev)"
    "target_contents (target_send nominal_env hk b dev) = target_contents dev @ [b]"
    "target_room (target_send nominal_env hk b dev) + 1 = target_room dev"
    "td_address (dv_data (target_send nominal_env hk b dev)) = td_address (dv_data dev)"
    by (simp_all add: target_send_def target_contents_def target_room_def)
qed

lemma target_recv_dequeues:
  assumes "target_good bus dev" and "target_contents dev = b # bs"
  shows "target_good bus (fst (target_recv nominal_env bus dev))"
    "snd (target_recv nominal_env bus dev) = b \<and> target_contents (fst (target_recv nominal_env bus dev)) = bs"
    "target_room (fst (target_recv nominal_env bus dev)) = target_room dev + 1"
    "td_address (dv_data (fst (target_recv nominal_env bus dev))) = td_address (dv_data dev)"
proof -
  obtain p q where pq: "queued dev = p # q" "pkg_bytes p = b" "map pkg_bytes q = bs"
    using assms(2) by (auto simp: target_contents_def)
  obtain dev' where d: "i2c_target_read nominal_env bus 256 dev = Some (dev', 0, pkg_bytes p)"
    "target_good bus dev'" "queued dev' = q" "td_max_msgs (dv_data dev') = td_max_msgs (dv_data dev)"
    "td_address (dv_data dev') = td_address (dv_data dev)"
    using read_dequeues [OF assms(1) nominal_env_ok pq(1)] by auto
  have "queue_used (dv_data dev) = queue_used (dv_data dev') + 1"
    using d(3) pq(1) by (simp flip: length_queued)
  moreover have "queue_used (dv_data dev) \<le> td_max_msgs (dv_data dev)"
    using assms(1) by (simp add: target_good_def target_inv_def data_inv_def)
  ultimately show "target_good bus (fst (target_recv nominal_env bus dev))"
    "snd (target_recv nominal_env bus dev) = b \<and> target_contents (fst (target_recv nominal_env bus dev)) = bs"
    "target_room (fst (target_recv nominal_env bus dev)) = target_room dev + 1"
    "td_address (dv_data (fst (target_recv nominal_env bus dev))) = td_address (dv_data dev)"
    using d pq by (auto simp: target_recv_def target_contents_def target_room_def)
qed

interpretation target: message_fifo "target_good bus" "target_send nominal_env hk"
    "target_recv nominal_env bus" target_contents target_room 256
  for bus hk
proof unfold_locales
  show "target_good bus (fst (target_recv nominal_env bus s))" "target_room (fst (target_recv nominal_env bus s)) = target_room s + 1"
    if "target_good bus s" "target_contents s \<noteq> []" for s
    using that target_recv_dequeues [OF that(1)] by (auto simp: neq_Nil_conv)
qed (use target_send_enqueues(1-3) target_recv_dequeues(2) in blast)+

lemma demo_target_good: "target_good 3 demo_target" "target_contents demo_target = []" "target_room demo_target = 2"
  by (simp_all add: demo_target_def demo_target_cfg_def nominal_env_def target_zero_def i2c_target_control_def
      do_i2c_target_cfg_def target_cfg_data_def i2c_target_status_get_def do_i2c_target_register_def
      target_good_def target_inv_def data_inv_def pkg_ok_def target_consts queue_used_def Let_def
      target_contents_def queued_def target_room_def)

text \<open>
  (C23) In every state the callbacks and the client calls can reach, in any order, whatever the driver and the RTOS return and with hooks of
  the platform that keep the buffers and the queue (\<open>hooks_ok\<close>): all buffer indices stay within the 256-byte buffers, the queue never exceeds its capacity, a registered target is
  initialised and has a queue. If moreover the controller is always found and \<^verbatim>\<open>i2c_slave_unregister\<close> succeeds, then a registered target
  has room for the next message: the driver is unregistered before a message could be dropped. If unregistering a target that
  has become full fails, \<^verbatim>\<open>i2c_target_stop\<close> does not notice and the target stays registered and full.
\<close>

theorem i2c_target_reach_inv:
  assumes "(target_step E hk bus)\<^sup>*\<^sup>* target_zero dev" and "hooks_ok hk"
  shows "target_inv False bus dev
    \<and> ((\<forall>env. E env \<longrightarrow> te_ctrl env \<and> te_slave_unregister env = 0) \<longrightarrow> target_inv True bus dev)"
proof (intro conjI impI)
  show "target_inv False bus dev" by (rule target_reach_inv [OF assms(1) _ assms(2)]) simp
  show "target_inv True bus dev" if "\<forall>env. E env \<longrightarrow> te_ctrl env \<and> te_slave_unregister env = 0"
    by (rule target_reach_inv [OF assms(1) _ assms(2)]) (use that in \<open>simp add: env_ok_def\<close>)
qed

theorem i2c_target_reach_inv_witness: "target_inv True 3 demo_target"
proof -
  have "target_step (\<lambda>env. env = nominal_env) no_hooks 3 target_zero demo_target"
    unfolding demo_target_def
    by (rule target_step.control [of _ nominal_env 3 demo_target_cfg I2C_CONTROL_REGISTER])
      (rule refl, rule prod.collapse [symmetric])
  then show ?thesis using i2c_target_reach_inv [OF r_into_rtranclp no_hooks_ok] by (simp add: nominal_env_def)
qed

text \<open>
  (C13) The target is a first-in first-out channel: the messages of any sequence of write transfers
  that fits the queue are read back by \<^verbatim>\<open>i2c_target_read\<close> in the order they were sent, byte for byte.
\<close>

theorem i2c_target_fifo:
  assumes "target_good bus dev" and "target_contents dev = []" and "length ms \<le> target_room dev"
    and "\<forall>m \<in> set ms. m \<noteq> [] \<and> length m \<le> 256"
  shows "snd (recv_all (target_recv nominal_env bus) (length ms) (fold (target_send nominal_env hk) ms dev)) = ms"
  by (rule target.fifo_order [OF assms])

theorem i2c_target_fifo_witness:
  "snd (recv_all (target_recv nominal_env 3) 2 (fold (target_send nominal_env no_hooks) [[1, 2], [3]] demo_target))
   = [[1, 2], [3]]"
  using i2c_target_fifo [OF demo_target_good(1,2), of "[[1, 2], [3]]" no_hooks] demo_target_good(3)
  by (simp add: numeral_2_eq_2)

end
