(* ===== verification/Mctp_Smbus.thy ===== *)
theory Mctp_Smbus
  imports Mctp_Transfer Hal_I2c Hal_I2c_Target
begin

text \<open>
  The SMBus binding of MCTP, \<^verbatim>\<open>src/common/service/mctp/mctp_smbus.c\<close>: framing of a packet with
  command code, byte count, source address and packet error code, and its inverse on the
  receiving side. Zephyr's \<^verbatim>\<open>crc8\<close> (polynomial 0x07) is the argument \<open>crc8\<close>; nothing is assumed of it.

  \<open>smbus_link\<close> composes the whole path of a packet: the binding and \<open>i2c_master_write\<close> on the
  sender, the byte callbacks, queue and \<open>i2c_target_read\<close> of the receiver's target driver, and the
  binding's read function. It interprets the interface \<open>lossless_medium\<close> of the transport.
\<close>

section \<open>Definitions\<close>

definition MCTP_SMBUS_CMD_CODE :: u8 where "MCTP_SMBUS_CMD_CODE = 0x0F"
definition MCTP_SMBUS_WRITE_MAX_RETRY :: nat where "MCTP_SMBUS_WRITE_MAX_RETRY = 1"

record smbus_hdr =
  sh_cmd_code :: u8
  sh_byte_count :: u8
  sh_src_addr :: u8

definition smbus_hdr_of :: "bytes \<Rightarrow> smbus_hdr" where
  "smbus_hdr_of bs = \<lparr>sh_cmd_code = nth0 bs 0, sh_byte_count = nth0 bs 1, sh_src_addr = nth0 bs 2\<rparr>"

definition smbus_hdr_bytes :: "smbus_hdr \<Rightarrow> bytes" where
  "smbus_hdr_bytes h = [sh_cmd_code h, sh_byte_count h, sh_src_addr h]"

text \<open>\<open>None\<close> is the result \<^verbatim>\<open>MCTP_ERROR\<close>.\<close>

definition cal_pec :: "(bytes \<Rightarrow> u8) \<Rightarrow> u8 \<Rightarrow> bytes \<Rightarrow> nat \<Rightarrow> u8 option" where
  "cal_pec crc8 dest_addr buf len =
     (if len = 0 then None else Some (crc8 (dest_addr # take (len - 1) buf)))"

definition is_pec_vaild :: "(bytes \<Rightarrow> u8) \<Rightarrow> u8 \<Rightarrow> bytes \<Rightarrow> nat \<Rightarrow> bool" where
  "is_pec_vaild crc8 dest_addr buf len =
     (if len = 0 then False
      else case cal_pec crc8 dest_addr buf len of
        None \<Rightarrow> False
      | Some pec \<Rightarrow> pec = nth0 buf (len - 1))"

definition make_send_buf ::
  "(bytes \<Rightarrow> u8) \<Rightarrow> mctp \<Rightarrow> nat \<Rightarrow> bytes \<Rightarrow> mctp_ext_params \<Rightarrow> bytes option" where
  "make_send_buf crc8 m send_len mctp_data extra =
     (if send_len = 0 \<or> mctp_data = [] then None
      else let hdr = \<lparr>sh_cmd_code = MCTP_SMBUS_CMD_CODE,
                      sh_byte_count = of_nat (1 + length mctp_data),
                      sh_src_addr = mc_addr (mi_medium_conf m) + 1\<rparr>;
               send_buf = smbus_hdr_bytes hdr @ mctp_data in
        case cal_pec crc8 (xp_addr extra) send_buf send_len of
          None \<Rightarrow> None
        | Some pec \<Rightarrow> Some (send_buf @ [pec]))"

text \<open>
  The hook against duplicated leading bytes; it is only called with at least three bytes.
\<close>

definition mctp_smbus_read_hook :: "bytes \<Rightarrow> u16 \<Rightarrow> bytes \<times> u16" where
  "mctp_smbus_read_hook data len =
     (let hdr = smbus_hdr_of data in
      if unat (sh_byte_count hdr) \<noteq> unat len - 3 then
        (if sh_byte_count hdr = 0x0F
         then (memcpy_at 0 (slice 1 (unat (len - 1)) data) data, len - 1)
         else (memcpy_at 0 (slice 2 (unat (len - 2)) data) data, len - 2))
      else (data, len))"

text \<open>
  The argument \<open>(ret, msg)\<close> is what \<open>i2c_target_read\<close> returned. The result is the bytes copied into
  the caller's buffer, empty for the return value 0; \<open>None\<close> is a copy from behind the 256-byte
  receive buffer.
\<close>

definition mctp_smbus_read ::
  "(bytes \<Rightarrow> u8) \<Rightarrow> mctp \<Rightarrow> int \<times> bytes \<Rightarrow> mctp_ext_params \<Rightarrow> (bytes \<times> mctp_ext_params) option" where
  "mctp_smbus_read crc8 m res ext =
     (case res of
        (ret, msg) \<Rightarrow>
          if ret \<noteq> 0 then Some ([], ext)
          else let rdata = msg @ zeros (256 - length msg); rlen = of_nat (length msg) :: u16 in
            if unat rlen < 3 then Some ([], ext)
            else case mctp_smbus_read_hook rdata rlen of
              (rdata, rlen) \<Rightarrow>
                let hdr = smbus_hdr_of rdata;
                    is_pec_exist = (unat (sh_byte_count hdr) + 3 = unat rlen) in
                if is_pec_exist \<and> \<not> is_pec_vaild crc8 (mc_addr (mi_medium_conf m)) rdata (unat rlen)
                then Some ([], ext)
                else if sh_cmd_code hdr \<noteq> MCTP_SMBUS_CMD_CODE then Some ([], ext)
                else let ext = ext\<lparr>xp_type := MCTP_MEDIUM_TYPE_SMBUS, xp_addr := sh_src_addr hdr - 1\<rparr>;
                         rt_size = ucast (rlen - 3 - (if is_pec_exist then 1 else 0)) :: u8 in
                  if 3 + unat rt_size > length rdata then None
                  else Some (slice 3 (unat rt_size) rdata, ext))"

fun smbus_write_loop ::
  "i2c_env \<Rightarrow> 'w i2c_write_fn \<Rightarrow> I2C_MSG \<Rightarrow> nat \<Rightarrow> 'w \<Rightarrow> ('w \<times> u16) option" where
  "smbus_write_loop env i2c_write msg 0 w = Some (w, ucast MCTP_ERROR)"
| "smbus_write_loop env i2c_write msg (Suc n) w =
     (case i2c_master_write env i2c_write w msg 5 of
        None \<Rightarrow> None
      | Some (w, status) \<Rightarrow>
          if status = 0 then Some (w, ucast MCTP_SUCCESS)
          else smbus_write_loop env i2c_write msg n w)"

text \<open>
  The bytes of the message struct behind the copied buffer are never read. \<open>None\<close> is a copy that
  does not fit the struct's 256-byte array.
\<close>

definition mctp_smbus_write ::
  "i2c_env \<Rightarrow> 'w i2c_write_fn \<Rightarrow> (bytes \<Rightarrow> u8) \<Rightarrow> mctp \<Rightarrow> 'w \<Rightarrow> bytes \<Rightarrow> mctp_ext_params
   \<Rightarrow> ('w \<times> u16) option" where
  "mctp_smbus_write env i2c_write crc8 m w buf extra =
     (if buf = [] then Some (w, ucast MCTP_ERROR)
      else if xp_type extra \<noteq> MCTP_MEDIUM_TYPE_SMBUS then Some (w, ucast MCTP_ERROR)
      else let send_len = length buf + 4 in
        case make_send_buf crc8 m send_len buf extra of
          None \<Rightarrow> Some (w, ucast MCTP_ERROR)
        | Some send_buf \<Rightarrow>
            if send_len > I2C_BUFF_SIZE then None
            else smbus_write_loop env i2c_write
                   \<lparr>i2c_bus = mc_bus (mi_medium_conf m), i2c_target_addr = drop_bit 1 (xp_addr extra),
                    i2c_rx_len = 0, i2c_tx_len = of_nat send_len,
                    i2c_data = memcpy_at 0 send_buf (zeros I2C_BUFF_SIZE)\<rparr>
                   (MCTP_SMBUS_WRITE_MAX_RETRY + 1) w)"

subsection \<open>The path of a packet\<close>

text \<open>
  The peer's target driver and the packets the peer has read so far. A transfer to another
  address is not acknowledged.
\<close>

type_synonym smbus_wire = "i2c_target_device \<times> bytes list"

definition peer_i2c_write ::
  "target_hooks \<Rightarrow> u8 \<Rightarrow> (bytes \<Rightarrow> u8) \<Rightarrow> mctp \<Rightarrow> mctp_ext_params \<Rightarrow> smbus_wire i2c_write_fn" where
  "peer_i2c_write hk bus crc8 r ext w txbuf addr =
     (case w of (dev, got) \<Rightarrow>
        if addr \<noteq> td_address (dv_data dev) then (w, -5)
        else case target_recv nominal_env bus (target_send nominal_env hk txbuf dev) of
          (dev, msg) \<Rightarrow>
            (case mctp_smbus_read crc8 r (0, msg) ext of
               None \<Rightarrow> ((dev, got), 0)
             | Some (pkt, _) \<Rightarrow> ((dev, got @ [pkt]), 0)))"

definition smbus_link ::
  "i2c_env \<Rightarrow> target_hooks \<Rightarrow> u8 \<Rightarrow> (bytes \<Rightarrow> u8) \<Rightarrow> mctp \<Rightarrow> mctp \<Rightarrow> smbus_wire \<Rightarrow> bytes
   \<Rightarrow> mctp_ext_params \<Rightarrow> smbus_wire \<times> u16" where
  "smbus_link env hk bus crc8 m r w p e =
     (case mctp_smbus_write env (peer_i2c_write hk bus crc8 r e) crc8 m w p e of
        None \<Rightarrow> (w, 1) | Some res \<Rightarrow> res)"

definition smbus_usable ::
  "i2c_env \<Rightarrow> u8 \<Rightarrow> mctp \<Rightarrow> mctp \<Rightarrow> smbus_wire \<Rightarrow> mctp_ext_params \<Rightarrow> bool" where
  "smbus_usable env bus m r w e =
     (target_good bus (fst w) \<and> target_contents (fst w) = [] \<and> 0 < target_room (fst w)
      \<and> ie_dev env (mc_bus (mi_medium_conf m)) \<and> ie_lock env \<and> ie_malloc_tx env
      \<and> xp_type e = MCTP_MEDIUM_TYPE_SMBUS \<and> xp_addr e = mc_addr (mi_medium_conf r)
      \<and> td_address (dv_data (fst w)) = drop_bit 1 (mc_addr (mi_medium_conf r)))"

subsection \<open>Reference definitions and examples\<close>

definition smbus_frame :: "(bytes \<Rightarrow> u8) \<Rightarrow> mctp \<Rightarrow> u8 \<Rightarrow> bytes \<Rightarrow> bytes" where
  "smbus_frame crc8 m dest p =
     (let b = [0x0F, of_nat (1 + length p), mc_addr (mi_medium_conf m) + 1] @ p in b @ [crc8 (dest # b)])"

definition demo_peer :: mctp where
  "demo_peer = demo_mctp\<lparr>mi_medium_conf := \<lparr>mc_bus = 3, mc_addr = 0x40\<rparr>\<rparr>"

section \<open>Properties\<close>

lemma nth0_3: "nth0 (a # b # c # bs) 0 = a" "nth0 (a # b # c # bs) 1 = b" "nth0 (a # b # c # bs) 2 = c"
  by (simp_all add: nth0_def)

lemma length_smbus_frame [simp]: "length (smbus_frame crc8 m dest p) = length p + 4"
  by (simp add: smbus_frame_def Let_def)

lemma make_send_buf_frame:
  "p \<noteq> [] \<Longrightarrow> make_send_buf crc8 m (length p + 4) p e = Some (smbus_frame crc8 m (xp_addr e) p)"
  by (simp add: make_send_buf_def cal_pec_def smbus_frame_def smbus_hdr_bytes_def Let_def MCTP_SMBUS_CMD_CODE_def)

lemma smbus_read_frame:
  assumes "length p \<le> 252" and "p \<noteq> []"
  shows "mctp_smbus_read crc8 r (0, smbus_frame crc8 m (mc_addr (mi_medium_conf r)) p) ext
    = Some (p, ext\<lparr>xp_type := MCTP_MEDIUM_TYPE_SMBUS, xp_addr := mc_addr (mi_medium_conf m)\<rparr>)"
proof -
  let ?d = "mc_addr (mi_medium_conf r)" and ?b = "[0x0F, of_nat (1 + length p), mc_addr (mi_medium_conf m) + 1] @ p"
  let ?f = "smbus_frame crc8 m ?d p"
  let ?rd = "?f @ zeros (256 - length ?f)" and ?rl = "of_nat (length ?f) :: u16"
  have f: "?f = ?b @ [crc8 (?d # ?b)]" by (simp add: smbus_frame_def Let_def)
  have rl: "unat ?rl = length p + 4" using assms(1) by (subst unat_of_nat_lt) auto
  have hdr: "smbus_hdr_of ?rd = \<lparr>sh_cmd_code = 0x0F, sh_byte_count = of_nat (1 + length p),
      sh_src_addr = mc_addr (mi_medium_conf m) + 1\<rparr>"
    unfolding f smbus_hdr_of_def by (simp add: nth0_3 del: One_nat_def)
  have bc: "unat (of_nat (1 + length p) :: u8) = 1 + length p" using assms(1) by (subst unat_of_nat_lt) auto
  have hook: "mctp_smbus_read_hook ?rd ?rl = (?rd, ?rl)"
    unfolding mctp_smbus_read_hook_def hdr Let_def using bc rl by simp
  have tk: "take (length p + 3) ?rd = ?b" unfolding f by (simp add: numeral_3_eq_3)
  have last: "nth0 ?rd (length p + 3) = crc8 (?d # ?b)" unfolding f by (simp add: nth0_def nth_append numeral_3_eq_3)
  have pec: "is_pec_vaild crc8 ?d ?rd (unat ?rl)"
    unfolding rl is_pec_vaild_def cal_pec_def using tk last by (simp del: append.simps add: add.commute [of 3])
  have rt: "unat (ucast (?rl - 3 - 1) :: u8) = length p"
  proof -
    have "unat (?rl - 3) = length p + 1" using rl by (subst unat_sub) (auto simp: word_le_nat_alt)
    then have "unat (?rl - 3 - 1) = length p" using rl by (subst unat_sub) (auto simp: word_le_nat_alt)
    then show ?thesis using assms(1) by (simp add: unsigned_ucast_eq take_bit_nat_eq_self)
  qed
  have sl: "slice 3 (length p) ?rd = p" unfolding f by (simp add: slice_def)
  have ln: "length ?rd = 256" using assms(1) by simp
  have nlt: "\<not> unat ?rl < 3" using rl by simp
  show ?thesis
    unfolding mctp_smbus_read_def prod.case Let_def if_not_P [OF nlt] hook hdr
    using pec bc rl rt sl ln assms(1) by (simp add: MCTP_SMBUS_CMD_CODE_def)
qed

lemma smbus_write_first_try:
  assumes "p \<noteq> []" and "length p \<le> 251" and "xp_type e = MCTP_MEDIUM_TYPE_SMBUS"
    and "ie_dev env (mc_bus (mi_medium_conf m))" and "ie_lock env" and "ie_malloc_tx env"
    and "f w (smbus_frame crc8 m (xp_addr e) p) (drop_bit 1 (xp_addr e)) = (w', 0)"
  shows "mctp_smbus_write env f crc8 m w p e = Some (w', 0)"
proof -
  let ?fr = "smbus_frame crc8 m (xp_addr e) p"
  let ?msg = "\<lparr>i2c_bus = mc_bus (mi_medium_conf m), i2c_target_addr = drop_bit 1 (xp_addr e),
      i2c_rx_len = 0, i2c_tx_len = of_nat (length p + 4), i2c_data = memcpy_at 0 ?fr (zeros 256)\<rparr>"
  have tx: "unat (of_nat (length p + 4) :: u8) = length p + 4" using assms(2) by (subst unat_of_nat_lt) auto
  have "take (length p + 4) (memcpy_at 0 ?fr (zeros 256)) = ?fr"
    using take_memcpy_at [of 0 "zeros 256" ?fr] by simp
  moreover have "write_attempts (ie_obmf env) f ?fr (drop_bit 1 (xp_addr e)) 6 w (- 1) = (w', 0)"
    using assms(7) by (simp add: numeral_eq_Suc)
  ultimately have "i2c_master_write env f w ?msg 5 = Some (w', 0)"
    using assms(4-6) tx by (subst i2c_master_write_eq) simp_all
  then show ?thesis
    using assms make_send_buf_frame [OF assms(1), of crc8 m e]
    by (simp add: mctp_smbus_write_def Let_def I2C_BUFF_SIZE_def MCTP_SMBUS_WRITE_MAX_RETRY_def)
qed

lemma smbus_link_step:
  assumes u: "smbus_usable env bus m r w e" and p: "4 \<le> length p" "length p \<le> 251"
  shows "\<exists>dev. smbus_link env hk bus crc8 m r w p e = ((dev, snd w @ [p]), 0) \<and> smbus_usable env bus m r (dev, snd w @ [p]) e"
proof -
  let ?fr = "smbus_frame crc8 m (xp_addr e) p" and ?dev = "fst w"
  have ne: "?fr \<noteq> []" "length ?fr \<le> 256" "p \<noteq> []" using p by (auto simp: smbus_frame_def Let_def)
  have g: "target_good bus ?dev" "target_contents ?dev = []" "0 < target_room ?dev"
    using u by (simp_all add: smbus_usable_def)
  note sr = target.send_recv [OF g ne(1,2), of hk]
  have c: "target_contents (target_send nominal_env hk ?fr ?dev) = ?fr # []"
    using target_send_enqueues(2) [OF g(1,3) ne(1,2), of hk] g(2) by simp
  have ad: "td_address (dv_data (fst (target_recv nominal_env bus (target_send nominal_env hk ?fr ?dev))))
      = td_address (dv_data ?dev)"
    using target_recv_dequeues(4) [OF target_send_enqueues(1) [OF g(1,3) ne(1,2)] c]
      target_send_enqueues(4) [OF g(1,3) ne(1,2)] by simp
  obtain dev' where dev': "target_recv nominal_env bus (target_send nominal_env hk ?fr ?dev) = (dev', ?fr)"
    using sr(1) by (metis prod.collapse)
  have addr: "xp_addr e = mc_addr (mi_medium_conf r)" "td_address (dv_data ?dev) = drop_bit 1 (xp_addr e)"
    using u by (simp_all add: smbus_usable_def)
  have rd: "mctp_smbus_read crc8 r (0, ?fr) e
    = Some (p, e\<lparr>xp_type := MCTP_MEDIUM_TYPE_SMBUS, xp_addr := mc_addr (mi_medium_conf m)\<rparr>)"
    unfolding addr(1) by (rule smbus_read_frame) (use p ne in auto)
  have "peer_i2c_write hk bus crc8 r e w ?fr (drop_bit 1 (xp_addr e)) = ((dev', snd w @ [p]), 0)"
    using dev' rd addr(2) by (simp add: peer_i2c_write_def case_prod_beta)
  from smbus_write_first_try [where env = env and f = "peer_i2c_write hk bus crc8 r e" and w = w and m = m
      and ?crc8.0 = crc8 and e = e and p = p, OF ne(3) p(2) _ _ _ _ this]
  have "smbus_link env hk bus crc8 m r w p e = ((dev', snd w @ [p]), 0)"
    using u by (simp add: smbus_link_def smbus_usable_def)
  moreover have "smbus_usable env bus m r (dev', snd w @ [p]) e"
    using u sr dev' ad by (simp add: smbus_usable_def)
  ultimately show ?thesis by blast
qed

interpretation smbus: lossless_medium "smbus_link env hk bus crc8 m r" snd "smbus_usable env bus m r" 251
  for env hk bus crc8 m r
proof unfold_locales
  fix w :: smbus_wire and e :: mctp_ext_params and p :: bytes
  assume "smbus_usable env bus m r w e" and "4 \<le> length p" and "length p \<le> 251"
  from smbus_link_step [OF this, of hk crc8]
  show "snd (smbus_link env hk bus crc8 m r w p e) = 0" "snd (fst (smbus_link env hk bus crc8 m r w p e)) = snd w @ [p]"
    "smbus_usable env bus m r (fst (smbus_link env hk bus crc8 m r w p e)) e" by auto
qed

text \<open>
  (C7) End to end over SMBus: a message handed to the transmit thread of one instance is framed,
  transferred byte by byte to the target driver of the peer, queued, read, unframed, reassembled
  and delivered by the peer's receive loop exactly as it was, whatever function computes the
  packet error code.
\<close>

theorem mctp_smbus_end_to_end:
  assumes "msg_ok m msg buf" and "smbus_usable env bus m r (dev, []) (tx_ext_params msg)"
    and "unat (mi_max_msg_size m) \<le> 247" and "length buf \<le> 1024"
    and "mctp_inv r" and "mi_rx_cb r = Some cb" and "addressed r (tx_hdr m msg 0)"
    and "abs_mctp r (tx_key m msg) = None"
  shows "\<exists>m' w' r'. mctp_tx_step (smbus_link env hk bus crc8 m r) m msg (dev, []) = (m', w', MCTP_SUCCESS)
    \<and> mctp_rx_run r (map (\<lambda>p. (p, e)) (snd w')) = Some (r', [Rx_cb cb buf (rx_ext (tx_hdr m msg 0) e)])"
  by (rule smbus.tx_step_rx_run [OF assms(1,2) _ _ assms(4-8)]) (use assms(3) in simp_all)

lemma demo_peer_ready:
  "mctp_inv demo_peer" "mi_rx_cb demo_peer = Some 1"
  "addressed demo_peer (tx_hdr demo_mctp (demo_msg owner buf) 0)" "abs_mctp demo_peer k = None"
  using demo_ready by (simp_all add: demo_peer_def mctp_inv_def addressed_def abs_mctp_def)

lemma demo_usable:
  "smbus_usable demo_i2c_env 3 demo_mctp demo_peer (demo_target, []) (tx_ext_params (demo_msg owner buf))"
proof -
  have "td_address (dv_data demo_target) = 0x20"
    by (simp add: demo_target_def demo_target_cfg_def nominal_env_def target_zero_def i2c_target_control_def
        do_i2c_target_cfg_def target_cfg_data_def i2c_target_status_get_def do_i2c_target_register_def
        target_consts queue_used_def Let_def)
  then show ?thesis
    using demo_target_good by (simp add: smbus_usable_def demo_i2c_env_def demo_peer_def demo_defs)
qed

theorem mctp_smbus_end_to_end_witness:
  "\<exists>m' w' r'. mctp_tx_step (smbus_link demo_i2c_env no_hooks 3 sum_list demo_mctp demo_peer) demo_mctp
      (demo_msg 1 (replicate 150 7)) (demo_target, []) = (m', w', MCTP_SUCCESS)
    \<and> mctp_rx_run demo_peer (map (\<lambda>p. (p, demo_ext)) (snd w'))
      = Some (r', [Rx_cb 1 (replicate 150 7) (rx_ext (tx_hdr demo_mctp (demo_msg 1 (replicate 150 7)) 0) demo_ext)])"
  by (rule mctp_smbus_end_to_end [OF demo_msg_ok demo_usable _ _ demo_peer_ready]) (simp_all add: demo_defs)

lemma hook_shift:
  assumes "unat (sh_byte_count (smbus_hdr_of data)) \<noteq> unat len - 3" and "3 \<le> unat len" and "unat len \<le> length data"
    and "mctp_smbus_read_hook data len = (data', len')"
  defines "k \<equiv> (if sh_byte_count (smbus_hdr_of data) = 0x0F then 1 else 2) :: nat"
  shows "length data' = length data" "unat len' = unat len - k" "\<forall>i < unat len - k. nth0 data' i = nth0 data (k + i)"
proof -
  have k: "1 \<le> k" "k \<le> 2" by (simp_all add: k_def)
  have le: "(of_nat k :: u16) \<le> len" using assms(2) k by (auto simp: word_le_nat_alt unat_of_nat_lt)
  have l: "unat (len - of_nat k) = unat len - k" using le k by (simp add: unat_sub unat_of_nat_lt)
  have d: "data' = memcpy_at 0 (slice k (unat (len - of_nat k)) data) data" "len' = len - of_nat k"
    using assms(1,4) by (auto simp: mctp_smbus_read_hook_def Let_def k_def split: if_splits)
  have ls: "length (slice k (unat len - k) data) = unat len - k" using assms(3) by simp
  show "unat len' = unat len - k" using d(2) l by simp
  show "length data' = length data" using d(1) l assms(3) by simp
  show "\<forall>i < unat len - k. nth0 data' i = nth0 data (k + i)"
    using d(1) l ls by (simp add: nth0_memcpy_at_0 nth0_slice del: length_slice)
qed

text \<open>
  A three-byte write whose second byte is 0x0F makes the read function copy from behind its
  256-byte receive buffer: the hook leaves two bytes, and the size \<^verbatim>\<open>rlen - 3\<close> wraps to 255.
\<close>

theorem mctp_smbus_read_short_fault: "mctp_smbus_read crc8 m (0, [a, 0x0F, c]) ext = None"
proof -
  let ?rd = "[a, 0x0F, c] @ zeros (256 - length [a, 0x0F, c])" and ?l = "of_nat (length [a, 0x0F, c]) :: u16"
  have rl: "unat ?l = 3" by simp
  have hd: "sh_byte_count (smbus_hdr_of ?rd) = 0x0F" by (simp add: smbus_hdr_of_def nth0_3 del: One_nat_def)
  obtain rd l where hook: "mctp_smbus_read_hook ?rd ?l = (rd, l)" by force
  have "unat (sh_byte_count (smbus_hdr_of ?rd)) \<noteq> unat ?l - 3" "3 \<le> unat ?l" "unat ?l \<le> length ?rd"
    unfolding hd by simp_all
  note sh = hook_shift [OF this hook, unfolded hd rl]
  have l2: "unat l = 2" using sh(2) by simp
  then have l: "l = 2" by (simp add: word_unat_eq_iff)
  have c: "sh_cmd_code (smbus_hdr_of rd) = 0x0F"
    using sh(3) [rule_format, of 0] by (simp add: smbus_hdr_of_def nth0_3)
  have sz: "length rd = 256" using sh(1) by simp
  have wrap: "unat (ucast (- 1 :: u16) :: u8) = 255" by code_simp
  have np: "\<not> unat (sh_byte_count (smbus_hdr_of rd)) + 3 = unat l" using l2 by simp
  show ?thesis
    unfolding mctp_smbus_read_def prod.case Let_def hook
    using l2 l c sz np wrap by (simp add: MCTP_SMBUS_CMD_CODE_def)
qed

text \<open>
  A frame without packet error code is not accepted, although the function computes whether
  the code is present: the hook takes the missing byte for duplicated data and shifts the frame.
\<close>

theorem mctp_smbus_read_no_pec:
  assumes "p \<noteq> []" and "length p \<le> 253" and "length p \<noteq> 14" and "src \<noteq> 0x0F"
  shows "mctp_smbus_read crc8 m (0, [0x0F, of_nat (length p + 1), src] @ p) ext = Some ([], ext)"
proof -
  let ?f = "[0x0F, of_nat (length p + 1), src] @ p"
  let ?rd = "?f @ zeros (256 - length ?f)" and ?l = "of_nat (length ?f) :: u16"
  have rl: "unat ?l = length p + 3" using assms(2) by (subst unat_of_nat_lt) auto
  have bc: "unat (of_nat (length p + 1) :: u8) = length p + 1" using assms(2) by (subst unat_of_nat_lt) auto
  have hd: "sh_byte_count (smbus_hdr_of ?rd) = of_nat (length p + 1)"
    by (simp add: smbus_hdr_of_def nth0_3 del: One_nat_def)
  have n15: "(of_nat (length p + 1) :: u8) \<noteq> 0x0F"
  proof
    assume "(of_nat (length p + 1) :: u8) = 0x0F"
    then show False using bc assms(3) by simp
  qed
  obtain rd l where hook: "mctp_smbus_read_hook ?rd ?l = (rd, l)" by force
  have "unat (sh_byte_count (smbus_hdr_of ?rd)) \<noteq> unat ?l - 3" "3 \<le> unat ?l" "unat ?l \<le> length ?rd"
    unfolding hd bc rl using assms(2) by simp_all
  note sh = hook_shift [OF this hook, unfolded hd rl if_not_P [OF n15]]
  have "nth0 rd 0 = nth0 ?rd 2" using sh(3) assms(1) by (cases p) (auto simp: nth0_3)
  then have c: "sh_cmd_code (smbus_hdr_of rd) \<noteq> 0x0F"
    using assms(4) by (simp add: smbus_hdr_of_def nth0_def)
  have nlt: "\<not> unat ?l < 3" using rl by simp
  show ?thesis
    unfolding mctp_smbus_read_def prod.case Let_def if_not_P [OF nlt] hook
    using c by (simp add: MCTP_SMBUS_CMD_CODE_def)
qed

theorem mctp_smbus_read_no_pec_witness:
  "mctp_smbus_read sum_list demo_mctp (0, [0x0F, 6, 0x41, 1, 10, 8, 0xC8, 0x02]) demo_ext = Some ([], demo_ext)"
  using mctp_smbus_read_no_pec [where p = "[1, 10, 8, 0xC8, 0x02]" and src = "0x41" and m = demo_mctp
      and ?crc8.0 = sum_list and ext = demo_ext] by simp

end
