(* ===== verification/Wait_List.thy ===== *)
theory Wait_List
  imports Prelude
begin

text \<open>
  Lists of requests that wait for a response. PLDM (\<^verbatim>\<open>common/service/pldm/pldm.c\<close>) and MCTP control
  (\<^verbatim>\<open>common/service/mctp/mctp_ctrl.c\<close>) keep such a list in the same way: a response removes the first
  entry it matches, the monitor thread removes the entries that have expired, and the callback of an entry
  runs when it is removed. The locale states the laws of one such step; what follows from them for
  every sequence of steps is proved once and used by both.
\<close>

section \<open>Removing the first match\<close>

fun remove_first :: "('a \<Rightarrow> bool) \<Rightarrow> 'a list \<Rightarrow> 'a option \<times> 'a list" where
  "remove_first P [] = (None, [])"
| "remove_first P (x # xs) =
     (if P x then (Some x, xs) else (case remove_first P xs of (r, ys) \<Rightarrow> (r, x # ys)))"

lemma remove_first_None: "(fst (remove_first P xs) = None) = (\<forall>x \<in> set xs. \<not> P x)"
  by (induction xs) (auto split: prod.split)

lemma remove_first_Some:
  assumes "remove_first P xs = (Some x, ys)"
  obtains us vs where "xs = us @ x # vs" "ys = us @ vs" "P x" "\<forall>u \<in> set us. \<not> P u"
  using assms
proof (induction xs arbitrary: ys thesis)
  case (Cons a xs)
  show ?case
  proof (cases "P a")
    case True
    with Cons.prems(2) show ?thesis by (intro Cons.prems(1) [of "[]" xs]) auto
  next
    case False
    then obtain zs where z: "remove_first P xs = (Some x, zs)" "ys = a # zs"
      using Cons.prems(2) by (auto split: prod.splits)
    obtain us vs where "xs = us @ x # vs" "zs = us @ vs" "P x" "\<forall>u \<in> set us. \<not> P u"
      by (rule Cons.IH [OF _ z(1)])
    with False z(2) show ?thesis by (intro Cons.prems(1) [of "a # us" vs]) auto
  qed
qed simp

lemma remove_first_append:
  "\<forall>x \<in> set xs. \<not> P x \<Longrightarrow> P y \<Longrightarrow> remove_first P (xs @ [y]) = (Some y, xs)"
  by (induction xs) auto

section \<open>Requests complete exactly once\<close>

fun steps :: "('i \<Rightarrow> 's \<Rightarrow> ('s \<times> 'n list) option) \<Rightarrow> 'i list \<Rightarrow> 's \<Rightarrow> ('s \<times> 'n list) option" where
  "steps step [] s = Some (s, [])"
| "steps step (i # inps) s =
     (case step i s of None \<Rightarrow> None
      | Some (s, ns) \<Rightarrow> (case steps step inps s of None \<Rightarrow> None | Some (s, ms) \<Rightarrow> Some (s, ns @ ms)))"

text \<open>
  \<open>step i s\<close> is the new state and the entries that the input \<open>i\<close> completes; \<open>ends i n\<close> means that the input \<open>i\<close> is
  one that may complete \<open>n\<close>, its response or a time-out check after its expiry, and \<open>due i n\<close> that it does so if \<open>n\<close> waits.
\<close>

locale wait_list =
  fixes good :: "'s \<Rightarrow> bool"
    and waiting :: "'s \<Rightarrow> 'n list"
    and step :: "'i \<Rightarrow> 's \<Rightarrow> ('s \<times> 'n list) option"
    and ends :: "'i \<Rightarrow> 'n \<Rightarrow> bool"
    and due :: "'i \<Rightarrow> 'n \<Rightarrow> bool"
  assumes step_good: "good s \<Longrightarrow> step i s = Some (s', ns) \<Longrightarrow> good s'"
    and step_mset: "good s \<Longrightarrow> step i s = Some (s', ns) \<Longrightarrow> mset (waiting s) = mset (waiting s') + mset ns"
    and step_due: "good s \<Longrightarrow> step i s = Some (s', ns) \<Longrightarrow> n \<in> set (waiting s') \<Longrightarrow> \<not> due i n"
    and step_ends: "good s \<Longrightarrow> step i s = Some (s', ns) \<Longrightarrow> n \<in> set ns \<Longrightarrow> ends i n"
begin

lemma steps_good: "good s \<Longrightarrow> steps step inps s = Some (s', ns) \<Longrightarrow> good s'"
  by (induction inps arbitrary: s ns) (auto split: option.splits, metis step_good)

lemma steps_mset: "good s \<Longrightarrow> steps step inps s = Some (s', ns) \<Longrightarrow> mset (waiting s) = mset (waiting s') + mset ns"
  by (induction inps arbitrary: s ns) (auto split: option.splits simp: step_mset, metis step_good)

lemma steps_subset: "good s \<Longrightarrow> steps step inps s = Some (s', ns) \<Longrightarrow> set (waiting s') \<subseteq> set (waiting s)"
  by (metis steps_mset mset_subset_eq_add_left set_mset_mono set_mset_mset)

lemma steps_due:
  assumes "good s" and "steps step inps s = Some (s', ns)" and "i \<in> set inps" and "due i n"
  shows "n \<notin> set (waiting s')"
  using assms
proof (induction inps arbitrary: s ns)
  case (Cons j inps)
  from Cons.prems(2) obtain t ms ks where
    t: "step j s = Some (t, ms)" and u: "steps step inps t = Some (s', ks)"
    by (auto split: option.splits)
  have g: "good t" by (rule step_good [OF Cons.prems(1) t])
  show ?case
  proof (cases "i = j")
    case True
    then show ?thesis using step_due [OF Cons.prems(1) t] Cons.prems(4) steps_subset [OF g u] by blast
  next
    case False
    then show ?thesis using Cons.IH [OF g u] Cons.prems(3,4) by simp
  qed
qed simp

text \<open>Nothing completes twice, and everything completes once every entry has been due.\<close>

lemma complete_once: "good s \<Longrightarrow> distinct (waiting s) \<Longrightarrow> steps step inps s = Some (s', ns) \<Longrightarrow>
    distinct ns \<and> set ns \<inter> set (waiting s') = {} \<and> set ns \<union> set (waiting s') = set (waiting s)"
proof -
  assume "good s" "distinct (waiting s)" "steps step inps s = Some (s', ns)"
  from steps_mset [OF this(1,3)] have m: "mset (waiting s) = mset (waiting s' @ ns)" by simp
  with \<open>distinct (waiting s)\<close> have "distinct (waiting s' @ ns)" using mset_eq_imp_distinct_iff by blast
  moreover have "set (waiting s) = set (waiting s' @ ns)" using m by (rule mset_eq_setD)
  ultimately show ?thesis by auto
qed

lemma complete_all:
  assumes "good s" and "steps step inps s = Some (s', ns)" and "\<And>n. n \<in> set (waiting s) \<Longrightarrow> \<exists>i \<in> set inps. due i n"
  shows "waiting s' = [] \<and> mset ns = mset (waiting s)"
proof -
  have "n \<notin> set (waiting s')" for n
    using steps_due [OF assms(1,2)] steps_subset [OF assms(1,2)] assms(3) by blast
  then have "waiting s' = []" by (cases "waiting s'") auto
  then show ?thesis using steps_mset [OF assms(1,2)] by simp
qed

end

text \<open>The same steps seen from outside: instead of the entries, the calls of their callbacks.\<close>

locale wait_list_events = wait_list +
  fixes event_step :: "'i \<Rightarrow> 's \<Rightarrow> ('s \<times> 'e list) option"
    and callback :: "'i \<Rightarrow> 'n \<Rightarrow> 'e list"
  assumes event_step: "good s \<Longrightarrow>
    event_step i s = map_option (\<lambda>(s', ns). (s', concat (map (callback i) ns))) (step i s)"
begin

lemma steps_events:
  assumes "good s" and "steps event_step inps s = Some (s', evs)"
  shows "\<exists>ds. steps step inps s = Some (s', map snd ds) \<and> evs = concat (map (\<lambda>(i, n). callback i n) ds)
    \<and> (\<forall>(i, n) \<in> set ds. i \<in> set inps \<and> ends i n)"
  using assms
proof (induction inps arbitrary: s evs)
  case Nil
  then show ?case by (intro exI [of _ "[]"]) simp
next
  case (Cons i inps)
  from Cons.prems obtain t ns evs' where t: "step i s = Some (t, ns)"
    and u: "steps event_step inps t = Some (s', evs')" and e: "evs = concat (map (callback i) ns) @ evs'"
    by (auto simp: event_step split: option.splits)
  from Cons.IH [OF step_good [OF Cons.prems(1) t] u] obtain ds where
    "steps step inps t = Some (s', map snd ds)" "evs' = concat (map (\<lambda>(i, n). callback i n) ds)"
    "\<forall>(i, n) \<in> set ds. i \<in> set inps \<and> ends i n"
    by blast
  moreover have "\<forall>n \<in> set ns. ends i n" using step_ends [OF Cons.prems(1) t] by blast
  ultimately show ?case using t e by (intro exI [of _ "map (Pair i) ns @ ds"]) (auto simp: comp_def)
qed

text \<open>
  Every entry waits at the end or has completed once, by an input that may complete it; what waits at the end
  has met no input that completes it.
\<close>

lemma completions:
  assumes "good s" and "steps event_step inps s = Some (s', evs)"
  shows "good s' \<and> (\<exists>ds. mset (map snd ds) + mset (waiting s') = mset (waiting s)
      \<and> evs = concat (map (\<lambda>(i, n). callback i n) ds) \<and> (\<forall>(i, n) \<in> set ds. i \<in> set inps \<and> ends i n))
    \<and> (\<forall>n \<in> set (waiting s'). \<forall>i \<in> set inps. \<not> due i n)"
proof -
  from steps_events [OF assms] obtain ds where d: "steps step inps s = Some (s', map snd ds)"
    "evs = concat (map (\<lambda>(i, n). callback i n) ds)" "\<forall>(i, n) \<in> set ds. i \<in> set inps \<and> ends i n" by blast
  have "mset (map snd ds) + mset (waiting s') = mset (waiting s)"
    using steps_mset [OF assms(1) d(1)] by (simp add: add.commute)
  moreover have "\<forall>n \<in> set (waiting s'). \<forall>i \<in> set inps. \<not> due i n"
    using steps_due [OF assms(1) d(1)] by blast
  ultimately show ?thesis using d(2,3) steps_good [OF assms(1) d(1)] by blast
qed

end

end
