(* ===== verification/Mctp_Ctrl.thy ===== *)
theory Mctp_Ctrl
  imports Mctp Wait_List
begin

text \<open>
  MCTP control messages (\<^verbatim>\<open>common/service/mctp/mctp_ctrl.c\<close> and its header): the commands an endpoint
  answers (set and get the endpoint id, UUID, supported message types), the list of its own requests
  that wait for a response, and the blocking read.

  A received message is the memory its buffer pointer refers to together with a length, because the
  handlers do not compare the two; \<open>None\<close> is an access outside that memory or outside a local buffer.
  The MCTP instances are a store indexed by their addresses. What a platform provides (ports, UUID,
  supported types) is a record of arguments.
\<close>

section \<open>Definitions\<close>

definition DEFAULT_WAIT_TO_MS :: u16 where "DEFAULT_WAIT_TO_MS = 3000"
definition MCTP_CTRL_INST_ID_MASK :: u8 where "MCTP_CTRL_INST_ID_MASK = 0x3F"
definition MCTP_BASE_LINE_UNIT :: nat where "MCTP_BASE_LINE_UNIT = 64"
definition MCTP_MSG_TYPE_CTRL :: "7 word" where "MCTP_MSG_TYPE_CTRL = 0"
definition MCTP_CTRL_CMD_SET_ENDPOINT_ID :: u8 where "MCTP_CTRL_CMD_SET_ENDPOINT_ID = 1"
definition MCTP_CTRL_CMD_GET_ENDPOINT_ID :: u8 where "MCTP_CTRL_CMD_GET_ENDPOINT_ID = 2"
definition MCTP_CTRL_CMD_GET_ENDPOINT_UUID :: u8 where "MCTP_CTRL_CMD_GET_ENDPOINT_UUID = 3"
definition MCTP_CTRL_CMD_GET_MESSAGE_TYPE_SUPPORT :: u8 where "MCTP_CTRL_CMD_GET_MESSAGE_TYPE_SUPPORT = 5"
definition MCTP_CTRL_READ_STATUS_SUCCESS :: u8 where "MCTP_CTRL_READ_STATUS_SUCCESS = 0"
definition MCTP_CTRL_READ_STATUS_CC_ERROR :: u8 where "MCTP_CTRL_READ_STATUS_CC_ERROR = 1"
definition MCTP_CTRL_READ_STATUS_TIMEOUT :: u8 where "MCTP_CTRL_READ_STATUS_TIMEOUT = 2"
definition MCTP_CTRL_CC_SUCCESS :: u8 where "MCTP_CTRL_CC_SUCCESS = 0"
definition MCTP_CTRL_CC_ERROR :: u8 where "MCTP_CTRL_CC_ERROR = 1"
definition MCTP_CTRL_CC_ERROR_UNSUPPORTED_CMD :: u8 where "MCTP_CTRL_CC_ERROR_UNSUPPORTED_CMD = 5"

lemmas mctp_ctrl_consts =
  DEFAULT_WAIT_TO_MS_def MCTP_CTRL_INST_ID_MASK_def MCTP_BASE_LINE_UNIT_def MCTP_MSG_TYPE_CTRL_def
  MCTP_CTRL_CMD_SET_ENDPOINT_ID_def MCTP_CTRL_CMD_GET_ENDPOINT_ID_def MCTP_CTRL_CMD_GET_ENDPOINT_UUID_def
  MCTP_CTRL_CMD_GET_MESSAGE_TYPE_SUPPORT_def MCTP_CTRL_READ_STATUS_SUCCESS_def
  MCTP_CTRL_READ_STATUS_CC_ERROR_def MCTP_CTRL_READ_STATUS_TIMEOUT_def MCTP_CTRL_CC_SUCCESS_def
  MCTP_CTRL_CC_ERROR_def MCTP_CTRL_CC_ERROR_UNSUPPORTED_CMD_def

subsection \<open>Data\<close>

record mctp_ctrl_hdr =
  cth_msg_type :: "7 word"
  cth_ic :: bool
  cth_inst_id :: "5 word"
  cth_rsvd :: bool
  cth_d :: bool
  cth_rq :: bool
  cth_cmd :: u8

definition mctp_ctrl_hdr_bytes :: "mctp_ctrl_hdr \<Rightarrow> bytes" where
  "mctp_ctrl_hdr_bytes h =
     [ucast (cth_msg_type h) OR push_bit 7 (flag (cth_ic h)),
      ucast (cth_inst_id h) OR push_bit 5 (flag (cth_rsvd h)) OR push_bit 6 (flag (cth_d h))
        OR push_bit 7 (flag (cth_rq h)), cth_cmd h]"

definition mctp_ctrl_hdr_of :: "bytes \<Rightarrow> mctp_ctrl_hdr" where
  "mctp_ctrl_hdr_of bs =
     \<lparr> cth_msg_type = ucast (nth0 bs 0), cth_ic = bit (nth0 bs 0) 7,
       cth_inst_id = ucast (nth0 bs 1), cth_rsvd = bit (nth0 bs 1) 5, cth_d = bit (nth0 bs 1) 6,
       cth_rq = bit (nth0 bs 1) 7, cth_cmd = nth0 bs 2 \<rparr>"

record mctp_ctrl_msg =
  ctm_hdr :: mctp_ctrl_hdr
  ctm_cmd_data :: "bytes option"
  ctm_cmd_data_len :: u16
  ctm_ext_params :: mctp_ext_params
  ctm_recv_resp_cb_fn :: "nat option"
  ctm_recv_resp_cb_args :: nat
  ctm_timeout_ms :: u16
  ctm_timeout_cb_fn :: "nat option"
  ctm_timeout_cb_fn_args :: nat

text \<open>A list node is identified by its address.\<close>

record ctrl_wait_msg =
  cw_node :: nat
  cw_mctp_inst :: nat
  cw_exp_to_ms :: int
  cw_msg :: mctp_ctrl_msg

text \<open>The static counter of \<^verbatim>\<open>mctp_ctrl_send_msg\<close> and the list of waiting requests.\<close>

record ctrl_state =
  cs_inst_id :: u8
  cs_wait_recv_resp_list :: "ctrl_wait_msg list"

text \<open>A callback gets its argument, the memory behind the header and the length it is told.\<close>

datatype ctrl_event =
    Ctrl_resp_cb nat nat bytes u16
  | Ctrl_timeout_cb nat nat

text \<open>
  The platform: \<^verbatim>\<open>plat_get_mctp_port_count\<close> and \<^verbatim>\<open>plat_get_mctp_port\<close>, the UUID that \<^verbatim>\<open>get_system_guid\<close> writes
  (\<open>None\<close>: it fails), the types that \<^verbatim>\<open>load_mctp_support_types\<close> writes (\<open>None\<close>: a negative result, which is
  the default) and whether the heap has room for them.
\<close>

record ctrl_plat =
  pl_port_count :: u8
  pl_port :: "nat \<Rightarrow> mctp_port option"
  pl_guid :: "bytes option"
  pl_support_types :: "bytes option"
  pl_malloc_ok :: bool

datatype plat_call = Update_mctp_routing_table u8 | Get_message_type_support_received

text \<open>The instances, and the calls of the platform hooks that were made.\<close>

record ctrl_env =
  ce_inst :: "nat \<Rightarrow> mctp"
  ce_calls :: "plat_call list"

subsection \<open>Commands\<close>

text \<open>
  A command gets the instance, the memory behind the header and the length behind the header, and returns
  what it wrote to the response buffer (zero before), \<^verbatim>\<open>*resp_len\<close> and its return code.
\<close>

record ctrl_result =
  cr_resp :: bytes
  cr_resp_len :: u16
  cr_rc :: u8

type_synonym mctp_ctrl_cmd_fn =
  "ctrl_plat \<Rightarrow> nat \<Rightarrow> bytes \<Rightarrow> u16 \<Rightarrow> ctrl_env \<Rightarrow> (ctrl_env \<times> ctrl_result) option"

datatype port_search = Port_found nat | Port_null | Port_none

text \<open>The first port whose instance satisfies the test, unless a port before it is \<^verbatim>\<open>NULL\<close>.\<close>

fun search_port :: "(nat \<Rightarrow> mctp_port option) \<Rightarrow> (nat \<Rightarrow> bool) \<Rightarrow> nat list \<Rightarrow> port_search" where
  "search_port get test [] = Port_none"
| "search_port get test (i # inds) =
     (case get i of
        None \<Rightarrow> Port_null
      | Some p \<Rightarrow> if test (mp_mctp_inst p) then Port_found (mp_mctp_inst p) else search_port get test inds)"

definition mctp_ctrl_cmd_set_endpoint_id :: mctp_ctrl_cmd_fn where
  "mctp_ctrl_cmd_set_endpoint_id pl inst buf len env =
     (let search = search_port (pl_port pl) (\<lambda>n. n = inst) [0..<unat (pl_port_count pl)] in
      if search = Port_null then
        Some (env, \<lparr>cr_resp = [MCTP_CTRL_CC_ERROR], cr_resp_len = 1, cr_rc = MCTP_SUCCESS\<rparr>)
      else if length buf < 2 then None
      else let eid = buf ! 1;
               cc = (if pl_port_count pl = 0 then MCTP_CTRL_CC_ERROR else MCTP_CTRL_CC_SUCCESS);
               insts = (case search of
                          Port_found n \<Rightarrow> (ce_inst env)(n := (ce_inst env n)\<lparr>mi_endpoint := eid\<rparr>)
                        | _ \<Rightarrow> ce_inst env) in
        Some (\<lparr>ce_inst = insts, ce_calls = ce_calls env @ [Update_mctp_routing_table eid]\<rparr>,
              \<lparr>cr_resp = [cc, 0, eid, 0], cr_resp_len = (if cc = MCTP_CTRL_CC_SUCCESS then 4 else 1),
               cr_rc = MCTP_SUCCESS\<rparr>))"

text \<open>The id and endpoint types are both 0 (dynamic id, simple endpoint), whether a port is found or not.\<close>

definition mctp_ctrl_cmd_get_endpoint_id :: mctp_ctrl_cmd_fn where
  "mctp_ctrl_cmd_get_endpoint_id pl inst buf len env =
     (let search = search_port (pl_port pl)
            (\<lambda>n. mi_medium_type (ce_inst env n) = mi_medium_type (ce_inst env inst)) [0..<unat (pl_port_count pl)] in
      if search = Port_null then
        Some (env, \<lparr>cr_resp = [MCTP_CTRL_CC_ERROR], cr_resp_len = 1, cr_rc = MCTP_SUCCESS\<rparr>)
      else let cc = (if pl_port_count pl = 0 then MCTP_CTRL_CC_ERROR else MCTP_CTRL_CC_SUCCESS);
               eid = (case search of Port_found n \<Rightarrow> mi_endpoint (ce_inst env n) | _ \<Rightarrow> 0) in
        Some (env, \<lparr>cr_resp = [cc, eid, 0, 0], cr_resp_len = (if cc = MCTP_CTRL_CC_SUCCESS then 4 else 1),
                    cr_rc = MCTP_SUCCESS\<rparr>))"

definition mctp_ctrl_cmd_get_endpoint_uuid :: mctp_ctrl_cmd_fn where
  "mctp_ctrl_cmd_get_endpoint_uuid pl inst buf len env =
     (case pl_guid pl of
        Some uuid \<Rightarrow>
          Some (env, \<lparr>cr_resp = MCTP_CTRL_CC_SUCCESS # uuid, cr_resp_len = 17, cr_rc = MCTP_SUCCESS\<rparr>)
      | None \<Rightarrow> Some (env, \<lparr>cr_resp = [MCTP_CTRL_CC_ERROR], cr_resp_len = 1, cr_rc = MCTP_SUCCESS\<rparr>))"

text \<open>
  The platform writes the types to a heap block of \<^verbatim>\<open>sizeof(TYPE_MAX_SIZE)\<close> bytes, the size of an enumerator,
  which is the size of an \<^verbatim>\<open>int\<close>.
\<close>

definition TYPES_BLOCK_SIZE :: nat where "TYPES_BLOCK_SIZE = 4"

definition mctp_ctrl_cmd_get_message_type_support :: mctp_ctrl_cmd_fn where
  "mctp_ctrl_cmd_get_message_type_support pl inst buf len env =
     (let received = env\<lparr>ce_calls := ce_calls env @ [Get_message_type_support_received]\<rparr> in
      case pl_support_types pl of
        None \<Rightarrow> Some (received, \<lparr>cr_resp = [MCTP_ERROR], cr_resp_len = 1, cr_rc = MCTP_SUCCESS\<rparr>)
      | Some types \<Rightarrow>
          if (if pl_malloc_ok pl then TYPES_BLOCK_SIZE else 0) < length types then None
          else let type_len = of_nat (length types) :: u8 in
            Some (received, \<lparr>cr_resp = [MCTP_CTRL_CC_SUCCESS, type_len] @ types, cr_resp_len = 2 + ucast type_len,
                             cr_rc = MCTP_SUCCESS\<rparr>))"

definition mctp_ctrl_cmd_tbl :: "(u8 \<times> mctp_ctrl_cmd_fn) list" where
  "mctp_ctrl_cmd_tbl =
     [(MCTP_CTRL_CMD_SET_ENDPOINT_ID, mctp_ctrl_cmd_set_endpoint_id),
      (MCTP_CTRL_CMD_GET_ENDPOINT_ID, mctp_ctrl_cmd_get_endpoint_id),
      (MCTP_CTRL_CMD_GET_ENDPOINT_UUID, mctp_ctrl_cmd_get_endpoint_uuid),
      (MCTP_CTRL_CMD_GET_MESSAGE_TYPE_SUPPORT, mctp_ctrl_cmd_get_message_type_support)]"

subsection \<open>Waiting requests\<close>

definition ctrl_timeout_event :: "mctp_ctrl_msg \<Rightarrow> ctrl_event list" where
  "ctrl_timeout_event m = (case ctm_timeout_cb_fn m of
     None \<Rightarrow> [] | Some f \<Rightarrow> [Ctrl_timeout_cb f (ctm_timeout_cb_fn_args m)])"

fun ctrl_timeout_loop :: "int \<Rightarrow> ctrl_wait_msg list \<Rightarrow> ctrl_wait_msg list \<times> ctrl_event list" where
  "ctrl_timeout_loop now [] = ([], [])"
| "ctrl_timeout_loop now (p # ps) =
     (case ctrl_timeout_loop now ps of
        (kept, evs) \<Rightarrow>
          if cw_exp_to_ms p \<le> now then (kept, ctrl_timeout_event (cw_msg p) @ evs) else (p # kept, evs))"

text \<open>\<open>lock_ok\<close> tells whether the mutex of the list is obtained in time.\<close>

definition mctp_ctrl_msg_timeout_check :: "bool \<Rightarrow> int \<Rightarrow> ctrl_state \<Rightarrow> ctrl_state \<times> ctrl_event list \<times> u8" where
  "mctp_ctrl_msg_timeout_check lock_ok now st =
     (if \<not> lock_ok then (st, [], MCTP_ERROR)
      else case ctrl_timeout_loop now (cs_wait_recv_resp_list st) of
        (kept, evs) \<Rightarrow> (st\<lparr>cs_wait_recv_resp_list := kept\<rparr>, evs, MCTP_SUCCESS))"

definition ctrl_resp_matches :: "nat \<Rightarrow> mctp_ctrl_hdr \<Rightarrow> ctrl_wait_msg \<Rightarrow> bool" where
  "ctrl_resp_matches inst hdr p =
     (let h = ctm_hdr (cw_msg p) in
      cth_inst_id h = cth_inst_id hdr \<and> cw_mctp_inst p = inst \<and> cth_cmd h = cth_cmd hdr)"

definition mctp_ctrl_cmd_resp_process ::
  "bool \<Rightarrow> nat \<Rightarrow> bytes \<Rightarrow> u32 \<Rightarrow> ctrl_state \<Rightarrow> (ctrl_state \<times> ctrl_event list \<times> u8) option" where
  "mctp_ctrl_cmd_resp_process lock_ok inst buf len st =
     (if len = 0 then Some (st, [], MCTP_ERROR)
      else if \<not> lock_ok then Some (st, [], MCTP_ERROR)
      else if length buf < 3 then None
      else case remove_first (ctrl_resp_matches inst (mctp_ctrl_hdr_of buf)) (cs_wait_recv_resp_list st) of
        (None, _) \<Rightarrow> Some (st, [], MCTP_SUCCESS)
      | (Some p, rest) \<Rightarrow>
          Some (st\<lparr>cs_wait_recv_resp_list := rest\<rparr>,
                (case ctm_recv_resp_cb_fn (cw_msg p) of
                   None \<Rightarrow> []
                 | Some f \<Rightarrow> [Ctrl_resp_cb f (ctm_recv_resp_cb_args (cw_msg p)) (drop 3 buf) (ucast (len - 3))]),
                MCTP_SUCCESS))"

subsection \<open>Requests from the other side\<close>

type_synonym 'w ctrl_send_fn = "'w \<Rightarrow> bytes \<Rightarrow> mctp_ext_params \<Rightarrow> 'w \<times> u8"

definition ctrl_command ::
  "ctrl_plat \<Rightarrow> nat \<Rightarrow> bytes \<Rightarrow> u32 \<Rightarrow> ctrl_env \<Rightarrow> (ctrl_env \<times> ctrl_result) option" where
  "ctrl_command pl inst buf len env =
     (case map_of mctp_ctrl_cmd_tbl (cth_cmd (mctp_ctrl_hdr_of buf)) of
        None \<Rightarrow> Some (env, \<lparr>cr_resp = [MCTP_CTRL_CC_ERROR_UNSUPPORTED_CMD], cr_resp_len = 1, cr_rc = MCTP_SUCCESS\<rparr>)
      | Some cmd_func \<Rightarrow>
          (case cmd_func pl inst (drop 3 buf) (ucast (len - 3)) env of
             None \<Rightarrow> None
           | Some (env, r) \<Rightarrow>
               if cr_rc r = MCTP_ERROR then Some (env, r\<lparr>cr_resp := (cr_resp r)[0 := MCTP_CTRL_CC_ERROR]\<rparr>)
               else Some (env, r)))"

definition mctp_ctrl_cmd_handler ::
  "ctrl_plat \<Rightarrow> bool \<Rightarrow> 'w ctrl_send_fn \<Rightarrow> nat \<Rightarrow> bytes \<Rightarrow> u32 \<Rightarrow> mctp_ext_params
   \<Rightarrow> ctrl_state \<Rightarrow> ctrl_env \<Rightarrow> 'w \<Rightarrow> (ctrl_state \<times> ctrl_env \<times> 'w \<times> ctrl_event list \<times> u8) option" where
  "mctp_ctrl_cmd_handler pl lock_ok send inst buf len ext st env w =
     (if len = 0 then Some (st, env, w, [], MCTP_ERROR)
      else if length buf < 3 then None
      else if \<not> cth_rq (mctp_ctrl_hdr_of buf) then
        (case mctp_ctrl_cmd_resp_process lock_ok inst buf len st of
           None \<Rightarrow> None | Some (st, evs, r) \<Rightarrow> Some (st, env, w, evs, r))
      else
        (case ctrl_command pl inst buf len env of
           None \<Rightarrow> None
         | Some (env, res) \<Rightarrow>
             let hdr = mctp_ctrl_hdr_bytes ((mctp_ctrl_hdr_of buf)\<lparr>cth_rq := False\<rparr>);
                 n = unat (cr_resp_len res);
                 resp = take n (cr_resp res @ zeros (n - length (cr_resp res))) in
             if MCTP_BASE_LINE_UNIT < 3 + n \<or> MCTP_BASE_LINE_UNIT < 3 + length (cr_resp res) then None
             else case send w (hdr @ resp) ext of (w, r) \<Rightarrow> Some (st, env, w, [], r)))"

subsection \<open>Sending\<close>

definition ctrl_remove_node :: "nat \<Rightarrow> ctrl_state \<Rightarrow> ctrl_state" where
  "ctrl_remove_node n st = st\<lparr>cs_wait_recv_resp_list :=
     snd (remove_first (\<lambda>p. cw_node p = n) (cs_wait_recv_resp_list st))\<rparr>"

text \<open>
  \<open>node\<close> is the result of \<^verbatim>\<open>malloc\<close>, \<open>now\<close> the uptime. The length of the message is computed in 16 bits; when
  that overflows, or the data are shorter than the given length, the copies leave the buffers.
\<close>

definition ctrl_send_bytes :: "mctp_ctrl_msg \<Rightarrow> bytes option" where
  "ctrl_send_bytes msg =
     (let data = (case ctm_cmd_data msg of None \<Rightarrow> [] | Some d \<Rightarrow> d); n = unat (ctm_cmd_data_len msg) in
      if 65535 < 3 + n \<or> length data < n then None
      else Some (mctp_ctrl_hdr_bytes (ctm_hdr msg) @ take n data))"

definition mctp_ctrl_send_msg ::
  "nat option \<Rightarrow> int \<Rightarrow> 'w ctrl_send_fn \<Rightarrow> nat \<Rightarrow> mctp_ctrl_msg \<Rightarrow> ctrl_state \<Rightarrow> 'w
   \<Rightarrow> (ctrl_state \<times> mctp_ctrl_msg \<times> 'w \<times> u8) option" where
  "mctp_ctrl_send_msg node now send inst msg st w =
     (if ctm_cmd_data_len msg \<noteq> 0 \<and> ctm_cmd_data msg = None then Some (st, msg, w, MCTP_ERROR)
      else
        let rq = cth_rq (ctm_hdr msg);
            msg = (if rq then msg\<lparr>ctm_hdr := (ctm_hdr msg)\<lparr>cth_inst_id := ucast (cs_inst_id st AND MCTP_CTRL_INST_ID_MASK),
                                                         cth_msg_type := MCTP_MSG_TYPE_CTRL\<rparr>,
                                 ctm_ext_params := (ctm_ext_params msg)\<lparr>xp_tag_owner := 1\<rparr>\<rparr> else msg);
            st = (if rq then st\<lparr>cs_inst_id := cs_inst_id st + 1\<rparr> else st) in
        (case ctrl_send_bytes msg of
           None \<Rightarrow> None
         | Some bs \<Rightarrow>
             if \<not> rq then
               (case send w bs (ctm_ext_params msg) of
                  (w, rc) \<Rightarrow> Some (st, msg, w, if rc = MCTP_ERROR then MCTP_ERROR else MCTP_SUCCESS))
             else case node of
               None \<Rightarrow> Some (st, msg, w, MCTP_ERROR)
             | Some n \<Rightarrow>
                 let p = \<lparr>cw_node = n, cw_mctp_inst = inst,
                          cw_exp_to_ms = now + (if ctm_timeout_ms msg \<noteq> 0 then uint (ctm_timeout_ms msg)
                                                else uint DEFAULT_WAIT_TO_MS),
                          cw_msg = msg\<rparr>;
                     st = st\<lparr>cs_wait_recv_resp_list := cs_wait_recv_resp_list st @ [p]\<rparr> in
                 (case send w bs (ctm_ext_params msg) of
                    (w, rc) \<Rightarrow>
                      if rc = MCTP_ERROR then Some (ctrl_remove_node n st, msg, w, MCTP_ERROR)
                      else Some (st, msg, w, MCTP_SUCCESS))))"

subsection \<open>Reading\<close>

text \<open>The contents of the caller's buffer and the status put into the queue.\<close>

definition mctp_ctrl_read_resp_handler :: "u16 \<Rightarrow> bytes \<Rightarrow> bytes \<Rightarrow> u16 \<Rightarrow> (bytes \<times> u8) option" where
  "mctp_ctrl_read_resp_handler read_len rbuf resp rlen =
     (let return_len = unat (if rlen > read_len then read_len else rlen) in
      if resp = [] then None
      else if resp ! 0 \<noteq> MCTP_CTRL_CC_SUCCESS then Some (rbuf, MCTP_CTRL_READ_STATUS_CC_ERROR)
      else if length resp < return_len \<or> length rbuf < return_len then None
      else Some (memcpy_at 0 (take return_len resp) rbuf, MCTP_CTRL_READ_STATUS_SUCCESS))"

definition mctp_ctrl_read_timeout_handler :: u8 where
  "mctp_ctrl_read_timeout_handler = MCTP_CTRL_READ_STATUS_TIMEOUT"

text \<open>
  While the reader sleeps, messages arrive and the monitor thread checks for time-outs. \<open>Inl ()\<close> is a fault
  of a callback and \<open>None\<close> a wait that no input ends.
\<close>

datatype ctrl_input = Ctrl_response_in bool nat bytes u32 | Ctrl_check_in bool int

fun ctrl_input_step :: "ctrl_input \<Rightarrow> ctrl_state \<Rightarrow> (ctrl_state \<times> ctrl_event list) option" where
  "ctrl_input_step (Ctrl_response_in lock_ok inst buf len) st =
     map_option (\<lambda>(st, evs, _). (st, evs)) (mctp_ctrl_cmd_resp_process lock_ok inst buf len st)"
| "ctrl_input_step (Ctrl_check_in lock_ok now) st =
     (case mctp_ctrl_msg_timeout_check lock_ok now st of (st, evs, _) \<Rightarrow> Some (st, evs))"

definition CTRL_READ_RESP_FN :: nat where "CTRL_READ_RESP_FN = 1"
definition CTRL_READ_TIMEOUT_FN :: nat where "CTRL_READ_TIMEOUT_FN = 2"

fun ctrl_read_event ::
  "nat \<Rightarrow> nat \<Rightarrow> u16 \<Rightarrow> bytes \<Rightarrow> ctrl_event list \<Rightarrow> (unit + bytes \<times> u8) option" where
  "ctrl_read_event resp_arg msgq read_len rbuf [] = None"
| "ctrl_read_event resp_arg msgq read_len rbuf (Ctrl_resp_cb f a resp rlen # evs) =
     (if f = CTRL_READ_RESP_FN \<and> a = resp_arg
      then Some (case mctp_ctrl_read_resp_handler read_len rbuf resp rlen of None \<Rightarrow> Inl () | Some r \<Rightarrow> Inr r)
      else ctrl_read_event resp_arg msgq read_len rbuf evs)"
| "ctrl_read_event resp_arg msgq read_len rbuf (Ctrl_timeout_cb f a # evs) =
     (if f = CTRL_READ_TIMEOUT_FN \<and> a = msgq then Some (Inr (rbuf, mctp_ctrl_read_timeout_handler))
      else ctrl_read_event resp_arg msgq read_len rbuf evs)"

fun ctrl_msgq_wait ::
  "nat \<Rightarrow> nat \<Rightarrow> u16 \<Rightarrow> bytes \<Rightarrow> ctrl_input list \<Rightarrow> ctrl_state \<Rightarrow> (unit + ctrl_state \<times> bytes \<times> u8) option" where
  "ctrl_msgq_wait resp_arg msgq read_len rbuf [] st = None"
| "ctrl_msgq_wait resp_arg msgq read_len rbuf (i # inps) st =
     (case ctrl_input_step i st of
        None \<Rightarrow> Some (Inl ())
      | Some (st, evs) \<Rightarrow>
          (case ctrl_read_event resp_arg msgq read_len rbuf evs of
             None \<Rightarrow> ctrl_msgq_wait resp_arg msgq read_len rbuf inps st
           | Some (Inl _) \<Rightarrow> Some (Inl ())
           | Some (Inr (rbuf, status)) \<Rightarrow> Some (Inr (st, rbuf, status))))"

text \<open>
  \<open>alloc\<close> is the pair of addresses of the queue and of the argument block, if both allocations succeed; the
  other arguments are those of the send. The result is the state, the transport, the caller's buffer and
  the return code.
\<close>

definition ctrl_read_msg :: "nat \<Rightarrow> nat \<Rightarrow> mctp_ctrl_msg \<Rightarrow> mctp_ctrl_msg" where
  "ctrl_read_msg resp_arg msgq msg = msg\<lparr>ctm_recv_resp_cb_fn := Some CTRL_READ_RESP_FN, ctm_recv_resp_cb_args := resp_arg,
     ctm_timeout_cb_fn := Some CTRL_READ_TIMEOUT_FN, ctm_timeout_cb_fn_args := msgq, ctm_timeout_ms := DEFAULT_WAIT_TO_MS\<rparr>"

definition mctp_ctrl_read ::
  "(nat \<times> nat) option \<Rightarrow> nat option \<Rightarrow> int \<Rightarrow> 'w ctrl_send_fn \<Rightarrow> nat \<Rightarrow> mctp_ctrl_msg \<Rightarrow> ctrl_input list
   \<Rightarrow> ctrl_state \<Rightarrow> 'w \<Rightarrow> bytes \<Rightarrow> u16 \<Rightarrow> (unit + ctrl_state \<times> 'w \<times> bytes \<times> u8) option" where
  "mctp_ctrl_read alloc node now send inst msg inps st w rbuf read_len =
     (if ctm_cmd_data_len msg \<noteq> 0 \<and> ctm_cmd_data msg = None then Some (Inr (st, w, rbuf, MCTP_ERROR))
      else case alloc of
        None \<Rightarrow> Some (Inr (st, w, rbuf, MCTP_ERROR))
      | Some (msgq, resp_arg) \<Rightarrow>
          (case mctp_ctrl_send_msg node now send inst (ctrl_read_msg resp_arg msgq msg) st w of
             None \<Rightarrow> Some (Inl ())
           | Some (st, msg, w, rc) \<Rightarrow>
               if rc = MCTP_ERROR then Some (Inr (st, w, rbuf, MCTP_ERROR))
               else
                 (case ctrl_msgq_wait resp_arg msgq read_len rbuf inps st of
                    None \<Rightarrow> None
                  | Some (Inl _) \<Rightarrow> Some (Inl ())
                  | Some (Inr (st, rbuf, status)) \<Rightarrow>
                      Some (Inr (st, w, rbuf,
                        if status = MCTP_CTRL_READ_STATUS_SUCCESS then MCTP_SUCCESS else MCTP_ERROR)))))"

subsection \<open>Reference definitions and examples\<close>

text \<open>The requests that an input completes, the callback it runs for one of them, and the inputs that end a wait.\<close>

definition ctrl_finished :: "ctrl_input \<Rightarrow> ctrl_state \<Rightarrow> ctrl_wait_msg list" where
  "ctrl_finished i st =
     (case i of
        Ctrl_response_in lock_ok inst buf len \<Rightarrow>
          (if len = 0 \<or> \<not> lock_ok then []
           else case fst (remove_first (ctrl_resp_matches inst (mctp_ctrl_hdr_of buf)) (cs_wait_recv_resp_list st)) of
             None \<Rightarrow> [] | Some p \<Rightarrow> [p])
      | Ctrl_check_in lock_ok now \<Rightarrow>
          (if lock_ok then filter (\<lambda>p. cw_exp_to_ms p \<le> now) (cs_wait_recv_resp_list st) else []))"

definition ctrl_complete :: "ctrl_input \<Rightarrow> ctrl_state \<Rightarrow> (ctrl_state \<times> ctrl_wait_msg list) option" where
  "ctrl_complete i st = map_option (\<lambda>(st', _). (st', ctrl_finished i st)) (ctrl_input_step i st)"

fun ctrl_callback :: "ctrl_input \<Rightarrow> ctrl_wait_msg \<Rightarrow> ctrl_event list" where
  "ctrl_callback (Ctrl_response_in lock_ok inst buf len) p =
     (case ctm_recv_resp_cb_fn (cw_msg p) of None \<Rightarrow> []
      | Some f \<Rightarrow> [Ctrl_resp_cb f (ctm_recv_resp_cb_args (cw_msg p)) (drop 3 buf) (ucast (len - 3))])"
| "ctrl_callback (Ctrl_check_in lock_ok now) p = ctrl_timeout_event (cw_msg p)"

fun ctrl_due :: "ctrl_input \<Rightarrow> ctrl_wait_msg \<Rightarrow> bool" where
  "ctrl_due (Ctrl_response_in _ _ _ _) p = False"
| "ctrl_due (Ctrl_check_in lock_ok now) p = (lock_ok \<and> cw_exp_to_ms p \<le> now)"

text \<open>The inputs that may end a wait: a response on the instance with the id and command, or a late check.\<close>

fun ctrl_ends :: "ctrl_input \<Rightarrow> ctrl_wait_msg \<Rightarrow> bool" where
  "ctrl_ends (Ctrl_response_in lock_ok inst buf len) p = (lock_ok \<and> ctrl_resp_matches inst (mctp_ctrl_hdr_of buf) p)"
| "ctrl_ends (Ctrl_check_in lock_ok now) p = (lock_ok \<and> cw_exp_to_ms p \<le> now)"

text \<open>What the commands rely on of the platform.\<close>

definition plat_ok :: "ctrl_plat \<Rightarrow> bool" where
  "plat_ok pl = ((case pl_guid pl of None \<Rightarrow> True | Some u \<Rightarrow> length u = 16)
     \<and> (case pl_support_types pl of None \<Rightarrow> True
        | Some t \<Rightarrow> length t \<le> (if pl_malloc_ok pl then TYPES_BLOCK_SIZE else 0)))"

definition ports_ok :: "ctrl_plat \<Rightarrow> bool" where
  "ports_ok pl = (\<forall>i \<in> {..<unat (pl_port_count pl)}. pl_port pl i \<noteq> None)"

definition has_port :: "ctrl_plat \<Rightarrow> nat \<Rightarrow> bool" where
  "has_port pl inst = (\<exists>i \<in> {..<unat (pl_port_count pl)}. map_option mp_mctp_inst (pl_port pl i) = Some inst)"

text \<open>Every command ends, and what it returns fits the response buffer.\<close>

definition cmd_safe :: "mctp_ctrl_cmd_fn \<Rightarrow> bool" where
  "cmd_safe f = (\<forall>pl inst buf len env. plat_ok pl \<longrightarrow> 2 \<le> length buf \<longrightarrow>
     (\<exists>env' r. f pl inst buf len env = Some (env', r) \<and> cr_resp r \<noteq> [] \<and> cr_resp_len r \<noteq> 0
        \<and> unat (cr_resp_len r) \<le> length (cr_resp r) \<and> length (cr_resp r) \<le> 61 \<and> cr_rc r = MCTP_SUCCESS))"

definition record_send :: "bytes list ctrl_send_fn" where
  "record_send w bs ext = (w @ [bs], MCTP_SUCCESS)"

definition demo_ctrl_ext :: mctp_ext_params where
  "demo_ctrl_ext = \<lparr>xp_tag_owner = 0, xp_msg_tag = 0, xp_ep = 8, xp_type = MCTP_MEDIUM_TYPE_SMBUS, xp_addr = 0x20\<rparr>"

text \<open>Two instances at the addresses 0 and 1, both on SMBus, with the endpoint ids 8 and 9.\<close>

definition demo_ctrl_inst :: "u8 \<Rightarrow> mctp" where
  "demo_ctrl_inst eid = (the (mctp_init eid True))\<lparr>mi_medium_type := MCTP_MEDIUM_TYPE_SMBUS\<rparr>"

definition demo_ctrl_env :: ctrl_env where
  "demo_ctrl_env = \<lparr>ce_inst = (\<lambda>n. if n = 0 then demo_ctrl_inst 8 else demo_ctrl_inst 9), ce_calls = []\<rparr>"

definition demo_plat :: ctrl_plat where
  "demo_plat = \<lparr>pl_port_count = 2,
     pl_port = (\<lambda>i. if i < 2 then Some \<lparr>mp_mctp_inst = i, mp_channel_target = 0, mp_medium_type = MCTP_MEDIUM_TYPE_SMBUS,
                                       mp_conf = \<lparr>mc_bus = of_nat i, mc_addr = 0x20\<rparr>\<rparr> else None),
     pl_guid = None, pl_support_types = Some [0, 1], pl_malloc_ok = True\<rparr>"

definition ctrl_init :: ctrl_state where
  "ctrl_init = \<lparr>cs_inst_id = 0, cs_wait_recv_resp_list = []\<rparr>"

text \<open>Entries of the list that a reader made, and those of others\<close>

definition ctrl_of_reader :: "nat \<Rightarrow> nat \<Rightarrow> ctrl_wait_msg \<Rightarrow> bool" where
  "ctrl_of_reader resp_arg msgq p = (let m = cw_msg p in
     ctm_recv_resp_cb_fn m = Some CTRL_READ_RESP_FN \<and> ctm_recv_resp_cb_args m = resp_arg
     \<and> ctm_timeout_cb_fn m = Some CTRL_READ_TIMEOUT_FN \<and> ctm_timeout_cb_fn_args m = msgq)"

definition ctrl_of_others :: "nat \<Rightarrow> nat \<Rightarrow> ctrl_wait_msg \<Rightarrow> bool" where
  "ctrl_of_others resp_arg msgq p = (let m = cw_msg p in
     \<not> (ctm_recv_resp_cb_fn m = Some CTRL_READ_RESP_FN \<and> ctm_recv_resp_cb_args m = resp_arg)
     \<and> \<not> (ctm_timeout_cb_fn m = Some CTRL_READ_TIMEOUT_FN \<and> ctm_timeout_cb_fn_args m = msgq))"

text \<open>A received message lies in a buffer with a byte behind the header and room for what a reader copies.\<close>

fun ctrl_input_ok :: "u16 \<Rightarrow> ctrl_input \<Rightarrow> bool" where
  "ctrl_input_ok read_len (Ctrl_response_in lock_ok inst buf len) = (4 \<le> length buf \<and> 3 + unat read_len \<le> length buf)"
| "ctrl_input_ok read_len (Ctrl_check_in lock_ok now) = True"

text \<open>What a reader gets: an error and its buffer as it was, or the data of a response to its request with success code.\<close>

definition ctrl_read_data :: "u16 \<Rightarrow> bytes \<Rightarrow> bytes \<Rightarrow> u32 \<Rightarrow> bytes" where
  "ctrl_read_data read_len rbuf buf len = memcpy_at 0 (take (unat (min read_len (ucast (len - 3)))) (drop 3 buf)) rbuf"

definition ctrl_read_outcome :: "ctrl_wait_msg \<Rightarrow> u16 \<Rightarrow> bytes \<Rightarrow> ctrl_input set \<Rightarrow> bool \<Rightarrow> bytes \<Rightarrow> bool" where
  "ctrl_read_outcome p read_len rbuf inps success rbuf' =
     (if success then \<exists>inst buf len. Ctrl_response_in True inst buf len \<in> inps
          \<and> ctrl_resp_matches inst (mctp_ctrl_hdr_of buf) p \<and> buf ! 3 = MCTP_CTRL_CC_SUCCESS
          \<and> rbuf' = ctrl_read_data read_len rbuf buf len
      else rbuf' = rbuf)"

text \<open>The message as it is sent and the entry that waits for its response.\<close>

definition ctrl_sent_msg :: "ctrl_state \<Rightarrow> mctp_ctrl_msg \<Rightarrow> mctp_ctrl_msg" where
  "ctrl_sent_msg st msg = msg\<lparr>ctm_hdr := (ctm_hdr msg)\<lparr>cth_inst_id := ucast (cs_inst_id st AND MCTP_CTRL_INST_ID_MASK),
      cth_msg_type := MCTP_MSG_TYPE_CTRL\<rparr>, ctm_ext_params := (ctm_ext_params msg)\<lparr>xp_tag_owner := 1\<rparr>\<rparr>"

definition ctrl_new_wait :: "nat \<Rightarrow> nat \<Rightarrow> int \<Rightarrow> mctp_ctrl_msg \<Rightarrow> ctrl_wait_msg" where
  "ctrl_new_wait n inst now msg = \<lparr>cw_node = n, cw_mctp_inst = inst,
     cw_exp_to_ms = now + (if ctm_timeout_ms msg \<noteq> 0 then uint (ctm_timeout_ms msg) else uint DEFAULT_WAIT_TO_MS), cw_msg = msg\<rparr>"

definition demo_ctrl_msg :: mctp_ctrl_msg where
  "demo_ctrl_msg = \<lparr>ctm_hdr = \<lparr>cth_msg_type = 0, cth_ic = False, cth_inst_id = 0, cth_rsvd = False, cth_d = False, cth_rq = True,
       cth_cmd = 2\<rparr>, ctm_cmd_data = None, ctm_cmd_data_len = 0, ctm_ext_params = demo_ctrl_ext, ctm_recv_resp_cb_fn = None,
     ctm_recv_resp_cb_args = 0, ctm_timeout_ms = 0, ctm_timeout_cb_fn = None, ctm_timeout_cb_fn_args = 0\<rparr>"

section \<open>Properties\<close>

lemma ctrl_timeout_loop_eq:
  "ctrl_timeout_loop now ws = (filter (\<lambda>p. now < cw_exp_to_ms p) ws,
     concat (map (\<lambda>p. ctrl_timeout_event (cw_msg p)) (filter (\<lambda>p. cw_exp_to_ms p \<le> now) ws)))"
  by (induction ws) auto

lemma ctrl_callback_check: "ctrl_callback (Ctrl_check_in lock_ok now) = (\<lambda>p. ctrl_timeout_event (cw_msg p))"
  by auto

lemma ctrl_step_finished:
  assumes s: "ctrl_input_step i st = Some (st', evs)"
  shows "mset (cs_wait_recv_resp_list st) = mset (cs_wait_recv_resp_list st') + mset (ctrl_finished i st)"
    and "evs = concat (map (ctrl_callback i) (ctrl_finished i st))"
    and "p \<in> set (cs_wait_recv_resp_list st') \<Longrightarrow> \<not> ctrl_due i p"
proof -
  let ?L = "cs_wait_recv_resp_list st"
  have "mset ?L = mset (cs_wait_recv_resp_list st') + mset (ctrl_finished i st)
    \<and> evs = concat (map (ctrl_callback i) (ctrl_finished i st))
    \<and> (p \<in> set (cs_wait_recv_resp_list st') \<longrightarrow> \<not> ctrl_due i p)"
  proof (cases i)
    case (Ctrl_check_in lock_ok now)
    then show ?thesis using s multiset_partition [of "mset ?L" "\<lambda>p. cw_exp_to_ms p \<le> now"]
      by (auto simp: mctp_ctrl_msg_timeout_check_def ctrl_timeout_loop_eq ctrl_finished_def ctrl_callback_check not_le
          split: if_splits)
  next
    case (Ctrl_response_in lock_ok inst buf len)
    obtain r rest where rf: "remove_first (ctrl_resp_matches inst (mctp_ctrl_hdr_of buf)) ?L = (r, rest)" by force
    show ?thesis
    proof (cases r)
      case None
      then show ?thesis using s rf Ctrl_response_in
        by (auto simp: mctp_ctrl_cmd_resp_process_def ctrl_finished_def split: if_splits)
    next
      case (Some q)
      obtain us vs where "?L = us @ q # vs" "rest = us @ vs" using remove_first_Some rf Some by metis
      then show ?thesis using s rf Some Ctrl_response_in
        by (auto simp: mctp_ctrl_cmd_resp_process_def ctrl_finished_def split: if_splits)
    qed
  qed
  then show "mset ?L = mset (cs_wait_recv_resp_list st') + mset (ctrl_finished i st)"
    "evs = concat (map (ctrl_callback i) (ctrl_finished i st))"
    "p \<in> set (cs_wait_recv_resp_list st') \<Longrightarrow> \<not> ctrl_due i p" by blast+
qed

lemma ctrl_finished_ends: "p \<in> set (ctrl_finished i st) \<Longrightarrow> ctrl_ends i p"
proof (cases i)
  case (Ctrl_response_in lock_ok inst buf len)
  assume p: "p \<in> set (ctrl_finished i st)"
  obtain r rest where rf: "remove_first (ctrl_resp_matches inst (mctp_ctrl_hdr_of buf)) (cs_wait_recv_resp_list st) = (r, rest)" by force
  have "r = Some p \<and> lock_ok" using p rf by (auto simp: ctrl_finished_def Ctrl_response_in split: option.splits if_splits)
  then show ?thesis using remove_first_Some rf Ctrl_response_in by (metis ctrl_ends.simps(1))
qed (auto simp: ctrl_finished_def split: if_splits)

interpretation ctrl_wait: wait_list_events "\<lambda>_. True" cs_wait_recv_resp_list ctrl_complete ctrl_ends ctrl_due ctrl_input_step ctrl_callback
proof unfold_locales
  fix st st' :: ctrl_state and i :: ctrl_input and ns :: "ctrl_wait_msg list" and p :: ctrl_wait_msg
  {
    assume "ctrl_complete i st = Some (st', ns)"
    then obtain evs where s: "ctrl_input_step i st = Some (st', evs)" and ns: "ns = ctrl_finished i st"
      by (auto simp: ctrl_complete_def)
    show "mset (cs_wait_recv_resp_list st) = mset (cs_wait_recv_resp_list st') + mset ns"
      using ctrl_step_finished(1) [OF s] ns by simp
    show "\<not> ctrl_due i p" if "p \<in> set (cs_wait_recv_resp_list st')" using ctrl_step_finished(3) [OF s that] .
    show "ctrl_ends i p" if "p \<in> set ns" using ctrl_finished_ends that ns by blast
  }
  show "ctrl_input_step i st = map_option (\<lambda>(s', ns). (s', concat (map (ctrl_callback i) ns))) (ctrl_complete i st)"
    using ctrl_step_finished(2) [of i st] by (cases "ctrl_input_step i st") (auto simp: ctrl_complete_def)
qed simp_all

lemma mctp_ctrl_hdr_of_bytes [simp]: "mctp_ctrl_hdr_of (mctp_ctrl_hdr_bytes h @ bs) = h"
proof -
  have n: "nth0 ([a, b, c] @ bs) 0 = a" "nth0 ([a, b, c] @ bs) 1 = b" "nth0 ([a, b, c] @ bs) 2 = c" for a b c
    by (simp_all add: nth0_def)
  show ?thesis unfolding mctp_ctrl_hdr_of_def mctp_ctrl_hdr_bytes_def n msg_type_byte req_d_id_byte by simp
qed

lemma length_mctp_ctrl_hdr_bytes [simp]: "length (mctp_ctrl_hdr_bytes h) = 3"
  by (simp add: mctp_ctrl_hdr_bytes_def)

lemma search_port_found:
  assumes "\<And>i. i \<in> set inds \<Longrightarrow> get i \<noteq> None" and "i \<in> set inds" and "map_option mp_mctp_inst (get i) = Some m" and "test m"
  obtains n where "search_port get test inds = Port_found n" "test n"
proof -
  have "\<exists>n. search_port get test inds = Port_found n \<and> test n"
    using assms(1,2) by (induction inds) (use assms(3,4) in \<open>auto split: option.split\<close>)
  then show thesis using that by blast
qed

lemma set_endpoint_id_safe: "cmd_safe mctp_ctrl_cmd_set_endpoint_id"
  by (auto simp: cmd_safe_def mctp_ctrl_cmd_set_endpoint_id_def Let_def)

lemma get_endpoint_id_safe: "cmd_safe mctp_ctrl_cmd_get_endpoint_id"
  by (auto simp: cmd_safe_def mctp_ctrl_cmd_get_endpoint_id_def Let_def)

lemma get_endpoint_uuid_safe: "cmd_safe mctp_ctrl_cmd_get_endpoint_uuid"
  by (auto simp: cmd_safe_def mctp_ctrl_cmd_get_endpoint_uuid_def plat_ok_def split: option.splits)

lemma type_len_word: "n \<le> 4 \<Longrightarrow> unat (2 + ucast (of_nat n :: u8) :: u16) = n + 2"
proof -
  assume "n \<le> 4"
  then have "n \<in> {0, 1, 2, 3, 4}" by auto
  then show ?thesis by auto
qed

lemma get_message_type_support_safe: "cmd_safe mctp_ctrl_cmd_get_message_type_support"
proof -
  have nz: "(2 + ucast (of_nat n :: u8) :: u16) \<noteq> 0" if "n \<le> 4" for n
    using type_len_word [OF that] by auto
  show ?thesis
    by (auto simp: cmd_safe_def mctp_ctrl_cmd_get_message_type_support_def plat_ok_def Let_def TYPES_BLOCK_SIZE_def
        type_len_word nz split: option.splits if_splits)
qed

lemma ctrl_command_safe:
  assumes "plat_ok pl" and "5 \<le> length buf"
  shows "\<exists>env' r. ctrl_command pl inst buf len env = Some (env', r) \<and> cr_resp r \<noteq> [] \<and> cr_resp_len r \<noteq> 0
      \<and> unat (cr_resp_len r) \<le> length (cr_resp r) \<and> length (cr_resp r) \<le> 61
      \<and> (cth_cmd (mctp_ctrl_hdr_of buf) \<notin> {1, 2, 3, 5} \<longrightarrow> env' = env \<and> cr_resp r = [MCTP_CTRL_CC_ERROR_UNSUPPORTED_CMD])"
proof (cases "map_of mctp_ctrl_cmd_tbl (cth_cmd (mctp_ctrl_hdr_of buf))")
  case None
  then show ?thesis by (simp add: ctrl_command_def)
next
  case (Some f)
  then have f: "cmd_safe f" and c: "cth_cmd (mctp_ctrl_hdr_of buf) \<in> {1, 2, 3, 5}"
    using set_endpoint_id_safe get_endpoint_id_safe get_endpoint_uuid_safe get_message_type_support_safe
    by (auto simp: mctp_ctrl_cmd_tbl_def mctp_ctrl_consts split: if_splits)
  have "2 \<le> length (drop 3 buf)" using assms(2) by simp
  then obtain env' r where "f pl inst (drop 3 buf) (ucast (len - 3)) env = Some (env', r)" "cr_resp r \<noteq> []" "cr_resp_len r \<noteq> 0"
    "unat (cr_resp_len r) \<le> length (cr_resp r)" "length (cr_resp r) \<le> 61" "cr_rc r = MCTP_SUCCESS"
    using f [unfolded cmd_safe_def, rule_format, OF assms(1), of "drop 3 buf" inst "ucast (len - 3)" env] by auto
  then show ?thesis using Some c by (simp add: ctrl_command_def mctp_consts)
qed

text \<open>
  Every control request in a buffer that holds its header and two more bytes is answered with one
  message of at most 64 bytes that repeats its header with the request bit cleared; a command that the
  endpoint does not know is answered with the code for it and changes nothing.
\<close>

theorem mctp_ctrl_request_answered:
  assumes "plat_ok pl" and "5 \<le> length buf" and "len \<noteq> 0" and "cth_rq (mctp_ctrl_hdr_of buf)"
  shows "\<exists>env' bs. mctp_ctrl_cmd_handler pl lock_ok send inst buf len ext st env w
      = Some (st, env', fst (send w bs ext), [], snd (send w bs ext))
    \<and> mctp_ctrl_hdr_of bs = (mctp_ctrl_hdr_of buf)\<lparr>cth_rq := False\<rparr> \<and> 3 < length bs \<and> length bs \<le> 64
    \<and> (cth_cmd (mctp_ctrl_hdr_of buf) \<notin> {1, 2, 3, 5} \<longrightarrow> env' = env \<and> drop 3 bs = [MCTP_CTRL_CC_ERROR_UNSUPPORTED_CMD])"
proof -
  from ctrl_command_safe [OF assms(1,2), of inst len env] obtain env' r where
    c: "ctrl_command pl inst buf len env = Some (env', r)" and r: "cr_resp r \<noteq> []" "cr_resp_len r \<noteq> 0"
      "unat (cr_resp_len r) \<le> length (cr_resp r)" "length (cr_resp r) \<le> 61"
    and u: "cth_cmd (mctp_ctrl_hdr_of buf) \<notin> {1, 2, 3, 5} \<longrightarrow> env' = env \<and> cr_resp r = [MCTP_CTRL_CC_ERROR_UNSUPPORTED_CMD]"
    by blast
  define n where "n = unat (cr_resp_len r)"
  have n: "0 < n" "n \<le> length (cr_resp r)" using r by (auto simp: n_def unat_gt_0)
  define bs where "bs = mctp_ctrl_hdr_bytes ((mctp_ctrl_hdr_of buf)\<lparr>cth_rq := False\<rparr>) @ take n (cr_resp r)"
  have "mctp_ctrl_cmd_handler pl lock_ok send inst buf len ext st env w
      = Some (st, env', fst (send w bs ext), [], snd (send w bs ext))"
    using assms(2-4) c r n unfolding mctp_ctrl_cmd_handler_def Let_def n_def [symmetric] bs_def
    by (simp add: case_prod_beta MCTP_BASE_LINE_UNIT_def n_def [symmetric])
  moreover have "drop 3 bs = take n (cr_resp r)" "length bs = 3 + n" using n by (simp_all add: bs_def)
  moreover have "mctp_ctrl_hdr_of bs = (mctp_ctrl_hdr_of buf)\<lparr>cth_rq := False\<rparr>" by (simp add: bs_def)
  ultimately show ?thesis using n r u by (intro exI [of _ env'] exI [of _ bs]) auto
qed

theorem mctp_ctrl_request_answered_witness:
  "\<exists>env' bs. mctp_ctrl_cmd_handler demo_plat True record_send 0 [0, 0x83, 0x7F, 0, 0] 3 demo_ctrl_ext ctrl_init demo_ctrl_env []
      = Some (ctrl_init, env', [bs], [], MCTP_SUCCESS)
    \<and> env' = demo_ctrl_env \<and> drop 3 bs = [5] \<and> cth_inst_id (mctp_ctrl_hdr_of bs) = 3 \<and> \<not> cth_rq (mctp_ctrl_hdr_of bs)"
proof -
  have "plat_ok demo_plat" by (simp add: plat_ok_def demo_plat_def TYPES_BLOCK_SIZE_def)
  moreover have "cth_rq (mctp_ctrl_hdr_of [0, 0x83, 0x7F, 0, 0])" by (simp add: mctp_ctrl_hdr_of_def nth0_def)
  moreover have "cth_inst_id (mctp_ctrl_hdr_of [0, 0x83, 0x7F, 0, 0]) = 3" "cth_cmd (mctp_ctrl_hdr_of [0, 0x83, 0x7F, 0, 0]) = 0x7F"
    by (simp_all add: mctp_ctrl_hdr_of_def nth0_def)
  ultimately show ?thesis
    using mctp_ctrl_request_answered [of demo_plat "[0, 0x83, 0x7F, 0, 0]" 3 True record_send 0 demo_ctrl_ext ctrl_init demo_ctrl_env "[]"]
    by (auto simp: record_send_def mctp_ctrl_consts)
qed

text \<open>
  (C32) Endpoint ids: when every port exists and the instance has one, Set Endpoint ID stores the id in that
  instance alone, and a following Get Endpoint ID on the same instance reports the id of the first port
  of the same medium. That is the id just set when this port belongs to the instance, and otherwise the
  unchanged id of another instance.
\<close>

theorem mctp_ctrl_set_get_eid:
  assumes "ports_ok pl" and "has_port pl inst" and "2 \<le> length buf"
  shows "\<exists>n env' r1 r2.
    search_port (pl_port pl) (\<lambda>k. mi_medium_type (ce_inst env k) = mi_medium_type (ce_inst env inst)) [0..<unat (pl_port_count pl)]
      = Port_found n
    \<and> mctp_ctrl_cmd_set_endpoint_id pl inst buf len env = Some (env', r1) \<and> cr_resp r1 = [MCTP_CTRL_CC_SUCCESS, 0, buf ! 1, 0]
    \<and> ce_inst env' = (ce_inst env)(inst := (ce_inst env inst)\<lparr>mi_endpoint := buf ! 1\<rparr>)
    \<and> mctp_ctrl_cmd_get_endpoint_id pl inst buf2 len2 env' = Some (env', r2)
    \<and> cr_resp r2 = [MCTP_CTRL_CC_SUCCESS, if n = inst then buf ! 1 else mi_endpoint (ce_inst env n), 0, 0]"
proof -
  let ?inds = "[0..<unat (pl_port_count pl)]"
  let ?same = "\<lambda>k. mi_medium_type (ce_inst env k) = mi_medium_type (ce_inst env inst)"
  have ok: "\<And>i. i \<in> set ?inds \<Longrightarrow> pl_port pl i \<noteq> None" using assms(1) by (auto simp: ports_ok_def)
  obtain i where i: "i \<in> set ?inds" "map_option mp_mctp_inst (pl_port pl i) = Some inst"
    using assms(2) by (auto simp: has_port_def)
  then have c0: "pl_port_count pl \<noteq> 0" by auto
  obtain n where n: "search_port (pl_port pl) ?same ?inds = Port_found n"
    by (rule search_port_found [where get = "pl_port pl" and test = ?same, OF ok i refl])
  have s: "search_port (pl_port pl) (\<lambda>k. k = inst) ?inds = Port_found inst"
    using search_port_found [where get = "pl_port pl" and test = "\<lambda>k. k = inst", OF ok i refl] by metis
  define env' where "env' = \<lparr>ce_inst = (ce_inst env)(inst := (ce_inst env inst)\<lparr>mi_endpoint := buf ! 1\<rparr>),
    ce_calls = ce_calls env @ [Update_mctp_routing_table (buf ! 1)]\<rparr>"
  have same: "(\<lambda>k. mi_medium_type (ce_inst env' k) = mi_medium_type (ce_inst env' inst)) = ?same"
    by (auto simp: env'_def)
  have set: "mctp_ctrl_cmd_set_endpoint_id pl inst buf len env
      = Some (env', \<lparr>cr_resp = [MCTP_CTRL_CC_SUCCESS, 0, buf ! 1, 0], cr_resp_len = 4, cr_rc = MCTP_SUCCESS\<rparr>)"
    using assms(3) c0 by (simp add: mctp_ctrl_cmd_set_endpoint_id_def Let_def s env'_def)
  have get: "mctp_ctrl_cmd_get_endpoint_id pl inst buf2 len2 env'
      = Some (env', \<lparr>cr_resp = [MCTP_CTRL_CC_SUCCESS, mi_endpoint (ce_inst env' n), 0, 0], cr_resp_len = 4, cr_rc = MCTP_SUCCESS\<rparr>)"
    using c0 by (simp add: mctp_ctrl_cmd_get_endpoint_id_def Let_def same n)
  show ?thesis using n set get by (intro exI conjI) (auto simp: env'_def)
qed

theorem mctp_ctrl_set_get_eid_witness:
  "\<exists>env' r1 r2. mctp_ctrl_cmd_set_endpoint_id demo_plat 1 [0, 0x33] 2 demo_ctrl_env = Some (env', r1)
    \<and> mi_endpoint (ce_inst env' 1) = 0x33
    \<and> mctp_ctrl_cmd_get_endpoint_id demo_plat 1 [] 0 env' = Some (env', r2) \<and> cr_resp r2 = [0, 8, 0, 0]"
proof -
  have "ports_ok demo_plat" "has_port demo_plat 1" by (auto simp: ports_ok_def has_port_def demo_plat_def)
  moreover have "search_port (pl_port demo_plat)
      (\<lambda>k. mi_medium_type (ce_inst demo_ctrl_env k) = mi_medium_type (ce_inst demo_ctrl_env 1)) [0..<unat (pl_port_count demo_plat)]
      = Port_found 0"
    by (simp add: demo_plat_def demo_ctrl_env_def demo_ctrl_inst_def upt_conv_Cons)
  moreover have "mi_endpoint (ce_inst demo_ctrl_env 0) = 8" by (simp add: demo_ctrl_env_def demo_ctrl_inst_def mctp_init_def)
  ultimately show ?thesis
    using mctp_ctrl_set_get_eid [of demo_plat 1 "[0, 0x33]" demo_ctrl_env 2 "[]" 0] by (auto simp: mctp_ctrl_consts)
qed

lemma outcome_mono: "ctrl_read_outcome p read_len rbuf A s rbuf' \<Longrightarrow> A \<subseteq> B \<Longrightarrow> ctrl_read_outcome p read_len rbuf B s rbuf'"
  by (auto simp: ctrl_read_outcome_def split: if_splits)

lemma read_event_others:
  "\<forall>q \<in> set ns. ctrl_of_others resp_arg msgq q \<Longrightarrow>
   ctrl_read_event resp_arg msgq read_len rbuf (concat (map (ctrl_callback i) ns) @ evs)
     = ctrl_read_event resp_arg msgq read_len rbuf evs"
proof (induction ns)
  case (Cons q ns)
  then show ?case by (cases i) (auto simp: ctrl_of_others_def Let_def ctrl_timeout_event_def split: option.split)
qed simp

lemma read_event_reader:
  assumes "ctrl_of_reader resp_arg msgq p" and "ctrl_input_ok read_len i" and "unat read_len \<le> length rbuf"
    and "p \<in> set (ctrl_finished i st)"
  shows "\<exists>rbuf' status. ctrl_read_event resp_arg msgq read_len rbuf (ctrl_callback i p @ evs) = Some (Inr (rbuf', status))
    \<and> ctrl_read_outcome p read_len rbuf {i} (status = MCTP_CTRL_READ_STATUS_SUCCESS) rbuf'"
proof (cases i)
  case (Ctrl_check_in lock_ok now)
  then show ?thesis using assms(1)
    by (simp add: ctrl_of_reader_def Let_def ctrl_timeout_event_def ctrl_read_outcome_def mctp_ctrl_read_timeout_handler_def mctp_ctrl_consts)
next
  case (Ctrl_response_in lock_ok inst buf len)
  let ?L = "cs_wait_recv_resp_list st" and ?m = "ctrl_resp_matches inst (mctp_ctrl_hdr_of buf)"
  have l: "lock_ok" and f: "fst (remove_first ?m ?L) = Some p"
    using assms(4) Ctrl_response_in by (auto simp: ctrl_finished_def split: if_splits option.splits)
  have m: "?m p" using f remove_first_Some [of ?m ?L p "snd (remove_first ?m ?L)"] by (metis prod.collapse)
  have b: "drop 3 buf \<noteq> []" "drop 3 buf ! 0 = buf ! 3" using assms(2) Ctrl_response_in by auto
  let ?n = "unat (if ucast (len - 3) > read_len then read_len else ucast (len - 3) :: u16)"
  have n: "?n \<le> unat read_len" by (auto simp: word_less_nat_alt)
  have n': "?n = unat (min read_len (ucast (len - 3)))" by (auto simp: min_def)
  have fit: "\<not> (length (drop 3 buf) < ?n \<or> length rbuf < ?n)"
    using assms(2,3) n Ctrl_response_in by auto
  show ?thesis
  proof (cases "buf ! 3 = MCTP_CTRL_CC_SUCCESS")
    case True
    then have "mctp_ctrl_read_resp_handler read_len rbuf (drop 3 buf) (ucast (len - 3))
        = Some (ctrl_read_data read_len rbuf buf len, MCTP_CTRL_READ_STATUS_SUCCESS)"
      using b fit unfolding mctp_ctrl_read_resp_handler_def Let_def n' by (simp add: ctrl_read_data_def)
    then show ?thesis using assms(1) Ctrl_response_in l m True
      by (auto simp: ctrl_of_reader_def Let_def ctrl_read_outcome_def)
  next
    case False
    then have "mctp_ctrl_read_resp_handler read_len rbuf (drop 3 buf) (ucast (len - 3)) = Some (rbuf, MCTP_CTRL_READ_STATUS_CC_ERROR)"
      using b unfolding mctp_ctrl_read_resp_handler_def Let_def by simp
    then show ?thesis using assms(1) Ctrl_response_in
      by (simp add: ctrl_of_reader_def Let_def ctrl_read_outcome_def mctp_ctrl_consts)
  qed
qed

lemma input_ok_steps: "ctrl_input_ok read_len i \<Longrightarrow> \<exists>st' evs. ctrl_input_step i st = Some (st', evs)"
  by (cases i) (auto simp: mctp_ctrl_cmd_resp_process_def mctp_ctrl_msg_timeout_check_def split: prod.split option.split)

lemma ctrl_wait_returns:
  assumes rd: "ctrl_of_reader resp_arg msgq p" and "p \<in> set (cs_wait_recv_resp_list st)"
    and "\<forall>q \<in># mset (cs_wait_recv_resp_list st) - {#p#}. ctrl_of_others resp_arg msgq q"
    and "\<forall>i \<in> set inps. ctrl_input_ok read_len i" and rl: "unat read_len \<le> length rbuf"
    and "\<exists>i \<in> set inps. ctrl_due i p"
  shows "\<exists>st' rbuf' status. ctrl_msgq_wait resp_arg msgq read_len rbuf inps st = Some (Inr (st', rbuf', status))
    \<and> mset (cs_wait_recv_resp_list st') \<subseteq># mset (cs_wait_recv_resp_list st) - {#p#}
    \<and> ctrl_read_outcome p read_len rbuf (set inps) (status = MCTP_CTRL_READ_STATUS_SUCCESS) rbuf'"
  using assms(2-4,6)
proof (induction inps arbitrary: st)
  case (Cons i inps)
  let ?L = "cs_wait_recv_resp_list st" and ?ns = "ctrl_finished i st"
  obtain st1 evs where s: "ctrl_input_step i st = Some (st1, evs)" using input_ok_steps [of read_len i st] Cons.prems(3) by auto
  note f = ctrl_step_finished [OF s]
  let ?L1 = "cs_wait_recv_resp_list st1"
  show ?case
  proof (cases "p \<in> set ?ns")
    case True
    then obtain as bs where ns: "?ns = as @ p # bs" by (meson split_list)
    have m: "mset ?L - {#p#} = mset ?L1 + mset as + mset bs" using f(1) ns by simp
    have "\<forall>q \<in> set as. ctrl_of_others resp_arg msgq q" using Cons.prems(2) unfolding m by auto
    with read_event_others [of as resp_arg msgq read_len rbuf i "ctrl_callback i p @ concat (map (ctrl_callback i) bs)"]
      read_event_reader [OF rd _ rl True, of "concat (map (ctrl_callback i) bs)"] Cons.prems(3)
    obtain rbuf' status where "ctrl_read_event resp_arg msgq read_len rbuf evs = Some (Inr (rbuf', status))"
      "ctrl_read_outcome p read_len rbuf {i} (status = MCTP_CTRL_READ_STATUS_SUCCESS) rbuf'"
      unfolding f(2) ns by auto
    then show ?thesis using s m outcome_mono [of p read_len rbuf "{i}" _ rbuf' "set (i # inps)"] by auto
  next
    case False
    have p1: "p \<in> set ?L1" using f(1) Cons.prems(1) False by (metis union_iff set_mset_mset)
    have m: "mset ?L - {#p#} = (mset ?L1 - {#p#}) + mset ?ns" using f(1) p1 by simp
    have o: "\<forall>q \<in> set ?ns. ctrl_of_others resp_arg msgq q" "\<forall>q \<in># mset ?L1 - {#p#}. ctrl_of_others resp_arg msgq q"
      using Cons.prems(2) unfolding m by auto
    have e: "ctrl_read_event resp_arg msgq read_len rbuf evs = None"
      using read_event_others [OF o(1), of read_len rbuf i "[]"] by (simp add: f(2))
    have "\<not> ctrl_due i p" by (rule f(3) [OF p1])
    then have d: "\<exists>j \<in> set inps. ctrl_due j p" using Cons.prems(4) by auto
    obtain st' rbuf' status where r: "ctrl_msgq_wait resp_arg msgq read_len rbuf inps st1 = Some (Inr (st', rbuf', status))"
      "mset (cs_wait_recv_resp_list st') \<subseteq># mset ?L1 - {#p#}"
      "ctrl_read_outcome p read_len rbuf (set inps) (status = MCTP_CTRL_READ_STATUS_SUCCESS) rbuf'"
      using Cons.IH [OF p1 o(2) _ d] Cons.prems(3) by auto
    then have "mset (cs_wait_recv_resp_list st') \<subseteq># mset ?L - {#p#}"
      unfolding m by (metis subset_mset.add_increasing2 subset_mset.zero_le)
    then show ?thesis using s e r outcome_mono [OF r(3), of "set (i # inps)"] by auto
  qed
qed simp

lemma ctrl_send_request:
  assumes "cth_rq (ctm_hdr msg)" and "ctrl_send_bytes (ctrl_sent_msg st msg) = Some bs"
    and "send w bs (ctm_ext_params (ctrl_sent_msg st msg)) = (w', rc)" and "rc \<noteq> MCTP_ERROR"
    and "ctm_cmd_data_len msg = 0 \<or> ctm_cmd_data msg \<noteq> None"
  shows "mctp_ctrl_send_msg (Some n) now send inst msg st w
    = Some (\<lparr>cs_inst_id = cs_inst_id st + 1,
             cs_wait_recv_resp_list = cs_wait_recv_resp_list st @ [ctrl_new_wait n inst now (ctrl_sent_msg st msg)]\<rparr>,
            ctrl_sent_msg st msg, w', MCTP_SUCCESS)"
proof -
  have t: "ctm_timeout_ms (ctrl_sent_msg st msg) = ctm_timeout_ms msg" by (simp add: ctrl_sent_msg_def)
  from assms show ?thesis
    unfolding mctp_ctrl_send_msg_def Let_def ctrl_sent_msg_def [symmetric] ctrl_new_wait_def
    by (cases st) auto
qed

text \<open>
  (C14) The blocking read of a control response returns: when its request is sent and the inputs that follow
  include a time-out check 3 seconds later that gets the mutex, the call ends, its request waits no
  longer and no other request was added. It reports success only with the data of a response to its
  request whose completion code is success, cut to the caller's buffer, and otherwise leaves that buffer
  as it was.
\<close>

theorem mctp_ctrl_read_returns:
  assumes "cth_rq (ctm_hdr msg)" and "ctm_cmd_data_len msg = 0 \<or> ctm_cmd_data msg \<noteq> None"
    and "ctrl_send_bytes (ctrl_sent_msg st (ctrl_read_msg resp_arg msgq msg)) = Some bs"
    and "send w bs (ctm_ext_params (ctrl_sent_msg st msg)) = (w', rc)" and "rc \<noteq> MCTP_ERROR"
    and "\<forall>q \<in> set (cs_wait_recv_resp_list st). ctrl_of_others resp_arg msgq q"
    and "\<forall>i \<in> set inps. ctrl_input_ok read_len i" and "unat read_len \<le> length rbuf"
    and "Ctrl_check_in True t \<in> set inps" and "now + 3000 \<le> t"
  shows "\<exists>st' rbuf' ret.
    mctp_ctrl_read (Some (msgq, resp_arg)) (Some n) now send inst msg inps st w rbuf read_len = Some (Inr (st', w', rbuf', ret))
    \<and> mset (cs_wait_recv_resp_list st') \<subseteq># mset (cs_wait_recv_resp_list st)
    \<and> ret \<in> {MCTP_SUCCESS, MCTP_ERROR}
    \<and> ctrl_read_outcome (ctrl_new_wait n inst now (ctrl_sent_msg st (ctrl_read_msg resp_arg msgq msg))) read_len rbuf (set inps)
        (ret = MCTP_SUCCESS) rbuf'"
proof -
  let ?m = "ctrl_read_msg resp_arg msgq msg"
  let ?p = "ctrl_new_wait n inst now (ctrl_sent_msg st ?m)"
  let ?st = "\<lparr>cs_inst_id = cs_inst_id st + 1, cs_wait_recv_resp_list = cs_wait_recv_resp_list st @ [?p]\<rparr>"
  have fields: "cth_rq (ctm_hdr ?m)" "ctm_cmd_data_len ?m = 0 \<or> ctm_cmd_data ?m \<noteq> None"
    "ctm_ext_params (ctrl_sent_msg st ?m) = ctm_ext_params (ctrl_sent_msg st msg)"
    using assms(1,2) by (simp_all add: ctrl_read_msg_def ctrl_sent_msg_def)
  have s: "mctp_ctrl_send_msg (Some n) now send inst ?m st w = Some (?st, ctrl_sent_msg st ?m, w', MCTP_SUCCESS)"
    by (rule ctrl_send_request [OF fields(1) assms(3) _ assms(5) fields(2)]) (simp add: fields(3) assms(4))
  have rd: "ctrl_of_reader resp_arg msgq ?p"
    by (simp add: ctrl_of_reader_def ctrl_new_wait_def ctrl_sent_msg_def ctrl_read_msg_def)
  have "cw_exp_to_ms ?p = now + 3000"
    by (simp add: ctrl_new_wait_def ctrl_sent_msg_def ctrl_read_msg_def DEFAULT_WAIT_TO_MS_def)
  then have due: "\<exists>i \<in> set inps. ctrl_due i ?p" using assms(9,10) by (metis ctrl_due.simps(2))
  from ctrl_wait_returns [OF rd, of ?st inps read_len rbuf, OF _ _ assms(7,8) due] assms(6)
  obtain st' rbuf' status where "ctrl_msgq_wait resp_arg msgq read_len rbuf inps ?st = Some (Inr (st', rbuf', status))"
    "mset (cs_wait_recv_resp_list st') \<subseteq># mset (cs_wait_recv_resp_list st)"
    "ctrl_read_outcome ?p read_len rbuf (set inps) (status = MCTP_CTRL_READ_STATUS_SUCCESS) rbuf'"
    by auto
  moreover have "\<not> (ctm_cmd_data_len msg \<noteq> 0 \<and> ctm_cmd_data msg = None)" using assms(2) by auto
  ultimately show ?thesis unfolding mctp_ctrl_read_def by (auto simp: s mctp_consts)
qed

theorem mctp_ctrl_read_returns_witness:
  "\<exists>st' rbuf' ret.
    mctp_ctrl_read (Some (10, 20)) (Some 30) 0 record_send 0 demo_ctrl_msg
      [Ctrl_check_in True 1000, Ctrl_response_in True 1 [0, 0, 2, 0, 9, 0, 0] 7, Ctrl_check_in True 3000] ctrl_init [] [7, 7, 7, 7] 4
      = Some (Inr (st', [[0, 0x80, 2]], rbuf', ret))
    \<and> cs_wait_recv_resp_list st' = [] \<and> ret = MCTP_ERROR \<and> rbuf' = [7, 7, 7, 7]"
proof -
  let ?inps = "[Ctrl_check_in True 1000, Ctrl_response_in True 1 [0, 0, 2, 0, 9, 0, 0] 7, Ctrl_check_in True 3000]"
  have 1: "cth_rq (ctm_hdr demo_ctrl_msg)" "ctm_cmd_data_len demo_ctrl_msg = 0 \<or> ctm_cmd_data demo_ctrl_msg \<noteq> None"
    by (simp_all add: demo_ctrl_msg_def)
  have 2: "ctrl_send_bytes (ctrl_sent_msg ctrl_init (ctrl_read_msg 20 10 demo_ctrl_msg)) = Some [0, 0x80, 2]"
    by (simp add: ctrl_send_bytes_def ctrl_sent_msg_def ctrl_read_msg_def demo_ctrl_msg_def ctrl_init_def mctp_ctrl_hdr_bytes_def
        flag_def mctp_ctrl_consts push_bit_eq_mult)
  have 3: "record_send [] [0, 0x80, 2] (ctm_ext_params (ctrl_sent_msg ctrl_init demo_ctrl_msg)) = ([[0, 0x80, 2]], MCTP_SUCCESS)"
    by (simp add: record_send_def)
  have 4: "\<forall>q \<in> set (cs_wait_recv_resp_list ctrl_init). ctrl_of_others 20 10 q" "\<forall>i \<in> set ?inps. ctrl_input_ok 4 i"
    "unat (4 :: u16) \<le> length [7 :: u8, 7, 7, 7]" "Ctrl_check_in True 3000 \<in> set ?inps" "(0 :: int) + 3000 \<le> 3000"
    by (simp_all add: ctrl_init_def)
  have "MCTP_SUCCESS \<noteq> MCTP_ERROR" by (simp add: mctp_consts)
  from mctp_ctrl_read_returns [where send = record_send and w = "[]" and n = 30 and inst = 0, OF 1 2 3 this 4] obtain st' rbuf' ret where
    r: "mctp_ctrl_read (Some (10, 20)) (Some 30) 0 record_send 0 demo_ctrl_msg ?inps ctrl_init [] [7, 7, 7, 7] 4
      = Some (Inr (st', [[0, 0x80, 2]], rbuf', ret))"
    and l: "mset (cs_wait_recv_resp_list st') \<subseteq># mset (cs_wait_recv_resp_list ctrl_init)"
    and o: "ret \<in> {MCTP_SUCCESS, MCTP_ERROR}" "ctrl_read_outcome (ctrl_new_wait 30 0 0 (ctrl_sent_msg ctrl_init (ctrl_read_msg 20 10 demo_ctrl_msg)))
      4 [7, 7, 7, 7] (set ?inps) (ret = MCTP_SUCCESS) rbuf'"
    by blast
  have "\<not> ret = MCTP_SUCCESS"
    using o(2) by (auto simp: ctrl_read_outcome_def ctrl_resp_matches_def ctrl_new_wait_def Let_def split: if_splits)
  then show ?thesis using r l o by (auto simp: ctrl_read_outcome_def ctrl_init_def)
qed

text \<open>
  Every control request completes exactly once or still waits at the end: the callbacks that ran are those of one
  completion of each request that completed, by its response or by a check after its expiry that got the
  mutex, and a request that still waits has met no such check.
\<close>

theorem mctp_ctrl_exactly_once:
  assumes "steps ctrl_input_step inps st = Some (st', evs)"
  shows "(\<exists>ds. mset (map snd ds) + mset (cs_wait_recv_resp_list st') = mset (cs_wait_recv_resp_list st)
        \<and> evs = concat (map (\<lambda>(i, p). ctrl_callback i p) ds) \<and> (\<forall>(i, p) \<in> set ds. i \<in> set inps \<and> ctrl_ends i p))
    \<and> (\<forall>p \<in> set (cs_wait_recv_resp_list st'). \<forall>now. Ctrl_check_in True now \<in> set inps \<longrightarrow> now < cw_exp_to_ms p)"
proof -
  from ctrl_wait.completions [OF TrueI assms] have
    "\<forall>p \<in> set (cs_wait_recv_resp_list st'). \<forall>i \<in> set inps. \<not> ctrl_due i p" by blast
  then have "\<forall>p \<in> set (cs_wait_recv_resp_list st'). \<forall>now. Ctrl_check_in True now \<in> set inps \<longrightarrow> now < cw_exp_to_ms p"
    by (metis ctrl_due.simps(2) not_le)
  then show ?thesis using ctrl_wait.completions [OF TrueI assms] by blast
qed

end
