(* ===== verification/Id_Pool.thy ===== *)
theory Id_Pool
  imports Prelude
begin

text \<open>
  The contract of a pool of message identifiers, as the request tables of PLDM and IPMB keep one:
  allocating returns an identifier that is not in use, or fails exactly when all are in use;
  releasing succeeds exactly on an identifier in use. The lemmas of the locale are what the users
  of such a pool rely on.
\<close>

fun alloc_many :: "('s \<Rightarrow> 's \<times> nat option) \<Rightarrow> nat \<Rightarrow> 's \<Rightarrow> 's \<times> nat list" where
  "alloc_many alloc 0 s = (s, [])"
| "alloc_many alloc (Suc n) s =
     (case alloc s of
        (s, None) \<Rightarrow> (s, [])
      | (s, Some i) \<Rightarrow> (case alloc_many alloc n s of (s, is) \<Rightarrow> (s, i # is)))"

locale id_pool =
  fixes good :: "'s \<Rightarrow> bool"
    and alloc :: "'s \<Rightarrow> 's \<times> nat option"
    and release :: "nat \<Rightarrow> 's \<Rightarrow> 's \<times> bool"
    and ids :: "'s \<Rightarrow> nat set"
    and cap :: nat
  assumes ids_below: "good s \<Longrightarrow> ids s \<subseteq> {..<cap}"
    and alloc_good: "good s \<Longrightarrow> good (fst (alloc s))"
    and alloc_full: "good s \<Longrightarrow> (snd (alloc s) = None) = (ids s = {..<cap})"
    and alloc_fresh: "good s \<Longrightarrow> snd (alloc s) = Some i \<Longrightarrow>
      i < cap \<and> i \<notin> ids s \<and> ids (fst (alloc s)) = insert i (ids s)"
    and release_good: "good s \<Longrightarrow> good (fst (release i s))"
    and release_result: "good s \<Longrightarrow> snd (release i s) = (i \<in> ids s)"
    and release_ids: "good s \<Longrightarrow> ids (fst (release i s)) = ids s - {i}"
begin

lemma finite_ids: "good s \<Longrightarrow> finite (ids s)"
  using ids_below finite_subset by blast

lemma alloc_after_release:
  assumes "good s" and "i \<in> ids s"
  shows "snd (alloc (fst (release i s))) \<noteq> None"
proof -
  have "i < cap" using assms ids_below by blast
  then have "ids (fst (release i s)) \<noteq> {..<cap}" using release_ids [OF assms(1)] by blast
  then show ?thesis using alloc_full [OF release_good [OF assms(1)]] by blast
qed

lemma alloc_many_distinct:
  assumes "good s" and "card (ids s) + n \<le> cap"
  shows "length (snd (alloc_many alloc n s)) = n \<and> distinct (snd (alloc_many alloc n s))
    \<and> set (snd (alloc_many alloc n s)) \<inter> ids s = {}
    \<and> ids (fst (alloc_many alloc n s)) = ids s \<union> set (snd (alloc_many alloc n s))"
  using assms
proof (induction n arbitrary: s)
  case (Suc n)
  have "ids s \<noteq> {..<cap}" using Suc.prems(2) by (metis Suc_n_not_le_n add_Suc_right card_lessThan le_add1 le_trans)
  then obtain s' i where a: "alloc s = (s', Some i)"
    using alloc_full [OF Suc.prems(1)] by (cases "alloc s") auto
  have i: "i \<notin> ids s" "ids s' = insert i (ids s)" using alloc_fresh [OF Suc.prems(1), of i] a by auto
  have "good s'" using alloc_good [OF Suc.prems(1)] a by simp
  moreover have "card (ids s') + n \<le> cap" using Suc.prems i finite_ids by simp
  ultimately have ih: "length (snd (alloc_many alloc n s')) = n \<and> distinct (snd (alloc_many alloc n s'))
    \<and> set (snd (alloc_many alloc n s')) \<inter> ids s' = {}
    \<and> ids (fst (alloc_many alloc n s')) = ids s' \<union> set (snd (alloc_many alloc n s'))"
    by (rule Suc.IH)
  have "alloc_many alloc (Suc n) s = (fst (alloc_many alloc n s'), i # snd (alloc_many alloc n s'))"
    using a by (simp add: case_prod_beta)
  then show ?case using ih i by auto
qed simp

end

end
