(* ===== verification/Pldm.thy ===== *)
theory Pldm
  imports Mctp Id_Pool Wait_List
begin

text \<open>
  PLDM over MCTP, \<^verbatim>\<open>src/common/service/pldm/pldm.c\<close> and \<^verbatim>\<open>pldm.h\<close>: the message header, the pool of
  instance ids of each MCTP instance, the list of requests that wait for a response, time-outs,
  matching of responses, dispatch of requests to the handlers of a PLDM type and sending. The
  blocking read is in \<^verbatim>\<open>Pldm_Read\<close>.

  The static variables of the file and the \<^verbatim>\<open>pldm_inst_table\<close> of every MCTP instance form \<open>pldm_state\<close>.
  The transport's \<^verbatim>\<open>mctp_send_msg\<close> and the command handlers are arguments that carry their own state.
  Callbacks are identified by a number and appear as events.
\<close>

section \<open>Definitions\<close>

definition PLDM_SUCCESS :: u8 where "PLDM_SUCCESS = 0"
definition PLDM_ERROR :: u8 where "PLDM_ERROR = 1"
definition PLDM_ERROR_INVALID_DATA :: u8 where "PLDM_ERROR_INVALID_DATA = 2"
definition PLDM_ERROR_INVALID_LENGTH :: u8 where "PLDM_ERROR_INVALID_LENGTH = 3"
definition PLDM_ERROR_NOT_READY :: u8 where "PLDM_ERROR_NOT_READY = 4"
definition PLDM_ERROR_UNSUPPORTED_PLDM_CMD :: u8 where "PLDM_ERROR_UNSUPPORTED_PLDM_CMD = 5"
definition PLDM_ERROR_INVALID_PLDM_TYPE :: u8 where "PLDM_ERROR_INVALID_PLDM_TYPE = 0x20"
definition PLDM_LATER_RESP :: u8 where "PLDM_LATER_RESP = 0x30"
definition PLDM_MAX_INSTID_COUNT :: nat where "PLDM_MAX_INSTID_COUNT = 32"
definition PLDM_MAX_DATA_SIZE :: nat where "PLDM_MAX_DATA_SIZE = 512"
definition PLDM_MSG_TIMEOUT_MS :: u16 where "PLDM_MSG_TIMEOUT_MS = 30000"
definition PLDM_MSG_MAX_RETRY :: nat where "PLDM_MSG_MAX_RETRY = 3"
definition PLDM_BRIDGE_IPMI_TIMEOUT_MS :: u16 where "PLDM_BRIDGE_IPMI_TIMEOUT_MS = PLDM_MSG_TIMEOUT_MS"
definition PLDM_BRIDGE_IPMI_MAX_RETRY :: nat where "PLDM_BRIDGE_IPMI_MAX_RETRY = PLDM_MSG_MAX_RETRY"
definition PLDM_FW_UPDATE_TIMEOUT_MS :: u16 where "PLDM_FW_UPDATE_TIMEOUT_MS = 30000"
definition PLDM_FW_UPDATE_MAX_RETRY :: nat where "PLDM_FW_UPDATE_MAX_RETRY = 3"
definition PLDM_TYPE_FW_UPDATE :: "6 word" where "PLDM_TYPE_FW_UPDATE = 5"
definition PLDM_OEM_IPMI_BRIDGE :: u8 where "PLDM_OEM_IPMI_BRIDGE = 1"
definition MCTP_MSG_TYPE_PLDM :: "7 word" where "MCTP_MSG_TYPE_PLDM = 1"
definition GET_PLDM_TYPE_BUF_SIZE :: nat where "GET_PLDM_TYPE_BUF_SIZE = 8"
definition GET_PLDM_COMMAND_BUF_SIZE :: nat where "GET_PLDM_COMMAND_BUF_SIZE = 32"

lemmas pldm_consts =
  PLDM_SUCCESS_def PLDM_ERROR_def PLDM_ERROR_INVALID_DATA_def PLDM_ERROR_INVALID_LENGTH_def
  PLDM_ERROR_NOT_READY_def PLDM_ERROR_UNSUPPORTED_PLDM_CMD_def PLDM_ERROR_INVALID_PLDM_TYPE_def
  PLDM_LATER_RESP_def PLDM_MAX_INSTID_COUNT_def PLDM_MAX_DATA_SIZE_def PLDM_MSG_TIMEOUT_MS_def
  PLDM_MSG_MAX_RETRY_def MCTP_MSG_TYPE_PLDM_def GET_PLDM_TYPE_BUF_SIZE_def
  GET_PLDM_COMMAND_BUF_SIZE_def PLDM_FW_UPDATE_TIMEOUT_MS_def PLDM_FW_UPDATE_MAX_RETRY_def
  PLDM_TYPE_FW_UPDATE_def PLDM_OEM_IPMI_BRIDGE_def PLDM_BRIDGE_IPMI_TIMEOUT_MS_def
  PLDM_BRIDGE_IPMI_MAX_RETRY_def

subsection \<open>Data\<close>

record pldm_hdr =
  ph_msg_type :: "7 word"
  ph_ic :: bool
  ph_inst_id :: "5 word"
  ph_rsvd :: bool
  ph_d :: bool
  ph_rq :: bool
  ph_pldm_type :: "6 word"
  ph_ver :: "2 word"
  ph_cmd :: u8

definition pldm_hdr_bytes :: "pldm_hdr \<Rightarrow> bytes" where
  "pldm_hdr_bytes h =
     [ucast (ph_msg_type h) OR push_bit 7 (flag (ph_ic h)),
      ucast (ph_inst_id h) OR push_bit 5 (flag (ph_rsvd h)) OR push_bit 6 (flag (ph_d h))
        OR push_bit 7 (flag (ph_rq h)),
      ucast (ph_pldm_type h) OR push_bit 6 (ucast (ph_ver h)), ph_cmd h]"

definition pldm_hdr_of :: "bytes \<Rightarrow> pldm_hdr" where
  "pldm_hdr_of bs =
     \<lparr> ph_msg_type = ucast (nth0 bs 0), ph_ic = bit (nth0 bs 0) 7,
       ph_inst_id = ucast (nth0 bs 1), ph_rsvd = bit (nth0 bs 1) 5, ph_d = bit (nth0 bs 1) 6,
       ph_rq = bit (nth0 bs 1) 7, ph_pldm_type = ucast (nth0 bs 2),
       ph_ver = ucast (drop_bit 6 (nth0 bs 2)), ph_cmd = nth0 bs 3 \<rparr>"

record pldm_msg =
  pm_hdr :: pldm_hdr
  pm_buf :: bytes
  pm_len :: u16
  pm_ext_params :: mctp_ext_params
  pm_recv_resp_cb_fn :: "nat option"
  pm_recv_resp_cb_args :: nat
  pm_timeout_ms :: u16
  pm_timeout_cb_fn :: "nat option"
  pm_timeout_cb_fn_args :: nat

text \<open>A list node is identified by its address.\<close>

record wait_msg =
  wm_node :: nat
  wm_mctp_inst :: nat
  wm_exp_to_ms :: int
  wm_msg :: pldm_msg

record pldm_state =
  ps_pldm_inst_table :: "nat \<Rightarrow> u32"
  ps_cur_inst_num :: u8
  ps_wait_recv_resp_list :: "wait_msg list"
  ps_mutex_held :: bool

datatype pldm_event =
    Recv_resp_cb nat nat bytes
  | Timeout_cb nat nat

subsection \<open>Instance ids\<close>

definition unregister_instid :: "u32 \<Rightarrow> u8 \<Rightarrow> u32 \<times> bool" where
  "unregister_instid table inst_num =
     (if unat inst_num \<ge> PLDM_MAX_INSTID_COUNT then (table, False)
      else if table = 0 then (table, False)
      else if \<not> bit table (unat inst_num) then (table, False)
      else (unset_bit (unat inst_num) table, True))"

text \<open>The search for a free id: the number of the tries made and the id reached.\<close>

fun find_instid :: "u32 \<Rightarrow> nat \<Rightarrow> u8 \<Rightarrow> nat \<Rightarrow> nat \<times> u8" where
  "find_instid table 0 cur retry = (retry, cur)"
| "find_instid table (Suc n) cur retry =
     (if \<not> bit table (unat cur) then (retry, cur)
      else find_instid table n ((cur + 1) AND 0x1F) (retry + 1))"

text \<open>The result is the table, the next value of the static variable and the id, if any.\<close>

definition register_instid :: "u32 \<Rightarrow> u8 \<Rightarrow> u32 \<times> u8 \<times> u8 option" where
  "register_instid table cur =
     (case find_instid table PLDM_MAX_INSTID_COUNT cur 0 of
        (retry, cur) \<Rightarrow>
          if retry = PLDM_MAX_INSTID_COUNT then (table, cur, None)
          else (set_bit (unat cur) table, (cur + 1) AND 0x1F, Some cur))"

subsection \<open>Waiting requests\<close>

definition free_id :: "nat \<Rightarrow> u8 \<Rightarrow> pldm_state \<Rightarrow> pldm_state \<times> bool" where
  "free_id inst i st =
     (case unregister_instid (ps_pldm_inst_table st inst) i of
        (t, ok) \<Rightarrow> (st\<lparr>ps_pldm_inst_table := (ps_pldm_inst_table st)(inst := t)\<rparr>, ok))"

definition timeout_event :: "pldm_msg \<Rightarrow> pldm_event list" where
  "timeout_event m = (case pm_timeout_cb_fn m of
     None \<Rightarrow> [] | Some f \<Rightarrow> [Timeout_cb f (pm_timeout_cb_fn_args m)])"

text \<open>
  The walk over the list: \<open>kept\<close> is the part already passed. When an id cannot be released the
  function returns in the middle of the list, with the mutex held.
\<close>

fun timeout_loop ::
  "int \<Rightarrow> wait_msg list \<Rightarrow> wait_msg list \<Rightarrow> pldm_state \<Rightarrow> pldm_state \<times> pldm_event list \<times> u8" where
  "timeout_loop now kept [] st =
     (st\<lparr>ps_wait_recv_resp_list := kept, ps_mutex_held := False\<rparr>, [], MCTP_SUCCESS)"
| "timeout_loop now kept (p # ps) st =
     (if wm_exp_to_ms p \<le> now then
        (case free_id (wm_mctp_inst p) (ucast (ph_inst_id (pm_hdr (wm_msg p)))) st of
           (st, ok) \<Rightarrow>
             if \<not> ok then (st\<lparr>ps_wait_recv_resp_list := kept @ ps\<rparr>, [], PLDM_ERROR)
             else case timeout_loop now kept ps st of
               (st, evs, r) \<Rightarrow> (st, timeout_event (wm_msg p) @ evs, r))
      else timeout_loop now (kept @ [p]) ps st)"

definition pldm_msg_timeout_check :: "int \<Rightarrow> pldm_state \<Rightarrow> pldm_state \<times> pldm_event list \<times> u8" where
  "pldm_msg_timeout_check now st =
     (if ps_mutex_held st then (st, [], MCTP_ERROR)
      else timeout_loop now [] (ps_wait_recv_resp_list st) (st\<lparr>ps_mutex_held := True\<rparr>))"

definition resp_matches :: "nat \<Rightarrow> pldm_hdr \<Rightarrow> wait_msg \<Rightarrow> bool" where
  "resp_matches inst hdr p =
     (let h = pm_hdr (wm_msg p) in ph_inst_id h = ph_inst_id hdr \<and> ph_pldm_type h = ph_pldm_type hdr
        \<and> ph_cmd h = ph_cmd hdr \<and> wm_mctp_inst p = inst)"

text \<open>
  The bytes behind the header are handed to the callback. The code reads the header of a message of
  any length; a message of one to three bytes, where it reads behind the end, gives \<open>None\<close>.
\<close>

definition pldm_resp_msg_process ::
  "nat \<Rightarrow> bytes \<Rightarrow> pldm_state \<Rightarrow> (pldm_state \<times> pldm_event list \<times> u8) option" where
  "pldm_resp_msg_process inst buf st =
     (if buf = [] then Some (st, [], PLDM_ERROR)
      else if length buf < 4 then None
      else if ps_mutex_held st then Some (st, [], PLDM_ERROR)
      else case remove_first (resp_matches inst (pldm_hdr_of buf)) (ps_wait_recv_resp_list st) of
        (None, _) \<Rightarrow> Some (st, [], PLDM_SUCCESS)
      | (Some p, rest) \<Rightarrow>
          (case free_id inst (ucast (ph_inst_id (pm_hdr (wm_msg p))))
                  (st\<lparr>ps_wait_recv_resp_list := rest\<rparr>) of
             (st, ok) \<Rightarrow>
               if \<not> ok then Some (st, [], PLDM_ERROR)
               else case pm_recv_resp_cb_fn (wm_msg p) of
                 None \<Rightarrow> Some (st, [], PLDM_SUCCESS)
               | Some f \<Rightarrow>
                   Some (st, [Recv_resp_cb f (pm_recv_resp_cb_args (wm_msg p)) (drop 4 buf)], PLDM_SUCCESS)))"

subsection \<open>Requests from the other side\<close>

text \<open>
  A command handler gets its own state, the request data, its length, the instance id and the
  transport parameters, and returns the bytes it wrote at the start of the response, the value
  of \<^verbatim>\<open>*resp_len\<close> and its return code.
\<close>

record pldm_result =
  pr_resp :: bytes
  pr_resp_len :: u16
  pr_rc :: u8

type_synonym 's pldm_cmd_proc_fn =
  "'s \<Rightarrow> bytes \<Rightarrow> u16 \<Rightarrow> u8 \<Rightarrow> mctp_ext_params \<Rightarrow> 's \<times> pldm_result"

type_synonym 's handler_query = "u8 \<Rightarrow> 's pldm_cmd_proc_fn option"

fun query_lookup :: "(u8 \<times> 's handler_query) list \<Rightarrow> u8 \<Rightarrow> 's handler_query option" where
  "query_lookup [] ty = None"
| "query_lookup ((t, q) # tbl) ty = (if ty = t then Some q else query_lookup tbl ty)"

definition run_handler ::
  "(u8 \<times> 's handler_query) list \<Rightarrow> 's \<Rightarrow> bytes \<Rightarrow> mctp_ext_params \<Rightarrow> 's \<times> pldm_result" where
  "run_handler tbl s buf ext =
     (let hdr = pldm_hdr_of buf;
          unsupported = (s, \<lparr>pr_resp = [PLDM_ERROR_UNSUPPORTED_PLDM_CMD], pr_resp_len = 1,
                             pr_rc = PLDM_ERROR\<rparr>) in
      case query_lookup tbl (ucast (ph_pldm_type hdr)) of
        None \<Rightarrow> unsupported
      | Some q \<Rightarrow>
          (case q (ph_cmd hdr) of
             None \<Rightarrow> unsupported
           | Some fn \<Rightarrow> fn s (drop 4 buf) (of_nat (length buf) - 4) (ucast (ph_inst_id hdr)) ext))"

type_synonym 'w mctp_send_fn = "'w \<Rightarrow> bytes \<Rightarrow> mctp_ext_params \<Rightarrow> 'w \<times> u8"

text \<open>
  \<open>None\<close> is a message shorter than the header or a response longer than the response buffer.
\<close>

definition mctp_pldm_cmd_handler ::
  "(u8 \<times> 's handler_query) list \<Rightarrow> 'w mctp_send_fn \<Rightarrow> nat \<Rightarrow> bytes \<Rightarrow> mctp_ext_params
   \<Rightarrow> pldm_state \<Rightarrow> 's \<Rightarrow> 'w \<Rightarrow> (pldm_state \<times> 's \<times> 'w \<times> pldm_event list \<times> u8) option" where
  "mctp_pldm_cmd_handler tbl send inst buf ext st s w =
     (if buf = [] then Some (st, s, w, [], PLDM_ERROR)
      else if length buf < 4 then None
      else if \<not> ph_rq (pldm_hdr_of buf) then
        (case pldm_resp_msg_process inst buf st of
           None \<Rightarrow> None | Some (st, evs, r) \<Rightarrow> Some (st, s, w, evs, r))
      else
        (case run_handler tbl s buf ext of
           (s, res) \<Rightarrow>
             if pr_rc res = PLDM_LATER_RESP then Some (st, s, w, [], PLDM_SUCCESS)
             else let resp_hdr = pldm_hdr_bytes ((pldm_hdr_of buf)\<lparr>ph_rq := False\<rparr>);
                      n = unat (pr_resp_len res);
                      resp = take n (pr_resp res @ zeros (n - length (pr_resp res))) in
               if PLDM_MAX_DATA_SIZE < 4 + n \<or> PLDM_MAX_DATA_SIZE < 4 + length (pr_resp res)
               then None
               else case send w (resp_hdr @ resp) ext of
                 (w, r) \<Rightarrow> Some (st, s, w, [], r)))"

subsection \<open>Sending\<close>

text \<open>
  \<open>node\<close> is the result of \<^verbatim>\<open>malloc\<close>, \<open>now\<close> the uptime. The bytes sent are the header and the first
  \<open>len\<close> bytes of the message buffer. The list is locked without a time limit, so a mutex that
  nobody releases blocks the sender for ever: the result is \<open>None\<close>.
\<close>

definition remove_node :: "nat \<Rightarrow> pldm_state \<Rightarrow> pldm_state" where
  "remove_node n st = st\<lparr>ps_wait_recv_resp_list :=
     snd (remove_first (\<lambda>p. wm_node p = n) (ps_wait_recv_resp_list st))\<rparr>"

definition send_bytes :: "pldm_msg \<Rightarrow> bytes" where
  "send_bytes msg = pldm_hdr_bytes (pm_hdr msg) @ take (unat (pm_len msg)) (pm_buf msg)"

definition mctp_pldm_send_msg ::
  "nat option \<Rightarrow> int \<Rightarrow> 'w mctp_send_fn \<Rightarrow> nat \<Rightarrow> pldm_msg \<Rightarrow> pldm_state \<Rightarrow> 'w
   \<Rightarrow> (pldm_state \<times> pldm_msg \<times> 'w \<times> u8) option" where
  "mctp_pldm_send_msg node now send inst msg st w =
     (if \<not> ph_rq (pm_hdr msg) then
        (case send w (send_bytes msg) (pm_ext_params msg) of
           (w, rc) \<Rightarrow> Some (st, msg, w, if rc = MCTP_ERROR then PLDM_ERROR else PLDM_SUCCESS))
      else case register_instid (ps_pldm_inst_table st inst) (ps_cur_inst_num st) of
        (t, cur, None) \<Rightarrow> Some (st\<lparr>ps_cur_inst_num := cur\<rparr>, msg, w, PLDM_ERROR)
      | (t, cur, Some i) \<Rightarrow>
          let st = st\<lparr>ps_pldm_inst_table := (ps_pldm_inst_table st)(inst := t), ps_cur_inst_num := cur\<rparr>;
              msg = msg\<lparr>pm_hdr := (pm_hdr msg)\<lparr>ph_inst_id := ucast i,
                                               ph_msg_type := MCTP_MSG_TYPE_PLDM\<rparr>,
                        pm_ext_params := (pm_ext_params msg)\<lparr>xp_tag_owner := 1\<rparr>\<rparr> in
          (case node of
             None \<Rightarrow> Some (fst (free_id inst i st), msg, w, PLDM_ERROR)
           | Some n \<Rightarrow>
               if ps_mutex_held st then None else
               let p = \<lparr>wm_node = n, wm_mctp_inst = inst,
                        wm_exp_to_ms = now + (if pm_timeout_ms msg \<noteq> 0 then uint (pm_timeout_ms msg)
                                              else uint PLDM_MSG_TIMEOUT_MS),
                        wm_msg = msg\<rparr>;
                   st = st\<lparr>ps_wait_recv_resp_list := ps_wait_recv_resp_list st @ [p]\<rparr> in
               (case send w (send_bytes msg) (pm_ext_params msg) of
                  (w, rc) \<Rightarrow>
                    if rc = MCTP_ERROR
                    then Some (fst (free_id inst i (remove_node n st)), msg, w, PLDM_ERROR)
                    else Some (st, msg, w, PLDM_SUCCESS))))"

subsection \<open>Inputs from the rest of the system\<close>

text \<open>A message that arrives for the requests, or a run of the monitor thread at an uptime.\<close>

datatype pldm_input = Response_in nat bytes | Check_in int

definition pldm_input_step :: "pldm_input \<Rightarrow> pldm_state \<Rightarrow> (pldm_state \<times> pldm_event list) option" where
  "pldm_input_step inp st =
     (case inp of
        Response_in inst buf \<Rightarrow>
          (case pldm_resp_msg_process inst buf st of None \<Rightarrow> None | Some (st, evs, _) \<Rightarrow> Some (st, evs))
      | Check_in now \<Rightarrow> (case pldm_msg_timeout_check now st of (st, evs, _) \<Rightarrow> Some (st, evs)))"

subsection \<open>Supported types and commands\<close>

definition set_bit_at :: "u8 \<Rightarrow> bytes \<Rightarrow> bytes" where
  "set_bit_at k buf = (if unat k div 8 < length buf
     then buf[unat k div 8 := buf ! (unat k div 8) OR push_bit (unat k mod 8) 1] else buf)"

definition get_supported_pldm_type ::
  "(u8 \<times> 's handler_query) list \<Rightarrow> bytes \<Rightarrow> u8 \<Rightarrow> bytes \<times> u8" where
  "get_supported_pldm_type tbl buf buf_size =
     (if unat buf_size \<noteq> GET_PLDM_TYPE_BUF_SIZE then (buf, PLDM_ERROR_INVALID_LENGTH)
      else (fold (\<lambda>(t, _) b. set_bit_at t b) tbl (zeros (unat buf_size)), PLDM_SUCCESS))"

definition get_supported_pldm_commands ::
  "(u8 \<times> 's handler_query) list \<Rightarrow> u8 \<Rightarrow> bytes \<Rightarrow> u8 \<Rightarrow> bytes \<times> u8" where
  "get_supported_pldm_commands tbl ty buf buf_size =
     (if unat buf_size \<noteq> GET_PLDM_COMMAND_BUF_SIZE then (buf, PLDM_ERROR_INVALID_LENGTH)
      else let buf = zeros (unat buf_size) in
        case query_lookup tbl ty of
          None \<Rightarrow> (buf, PLDM_ERROR_INVALID_PLDM_TYPE)
        | Some q \<Rightarrow>
            (fold (\<lambda>c b. if q (of_nat c) \<noteq> None then set_bit_at (of_nat c) b else b)
               [0..<GET_PLDM_COMMAND_BUF_SIZE * 8] buf, PLDM_SUCCESS))"

subsection \<open>Reference definitions and examples\<close>

text \<open>Bits of the instance table\<close>

definition table_ids :: "u32 \<Rightarrow> nat set" where
  "table_ids t = {i. bit t i}"

definition req_key :: "wait_msg \<Rightarrow> nat \<times> nat" where
  "req_key p = (wm_mctp_inst p, unat (ph_inst_id (pm_hdr (wm_msg p))))"

definition waiting_ids :: "wait_msg list \<Rightarrow> nat \<Rightarrow> nat set" where
  "waiting_ids ws inst = {i. (inst, i) \<in> req_key ` set ws}"

definition pldm_inv :: "pldm_state \<Rightarrow> bool" where
  "pldm_inv st = (unat (ps_cur_inst_num st) < 32 \<and> \<not> ps_mutex_held st
     \<and> distinct (map req_key (ps_wait_recv_resp_list st)) \<and> distinct (map wm_node (ps_wait_recv_resp_list st))
     \<and> (\<forall>inst. table_ids (ps_pldm_inst_table st inst) = waiting_ids (ps_wait_recv_resp_list st) inst))"

text \<open>Sending\<close>

definition sent_msg :: "u8 \<Rightarrow> pldm_msg \<Rightarrow> pldm_msg" where
  "sent_msg i msg = msg\<lparr>pm_hdr := (pm_hdr msg)\<lparr>ph_inst_id := ucast i, ph_msg_type := MCTP_MSG_TYPE_PLDM\<rparr>,
     pm_ext_params := (pm_ext_params msg)\<lparr>xp_tag_owner := 1\<rparr>\<rparr>"

definition new_wait :: "nat \<Rightarrow> nat \<Rightarrow> int \<Rightarrow> pldm_msg \<Rightarrow> wait_msg" where
  "new_wait n inst now msg = \<lparr>wm_node = n, wm_mctp_inst = inst,
     wm_exp_to_ms = now + (if pm_timeout_ms msg \<noteq> 0 then uint (pm_timeout_ms msg) else uint PLDM_MSG_TIMEOUT_MS),
     wm_msg = msg\<rparr>"

text \<open>The list of waiting requests, the instance tables and the mutex in every state the operations
  can reach. An allocation returns an address that no entry of the list has.\<close>

definition pldm_init :: pldm_state where
  "pldm_init = \<lparr>ps_pldm_inst_table = (\<lambda>_. 0), ps_cur_inst_num = 0, ps_wait_recv_resp_list = [], ps_mutex_held = False\<rparr>"

inductive pldm_reach :: "'w mctp_send_fn \<Rightarrow> pldm_state \<Rightarrow> bool" for send where
  init: "pldm_reach send pldm_init"
| send: "pldm_reach send st \<Longrightarrow> node = None \<or> the node \<notin> wm_node ` set (ps_wait_recv_resp_list st) \<Longrightarrow>
    mctp_pldm_send_msg node now send inst msg st w = Some (st', m, w', rc) \<Longrightarrow> pldm_reach send st'"
| input: "pldm_reach send st \<Longrightarrow> pldm_input_step inp st = Some (st', evs) \<Longrightarrow> pldm_reach send st'"

definition reports :: "bytes \<Rightarrow> u8 \<Rightarrow> bool" where
  "reports buf k = bit (nth0 buf (unat k div 8)) (unat k mod 8)"

text \<open>The instance ids are an identifier pool.\<close>

definition instid_alloc :: "u32 \<times> u8 \<Rightarrow> (u32 \<times> u8) \<times> nat option" where
  "instid_alloc = (\<lambda>(t, cur). case register_instid t cur of (t, cur, r) \<Rightarrow> ((t, cur), map_option unat r))"

definition instid_release :: "nat \<Rightarrow> u32 \<times> u8 \<Rightarrow> (u32 \<times> u8) \<times> bool" where
  "instid_release i = (\<lambda>(t, cur). if i < 256 then (case unregister_instid t (of_nat i) of (t, ok) \<Rightarrow> ((t, cur), ok))
     else ((t, cur), False))"

definition demo_pldm_ext :: mctp_ext_params where
  "demo_pldm_ext = \<lparr>xp_tag_owner = 0, xp_msg_tag = 0, xp_ep = 8, xp_type = MCTP_MEDIUM_TYPE_SMBUS, xp_addr = 0x20\<rparr>"

definition demo_pldm_msg :: pldm_msg where
  "demo_pldm_msg = \<lparr>pm_hdr = \<lparr>ph_msg_type = 0, ph_ic = False, ph_inst_id = 0, ph_rsvd = False, ph_d = False, ph_rq = True,
      ph_pldm_type = 2, ph_ver = 0, ph_cmd = 0x11\<rparr>, pm_buf = [7, 8], pm_len = 2, pm_ext_params = demo_pldm_ext,
      pm_recv_resp_cb_fn = Some 9, pm_recv_resp_cb_args = 0, pm_timeout_ms = 0, pm_timeout_cb_fn = None, pm_timeout_cb_fn_args = 0\<rparr>"

definition good_send :: "bytes list mctp_send_fn" where
  "good_send w bs ext = (w @ [bs], MCTP_SUCCESS)"

text \<open>The data of an answer: what the handler wrote, cut or filled with the zeros of the buffer to the length it set.\<close>

definition answer_data :: "pldm_result \<Rightarrow> bytes" where
  "answer_data res = take (unat (pr_resp_len res))
     (pr_resp res @ zeros (unat (pr_resp_len res) - length (pr_resp res)))"

definition one_waiting :: "nat \<Rightarrow> nat \<Rightarrow> int \<Rightarrow> pldm_msg \<Rightarrow> pldm_state" where
  "one_waiting n inst now msg = \<lparr>ps_pldm_inst_table = (\<lambda>_. 0)(inst := set_bit 0 0), ps_cur_inst_num = 1,
     ps_wait_recv_resp_list = [new_wait n inst now (sent_msg 0 msg)], ps_mutex_held = False\<rparr>"

definition demo_query :: "unit handler_query" where
  "demo_query c = (if c = 3 then Some (\<lambda>s bs len inst ext. (s, \<lparr>pr_resp = [0], pr_resp_len = 1, pr_rc = 0\<rparr>)) else None)"

section \<open>Properties\<close>

lemma sent_msg_fields [simp]: "pm_timeout_ms (sent_msg i msg) = pm_timeout_ms msg" "ph_rq (pm_hdr (sent_msg i msg)) = ph_rq (pm_hdr msg)"
  "ph_pldm_type (pm_hdr (sent_msg i msg)) = ph_pldm_type (pm_hdr msg)" "ph_cmd (pm_hdr (sent_msg i msg)) = ph_cmd (pm_hdr msg)"
  by (simp_all add: sent_msg_def)

lemma new_wait_fields [simp]: "wm_msg (new_wait n inst now msg) = msg" "wm_mctp_inst (new_wait n inst now msg) = inst"
  "pm_timeout_ms msg \<noteq> 0 \<Longrightarrow> wm_exp_to_ms (new_wait n inst now msg) = now + uint (pm_timeout_ms msg)"
  by (simp_all add: new_wait_def)

lemma pldm_hdr_of_bytes [simp]: "pldm_hdr_of (pldm_hdr_bytes h @ bs) = h"
proof -
  have b2: "(ucast (ucast (ph_pldm_type h) OR push_bit 6 (ucast (ph_ver h)) :: u8) :: 6 word) = ph_pldm_type h"
    by (rule bit_word_eqI) (auto simp: flag_def bit_simps)
  have b3: "(ucast (drop_bit 6 (ucast (ph_pldm_type h) OR push_bit 6 (ucast (ph_ver h)) :: u8)) :: 2 word) = ph_ver h"
    by (rule bit_word_eqI) (auto simp: flag_def bit_simps dest: bit_imp_le_length)
  show ?thesis
    unfolding pldm_hdr_of_def pldm_hdr_bytes_def append.simps nth0_4 nth0_Cons_0 msg_type_byte req_d_id_byte b2 b3 by simp
qed

lemma length_pldm_hdr_bytes [simp]: "length (pldm_hdr_bytes h) = 4"
  by (simp add: pldm_hdr_bytes_def)

lemma table_ids_set: "i < 32 \<Longrightarrow> table_ids (set_bit i t) = insert i (table_ids t)"
  by (auto simp: table_ids_def bit_simps dest: bit_imp_le_length)

lemma table_ids_unset: "table_ids (unset_bit i t) = table_ids t - {i}"
  by (auto simp: table_ids_def bit_simps)

lemma table_ids_less: "i \<in> table_ids t \<Longrightarrow> i < 32"
  by (auto simp: table_ids_def dest: bit_imp_le_length)

lemma mask_lt32: "unat ((c :: u8) AND 0x1F) < 32"
proof -
  have "c AND 0x1F = take_bit 5 c" by (rule u8_eqI) (simp_all add: bit_simps)
  moreover have "unat (take_bit 5 c) < 2 ^ 5" by (simp only: unsigned_take_bit_eq take_bit_nat_less_exp)
  ultimately show ?thesis by simp
qed

lemma next_id:
  assumes "unat (c :: u8) < 32"
  shows "unat ((c + 1) AND 0x1F) = (unat c + 1) mod 32"
proof -
  have "(c + 1) AND 0x1F = take_bit 5 (c + 1)" by (rule u8_eqI) (simp_all add: bit_simps)
  then have "unat ((c + 1) AND 0x1F) = take_bit 5 (unat (c + 1))" by (simp only: unsigned_take_bit_eq)
  moreover have "unat (c + 1) = unat c + 1" using assms by (subst unat_plus_no_wrap) auto
  ultimately show ?thesis by (simp add: take_bit_eq_mod)
qed

lemma find_instid_result:
  assumes "unat c < 32"
  shows "case find_instid t n c k of (r, c') \<Rightarrow> unat c' < 32 \<and> k \<le> r \<and> r \<le> k + n
    \<and> (\<forall>j < r - k. bit t ((unat c + j) mod 32)) \<and> unat c' = (unat c + (r - k)) mod 32
    \<and> (r < k + n \<longrightarrow> \<not> bit t (unat c'))"
  using assms
proof (induction n arbitrary: c k)
  case (Suc n)
  show ?case
  proof (cases "bit t (unat c)")
    case False
    then show ?thesis using Suc.prems by simp
  next
    case True
    let ?c = "(c + 1) AND 0x1F"
    obtain r c' where f: "find_instid t n ?c (k + 1) = (r, c')" by force
    have ih: "unat c' < 32 \<and> k + 1 \<le> r \<and> r \<le> k + 1 + n \<and> (\<forall>j < r - (k + 1). bit t ((unat ?c + j) mod 32))
        \<and> unat c' = (unat ?c + (r - (k + 1))) mod 32 \<and> (r < k + 1 + n \<longrightarrow> \<not> bit t (unat c'))"
      using Suc.IH [of ?c "k + 1", OF mask_lt32] unfolding f prod.case .
    have nx: "unat ?c = (unat c + 1) mod 32" by (rule next_id [OF Suc.prems])
    have "bit t ((unat c + j) mod 32)" if "j < r - k" for j
    proof (cases j)
      case 0
      then show ?thesis using True Suc.prems by simp
    next
      case (Suc i)
      then have "bit t ((unat ?c + i) mod 32)" using ih that by simp
      then show ?thesis unfolding nx Suc by (simp add: mod_add_left_eq)
    qed
    moreover have "unat c' = (unat c + (r - k)) mod 32"
    proof -
      have "unat c' = ((unat c + 1) mod 32 + (r - (k + 1))) mod 32" using ih nx by simp
      also have "\<dots> = (unat c + 1 + (r - (k + 1))) mod 32" by (simp add: mod_add_left_eq)
      also have "unat c + 1 + (r - (k + 1)) = unat c + (r - k)" using ih by linarith
      finally show ?thesis .
    qed
    moreover have "find_instid t (Suc n) c k = (r, c')" using True f by simp
    moreover have "unat c' < 32" "k \<le> r" "r \<le> k + Suc n" "r < k + Suc n \<longrightarrow> \<not> bit t (unat c')"
      using ih by force+
    ultimately show ?thesis by (simp only: prod.case) auto
  qed
qed simp

lemma register_instid_cases:
  assumes "unat cur < 32"
  obtains (full) cur' where "register_instid t cur = (t, cur', None)" "unat cur' < 32" "table_ids t = {..<32}"
  | (ok) i cur' where "register_instid t cur = (set_bit (unat i) t, cur', Some i)" "unat cur' < 32"
      "unat i < 32" "unat i \<notin> table_ids t"
proof -
  obtain r c where f: "find_instid t 32 cur 0 = (r, c)" by force
  note res = find_instid_result [OF assms, where t = t and n = 32 and k = 0, unfolded f]
  show thesis
  proof (cases "r = 32")
    case True
    have "bit t i" if "i < 32" for i
    proof -
      let ?j = "(i + (32 - unat cur)) mod 32"
      have "(unat cur + ?j) mod 32 = i" 
      proof -
        have "(unat cur + ?j) mod 32 = (unat cur + (i + (32 - unat cur))) mod 32" by (simp add: mod_add_right_eq)
        also have "unat cur + (i + (32 - unat cur)) = i + 32" using assms by simp
        finally show ?thesis using that by simp
      qed
      moreover have "?j < 32" by simp
      moreover have "\<forall>j<32. bit t ((unat cur + j) mod 32)" using res True by simp
      ultimately show ?thesis by metis
    qed
    then have "table_ids t = {..<32}" by (auto simp: table_ids_def dest: bit_imp_le_length)
    then show thesis using full f True res by (simp add: register_instid_def pldm_consts)
  next
    case False
    then have c: "\<not> bit t (unat c)" "unat c < 32" using res by force+
    have "register_instid t cur = (set_bit (unat c) t, (c + 1) AND 0x1F, Some c)"
      using f False by (simp add: register_instid_def pldm_consts)
    then show thesis using ok c mask_lt32 by (simp add: table_ids_def)
  qed
qed

lemma unregister_instid_eq:
  "unregister_instid t i = (if unat i \<in> table_ids t then (unset_bit (unat i) t, True) else (t, False))"
  by (auto simp: unregister_instid_def table_ids_def pldm_consts dest: bit_imp_le_length)

lemma unat_ucast_5_8 [simp]: "unat (ucast (x :: 5 word) :: u8) = unat x"
  by (simp add: unsigned_ucast_eq take_bit_nat_eq_self order.strict_trans2 [OF unsigned_less])

lemma unat_ucast_8_5: "unat (i :: u8) < 32 \<Longrightarrow> unat (ucast i :: 5 word) = unat i"
  by (simp add: unsigned_ucast_eq take_bit_nat_eq_self)

lemma free_id_eq:
  "free_id inst i st = (if unat i \<in> table_ids (ps_pldm_inst_table st inst)
     then (st\<lparr>ps_pldm_inst_table := (ps_pldm_inst_table st)(inst := unset_bit (unat i) (ps_pldm_inst_table st inst))\<rparr>, True)
     else (st, False))"
  by (simp add: free_id_def unregister_instid_eq)

text \<open>Removing one waiting request together with its id keeps the table and the list in step.\<close>

lemma waiting_ids_remove:
  assumes "distinct (map req_key (us @ p # vs))"
  shows "waiting_ids (us @ vs) inst
    = (if inst = wm_mctp_inst p then waiting_ids (us @ p # vs) inst - {snd (req_key p)} else waiting_ids (us @ p # vs) inst)"
proof -
  have notin: "req_key p \<notin> req_key ` set (us @ vs)" using assms by auto
  obtain b where k: "req_key p = (wm_mctp_inst p, b)" by (simp add: req_key_def)
  have *: "req_key ` set (us @ p # vs) = insert (req_key p) (req_key ` set (us @ vs))" by auto
  show ?thesis using notin unfolding waiting_ids_def * k by (auto simp del: set_append)
qed

lemma pldm_inv_remove:
  assumes inv: "pldm_inv st" and ws: "ps_wait_recv_resp_list st = us @ p # vs"
  defines "i \<equiv> ucast (ph_inst_id (pm_hdr (wm_msg p))) :: u8"
  defines "st' \<equiv> st\<lparr>ps_wait_recv_resp_list := us @ vs\<rparr>"
  shows "snd (free_id (wm_mctp_inst p) i st')" and "pldm_inv (fst (free_id (wm_mctp_inst p) i st'))"
    and "ps_wait_recv_resp_list (fst (free_id (wm_mctp_inst p) i st')) = us @ vs"
proof -
  have i: "unat i = snd (req_key p)" by (simp add: i_def req_key_def)
  have d: "distinct (map req_key (us @ p # vs))" using inv ws by (simp add: pldm_inv_def)
  have tab: "table_ids (ps_pldm_inst_table st inst) = waiting_ids (us @ p # vs) inst" for inst
    using inv ws by (simp add: pldm_inv_def)
  have mem: "unat i \<in> table_ids (ps_pldm_inst_table st (wm_mctp_inst p))"
    unfolding tab waiting_ids_def i by (auto simp: req_key_def)
  then show "snd (free_id (wm_mctp_inst p) i st')" by (simp add: free_id_eq st'_def)
  have eq: "fst (free_id (wm_mctp_inst p) i st') = st'\<lparr>ps_pldm_inst_table := (ps_pldm_inst_table st)
      (wm_mctp_inst p := unset_bit (unat i) (ps_pldm_inst_table st (wm_mctp_inst p)))\<rparr>"
    using mem by (simp add: free_id_eq st'_def)
  then show "ps_wait_recv_resp_list (fst (free_id (wm_mctp_inst p) i st')) = us @ vs" by (simp add: st'_def)
  have "table_ids (((ps_pldm_inst_table st)(wm_mctp_inst p := unset_bit (unat i)
      (ps_pldm_inst_table st (wm_mctp_inst p)))) inst) = waiting_ids (us @ vs) inst" for inst
    unfolding waiting_ids_remove [OF d] by (simp add: table_ids_unset tab i)
  then show "pldm_inv (fst (free_id (wm_mctp_inst p) i st'))"
    using inv ws d unfolding eq by (auto simp: pldm_inv_def st'_def)
qed

lemma resp_process_cases:
  assumes inv: "pldm_inv st" and len: "4 \<le> length buf"
  shows "pldm_resp_msg_process inst buf st =
    (case remove_first (resp_matches inst (pldm_hdr_of buf)) (ps_wait_recv_resp_list st) of
       (None, _) \<Rightarrow> Some (st, [], PLDM_SUCCESS)
     | (Some p, rest) \<Rightarrow> Some
         (fst (free_id inst (ucast (ph_inst_id (pm_hdr (wm_msg p)))) (st\<lparr>ps_wait_recv_resp_list := rest\<rparr>)),
          case pm_recv_resp_cb_fn (wm_msg p) of None \<Rightarrow> []
            | Some f \<Rightarrow> [Recv_resp_cb f (pm_recv_resp_cb_args (wm_msg p)) (drop 4 buf)], PLDM_SUCCESS))"
proof -
  have nh: "\<not> ps_mutex_held st" "buf \<noteq> []" "\<not> length buf < 4" using inv len by (auto simp: pldm_inv_def)
  show ?thesis
  proof (cases "remove_first (resp_matches inst (pldm_hdr_of buf)) (ps_wait_recv_resp_list st)")
    case (Pair r rest)
    show ?thesis
    proof (cases r)
      case None
      then show ?thesis using nh Pair by (simp add: pldm_resp_msg_process_def)
    next
      case (Some p)
      obtain us vs where ws: "ps_wait_recv_resp_list st = us @ p # vs" "rest = us @ vs"
        and m: "resp_matches inst (pldm_hdr_of buf) p"
        using remove_first_Some Pair Some by metis
      have "wm_mctp_inst p = inst" using m by (simp add: resp_matches_def Let_def)
      then have "snd (free_id inst (ucast (ph_inst_id (pm_hdr (wm_msg p)))) (st\<lparr>ps_wait_recv_resp_list := rest\<rparr>))"
        using pldm_inv_remove(1) [OF inv ws(1)] ws(2) by simp
      then show ?thesis using nh Pair Some
        by (auto simp: pldm_resp_msg_process_def split: prod.split option.split)
    qed
  qed
qed

lemma resp_process_inv:
  assumes inv: "pldm_inv st" and len: "4 \<le> length buf" and "pldm_resp_msg_process inst buf st = Some (st', evs, r)"
  shows "pldm_inv st'"
proof (cases "remove_first (resp_matches inst (pldm_hdr_of buf)) (ps_wait_recv_resp_list st)")
  case (Pair x rest)
  show ?thesis
  proof (cases x)
    case None
    then show ?thesis using assms Pair by (simp add: resp_process_cases)
  next
    case (Some p)
    obtain us vs where ws: "ps_wait_recv_resp_list st = us @ p # vs" "rest = us @ vs"
      and m: "resp_matches inst (pldm_hdr_of buf) p"
      using remove_first_Some Pair Some by metis
    have "wm_mctp_inst p = inst" using m by (simp add: resp_matches_def Let_def)
    then show ?thesis
      using pldm_inv_remove(2) [OF inv ws(1)] ws(2) assms(3) Pair Some
      unfolding resp_process_cases [OF inv len] by auto
  qed
qed

text \<open>Time-outs\<close>

lemma timeout_loop_eq:
  assumes "pldm_inv (st\<lparr>ps_wait_recv_resp_list := kept @ ws, ps_mutex_held := False\<rparr>)" and "ps_mutex_held st"
    and "\<forall>p \<in> set kept. now < wm_exp_to_ms p"
  shows "\<exists>st'. timeout_loop now kept ws st = (st', concat (map (\<lambda>p. timeout_event (wm_msg p))
      (filter (\<lambda>p. wm_exp_to_ms p \<le> now) ws)), MCTP_SUCCESS)
    \<and> ps_wait_recv_resp_list st' = kept @ filter (\<lambda>p. now < wm_exp_to_ms p) ws \<and> pldm_inv st'"
  using assms
proof (induction ws arbitrary: kept st)
  case Nil
  then show ?case by simp
next
  case (Cons p ws)
  show ?case
  proof (cases "wm_exp_to_ms p \<le> now")
    case False
    with Cons.IH [where st = st and kept = "kept @ [p]"] Cons.prems show ?thesis by simp
  next
    case True
    let ?i = "ucast (ph_inst_id (pm_hdr (wm_msg p))) :: u8"
    let ?st0 = "st\<lparr>ps_wait_recv_resp_list := kept @ p # ws, ps_mutex_held := False\<rparr>"
    have ws: "ps_wait_recv_resp_list ?st0 = kept @ p # ws" by simp
    note r = pldm_inv_remove [OF Cons.prems(1) ws]
    obtain st1 where f: "free_id (wm_mctp_inst p) ?i st = (st1, True)" "ps_mutex_held st1"
      and f': "fst (free_id (wm_mctp_inst p) ?i (?st0\<lparr>ps_wait_recv_resp_list := kept @ ws\<rparr>))
        = st1\<lparr>ps_wait_recv_resp_list := kept @ ws, ps_mutex_held := False\<rparr>"
      using r(1) Cons.prems(2) by (auto simp: free_id_eq split: if_splits)
    have "pldm_inv (st1\<lparr>ps_wait_recv_resp_list := kept @ ws, ps_mutex_held := False\<rparr>)" using r(2) f' by simp
    from Cons.IH [OF this f(2) Cons.prems(3)] True f(1) show ?thesis by auto
  qed
qed

lemma timeout_check_eq:
  assumes "pldm_inv st"
  shows "\<exists>st'. pldm_msg_timeout_check now st = (st', concat (map (\<lambda>p. timeout_event (wm_msg p))
      (filter (\<lambda>p. wm_exp_to_ms p \<le> now) (ps_wait_recv_resp_list st))), MCTP_SUCCESS)
    \<and> ps_wait_recv_resp_list st' = filter (\<lambda>p. now < wm_exp_to_ms p) (ps_wait_recv_resp_list st) \<and> pldm_inv st'"
proof -
  have h: "\<not> ps_mutex_held st" using assms by (simp add: pldm_inv_def)
  have "pldm_inv (st\<lparr>ps_mutex_held := False\<rparr>)"
    using assms by (simp add: pldm_inv_def)
  then show ?thesis
    using timeout_loop_eq [where st = "st\<lparr>ps_mutex_held := True\<rparr>" and kept = "[]"
        and ws = "ps_wait_recv_resp_list st" and now = now] assms h
    by (simp add: pldm_msg_timeout_check_def)
qed

lemma pldm_inv_add:
  assumes inv: "pldm_inv st" and i: "unat i < 32" "unat i \<notin> table_ids (ps_pldm_inst_table st inst)"
    and n: "n \<notin> wm_node ` set (ps_wait_recv_resp_list st)" and cur: "unat cur < 32"
  defines "st1 \<equiv> st\<lparr>ps_pldm_inst_table := (ps_pldm_inst_table st)(inst := set_bit (unat i) (ps_pldm_inst_table st inst)),
      ps_cur_inst_num := cur\<rparr>"
  shows "pldm_inv (st1\<lparr>ps_wait_recv_resp_list := ps_wait_recv_resp_list st @ [new_wait n inst now (sent_msg i msg)]\<rparr>)"
proof -
  let ?p = "new_wait n inst now (sent_msg i msg)" and ?ws = "ps_wait_recv_resp_list st"
  have k: "req_key ?p = (inst, unat i)" using i(1) by (simp add: req_key_def new_wait_def sent_msg_def unat_ucast_8_5)
  have tab: "table_ids (ps_pldm_inst_table st j) = waiting_ids ?ws j" for j using inv by (simp add: pldm_inv_def)
  have nk: "(inst, unat i) \<notin> req_key ` set ?ws" using i(2) unfolding tab by (simp add: waiting_ids_def)
  have w: "waiting_ids (?ws @ [?p]) j = (if j = inst then insert (unat i) (waiting_ids ?ws j) else waiting_ids ?ws j)" for j
    by (auto simp: waiting_ids_def k)
  have "table_ids (((ps_pldm_inst_table st)(inst := set_bit (unat i) (ps_pldm_inst_table st inst))) j) = waiting_ids (?ws @ [?p]) j" for j
    unfolding w by (simp add: table_ids_set [OF i(1)] tab)
  moreover have "wm_node ?p = n" by (simp add: new_wait_def)
  ultimately show ?thesis using inv k nk n cur by (auto simp: pldm_inv_def st1_def)
qed

lemma send_request_eq:
  assumes "ph_rq (pm_hdr msg)" and "\<not> ps_mutex_held st"
    and "register_instid (ps_pldm_inst_table st inst) (ps_cur_inst_num st) = (t, cur', Some i)"
  defines "m \<equiv> sent_msg i msg"
    and "st1 \<equiv> st\<lparr>ps_pldm_inst_table := (ps_pldm_inst_table st)(inst := t), ps_cur_inst_num := cur'\<rparr>"
  shows "mctp_pldm_send_msg node now send inst msg st w =
    (case node of
       None \<Rightarrow> Some (fst (free_id inst i st1), m, w, PLDM_ERROR)
     | Some n \<Rightarrow> (case send w (send_bytes m) (pm_ext_params m) of
         (w, rc) \<Rightarrow> if rc = MCTP_ERROR
           then Some (fst (free_id inst i (remove_node n (st1\<lparr>ps_wait_recv_resp_list := ps_wait_recv_resp_list st @ [new_wait n inst now m]\<rparr>))),
                 m, w, PLDM_ERROR)
           else Some (st1\<lparr>ps_wait_recv_resp_list := ps_wait_recv_resp_list st @ [new_wait n inst now m]\<rparr>, m, w, PLDM_SUCCESS)))"
  unfolding mctp_pldm_send_msg_def assms(3) m_def st1_def using assms(1,2)
  by (cases node) (simp_all add: Let_def sent_msg_def new_wait_def case_prod_beta)

lemma send_request_cases:
  assumes inv: "pldm_inv st" and rq: "ph_rq (pm_hdr msg)" and node: "node = None \<or> the node \<notin> wm_node ` set (ps_wait_recv_resp_list st)"
  shows "(\<exists>cur. unat cur < 32 \<and> table_ids (ps_pldm_inst_table st inst) = {..<32}
      \<and> mctp_pldm_send_msg node now send inst msg st w = Some (st\<lparr>ps_cur_inst_num := cur\<rparr>, msg, w, PLDM_ERROR))
    \<or> (\<exists>i cur. unat cur < 32 \<and> unat i < 32 \<and> unat i \<notin> table_ids (ps_pldm_inst_table st inst)
      \<and> mctp_pldm_send_msg node now send inst msg st w =
        (let m = sent_msg i msg; r = send w (send_bytes m) (pm_ext_params m) in
         case node of
           None \<Rightarrow> Some (st\<lparr>ps_cur_inst_num := cur\<rparr>, m, w, PLDM_ERROR)
         | Some n \<Rightarrow>
             if snd r = MCTP_ERROR then Some (st\<lparr>ps_cur_inst_num := cur\<rparr>, m, fst r, PLDM_ERROR)
             else Some (st\<lparr>ps_pldm_inst_table := (ps_pldm_inst_table st)(inst := set_bit (unat i) (ps_pldm_inst_table st inst)),
                     ps_cur_inst_num := cur,
                     ps_wait_recv_resp_list := ps_wait_recv_resp_list st @ [new_wait n inst now m]\<rparr>, m, fst r, PLDM_SUCCESS)))"
proof (rule register_instid_cases [of "ps_cur_inst_num st" "ps_pldm_inst_table st inst"])
  show "unat (ps_cur_inst_num st) < 32" using inv by (simp add: pldm_inv_def)
next
  fix cur'
  assume "register_instid (ps_pldm_inst_table st inst) (ps_cur_inst_num st) = (ps_pldm_inst_table st inst, cur', None)"
    "unat cur' < 32" "table_ids (ps_pldm_inst_table st inst) = {..<32}"
  then show ?thesis using rq by (auto simp: mctp_pldm_send_msg_def)
next
  fix i cur'
  assume reg: "register_instid (ps_pldm_inst_table st inst) (ps_cur_inst_num st)
      = (set_bit (unat i) (ps_pldm_inst_table st inst), cur', Some i)"
    and i: "unat cur' < 32" "unat i < 32" "unat i \<notin> table_ids (ps_pldm_inst_table st inst)"
  let ?t = "ps_pldm_inst_table st inst"
  have undo: "unset_bit (unat i) (set_bit (unat i) ?t) = ?t"
    using i(3) by (intro bit_word_eqI) (auto simp: bit_simps table_ids_def)
  have mem: "unat i \<in> table_ids (set_bit (unat i) ?t)" using i(2) by (simp add: table_ids_set)
  have rm: "snd (remove_first (\<lambda>p. wm_node p = n) (ps_wait_recv_resp_list st @ [new_wait n inst now m])) = ps_wait_recv_resp_list st"
    if "n \<notin> wm_node ` set (ps_wait_recv_resp_list st)" for n m
    using that by (subst remove_first_append) (auto simp: new_wait_def)
  let ?m = "sent_msg i msg"
  let ?st1 = "st\<lparr>ps_pldm_inst_table := (ps_pldm_inst_table st)(inst := set_bit (unat i) ?t), ps_cur_inst_num := cur'\<rparr>"
  have fr: "fst (free_id inst i (?st1\<lparr>ps_wait_recv_resp_list := ws\<rparr>)) = st\<lparr>ps_cur_inst_num := cur', ps_wait_recv_resp_list := ws\<rparr>" for ws
    using mem undo by (simp add: free_id_eq)
  have fr0: "fst (free_id inst i ?st1) = st\<lparr>ps_cur_inst_num := cur'\<rparr>" using fr [of "ps_wait_recv_resp_list st"] by simp
  have eq: "mctp_pldm_send_msg node now send inst msg st w =
    (case node of
       None \<Rightarrow> Some (fst (free_id inst i ?st1), ?m, w, PLDM_ERROR)
     | Some n \<Rightarrow> (case send w (send_bytes ?m) (pm_ext_params ?m) of
         (w, rc) \<Rightarrow> if rc = MCTP_ERROR
           then Some (fst (free_id inst i (remove_node n (?st1\<lparr>ps_wait_recv_resp_list := ps_wait_recv_resp_list st @ [new_wait n inst now ?m]\<rparr>))),
                 ?m, w, PLDM_ERROR)
           else Some (?st1\<lparr>ps_wait_recv_resp_list := ps_wait_recv_resp_list st @ [new_wait n inst now ?m]\<rparr>, ?m, w, PLDM_SUCCESS)))"
    using inv by (intro send_request_eq [OF rq _ reg]) (simp add: pldm_inv_def)
  have rmn: "remove_node n (?st1\<lparr>ps_wait_recv_resp_list := ps_wait_recv_resp_list st @ [new_wait n inst now ?m]\<rparr>) = ?st1"
    if "n \<notin> wm_node ` set (ps_wait_recv_resp_list st)" for n
    using rm [OF that, of ?m] by (simp add: remove_node_def)
  show ?thesis
    using i node
    by (intro disjI2, rule_tac exI [of _ i], rule_tac exI [of _ cur'])
      (auto simp: eq fr0 rmn Let_def case_prod_beta split: option.split)
qed

lemma pldm_inv_cur: "pldm_inv st \<Longrightarrow> unat cur < 32 \<Longrightarrow> pldm_inv (st\<lparr>ps_cur_inst_num := cur\<rparr>)"
  by (simp add: pldm_inv_def)

text \<open>A request is refused with the state as it was, up to the next id to try, or accepted with an
  unused id and a new entry of the list.\<close>

lemma send_request_outcome:
  assumes inv: "pldm_inv st" and rq: "ph_rq (pm_hdr msg)"
    and node: "node = None \<or> the node \<notin> wm_node ` set (ps_wait_recv_resp_list st)"
  obtains (refused) cur m w' where "mctp_pldm_send_msg node now send inst msg st w = Some (st\<lparr>ps_cur_inst_num := cur\<rparr>, m, w', PLDM_ERROR)"
      "pldm_inv (st\<lparr>ps_cur_inst_num := cur\<rparr>)" "m = msg \<or> (\<exists>i. m = sent_msg i msg)"
  | (accepted) n i st' w' where "node = Some n" "unat i < 32" "unat i \<notin> table_ids (ps_pldm_inst_table st inst)"
      "mctp_pldm_send_msg node now send inst msg st w = Some (st', sent_msg i msg, w', PLDM_SUCCESS)"
      "ps_wait_recv_resp_list st' = ps_wait_recv_resp_list st @ [new_wait n inst now (sent_msg i msg)]"
      "ps_pldm_inst_table st' = (ps_pldm_inst_table st)(inst := set_bit (unat i) (ps_pldm_inst_table st inst))"
      "w' = fst (send w (send_bytes (sent_msg i msg)) (pm_ext_params (sent_msg i msg)))"
      "pldm_inv st'"
proof (rule disjE [OF send_request_cases [OF inv rq node, of inst now send w]])
  assume "\<exists>cur. unat cur < 32 \<and> table_ids (ps_pldm_inst_table st inst) = {..<32}
      \<and> mctp_pldm_send_msg node now send inst msg st w = Some (st\<lparr>ps_cur_inst_num := cur\<rparr>, msg, w, PLDM_ERROR)"
  then show thesis using refused pldm_inv_cur [OF inv] by blast
next
  assume "\<exists>i cur. unat cur < 32 \<and> unat i < 32 \<and> unat i \<notin> table_ids (ps_pldm_inst_table st inst)
      \<and> mctp_pldm_send_msg node now send inst msg st w =
        (let m = sent_msg i msg; r = send w (send_bytes m) (pm_ext_params m) in
         case node of
           None \<Rightarrow> Some (st\<lparr>ps_cur_inst_num := cur\<rparr>, m, w, PLDM_ERROR)
         | Some n \<Rightarrow>
             if snd r = MCTP_ERROR then Some (st\<lparr>ps_cur_inst_num := cur\<rparr>, m, fst r, PLDM_ERROR)
             else Some (st\<lparr>ps_pldm_inst_table := (ps_pldm_inst_table st)(inst := set_bit (unat i) (ps_pldm_inst_table st inst)),
                     ps_cur_inst_num := cur,
                     ps_wait_recv_resp_list := ps_wait_recv_resp_list st @ [new_wait n inst now m]\<rparr>, m, fst r, PLDM_SUCCESS))"
  then obtain i cur where i: "unat cur < 32" "unat i < 32" "unat i \<notin> table_ids (ps_pldm_inst_table st inst)"
    and eq: "mctp_pldm_send_msg node now send inst msg st w =
        (let m = sent_msg i msg; r = send w (send_bytes m) (pm_ext_params m) in
         case node of
           None \<Rightarrow> Some (st\<lparr>ps_cur_inst_num := cur\<rparr>, m, w, PLDM_ERROR)
         | Some n \<Rightarrow>
             if snd r = MCTP_ERROR then Some (st\<lparr>ps_cur_inst_num := cur\<rparr>, m, fst r, PLDM_ERROR)
             else Some (st\<lparr>ps_pldm_inst_table := (ps_pldm_inst_table st)(inst := set_bit (unat i) (ps_pldm_inst_table st inst)),
                     ps_cur_inst_num := cur,
                     ps_wait_recv_resp_list := ps_wait_recv_resp_list st @ [new_wait n inst now m]\<rparr>, m, fst r, PLDM_SUCCESS))"
    by blast
  let ?m = "sent_msg i msg"
  let ?r = "send w (send_bytes ?m) (pm_ext_params ?m)"
  show thesis
  proof (cases "node = None \<or> snd ?r = MCTP_ERROR")
    case True
    then have "\<exists>w'. mctp_pldm_send_msg node now send inst msg st w = Some (st\<lparr>ps_cur_inst_num := cur\<rparr>, ?m, w', PLDM_ERROR)"
      unfolding eq by (cases node) (auto simp: Let_def)
    then show thesis using refused pldm_inv_cur [OF inv i(1)] by blast
  next
    case False
    then obtain n where n: "node = Some n" by (cases node) auto
    then have "n \<notin> wm_node ` set (ps_wait_recv_resp_list st)" using node by simp
    note inv' = pldm_inv_add [OF inv i(2,3) this i(1), of now msg]
    show thesis
      by (rule accepted [OF n i(2,3) _ _ _ _ inv', where w' = "fst ?r"])
        (use False in \<open>simp_all add: eq [unfolded n] n Let_def\<close>)
  qed
qed

lemma pldm_inv_init: "pldm_inv pldm_init"
  by (simp add: pldm_inv_def pldm_init_def table_ids_def waiting_ids_def)

lemma send_inv:
  assumes "pldm_inv st" and "node = None \<or> the node \<notin> wm_node ` set (ps_wait_recv_resp_list st)"
    and "mctp_pldm_send_msg node now send inst msg st w = Some (st', m, w', rc)"
  shows "pldm_inv st'"
proof (cases "ph_rq (pm_hdr msg)")
  case False
  then show ?thesis using assms by (auto simp: mctp_pldm_send_msg_def split: prod.splits)
next
  case True
  show ?thesis
    by (rule send_request_outcome [OF assms(1) True assms(2), of now send inst w]) (use assms(3) in auto)
qed

lemma resp_process_short: "length buf < 4 \<Longrightarrow> pldm_resp_msg_process inst buf st = Some r \<Longrightarrow> r = (st, [], PLDM_ERROR)"
  by (auto simp: pldm_resp_msg_process_def split: if_splits)

lemma input_inv: "pldm_inv st \<Longrightarrow> pldm_input_step inp st = Some (st', evs) \<Longrightarrow> pldm_inv st'"
proof (cases inp)
  case (Response_in inst buf)
  assume "pldm_inv st" "pldm_input_step inp st = Some (st', evs)"
  then show ?thesis using Response_in resp_process_inv [of st buf inst] resp_process_short [of buf inst st]
    by (cases "length buf < 4") (auto simp: pldm_input_step_def split: option.splits)
next
  case (Check_in now)
  assume inv: "pldm_inv st" and s: "pldm_input_step inp st = Some (st', evs)"
  show ?thesis using timeout_check_eq [OF inv, of now] s Check_in by (auto simp: pldm_input_step_def)
qed

lemma pldm_reach_pldm_inv: "pldm_reach send st \<Longrightarrow> pldm_inv st"
  by (induction rule: pldm_reach.induct) (auto intro: pldm_inv_init send_inv input_inv)

text \<open>A response finds the one request with its instance, id, type and command.\<close>

lemma resp_matches_key: "resp_matches inst hdr p \<Longrightarrow> req_key p = (inst, unat (ph_inst_id hdr))"
  by (simp add: resp_matches_def req_key_def Let_def)

lemma remove_matching:
  assumes inv: "pldm_inv st" and L: "ps_wait_recv_resp_list st = us @ p # vs" and m: "resp_matches inst hdr p"
  shows "remove_first (resp_matches inst hdr) (us @ p # vs) = (Some p, us @ vs)"
proof -
  have d: "distinct (map req_key (us @ p # vs))" using inv L by (simp add: pldm_inv_def)
  have "\<not> resp_matches inst hdr u" if "u \<in> set us" for u
  proof
    assume "resp_matches inst hdr u"
    then have "req_key u = req_key p" using resp_matches_key m by metis
    moreover have "req_key u \<noteq> req_key p" using d that by (auto simp: image_iff)
    ultimately show False by simp
  qed
  then show ?thesis using m by (induction us) auto
qed

lemma no_other_match:
  assumes inv: "pldm_inv st" and L: "ps_wait_recv_resp_list st = us @ p # vs" and m: "resp_matches inst hdr p"
    and q: "q \<in> set (us @ vs)"
  shows "\<not> resp_matches inst hdr q"
proof -
  have "distinct (map req_key (us @ p # vs))" using inv L by (simp add: pldm_inv_def)
  then have "req_key q \<noteq> req_key p" using q by (auto simp: image_iff)
  then show ?thesis using resp_matches_key [OF m] resp_matches_key [of inst hdr q] by auto
qed

lemma div_mod_8_inj: "(a :: nat) div 8 = b div 8 \<Longrightarrow> a mod 8 = b mod 8 \<Longrightarrow> a = b"
  by (metis div_mult_mod_eq)

lemma length_set_bit_at [simp]: "length (set_bit_at k buf) = length buf"
  by (simp add: set_bit_at_def)

lemma reports_set_bit_at:
  "reports (set_bit_at k buf) j = (j = k \<and> unat k div 8 < length buf \<or> reports buf j)"
proof (cases "unat k div 8 < length buf \<and> unat j div 8 = unat k div 8")
  case True
  have "(unat j mod 8 = unat k mod 8) = (j = k)"
    using div_mod_8_inj [of "unat j" "unat k"] True by (auto simp: word_unat_eq_iff)
  moreover have "unat j mod 8 < 8" by simp
  ultimately show ?thesis using True
    by (auto simp: reports_def set_bit_at_def nth0_def bit_simps bit_push_bit_iff bit_or_iff bit_1_iff)
next
  case False
  then show ?thesis by (auto simp: reports_def set_bit_at_def nth0_def nth_list_update)
qed

lemma reports_zeros: "\<not> reports (zeros n) k"
  by (simp add: reports_def zeros_def nth0_def)

lemma fold_set_types:
  "length (fold (\<lambda>(t, _) b. set_bit_at t b) tbl buf) = length buf
   \<and> reports (fold (\<lambda>(t, _) b. set_bit_at t b) tbl buf) k
       = (reports buf k \<or> unat k div 8 < length buf \<and> k \<in> fst ` set tbl)"
proof (induction tbl arbitrary: buf)
  case (Cons x tbl)
  obtain ty q where x: "x = (ty, q)" by force
  show ?case using Cons [of "set_bit_at ty buf"] by (auto simp: x reports_set_bit_at)
qed simp

lemma fold_set_commands:
  "length (fold (\<lambda>c b. if P c then set_bit_at (of_nat c) b else b) cs buf) = length buf
   \<and> reports (fold (\<lambda>c b. if P c then set_bit_at (of_nat c) b else b) cs buf) k
       = (reports buf k \<or> unat k div 8 < length buf \<and> (\<exists>c \<in> set cs. P c \<and> k = of_nat c))"
proof (induction cs arbitrary: buf)
  case (Cons c cs)
  show ?case using Cons [of "if P c then set_bit_at (of_nat c) buf else buf"] by (auto simp: reports_set_bit_at)
qed simp

lemma supported_types_reports:
  assumes "unat k < 64"
  shows "reports (fst (get_supported_pldm_type tbl buf 8)) k = (k \<in> fst ` set tbl)"
proof -
  have "unat k div 8 < 8" using assms by (simp add: less_mult_imp_div_less)
  then show ?thesis by (simp add: get_supported_pldm_type_def pldm_consts fold_set_types reports_zeros)
qed

lemma supported_commands_reports:
  assumes "query_lookup tbl ty = Some q"
  shows "reports (fst (get_supported_pldm_commands tbl ty buf 32)) k = (q k \<noteq> None)"
proof -
  have len: "unat k div 8 < 32" using unat_u8_le [of k] by (simp add: less_mult_imp_div_less)
  have "(\<exists>c \<in> set [0..<256]. q (of_nat c) \<noteq> None \<and> k = of_nat c) = (q k \<noteq> None)"
  proof
    assume "q k \<noteq> None"
    then show "\<exists>c \<in> set [0..<256]. q (of_nat c) \<noteq> None \<and> k = of_nat c"
      using unat_u8_le [of k] by (intro bexI [of _ "unat k"]) (simp_all del: upt_conv_Cons)
  qed auto
  then show ?thesis using assms len
    by (simp add: get_supported_pldm_commands_def pldm_consts fold_set_commands reports_zeros Let_def del: upt_conv_Cons upt_rec_numeral)
qed

lemma instid_alloc_cases:
  assumes "unat cur < 32"
  obtains (full) cur' where "instid_alloc (t, cur) = ((t, cur'), None)" "unat cur' < 32" "table_ids t = {..<32}"
  | (ok) i cur' where "instid_alloc (t, cur) = ((set_bit i t, cur'), Some i)" "unat cur' < 32" "i < 32" "i \<notin> table_ids t"
  by (rule register_instid_cases [OF assms, of t]) (auto simp: instid_alloc_def)

lemma instid_release_eq:
  "instid_release i (t, cur) = (if i \<in> table_ids t then ((unset_bit i t, cur), True) else ((t, cur), False))"
  using table_ids_less [of i t] by (auto simp: instid_release_def unregister_instid_eq unsigned_of_nat take_bit_nat_eq_self)

interpretation instids: id_pool "\<lambda>(t, cur). unat cur < 32" instid_alloc instid_release "\<lambda>(t, cur). table_ids t" 32
proof unfold_locales
  fix s :: "u32 \<times> u8" and i :: nat
  assume g: "case s of (t, cur) \<Rightarrow> unat cur < 32"
  obtain t cur where s: "s = (t, cur)" by force
  have c: "unat cur < 32" using g s by simp
  show "(case s of (t, cur) \<Rightarrow> table_ids t) \<subseteq> {..<32}" using table_ids_less by (auto simp: s)
  have ne: "table_ids t \<noteq> {..<32}" if "i < 32" "i \<notin> table_ids t" for i using that by auto
  show "case fst (instid_alloc s) of (t, cur) \<Rightarrow> unat cur < 32"
    by (rule instid_alloc_cases [OF c, of t]) (auto simp: s)
  show "(snd (instid_alloc s) = None) = ((case s of (t, cur) \<Rightarrow> table_ids t) = {..<32})"
    by (rule instid_alloc_cases [OF c, of t]) (auto simp: s)
  show "i < 32 \<and> i \<notin> (case s of (t, cur) \<Rightarrow> table_ids t) \<and>
      (case fst (instid_alloc s) of (t, cur) \<Rightarrow> table_ids t) = insert i (case s of (t, cur) \<Rightarrow> table_ids t)"
    if "snd (instid_alloc s) = Some i"
    by (rule instid_alloc_cases [OF c, of t]) (use that in \<open>auto simp: s table_ids_set\<close>)
  show "case fst (instid_release i s) of (t, cur) \<Rightarrow> unat cur < 32" using c by (simp add: s instid_release_eq)
  show "snd (instid_release i s) = (i \<in> (case s of (t, cur) \<Rightarrow> table_ids t))" by (simp add: s instid_release_eq)
  show "(case fst (instid_release i s) of (t, cur) \<Rightarrow> table_ids t) = (case s of (t, cur) \<Rightarrow> table_ids t) - {i}"
    by (simp add: s instid_release_eq table_ids_unset)
qed

lemma register_instid_free:
  "\<not> bit t (unat cur) \<Longrightarrow> register_instid t cur = (set_bit (unat cur) t, (cur + 1) AND 0x1F, Some cur)"
  by (simp add: register_instid_def pldm_consts numeral_eq_Suc)

lemma send_from_init:
  assumes "ph_rq (pm_hdr msg)" and "send w (send_bytes (sent_msg 0 msg)) (pm_ext_params (sent_msg 0 msg)) = (w', rc)" and "rc \<noteq> MCTP_ERROR"
  shows "mctp_pldm_send_msg (Some n) now send inst msg pldm_init w
    = Some (one_waiting n inst now msg, sent_msg 0 msg, w', PLDM_SUCCESS)"
proof -
  have r: "register_instid 0 0 = (set_bit 0 0, 1, Some 0)" using register_instid_free [of 0 0] by simp
  have reg: "register_instid (ps_pldm_inst_table pldm_init inst) (ps_cur_inst_num pldm_init) = (set_bit 0 0, 1, Some 0)"
    by (simp add: pldm_init_def r)
  have nh: "\<not> ps_mutex_held pldm_init" by (simp add: pldm_init_def)
  from assms(3) show ?thesis
    unfolding send_request_eq [OF assms(1) nh reg] option.case assms(2) prod.case
    by (simp only: if_False) (simp add: one_waiting_def pldm_init_def)
qed

lemma one_waiting_inv: "pldm_inv (one_waiting n inst now msg)"
proof -
  have "table_ids (set_bit 0 (0 :: u32)) = {0}" using table_ids_set [of 0 0] by (simp add: table_ids_def)
  moreover have "table_ids 0 = {}" by (simp add: table_ids_def)
  moreover have "req_key (new_wait n inst now (sent_msg 0 msg)) = (inst, 0)"
    by (simp add: req_key_def sent_msg_def)
  ultimately show ?thesis by (auto simp: pldm_inv_def one_waiting_def waiting_ids_def)
qed

text \<open>
  Instance ids: registering ids repeatedly from any table hands out ids that are pairwise
  different, below 32 and not in use, as long as enough are free, and marks exactly those in the table.
\<close>

theorem pldm_instids_distinct:
  assumes "unat cur < 32" and "card (table_ids t) + n \<le> 32"
  shows "case alloc_many instid_alloc n (t, cur) of ((t', cur'), is) \<Rightarrow>
    length is = n \<and> distinct is \<and> set is \<inter> table_ids t = {} \<and> table_ids t' = table_ids t \<union> set is"
  using instids.alloc_many_distinct [of "(t, cur)" n] assms
  by (auto simp: case_prod_beta)

theorem pldm_instids_distinct_witness:
  "case alloc_many instid_alloc 32 (0, 5) of ((t', cur'), is) \<Rightarrow>
    length is = 32 \<and> distinct is \<and> set is \<inter> table_ids 0 = {} \<and> table_ids t' = table_ids 0 \<union> set is"
  by (rule pldm_instids_distinct) (simp_all add: table_ids_def)

text \<open>
  (C12) In every state that sends, responses and time-out checks can lead to, the ids in use of every
  MCTP instance are exactly the ids of its waiting requests, no two waiting requests of an instance
  share an id, and the mutex of the list is free: no id is leaked and no caller is locked out.
\<close>

theorem pldm_reach_inv:
  assumes "pldm_reach send st"
  shows "table_ids (ps_pldm_inst_table st inst)
      = {unat (ph_inst_id (pm_hdr (wm_msg p))) | p. p \<in> set (ps_wait_recv_resp_list st) \<and> wm_mctp_inst p = inst}
    \<and> distinct (map (\<lambda>p. (wm_mctp_inst p, unat (ph_inst_id (pm_hdr (wm_msg p))))) (ps_wait_recv_resp_list st))
    \<and> \<not> ps_mutex_held st \<and> unat (ps_cur_inst_num st) < 32"
proof -
  have inv: "pldm_inv st" by (rule pldm_reach_pldm_inv [OF assms])
  have "waiting_ids (ps_wait_recv_resp_list st) inst
    = {unat (ph_inst_id (pm_hdr (wm_msg p))) | p. p \<in> set (ps_wait_recv_resp_list st) \<and> wm_mctp_inst p = inst}"
    by (auto simp: waiting_ids_def req_key_def)
  moreover have "(\<lambda>p. (wm_mctp_inst p, unat (ph_inst_id (pm_hdr (wm_msg p))))) = req_key"
    by (simp add: req_key_def fun_eq_iff)
  ultimately show ?thesis using inv by (simp only: pldm_inv_def) simp
qed

lemma demo_send:
  "mctp_pldm_send_msg (Some 5) 0 good_send 0 demo_pldm_msg pldm_init []
    = Some (one_waiting 5 0 0 demo_pldm_msg, sent_msg 0 demo_pldm_msg, [send_bytes (sent_msg 0 demo_pldm_msg)], PLDM_SUCCESS)"
  by (rule send_from_init [where rc = MCTP_SUCCESS]) (simp_all add: demo_pldm_msg_def good_send_def)

theorem pldm_reach_inv_witness:
  "table_ids (ps_pldm_inst_table (one_waiting 5 0 0 demo_pldm_msg) 0) = {0}
    \<and> \<not> ps_mutex_held (one_waiting 5 0 0 demo_pldm_msg)"
proof -
  have "pldm_reach good_send (one_waiting 5 0 0 demo_pldm_msg)"
    by (rule pldm_reach.send [OF pldm_reach.init _ demo_send]) (simp add: pldm_init_def)
  from pldm_reach_inv [OF this, of 0] show ?thesis
    by (auto simp: one_waiting_def sent_msg_def)
qed

lemma response_once:
  assumes inv: "pldm_inv st" and rq: "ph_rq (pm_hdr msg)" and n: "n \<notin> wm_node ` set (ps_wait_recv_resp_list st)"
    and snd: "mctp_pldm_send_msg (Some n) now send inst msg st w = Some (st', m, w', PLDM_SUCCESS)"
    and len: "4 \<le> length buf"
    and h: "ph_inst_id (pldm_hdr_of buf) = ph_inst_id (pm_hdr m)" "ph_pldm_type (pldm_hdr_of buf) = ph_pldm_type (pm_hdr msg)"
      "ph_cmd (pldm_hdr_of buf) = ph_cmd (pm_hdr msg)"
    and f: "pm_recv_resp_cb_fn msg = Some f"
  shows "\<exists>st2. pldm_resp_msg_process inst buf st'
      = Some (st2, [Recv_resp_cb f (pm_recv_resp_cb_args msg) (drop 4 buf)], PLDM_SUCCESS)
    \<and> ps_wait_recv_resp_list st2 = ps_wait_recv_resp_list st
    \<and> ps_pldm_inst_table st2 = ps_pldm_inst_table st
    \<and> pldm_resp_msg_process inst buf st2 = Some (st2, [], PLDM_SUCCESS)"
proof (rule send_request_outcome [OF inv rq, of "Some n" now send inst w])
  show "Some n = None \<or> the (Some n) \<notin> wm_node ` set (ps_wait_recv_resp_list st)" using n by simp
next
  fix cur m w'
  assume "mctp_pldm_send_msg (Some n) now send inst msg st w = Some (st\<lparr>ps_cur_inst_num := cur\<rparr>, m, w', PLDM_ERROR)"
  then show ?thesis using snd by (simp add: pldm_consts)
next
  fix n' i st'' w''
  assume n': "Some n = Some n'"
    and s: "mctp_pldm_send_msg (Some n) now send inst msg st w = Some (st'', sent_msg i msg, w'', PLDM_SUCCESS)"
      "ps_wait_recv_resp_list st'' = ps_wait_recv_resp_list st @ [new_wait n' inst now (sent_msg i msg)]"
      "pldm_inv st''"
    and i: "unat i < 32" "unat i \<notin> table_ids (ps_pldm_inst_table st inst)"
    and tab: "ps_pldm_inst_table st'' = (ps_pldm_inst_table st)(inst := set_bit (unat i) (ps_pldm_inst_table st inst))"
  have eq: "st'' = st'" "m = sent_msg i msg" using s(1) snd by auto
  let ?p = "new_wait n inst now (sent_msg i msg)" and ?L = "ps_wait_recv_resp_list st"
  have L: "ps_wait_recv_resp_list st' = ?L @ [?p]" using s(2) n' eq by simp
  have inv': "pldm_inv st'" using s(3) eq by simp
  have m: "resp_matches inst (pldm_hdr_of buf) ?p" using h eq(2) by (simp add: resp_matches_def)
  let ?st2 = "fst (free_id inst (ucast (ph_inst_id (pm_hdr (sent_msg i msg)))) (st'\<lparr>ps_wait_recv_resp_list := ?L\<rparr>))"
  have r: "pldm_resp_msg_process inst buf st' = Some (?st2, [Recv_resp_cb f (pm_recv_resp_cb_args msg) (drop 4 buf)], PLDM_SUCCESS)"
    unfolding resp_process_cases [OF inv' len] L remove_matching [OF inv' L m]
    by (simp add: f sent_msg_def)
  have inv2: "pldm_inv ?st2" by (rule resp_process_inv [OF inv' len r])
  have L2: "ps_wait_recv_resp_list ?st2 = ?L" using pldm_inv_remove(3) [OF inv' L] by simp
  have u: "unset_bit (unat i) (set_bit (unat i) (ps_pldm_inst_table st inst)) = ps_pldm_inst_table st inst"
    using i(2) by (intro bit_word_eqI) (auto simp: bit_simps table_ids_def)
  have u5: "unat (ucast i :: 5 word) = unat i" by (rule unat_ucast_8_5 [OF i(1)])
  have tab2: "ps_pldm_inst_table ?st2 = ps_pldm_inst_table st"
    using i(1) u tab eq(1) by (simp add: free_id_eq sent_msg_def u5 table_ids_set)
  have "fst (remove_first (resp_matches inst (pldm_hdr_of buf)) ?L) = None"
    using no_other_match [OF inv' L m] by (simp add: remove_first_None)
  then have "pldm_resp_msg_process inst buf ?st2 = Some (?st2, [], PLDM_SUCCESS)"
    unfolding resp_process_cases [OF inv2 len] L2 by (auto split: prod.split)
  then show ?thesis using r L2 tab2 by blast
qed

text \<open>
  (C16) A request that was sent is answered once: a response with the id the request got, its type and
  its command runs the callback of the request with the data behind the header, releases the id and
  leaves the other requests waiting; the same response a second time has no effect.
\<close>

theorem pldm_response_once:
  assumes "pldm_reach send st" and "ph_rq (pm_hdr msg)" and "n \<notin> wm_node ` set (ps_wait_recv_resp_list st)"
    and "mctp_pldm_send_msg (Some n) now send inst msg st w = Some (st', m, w', PLDM_SUCCESS)"
    and "4 \<le> length buf" and "ph_inst_id (pldm_hdr_of buf) = ph_inst_id (pm_hdr m)"
    and "ph_pldm_type (pldm_hdr_of buf) = ph_pldm_type (pm_hdr msg)" and "ph_cmd (pldm_hdr_of buf) = ph_cmd (pm_hdr msg)"
    and "pm_recv_resp_cb_fn msg = Some f"
  shows "\<exists>st2. pldm_resp_msg_process inst buf st'
      = Some (st2, [Recv_resp_cb f (pm_recv_resp_cb_args msg) (drop 4 buf)], PLDM_SUCCESS)
    \<and> ps_wait_recv_resp_list st2 = ps_wait_recv_resp_list st
    \<and> ps_pldm_inst_table st2 = ps_pldm_inst_table st
    \<and> pldm_resp_msg_process inst buf st2 = Some (st2, [], PLDM_SUCCESS)"
  by (rule response_once [OF pldm_reach_pldm_inv [OF assms(1)] assms(2-9)])

theorem pldm_response_once_witness:
  "\<exists>st2. pldm_resp_msg_process 0 [1, 0, 2, 0x11, 0, 42] (one_waiting 5 0 0 demo_pldm_msg)
      = Some (st2, [Recv_resp_cb 9 0 [0, 42]], PLDM_SUCCESS) \<and> ps_wait_recv_resp_list st2 = []
    \<and> pldm_resp_msg_process 0 [1, 0, 2, 0x11, 0, 42] st2 = Some (st2, [], PLDM_SUCCESS)"
proof -
  have h: "ph_inst_id (pldm_hdr_of [1, 0, 2, 0x11, 0, 42]) = ph_inst_id (pm_hdr (sent_msg 0 demo_pldm_msg))"
    "ph_pldm_type (pldm_hdr_of [1, 0, 2, 0x11, 0, 42]) = ph_pldm_type (pm_hdr demo_pldm_msg)"
    "ph_cmd (pldm_hdr_of [1, 0, 2, 0x11, 0, 42]) = ph_cmd (pm_hdr demo_pldm_msg)"
    by (simp_all add: pldm_hdr_of_def demo_pldm_msg_def sent_msg_def nth0_def)
  have f: "pm_recv_resp_cb_fn demo_pldm_msg = Some 9" "pm_recv_resp_cb_args demo_pldm_msg = 0" "ph_rq (pm_hdr demo_pldm_msg)"
    by (simp_all add: demo_pldm_msg_def)
  have i: "ps_wait_recv_resp_list pldm_init = []" by (simp add: pldm_init_def)
  from pldm_response_once [OF pldm_reach.init f(3) _ demo_send _ h f(1)] show ?thesis
    unfolding f(2) i by auto
qed

lemma request_answered:
  assumes "4 \<le> length buf" and "ph_rq (pldm_hdr_of buf)" and "run_handler tbl s buf ext = (s', res)"
  shows "mctp_pldm_cmd_handler tbl send inst buf ext st s w =
    (if pr_rc res = PLDM_LATER_RESP then Some (st, s', w, [], PLDM_SUCCESS)
     else if 508 < unat (pr_resp_len res) \<or> 508 < length (pr_resp res) then None
     else let bs = pldm_hdr_bytes ((pldm_hdr_of buf)\<lparr>ph_rq := False\<rparr>) @ answer_data res in
       Some (st, s', fst (send w bs ext), [], snd (send w bs ext)))"
proof -
  have b: "buf \<noteq> []" "\<not> length buf < 4" using assms(1) by auto
  have n: "PLDM_MAX_DATA_SIZE < 4 + k \<longleftrightarrow> 508 < k" for k by (auto simp: pldm_consts)
  show ?thesis
    using b assms(2,3) by (simp add: mctp_pldm_cmd_handler_def Let_def case_prod_beta n answer_data_def)
qed

text \<open>
  (C29) What becomes of a request, for every handler. A handler that defers its response
  sends nothing here. Any other request is answered with exactly one message that carries its instance id, type and
  command with the request bit cleared, and the handler's data in the length the handler set, when data and length
  are at most 508 bytes, which is what the buffer of 512 bytes has behind the header; with more the function runs
  over its buffer. A type without handlers or a command its handlers do not know is answered with the
  completion code for an unsupported command and changes nothing.
\<close>

theorem pldm_request_answered:
  assumes "4 \<le> length buf" and "ph_rq (pldm_hdr_of buf)" and "run_handler tbl s buf ext = (s', res)"
  shows "(pr_rc res = PLDM_LATER_RESP \<longrightarrow>
      mctp_pldm_cmd_handler tbl send inst buf ext st s w = Some (st, s', w, [], PLDM_SUCCESS))
    \<and> (pr_rc res \<noteq> PLDM_LATER_RESP \<longrightarrow> unat (pr_resp_len res) \<le> 508 \<longrightarrow> length (pr_resp res) \<le> 508 \<longrightarrow>
      (\<exists>bs. mctp_pldm_cmd_handler tbl send inst buf ext st s w = Some (st, s', fst (send w bs ext), [], snd (send w bs ext))
        \<and> pldm_hdr_of bs = (pldm_hdr_of buf)\<lparr>ph_rq := False\<rparr> \<and> length bs = 4 + unat (pr_resp_len res)
        \<and> drop 4 bs = answer_data res \<and> (length (pr_resp res) = unat (pr_resp_len res) \<longrightarrow> drop 4 bs = pr_resp res)))
    \<and> (pr_rc res \<noteq> PLDM_LATER_RESP \<longrightarrow> 508 < unat (pr_resp_len res) \<or> 508 < length (pr_resp res) \<longrightarrow>
      mctp_pldm_cmd_handler tbl send inst buf ext st s w = None)
    \<and> ((case query_lookup tbl (ucast (ph_pldm_type (pldm_hdr_of buf))) of
        None \<Rightarrow> True | Some q \<Rightarrow> q (ph_cmd (pldm_hdr_of buf)) = None) \<longrightarrow>
      s' = s \<and> pr_rc res \<noteq> PLDM_LATER_RESP \<and> answer_data res = [PLDM_ERROR_UNSUPPORTED_PLDM_CMD])"
proof (intro conjI impI)
  note r = request_answered [OF assms, where send = send and inst = inst and st = st and w = w]
  show "mctp_pldm_cmd_handler tbl send inst buf ext st s w = Some (st, s', w, [], PLDM_SUCCESS)"
    if "pr_rc res = PLDM_LATER_RESP" using r that by simp
  show "mctp_pldm_cmd_handler tbl send inst buf ext st s w = None"
    if "pr_rc res \<noteq> PLDM_LATER_RESP" and "508 < unat (pr_resp_len res) \<or> 508 < length (pr_resp res)"
    unfolding r by (simp only: that if_True if_False)
  let ?bs = "pldm_hdr_bytes ((pldm_hdr_of buf)\<lparr>ph_rq := False\<rparr>) @ answer_data res"
  have l: "length (answer_data res) = unat (pr_resp_len res)" by (simp add: answer_data_def zeros_def)
  show "\<exists>bs. mctp_pldm_cmd_handler tbl send inst buf ext st s w = Some (st, s', fst (send w bs ext), [], snd (send w bs ext))
        \<and> pldm_hdr_of bs = (pldm_hdr_of buf)\<lparr>ph_rq := False\<rparr> \<and> length bs = 4 + unat (pr_resp_len res)
        \<and> drop 4 bs = answer_data res \<and> (length (pr_resp res) = unat (pr_resp_len res) \<longrightarrow> drop 4 bs = pr_resp res)"
    if "pr_rc res \<noteq> PLDM_LATER_RESP" and "unat (pr_resp_len res) \<le> 508" and "length (pr_resp res) \<le> 508"
    using that r l by (intro exI [of _ ?bs]) (simp add: Let_def answer_data_def zeros_def)
  show "s' = s" "pr_rc res \<noteq> PLDM_LATER_RESP" "answer_data res = [PLDM_ERROR_UNSUPPORTED_PLDM_CMD]"
    if "case query_lookup tbl (ucast (ph_pldm_type (pldm_hdr_of buf))) of
        None \<Rightarrow> True | Some q \<Rightarrow> q (ph_cmd (pldm_hdr_of buf)) = None"
    using assms(3) that by (auto simp: run_handler_def Let_def answer_data_def zeros_def pldm_consts split: option.splits)
qed

theorem pldm_request_answered_witness:
  "\<exists>bs. mctp_pldm_cmd_handler ([] :: (u8 \<times> unit handler_query) list) good_send 0 [1, 0x83, 2, 0x11] demo_pldm_ext pldm_init () []
      = Some (pldm_init, (), [bs], [], 0)
    \<and> pldm_hdr_of bs = (pldm_hdr_of [1, 0x83, 2, 0x11])\<lparr>ph_rq := False\<rparr> \<and> drop 4 bs = [5]"
proof -
  have "ph_rq (pldm_hdr_of [1, 0x83, 2, 0x11])" by (simp add: pldm_hdr_of_def nth0_def)
  from pldm_request_answered [where tbl = "[] :: (u8 \<times> unit handler_query) list" and buf = "[1, 0x83, 2, 0x11]"
      and s = "()" and ext = demo_pldm_ext, OF _ this, of "()" "\<lparr>pr_resp = [5], pr_resp_len = 1, pr_rc = 1\<rparr>" good_send 0 pldm_init "[]"]
  show ?thesis by (simp add: run_handler_def pldm_consts good_send_def mctp_consts) blast
qed

end
