(* ===== verification/Pldm_Base.thy ===== *)
theory Pldm_Base
  imports Pldm
begin

text \<open>
  The base commands of PLDM (\<^verbatim>\<open>common/service/pldm/pldm_base.c\<close>): terminus id, version, supported
  types and supported commands, and the table that maps a command code to its handler.

  The two discovery commands read the table of all handlers, which itself contains the handlers of
  this file. Here the table is an argument of the commands, and the table of the firmware is
  closed in two steps; that the result is the fixed point the C initialiser denotes is a lemma below.
\<close>

section \<open>Definitions\<close>

definition DEFAULT_TID :: u8 where "DEFAULT_TID = 0x86"
definition PLDM_TYPE_BASE :: u8 where "PLDM_TYPE_BASE = 0"
definition PLDM_START_AND_END :: u8 where "PLDM_START_AND_END = 5"
definition INVALID_PLDM_TYPE_IN_REQUEST_DATA :: u8 where "INVALID_PLDM_TYPE_IN_REQUEST_DATA = 0x83"
definition PLDM_BASE_CMD_CODE_SETTID :: u8 where "PLDM_BASE_CMD_CODE_SETTID = 1"
definition PLDM_BASE_CMD_CODE_GETTID :: u8 where "PLDM_BASE_CMD_CODE_GETTID = 2"
definition PLDM_BASE_CMD_CODE_GET_PLDM_VER :: u8 where "PLDM_BASE_CMD_CODE_GET_PLDM_VER = 3"
definition PLDM_BASE_CMD_CODE_GET_PLDM_TYPE :: u8 where "PLDM_BASE_CMD_CODE_GET_PLDM_TYPE = 4"
definition PLDM_BASE_CMD_CODE_GET_PLDM_CMDS :: u8 where "PLDM_BASE_CMD_CODE_GET_PLDM_CMDS = 5"

lemmas pldm_base_consts =
  DEFAULT_TID_def PLDM_TYPE_BASE_def PLDM_START_AND_END_def INVALID_PLDM_TYPE_IN_REQUEST_DATA_def
  PLDM_BASE_CMD_CODE_SETTID_def PLDM_BASE_CMD_CODE_GETTID_def PLDM_BASE_CMD_CODE_GET_PLDM_VER_def
  PLDM_BASE_CMD_CODE_GET_PLDM_TYPE_def PLDM_BASE_CMD_CODE_GET_PLDM_CMDS_def

text \<open>\<open>tid\<close> is the platform's \<^verbatim>\<open>plat_pldm_get_tid\<close>; the default is the constant below.\<close>

definition plat_pldm_get_tid :: u8 where
  "plat_pldm_get_tid = DEFAULT_TID"

definition set_tid :: "'s pldm_cmd_proc_fn" where
  "set_tid s buf len instance_id ext =
     (s, \<lparr>pr_resp = [if len \<noteq> 1 then PLDM_ERROR_INVALID_LENGTH else PLDM_SUCCESS],
          pr_resp_len = 1, pr_rc = PLDM_SUCCESS\<rparr>)"

definition get_tid :: "u8 \<Rightarrow> 's pldm_cmd_proc_fn" where
  "get_tid tid s buf len instance_id ext =
     (s, \<lparr>pr_resp = [PLDM_SUCCESS, tid], pr_resp_len = 2, pr_rc = PLDM_SUCCESS\<rparr>)"

definition get_pldm_version :: "'s pldm_cmd_proc_fn" where
  "get_pldm_version s buf len instance_id ext =
     (if len \<noteq> 6 then
        (s, \<lparr>pr_resp = [PLDM_ERROR_INVALID_LENGTH], pr_resp_len = 1, pr_rc = PLDM_SUCCESS\<rparr>)
      else
        (s, \<lparr>pr_resp = [PLDM_SUCCESS] @ le32 0 @ [PLDM_START_AND_END] @ [0xF1, 0xF0, 0xF0, 0x00],
             pr_resp_len = 10, pr_rc = PLDM_SUCCESS\<rparr>))"

text \<open>The response buffer is zero before the handler runs.\<close>

definition get_pldm_types :: "(u8 \<times> 's handler_query) list \<Rightarrow> 's pldm_cmd_proc_fn" where
  "get_pldm_types tbl s buf len instance_id ext =
     (if len > 0 then
        (s, \<lparr>pr_resp = [PLDM_ERROR_INVALID_LENGTH], pr_resp_len = 1, pr_rc = PLDM_SUCCESS\<rparr>)
      else case get_supported_pldm_type tbl (zeros GET_PLDM_TYPE_BUF_SIZE) 8 of
        (types, rc) \<Rightarrow>
          (s, \<lparr>pr_resp = rc # types, pr_resp_len = (if rc = PLDM_SUCCESS then 9 else 1),
               pr_rc = PLDM_SUCCESS\<rparr>))"

definition get_pldm_commands :: "(u8 \<times> 's handler_query) list \<Rightarrow> 's pldm_cmd_proc_fn" where
  "get_pldm_commands tbl s buf len instance_id ext =
     (if len \<noteq> 5 then
        (s, \<lparr>pr_resp = [PLDM_ERROR_INVALID_LENGTH], pr_resp_len = 1, pr_rc = PLDM_SUCCESS\<rparr>)
      else case get_supported_pldm_commands tbl (nth0 buf 0) (zeros GET_PLDM_COMMAND_BUF_SIZE) 32 of
        (cmds, rc) \<Rightarrow>
          let cc = (if rc = PLDM_ERROR_INVALID_PLDM_TYPE then INVALID_PLDM_TYPE_IN_REQUEST_DATA
                    else if rc = PLDM_ERROR \<or> rc = PLDM_ERROR_INVALID_LENGTH then PLDM_ERROR
                    else if rc = PLDM_SUCCESS then PLDM_SUCCESS
                    else PLDM_ERROR) in
          (s, \<lparr>pr_resp = cc # cmds, pr_resp_len = 33, pr_rc = rc\<rparr>))"

definition pldm_base_cmd_tbl ::
  "u8 \<Rightarrow> (u8 \<times> 's handler_query) list \<Rightarrow> (u8 \<times> 's pldm_cmd_proc_fn) list" where
  "pldm_base_cmd_tbl tid tbl =
     [(PLDM_BASE_CMD_CODE_SETTID, set_tid),
      (PLDM_BASE_CMD_CODE_GETTID, get_tid tid),
      (PLDM_BASE_CMD_CODE_GET_PLDM_VER, get_pldm_version),
      (PLDM_BASE_CMD_CODE_GET_PLDM_TYPE, get_pldm_types tbl),
      (PLDM_BASE_CMD_CODE_GET_PLDM_CMDS, get_pldm_commands tbl)]"

text \<open>The search stops at the first entry with the code; \<open>None\<close> stands for the error and the null handler.\<close>

definition pldm_base_handler_query :: "u8 \<Rightarrow> (u8 \<times> 's handler_query) list \<Rightarrow> 's handler_query" where
  "pldm_base_handler_query tid tbl code = map_of (pldm_base_cmd_tbl tid tbl) code"

text \<open>
  The table of the firmware: the base commands first, then the entries of the other types, which
  depend on the configuration.
\<close>

definition query_tbl :: "u8 \<Rightarrow> (u8 \<times> 's handler_query) list \<Rightarrow> (u8 \<times> 's handler_query) list" where
  "query_tbl tid rest =
     (PLDM_TYPE_BASE,
      pldm_base_handler_query tid ((PLDM_TYPE_BASE, pldm_base_handler_query tid []) # rest)) # rest"

subsection \<open>Reference definitions and examples\<close>

text \<open>A request with an instance id, type and command, the data of the message sent in answer to it, and an example table.\<close>

definition request :: "5 word \<Rightarrow> 6 word \<Rightarrow> u8 \<Rightarrow> bytes \<Rightarrow> bytes" where
  "request i ty cmd data = pldm_hdr_bytes
     \<lparr>ph_msg_type = MCTP_MSG_TYPE_PLDM, ph_ic = False, ph_inst_id = i, ph_rsvd = False, ph_d = False, ph_rq = True,
      ph_pldm_type = ty, ph_ver = 0, ph_cmd = cmd\<rparr> @ data"

definition answer ::
  "(u8 \<times> 's handler_query) list \<Rightarrow> 's \<Rightarrow> bytes \<Rightarrow> mctp_ext_params \<Rightarrow> bytes option" where
  "answer tbl s buf ext = (case mctp_pldm_cmd_handler tbl (\<lambda>w bs x. (w @ [bs], MCTP_SUCCESS)) 0 buf ext pldm_init s [] of
     Some (_, _, [bs], _, _) \<Rightarrow> Some (drop 4 bs) | _ \<Rightarrow> None)"

definition dispatched :: "(u8 \<times> 's handler_query) list \<Rightarrow> u8 \<Rightarrow> u8 \<Rightarrow> bool" where
  "dispatched tbl ty cmd = (case query_lookup tbl ty of None \<Rightarrow> False | Some q \<Rightarrow> q cmd \<noteq> None)"

section \<open>Properties\<close>

lemma base_query_dom: "(pldm_base_handler_query tid tbl code \<noteq> None) = (code \<in> {1, 2, 3, 4, 5})"
  by (auto simp: pldm_base_handler_query_def pldm_base_cmd_tbl_def pldm_base_consts)

lemma base_query_eq:
  "(pldm_base_handler_query tid tbl code = None) = (pldm_base_handler_query tid tbl' code = None)"
  using base_query_dom [of tid tbl code] base_query_dom [of tid tbl' code] by blast

lemma supported_type_base:
  "get_supported_pldm_type ((t, q) # rest) buf n = get_supported_pldm_type ((t, q') # rest) buf n"
  by (simp add: get_supported_pldm_type_def)

lemma supported_commands_base:
  assumes "\<And>c. (q c = None) = (q' c = None)"
  shows "get_supported_pldm_commands ((0, q) # rest) ty buf n = get_supported_pldm_commands ((0, q') # rest) ty buf n"
  using assms by (simp add: get_supported_pldm_commands_def)

text \<open>The table is the fixed point that the initialiser of the C array denotes.\<close>

lemma query_tbl_fixed_point: "query_tbl tid rest = (PLDM_TYPE_BASE, pldm_base_handler_query tid (query_tbl tid rest)) # rest"
proof -
  let ?t = "(PLDM_TYPE_BASE, pldm_base_handler_query tid []) # rest"
  have "get_supported_pldm_type (query_tbl tid rest) = get_supported_pldm_type ?t"
    unfolding query_tbl_def by (intro ext, rule supported_type_base)
  then have t: "get_pldm_types (query_tbl tid rest) = get_pldm_types ?t"
    by (intro ext) (simp only: get_pldm_types_def)
  have "get_supported_pldm_commands (query_tbl tid rest) = get_supported_pldm_commands ?t"
    unfolding query_tbl_def PLDM_TYPE_BASE_def by (intro ext, rule supported_commands_base, rule base_query_eq)
  then have c: "get_pldm_commands (query_tbl tid rest) = get_pldm_commands ?t"
    by (intro ext) (simp only: get_pldm_commands_def)
  have "pldm_base_handler_query tid (query_tbl tid rest) = pldm_base_handler_query tid ?t"
    by (intro ext) (simp only: pldm_base_handler_query_def pldm_base_cmd_tbl_def t c)
  then show ?thesis by (simp add: query_tbl_def [of tid rest])
qed

lemma get_supported_pldm_commands_none:
  "query_lookup tbl ty = None \<Longrightarrow> get_supported_pldm_commands tbl ty buf 32 = (zeros 32, PLDM_ERROR_INVALID_PLDM_TYPE)"
  by (simp add: get_supported_pldm_commands_def pldm_consts)

lemma get_supported_rc:
  "query_lookup tbl ty \<noteq> None \<Longrightarrow> snd (get_supported_pldm_commands tbl ty buf 32) = PLDM_SUCCESS"
  "snd (get_supported_pldm_type tbl buf 8) = PLDM_SUCCESS"
  by (auto simp: get_supported_pldm_commands_def get_supported_pldm_type_def pldm_consts)

lemma length_fold_set_bit:
  "length (fold (\<lambda>(t, _) b. set_bit_at t b) tbl bs) = length bs"
  "length (fold (\<lambda>c b. if P c then set_bit_at (f c) b else b) cs bs) = length bs"
proof -
  show "length (fold (\<lambda>(t, _) b. set_bit_at t b) tbl bs) = length bs" by (induction tbl arbitrary: bs) auto
  show "length (fold (\<lambda>c b. if P c then set_bit_at (f c) b else b) cs bs) = length bs"
    by (induction cs arbitrary: bs) auto
qed

lemma length_supported:
  "length (fst (get_supported_pldm_commands tbl ty bs 32)) = 32"
  "length (fst (get_supported_pldm_type tbl bs 8)) = 8"
  by (auto simp: get_supported_pldm_commands_def get_supported_pldm_type_def pldm_consts length_fold_set_bit zeros_def
      Let_def split: option.split)

lemma query_lookup_None: "(query_lookup tbl ty = None) = (ty \<notin> fst ` set tbl)"
  by (induction tbl ty rule: query_lookup.induct) auto

lemma answer_eq:
  assumes "4 \<le> length buf" and "ph_rq (pldm_hdr_of buf)" and "run_handler tbl s buf ext = (s', res)"
    and "unat (pr_resp_len res) \<le> 508" and "length (pr_resp res) = unat (pr_resp_len res)"
    and "pr_rc res \<noteq> PLDM_LATER_RESP"
  shows "answer tbl s buf ext = Some (pr_resp res)"
proof -
  obtain bs where "mctp_pldm_cmd_handler tbl (\<lambda>w bs x. (w @ [bs], MCTP_SUCCESS)) 0 buf ext pldm_init s []
      = Some (pldm_init, s', [bs], [], MCTP_SUCCESS)" "drop 4 bs = pr_resp res"
    using request_answered [OF assms(1-3), of "\<lambda>w bs x. (w @ [bs], MCTP_SUCCESS)" 0 pldm_init "[]"] assms(4-6)
    by (auto simp: Let_def answer_data_def)
  then show ?thesis by (simp add: answer_def)
qed

lemma query_tbl_base: "query_lookup (query_tbl tid rest) 0 = Some (pldm_base_handler_query tid (query_tbl tid rest))"
  by (subst query_tbl_fixed_point) (simp add: PLDM_TYPE_BASE_def)

lemma base_handlers:
  "pldm_base_handler_query tid tbl 4 = Some (get_pldm_types tbl)"
  "pldm_base_handler_query tid tbl 5 = Some (get_pldm_commands tbl)"
  by (simp_all add: pldm_base_handler_query_def pldm_base_cmd_tbl_def pldm_base_consts)

lemma answer_types:
  assumes "ph_rq (pldm_hdr_of buf)" and "ph_pldm_type (pldm_hdr_of buf) = 0" and "ph_cmd (pldm_hdr_of buf) = 4" and "length buf = 4"
  shows "answer (query_tbl tid rest) s buf ext
    = Some (PLDM_SUCCESS # fst (get_supported_pldm_type (query_tbl tid rest) (zeros 8) 8))"
proof -
  let ?t = "query_tbl tid rest"
  obtain types where t: "get_supported_pldm_type ?t (zeros 8) 8 = (types, PLDM_SUCCESS)"
    using get_supported_rc(2) [of ?t "zeros 8"] by (metis prod.collapse)
  have "run_handler ?t s buf ext = (s, \<lparr>pr_resp = PLDM_SUCCESS # types, pr_resp_len = 9, pr_rc = PLDM_SUCCESS\<rparr>)"
    using assms t by (simp add: run_handler_def query_tbl_base base_handlers get_pldm_types_def GET_PLDM_TYPE_BUF_SIZE_def)
  from answer_eq [OF _ assms(1) this] show ?thesis
    using assms(4) t length_supported(2) [of ?t "zeros 8"] by (simp add: pldm_consts)
qed

lemma answer_commands:
  assumes "ph_rq (pldm_hdr_of buf)" and "ph_pldm_type (pldm_hdr_of buf) = 0" and "ph_cmd (pldm_hdr_of buf) = 5" and "length buf = 9"
  shows "answer (query_tbl tid rest) s buf ext
    = Some ((if query_lookup (query_tbl tid rest) (buf ! 4) = None then INVALID_PLDM_TYPE_IN_REQUEST_DATA else PLDM_SUCCESS)
         # fst (get_supported_pldm_commands (query_tbl tid rest) (buf ! 4) (zeros 32) 32))"
proof -
  let ?t = "query_tbl tid rest"
  let ?g = "get_supported_pldm_commands ?t (buf ! 4) (zeros 32) 32"
  have g: "snd ?g = (if query_lookup ?t (buf ! 4) = None then PLDM_ERROR_INVALID_PLDM_TYPE else PLDM_SUCCESS)"
    by (simp add: get_supported_pldm_commands_none get_supported_rc)
  have b: "nth0 (drop 4 buf) 0 = buf ! 4" using assms by (simp add: nth0_def)
  have "run_handler ?t s buf ext
      = (s, \<lparr>pr_resp = (if query_lookup ?t (buf ! 4) = None then INVALID_PLDM_TYPE_IN_REQUEST_DATA else PLDM_SUCCESS) # fst ?g,
             pr_resp_len = 33, pr_rc = snd ?g\<rparr>)"
    using assms by (simp add: run_handler_def query_tbl_base base_handlers get_pldm_commands_def b GET_PLDM_COMMAND_BUF_SIZE_def
        case_prod_beta g) (simp add: pldm_consts)
  from answer_eq [OF _ assms(1) this] show ?thesis
    using assms(4) length_supported(1) [of ?t "buf ! 4" "zeros 32"] by (simp add: g) (simp add: pldm_consts)
qed

lemma answer_not_dispatched:
  assumes "4 \<le> length buf" and "ph_rq (pldm_hdr_of buf)"
    and "\<not> dispatched tbl (ucast (ph_pldm_type (pldm_hdr_of buf))) (ph_cmd (pldm_hdr_of buf))"
  shows "answer tbl s buf ext = Some [PLDM_ERROR_UNSUPPORTED_PLDM_CMD]"
proof -
  have "run_handler tbl s buf ext = (s, \<lparr>pr_resp = [PLDM_ERROR_UNSUPPORTED_PLDM_CMD], pr_resp_len = 1, pr_rc = PLDM_ERROR\<rparr>)"
    using assms(3) by (auto simp: run_handler_def dispatched_def Let_def split: option.splits)
  from answer_eq [OF assms(1,2) this] show ?thesis by (simp add: pldm_consts)
qed

lemma request_fields [simp]:
  "ph_rq (pldm_hdr_of (request i ty cmd data))" "ph_pldm_type (pldm_hdr_of (request i ty cmd data)) = ty"
  "ph_cmd (pldm_hdr_of (request i ty cmd data)) = cmd" "length (request i ty cmd data) = 4 + length data"
  by (simp_all add: request_def)

lemma request_nth4 [simp]: "request i ty cmd (x # data) ! 4 = x"
  by (simp add: request_def nth_append)

lemma supported_commands_dispatched:
  "reports (fst (get_supported_pldm_commands tbl ty buf 32)) c = dispatched tbl ty c"
proof (cases "query_lookup tbl ty")
  case None
  then show ?thesis by (simp add: get_supported_pldm_commands_none reports_zeros dispatched_def)
next
  case (Some q)
  then show ?thesis using supported_commands_reports [OF Some, of buf c] by (simp add: dispatched_def)
qed

lemma unat_ucast_6_8: "unat (ucast (k :: 6 word) :: u8) < 64"
proof -
  have "unat k < 64" using unsigned_less [of k, where 'a = nat] by simp
  then show ?thesis by (simp add: unsigned_ucast_eq take_bit_eq_mod)
qed

text \<open>
  (C27) Discovery is truthful: the answer to GetPLDMTypes reports exactly the types of the handler table,
  the answer to GetPLDMCommands for a type reports exactly the commands that a request of that type is
  dispatched for (and the completion code for an invalid type when the table has no such type), and a
  request with a command that is not reported is answered with the code for an unsupported command.
\<close>

theorem pldm_discovery_truthful:
  fixes ty :: "6 word" and tid :: u8 and rest :: "(u8 \<times> 's handler_query) list"
  defines "tbl \<equiv> query_tbl tid rest"
  shows "\<exists>types cmds.
    answer tbl s (request i 0 PLDM_BASE_CMD_CODE_GET_PLDM_TYPE []) ext = Some (PLDM_SUCCESS # types)
    \<and> (\<forall>k :: 6 word. reports types (ucast k) = (ucast k \<in> fst ` set tbl))
    \<and> answer tbl s (request i 0 PLDM_BASE_CMD_CODE_GET_PLDM_CMDS (ucast ty # le32 ver)) ext
        = Some ((if ucast ty \<in> fst ` set tbl then PLDM_SUCCESS else INVALID_PLDM_TYPE_IN_REQUEST_DATA) # cmds)
    \<and> (\<forall>c. reports cmds c = dispatched tbl (ucast ty) c)
    \<and> (\<forall>c data. \<not> reports cmds c \<longrightarrow> answer tbl s (request i ty c data) ext = Some [PLDM_ERROR_UNSUPPORTED_PLDM_CMD])"
proof -
  let ?types = "fst (get_supported_pldm_type tbl (zeros 8) 8)"
  let ?cmds = "fst (get_supported_pldm_commands tbl (ucast ty) (zeros 32) 32)"
  have "answer tbl s (request i 0 PLDM_BASE_CMD_CODE_GET_PLDM_TYPE []) ext = Some (PLDM_SUCCESS # ?types)"
    unfolding tbl_def by (rule answer_types) (simp_all add: pldm_base_consts)
  moreover have "answer tbl s (request i 0 PLDM_BASE_CMD_CODE_GET_PLDM_CMDS (ucast ty # le32 ver)) ext
      = Some ((if ucast ty \<in> fst ` set tbl then PLDM_SUCCESS else INVALID_PLDM_TYPE_IN_REQUEST_DATA) # ?cmds)"
    unfolding tbl_def by (subst answer_commands) (simp_all add: pldm_base_consts le32_def query_lookup_None)
  moreover have "reports ?types (ucast k) = (ucast k \<in> fst ` set tbl)" for k :: "6 word"
    by (rule supported_types_reports [OF unat_ucast_6_8])
  moreover have "reports ?cmds c = dispatched tbl (ucast ty) c" for c by (rule supported_commands_dispatched)
  moreover have "answer tbl s (request i ty c data) ext = Some [PLDM_ERROR_UNSUPPORTED_PLDM_CMD]" if "\<not> reports ?cmds c" for c data
    by (rule answer_not_dispatched) (use that in \<open>simp_all add: supported_commands_dispatched\<close>)
  ultimately show ?thesis by blast
qed

theorem pldm_discovery_truthful_witness:
  "\<exists>types cmds. answer (query_tbl plat_pldm_get_tid [(5, demo_query)]) () (request 3 0 4 []) demo_pldm_ext = Some (0 # types)
    \<and> reports types 5
    \<and> answer (query_tbl plat_pldm_get_tid [(5, demo_query)]) () (request 3 0 5 [5, 0, 0, 0, 0]) demo_pldm_ext = Some (0 # cmds)
    \<and> \<not> reports cmds 4
    \<and> answer (query_tbl plat_pldm_get_tid [(5, demo_query)]) () (request 3 5 4 [7]) demo_pldm_ext = Some [5]"
proof -
  let ?t = "query_tbl plat_pldm_get_tid [(5, demo_query)]"
  have d: "\<not> dispatched ?t 5 4" "fst ` set ?t = {0, 5}"
    by (simp_all add: dispatched_def query_tbl_def demo_query_def pldm_base_consts)
  from pldm_discovery_truthful [where tid = plat_pldm_get_tid and rest = "[(5, demo_query)]" and s = "()" and i = 3
      and ty = 5 and ver = 0 and ext = demo_pldm_ext]
  obtain types cmds where
    "answer ?t () (request 3 0 4 []) demo_pldm_ext = Some (0 # types)"
    and t: "\<And>k :: 6 word. reports types (ucast k) = (ucast k \<in> fst ` set ?t)"
    and "answer ?t () (request 3 0 5 [5, 0, 0, 0, 0]) demo_pldm_ext = Some (0 # cmds)"
    and c: "\<And>c. reports cmds c = dispatched ?t 5 c"
    and u: "\<And>c data. \<not> reports cmds c \<Longrightarrow> answer ?t () (request 3 5 c data) demo_pldm_ext = Some [5]"
    unfolding pldm_base_consts pldm_consts le32_def d(2) by auto
  moreover have "reports types 5" using t [of 5] by (simp add: d)
  moreover have "\<not> reports cmds 4" using c d by simp
  moreover from this have "answer ?t () (request 3 5 4 [7]) demo_pldm_ext = Some [5]" by (rule u)
  ultimately show ?thesis by blast
qed

end
