(* ===== verification/Pldm_Wait.thy ===== *)
theory Pldm_Wait
  imports Pldm
begin

text \<open>
  The waiting requests of PLDM as an instance of the locale of request lists: over any sequence of
  messages and time-out checks every request completes exactly once, with the call of its
  response callback or of its time-out callback, and no other callback runs.
\<close>

section \<open>Definitions\<close>

text \<open>The requests that an input completes, the callback it runs for one of them, and the inputs that end a wait.\<close>

definition pldm_finished :: "pldm_input \<Rightarrow> pldm_state \<Rightarrow> wait_msg list" where
  "pldm_finished i st =
     (case i of
        Response_in inst buf \<Rightarrow>
          (if length buf < 4 then []
           else case fst (remove_first (resp_matches inst (pldm_hdr_of buf)) (ps_wait_recv_resp_list st)) of
             None \<Rightarrow> [] | Some p \<Rightarrow> [p])
      | Check_in now \<Rightarrow> filter (\<lambda>p. wm_exp_to_ms p \<le> now) (ps_wait_recv_resp_list st))"

definition pldm_complete :: "pldm_input \<Rightarrow> pldm_state \<Rightarrow> (pldm_state \<times> wait_msg list) option" where
  "pldm_complete i st = map_option (\<lambda>(st', _). (st', pldm_finished i st)) (pldm_input_step i st)"

fun pldm_callback :: "pldm_input \<Rightarrow> wait_msg \<Rightarrow> pldm_event list" where
  "pldm_callback (Response_in inst buf) p =
     (case pm_recv_resp_cb_fn (wm_msg p) of None \<Rightarrow> []
      | Some f \<Rightarrow> [Recv_resp_cb f (pm_recv_resp_cb_args (wm_msg p)) (drop 4 buf)])"
| "pldm_callback (Check_in now) p = timeout_event (wm_msg p)"

text \<open>
  What ends a wait: a message on the instance of the request with its id, type and command in the bytes of the header, or a
  check after its expiry.
\<close>

fun pldm_ends :: "pldm_input \<Rightarrow> wait_msg \<Rightarrow> bool" where
  "pldm_ends (Response_in inst buf) p =
     (let h = pm_hdr (wm_msg p) in 4 \<le> length buf \<and> wm_mctp_inst p = inst \<and> nth0 buf 1 AND 0x1F = ucast (ph_inst_id h)
        \<and> nth0 buf 2 AND 0x3F = ucast (ph_pldm_type h) \<and> nth0 buf 3 = ph_cmd h)"
| "pldm_ends (Check_in now) p = (wm_exp_to_ms p \<le> now)"

section \<open>Properties\<close>

lemma response_finished:
  assumes inv: "pldm_inv st" and s: "pldm_input_step (Response_in inst buf) st = Some (st', evs)"
  shows "mset (ps_wait_recv_resp_list st) = mset (ps_wait_recv_resp_list st') + mset (pldm_finished (Response_in inst buf) st)"
    and "evs = concat (map (pldm_callback (Response_in inst buf)) (pldm_finished (Response_in inst buf) st))"
proof -
  let ?L = "ps_wait_recv_resp_list st" and ?m = "resp_matches inst (pldm_hdr_of buf)"
  have "mset ?L = mset (ps_wait_recv_resp_list st') + mset (pldm_finished (Response_in inst buf) st)
    \<and> evs = concat (map (pldm_callback (Response_in inst buf)) (pldm_finished (Response_in inst buf) st))"
  proof (cases "length buf < 4")
    case True
    then show ?thesis using s resp_process_short [OF True, of inst st]
      by (auto simp: pldm_input_step_def pldm_finished_def split: option.splits)
  next
    case False
    then have len: "4 \<le> length buf" by simp
    obtain r rest where rf: "remove_first ?m ?L = (r, rest)" by force
    show ?thesis
    proof (cases r)
      case None
      then show ?thesis using s rf False
        by (auto simp: pldm_input_step_def resp_process_cases [OF inv len] pldm_finished_def)
    next
      case (Some p)
      obtain us vs where ws: "?L = us @ p # vs" "rest = us @ vs" using remove_first_Some rf Some by metis
      have "ps_wait_recv_resp_list st' = rest"
        using s rf Some by (auto simp: pldm_input_step_def resp_process_cases [OF inv len] free_id_eq)
      then show ?thesis using s rf Some False ws
        by (auto simp: pldm_input_step_def resp_process_cases [OF inv len] pldm_finished_def)
    qed
  qed
  then show "mset ?L = mset (ps_wait_recv_resp_list st') + mset (pldm_finished (Response_in inst buf) st)"
    and "evs = concat (map (pldm_callback (Response_in inst buf)) (pldm_finished (Response_in inst buf) st))"
    by blast+
qed

lemma pldm_callback_check: "pldm_callback (Check_in now) = (\<lambda>p. timeout_event (wm_msg p))"
  by auto

lemma check_finished:
  assumes "pldm_inv st" and "pldm_input_step (Check_in now) st = Some (st', evs)"
  shows "mset (ps_wait_recv_resp_list st) = mset (ps_wait_recv_resp_list st') + mset (pldm_finished (Check_in now) st)"
    and "evs = concat (map (pldm_callback (Check_in now)) (pldm_finished (Check_in now) st))"
    and "p \<in> set (ps_wait_recv_resp_list st') \<Longrightarrow> \<not> wm_exp_to_ms p \<le> now"
  using timeout_check_eq [OF assms(1), of now] assms(2)
    multiset_partition [of "mset (ps_wait_recv_resp_list st)" "\<lambda>p. wm_exp_to_ms p \<le> now"]
  by (auto simp: pldm_input_step_def pldm_finished_def pldm_callback_check not_le)

lemma ucast_8_5_eq: "((ucast (b :: u8) :: 5 word) = i) = (b AND 0x1F = ucast i)"
proof -
  have "(b AND 0x1F) = take_bit 5 b" by (simp add: take_bit_eq_mask mask_eq_exp_minus_1)
  then show ?thesis by (simp add: word_unat_eq_iff unsigned_take_bit_eq unsigned_ucast_eq take_bit_eq_mod unat_mod)
qed

lemma ucast_8_6_eq: "((ucast (b :: u8) :: 6 word) = i) = (b AND 0x3F = ucast i)"
proof -
  have "(b AND 0x3F) = take_bit 6 b" by (simp add: take_bit_eq_mask mask_eq_exp_minus_1)
  moreover have "unat i < 64" using unsigned_less [of i] by simp
  ultimately show ?thesis by (simp add: word_unat_eq_iff unsigned_take_bit_eq unsigned_ucast_eq take_bit_eq_mod unat_mod)
qed

lemma resp_matches_ends:
  "4 \<le> length buf \<Longrightarrow> resp_matches inst (pldm_hdr_of buf) p = pldm_ends (Response_in inst buf) p"
  using ucast_8_5_eq [of "nth0 buf 1" "ph_inst_id (pm_hdr (wm_msg p))"] ucast_8_6_eq [of "nth0 buf 2" "ph_pldm_type (pm_hdr (wm_msg p))"]
  by (auto simp: resp_matches_def pldm_hdr_of_def Let_def)

text \<open>What an input completes may be completed by it, and what waits after it may not.\<close>

lemma finished_ends: "p \<in> set (pldm_finished i st) \<Longrightarrow> pldm_ends i p"
proof (cases i)
  case (Response_in inst buf)
  assume p: "p \<in> set (pldm_finished i st)"
  then have len: "4 \<le> length buf" by (auto simp: pldm_finished_def Response_in split: if_splits)
  obtain r rest where rf: "remove_first (resp_matches inst (pldm_hdr_of buf)) (ps_wait_recv_resp_list st) = (r, rest)" by force
  then have "r = Some p" using p len by (auto simp: pldm_finished_def Response_in split: option.splits)
  then have "resp_matches inst (pldm_hdr_of buf) p" using remove_first_Some rf by metis
  then show ?thesis using resp_matches_ends [OF len] Response_in by blast
qed (auto simp: pldm_finished_def)

lemma waiting_not_ended:
  assumes inv: "pldm_inv st" and s: "pldm_input_step i st = Some (st', evs)" and p: "p \<in> set (ps_wait_recv_resp_list st')"
  shows "\<not> pldm_ends i p"
proof (cases i)
  case (Check_in now)
  then show ?thesis using check_finished(3) [OF inv] s p by simp
next
  case (Response_in inst buf)
  show ?thesis
  proof
    assume e: "pldm_ends i p"
    then have len: "4 \<le> length buf" by (simp add: Response_in Let_def)
    have m: "resp_matches inst (pldm_hdr_of buf) p" using e resp_matches_ends [OF len] Response_in by blast
    obtain r rest where rf: "remove_first (resp_matches inst (pldm_hdr_of buf)) (ps_wait_recv_resp_list st) = (r, rest)" by force
    show False
    proof (cases r)
      case None
      then have "\<forall>q \<in> set (ps_wait_recv_resp_list st). \<not> resp_matches inst (pldm_hdr_of buf) q"
        using rf remove_first_None by (metis fst_conv)
      moreover have "ps_wait_recv_resp_list st' = ps_wait_recv_resp_list st"
        using s rf None by (auto simp: pldm_input_step_def Response_in resp_process_cases [OF inv len])
      ultimately show False using m p by simp
    next
      case (Some q)
      obtain us vs where ws: "ps_wait_recv_resp_list st = us @ q # vs" "rest = us @ vs" and mq: "resp_matches inst (pldm_hdr_of buf) q"
        using remove_first_Some rf Some by metis
      have "ps_wait_recv_resp_list st' = us @ vs"
        using s rf Some ws by (auto simp: pldm_input_step_def Response_in resp_process_cases [OF inv len] free_id_eq)
      then show False using no_other_match [OF inv ws(1) mq] m p by simp
    qed
  qed
qed

interpretation pldm_wait: wait_list_events pldm_inv ps_wait_recv_resp_list pldm_complete pldm_ends pldm_ends pldm_input_step pldm_callback
proof unfold_locales
  fix st st' :: pldm_state and i :: pldm_input and ns :: "wait_msg list" and p :: wait_msg
  assume inv: "pldm_inv st"
  {
    assume "pldm_complete i st = Some (st', ns)"
    then obtain evs where s: "pldm_input_step i st = Some (st', evs)" and ns: "ns = pldm_finished i st"
      by (auto simp: pldm_complete_def)
    show "pldm_inv st'" by (rule input_inv [OF inv s])
    show "mset (ps_wait_recv_resp_list st) = mset (ps_wait_recv_resp_list st') + mset ns"
      using response_finished(1) [OF inv] check_finished(1) [OF inv] s ns by (cases i) auto
    show "\<not> pldm_ends i p" if "p \<in> set (ps_wait_recv_resp_list st')"
      by (rule waiting_not_ended [OF inv s that])
    show "pldm_ends i p" if "p \<in> set ns" using finished_ends that ns by blast
  }
  show "pldm_input_step i st = map_option (\<lambda>(s', ns). (s', concat (map (pldm_callback i) ns))) (pldm_complete i st)"
    using response_finished(2) [OF inv] check_finished(2) [OF inv]
    by (cases i; cases "pldm_input_step i st") (auto simp: pldm_complete_def)
qed

text \<open>
  (C9) Over any sequence of messages of the other side and runs of the monitor thread, every waiting request either
  completes exactly once or still waits at the end. The callbacks that ran are those of one completion of each request
  that completed, by an input that ends its wait: a message on its instance with its id, type and command, or
  a check after its expiry. A request that still waits has met no such input, so each one that gets its
  response or is checked late enough completes; and the ids in use are those of the requests that still wait.
\<close>

theorem pldm_exactly_once:
  assumes "pldm_reach send st" and "steps pldm_input_step inps st = Some (st', evs)"
  shows "(\<exists>ds. mset (map snd ds) + mset (ps_wait_recv_resp_list st') = mset (ps_wait_recv_resp_list st)
        \<and> distinct (map snd ds) \<and> evs = concat (map (\<lambda>(i, p). pldm_callback i p) ds)
        \<and> (\<forall>(i, p) \<in> set ds. i \<in> set inps \<and> pldm_ends i p))
    \<and> (\<forall>p \<in> set (ps_wait_recv_resp_list st'). \<forall>i \<in> set inps. \<not> pldm_ends i p)
    \<and> (\<forall>inst. table_ids (ps_pldm_inst_table st' inst) = waiting_ids (ps_wait_recv_resp_list st') inst)"
proof -
  have inv: "pldm_inv st" by (rule pldm_reach_pldm_inv [OF assms(1)])
  have c: "pldm_inv st'" "\<forall>p \<in> set (ps_wait_recv_resp_list st'). \<forall>i \<in> set inps. \<not> pldm_ends i p"
    using pldm_wait.completions [OF inv assms(2)] by blast+
  obtain ds where ds: "mset (map snd ds) + mset (ps_wait_recv_resp_list st') = mset (ps_wait_recv_resp_list st)"
    "evs = concat (map (\<lambda>(i, p). pldm_callback i p) ds)" "\<forall>(i, p) \<in> set ds. i \<in> set inps \<and> pldm_ends i p"
    using pldm_wait.completions [OF inv assms(2)] by blast
  have "distinct (ps_wait_recv_resp_list st)" using inv by (simp add: pldm_inv_def distinct_map)
  then have "distinct (map snd ds @ ps_wait_recv_resp_list st')" using ds(1) by (metis mset_append mset_eq_imp_distinct_iff)
  then have "distinct (map snd ds)" by simp
  moreover have "\<forall>inst. table_ids (ps_pldm_inst_table st' inst) = waiting_ids (ps_wait_recv_resp_list st') inst"
    using c(1) by (simp add: pldm_inv_def)
  ultimately show ?thesis using c(2) ds by blast
qed

text \<open>An answer to another command is passed over, the right one completes the request, a late check finds nothing.\<close>

theorem pldm_exactly_once_witness:
  "\<exists>st' ds. steps pldm_input_step [Response_in 0 [1, 0, 2, 0x12, 6], Response_in 0 [1, 0, 2, 0x11, 5], Check_in 30000]
      (one_waiting 5 0 0 demo_pldm_msg) = Some (st', [Recv_resp_cb 9 0 [5]])
    \<and> ps_wait_recv_resp_list st' = [] \<and> table_ids (ps_pldm_inst_table st' 0) = {}
    \<and> map snd ds = [new_wait 5 0 0 (sent_msg 0 demo_pldm_msg)]
    \<and> concat (map (\<lambda>(i, p). pldm_callback i p) ds) = [Recv_resp_cb 9 0 [5]]"
proof -
  let ?st = "one_waiting 5 0 0 demo_pldm_msg" and ?p = "new_wait 5 0 0 (sent_msg 0 demo_pldm_msg)"
  let ?inps = "[Response_in 0 [1, 0, 2, 0x12, 6], Response_in 0 [1, 0, 2, 0x11, 5], Check_in 30000]"
  have "mctp_pldm_send_msg (Some 5) 0 good_send 0 demo_pldm_msg pldm_init []
      = Some (?st, sent_msg 0 demo_pldm_msg, [send_bytes (sent_msg 0 demo_pldm_msg)], PLDM_SUCCESS)"
    by (rule send_from_init [where rc = MCTP_SUCCESS]) (simp_all add: demo_pldm_msg_def good_send_def)
  then have r: "pldm_reach good_send ?st"
    by (rule pldm_reach.send [OF pldm_reach.init, rotated]) (simp add: pldm_init_def)
  have inv: "pldm_inv ?st" by (rule pldm_reach_pldm_inv [OF r])
  have L: "ps_wait_recv_resp_list ?st = [?p]" by (simp add: one_waiting_def)
  have f: "pm_recv_resp_cb_fn (wm_msg ?p) = Some 9" "pm_recv_resp_cb_args (wm_msg ?p) = 0" "wm_mctp_inst ?p = 0"
    "ph_inst_id (pm_hdr (wm_msg ?p)) = 0" "ph_pldm_type (pm_hdr (wm_msg ?p)) = 2" "ph_cmd (pm_hdr (wm_msg ?p)) = 0x11"
    by (simp_all add: new_wait_def sent_msg_def demo_pldm_msg_def)
  have m: "resp_matches 0 (pldm_hdr_of [1, 0, 2, 0x11, 5]) ?p" "\<not> resp_matches 0 (pldm_hdr_of [1, 0, 2, 0x12, 6]) ?p"
    by (simp_all add: resp_matches_ends nth0_def new_wait_def sent_msg_def demo_pldm_msg_def)
  have s1: "pldm_input_step (Response_in 0 [1, 0, 2, 0x12, 6]) ?st = Some (?st, [])"
    using m L by (simp add: pldm_input_step_def resp_process_cases [OF inv])
  obtain s2 where s2: "pldm_input_step (Response_in 0 [1, 0, 2, 0x11, 5]) ?st = Some (s2, [Recv_resp_cb 9 0 [5]])"
    "ps_wait_recv_resp_list s2 = []"
    using m L f by (simp add: pldm_input_step_def resp_process_cases [OF inv] free_id_eq)
  have inv2: "pldm_inv s2" by (rule input_inv [OF inv s2(1)])
  obtain s3 where s3: "pldm_input_step (Check_in 30000) s2 = Some (s3, [])"
    using timeout_check_eq [OF inv2, of 30000] s2(2) by (auto simp: pldm_input_step_def)
  have s: "steps pldm_input_step ?inps ?st = Some (s3, [Recv_resp_cb 9 0 [5]])" using s1 s2(1) s3 by simp
  have e: "pldm_ends (Response_in 0 [1, 0, 2, 0x11, 5]) ?p" using m(1) resp_matches_ends by simp
  from pldm_exactly_once [OF r s] obtain ds where d: "mset (map snd ds) + mset (ps_wait_recv_resp_list s3) = {#?p#}"
    "[Recv_resp_cb 9 0 [5]] = concat (map (\<lambda>(i, p). pldm_callback i p) ds)"
    and w: "\<forall>p \<in> set (ps_wait_recv_resp_list s3). \<forall>i \<in> set ?inps. \<not> pldm_ends i p"
    and t: "table_ids (ps_pldm_inst_table s3 0) = waiting_ids (ps_wait_recv_resp_list s3) 0"
    unfolding L by auto
  have "set (ps_wait_recv_resp_list s3) \<subseteq> {?p}"
    using d(1) by (metis mset_subset_eq_add_right set_mset_mono set_mset_mset set_mset_single)
  then have L3: "ps_wait_recv_resp_list s3 = []" using w e by (cases "ps_wait_recv_resp_list s3") auto
  then have "mset (map snd ds) = {#?p#}" using d(1) by simp
  then have "map snd ds = [?p]" by (simp only: mset_single_iff)
  then show ?thesis using s L3 t d(2) by (intro exI [of _ s3] exI [of _ ds]) (simp add: waiting_ids_def)
qed

end
