(* ===== verification/Pldm_Read.thy ===== *)
theory Pldm_Read
  imports Pldm
begin

text \<open>
  The blocking read of PLDM, \<^verbatim>\<open>mctp_pldm_read\<close> of \<^verbatim>\<open>src/common/service/pldm/pldm.c\<close>: a request is sent and the
  caller sleeps on a queue until the response callback or the time-out callback of the request puts
  an event into it, up to three times. The theorems show when it returns, what it returns, and the one
  kind of response after which it does not.
\<close>

section \<open>Definitions\<close>

subsection \<open>Reading\<close>

definition pldm_read_resp_handler :: "u16 \<Rightarrow> bytes \<Rightarrow> bytes \<Rightarrow> u16 \<Rightarrow> (bytes \<times> u16) option" where
  "pldm_read_resp_handler rbuf_len rbuf resp rlen =
     (if rlen = 0 then None
      else let n = (if rbuf_len < rlen then rbuf_len else rlen)
           in Some (memcpy_at 0 (take (unat n) resp) rbuf, n))"

text \<open>
  While a reader waits, the rest of the system goes on: messages arrive and the monitor thread
  checks for time-outs. These inputs are a list; the reader goes on when one of them makes a
  callback of the reader put an event into its queue, and \<open>None\<close> is a wait that no input ends. The two
  callbacks are identified by \<open>READ_RESP_FN\<close> and \<open>READ_TIMEOUT_FN\<close> and by the addresses of their
  arguments.
\<close>

definition READ_RESP_FN :: nat where "READ_RESP_FN = 1"
definition READ_TIMEOUT_FN :: nat where "READ_TIMEOUT_FN = 2"

text \<open>The event that reaches the queue of the reader: a response length, or \<open>None\<close> for the time-out.\<close>

fun read_event ::
  "nat \<Rightarrow> nat \<Rightarrow> u16 \<Rightarrow> bytes \<Rightarrow> pldm_event list \<Rightarrow> (bytes \<times> u16 option) option" where
  "read_event recv_arg msgq rbuf_len rbuf [] = None"
| "read_event recv_arg msgq rbuf_len rbuf (Recv_resp_cb f a resp # evs) =
     (if f = READ_RESP_FN \<and> a = recv_arg
      then (case pldm_read_resp_handler rbuf_len rbuf resp (of_nat (length resp)) of
              None \<Rightarrow> read_event recv_arg msgq rbuf_len rbuf evs
            | Some (rbuf, n) \<Rightarrow> Some (rbuf, Some n))
      else read_event recv_arg msgq rbuf_len rbuf evs)"
| "read_event recv_arg msgq rbuf_len rbuf (Timeout_cb f a # evs) =
     (if f = READ_TIMEOUT_FN \<and> a = msgq then Some (rbuf, None)
      else read_event recv_arg msgq rbuf_len rbuf evs)"

fun msgq_wait ::
  "nat \<Rightarrow> nat \<Rightarrow> u16 \<Rightarrow> bytes \<Rightarrow> pldm_input list \<Rightarrow> pldm_state
   \<Rightarrow> (pldm_state \<times> bytes \<times> u16 option \<times> pldm_input list) option" where
  "msgq_wait recv_arg msgq rbuf_len rbuf [] st = None"
| "msgq_wait recv_arg msgq rbuf_len rbuf (i # is) st =
     (case pldm_input_step i st of
        None \<Rightarrow> None
      | Some (st, evs) \<Rightarrow>
          (case read_event recv_arg msgq rbuf_len rbuf evs of
             None \<Rightarrow> msgq_wait recv_arg msgq rbuf_len rbuf is st
           | Some (rbuf, r) \<Rightarrow> Some (st, rbuf, r, is)))"

text \<open>
  Attempt \<open>k\<close> allocates the node \<open>fst (env k)\<close> at the uptime \<open>snd (env k)\<close>. The result is the state, the
  transport, the receive buffer and the returned length.
\<close>

fun pldm_read_loop ::
  "(nat \<Rightarrow> nat option \<times> int) \<Rightarrow> 'w mctp_send_fn \<Rightarrow> nat \<Rightarrow> nat \<Rightarrow> nat \<Rightarrow> u16 \<Rightarrow> nat \<Rightarrow> nat
   \<Rightarrow> pldm_msg \<Rightarrow> pldm_input list \<Rightarrow> pldm_state \<Rightarrow> 'w \<Rightarrow> bytes
   \<Rightarrow> (pldm_state \<times> 'w \<times> bytes \<times> u16) option" where
  "pldm_read_loop env send inst recv_arg msgq rbuf_len 0 k msg is st w rbuf = Some (st, w, rbuf, 0)"
| "pldm_read_loop env send inst recv_arg msgq rbuf_len (Suc n) k msg is st w rbuf =
     (case mctp_pldm_send_msg (fst (env k)) (snd (env k)) send inst msg st w of
        None \<Rightarrow> None
      | Some (st, msg, w, rc) \<Rightarrow>
          if rc = PLDM_ERROR
          then pldm_read_loop env send inst recv_arg msgq rbuf_len n (k + 1) msg is st w rbuf
          else
            (case msgq_wait recv_arg msgq rbuf_len rbuf is st of
               None \<Rightarrow> None
             | Some (st, rbuf, Some len, is) \<Rightarrow> Some (st, w, rbuf, len)
             | Some (st, rbuf, None, is) \<Rightarrow>
                 pldm_read_loop env send inst recv_arg msgq rbuf_len n (k + 1) msg is st w rbuf))"

text \<open>The time-out and the number of attempts by the kind of the message.\<close>

definition read_limits :: "pldm_hdr \<Rightarrow> u16 \<times> nat" where
  "read_limits h =
     (if ph_pldm_type h = PLDM_TYPE_FW_UPDATE then (PLDM_FW_UPDATE_TIMEOUT_MS, PLDM_FW_UPDATE_MAX_RETRY)
      else if ph_cmd h = PLDM_OEM_IPMI_BRIDGE then (PLDM_BRIDGE_IPMI_TIMEOUT_MS, PLDM_BRIDGE_IPMI_MAX_RETRY)
      else (PLDM_MSG_TIMEOUT_MS, PLDM_MSG_MAX_RETRY))"

text \<open>\<open>alloc\<close> is the pair of addresses that the two allocations return, if both succeed.\<close>

definition read_msg :: "nat \<Rightarrow> nat \<Rightarrow> pldm_msg \<Rightarrow> pldm_msg" where
  "read_msg recv_arg msgq msg = msg\<lparr>pm_recv_resp_cb_fn := Some READ_RESP_FN, pm_recv_resp_cb_args := recv_arg,
     pm_timeout_cb_fn := Some READ_TIMEOUT_FN, pm_timeout_cb_fn_args := msgq,
     pm_timeout_ms := fst (read_limits (pm_hdr msg))\<rparr>"

definition mctp_pldm_read ::
  "(nat \<times> nat) option \<Rightarrow> (nat \<Rightarrow> nat option \<times> int) \<Rightarrow> 'w mctp_send_fn \<Rightarrow> nat \<Rightarrow> pldm_msg
   \<Rightarrow> pldm_input list \<Rightarrow> pldm_state \<Rightarrow> 'w \<Rightarrow> bytes \<Rightarrow> u16 \<Rightarrow> (pldm_state \<times> 'w \<times> bytes \<times> u16) option" where
  "mctp_pldm_read alloc env send inst msg is st w rbuf rbuf_len =
     (if rbuf_len = 0 then Some (st, w, rbuf, 0)
      else case alloc of
        None \<Rightarrow> Some (st, w, rbuf, 0)
      | Some (recv_arg, msgq) \<Rightarrow>
          pldm_read_loop env send inst recv_arg msgq rbuf_len (snd (read_limits (pm_hdr msg))) 0
            (read_msg recv_arg msgq msg) is st w rbuf)"

subsection \<open>Reference definitions and examples\<close>

text \<open>Entries of the list that a reader made, and those of others\<close>

definition of_reader :: "nat \<Rightarrow> nat \<Rightarrow> pldm_msg \<Rightarrow> bool" where
  "of_reader recv_arg msgq m = (pm_recv_resp_cb_fn m = Some READ_RESP_FN \<and> pm_recv_resp_cb_args m = recv_arg
     \<and> pm_timeout_cb_fn m = Some READ_TIMEOUT_FN \<and> pm_timeout_cb_fn_args m = msgq)"

definition of_others :: "nat \<Rightarrow> nat \<Rightarrow> pldm_msg \<Rightarrow> bool" where
  "of_others recv_arg msgq m = (\<not> (pm_recv_resp_cb_fn m = Some READ_RESP_FN \<and> pm_recv_resp_cb_args m = recv_arg)
     \<and> \<not> (pm_timeout_cb_fn m = Some READ_TIMEOUT_FN \<and> pm_timeout_cb_fn_args m = msgq))"

fun carries_data :: "pldm_input \<Rightarrow> bool" where
  "carries_data (Response_in _ buf) = (4 < length buf \<and> length buf < 65536)"
| "carries_data (Check_in _) = True"

fun late_check :: "int \<Rightarrow> pldm_input \<Rightarrow> bool" where
  "late_check T (Check_in t) = (T \<le> t)"
| "late_check T (Response_in _ _) = False"

definition read_data :: "u16 \<Rightarrow> bytes \<Rightarrow> bytes \<Rightarrow> bytes \<times> u16" where
  "read_data rbuf_len rbuf buf = (let n = min rbuf_len (of_nat (length buf - 4)) in
     (memcpy_at 0 (take (unat n) (drop 4 buf)) rbuf, n))"

text \<open>
  How a wait ends: before any check after the expiry of \<open>p\<close> but the last input, with the time-out or
  with the data of a response that matches \<open>p\<close>.
\<close>

definition wait_ends ::
  "wait_msg \<Rightarrow> u16 \<Rightarrow> bytes \<Rightarrow> wait_msg set \<Rightarrow> pldm_input list
   \<Rightarrow> (pldm_state \<times> bytes \<times> u16 option \<times> pldm_input list) option \<Rightarrow> bool" where
  "wait_ends p bl rbuf S is res = (\<exists>st' rbuf' r is1 i js. res = Some (st', rbuf', r, js) \<and> is = is1 @ i # js
    \<and> pldm_inv st' \<and> set (ps_wait_recv_resp_list st') \<subseteq> S \<and> list_all (\<lambda>i. \<not> late_check (wm_exp_to_ms p) i) is1
    \<and> (r = None \<and> rbuf' = rbuf
      \<or> (\<exists>j buf. i = Response_in j buf \<and> resp_matches j (pldm_hdr_of buf) p
           \<and> (rbuf', r) = (fst (read_data bl rbuf buf), Some (snd (read_data bl rbuf buf))))))"

text \<open>What the blocking read returns: nothing after the last attempt, or the data of a response to it.\<close>

definition read_answer :: "nat \<Rightarrow> pldm_msg \<Rightarrow> pldm_input list \<Rightarrow> u16 \<Rightarrow> bytes \<Rightarrow> bytes \<times> u16 \<Rightarrow> bool" where
  "read_answer inst msg inps rbuf_len rbuf res = (res = (rbuf, 0)
     \<or> (\<exists>buf. Response_in inst buf \<in> set inps \<and> ph_pldm_type (pldm_hdr_of buf) = ph_pldm_type (pm_hdr msg)
          \<and> ph_cmd (pldm_hdr_of buf) = ph_cmd (pm_hdr msg) \<and> res = read_data rbuf_len rbuf buf))"

section \<open>Properties\<close>

lemma read_event_others_timeout:
  "\<forall>p \<in> set ps. of_others ra mq (wm_msg p) \<Longrightarrow>
    read_event ra mq bl rbuf (concat (map (\<lambda>p. timeout_event (wm_msg p)) ps) @ evs) = read_event ra mq bl rbuf evs"
  by (induction ps) (auto simp: timeout_event_def of_others_def split: option.splits)

lemma read_event_others_resp:
  "of_others ra mq m \<Longrightarrow> pm_recv_resp_cb_fn m = Some f \<Longrightarrow>
    read_event ra mq bl rbuf [Recv_resp_cb f (pm_recv_resp_cb_args m) resp] = None"
  by (auto simp: of_others_def)

lemma read_event_reader_resp:
  assumes "of_reader ra mq m" and "carries_data (Response_in j buf)" and "pm_recv_resp_cb_fn m = Some f"
  shows "read_event ra mq bl rbuf [Recv_resp_cb f (pm_recv_resp_cb_args m) (drop 4 buf)]
    = Some (fst (read_data bl rbuf buf), Some (snd (read_data bl rbuf buf)))"
proof -
  have "(of_nat (length buf - 4) :: u16) \<noteq> 0"
  proof -
    have "0 < length buf - 4" "length buf - 4 < 2 ^ 16" using assms(2) by auto
    then show ?thesis by (simp only: word_unat_eq_iff unsigned_of_nat) (simp add: take_bit_nat_eq_self)
  qed
  then show ?thesis using assms(1,3)
    by (auto simp: of_reader_def pldm_read_resp_handler_def read_data_def Let_def min_def not_le)
qed

lemma read_event_reader_timeout:
  assumes "of_reader ra mq m" 
  shows "read_event ra mq bl rbuf (timeout_event m @ evs) = Some (rbuf, None)"
  using assms by (simp add: of_reader_def timeout_event_def)

text \<open>What one input does to a state in which the reader's request \<open>p\<close> waits among those of others.\<close>

lemma input_step_check:
  assumes inv: "pldm_inv st" and L: "ps_wait_recv_resp_list st = us @ p # vs"
    and o: "\<forall>q \<in> set (us @ vs). of_others ra mq (wm_msg q)" and r: "of_reader ra mq (wm_msg p)"
  obtains st' evs where "pldm_input_step (Check_in t) st = Some (st', evs)" "pldm_inv st'"
    "ps_wait_recv_resp_list st' = filter (\<lambda>q. t < wm_exp_to_ms q) (us @ p # vs)"
    "read_event ra mq bl rbuf evs = (if wm_exp_to_ms p \<le> t then Some (rbuf, None) else None)"
proof -
  let ?P = "\<lambda>q. wm_exp_to_ms q \<le> t" and ?ev = "\<lambda>q. timeout_event (wm_msg q)"
  obtain st' where s: "pldm_msg_timeout_check t st = (st', concat (map ?ev (filter ?P (us @ p # vs))), MCTP_SUCCESS)"
    "ps_wait_recv_resp_list st' = filter (\<lambda>q. t < wm_exp_to_ms q) (us @ p # vs)" "pldm_inv st'"
    using timeout_check_eq [OF inv, of t] unfolding L by blast
  have n: "read_event ra mq bl rbuf (concat (map ?ev (filter ?P xs)) @ evs) = read_event ra mq bl rbuf evs"
    if "set xs \<subseteq> set (us @ vs)" for xs evs
    using o that by (intro read_event_others_timeout) auto
  have e: "read_event ra mq bl rbuf (concat (map ?ev (filter ?P (us @ p # vs))))
      = (if wm_exp_to_ms p \<le> t then Some (rbuf, None) else None)"
    using n [of us] n [of vs "[]"] read_event_reader_timeout [OF r, of bl rbuf] by simp
  show thesis by (rule that [OF _ s(3,2) e]) (simp add: pldm_input_step_def s(1))
qed

lemma drop_other:
  assumes "us @ p # vs = as @ q # bs" and "q \<noteq> p"
  obtains us' vs' where "as @ bs = us' @ p # vs'" "set us' \<subseteq> set us" "set vs' \<subseteq> set vs"
  using assms
proof (induction us arbitrary: as thesis)
  case Nil
  then obtain as' where a: "as = p # as'" "vs = as' @ q # bs" by (cases as) auto
  show ?case by (rule Nil.prems(1) [of "[]" "as' @ bs"]) (auto simp: a)
next
  case (Cons x us)
  show ?case
  proof (cases as)
    case Nil
    with Cons.prems(2) show ?thesis by (intro Cons.prems(1) [of us vs]) auto
  next
    case (Cons y as')
    then have e: "us @ p # vs = as' @ q # bs" "y = x" using Cons.prems(2) by auto
    obtain us' vs' where "as' @ bs = us' @ p # vs'" "set us' \<subseteq> set us" "set vs' \<subseteq> set vs"
      by (rule Cons.IH [OF _ e(1) Cons.prems(3)])
    with Cons e(2) show ?thesis by (intro Cons.prems(1) [of "x # us'" vs']) auto
  qed
qed

lemma input_step_response:
  assumes inv: "pldm_inv st" and L: "ps_wait_recv_resp_list st = us @ p # vs" and c: "carries_data (Response_in j buf)"
    and o: "\<forall>q \<in> set (us @ vs). of_others ra mq (wm_msg q)" and r: "of_reader ra mq (wm_msg p)"
  obtains (mine) st' evs where "resp_matches j (pldm_hdr_of buf) p"
      "pldm_input_step (Response_in j buf) st = Some (st', evs)" "pldm_inv st'" "ps_wait_recv_resp_list st' = us @ vs"
      "read_event ra mq bl rbuf evs = Some (fst (read_data bl rbuf buf), Some (snd (read_data bl rbuf buf)))"
  | (other) st' evs us' vs' where "pldm_input_step (Response_in j buf) st = Some (st', evs)" "pldm_inv st'"
      "ps_wait_recv_resp_list st' = us' @ p # vs'" "set us' \<subseteq> set us" "set vs' \<subseteq> set vs" "read_event ra mq bl rbuf evs = None"
proof -
  have len: "4 \<le> length buf" using c by simp
  have "pldm_resp_msg_process j buf st \<noteq> None"
    unfolding resp_process_cases [OF inv len] by (auto split: prod.split option.split)
  then obtain st' evs rc where s: "pldm_resp_msg_process j buf st = Some (st', evs, rc)" by auto
  have step: "pldm_input_step (Response_in j buf) st = Some (st', evs)" by (simp add: pldm_input_step_def s)
  have inv': "pldm_inv st'" by (rule resp_process_inv [OF inv len s])
  show thesis
  proof (cases "resp_matches j (pldm_hdr_of buf) p")
    case True
    have j: "wm_mctp_inst p = j" using True by (simp add: resp_matches_def Let_def)
    have f: "pm_recv_resp_cb_fn (wm_msg p) = Some READ_RESP_FN" using r by (simp add: of_reader_def)
    have "ps_wait_recv_resp_list st' = us @ vs" "evs = [Recv_resp_cb READ_RESP_FN (pm_recv_resp_cb_args (wm_msg p)) (drop 4 buf)]"
      using s pldm_inv_remove(3) [OF inv L] f
      unfolding resp_process_cases [OF inv len] L remove_matching [OF inv L True] j by auto
    then show thesis
      using mine [OF True step inv'] read_event_reader_resp [OF r c f] by simp
  next
    case False
    show thesis
    proof (cases "remove_first (resp_matches j (pldm_hdr_of buf)) (us @ p # vs)")
      case (Pair x rest)
      show thesis
      proof (cases x)
        case None
        then have "st' = st" "evs = []" using s Pair unfolding resp_process_cases [OF inv len] L by auto
        then show thesis using other [OF step inv', of us vs] L by simp
      next
        case (Some q)
        obtain as bs where q: "us @ p # vs = as @ q # bs" "rest = as @ bs" "resp_matches j (pldm_hdr_of buf) q"
          using remove_first_Some Pair Some by metis
        have "q \<noteq> p" using False q(3) by auto
        moreover have "q \<in> set (us @ p # vs)" unfolding q(1) by simp
        ultimately have qo: "of_others ra mq (wm_msg q)" using o by auto
        have j: "wm_mctp_inst q = j" using q(3) by (simp add: resp_matches_def Let_def)
        have L': "ps_wait_recv_resp_list st = as @ q # bs" using L q(1) by simp
        have w': "ps_wait_recv_resp_list st' = as @ bs"
          using s pldm_inv_remove(3) [OF inv L'] Pair Some q(2) unfolding resp_process_cases [OF inv len] L j by auto
        have "evs = (case pm_recv_resp_cb_fn (wm_msg q) of None \<Rightarrow> []
            | Some f \<Rightarrow> [Recv_resp_cb f (pm_recv_resp_cb_args (wm_msg q)) (drop 4 buf)])"
          using s Pair Some unfolding resp_process_cases [OF inv len] L by auto
        then have e: "read_event ra mq bl rbuf evs = None"
          using read_event_others_resp [OF qo] by (cases "pm_recv_resp_cb_fn (wm_msg q)") auto
        obtain us' vs' where "as @ bs = us' @ p # vs'" "set us' \<subseteq> set us" "set vs' \<subseteq> set vs"
          by (rule drop_other [OF q(1) \<open>q \<noteq> p\<close>])
        then show thesis using other [OF step inv' _ _ _ e, of us' vs'] w' by simp
      qed
    qed
  qed
qed

lemma wait_ends_later:
  assumes "wait_ends p bl rbuf S' is res" and "S' \<subseteq> S" and "\<not> late_check (wm_exp_to_ms p) i"
  shows "wait_ends p bl rbuf S (i # is) res"
proof -
  obtain st' rbuf' r is1 k js where w: "res = Some (st', rbuf', r, js)" "is = is1 @ k # js" "pldm_inv st'"
    "set (ps_wait_recv_resp_list st') \<subseteq> S'" "list_all (\<lambda>i. \<not> late_check (wm_exp_to_ms p) i) is1"
    and d: "r = None \<and> rbuf' = rbuf \<or> (\<exists>j buf. k = Response_in j buf \<and> resp_matches j (pldm_hdr_of buf) p
           \<and> (rbuf', r) = (fst (read_data bl rbuf buf), Some (snd (read_data bl rbuf buf))))"
    using assms(1) unfolding wait_ends_def by blast
  have "i # is = (i # is1) @ k # js" "list_all (\<lambda>i. \<not> late_check (wm_exp_to_ms p) i) (i # is1)"
    "set (ps_wait_recv_resp_list st') \<subseteq> S" using w assms(2,3) by auto
  then show ?thesis using w(1,3) d unfolding wait_ends_def by blast
qed

lemma wait_ends_timeout:
  "pldm_inv st' \<Longrightarrow> set (ps_wait_recv_resp_list st') \<subseteq> S \<Longrightarrow> wait_ends p bl rbuf S (i # is) (Some (st', rbuf, None, is))"
  unfolding wait_ends_def by (intro exI conjI disjI1) (auto intro: append_Nil [symmetric])

lemma wait_ends_data:
  "pldm_inv st' \<Longrightarrow> set (ps_wait_recv_resp_list st') \<subseteq> S \<Longrightarrow> resp_matches j (pldm_hdr_of buf) p \<Longrightarrow>
    wait_ends p bl rbuf S (Response_in j buf # is)
      (Some (st', fst (read_data bl rbuf buf), Some (snd (read_data bl rbuf buf)), is))"
  unfolding wait_ends_def by (intro exI conjI disjI2) (auto intro: append_Nil [symmetric])

lemma msgq_wait_ends:
  assumes "pldm_inv st" and "ps_wait_recv_resp_list st = us @ p # vs"
    and "\<forall>q \<in> set (us @ vs). of_others ra mq (wm_msg q)" and "of_reader ra mq (wm_msg p)"
    and "list_all carries_data is" and "\<exists>i \<in> set is. late_check (wm_exp_to_ms p) i"
  shows "wait_ends p bl rbuf (set (us @ vs)) is (msgq_wait ra mq bl rbuf is st)"
  using assms
proof (induction "is" arbitrary: st us vs)
  case (Cons i "is")
  show ?case
  proof (cases i)
    case (Check_in t)
    obtain st' evs where s: "pldm_input_step (Check_in t) st = Some (st', evs)" "pldm_inv st'"
      "ps_wait_recv_resp_list st' = filter (\<lambda>q. t < wm_exp_to_ms q) (us @ p # vs)"
      "read_event ra mq bl rbuf evs = (if wm_exp_to_ms p \<le> t then Some (rbuf, None) else None)"
      by (rule input_step_check [OF Cons.prems(1-4), of t bl rbuf])
    show ?thesis
    proof (cases "wm_exp_to_ms p \<le> t")
      case True
      then have "set (ps_wait_recv_resp_list st') \<subseteq> set (us @ vs)" using s(3) by auto
      from wait_ends_timeout [OF s(2) this] show ?thesis using s True Check_in by simp
    next
      case False
      let ?f = "filter (\<lambda>q. t < wm_exp_to_ms q)"
      have w: "ps_wait_recv_resp_list st' = ?f us @ p # ?f vs" using s(3) False by simp
      have o: "\<forall>q \<in> set (?f us @ ?f vs). of_others ra mq (wm_msg q)" using Cons.prems(3) by auto
      have "list_all carries_data is" "\<exists>i \<in> set is. late_check (wm_exp_to_ms p) i"
        using Cons.prems(5,6) False Check_in by auto
      from Cons.IH [OF s(2) w o Cons.prems(4) this]
      have "wait_ends p bl rbuf (set (us @ vs)) (i # is) (msgq_wait ra mq bl rbuf is st')"
        by (rule wait_ends_later) (use False Check_in in auto)
      then show ?thesis using s False Check_in by simp
    qed
  next
    case (Response_in j buf)
    then have c: "carries_data (Response_in j buf)" using Cons.prems(5) by simp
    show ?thesis
    proof (rule input_step_response [OF Cons.prems(1,2) c Cons.prems(3,4), of bl rbuf])
      fix st' evs
      assume s: "resp_matches j (pldm_hdr_of buf) p" "pldm_input_step (Response_in j buf) st = Some (st', evs)" "pldm_inv st'"
        "ps_wait_recv_resp_list st' = us @ vs"
        "read_event ra mq bl rbuf evs = Some (fst (read_data bl rbuf buf), Some (snd (read_data bl rbuf buf)))"
      from wait_ends_data [OF s(3) _ s(1)] show ?thesis using Response_in s by simp
    next
      fix st' evs us' vs'
      assume s: "pldm_input_step (Response_in j buf) st = Some (st', evs)" "pldm_inv st'"
        "ps_wait_recv_resp_list st' = us' @ p # vs'" "set us' \<subseteq> set us" "set vs' \<subseteq> set vs" "read_event ra mq bl rbuf evs = None"
      have o: "\<forall>q \<in> set (us' @ vs'). of_others ra mq (wm_msg q)" using Cons.prems(3) s(4,5) by auto
      have "list_all carries_data is" "\<exists>i \<in> set is. late_check (wm_exp_to_ms p) i"
        using Cons.prems(5,6) Response_in by auto
      from Cons.IH [OF s(2,3) o Cons.prems(4) this]
      have "wait_ends p bl rbuf (set (us @ vs)) (i # is) (msgq_wait ra mq bl rbuf is st')"
        by (rule wait_ends_later) (use s(4,5) Response_in in auto)
      then show ?thesis using s Response_in by simp
    qed
  qed
qed simp

lemma sent_msg_of_reader [simp]: "of_reader ra mq (sent_msg i msg) = of_reader ra mq msg"
  by (simp add: of_reader_def sent_msg_def)

lemma late_check_mono: "late_check T i \<Longrightarrow> e \<le> T \<Longrightarrow> late_check e i"
  by (cases i) auto

lemma filter_late_none: "list_all (\<lambda>i. \<not> late_check e i) xs \<Longrightarrow> e \<le> T \<Longrightarrow> filter (late_check T) xs = []"
  by (auto simp: list_all_iff filter_empty_conv dest: late_check_mono)

lemma pldm_read_loop_returns:
  assumes "pldm_inv st" and "\<forall>q \<in> set (ps_wait_recv_resp_list st). of_others ra mq (wm_msg q)"
    and "\<forall>k n. fst (env k) = Some n \<longrightarrow> n \<notin> wm_node ` set (ps_wait_recv_resp_list st)"
    and "ph_rq (pm_hdr msg)" and "of_reader ra mq msg" and "pm_timeout_ms msg \<noteq> 0"
    and "\<forall>k. snd (env k) + uint (pm_timeout_ms msg) \<le> T"
    and "list_all carries_data inps" and "n \<le> length (filter (late_check T) inps)"
  shows "\<exists>st' w' rbuf' len. pldm_read_loop env send inst ra mq bl n k msg inps st w rbuf = Some (st', w', rbuf', len)
    \<and> pldm_inv st' \<and> set (ps_wait_recv_resp_list st') \<subseteq> set (ps_wait_recv_resp_list st)
    \<and> read_answer inst msg inps bl rbuf (rbuf', len)"
  using assms
proof (induction n arbitrary: k msg inps st w)
  case 0
  then show ?case by (simp add: read_answer_def)
next
  case (Suc n)
  have node: "fst (env k) = None \<or> the (fst (env k)) \<notin> wm_node ` set (ps_wait_recv_resp_list st)"
    using Suc.prems(3) by (cases "fst (env k)") auto
  show ?case
  proof (rule send_request_outcome [OF Suc.prems(1,4) node, of "snd (env k)" send inst w])
    fix cur m w'
    let ?st = "st\<lparr>ps_cur_inst_num := cur\<rparr>"
    assume s: "mctp_pldm_send_msg (fst (env k)) (snd (env k)) send inst msg st w = Some (?st, m, w', PLDM_ERROR)"
      "pldm_inv ?st" "m = msg \<or> (\<exists>i. m = sent_msg i msg)"
    have m: "ph_rq (pm_hdr m)" "of_reader ra mq m" "pm_timeout_ms m = pm_timeout_ms msg"
      "ph_pldm_type (pm_hdr m) = ph_pldm_type (pm_hdr msg)" "ph_cmd (pm_hdr m) = ph_cmd (pm_hdr msg)"
      using s(3) Suc.prems(4,5) by auto
    have "read_answer inst m inps bl rbuf res = read_answer inst msg inps bl rbuf res" for res
      by (simp add: read_answer_def m)
    then show ?thesis
      using Suc.IH [OF s(2) _ _ m(1,2), where k = "k + 1" and inps = inps and w = w'] Suc.prems s(1) m(3)
      by (simp add: pldm_consts)
  next
    fix nd i st' w'
    let ?m = "sent_msg i msg"
    let ?p = "new_wait nd inst (snd (env k)) ?m"
    assume s: "mctp_pldm_send_msg (fst (env k)) (snd (env k)) send inst msg st w = Some (st', ?m, w', PLDM_SUCCESS)"
      "ps_wait_recv_resp_list st' = ps_wait_recv_resp_list st @ [?p]" "pldm_inv st'"
    have e: "wm_exp_to_ms ?p = snd (env k) + uint (pm_timeout_ms msg)" using Suc.prems(6) by simp
    then have eT: "wm_exp_to_ms ?p \<le> T" using Suc.prems(7) by simp
    have late: "\<exists>i \<in> set inps. late_check (wm_exp_to_ms ?p) i"
    proof -
      have "filter (late_check T) inps \<noteq> []" using Suc.prems(9) by auto
      then show ?thesis using late_check_mono [OF _ eT] unfolding filter_empty_conv by blast
    qed
    have "wait_ends ?p bl rbuf (set (ps_wait_recv_resp_list st)) inps (msgq_wait ra mq bl rbuf inps st')"
      using msgq_wait_ends [OF s(3), of "ps_wait_recv_resp_list st" ?p "[]" ra mq inps bl rbuf] s(2) late Suc.prems(2,5,8) by simp
    then obtain st2 rbuf2 r is1 j js where w: "msgq_wait ra mq bl rbuf inps st' = Some (st2, rbuf2, r, js)" "inps = is1 @ j # js"
        "pldm_inv st2" "set (ps_wait_recv_resp_list st2) \<subseteq> set (ps_wait_recv_resp_list st)"
        "list_all (\<lambda>i. \<not> late_check (wm_exp_to_ms ?p) i) is1"
      and d: "r = None \<and> rbuf2 = rbuf \<or> (\<exists>jn buf. j = Response_in jn buf \<and> resp_matches jn (pldm_hdr_of buf) ?p
           \<and> (rbuf2, r) = (fst (read_data bl rbuf buf), Some (snd (read_data bl rbuf buf))))"
      unfolding wait_ends_def by blast
    from d show ?thesis
    proof
      assume r: "r = None \<and> rbuf2 = rbuf"
      have "n \<le> length (filter (late_check T) js)"
        using Suc.prems(9) filter_late_none [OF w(5) eT] unfolding w(2) by (auto split: if_splits)
      moreover have "list_all carries_data js" using Suc.prems(8) w(2) by simp
      moreover have "\<forall>q \<in> set (ps_wait_recv_resp_list st2). of_others ra mq (wm_msg q)"
        "\<forall>k n. fst (env k) = Some n \<longrightarrow> n \<notin> wm_node ` set (ps_wait_recv_resp_list st2)"
        using Suc.prems(2,3) w(4) by blast+
      moreover have "ph_rq (pm_hdr ?m)" "of_reader ra mq ?m" "pm_timeout_ms ?m \<noteq> 0"
        "\<forall>k. snd (env k) + uint (pm_timeout_ms ?m) \<le> T"
        using Suc.prems(4-7) by simp_all
      ultimately obtain st3 w3 rbuf3 len where ih:
          "pldm_read_loop env send inst ra mq bl n (k + 1) ?m js st2 w' rbuf = Some (st3, w3, rbuf3, len)" "pldm_inv st3"
          "set (ps_wait_recv_resp_list st3) \<subseteq> set (ps_wait_recv_resp_list st2)" "read_answer inst ?m js bl rbuf (rbuf3, len)"
        using Suc.IH [OF w(3), of ?m js "k + 1" w'] by blast
      have "read_answer inst msg inps bl rbuf (rbuf3, len)"
        using ih(4) unfolding read_answer_def w(2) by auto
      then show ?thesis using ih s(1) w(1,4) r by (simp add: pldm_consts)
    next
      assume "\<exists>jn buf. j = Response_in jn buf \<and> resp_matches jn (pldm_hdr_of buf) ?p
           \<and> (rbuf2, r) = (fst (read_data bl rbuf buf), Some (snd (read_data bl rbuf buf)))"
      then obtain jn buf where b: "j = Response_in jn buf" "resp_matches jn (pldm_hdr_of buf) ?p"
        "rbuf2 = fst (read_data bl rbuf buf)" "r = Some (snd (read_data bl rbuf buf))" by auto
      have "read_answer inst msg inps bl rbuf (rbuf2, snd (read_data bl rbuf buf))"
        unfolding read_answer_def w(2) using b by (intro disjI2 exI [of _ buf]) (auto simp: resp_matches_def Let_def)
      then show ?thesis using s(1) w b(4) by (simp add: pldm_consts)
    qed
  qed
qed

text \<open>No input ends a wait when no request is in the list.\<close>

lemma msgq_wait_empty:
  assumes "pldm_inv st" and "ps_wait_recv_resp_list st = []"
  shows "msgq_wait ra mq bl rbuf inps st = None"
  using assms
proof (induction inps arbitrary: st)
  case (Cons i inps)
  have "\<exists>st'. pldm_input_step i st = Some (st', []) \<and> ps_wait_recv_resp_list st' = [] \<and> pldm_inv st' \<or> pldm_input_step i st = None"
  proof (cases i)
    case (Response_in j buf)
    then show ?thesis using Cons.prems
      by (auto simp: pldm_input_step_def pldm_resp_msg_process_def)
  next
    case (Check_in t)
    then show ?thesis using timeout_check_eq [OF Cons.prems(1), of t] Cons.prems(2) by (auto simp: pldm_input_step_def)
  qed
  then show ?case using Cons.IH by auto
qed simp

text \<open>
  (C15) The blocking read returns: with a system that keeps checking for time-outs (at least as many
  checks after the last deadline as there are attempts) and sends no empty responses, it ends
  after at most three attempts, with the length 0 and the buffer untouched, or with the data, cut to
  the buffer, of a response with the type and the command of the request. The list of
  waiting requests holds no request of the reader afterwards.
\<close>

theorem pldm_read_returns:
  assumes "pldm_reach send' st" and "\<forall>q \<in> set (ps_wait_recv_resp_list st). of_others ra mq (wm_msg q)"
    and "\<forall>k n. fst (env k) = Some n \<longrightarrow> n \<notin> wm_node ` set (ps_wait_recv_resp_list st)"
    and "ph_rq (pm_hdr msg)" and "\<forall>k. snd (env k) + 30000 \<le> T"
    and "list_all carries_data inps" and "3 \<le> length (filter (late_check T) inps)"
  shows "\<exists>st' w' rbuf' len. mctp_pldm_read (Some (ra, mq)) env send inst msg inps st w rbuf rbuf_len = Some (st', w', rbuf', len)
    \<and> set (ps_wait_recv_resp_list st') \<subseteq> set (ps_wait_recv_resp_list st)
    \<and> read_answer inst msg inps rbuf_len rbuf (rbuf', len)"
proof (cases "rbuf_len = 0")
  case True
  then show ?thesis by (simp add: mctp_pldm_read_def read_answer_def)
next
  case False
  let ?m = "read_msg ra mq msg"
  have lim: "read_limits h = (30000, 3)" for h by (simp add: read_limits_def pldm_consts)
  have m: "ph_rq (pm_hdr ?m)" "of_reader ra mq ?m" "pm_timeout_ms ?m = 30000"
    "ph_pldm_type (pm_hdr ?m) = ph_pldm_type (pm_hdr msg)" "ph_cmd (pm_hdr ?m) = ph_cmd (pm_hdr msg)"
    using assms(4) by (simp_all add: read_msg_def of_reader_def lim)
  have "read_answer inst ?m inps rbuf_len rbuf res = read_answer inst msg inps rbuf_len rbuf res" for res
    by (simp add: read_answer_def m)
  then show ?thesis
    using pldm_read_loop_returns [OF pldm_reach_pldm_inv [OF assms(1)] assms(2,3) m(1,2) _ _ assms(6,7),
        of send inst rbuf_len 0 w rbuf] assms(5) False
    by (auto simp: mctp_pldm_read_def lim m(3))
qed

theorem pldm_read_returns_witness:
  "\<exists>st' w' rbuf' len. mctp_pldm_read (Some (1, 2)) (\<lambda>k. (Some 7, 0)) good_send 0 demo_pldm_msg
      [Check_in 40000, Response_in 0 [1, 1, 2, 0x11, 0, 42], Check_in 50000, Check_in 60000] pldm_init [] [9, 9, 9] 3
      = Some (st', w', rbuf', len)
    \<and> read_answer 0 demo_pldm_msg
      [Check_in 40000, Response_in 0 [1, 1, 2, 0x11, 0, 42], Check_in 50000, Check_in 60000] 3 [9, 9, 9] (rbuf', len)"
proof -
  have "ph_rq (pm_hdr demo_pldm_msg)" by (simp add: demo_pldm_msg_def)
  from pldm_read_returns [OF pldm_reach.init _ _ this, where env = "\<lambda>k. (Some 7, 0)" and T = 30000 and ra = 1 and mq = 2 and send = good_send and inst = 0 and w = "[]"
      and rbuf = "[9, 9, 9]" and rbuf_len = 3
      and inps = "[Check_in 40000, Response_in 0 [1, 1, 2, 0x11, 0, 42], Check_in 50000, Check_in 60000]"]
  show ?thesis by (auto simp: pldm_init_def)
qed

text \<open>
  A response without data, only the four bytes of the header, ends the request but wakes no
  reader: after it the read does not return, whatever inputs follow, time-out checks included.
\<close>

theorem pldm_read_header_only_hangs:
  assumes "ph_rq (pm_hdr msg)" and "\<And>bs ext. snd (send w bs ext) \<noteq> MCTP_ERROR"
    and "ph_inst_id h = 0" and "ph_pldm_type h = ph_pldm_type (pm_hdr msg)" and "ph_cmd h = ph_cmd (pm_hdr msg)"
    and "rbuf_len \<noteq> 0"
  shows "mctp_pldm_read (Some (ra, mq)) (\<lambda>k. (Some n, now)) send inst msg
    (Response_in inst (pldm_hdr_bytes h) # inps) pldm_init w rbuf rbuf_len = None"
proof -
  let ?m = "read_msg ra mq msg" and ?buf = "pldm_hdr_bytes h"
  let ?st = "one_waiting n inst now ?m" and ?p = "new_wait n inst now (sent_msg 0 ?m)"
  have rq: "ph_rq (pm_hdr ?m)" and hd: "ph_pldm_type (pm_hdr ?m) = ph_pldm_type (pm_hdr msg)" "ph_cmd (pm_hdr ?m) = ph_cmd (pm_hdr msg)"
    using assms(1) by (simp_all add: read_msg_def)
  have s: "mctp_pldm_send_msg (Some n) now send inst ?m pldm_init w
      = Some (?st, sent_msg 0 ?m, fst (send w (send_bytes (sent_msg 0 ?m)) (pm_ext_params (sent_msg 0 ?m))), PLDM_SUCCESS)"
    by (rule send_from_init [OF rq surjective_pairing]) (rule assms(2))
  have L: "ps_wait_recv_resp_list ?st = [] @ ?p # []" by (simp add: one_waiting_def)
  have len: "4 \<le> length ?buf" by simp
  have h: "pldm_hdr_of ?buf = h" using pldm_hdr_of_bytes [of h "[]"] by simp
  have mt: "resp_matches inst (pldm_hdr_of ?buf) ?p"
    using assms(3-5) hd by (simp add: resp_matches_def h) (simp add: sent_msg_def)
  obtain st2 where r: "pldm_resp_msg_process inst ?buf ?st = Some (st2, [Recv_resp_cb READ_RESP_FN ra []], PLDM_SUCCESS)"
    and L2: "ps_wait_recv_resp_list st2 = []"
    unfolding resp_process_cases [OF one_waiting_inv len] L remove_matching [OF one_waiting_inv L mt]
    using pldm_inv_remove(3) [OF one_waiting_inv L] by (simp add: sent_msg_def read_msg_def)
  have inv2: "pldm_inv st2" by (rule resp_process_inv [OF one_waiting_inv len r])
  have "msgq_wait ra mq rbuf_len rbuf (Response_in inst ?buf # inps) ?st = None"
    using r msgq_wait_empty [OF inv2 L2] by (simp add: pldm_input_step_def pldm_read_resp_handler_def)
  then show ?thesis using s assms(6)
    by (simp add: mctp_pldm_read_def read_limits_def pldm_consts numeral_3_eq_3)
qed

theorem pldm_read_header_only_hangs_witness:
  "mctp_pldm_read (Some (1, 2)) (\<lambda>k. (Some 5, 0)) good_send 0 demo_pldm_msg
    (Response_in 0 (pldm_hdr_bytes ((pm_hdr demo_pldm_msg)\<lparr>ph_rq := False\<rparr>)) # map Check_in [30000, 60000, 90000]) pldm_init [] [9] 1 = None"
  by (rule pldm_read_header_only_hangs) (simp_all add: demo_pldm_msg_def good_send_def mctp_consts)

end
