(* ===== verification/Ipmb.thy ===== *)
theory Ipmb
  imports Libutil
begin

text \<open>
  IPMB, \<^verbatim>\<open>src/common/service/ipmb/ipmb.c\<close> and \<^verbatim>\<open>ipmb.h\<close>: the frame format with its two checksums, the sequence
  numbers, the list of requests that wait for a response, the clean-up of old requests, the queues, one
  iteration of the transmit and of the receive thread of a channel, and the initialisation.

  The circular list behind \<^verbatim>\<open>P_start[index]\<close> is the list of its nodes in order; \<open>ch_circular\<close> is false once its
  last node points to \<^verbatim>\<open>NULL\<close>, which is what a failed allocation leaves behind. The static arrays indexed by
  channel form one \<open>ipmb_chan\<close> per index. \<open>None\<close> is an access through \<^verbatim>\<open>NULL\<close> or behind one of these
  arrays. Calls that leave the file (KCS, PLDM, the IPMI task) are events; the outcomes of locks and
  allocations, memory that is not initialised, the build options and the platform hooks are
  fields of an environment. A message holds at least \<open>data_len\<close> bytes of data.
\<close>

section \<open>Definitions\<close>

definition SEQ_NUM :: nat where "SEQ_NUM = 64"
definition MAX_SEQ_QUENE :: u32 where "MAX_SEQ_QUENE = 15"
definition IPMB_REQ_HEADER_LENGTH :: u16 where "IPMB_REQ_HEADER_LENGTH = 6"
definition IPMB_RESP_HEADER_LENGTH :: u16 where "IPMB_RESP_HEADER_LENGTH = 7"
definition IPMI_MSG_MAX_LENGTH :: nat where "IPMI_MSG_MAX_LENGTH = 527"
definition IPMB_TX_RETRY_TIME :: u8 where "IPMB_TX_RETRY_TIME = 5"
definition IPMB_TXQUEUE_LEN :: nat where "IPMB_TXQUEUE_LEN = 1"
definition IPMB_RXQUEUE_LEN :: nat where "IPMB_RXQUEUE_LEN = 2"
definition IPMB_SEQ_TIMEOUT_MS :: u32 where "IPMB_SEQ_TIMEOUT_MS = 3000"
definition RESERVED_IDX :: u8 where "RESERVED_IDX = 0xFF"
definition SELF :: u8 where "SELF = 0"
definition ME_IPMB :: u8 where "ME_IPMB = 1"
definition BMC_IPMB :: u8 where "BMC_IPMB = 2"
definition PLDM :: u8 where "PLDM = 0x40"
definition MCTP :: u8 where "MCTP = 0x41"
definition MPRO_PLDM :: u8 where "MPRO_PLDM = 0x42"
definition HOST_KCS_1 :: u8 where "HOST_KCS_1 = 0x50"
definition RESERVED :: u8 where "RESERVED = 0x71"
definition I2C_IF :: u8 where "I2C_IF = 0"
definition NETFN_OEM_1S_REQ :: u8 where "NETFN_OEM_1S_REQ = 0x38"
definition CMD_OEM_1S_MSG_OUT :: u8 where "CMD_OEM_1S_MSG_OUT = 2"
definition CC_SUCCESS :: u8 where "CC_SUCCESS = 0"
definition CC_NODE_BUSY :: u8 where "CC_NODE_BUSY = 0xC0"
definition CC_TIMEOUT :: u8 where "CC_TIMEOUT = 0xC3"
definition CC_CAN_NOT_RESPOND :: u8 where "CC_CAN_NOT_RESPOND = 0xCE"
definition IANA_ID :: u32 where "IANA_ID = 0x00A015"

lemmas ipmb_consts =
  SEQ_NUM_def MAX_SEQ_QUENE_def IPMB_REQ_HEADER_LENGTH_def IPMB_RESP_HEADER_LENGTH_def
  IPMI_MSG_MAX_LENGTH_def IPMB_TX_RETRY_TIME_def IPMB_TXQUEUE_LEN_def IPMB_RXQUEUE_LEN_def
  IPMB_SEQ_TIMEOUT_MS_def RESERVED_IDX_def SELF_def ME_IPMB_def BMC_IPMB_def PLDM_def MCTP_def
  MPRO_PLDM_def HOST_KCS_1_def RESERVED_def I2C_IF_def NETFN_OEM_1S_REQ_def CMD_OEM_1S_MSG_OUT_def
  CC_SUCCESS_def CC_NODE_BUSY_def CC_TIMEOUT_def CC_CAN_NOT_RESPOND_def IANA_ID_def

subsection \<open>Data\<close>

datatype ipmb_error =
    IPMB_ERROR_SUCCESS | IPMB_ERROR_UNKNOWN | IPMB_ERROR_FAILURE | IPMB_ERROR_TIMEOUT
  | IPMB_ERROR_INVALID_REQ | IPMB_ERROR_HDR_CHECKSUM | IPMB_ERROR_MSG_CHECKSUM
  | IPMB_ERROR_QUEUE_CREATION | IPMB_ERROR_GET_MESSAGE_QUEUE | IPMB_ERROR_MUTEX_LOCK

record IPMB_config =
  ic_index :: u8
  ic_interface :: u8
  ic_channel :: u8
  ic_bus :: u8
  ic_channel_target_address :: u8
  ic_enable_status :: bool
  ic_self_address :: u8

record ipmi_msg_cfg =
  mc_buffer :: ipmi_msg
  mc_retries :: u8

record ipmb_chan =
  ch_reqs :: "ipmi_msg list"
  ch_circular :: bool
  ch_seq_current_count :: u32
  ch_current_seq :: u8
  ch_seq_table :: "nat \<Rightarrow> bool"
  ch_txqueue :: "ipmi_msg_cfg list"
  ch_rxqueue :: "ipmi_msg list"
  ch_queue_init :: bool
  ch_tx_disable :: bool

record ipmb_state =
  is_config_table :: "IPMB_config list"
  is_inf_index_map :: bytes
  is_chan :: "nat \<Rightarrow> ipmb_chan"
  is_tick_fix :: u32
  is_sys_tick_freq :: u32
  is_mutex_init :: bool

datatype ipmb_event =
    Kcs_write u8 bytes
  | Pldm_ipmi_response u8 ipmi_msg
  | Pldm_ipmb_rsp ipmi_msg
  | Notify_ipmi_client ipmi_msg_cfg

record ipmb_env =
  ev_lock_id :: bool
  ev_lock_req :: bool
  ev_lock_res :: bool
  ev_lock_read :: bool
  ev_malloc_node :: bool
  ev_malloc_i2c :: bool
  ev_malloc_kcs :: bool
  ev_malloc_bridge :: bool
  ev_now :: u32
  ev_i2c_msg :: I2C_MSG
  ev_buffer :: bytes
  ev_msg :: ipmi_msg
  ev_retries :: u8
  ev_kcs_enabled :: bool
  ev_mpro_enabled :: bool
  ev_netfn_shift :: bool
  ev_immediate_respond :: "u8 \<Rightarrow> u8 \<Rightarrow> bool"
  ev_request_to_BIC_from_ME :: "u8 \<Rightarrow> u8 \<Rightarrow> bool"
  ev_use_ipmb :: "u8 \<Rightarrow> bool"
  ev_pldm_send_ipmi_request :: "ipmi_msg \<Rightarrow> ipmi_msg"

definition IS_RESPONSE :: "ipmi_msg \<Rightarrow> bool" where
  "IS_RESPONSE m = (im_netfn m AND 1 \<noteq> 0)"

definition upd_chan :: "nat \<Rightarrow> (ipmb_chan \<Rightarrow> ipmb_chan) \<Rightarrow> ipmb_state \<Rightarrow> ipmb_state" where
  "upd_chan i f st = st\<lparr>is_chan := (is_chan st)(i := f (is_chan st i))\<rparr>"

text \<open>A put without waiting: the message is lost when the queue is full.\<close>

definition msgq_put :: "nat \<Rightarrow> 'a \<Rightarrow> 'a list \<Rightarrow> 'a list" where
  "msgq_put cap x q = (if length q < cap then q @ [x] else q)"

subsection \<open>Frames\<close>

definition calculate_checksum :: "bytes \<Rightarrow> u8 \<Rightarrow> u8" where
  "calculate_checksum buffer rng =
     fold (\<lambda>b c. c - b) (slice 1 (unat rng - 1) buffer) (0 - push_bit 1 (nth0 buffer 0))"

definition validate_checksum :: "bytes \<Rightarrow> u8 \<Rightarrow> ipmb_error" where
  "validate_checksum buffer buffer_len =
     (if nth0 buffer 2 = calculate_checksum buffer 2 then
        (if nth0 buffer (unat buffer_len - 1) = calculate_checksum buffer (buffer_len - 1)
         then IPMB_ERROR_SUCCESS else IPMB_ERROR_HDR_CHECKSUM)
      else IPMB_ERROR_MSG_CHECKSUM)"

text \<open>The position of the message checksum is kept in 8 bits.\<close>

definition encode_header :: "ipmi_msg \<Rightarrow> bytes" where
  "encode_header m =
     (let h = [im_dest_addr m, (push_bit 2 (im_netfn m) AND 0xFC) OR (im_dest_LUN m AND 3)] in
      h @ [calculate_checksum h 2, im_src_addr m,
           (push_bit 2 (im_seq m) AND 0xFC) OR (im_src_LUN m AND 3), im_cmd m]
        @ (if IS_RESPONSE m then [im_completion_code m] else []))"

definition ipmb_encode :: "bytes \<Rightarrow> ipmi_msg \<Rightarrow> bytes" where
  "ipmb_encode buffer m =
     (let h = encode_header m;
          buffer = memcpy_at 0 (h @ take (unat (im_data_len m)) (im_data m)) buffer;
          i = of_nat (length h) + ucast (im_data_len m) :: u8
      in buffer[unat i := calculate_checksum buffer i])"

definition ipmb_decode :: "ipmi_msg \<Rightarrow> bytes \<Rightarrow> u8 \<Rightarrow> ipmi_msg" where
  "ipmb_decode m buffer len =
     (let m = m\<lparr>im_dest_addr := nth0 buffer 0, im_netfn := drop_bit 2 (nth0 buffer 1),
                im_dest_LUN := nth0 buffer 1 AND 3, im_hdr_chksum := nth0 buffer 2,
                im_src_addr := nth0 buffer 3, im_seq := drop_bit 2 (nth0 buffer 4),
                im_src_LUN := nth0 buffer 4 AND 3, im_cmd := nth0 buffer 5\<rparr>;
          m = (if IS_RESPONSE m then m\<lparr>im_completion_code := nth0 buffer 6\<rparr> else m);
          i = (if IS_RESPONSE m then 7 else 6);
          n = (if i + 1 < unat len then unat len - i - 1 else 0)
      in m\<lparr>im_data_len := of_nat n, im_data := memcpy_at 0 (slice i n buffer) (im_data m),
           im_msg_chksum := nth0 buffer (unat len - 1)\<rparr>)"

subsection \<open>Sequence numbers\<close>

definition unregister_seq :: "u8 \<Rightarrow> ipmb_chan \<Rightarrow> ipmb_chan" where
  "unregister_seq seq_num ch = ch\<lparr>ch_seq_table := (ch_seq_table ch)(unat seq_num := False)\<rparr>"

definition register_seq :: "u8 \<Rightarrow> ipmb_chan \<Rightarrow> ipmb_chan" where
  "register_seq seq_num ch = ch\<lparr>ch_seq_table := (ch_seq_table ch)(unat seq_num := True)\<rparr>"

text \<open>The loop ends at a free number, or after \<^verbatim>\<open>SEQ_NUM\<close> numbers at the last one tried.\<close>

fun free_seq_loop :: "(nat \<Rightarrow> bool) \<Rightarrow> nat \<Rightarrow> u8 \<Rightarrow> u8" where
  "free_seq_loop table 0 cur = cur"
| "free_seq_loop table (Suc n) cur =
     (let cur = (cur + 1) AND 0x3f in if \<not> table (unat cur) then cur else free_seq_loop table n cur)"

definition get_free_seq :: "ipmb_chan \<Rightarrow> ipmb_chan \<times> u8" where
  "get_free_seq ch =
     (let s = free_seq_loop (ch_seq_table ch) SEQ_NUM (ch_current_seq ch) in (ch\<lparr>ch_current_seq := s\<rparr>, s))"

subsection \<open>Waiting requests\<close>

text \<open>
  The number of nodes is also counted in \<open>ch_seq_current_count\<close>. With as many nodes as the list may
  hold the first one is dropped; its sequence number stays registered. The count is the number of nodes
  (\<open>chan_inv\<close> below), so the list is not empty then.
\<close>

definition drop_oldest :: "ipmb_chan \<Rightarrow> ipmb_chan" where
  "drop_oldest ch =
     (if ch_seq_current_count ch = MAX_SEQ_QUENE
      then (case ch_reqs ch of
              [] \<Rightarrow> ch
            | _ # reqs \<Rightarrow> ch\<lparr>ch_reqs := reqs, ch_seq_current_count := ch_seq_current_count ch - 1\<rparr>)
      else ch)"

definition insert_req_ipmi_msg :: "ipmb_env \<Rightarrow> ipmi_msg \<Rightarrow> ipmb_chan \<Rightarrow> ipmb_chan \<times> ipmi_msg" where
  "insert_req_ipmi_msg env m ch =
     (if \<not> ev_lock_id env then (ch, m)
      else let ch = drop_oldest ch in
        if \<not> ch_circular ch then (ch, m)
        else if \<not> ev_malloc_node env then (ch\<lparr>ch_circular := False\<rparr>, m)
        else let m = m\<lparr>im_timestamp := ev_now env\<rparr> in
          (register_seq (im_seq_target m)
             (ch\<lparr>ch_reqs := ch_reqs ch @ [m], ch_seq_current_count := ch_seq_current_count ch + 1\<rparr>), m))"

fun remove_match :: "(ipmi_msg \<Rightarrow> bool) \<Rightarrow> ipmi_msg list \<Rightarrow> (ipmi_msg \<times> ipmi_msg list) option" where
  "remove_match P [] = None"
| "remove_match P (x # xs) =
     (if P x then Some (x, xs)
      else case remove_match P xs of None \<Rightarrow> None | Some (y, ys) \<Rightarrow> Some (y, x # ys))"

definition answers :: "ipmi_msg \<Rightarrow> ipmi_msg \<Rightarrow> bool" where
  "answers m r = (im_netfn r = im_netfn m AND 0xFE \<and> im_cmd r = im_cmd m \<and> im_seq_target r = im_seq_target m)"

definition find_req_ipmi_msg ::
  "ipmb_env \<Rightarrow> ipmi_msg \<Rightarrow> ipmb_chan \<Rightarrow> (ipmb_chan \<times> ipmi_msg \<times> bool) option" where
  "find_req_ipmi_msg env m ch =
     (if \<not> ev_lock_id env then Some (ch, m, False)
      else case remove_match (answers m) (ch_reqs ch) of
        None \<Rightarrow> if ch_circular ch then Some (ch, m, False) else None
      | Some (r, rest) \<Rightarrow>
          Some (unregister_seq (im_seq_target r)
                  (ch\<lparr>ch_reqs := rest, ch_seq_current_count := ch_seq_current_count ch - 1\<rparr>),
                m\<lparr>im_seq_source := im_seq_source r, im_pldm_inst_id := im_pldm_inst_id r,
                  im_InF_source := im_InF_source r, im_InF_target := im_InF_target r\<rparr>, True))"

definition clear_req_ipmi_msg :: "ipmb_env \<Rightarrow> ipmi_msg \<Rightarrow> ipmb_chan \<Rightarrow> ipmb_chan option" where
  "clear_req_ipmi_msg env m ch =
     (if \<not> ev_lock_id env then Some ch
      else case remove_match (\<lambda>r. im_netfn r = im_netfn m \<and> im_cmd r = im_cmd m \<and> im_seq r = im_seq m)
                  (ch_reqs ch) of
        None \<Rightarrow> if ch_circular ch then Some ch else None
      | Some (r, rest) \<Rightarrow>
          Some (unregister_seq (im_seq_target r)
                  (ch\<lparr>ch_reqs := rest, ch_seq_current_count := ch_seq_current_count ch - 1\<rparr>)))"

subsection \<open>Old requests\<close>

definition expired :: "ipmb_state \<Rightarrow> u32 \<Rightarrow> ipmi_msg \<Rightarrow> bool" where
  "expired st now r =
     (let age = now + is_tick_fix st - im_timestamp r in
      age > IPMB_SEQ_TIMEOUT_MS div 1000 * is_sys_tick_freq st \<or> age AND 0x80000000 \<noteq> 0)"

text \<open>
  The walk of the clean-up: \<open>pnode\<close> is the node before position \<open>k\<close>, \<open>P_start\<close> for \<open>k = 0\<close>. After a node
  is removed the walk steps over the node that took its place; behind the last node it steps to
  \<open>P_start\<close> and so begins again. The clock is read at every step.
\<close>

function timeout_walk ::
  "(nat \<Rightarrow> ipmi_msg \<Rightarrow> bool) \<Rightarrow> nat \<Rightarrow> nat \<Rightarrow> ipmb_chan \<Rightarrow> ipmb_chan" where
  "timeout_walk old t k ch =
     (if length (ch_reqs ch) \<le> k then ch
      else let r = ch_reqs ch ! k in
        if old t r then
          let reqs = take k (ch_reqs ch) @ drop (k + 1) (ch_reqs ch);
              ch = unregister_seq (im_seq_target r)
                     (ch\<lparr>ch_reqs := reqs, ch_seq_current_count := ch_seq_current_count ch - 1\<rparr>)
          in timeout_walk old (t + 1) (if k < length reqs then k + 1 else 0) ch
        else timeout_walk old (t + 1) (k + 1) ch)"
  by pat_completeness auto
termination
  by (relation "measures [\<lambda>(old, t, k, ch). length (ch_reqs ch), \<lambda>(old, t, k, ch). length (ch_reqs ch) - k]")
    (auto simp: unregister_seq_def Let_def min_def)

text \<open>One index of the clean-up thread. A list that is not circular ends in a read through \<^verbatim>\<open>NULL\<close>.\<close>

definition seq_timeout :: "ipmb_env \<Rightarrow> (nat \<Rightarrow> u32) \<Rightarrow> nat \<Rightarrow> ipmb_state \<Rightarrow> ipmb_state option" where
  "seq_timeout env clock i st =
     (if \<not> ic_enable_status (is_config_table st ! i) then Some st
      else if \<not> ev_lock_id env then Some st
      else if \<not> ch_circular (is_chan st i) then None
      else Some (upd_chan i (timeout_walk (\<lambda>t. expired st (clock t)) 0 0) st))"

definition IPMB_SeqTimeout_handler :: "ipmb_env \<Rightarrow> (nat \<Rightarrow> u32) \<Rightarrow> ipmb_state \<Rightarrow> ipmb_state option" where
  "IPMB_SeqTimeout_handler env clock st =
     fold (\<lambda>i r. case r of None \<Rightarrow> None | Some st \<Rightarrow> seq_timeout env clock i st)
       [0..<length (is_config_table st)] (Some st)"

subsection \<open>Queues\<close>

text \<open>
  A put that may wait fails when the queue is full; that the transmit thread makes room while the
  caller waits is a step of that thread before the call. \<open>junk\<close> is the local variable before it is filled.
\<close>

definition request_cfg :: "IPMB_config \<Rightarrow> u8 \<Rightarrow> ipmi_msg \<Rightarrow> ipmi_msg \<Rightarrow> ipmi_msg_cfg" where
  "request_cfg cfg s req junk =
     \<lparr>mc_buffer = junk\<lparr>im_data := memcpy_at 0 (take (unat (im_data_len req)) (im_data req)) (im_data junk),
        im_netfn := im_netfn req, im_cmd := im_cmd req, im_data_len := im_data_len req,
        im_InF_source := im_InF_source req, im_InF_target := im_InF_target req,
        im_completion_code := im_completion_code req,
        im_dest_addr := ic_channel_target_address cfg, im_dest_LUN := 0,
        im_src_addr := push_bit 1 (ic_self_address cfg), im_seq := s,
        im_seq_source := im_seq_source req, im_src_LUN := 0, im_pldm_inst_id := im_pldm_inst_id req\<rparr>,
      mc_retries = 0\<rparr>"

definition ipmb_send_request ::
  "ipmb_env \<Rightarrow> ipmi_msg \<Rightarrow> nat \<Rightarrow> ipmb_state \<Rightarrow> (ipmb_state \<times> ipmi_msg \<times> ipmb_error) option" where
  "ipmb_send_request env req i st =
     (if length (is_config_table st) \<le> i then None
      else if \<not> ch_queue_init (is_chan st i) \<or> \<not> is_mutex_init st then Some (st, req, IPMB_ERROR_UNKNOWN)
      else if \<not> ev_lock_req env then Some (st, req, IPMB_ERROR_MUTEX_LOCK)
      else (case get_free_seq (is_chan st i) of
        (ch, s) \<Rightarrow>
          let req' = req\<lparr>im_seq := s\<rparr>;
              c = request_cfg (is_config_table st ! i) s req (ev_msg env) in
          if length (ch_txqueue ch) < IPMB_TXQUEUE_LEN
          then Some (upd_chan i (\<lambda>_. ch\<lparr>ch_txqueue := ch_txqueue ch @ [c]\<rparr>) st, req', IPMB_ERROR_SUCCESS)
          else Some (upd_chan i (\<lambda>_. ch) st, req', IPMB_ERROR_FAILURE)))"

definition response_cfg :: "IPMB_config \<Rightarrow> ipmi_msg \<Rightarrow> ipmi_msg \<Rightarrow> ipmi_msg_cfg" where
  "response_cfg cfg resp junk =
     \<lparr>mc_buffer = junk\<lparr>im_data := memcpy_at 0 (take (unat (im_data_len resp)) (im_data resp)) (im_data junk),
        im_netfn := im_netfn resp + 1, im_cmd := im_cmd resp, im_data_len := im_data_len resp,
        im_InF_source := im_InF_source resp, im_InF_target := im_InF_target resp,
        im_completion_code := im_completion_code resp,
        im_dest_addr := ic_channel_target_address cfg, im_dest_LUN := im_src_LUN resp,
        im_src_addr := push_bit 1 (ic_self_address cfg), im_seq := im_seq resp,
        im_seq_source := im_seq resp, im_src_LUN := im_dest_LUN resp\<rparr>,
      mc_retries = 0\<rparr>"

definition ipmb_send_response ::
  "ipmb_env \<Rightarrow> ipmi_msg \<Rightarrow> nat \<Rightarrow> ipmb_state \<Rightarrow> (ipmb_state \<times> ipmb_error) option" where
  "ipmb_send_response env resp i st =
     (if length (is_config_table st) \<le> i then None
      else let ch = is_chan st i in
        if \<not> ch_queue_init ch \<or> \<not> is_mutex_init st then Some (st, IPMB_ERROR_UNKNOWN)
        else if \<not> ev_lock_res env then Some (st, IPMB_ERROR_MUTEX_LOCK)
        else if length (ch_txqueue ch) < IPMB_TXQUEUE_LEN
        then Some (upd_chan i (\<lambda>ch. ch\<lparr>ch_txqueue := ch_txqueue ch
                     @ [response_cfg (is_config_table st ! i) resp (ev_msg env)]\<rparr>) st, IPMB_ERROR_SUCCESS)
        else Some (st, IPMB_ERROR_FAILURE))"

text \<open>
  \<^verbatim>\<open>ipmb_read\<close> sends and then sleeps until the receive thread has put a response into the queue or
  three seconds have passed; these are two steps, before and after the sleep.
\<close>

definition ipmb_read_send ::
  "ipmb_env \<Rightarrow> ipmi_msg \<Rightarrow> nat \<Rightarrow> ipmb_state \<Rightarrow> (ipmb_state \<times> ipmi_msg \<times> ipmb_error) option" where
  "ipmb_read_send env m i st =
     (if length (is_config_table st) \<le> i then None
      else if \<not> ch_queue_init (is_chan st i) \<or> \<not> is_mutex_init st then Some (st, m, IPMB_ERROR_UNKNOWN)
      else if \<not> ev_lock_read env then Some (st, m, IPMB_ERROR_MUTEX_LOCK)
      else case ipmb_send_request env m i (upd_chan i (\<lambda>ch. ch\<lparr>ch_rxqueue := []\<rparr>) st) of
        None \<Rightarrow> None
      | Some (st, m, r) \<Rightarrow>
          Some (st, m, if r \<noteq> IPMB_ERROR_SUCCESS then IPMB_ERROR_FAILURE else IPMB_ERROR_SUCCESS))"

definition ipmb_read_recv ::
  "ipmb_env \<Rightarrow> ipmi_msg \<Rightarrow> nat \<Rightarrow> ipmb_state \<Rightarrow> (ipmb_state \<times> ipmi_msg \<times> ipmb_error) option" where
  "ipmb_read_recv env m i st =
     (case ch_rxqueue (is_chan st i) of
        r # q \<Rightarrow> Some (upd_chan i (\<lambda>ch. ch\<lparr>ch_rxqueue := q\<rparr>) st, r, IPMB_ERROR_SUCCESS)
      | [] \<Rightarrow>
          (case clear_req_ipmi_msg env m (is_chan st i) of
             None \<Rightarrow> None
           | Some ch \<Rightarrow> Some (upd_chan i (\<lambda>_. ch) st, m, IPMB_ERROR_GET_MESSAGE_QUEUE)))"

subsection \<open>The transmit thread\<close>

definition KCS_reply :: "ipmi_msg \<Rightarrow> ipmb_event" where
  "KCS_reply m = Kcs_write (im_InF_source m - HOST_KCS_1)
     ([push_bit 2 (im_netfn m), im_cmd m, im_completion_code m] @ take (unat (im_data_len m)) (im_data m))"

text \<open>The index map has one entry per channel below \<^verbatim>\<open>RESERVED\<close>.\<close>

definition send_response_to ::
  "ipmb_env \<Rightarrow> ipmi_msg \<Rightarrow> u8 \<Rightarrow> ipmb_state \<Rightarrow> ipmb_state option" where
  "send_response_to env m channel st =
     (if length (is_inf_index_map st) \<le> unat channel then None
      else map_option fst (ipmb_send_response env m (unat (is_inf_index_map st ! unat channel)) st))"

text \<open>The end of a request that could not be sent \<open>IPMB_TX_RETRY_TIME + 1\<close> times.\<close>

definition tx_give_up ::
  "ipmb_env \<Rightarrow> ipmi_msg \<Rightarrow> ipmb_state \<Rightarrow> (ipmb_state \<times> ipmb_event list) option" where
  "tx_give_up env m st =
     (if im_InF_source m = RESERVED \<or> im_InF_source m = SELF \<or> im_InF_source m = MPRO_PLDM
      then Some (st, [])
      else if im_InF_source m AND 0xF0 = HOST_KCS_1
      then Some (st, if ev_kcs_enabled env \<and> ev_malloc_kcs env
                     then [KCS_reply (m\<lparr>im_completion_code := CC_CAN_NOT_RESPOND\<rparr>)] else [])
      else let m = m\<lparr>im_data_len := 0, im_netfn := NETFN_OEM_1S_REQ, im_cmd := CMD_OEM_1S_MSG_OUT,
                     im_completion_code := CC_NODE_BUSY\<rparr> in
        if im_InF_source m = PLDM \<or> im_InF_source m = MCTP
        then Some (st, [Pldm_ipmi_response (im_InF_source m) m])
        else map_option (\<lambda>st. (st, [])) (send_response_to env m (im_InF_source m) st))"

definition tx_i2c_msg :: "ipmb_env \<Rightarrow> IPMB_config \<Rightarrow> u8 \<Rightarrow> bytes \<Rightarrow> I2C_MSG" where
  "tx_i2c_msg env cfg n buffer =
     (ev_i2c_msg env)\<lparr>i2c_bus := ic_bus cfg, i2c_target_addr := ic_channel_target_address cfg,
        i2c_tx_len := n, i2c_data := memcpy_at 0 (slice 1 (unat n) buffer) (i2c_data (ev_i2c_msg env))\<rparr>"

type_synonym 'w i2c_write_fn = "'w \<Rightarrow> I2C_MSG \<Rightarrow> 'w \<times> int"

definition requeue :: "nat \<Rightarrow> ipmi_msg_cfg \<Rightarrow> ipmb_state \<Rightarrow> ipmb_state" where
  "requeue i c st = upd_chan i (\<lambda>ch. ch\<lparr>ch_txqueue := msgq_put IPMB_TXQUEUE_LEN c (ch_txqueue ch)\<rparr>) st"

definition tx_response ::
  "ipmb_env \<Rightarrow> 'w i2c_write_fn \<Rightarrow> nat \<Rightarrow> ipmi_msg_cfg \<Rightarrow> ipmb_state \<Rightarrow> 'w
   \<Rightarrow> (ipmb_state \<times> 'w \<times> ipmb_event list) option" where
  "tx_response env i2c_write i c st w =
     (let cfg = is_config_table st ! i in
      if mc_retries c > IPMB_TX_RETRY_TIME then Some (st, w, [])
      else let m = (mc_buffer c)\<lparr>im_dest_addr := ic_channel_target_address cfg\<rparr>;
               c = c\<lparr>mc_buffer := m\<rparr>;
               buffer = ipmb_encode (ev_buffer env) m;
               n = ucast (im_data_len m + IPMB_RESP_HEADER_LENGTH) :: u8 in
        if ic_interface cfg \<noteq> I2C_IF \<or> \<not> ev_malloc_i2c env then Some (st, w, [])
        else (case i2c_write w (tx_i2c_msg env cfg n buffer) of
          (w, ret) \<Rightarrow>
            if (word_of_int ret :: u8) \<noteq> 0
            then Some (requeue i (c\<lparr>mc_retries := mc_retries c + 1\<rparr>) st, w, [])
            else Some (st, w, [])))"

text \<open>A request that the bus has refused: it leaves the list again and is sent later or given up.\<close>

definition tx_failed ::
  "ipmb_env \<Rightarrow> nat \<Rightarrow> ipmi_msg_cfg \<Rightarrow> ipmi_msg \<Rightarrow> ipmb_chan \<Rightarrow> ipmb_state \<Rightarrow> (ipmb_state \<times> ipmb_event list) option" where
  "tx_failed env i c m ch st =
     (case find_req_ipmi_msg env m ch of
        None \<Rightarrow> None
      | Some (ch, m, _) \<Rightarrow>
          let st = upd_chan i (\<lambda>_. ch) st;
              c = c\<lparr>mc_buffer := m, mc_retries := mc_retries c + 1\<rparr> in
          if mc_retries c > IPMB_TX_RETRY_TIME then tx_give_up env m st else Some (requeue i c st, []))"

definition tx_request ::
  "ipmb_env \<Rightarrow> 'w i2c_write_fn \<Rightarrow> nat \<Rightarrow> ipmi_msg_cfg \<Rightarrow> ipmb_state \<Rightarrow> 'w
   \<Rightarrow> (ipmb_state \<times> 'w \<times> ipmb_event list) option" where
  "tx_request env i2c_write i c st w =
     (let cfg = is_config_table st ! i;
          m = mc_buffer c;
          buffer = ipmb_encode (ev_buffer env) m;
          n = ucast (im_data_len m + IPMB_REQ_HEADER_LENGTH) :: u8 in
      if ic_interface cfg \<noteq> I2C_IF \<or> \<not> ev_malloc_i2c env then Some (st, w, [])
      else (case insert_req_ipmi_msg env (m\<lparr>im_seq_target := im_seq m\<rparr>) (is_chan st i) of
        (ch, m) \<Rightarrow>
          (case i2c_write w (tx_i2c_msg env cfg n buffer) of
             (w, ret) \<Rightarrow>
               if (word_of_int ret :: u8) = 0 then Some (upd_chan i (\<lambda>_. ch) st, w, [])
               else map_option (\<lambda>(st, evs). (st, w, evs)) (tx_failed env i c m ch st))))"

text \<open>One iteration of the thread; with an empty queue it sleeps.\<close>

definition IPMB_TXTask ::
  "ipmb_env \<Rightarrow> 'w i2c_write_fn \<Rightarrow> nat \<Rightarrow> ipmb_state \<Rightarrow> 'w \<Rightarrow> (ipmb_state \<times> 'w \<times> ipmb_event list) option" where
  "IPMB_TXTask env i2c_write i st w =
     (case ch_txqueue (is_chan st i) of
        [] \<Rightarrow> Some (st, w, [])
      | c # q \<Rightarrow>
          let st = upd_chan i (\<lambda>ch. ch\<lparr>ch_txqueue := q\<rparr>) st in
          if ch_tx_disable (is_chan st i) then Some (st, w, [])
          else if IS_RESPONSE (mc_buffer c) then tx_response env i2c_write i c st w
          else tx_request env i2c_write i c st w)"

subsection \<open>The receive thread\<close>

definition zero_ipmi_msg :: ipmi_msg where
  "zero_ipmi_msg = \<lparr>im_dest_addr = 0, im_netfn = 0, im_dest_LUN = 0, im_hdr_chksum = 0, im_src_addr = 0,
     im_seq_source = 0, im_seq_target = 0, im_seq = 0, im_pldm_inst_id = 0, im_InF_source = 0,
     im_InF_target = 0, im_src_LUN = 0, im_cmd = 0, im_completion_code = 0, im_data_len = 0,
     im_data = zeros IPMI_MSG_MAX_LENGTH, im_timestamp = 0, im_msg_chksum = 0\<rparr>"

definition pal_encode_response_bridge_cmd :: "ipmb_env \<Rightarrow> ipmi_msg \<Rightarrow> IPMB_config \<Rightarrow> ipmi_msg \<Rightarrow> ipmi_msg" where
  "pal_encode_response_bridge_cmd env m cfg bridge_msg =
     bridge_msg\<lparr>im_data := memcpy_at 0
        ([ucast IANA_ID, ucast (drop_bit 8 IANA_ID), ucast (drop_bit 16 IANA_ID), ic_channel cfg,
          if ev_netfn_shift env then push_bit 2 (im_netfn m) else im_netfn m,
          im_cmd m, im_completion_code m] @ take (unat (im_data_len m)) (im_data m)) (im_data bridge_msg),
      im_data_len := im_data_len m + 7, im_netfn := NETFN_OEM_1S_REQ, im_cmd := CMD_OEM_1S_MSG_OUT,
      im_completion_code := CC_SUCCESS, im_seq := im_seq_source m\<rparr>"

text \<open>A response whose request was found, by the channel the request came from.\<close>

definition rx_deliver ::
  "ipmb_env \<Rightarrow> nat \<Rightarrow> ipmi_msg \<Rightarrow> ipmb_state \<Rightarrow> (ipmb_state \<times> ipmb_event list) option" where
  "rx_deliver env i m st =
     (if im_InF_source m = SELF then
        (if length (is_inf_index_map st) \<le> unat (im_InF_target m) then None
         else let j = unat (is_inf_index_map st ! unat (im_InF_target m)) in
           if length (is_config_table st) \<le> j then None
           else Some (upd_chan j (\<lambda>ch. ch\<lparr>ch_rxqueue := msgq_put IPMB_RXQUEUE_LEN m (ch_rxqueue ch)\<rparr>) st, []))
      else if im_InF_source m AND 0xF0 = HOST_KCS_1 then
        Some (st, if ev_kcs_enabled env \<and> \<not> ev_immediate_respond env (im_netfn m AND 0xFE) (im_cmd m)
                     \<and> ev_malloc_kcs env
                  then [KCS_reply m] else [])
      else if im_InF_source m = MPRO_PLDM then Some (st, if ev_mpro_enabled env then [Pldm_ipmb_rsp m] else [])
      else if \<not> ev_malloc_bridge env then Some (st, [])
      else if im_InF_source m = ME_IPMB then
        map_option (\<lambda>st. (st, []))
          (send_response_to env
             (zero_ipmi_msg\<lparr>im_netfn := im_netfn m - 1, im_cmd := im_cmd m,
                im_completion_code := im_completion_code m, im_seq := im_seq_source m,
                im_data_len := im_data_len m,
                im_data := memcpy_at 0 (take (unat (im_data_len m)) (im_data m)) (im_data zero_ipmi_msg)\<rparr>)
             (im_InF_source m) st)
      else let b = pal_encode_response_bridge_cmd env m (is_config_table st ! i) zero_ipmi_msg in
        if im_InF_source m = PLDM \<or> im_InF_source m = MCTP
        then Some (st, [Pldm_ipmi_response (im_InF_source m) (b\<lparr>im_pldm_inst_id := im_pldm_inst_id m\<rparr>)])
        else map_option (\<lambda>st. (st, [])) (send_response_to env b (im_InF_source m) st))"

definition rx_response ::
  "ipmb_env \<Rightarrow> nat \<Rightarrow> ipmi_msg \<Rightarrow> ipmb_state \<Rightarrow> (ipmb_state \<times> ipmb_event list) option" where
  "rx_response env i m st =
     (case find_req_ipmi_msg env (m\<lparr>im_seq_target := im_seq m\<rparr>) (is_chan st i) of
        None \<Rightarrow> None
      | Some (ch, m, found) \<Rightarrow>
          let st = upd_chan i (\<lambda>_. ch) st in if found then rx_deliver env i m st else Some (st, []))"

text \<open>A request of the ME for the BMC is passed on, over IPMB or over PLDM.\<close>

definition rx_bridge_me ::
  "ipmb_env \<Rightarrow> ipmi_msg \<Rightarrow> ipmb_state \<Rightarrow> ipmb_state option" where
  "rx_bridge_me env m st =
     (let b = zero_ipmi_msg\<lparr>im_data_len := im_data_len m, im_seq_source := im_seq m, im_InF_target := BMC_IPMB,
                im_InF_source := ME_IPMB, im_netfn := im_netfn m, im_cmd := im_cmd m,
                im_data := memcpy_at 0 (take (unat (im_data_len m)) (im_data m)) (im_data zero_ipmi_msg)\<rparr>;
          bmc = nth0 (is_inf_index_map st) (unat BMC_IPMB) in
      if \<not> ev_use_ipmb env bmc then
        (let b = ev_pldm_send_ipmi_request env (b\<lparr>im_InF_target := PLDM\<rparr>) in
         send_response_to env (b\<lparr>im_netfn := im_netfn m, im_seq := im_seq m\<rparr>) ME_IPMB st)
      else
        (case ipmb_send_request env b (unat bmc) st of
           None \<Rightarrow> None
         | Some (st, b, r) \<Rightarrow>
             if r \<noteq> IPMB_ERROR_SUCCESS
             then send_response_to env (b\<lparr>im_completion_code := CC_TIMEOUT\<rparr>) (im_InF_source b) st
             else Some st))"

definition rx_request ::
  "ipmb_env \<Rightarrow> nat \<Rightarrow> ipmi_msg_cfg \<Rightarrow> ipmb_state \<Rightarrow> (ipmb_state \<times> ipmb_event list) option" where
  "rx_request env i c st =
     (let m = mc_buffer c; channel = ic_channel (is_config_table st ! i) in
      if channel = ME_IPMB \<and> \<not> ev_request_to_BIC_from_ME env (im_netfn m) (im_cmd m) then
        (if \<not> ev_malloc_bridge env then Some (st, [])
         else map_option (\<lambda>st. (st, [])) (rx_bridge_me env m st))
      else Some (st, [Notify_ipmi_client
        (c\<lparr>mc_buffer := m\<lparr>im_seq_source := im_seq m, im_InF_source := channel\<rparr>\<rparr>)]))"

text \<open>
  One iteration of the thread. \<open>frame\<close> is what the driver has read, at most 255 bytes, and \<open>None\<close> when it
  has read nothing; behind the frame the receive buffer holds what was there before.
\<close>

definition rx_buffer :: "ipmb_env \<Rightarrow> bytes \<Rightarrow> bytes" where
  "rx_buffer env f = (let b = memcpy_at 0 f (ev_buffer env) in b[0 := drop_bit 1 (nth0 b 0)])"

definition IPMB_RXTask ::
  "ipmb_env \<Rightarrow> nat \<Rightarrow> bytes option \<Rightarrow> ipmb_state \<Rightarrow> (ipmb_state \<times> ipmb_event list) option" where
  "IPMB_RXTask env i frame st =
     (if ic_interface (is_config_table st ! i) \<noteq> I2C_IF then Some (st, [])
      else case frame of
        None \<Rightarrow> Some (st, [])
      | Some f \<Rightarrow>
          let buffer = rx_buffer env f; rx_len = of_nat (length f) :: u8 in
          if rx_len = 0 \<or> validate_checksum buffer rx_len \<noteq> IPMB_ERROR_SUCCESS then Some (st, [])
          else let m = ipmb_decode (ev_msg env) buffer rx_len in
            if IS_RESPONSE m then rx_response env i m st
            else rx_request env i \<lparr>mc_buffer = m, mc_retries = ev_retries env\<rparr> st)"

subsection \<open>Initialisation\<close>

text \<open>The loop over the table ends at the entry that is marked with \<^verbatim>\<open>RESERVED_IDX\<close>.\<close>

fun index_mapping_loop :: "IPMB_config list \<Rightarrow> nat \<Rightarrow> bytes \<Rightarrow> bytes" where
  "index_mapping_loop [] n m = m"
| "index_mapping_loop (c # cs) n m =
     (if ic_index c = RESERVED_IDX then m
      else index_mapping_loop cs (n + 1)
        (if unat (ic_channel c) < unat RESERVED then m[unat (ic_channel c) := of_nat n] else m))"

definition channel_index_mapping :: "IPMB_config list \<Rightarrow> bytes" where
  "channel_index_mapping cfgs = index_mapping_loop cfgs 0 (replicate (unat RESERVED) RESERVED)"

definition create_ipmb_threads :: "ipmb_env \<Rightarrow> bool \<Rightarrow> nat \<Rightarrow> ipmb_state \<Rightarrow> ipmb_state" where
  "create_ipmb_threads env mutex_ok i st =
     upd_chan i (\<lambda>ch.
       let ch = ch\<lparr>ch_seq_table := (\<lambda>_. False)\<rparr> in
       if \<not> ev_malloc_node env then ch
       else let ch = ch\<lparr>ch_reqs := [], ch_circular := True\<rparr> in
         if \<not> mutex_ok then ch
         else ch\<lparr>ch_txqueue := [], ch_rxqueue := [], ch_queue_init := True\<rparr>) st"

definition ipmb_tx_suspend :: "nat \<Rightarrow> ipmb_state \<Rightarrow> ipmb_state" where
  "ipmb_tx_suspend i st = (if length (is_config_table st) \<le> i then st
     else upd_chan i (\<lambda>ch. ch\<lparr>ch_tx_disable := True\<rparr>) st)"

definition ipmb_tx_resume :: "nat \<Rightarrow> ipmb_state \<Rightarrow> ipmb_state" where
  "ipmb_tx_resume i st = (if length (is_config_table st) \<le> i then st
     else upd_chan i (\<lambda>ch. ch\<lparr>ch_tx_disable := False\<rparr>) st)"

text \<open>\<open>cfgs\<close> is the table that the platform has loaded, \<open>freq\<close> the tick frequency of the kernel.\<close>

definition ipmb_init :: "ipmb_env \<Rightarrow> bool \<Rightarrow> IPMB_config list \<Rightarrow> u32 \<Rightarrow> ipmb_state \<Rightarrow> ipmb_state" where
  "ipmb_init env load_ok cfgs freq st =
     (if \<not> ev_malloc_node env \<or> \<not> load_ok then st
      else let st = \<lparr>is_config_table = cfgs, is_inf_index_map = channel_index_mapping cfgs,
                     is_chan = (\<lambda>i. (is_chan st i)\<lparr>ch_current_seq := 0\<rparr>),
                     is_tick_fix = freq div 1000, is_sys_tick_freq = freq, is_mutex_init = True\<rparr> in
        fold (\<lambda>i st. if ic_enable_status (cfgs ! i) then create_ipmb_threads env True i st else st)
          [0..<length cfgs] st)"

end
