(* ===== verification/Ipmi.thy ===== *)
theory Ipmi
  imports Ipmb Pldm
begin

text \<open>
  The IPMI task, \<^verbatim>\<open>src/common/service/ipmi/ipmi.c\<close>: the queue of requests that all interfaces fill, the
  dispatch of a request by its network function, and the way back of the response to the interface it
  came from, with the PLDM format of a response.

  The handlers of the network functions are arguments that work on a state of any type. The data of a
  message are the array of the struct, \<open>IPMI_MSG_MAX_LENGTH\<close> bytes. \<open>None\<close> is a copy that leaves a buffer. What
  the task passes to another component is a value of \<open>ipmi_out\<close>.
\<close>

section \<open>Definitions\<close>

definition IPMI_BUF_LEN :: nat where "IPMI_BUF_LEN = 10"
definition IANA_LEN :: nat where "IANA_LEN = 3"
definition KCS_BUFF_SIZE :: nat where "KCS_BUFF_SIZE = 256"
definition BMC_USB :: u8 where "BMC_USB = 0x20"
definition HOST_SSIF_1 :: u8 where "HOST_SSIF_1 = 0x60"
definition NETFN_CHASSIS_REQ :: u8 where "NETFN_CHASSIS_REQ = 0"
definition NETFN_BRIDGE_REQ :: u8 where "NETFN_BRIDGE_REQ = 2"
definition NETFN_SENSOR_REQ :: u8 where "NETFN_SENSOR_REQ = 4"
definition NETFN_APP_REQ :: u8 where "NETFN_APP_REQ = 6"
definition NETFN_FIRMWARE_REQ :: u8 where "NETFN_FIRMWARE_REQ = 8"
definition NETFN_STORAGE_REQ :: u8 where "NETFN_STORAGE_REQ = 0x0A"
definition NETFN_TRANSPORT_REQ :: u8 where "NETFN_TRANSPORT_REQ = 0x0C"
definition NETFN_DCMI_REQ :: u8 where "NETFN_DCMI_REQ = 0x2C"
definition NETFN_NM_REQ :: u8 where "NETFN_NM_REQ = 0x2E"
definition NETFN_OEM_REQ :: u8 where "NETFN_OEM_REQ = 0x30"
definition CMD_OEM_1S_MSG_IN :: u8 where "CMD_OEM_1S_MSG_IN = 1"
definition CMD_STORAGE_ADD_SEL :: u8 where "CMD_STORAGE_ADD_SEL = 0x44"
definition CC_INVALID_CMD :: u8 where "CC_INVALID_CMD = 0xC1"
definition CC_INVALID_IANA :: u8 where "CC_INVALID_IANA = 0x84"

lemmas ipmi_consts =
  IPMI_BUF_LEN_def IANA_LEN_def KCS_BUFF_SIZE_def BMC_USB_def HOST_SSIF_1_def NETFN_CHASSIS_REQ_def NETFN_BRIDGE_REQ_def
  NETFN_SENSOR_REQ_def NETFN_APP_REQ_def NETFN_FIRMWARE_REQ_def NETFN_STORAGE_REQ_def NETFN_TRANSPORT_REQ_def
  NETFN_DCMI_REQ_def NETFN_NM_REQ_def NETFN_OEM_REQ_def CMD_OEM_1S_MSG_IN_def CMD_STORAGE_ADD_SEL_def
  CC_INVALID_CMD_def CC_INVALID_IANA_def

subsection \<open>The queue of requests\<close>

text \<open>
  \<open>lock r\<close> is whether the mutex is obtained when \<open>r\<close> tries remain. The result is the queue and the number of
  tries that remain.
\<close>

fun notify_loop :: "(nat \<Rightarrow> bool) \<Rightarrow> 'a \<Rightarrow> nat \<Rightarrow> 'a list \<Rightarrow> 'a list \<times> nat" where
  "notify_loop lock m 0 q = (q, 0)"
| "notify_loop lock m (Suc r) q =
     (if \<not> lock (Suc r) then notify_loop lock m r q
      else let q = (if IPMI_BUF_LEN \<le> length q then [] else q) in
        if length q < IPMI_BUF_LEN then (q @ [m], r) else notify_loop lock m r q)"

definition notify_ipmi_client ::
  "(nat \<Rightarrow> bool) \<Rightarrow> ipmi_msg_cfg \<Rightarrow> ipmi_msg_cfg list \<Rightarrow> ipmi_msg_cfg list \<times> ipmb_error" where
  "notify_ipmi_client lock m q =
     (if IS_RESPONSE (mc_buffer m) then (q, IPMB_ERROR_SUCCESS)
      else if length q < IPMI_BUF_LEN then (q @ [m], IPMB_ERROR_SUCCESS)
      else case notify_loop lock m 3 q of
        (q, retry) \<Rightarrow> (q, if retry = 0 then IPMB_ERROR_MUTEX_LOCK else IPMB_ERROR_SUCCESS))"

subsection \<open>Requests and responses\<close>

definition iana_bytes :: "u32 \<Rightarrow> bytes" where
  "iana_bytes i = [ucast i, ucast (drop_bit 8 i), ucast (drop_bit 16 i)]"

definition get_iana :: "bytes \<Rightarrow> u32" where
  "get_iana buf =
     (let i = push_bit 8 (push_bit 8 (ucast (nth0 buf 2)) OR ucast (nth0 buf 1)) OR ucast (nth0 buf 0) :: u32
      in if i = IANA_ID then IANA_ID else 0)"

text \<open>The default of the platform hook\<close>

definition pal_is_not_return_cmd :: "u8 \<Rightarrow> u8 \<Rightarrow> bool" where
  "pal_is_not_return_cmd netfn cmd =
     (netfn = NETFN_OEM_1S_REQ \<and> (cmd = CMD_OEM_1S_MSG_OUT \<or> cmd = CMD_OEM_1S_MSG_IN))"

text \<open>Defaults of the other hooks of the file\<close>

definition pal_request_msg_to_BIC_from_HOST :: "u8 \<Rightarrow> u8 \<Rightarrow> bool" where
  "pal_request_msg_to_BIC_from_HOST netfn cmd =
     (netfn = NETFN_OEM_1S_REQ \<and> (cmd = 0x09 \<or> cmd = 0x16 \<or> cmd = 0x31 \<or> cmd = 0x32 \<or> cmd = 0x0A \<or> cmd = 0xB2))"

definition pal_immediate_respond_from_HOST :: "u8 \<Rightarrow> u8 \<Rightarrow> bool" where
  "pal_immediate_respond_from_HOST netfn cmd =
     ((netfn = NETFN_STORAGE_REQ \<and> cmd = CMD_STORAGE_ADD_SEL) \<or> (netfn = NETFN_SENSOR_REQ \<and> cmd = 0x02))"

definition pal_request_msg_to_BIC_from_ME :: "u8 \<Rightarrow> u8 \<Rightarrow> bool" where
  "pal_request_msg_to_BIC_from_ME netfn cmd = (netfn = NETFN_OEM_REQ \<and> cmd = 0xE2)"

type_synonym 's ipmi_handler = "'s \<Rightarrow> ipmi_msg \<Rightarrow> 's \<times> ipmi_msg"

record 's ipmi_cmds =
  ih_chassis :: "'s ipmi_handler"
  ih_sensor :: "'s ipmi_handler"
  ih_app :: "'s ipmi_handler"
  ih_storage :: "'s ipmi_handler"
  ih_oem :: "'s ipmi_handler"
  ih_oem_1s :: "'s ipmi_handler"

text \<open>
  Build options, outcomes of the allocations for KCS, the hook, and the memory representation of a pointer to an MCTP
  instance and of its parameters, which the PLDM handler leaves at the end of the data.
\<close>

record ipmi_env =
  ie_usb_enabled :: bool
  ie_kcs_enabled :: bool
  ie_ssif_enabled :: bool
  ie_ipmb_enabled :: bool
  ie_kcs_malloc :: "bool \<times> bool"
  ie_not_return :: "u8 \<Rightarrow> u8 \<Rightarrow> bool"
  ie_inf_index_map :: bytes
  ie_ext_bytes :: "mctp_ext_params \<Rightarrow> bytes"
  ie_ext_of :: "bytes \<Rightarrow> mctp_ext_params"
  ie_ext_size :: nat

text \<open>The network function of a message, and the data of a vendor command without and with the vendor id.\<close>

definition ipmi_dispatch ::
  "ipmi_env \<Rightarrow> 's ipmi_cmds \<Rightarrow> 's \<Rightarrow> ipmi_msg \<Rightarrow> ('s \<times> ipmi_msg \<times> u32) option" where
  "ipmi_dispatch env h s m =
     (let m = m\<lparr>im_completion_code := CC_INVALID_CMD\<rparr>;
          run = (\<lambda>f. case f s m of (s, m) \<Rightarrow> Some (s, m, 0)) in
      if im_netfn m = NETFN_CHASSIS_REQ then run (ih_chassis h)
      else if im_netfn m = NETFN_BRIDGE_REQ then Some (s, m, 0)
      else if im_netfn m = NETFN_SENSOR_REQ then run (ih_sensor h)
      else if im_netfn m = NETFN_APP_REQ then run (ih_app h)
      else if im_netfn m = NETFN_FIRMWARE_REQ then Some (s, m, 0)
      else if im_netfn m = NETFN_STORAGE_REQ then run (ih_storage h)
      else if im_netfn m = NETFN_TRANSPORT_REQ then Some (s, m, 0)
      else if im_netfn m = NETFN_DCMI_REQ then Some (s, m, 0)
      else if im_netfn m = NETFN_NM_REQ then Some (s, m, 0)
      else if im_netfn m = NETFN_OEM_REQ then run (ih_oem h)
      else if im_netfn m = NETFN_OEM_1S_REQ then
        (let iana = get_iana (im_data m) in
         if 3 \<le> im_data_len m \<and> iana \<noteq> 0 then
           if Ipmb.IPMI_MSG_MAX_LENGTH < unat (im_data_len m) then None
           else (case ih_oem_1s h s
                    (m\<lparr>im_data_len := im_data_len m - 3,
                       im_data := memcpy_at 0 (slice 3 (unat (im_data_len m) - 3) (im_data m)) (im_data m)\<rparr>) of
                   (s, m) \<Rightarrow> Some (s, m, iana))
         else if ie_not_return env (im_netfn m) (im_cmd m) then
           (case ih_oem_1s h s (m\<lparr>im_completion_code := CC_INVALID_IANA\<rparr>) of (s, m) \<Rightarrow> Some (s, m, iana))
         else Some (s, m\<lparr>im_completion_code := CC_INVALID_IANA, im_data_len := 0\<rparr>, iana))
      else Some (s, m\<lparr>im_data_len := 0\<rparr>, 0))"

definition ipmi_finish :: "u32 \<Rightarrow> ipmi_msg \<Rightarrow> ipmi_msg option" where
  "ipmi_finish iana m =
     (if im_completion_code m \<noteq> CC_SUCCESS then Some (m\<lparr>im_data_len := 0\<rparr>)
      else if im_netfn m = NETFN_OEM_1S_REQ then
        if Ipmb.IPMI_MSG_MAX_LENGTH < unat (im_data_len m) + 3 then None
        else Some (m\<lparr>im_data := memcpy_at 0 (iana_bytes iana @ take (unat (im_data_len m)) (im_data m)) (im_data m),
                     im_data_len := im_data_len m + 3\<rparr>)
      else Some m)"

subsection \<open>The way back\<close>

definition set_iana :: bytes where
  "set_iana = iana_bytes IANA_ID"

text \<open>The data of an IPMI response in PLDM: \<^verbatim>\<open>struct _ipmi_cmd_resp\<close> and what follows it.\<close>

definition ipmi_cmd_resp :: "ipmi_msg \<Rightarrow> bytes" where
  "ipmi_cmd_resp m = [PLDM_SUCCESS] @ set_iana
     @ [push_bit 2 (im_netfn m OR 1), im_cmd m, im_completion_code m] @ take (unat (im_data_len m)) (im_data m)"

definition pldm_hdr_ofs :: nat where
  "pldm_hdr_ofs = Ipmb.IPMI_MSG_MAX_LENGTH - 4"

definition mctp_ext_params_ofs :: "ipmi_env \<Rightarrow> nat" where
  "mctp_ext_params_ofs env = pldm_hdr_ofs - ie_ext_size env"

definition mctp_inst_ofs :: "ipmi_env \<Rightarrow> nat" where
  "mctp_inst_ofs env = mctp_ext_params_ofs env - 4"

text \<open>The instance and the message that are passed to \<^verbatim>\<open>mctp_pldm_send_msg\<close>.\<close>

definition send_msg_by_pldm :: "ipmi_env \<Rightarrow> ipmi_msg \<Rightarrow> (nat \<times> pldm_msg) option" where
  "send_msg_by_pldm env m =
     (if PLDM_MAX_DATA_SIZE < 7 + unat (im_data_len m) then None
      else Some
        (unat (get32 (im_data m) (mctp_inst_ofs env)),
         \<lparr>pm_hdr = (pldm_hdr_of (drop pldm_hdr_ofs (im_data m)))\<lparr>ph_rq := False\<rparr>,
          pm_buf = memcpy_at 0 (ipmi_cmd_resp m) (zeros PLDM_MAX_DATA_SIZE), pm_len = 7 + im_data_len m,
          pm_ext_params = ie_ext_of env (slice (mctp_ext_params_ofs env) (ie_ext_size env) (im_data m)),
          pm_recv_resp_cb_fn = None, pm_recv_resp_cb_args = 0, pm_timeout_ms = 0, pm_timeout_cb_fn = None,
          pm_timeout_cb_fn_args = 0\<rparr>))"

datatype ipmi_out =
    Out_none
  | Out_usb ipmi_msg
  | Out_kcs u8 bytes u16
  | Out_ssif u8 ipmi_msg
  | Out_pldm nat pldm_msg
  | Out_self ipmi_msg
  | Out_ipmb u8 ipmi_msg

definition kcs_response :: "ipmi_msg \<Rightarrow> bytes" where
  "kcs_response m = [push_bit 2 (im_netfn m + 1), im_cmd m, im_completion_code m]
     @ take (min (unat (im_data_len m)) (KCS_BUFF_SIZE - 3)) (im_data m)"

definition ipmi_reply :: "ipmi_env \<Rightarrow> ipmi_msg \<Rightarrow> ipmi_out option" where
  "ipmi_reply env m =
     (let src = im_InF_source m in
      if ie_usb_enabled env \<and> src = BMC_USB then Some (Out_usb m)
      else if ie_kcs_enabled env \<and> HOST_KCS_1 \<le> src \<and> src \<le> HOST_KCS_1 + 3 then
        if fst (ie_kcs_malloc env) \<or> snd (ie_kcs_malloc env)
        then Some (Out_kcs (src - HOST_KCS_1) (kcs_response m) (im_data_len m + 3)) else Some Out_none
      else if ie_ssif_enabled env \<and> src = HOST_SSIF_1
      then Some (Out_ssif (src - HOST_SSIF_1) (m\<lparr>im_netfn := push_bit 2 (im_netfn m + 1)\<rparr>))
      else if src = PLDM then
        (case send_msg_by_pldm env m of None \<Rightarrow> None | Some (inst, p) \<Rightarrow> Some (Out_pldm inst p))
      else if src = SELF then Some (Out_self m)
      else if ie_ipmb_enabled env then Some (Out_ipmb (nth0 (ie_inf_index_map env) (unat src)) m)
      else Some Out_none)"

definition ipmi_cmd_handle ::
  "ipmi_env \<Rightarrow> 's ipmi_cmds \<Rightarrow> 's \<Rightarrow> ipmi_msg_cfg \<Rightarrow> ('s \<times> ipmi_out) option" where
  "ipmi_cmd_handle env h s c =
     (case ipmi_dispatch env h s (mc_buffer c) of
        None \<Rightarrow> None
      | Some (s, m, iana) \<Rightarrow>
          if ie_not_return env (im_netfn m) (im_cmd m) then Some (s, Out_none)
          else case ipmi_finish iana m of
            None \<Rightarrow> None
          | Some m \<Rightarrow> (case ipmi_reply env m of None \<Rightarrow> None | Some r \<Rightarrow> Some (s, r)))"

text \<open>
  One iteration of the task: the oldest request is handled by a thread of its own, which is ended
  after ten seconds; \<open>finishes\<close> is whether it ends before.
\<close>

definition IPMI_handler ::
  "ipmi_env \<Rightarrow> 's ipmi_cmds \<Rightarrow> bool \<Rightarrow> 's \<Rightarrow> ipmi_msg_cfg list \<Rightarrow> ('s \<times> ipmi_msg_cfg list \<times> ipmi_out) option" where
  "IPMI_handler env h finishes s q =
     (case q of
        [] \<Rightarrow> Some (s, [], Out_none)
      | c # q \<Rightarrow>
          if \<not> finishes then Some (s, q, Out_none)
          else case ipmi_cmd_handle env h s c of None \<Rightarrow> None | Some (s, r) \<Rightarrow> Some (s, q, r))"

text \<open>The queue of responses to the firmware itself holds one message.\<close>

definition self_msgq_put :: "ipmi_msg \<Rightarrow> ipmi_msg list \<Rightarrow> ipmi_msg list" where
  "self_msgq_put m q = (if length q < 1 then q @ [m] else [])"

subsection \<open>Event records\<close>

record common_addsel_msg =
  as_InF_target :: u8
  as_event :: bytes

text \<open>
  \<open>read\<close> is \<^verbatim>\<open>ipmb_read\<close> with the channel index; \<open>addr\<close> is the address of the firmware on its bus and \<open>zero\<close> the
  message after \<^verbatim>\<open>memset\<close>. The result is the next record id and the returned flag.
\<close>

definition addsel_msg :: "u8 \<Rightarrow> ipmi_msg \<Rightarrow> u16 \<Rightarrow> common_addsel_msg \<Rightarrow> ipmi_msg" where
  "addsel_msg addr zero record_id sel =
     zero\<lparr>im_data_len := 16, im_InF_source := SELF, im_InF_target := as_InF_target sel,
          im_netfn := NETFN_STORAGE_REQ, im_cmd := CMD_STORAGE_ADD_SEL,
          im_data := memcpy_at 0 (le16 record_id @ [2, 0, 0, 0, 0, push_bit 1 addr, 0, 4] @ as_event sel) (im_data zero)\<rparr>"

definition common_add_sel_evt_record ::
  "bool \<Rightarrow> u8 \<Rightarrow> ipmi_msg \<Rightarrow> bytes \<Rightarrow> ('w \<Rightarrow> ipmi_msg \<Rightarrow> u8 \<Rightarrow> 'w \<times> ipmb_error) \<Rightarrow> common_addsel_msg \<Rightarrow> u16 \<Rightarrow> 'w
   \<Rightarrow> u16 \<times> 'w \<times> bool" where
  "common_add_sel_evt_record malloc_ok addr zero inf_index_map read sel record_id w =
     (if \<not> malloc_ok then (record_id, w, False)
      else case read w (addsel_msg addr zero record_id sel) (nth0 inf_index_map (unat (as_InF_target sel))) of
        (w, status) \<Rightarrow>
          (record_id + 1, w, status \<noteq> IPMB_ERROR_FAILURE \<and> status \<noteq> IPMB_ERROR_GET_MESSAGE_QUEUE))"

end
