(* ===== verification/Pldm_Oem.thy ===== *)
theory Pldm_Oem
  imports Pldm_Read Ipmi
begin

text \<open>
  The vendor commands of PLDM, \<^verbatim>\<open>src/common/service/pldm/pldm_oem.c\<close>, and the IPMI bridge of
  \<^verbatim>\<open>src/common/service/pldm/pldm.c\<close>: echo, IPMI requests inside PLDM, the real-time clock, and IPMI messages that the
  firmware itself sends as PLDM messages.

  The command handlers work on a state with the queue of the IPMI task and the clock device. \<open>os_fault\<close> is
  set when a copy leaves a buffer of the handler; what a handler writes behind the end of the response buffer makes
  the caller \<open>mctp_pldm_cmd_handler\<close> return \<open>None\<close>. The instance, the header of the request (with the request bit
  already cleared) and outcomes of locks are arguments of a handler. Bytes that a handler reads behind a request
  are read as zeros.
\<close>

section \<open>Definitions\<close>

definition PLDM_TYPE_OEM :: "6 word" where "PLDM_TYPE_OEM = 0x3F"
definition PLDM_OEM_CMD_ECHO :: u8 where "PLDM_OEM_CMD_ECHO = 0"
definition PLDM_OEM_SENSOR_POLLING_CMD :: u8 where "PLDM_OEM_SENSOR_POLLING_CMD = 4"
definition PLDM_OEM_WF_READ_SPD_CHUNK :: u8 where "PLDM_OEM_WF_READ_SPD_CHUNK = 5"
definition PLDM_OEM_FORCE_UPDATE_SETTING_CMD :: u8 where "PLDM_OEM_FORCE_UPDATE_SETTING_CMD = 6"
definition PLDM_OEM_FORCE_UPDATE_GETTING_CMD :: u8 where "PLDM_OEM_FORCE_UPDATE_GETTING_CMD = 7"
definition PLDM_OEM_READ_FLASH_DATA_CMD :: u8 where "PLDM_OEM_READ_FLASH_DATA_CMD = 8"
definition PLDM_OEM_GET_RTC :: u8 where "PLDM_OEM_GET_RTC = 0xC"
definition PLDM_OEM_SET_RTC :: u8 where "PLDM_OEM_SET_RTC = 0xD"
definition VISTARA_SPD_CHUNK_DEFAULT :: u8 where "VISTARA_SPD_CHUNK_DEFAULT = 64"
definition VISTARA_SPD_DDR4_TOTAL_BYTES :: nat where "VISTARA_SPD_DDR4_TOTAL_BYTES = 512"
definition CC_UNSPECIFIED_ERROR :: u8 where "CC_UNSPECIFIED_ERROR = 0xFF"
definition EINVAL :: int where "EINVAL = 22"

lemmas pldm_oem_consts =
  PLDM_TYPE_OEM_def PLDM_OEM_CMD_ECHO_def PLDM_OEM_SENSOR_POLLING_CMD_def PLDM_OEM_WF_READ_SPD_CHUNK_def
  PLDM_OEM_FORCE_UPDATE_SETTING_CMD_def PLDM_OEM_FORCE_UPDATE_GETTING_CMD_def PLDM_OEM_READ_FLASH_DATA_CMD_def
  PLDM_OEM_GET_RTC_def PLDM_OEM_SET_RTC_def VISTARA_SPD_CHUNK_DEFAULT_def VISTARA_SPD_DDR4_TOTAL_BYTES_def
  CC_UNSPECIFIED_ERROR_def EINVAL_def

subsection \<open>State\<close>

record rtc_time =
  tm_sec :: int
  tm_min :: int
  tm_hour :: int
  tm_mday :: int
  tm_mon :: int
  tm_year :: int

record 'd oem_state =
  os_queue :: "ipmi_msg_cfg list"
  os_fault :: bool
  os_rtc :: 'd

text \<open>The clock driver: whether it is ready, \<^verbatim>\<open>rtc_get_time\<close> and \<^verbatim>\<open>rtc_set_time\<close>.\<close>

record 'd rtc_driver =
  rd_ready :: bool
  rd_get_time :: "'d \<Rightarrow> int \<times> rtc_time"
  rd_set_time :: "'d \<Rightarrow> rtc_time \<Rightarrow> 'd \<times> int"

text \<open>An answer that writes \<open>resp\<close> and sets the length to \<open>n\<close>.\<close>

abbreviation pldm_reply :: "bytes \<Rightarrow> u16 \<Rightarrow> u8 \<Rightarrow> pldm_result" where
  "pldm_reply resp n rc \<equiv> \<lparr>pr_resp = resp, pr_resp_len = n, pr_rc = rc\<rparr>"

subsection \<open>Commands the platform may define\<close>

definition read_flash_data_cmd :: "'s pldm_cmd_proc_fn" where
  "read_flash_data_cmd s buf len instance_id ext =
     (s, pldm_reply [PLDM_ERROR_UNSUPPORTED_PLDM_CMD] 1 PLDM_ERROR_UNSUPPORTED_PLDM_CMD)"

definition force_update_flag_set_cmd :: "'s pldm_cmd_proc_fn" where
  "force_update_flag_set_cmd s buf len instance_id ext =
     (s, pldm_reply [PLDM_ERROR_UNSUPPORTED_PLDM_CMD] 1 PLDM_ERROR_UNSUPPORTED_PLDM_CMD)"

definition force_update_flag_get_cmd :: "'s pldm_cmd_proc_fn" where
  "force_update_flag_get_cmd s buf len instance_id ext =
     (s, pldm_reply [PLDM_ERROR_UNSUPPORTED_PLDM_CMD] 1 PLDM_ERROR_UNSUPPORTED_PLDM_CMD)"

definition sensor_polling_cmd :: "'s pldm_cmd_proc_fn" where
  "sensor_polling_cmd s buf len instance_id ext =
     (s, pldm_reply [PLDM_ERROR_UNSUPPORTED_PLDM_CMD] 1 PLDM_ERROR_UNSUPPORTED_PLDM_CMD)"

subsection \<open>Echo\<close>

definition check_iana :: "bytes \<Rightarrow> u8" where
  "check_iana iana =
     (if \<forall>i \<in> set [0..<IANA_LEN]. nth0 iana i = ucast (drop_bit (i * 8) IANA_ID) then PLDM_SUCCESS else PLDM_ERROR)"

text \<open>
  The copy takes \<open>len\<close> bytes from behind the vendor id, three more than the request has; the last three
  are not sent and stand here as zeros.
\<close>

definition cmd_echo :: "'s pldm_cmd_proc_fn" where
  "cmd_echo s buf len instance_id ext =
     (if check_iana buf = PLDM_ERROR then (s, pldm_reply [PLDM_ERROR_INVALID_DATA] 1 PLDM_SUCCESS)
      else if 4 + 1 + unat len > PLDM_MAX_DATA_SIZE
      then (s, pldm_reply [PLDM_ERROR_INVALID_LENGTH] 1 PLDM_SUCCESS)
      else (s, pldm_reply ([PLDM_SUCCESS] @ set_iana @ take (unat len) (drop 3 buf @ zeros (unat len))) (len + 1) PLDM_SUCCESS))"

subsection \<open>IPMI requests in PLDM\<close>

definition ipmi_zero :: ipmi_msg where
  "ipmi_zero = \<lparr>im_dest_addr = 0, im_netfn = 0, im_dest_LUN = 0, im_hdr_chksum = 0, im_src_addr = 0, im_seq_source = 0,
     im_seq_target = 0, im_seq = 0, im_pldm_inst_id = 0, im_InF_source = 0, im_InF_target = 0, im_src_LUN = 0, im_cmd = 0,
     im_completion_code = 0, im_data_len = 0, im_data = zeros Ipmb.IPMI_MSG_MAX_LENGTH, im_timestamp = 0, im_msg_chksum = 0\<rparr>"

text \<open>
  The request with the instance, its parameters and the header stored at the end of the data. A request
  longer than the data array overruns it.
\<close>

definition ipmi_request :: "ipmi_env \<Rightarrow> nat \<Rightarrow> pldm_hdr \<Rightarrow> mctp_ext_params \<Rightarrow> u8 \<Rightarrow> bytes \<Rightarrow> u16 \<Rightarrow> ipmi_msg" where
  "ipmi_request env inst hdr ext instance_id buf len =
     (let data = memcpy_at 0 (take (unat len - 5) (drop 5 buf)) (zeros Ipmb.IPMI_MSG_MAX_LENGTH);
          data = memcpy_at (mctp_inst_ofs env) (le32 (of_nat inst)) data;
          data = memcpy_at (mctp_ext_params_ofs env) (ie_ext_bytes env ext) data;
          data = memcpy_at pldm_hdr_ofs (pldm_hdr_bytes hdr) data in
      ipmi_zero\<lparr>im_netfn := drop_bit 2 (nth0 buf 3), im_cmd := nth0 buf 4, im_data_len := len - 5,
                im_pldm_inst_id := instance_id, im_InF_source := PLDM, im_data := data\<rparr>)"

definition ipmi_cmd ::
  "ipmi_env \<Rightarrow> (nat \<Rightarrow> bool) \<Rightarrow> nat \<Rightarrow> pldm_hdr \<Rightarrow> 'd oem_state pldm_cmd_proc_fn" where
  "ipmi_cmd env lock inst hdr s buf len instance_id ext =
     (if len < 5 then (s, pldm_reply ([PLDM_ERROR_INVALID_LENGTH] @ set_iana) (1 + 3) PLDM_ERROR)
      else if check_iana buf = PLDM_ERROR
      then (s, pldm_reply ([PLDM_ERROR_INVALID_DATA] @ set_iana) 1 PLDM_SUCCESS)
      else if Ipmb.IPMI_MSG_MAX_LENGTH < unat len - 5
      then (s\<lparr>os_fault := True\<rparr>, pldm_reply [] 1 PLDM_LATER_RESP)
      else let c = \<lparr>mc_buffer = ipmi_request env inst hdr ext instance_id buf len, mc_retries = 0\<rparr> in
        (s\<lparr>os_queue := fst (notify_ipmi_client lock c (os_queue s))\<rparr>, pldm_reply [] 1 PLDM_LATER_RESP))"

subsection \<open>The clock\<close>

definition rtc_bytes :: "rtc_time \<Rightarrow> bytes" where
  "rtc_bytes t = [word_of_int (tm_sec t), word_of_int (tm_min t), word_of_int (tm_hour t), word_of_int (tm_mday t),
     word_of_int (tm_mon t + 1)] @ le16 (word_of_int (tm_year t + 1900))"

text \<open>The two tests of the result of the driver, for no data and for a negative number, are one.\<close>

definition get_rtc :: "'d rtc_driver \<Rightarrow> 'd oem_state pldm_cmd_proc_fn" where
  "get_rtc dev s buf len instance_id ext =
     (if check_iana buf = PLDM_ERROR \<or> \<not> rd_ready dev
      then (s, pldm_reply [PLDM_ERROR_INVALID_DATA] 1 PLDM_SUCCESS)
      else case rd_get_time dev (os_rtc s) of
        (res, t) \<Rightarrow>
          if res < 0 then (s, pldm_reply [PLDM_ERROR_INVALID_DATA] 1 PLDM_SUCCESS)
          else (s, pldm_reply ([PLDM_SUCCESS] @ set_iana @ [7] @ rtc_bytes t) (len + 7 + 2) PLDM_SUCCESS))"

definition rtc_of :: "bytes \<Rightarrow> rtc_time" where
  "rtc_of b = \<lparr>tm_sec = uint (nth0 b 3), tm_min = uint (nth0 b 4), tm_hour = uint (nth0 b 5), tm_mday = uint (nth0 b 6),
     tm_mon = uint (nth0 b 7) - 1, tm_year = uint (get16 b 8) - 1900\<rparr>"

definition set_rtc :: "'d rtc_driver \<Rightarrow> 'd oem_state pldm_cmd_proc_fn" where
  "set_rtc dev s buf len instance_id ext =
     (if check_iana buf = PLDM_ERROR \<or> \<not> rd_ready dev
      then (s, pldm_reply [PLDM_ERROR_INVALID_DATA] 1 PLDM_SUCCESS)
      else case rd_set_time dev (os_rtc s) (rtc_of buf) of
        (d, res) \<Rightarrow>
          (s\<lparr>os_rtc := d\<rparr>,
           if res = - EINVAL then pldm_reply [PLDM_ERROR_INVALID_DATA] 1 PLDM_SUCCESS
           else pldm_reply ([PLDM_SUCCESS] @ set_iana) 4 PLDM_SUCCESS))"

subsection \<open>Memory modules behind a CXL controller\<close>

text \<open>\<open>read eid dimm offset n\<close> is \<^verbatim>\<open>vistara_read_dimm_spd_chunk_eid\<close>: its result code and the bytes read.\<close>

definition oem_wf_read_spd_chunk ::
  "(u8 \<Rightarrow> u8) \<Rightarrow> (u8 \<Rightarrow> u8 \<Rightarrow> u16 \<Rightarrow> u8 \<Rightarrow> int \<times> bytes) \<Rightarrow> 's pldm_cmd_proc_fn" where
  "oem_wf_read_spd_chunk cxl_eid read s buf len instance_id ext =
     (if len < 8 then (s, pldm_reply [PLDM_ERROR_INVALID_LENGTH, 0, 0, 0, 0] 5 PLDM_SUCCESS)
      else let iana = take 3 buf; offset = get16 buf 5; rlen = nth0 buf 7 in
        if rlen = 0 \<or> rlen > VISTARA_SPD_CHUNK_DEFAULT \<or> unat offset + unat rlen > VISTARA_SPD_DDR4_TOTAL_BYTES
        then (s, pldm_reply ([PLDM_ERROR_INVALID_DATA] @ iana @ [0]) 5 PLDM_SUCCESS)
        else case read (cxl_eid (nth0 buf 3)) (nth0 buf 4) offset rlen of
          (rc, data) \<Rightarrow>
            if rc = 0
            then (s, pldm_reply ([PLDM_SUCCESS] @ iana @ [rlen] @ take (unat rlen) (data @ zeros (unat rlen))) (5 + ucast rlen) PLDM_SUCCESS)
            else (s, pldm_reply ([PLDM_ERROR] @ iana @ [0]) 5 PLDM_SUCCESS))"

subsection \<open>The table\<close>

text \<open>\<open>spd\<close> is the handler of the command that exists with \<^verbatim>\<open>ENABLE_VISTARA\<close> only.\<close>

definition pldm_oem_cmd_tbl ::
  "ipmi_env \<Rightarrow> (nat \<Rightarrow> bool) \<Rightarrow> nat \<Rightarrow> pldm_hdr \<Rightarrow> 'd rtc_driver \<Rightarrow> 'd oem_state pldm_cmd_proc_fn option
   \<Rightarrow> (u8 \<times> 'd oem_state pldm_cmd_proc_fn) list" where
  "pldm_oem_cmd_tbl env lock inst hdr dev spd =
     [(PLDM_OEM_CMD_ECHO, cmd_echo),
      (PLDM_OEM_IPMI_BRIDGE, ipmi_cmd env lock inst hdr),
      (PLDM_OEM_SENSOR_POLLING_CMD, sensor_polling_cmd)]
     @ (case spd of None \<Rightarrow> [] | Some f \<Rightarrow> [(PLDM_OEM_WF_READ_SPD_CHUNK, f)])
     @ [(PLDM_OEM_FORCE_UPDATE_SETTING_CMD, force_update_flag_set_cmd),
        (PLDM_OEM_FORCE_UPDATE_GETTING_CMD, force_update_flag_get_cmd),
        (PLDM_OEM_READ_FLASH_DATA_CMD, read_flash_data_cmd),
        (PLDM_OEM_GET_RTC, get_rtc dev),
        (PLDM_OEM_SET_RTC, set_rtc dev)]"

definition pldm_oem_handler_query ::
  "ipmi_env \<Rightarrow> (nat \<Rightarrow> bool) \<Rightarrow> nat \<Rightarrow> pldm_hdr \<Rightarrow> 'd rtc_driver \<Rightarrow> 'd oem_state pldm_cmd_proc_fn option
   \<Rightarrow> 'd oem_state handler_query" where
  "pldm_oem_handler_query env lock inst hdr dev spd code = map_of (pldm_oem_cmd_tbl env lock inst hdr dev spd) code"

subsection \<open>IPMI messages of the firmware as PLDM messages\<close>

definition bridge_hdr :: "bool \<Rightarrow> 5 word \<Rightarrow> pldm_hdr" where
  "bridge_hdr rq i = \<lparr>ph_msg_type = MCTP_MSG_TYPE_PLDM, ph_ic = False, ph_inst_id = i, ph_rsvd = False, ph_d = False,
     ph_rq = rq, ph_pldm_type = PLDM_TYPE_OEM, ph_ver = 0, ph_cmd = PLDM_OEM_IPMI_BRIDGE\<rparr>"

definition bridge_ext :: "MCTP_MEDIUM_TYPE \<Rightarrow> int \<Rightarrow> mctp_ext_params" where
  "bridge_ext ty target = \<lparr>xp_tag_owner = 0, xp_msg_tag = 0, xp_ep = 0, xp_type = ty, xp_addr = word_of_int target\<rparr>"

definition bridge_msg :: "pldm_hdr \<Rightarrow> mctp_ext_params \<Rightarrow> bytes \<Rightarrow> u16 \<Rightarrow> pldm_msg" where
  "bridge_msg hdr ext bs len = \<lparr>pm_hdr = hdr, pm_buf = memcpy_at 0 bs (zeros PLDM_MAX_DATA_SIZE), pm_len = len,
     pm_ext_params = ext, pm_recv_resp_cb_fn = None, pm_recv_resp_cb_args = 0, pm_timeout_ms = 0, pm_timeout_cb_fn = None,
     pm_timeout_cb_fn_args = 0\<rparr>"

text \<open>
  \<open>cnt\<close> and \<open>get\<close> give the ports of the platform. The result is \<open>Inl\<close> for a copy that leaves the message buffer; a call
  that waits for ever is \<open>None\<close>.
\<close>

definition pldm_send_ipmi_response ::
  "u8 \<Rightarrow> (nat \<Rightarrow> mctp_port option) \<Rightarrow> 'w mctp_send_fn \<Rightarrow> u8 \<Rightarrow> ipmi_msg \<Rightarrow> pldm_state \<Rightarrow> 'w
   \<Rightarrow> (unit + pldm_state \<times> 'w \<times> int) option" where
  "pldm_send_ipmi_response cnt get send interface m st w =
     (case pal_find_mctp_port_by_channel_target cnt get interface of
        None \<Rightarrow> Some (Inr (st, w, -1))
      | Some p \<Rightarrow>
          let target = pal_find_bus_in_mctp_port (Some p) in
          if target < 0 then Some (Inr (st, w, -1))
          else if PLDM_MAX_DATA_SIZE < 7 + unat (im_data_len m) then Some (Inl ())
          else
            (case mctp_pldm_send_msg None 0 send (mp_mctp_inst p)
                    (bridge_msg (bridge_hdr False (ucast (im_pldm_inst_id m))) (bridge_ext (mp_medium_type p) target)
                       (ipmi_cmd_resp m) (7 + im_data_len m)) st w of
               None \<Rightarrow> None
             | Some (st, _, w, _) \<Rightarrow> Some (Inr (st, w, 0))))"

definition ipmi_cmd_req :: "ipmi_msg \<Rightarrow> bytes" where
  "ipmi_cmd_req m = set_iana @ [push_bit 2 (im_netfn m), im_cmd m] @ take (unat (im_data_len m)) (im_data m)"

text \<open>
  The response is read with the layout \<^verbatim>\<open>struct _pldm_ipmi_cmd_resp\<close>; its length is kept in a byte.
\<close>

definition bridge_response :: "bytes \<Rightarrow> u8 \<Rightarrow> ipmi_msg \<Rightarrow> ipmi_msg" where
  "bridge_response rbuf res_len m =
     (let m = m\<lparr>im_completion_code := (if nth0 rbuf 0 \<noteq> MCTP_SUCCESS then CC_UNSPECIFIED_ERROR else nth0 rbuf 3),
                im_netfn := drop_bit 2 (nth0 rbuf 1), im_cmd := nth0 rbuf 2\<rparr> in
      if res_len > 4
      then m\<lparr>im_data_len := ucast res_len - 4,
             im_data := memcpy_at 0 (slice 4 (unat res_len - 4) rbuf) (im_data m)\<rparr>
      else m\<lparr>im_data_len := 0\<rparr>)"

definition pldm_send_ipmi_request ::
  "u8 \<Rightarrow> (nat \<Rightarrow> mctp_port option) \<Rightarrow> (nat \<Rightarrow> mctp) \<Rightarrow> (nat \<times> nat) option \<Rightarrow> (nat \<Rightarrow> nat option \<times> int)
   \<Rightarrow> 'w mctp_send_fn \<Rightarrow> pldm_input list \<Rightarrow> ipmi_msg \<Rightarrow> pldm_state \<Rightarrow> 'w
   \<Rightarrow> (unit + pldm_state \<times> 'w \<times> ipmi_msg \<times> int) option" where
  "pldm_send_ipmi_request cnt get insts alloc env send inps m st w =
     (case pal_find_mctp_port_by_channel_target cnt get (im_InF_target m) of
        None \<Rightarrow> Some (Inr (st, w, m, -1))
      | Some p \<Rightarrow>
          let target = pal_find_bus_in_mctp_port (Some p) in
          if target < 0 then Some (Inr (st, w, m, -1))
          else if PLDM_MAX_DATA_SIZE < 5 + unat (im_data_len m) then Some (Inl ())
          else
            (case mctp_pldm_read alloc env send (mp_mctp_inst p)
                    (bridge_msg (bridge_hdr True 0) (bridge_ext (mi_medium_type (insts (mp_mctp_inst p))) target)
                       (ipmi_cmd_req m) (5 + im_data_len m)) inps st w (zeros PLDM_MAX_DATA_SIZE) 512 of
               None \<Rightarrow> None
             | Some (st, w, rbuf, len) \<Rightarrow>
                 let res_len = ucast len :: u8 in
                 if res_len = 0 then Some (Inr (st, w, m, 0))
                 else Some (Inr (st, w, bridge_response rbuf res_len m, 0))))"

subsection \<open>Reference definitions and examples\<close>

text \<open>
  What is relied on of the memory representation of the parameters: it has a fixed size and can be read
  back. What a handler of IPMI commands has to leave alone: the source and the end of the data; and what fits
  a PLDM response.
\<close>

definition rep_ok :: "ipmi_env \<Rightarrow> bool" where
  "rep_ok env = (ie_ext_size env \<le> 64 \<and> (\<forall>x. length (ie_ext_bytes env x) = ie_ext_size env \<and> ie_ext_of env (ie_ext_bytes env x) = x))"

definition keeps_route :: "ipmi_env \<Rightarrow> ipmi_msg \<Rightarrow> ipmi_msg \<Rightarrow> bool" where
  "keeps_route env m m' = (im_InF_source m' = im_InF_source m \<and> length (im_data m') = length (im_data m)
     \<and> drop (mctp_inst_ofs env) (im_data m') = drop (mctp_inst_ofs env) (im_data m)
     \<and> unat (im_data_len m') + 3 \<le> min (mctp_inst_ofs env) 505)"

definition demo_ipmi_env :: ipmi_env where
  "demo_ipmi_env = \<lparr>ie_usb_enabled = False, ie_kcs_enabled = False, ie_ssif_enabled = False, ie_ipmb_enabled = True,
     ie_kcs_malloc = (True, True), ie_not_return = pal_is_not_return_cmd, ie_inf_index_map = [],
     ie_ext_bytes = (\<lambda>x. [xp_tag_owner x, xp_msg_tag x, xp_ep x, medium_type_val (xp_type x), xp_addr x]),
     ie_ext_of = (\<lambda>b. \<lparr>xp_tag_owner = b ! 0, xp_msg_tag = b ! 1, xp_ep = b ! 2,
       xp_type = (if b ! 3 = 0 then MCTP_MEDIUM_TYPE_UNKNOWN else if b ! 3 = 1 then MCTP_MEDIUM_TYPE_SMBUS
         else if b ! 3 = 2 then MCTP_MEDIUM_TYPE_CONTROLLER_I3C else if b ! 3 = 3 then MCTP_MEDIUM_TYPE_TARGET_I3C
         else if b ! 3 = 4 then MCTP_MEDIUM_TYPE_USB else MCTP_MEDIUM_TYPE_MAX), xp_addr = b ! 4\<rparr>),
     ie_ext_size = 5\<rparr>"

definition bridge_request :: "pldm_hdr \<Rightarrow> u8 \<Rightarrow> u8 \<Rightarrow> bytes \<Rightarrow> bytes" where
  "bridge_request hdr nl cmd d = pldm_hdr_bytes hdr @ set_iana @ [nl, cmd] @ d"

abbreviation oem_tbl :: "ipmi_env \<Rightarrow> (nat \<Rightarrow> bool) \<Rightarrow> nat \<Rightarrow> pldm_hdr \<Rightarrow> 'd rtc_driver \<Rightarrow> 'd oem_state pldm_cmd_proc_fn option
   \<Rightarrow> (u8 \<times> 'd oem_state handler_query) list" where
  "oem_tbl env lock inst hdr dev spd \<equiv> [(ucast PLDM_TYPE_OEM, pldm_oem_handler_query env lock inst (hdr\<lparr>ph_rq := False\<rparr>) dev spd)]"

text \<open>An application that answers every command with success and the data it was given, and a driver without clock.\<close>

definition demo_cmds :: "unit ipmi_cmds" where
  "demo_cmds = (let f = (\<lambda>s m. (s, m\<lparr>im_completion_code := CC_SUCCESS\<rparr>)) in
     \<lparr>ih_chassis = f, ih_sensor = f, ih_app = f, ih_storage = f, ih_oem = f, ih_oem_1s = f\<rparr>)"

definition no_rtc :: "unit rtc_driver" where
  "no_rtc = \<lparr>rd_ready = False, rd_get_time = (\<lambda>d. (-1, undefined)), rd_set_time = (\<lambda>d t. (d, -1))\<rparr>"

definition oem_init :: "unit oem_state" where
  "oem_init = \<lparr>os_queue = [], os_fault = False, os_rtc = ()\<rparr>"

definition demo_bridge_hdr :: pldm_hdr where
  "demo_bridge_hdr = bridge_hdr True 5"

definition echo_request :: "pldm_hdr \<Rightarrow> bytes \<Rightarrow> bytes" where
  "echo_request hdr d = pldm_hdr_bytes hdr @ set_iana @ d"

section \<open>Properties\<close>

lemma demo_rep_ok: "rep_ok demo_ipmi_env"
proof -
  have "ie_ext_of demo_ipmi_env (ie_ext_bytes demo_ipmi_env x) = x" for x
    by (cases x; cases "xp_type x") (simp_all add: demo_ipmi_env_def)
  then show ?thesis by (simp add: rep_ok_def demo_ipmi_env_def)
qed

lemma length_set_iana [simp]: "length set_iana = 3"
  by (simp add: set_iana_def iana_bytes_def)

lemma check_set_iana: "check_iana (set_iana @ bs) = PLDM_SUCCESS"
  by (simp add: check_iana_def set_iana_def iana_bytes_def IANA_LEN_def nth0_def IANA_ID_def upt_rec)

lemma ofs_values: "rep_ok env \<Longrightarrow> mctp_ext_params_ofs env = mctp_inst_ofs env + 4"
  "rep_ok env \<Longrightarrow> pldm_hdr_ofs = mctp_inst_ofs env + 4 + ie_ext_size env"
  "rep_ok env \<Longrightarrow> mctp_inst_ofs env \<le> 519"
  by (auto simp: rep_ok_def mctp_inst_ofs_def mctp_ext_params_ofs_def pldm_hdr_ofs_def Ipmb.IPMI_MSG_MAX_LENGTH_def)

text \<open>Three copies behind one another at the end of a buffer\<close>

lemma drop_three_copies:
  assumes "n = length xs" and "k = a + length ps" and "j = k + length qs" and "n = j + length rs"
  shows "memcpy_at j rs (memcpy_at k qs (memcpy_at a ps xs)) = take a xs @ ps @ qs @ rs"
  using assms by (simp add: memcpy_at_def)

lemma request_data:
  assumes "rep_ok env" and "length ps \<le> mctp_inst_ofs env"
  defines "xs \<equiv> memcpy_at 0 ps (zeros Ipmb.IPMI_MSG_MAX_LENGTH)"
  shows "memcpy_at pldm_hdr_ofs (pldm_hdr_bytes hdr) (memcpy_at (mctp_ext_params_ofs env) (ie_ext_bytes env ext)
      (memcpy_at (mctp_inst_ofs env) (le32 v) xs))
    = take (mctp_inst_ofs env) xs @ le32 v @ ie_ext_bytes env ext @ pldm_hdr_bytes hdr"
proof (rule drop_three_copies [where n = 527])
  have "length ps \<le> 527" using assms(2) ofs_values(3) [OF assms(1)] by simp
  then show "527 = length xs" by (simp add: xs_def Ipmb.IPMI_MSG_MAX_LENGTH_def)
  show "527 = pldm_hdr_ofs + length (pldm_hdr_bytes hdr)" by (simp add: pldm_hdr_ofs_def Ipmb.IPMI_MSG_MAX_LENGTH_def)
  show "mctp_ext_params_ofs env = mctp_inst_ofs env + length (le32 v)" by (simp add: ofs_values(1) [OF assms(1)])
  show "pldm_hdr_ofs = mctp_ext_params_ofs env + length (ie_ext_bytes env ext)"
    using assms(1) ofs_values(1,2) [OF assms(1)] by (simp add: rep_ok_def)
qed

lemma ipmi_request_fields:
  fixes inst :: nat and hdr :: pldm_hdr and ext :: mctp_ext_params and i nl cmd :: u8
  assumes "rep_ok env" and "length d \<le> mctp_inst_ofs env"
  defines "m \<equiv> ipmi_request env inst hdr ext i (set_iana @ [nl, cmd] @ d) (of_nat (5 + length d))"
  shows "im_netfn m = drop_bit 2 nl" "im_cmd m = cmd" "unat (im_data_len m) = length d" "im_InF_source m = PLDM"
    "take (length d) (im_data m) = d" "length (im_data m) = 527"
    "drop (mctp_inst_ofs env) (im_data m) = le32 (of_nat inst) @ ie_ext_bytes env ext @ pldm_hdr_bytes hdr"
proof -
  have l: "length d \<le> 519" using assms(2) ofs_values(3) [OF assms(1)] by simp
  have u: "unat (of_nat (5 + length d) :: u16) = 5 + length d" using l by (intro unat_of_nat_lt) simp
  let ?xs = "memcpy_at 0 d (zeros Ipmb.IPMI_MSG_MAX_LENGTH)"
  have n: "nth0 (set_iana @ [nl, cmd] @ d) 3 = nl" "nth0 (set_iana @ [nl, cmd] @ d) 4 = cmd"
    by (simp_all add: nth0_append nth0_def nth_append)
  have len: "length ?xs = 527" using l by (simp add: Ipmb.IPMI_MSG_MAX_LENGTH_def)
  have data: "im_data m = take (mctp_inst_ofs env) ?xs @ le32 (of_nat inst) @ ie_ext_bytes env ext @ pldm_hdr_bytes hdr"
    unfolding m_def ipmi_request_def Let_def u using request_data [OF assms(1,2)] by (simp add: ipmi_zero_def)
  show "im_netfn m = drop_bit 2 nl" "im_cmd m = cmd" "im_InF_source m = PLDM"
    by (simp_all add: m_def ipmi_request_def Let_def n [simplified] ipmi_zero_def)
  have "im_data_len m = of_nat (length d)" by (simp add: m_def ipmi_request_def Let_def ipmi_zero_def)
  then show "unat (im_data_len m) = length d" using l by (simp add: unat_of_nat_lt)
  have t: "take (length d) ?xs = d" by (simp add: memcpy_at_def)
  have "length (take (mctp_inst_ofs env) ?xs) = mctp_inst_ofs env" using len ofs_values(3) [OF assms(1)] by simp
  then show "drop (mctp_inst_ofs env) (im_data m) = le32 (of_nat inst) @ ie_ext_bytes env ext @ pldm_hdr_bytes hdr"
    and "take (length d) (im_data m) = d"
    using assms(2) t by (simp_all add: data min_def)
  show "length (im_data m) = 527"
    using len assms(1) ofs_values [OF assms(1)] by (simp add: data rep_ok_def pldm_hdr_ofs_def Ipmb.IPMI_MSG_MAX_LENGTH_def)
qed

lemma get32_drop: "k \<le> length bs \<Longrightarrow> get32 bs k = get32 (drop k bs) 0"
  using get32_shift [of "take k bs" "drop k bs" 0] by simp

lemma send_msg_by_pldm_route:
  assumes "rep_ok env" and "inst < 2 ^ 32" and "mctp_inst_ofs env \<le> length (im_data m)"
    and "drop (mctp_inst_ofs env) (im_data m) = le32 (of_nat inst) @ ie_ext_bytes env ext @ pldm_hdr_bytes hdr"
    and "unat (im_data_len m) \<le> 505"
  shows "\<exists>p. send_msg_by_pldm env m = Some (inst, p) \<and> pm_ext_params p = ext \<and> pm_hdr p = hdr\<lparr>ph_rq := False\<rparr>
    \<and> (unat (im_data_len m) \<le> length (im_data m) \<longrightarrow> send_bytes p = pldm_hdr_bytes (hdr\<lparr>ph_rq := False\<rparr>) @ ipmi_cmd_resp m)"
proof -
  let ?o = "mctp_inst_ofs env"
  have i: "unat (get32 (im_data m) ?o) = inst"
    using assms(2) by (simp add: get32_drop [OF assms(3)] assms(4) unat_of_nat_lt)
  have "slice (mctp_ext_params_ofs env) (ie_ext_size env) (im_data m) = take (ie_ext_size env) (drop 4 (drop ?o (im_data m)))"
    by (simp add: slice_def ofs_values(1) [OF assms(1)] add.commute)
  then have e: "ie_ext_of env (slice (mctp_ext_params_ofs env) (ie_ext_size env) (im_data m)) = ext"
    using assms(1) unfolding assms(4) by (simp add: rep_ok_def)
  have "drop pldm_hdr_ofs (im_data m) = drop (4 + ie_ext_size env) (drop ?o (im_data m))"
    by (simp add: ofs_values(2) [OF assms(1)] ac_simps)
  then have "drop pldm_hdr_ofs (im_data m) = pldm_hdr_bytes hdr @ []"
    using assms(1) unfolding assms(4) by (simp add: rep_ok_def)
  then have h: "pldm_hdr_of (drop pldm_hdr_ofs (im_data m)) = hdr" using pldm_hdr_of_bytes by metis
  have n: "unat (7 + im_data_len m) = 7 + unat (im_data_len m)" using assms(5) by (subst unat_plus_no_wrap) simp_all
  have b: "take (7 + unat (im_data_len m)) (memcpy_at 0 (ipmi_cmd_resp m) (zeros PLDM_MAX_DATA_SIZE)) = ipmi_cmd_resp m"
    if "unat (im_data_len m) \<le> length (im_data m)"
  proof -
    have "length (ipmi_cmd_resp m) = 7 + unat (im_data_len m)" using that by (simp add: ipmi_cmd_resp_def)
    then show ?thesis by (simp add: memcpy_at_def)
  qed
  show ?thesis using assms(5) i e h b
    by (simp add: send_msg_by_pldm_def pldm_consts send_bytes_def n)
qed

lemma oem_query:
  "pldm_oem_handler_query env lock inst hdr dev spd 0 = Some cmd_echo"
  "pldm_oem_handler_query env lock inst hdr dev spd 1 = Some (ipmi_cmd env lock inst hdr)"
  by (simp_all add: pldm_oem_handler_query_def pldm_oem_cmd_tbl_def pldm_oem_consts pldm_consts)

lemma oem_run_handler:
  assumes "ph_pldm_type (pldm_hdr_of buf) = PLDM_TYPE_OEM"
  shows "run_handler (oem_tbl env lock inst hdr dev spd) s buf ext =
    (case pldm_oem_handler_query env lock inst (hdr\<lparr>ph_rq := False\<rparr>) dev spd (ph_cmd (pldm_hdr_of buf)) of
       None \<Rightarrow> (s, \<lparr>pr_resp = [PLDM_ERROR_UNSUPPORTED_PLDM_CMD], pr_resp_len = 1, pr_rc = PLDM_ERROR\<rparr>)
     | Some fn \<Rightarrow> fn s (drop 4 buf) (of_nat (length buf) - 4) (ucast (ph_inst_id (pldm_hdr_of buf))) ext)"
  using assms by (simp add: run_handler_def Let_def)

text \<open>The request reaches the queue of the IPMI task.\<close>

lemma bridge_request_queued:
  fixes inst :: nat and ext :: mctp_ext_params and cmd :: u8
  assumes rep: "rep_ok env" and hdr: "ph_rq hdr" "ph_pldm_type hdr = PLDM_TYPE_OEM" "ph_cmd hdr = PLDM_OEM_IPMI_BRIDGE"
    and d: "length d \<le> mctp_inst_ofs env" and even: "drop_bit 2 nl AND 1 = 0" and room: "length (os_queue s) < IPMI_BUF_LEN"
  defines "c \<equiv> \<lparr>mc_buffer = ipmi_request env inst (hdr\<lparr>ph_rq := False\<rparr>) ext (ucast (ph_inst_id hdr)) (set_iana @ [nl, cmd] @ d)
      (of_nat (5 + length d)), mc_retries = 0\<rparr>"
  shows "mctp_pldm_cmd_handler (oem_tbl env lock inst hdr dev spd) send inst (bridge_request hdr nl cmd d) ext st s w
    = Some (st, s\<lparr>os_queue := os_queue s @ [c]\<rparr>, w, [], PLDM_SUCCESS)"
proof -
  let ?buf = "bridge_request hdr nl cmd d" and ?dat = "set_iana @ [nl, cmd] @ d"
  have l: "length d \<le> 519" using d ofs_values(3) [OF rep] by simp
  have h: "pldm_hdr_of ?buf = hdr" by (simp add: bridge_request_def)
  have b: "length ?buf = 9 + length d" "drop 4 ?buf = ?dat" by (simp_all add: bridge_request_def)
  have len: "of_nat (length ?buf) - 4 = (of_nat (5 + length d) :: u16)" unfolding b(1) by simp
  have u: "unat (of_nat (5 + length d) :: u16) = 5 + length d" using l by (intro unat_of_nat_lt) simp
  have r: "\<not> IS_RESPONSE (mc_buffer c)"
    using ipmi_request_fields(1) [OF rep d, of inst "hdr\<lparr>ph_rq := False\<rparr>" ext "ucast (ph_inst_id hdr)" nl cmd] even
    by (simp add: IS_RESPONSE_def c_def)
  have len5: "\<not> (of_nat (5 + length d) :: u16) < 5" using u by (simp add: word_less_nat_alt)
  have chk: "check_iana ?dat \<noteq> PLDM_ERROR" by (simp add: check_set_iana pldm_consts)
  have fit: "\<not> Ipmb.IPMI_MSG_MAX_LENGTH < unat (of_nat (5 + length d) :: u16) - 5" using l u by (simp add: Ipmb.IPMI_MSG_MAX_LENGTH_def)
  have "ipmi_cmd env lock inst (hdr\<lparr>ph_rq := False\<rparr>) s ?dat (of_nat (5 + length d)) (ucast (ph_inst_id hdr)) ext
      = (s\<lparr>os_queue := os_queue s @ [c]\<rparr>, pldm_reply [] 1 PLDM_LATER_RESP)"
    unfolding ipmi_cmd_def Let_def if_not_P [OF len5] if_not_P [OF chk] if_not_P [OF fit] c_def [symmetric]
    using r room by (simp add: notify_ipmi_client_def)
  then have "run_handler (oem_tbl env lock inst hdr dev spd) s ?buf ext = (s\<lparr>os_queue := os_queue s @ [c]\<rparr>, pldm_reply [] 1 PLDM_LATER_RESP)"
    unfolding oem_run_handler [of ?buf, unfolded h, OF hdr(2)] h hdr(3) len b(2)
    by (simp add: oem_query PLDM_OEM_IPMI_BRIDGE_def)
  moreover have "?buf \<noteq> []" "\<not> length ?buf < 4" using b(1) by auto
  ultimately show ?thesis using hdr(1) by (simp add: mctp_pldm_cmd_handler_def h)
qed

text \<open>The response goes back to the instance and the parameters of the request.\<close>

lemma finish_keeps_route:
  assumes "keeps_route env m m'" and "rep_ok env" and "length (im_data m) = 527"
  shows "\<exists>m2. ipmi_finish iana m' = Some m2 \<and> im_InF_source m2 = im_InF_source m \<and> length (im_data m2) = 527
    \<and> drop (mctp_inst_ofs env) (im_data m2) = drop (mctp_inst_ofs env) (im_data m) \<and> unat (im_data_len m2) \<le> 505"
proof -
  note k = assms(1) [unfolded keeps_route_def]
  have o: "mctp_inst_ofs env \<le> 519" by (rule ofs_values(3) [OF assms(2)])
  consider (cc) "im_completion_code m' \<noteq> CC_SUCCESS" | (oem) "im_completion_code m' = CC_SUCCESS" "im_netfn m' = NETFN_OEM_1S_REQ"
    | (plain) "im_completion_code m' = CC_SUCCESS" "im_netfn m' \<noteq> NETFN_OEM_1S_REQ" by blast
  then show ?thesis
  proof cases
    case cc
    then show ?thesis using k assms(3) by (simp add: ipmi_finish_def)
  next
    case plain
    then show ?thesis using k assms(3) by (simp add: ipmi_finish_def)
  next
    case oem
    let ?src = "iana_bytes iana @ take (unat (im_data_len m')) (im_data m')"
    have l: "length ?src = 3 + unat (im_data_len m')" using k o assms(3) by (simp add: iana_bytes_def)
    have u: "unat (im_data_len m' + 3) = unat (im_data_len m') + 3"
      using k o by (subst unat_plus_no_wrap) simp_all
    have "\<not> Ipmb.IPMI_MSG_MAX_LENGTH < unat (im_data_len m') + 3" using k o by (simp add: Ipmb.IPMI_MSG_MAX_LENGTH_def)
    then have "ipmi_finish iana m' = Some (m'\<lparr>im_data := memcpy_at 0 ?src (im_data m'), im_data_len := im_data_len m' + 3\<rparr>)"
      using oem by (simp add: ipmi_finish_def)
    moreover have "length (memcpy_at 0 ?src (im_data m')) = 527" using k o assms(3) l by (subst length_memcpy_at) simp_all
    moreover have "drop (mctp_inst_ofs env) (memcpy_at 0 ?src (im_data m')) = drop (mctp_inst_ofs env) (im_data m)"
      using k l by (subst drop_memcpy_at_after) simp_all
    ultimately show ?thesis using k u by simp
  qed
qed

text \<open>
  (C28) An IPMI request inside a PLDM message is answered where it came from: the request is put into the
  queue of the IPMI task with its network function, command and data, nothing is sent yet; when the task
  has handled it, and the handler has left the end of the data alone, the response is passed to the
  MCTP instance and the transport parameters of the request, under its PLDM header with the request bit cleared,
  with the vendor id, the command, the completion code and the data of the handled message.
\<close>

theorem pldm_ipmi_bridge_answered:
  fixes s :: "'d oem_state" and hs :: 'h
  assumes "rep_ok env" and "inst < 2 ^ 32" and "ph_rq hdr" and "ph_pldm_type hdr = PLDM_TYPE_OEM"
    and "ph_cmd hdr = PLDM_OEM_IPMI_BRIDGE" and "length d \<le> mctp_inst_ofs env" and "drop_bit 2 nl AND 1 = 0"
    and "length (os_queue s) < IPMI_BUF_LEN"
  shows "\<exists>c. mctp_pldm_cmd_handler (oem_tbl env lock inst hdr dev spd) send inst (bridge_request hdr nl cmd d) ext st s w
      = Some (st, s\<lparr>os_queue := os_queue s @ [c]\<rparr>, w, [], PLDM_SUCCESS)
    \<and> im_netfn (mc_buffer c) = drop_bit 2 nl \<and> im_cmd (mc_buffer c) = cmd
    \<and> unat (im_data_len (mc_buffer c)) = length d \<and> take (length d) (im_data (mc_buffer c)) = d
    \<and> (\<forall>h (hs :: 'h) hs' m iana. ipmi_dispatch env h hs (mc_buffer c) = Some (hs', m, iana)
          \<and> keeps_route env (mc_buffer c) m \<and> \<not> ie_not_return env (im_netfn m) (im_cmd m) \<longrightarrow>
        (\<exists>m2 p. ipmi_finish iana m = Some m2 \<and> ipmi_cmd_handle env h hs c = Some (hs', Out_pldm inst p)
          \<and> pm_ext_params p = ext \<and> send_bytes p = pldm_hdr_bytes (hdr\<lparr>ph_rq := False\<rparr>) @ ipmi_cmd_resp m2))"
proof -
  define hd0 where "hd0 = hdr\<lparr>ph_rq := False\<rparr>"
  define c where "c = \<lparr>mc_buffer = ipmi_request env inst hd0 ext (ucast (ph_inst_id hdr)) (set_iana @ [nl, cmd] @ d)
      (of_nat (5 + length d)), mc_retries = 0\<rparr>"
  note f = ipmi_request_fields [OF assms(1,6), of inst hd0 ext "ucast (ph_inst_id hdr)" nl cmd]
  have fc: "mc_buffer c = ipmi_request env inst hd0 ext (ucast (ph_inst_id hdr)) (set_iana @ [nl, cmd] @ d) (of_nat (5 + length d))"
    by (simp add: c_def)
  have q: "mctp_pldm_cmd_handler (oem_tbl env lock inst hdr dev spd) send inst (bridge_request hdr nl cmd d) ext st s w
      = Some (st, s\<lparr>os_queue := os_queue s @ [c]\<rparr>, w, [], PLDM_SUCCESS)"
    unfolding c_def hd0_def by (rule bridge_request_queued [OF assms(1,3-8)])
  have "\<exists>m2 p. ipmi_finish iana m = Some m2 \<and> ipmi_cmd_handle env h hs c = Some (hs', Out_pldm inst p)
          \<and> pm_ext_params p = ext \<and> send_bytes p = pldm_hdr_bytes (hdr\<lparr>ph_rq := False\<rparr>) @ ipmi_cmd_resp m2"
    if dsp: "ipmi_dispatch env h hs (mc_buffer c) = Some (hs', m, iana)" and k: "keeps_route env (mc_buffer c) m"
      and nr: "\<not> ie_not_return env (im_netfn m) (im_cmd m)" for h and hs hs' :: 'h and m iana
  proof -
    obtain m2 where m2: "ipmi_finish iana m = Some m2" "im_InF_source m2 = PLDM" "length (im_data m2) = 527"
      "drop (mctp_inst_ofs env) (im_data m2) = le32 (of_nat inst) @ ie_ext_bytes env ext @ pldm_hdr_bytes hd0"
      "unat (im_data_len m2) \<le> 505"
      using finish_keeps_route [OF k assms(1), of iana] f by (auto simp: fc)
    have "mctp_inst_ofs env \<le> length (im_data m2)" using ofs_values(3) [OF assms(1)] m2(3) by simp
    from send_msg_by_pldm_route [OF assms(1,2) this m2(4,5)] obtain p where
      p: "send_msg_by_pldm env m2 = Some (inst, p)" "pm_ext_params p = ext" "send_bytes p = pldm_hdr_bytes (hd0\<lparr>ph_rq := False\<rparr>) @ ipmi_cmd_resp m2"
      using m2(3,5) by auto
    have "ipmi_reply env m2 = Some (Out_pldm inst p)"
      using m2(2) p(1) by (simp add: ipmi_reply_def ipmi_consts ipmb_consts)
    then show ?thesis using dsp nr m2(1) p by (simp add: ipmi_cmd_handle_def hd0_def)
  qed
  then show ?thesis using q f by (intro exI [of _ c]) (simp add: fc)
qed

theorem pldm_ipmi_bridge_answered_witness:
  "\<exists>c p. mctp_pldm_cmd_handler (oem_tbl demo_ipmi_env (\<lambda>_. True) 3 demo_bridge_hdr no_rtc None) good_send 3
        (bridge_request demo_bridge_hdr 0x18 1 [0xAA]) demo_pldm_ext pldm_init oem_init []
      = Some (pldm_init, oem_init\<lparr>os_queue := [c]\<rparr>, [], [], PLDM_SUCCESS)
    \<and> ipmi_cmd_handle demo_ipmi_env demo_cmds () c = Some ((), Out_pldm 3 p) \<and> pm_ext_params p = demo_pldm_ext
    \<and> send_bytes p = [1, 5, 0x3F, 1, 0, 0x15, 0xA0, 0, 0x1C, 1, 0, 0xAA]"
proof -
  have h: "ph_rq demo_bridge_hdr" "ph_pldm_type demo_bridge_hdr = PLDM_TYPE_OEM" "ph_cmd demo_bridge_hdr = PLDM_OEM_IPMI_BRIDGE"
    by (simp_all add: demo_bridge_hdr_def bridge_hdr_def)
  have o: "mctp_inst_ofs demo_ipmi_env = 514"
    by (simp add: mctp_inst_ofs_def mctp_ext_params_ofs_def pldm_hdr_ofs_def demo_ipmi_env_def Ipmb.IPMI_MSG_MAX_LENGTH_def)
  have pre: "(3 :: nat) < 2 ^ 32" "length [0xAA :: u8] \<le> mctp_inst_ofs demo_ipmi_env" "drop_bit 2 (0x18 :: u8) AND 1 = 0"
    "length (os_queue oem_init) < IPMI_BUF_LEN"
    by (simp_all add: o oem_init_def IPMI_BUF_LEN_def)
  from pldm_ipmi_bridge_answered [where 'h = unit and s = oem_init and lock = "\<lambda>_. True" and dev = no_rtc and spd = None and send = good_send
      and cmd = 1 and ext = demo_pldm_ext and st = pldm_init and w = "[]", OF demo_rep_ok pre(1) h pre(2-4)]
  obtain c where q: "mctp_pldm_cmd_handler (oem_tbl demo_ipmi_env (\<lambda>_. True) 3 demo_bridge_hdr no_rtc None) good_send 3
        (bridge_request demo_bridge_hdr 0x18 1 [0xAA]) demo_pldm_ext pldm_init oem_init []
      = Some (pldm_init, oem_init\<lparr>os_queue := os_queue oem_init @ [c]\<rparr>, [], [], PLDM_SUCCESS)"
    and m: "im_netfn (mc_buffer c) = 6" "im_cmd (mc_buffer c) = 1" "unat (im_data_len (mc_buffer c)) = 1"
      "take 1 (im_data (mc_buffer c)) = [0xAA]"
    and r: "\<And>h (hs :: unit) hs' m iana. ipmi_dispatch demo_ipmi_env h hs (mc_buffer c) = Some (hs', m, iana) \<Longrightarrow>
        keeps_route demo_ipmi_env (mc_buffer c) m \<Longrightarrow> \<not> ie_not_return demo_ipmi_env (im_netfn m) (im_cmd m) \<Longrightarrow>
        \<exists>m2 p. ipmi_finish iana m = Some m2 \<and> ipmi_cmd_handle demo_ipmi_env h hs c = Some (hs', Out_pldm 3 p)
          \<and> pm_ext_params p = demo_pldm_ext \<and> send_bytes p = pldm_hdr_bytes (demo_bridge_hdr\<lparr>ph_rq := False\<rparr>) @ ipmi_cmd_resp m2"
    by auto
  let ?m = "(mc_buffer c)\<lparr>im_completion_code := CC_SUCCESS\<rparr>"
  have d: "ipmi_dispatch demo_ipmi_env demo_cmds () (mc_buffer c) = Some ((), ?m, 0)"
    using m(1) by (simp add: ipmi_dispatch_def demo_cmds_def Let_def ipmi_consts)
  have k: "keeps_route demo_ipmi_env (mc_buffer c) ?m" using m(3) o by (simp add: keeps_route_def)
  have nr: "\<not> ie_not_return demo_ipmi_env (im_netfn ?m) (im_cmd ?m)"
    using m(1) by (simp add: demo_ipmi_env_def pal_is_not_return_cmd_def ipmb_consts)
  have fin: "ipmi_finish 0 ?m = Some ?m" using m(1) by (simp add: ipmi_finish_def ipmb_consts)
  have b: "ipmi_cmd_resp ?m = [0, 0x15, 0xA0, 0, 0x1C, 1, 0, 0xAA]"
    using m by (simp add: ipmi_cmd_resp_def set_iana_def iana_bytes_def ipmb_consts pldm_consts)
  have hb: "pldm_hdr_bytes (demo_bridge_hdr\<lparr>ph_rq := False\<rparr>) = [1, 5, 0x3F, 1]"
    by (simp add: pldm_hdr_bytes_def demo_bridge_hdr_def bridge_hdr_def flag_def pldm_consts pldm_oem_consts)
  from r [OF d k nr] fin b hb obtain p where "ipmi_cmd_handle demo_ipmi_env demo_cmds () c = Some ((), Out_pldm 3 p)"
    "pm_ext_params p = demo_pldm_ext" "send_bytes p = [1, 5, 0x3F, 1, 0, 0x15, 0xA0, 0, 0x1C, 1, 0, 0xAA]" by auto
  then show ?thesis using q by (intro exI [of _ c] exI [of _ p]) (simp add: oem_init_def)
qed

lemma echo_result:
  assumes "unat len = 3 + length d" and "length d \<le> 504"
  shows "cmd_echo s (set_iana @ d) len i ext = (s, pldm_reply ([PLDM_SUCCESS] @ set_iana @ d @ [0, 0, 0]) (len + 1) PLDM_SUCCESS)"
proof -
  have "take (3 + length d) (d @ zeros (3 + length d)) = d @ [0, 0, 0]"
    by (simp add: zeros_def replicate_add numeral_3_eq_3)
  then show ?thesis using assms
    by (simp add: cmd_echo_def check_set_iana pldm_consts)
qed

text \<open>
  Echo: a request with the vendor id is answered with the same data, when there are at most 501 bytes of
  it. With 502 to 504 bytes, which the length check of the handler lets pass, the copy runs over the end
  of the response buffer.
\<close>

theorem pldm_echo_data:
  assumes "ph_rq hdr" and "ph_pldm_type hdr = PLDM_TYPE_OEM" and "ph_cmd hdr = PLDM_OEM_CMD_ECHO" and "length d \<le> 504"
  shows "mctp_pldm_cmd_handler (oem_tbl env lock inst hdr dev spd) send inst (echo_request hdr d) ext st s w
    = (if length d \<le> 501
       then let bs = pldm_hdr_bytes (hdr\<lparr>ph_rq := False\<rparr>) @ [PLDM_SUCCESS] @ set_iana @ d in
         Some (st, s, fst (send w bs ext), [], snd (send w bs ext))
       else None)"
proof -
  let ?buf = "echo_request hdr d"
  let ?len = "of_nat (length ?buf) - 4 :: u16"
  have h: "pldm_hdr_of ?buf = hdr" and l: "length ?buf = 7 + length d" and b: "drop 4 ?buf = set_iana @ d"
    by (simp_all add: echo_request_def)
  have "?len = of_nat (3 + length d)" by (simp add: l)
  then have u: "unat ?len = 3 + length d" using assms(4) by (simp only: unat_of_nat_lt) (subst unat_of_nat_lt, simp_all)
  define n1 where "n1 = ?len + 1"
  have u1: "unat n1 = 4 + length d" unfolding n1_def using u assms(4) by (subst unat_plus_no_wrap) simp_all
  have r: "run_handler (oem_tbl env lock inst hdr dev spd) s ?buf ext
      = (s, pldm_reply ([PLDM_SUCCESS] @ set_iana @ d @ [0, 0, 0]) n1 PLDM_SUCCESS)"
    using oem_run_handler [of ?buf env lock inst hdr dev spd s ext, unfolded h b, OF assms(2)] assms(3)
    by (simp add: oem_query PLDM_OEM_CMD_ECHO_def echo_result [OF u assms(4)] n1_def)
  have ne: "?buf \<noteq> []" "\<not> length ?buf < 4" using l by auto
  have t: "take (4 + length d) ([PLDM_SUCCESS] @ set_iana @ d @ [0, 0, 0]) = [PLDM_SUCCESS] @ set_iana @ d"
    using take_append [of "4 + length d" "[PLDM_SUCCESS] @ set_iana @ d" "[0, 0, 0]"] by simp
  show ?thesis
    using ne assms(1) t unfolding mctp_pldm_cmd_handler_def r Let_def
    by (simp add: h u1 pldm_consts case_prod_beta zeros_def)
qed

theorem pldm_echo_data_witness:
  "mctp_pldm_cmd_handler (oem_tbl demo_ipmi_env (\<lambda>_. True) 3 (demo_bridge_hdr\<lparr>ph_cmd := 0\<rparr>) no_rtc None) good_send 3
      (echo_request (demo_bridge_hdr\<lparr>ph_cmd := 0\<rparr>) [7, 8]) demo_pldm_ext pldm_init oem_init []
    = Some (pldm_init, oem_init, [[1, 5, 0x3F, 0, 0, 0x15, 0xA0, 0, 7, 8]], [], MCTP_SUCCESS)
   \<and> mctp_pldm_cmd_handler (oem_tbl demo_ipmi_env (\<lambda>_. True) 3 (demo_bridge_hdr\<lparr>ph_cmd := 0\<rparr>) no_rtc None) good_send 3
      (echo_request (demo_bridge_hdr\<lparr>ph_cmd := 0\<rparr>) (zeros 502)) demo_pldm_ext pldm_init oem_init [] = None"
proof -
  let ?h = "demo_bridge_hdr\<lparr>ph_cmd := 0\<rparr>"
  have h: "ph_rq ?h" "ph_pldm_type ?h = PLDM_TYPE_OEM" "ph_cmd ?h = PLDM_OEM_CMD_ECHO"
    by (simp_all add: demo_bridge_hdr_def bridge_hdr_def PLDM_OEM_CMD_ECHO_def)
  have "pldm_hdr_bytes (?h\<lparr>ph_rq := False\<rparr>) = [1, 5, 0x3F, 0]"
    by (simp add: pldm_hdr_bytes_def demo_bridge_hdr_def bridge_hdr_def flag_def pldm_consts pldm_oem_consts)
  then show ?thesis
    using pldm_echo_data [OF h, of "[7, 8]" demo_ipmi_env "\<lambda>_. True" 3 no_rtc None good_send demo_pldm_ext pldm_init oem_init "[]"]
      pldm_echo_data [OF h, of "zeros 502" demo_ipmi_env "\<lambda>_. True" 3 no_rtc None good_send demo_pldm_ext pldm_init oem_init "[]"]
    by (simp add: Let_def good_send_def set_iana_def iana_bytes_def ipmb_consts pldm_consts)
qed

text \<open>
  A response that the firmware makes with the vendor id (\<^verbatim>\<open>pldm_send_ipmi_response\<close> and the IPMI task alike) is not
  what its own request function reads: the completion code it takes is the last byte of the vendor id,
  always success, network function and command are the first two bytes of the id, and the data begin with the
  real network function, command and completion code.
\<close>

theorem pldm_bridge_reads_iana:
  assumes "unat (im_data_len m) \<le> length (im_data m)" and "unat (im_data_len m) \<le> 248" and "255 \<le> length (im_data r)"
  shows "\<exists>r'. bridge_response (memcpy_at 0 (ipmi_cmd_resp m) (zeros PLDM_MAX_DATA_SIZE)) (of_nat (length (ipmi_cmd_resp m))) r = r'
    \<and> im_completion_code r' = CC_SUCCESS \<and> im_netfn r' = 5 \<and> im_cmd r' = 0xA0
    \<and> take (unat (im_data_len r')) (im_data r')
      = [push_bit 2 (im_netfn m OR 1), im_cmd m, im_completion_code m] @ take (unat (im_data_len m)) (im_data m)"
proof -
  let ?src = "ipmi_cmd_resp m" and ?n = "unat (im_data_len m)"
  let ?rbuf = "memcpy_at 0 ?src (zeros PLDM_MAX_DATA_SIZE)"
  let ?tail = "[push_bit 2 (im_netfn m OR 1), im_cmd m, im_completion_code m] @ take ?n (im_data m)"
  have src: "?src = [0, 0x15, 0xA0, 0] @ ?tail"
    by (simp add: ipmi_cmd_resp_def set_iana_def iana_bytes_def ipmb_consts pldm_consts)
  have l: "length ?src = 7 + ?n" using assms(1) by (simp add: ipmi_cmd_resp_def)
  have u: "unat (of_nat (length ?src) :: u8) = 7 + ?n" unfolding l using assms(2) by (intro unat_of_nat_lt) simp
  have nth: "nth0 ?rbuf 0 = 0" "nth0 ?rbuf 1 = 0x15" "nth0 ?rbuf 2 = 0xA0" "nth0 ?rbuf 3 = 0"
    by (simp_all add: nth0_memcpy_at_0 l) (simp_all add: src nth0_def)
  have lt: "length ?tail = 3 + ?n" using assms(1) by simp
  have "drop 4 ?rbuf = ?tail @ drop (7 + ?n) (zeros PLDM_MAX_DATA_SIZE)" unfolding memcpy_at_def l by (simp add: src)
  then have s: "slice 4 (3 + ?n) ?rbuf = ?tail" unfolding slice_def using lt by (simp only: take_append) simp
  have gt: "(of_nat (length ?src) :: u8) > 4" using u by (simp add: word_less_nat_alt)
  have d: "unat (ucast (of_nat (length ?src) :: u8) - 4 :: u16) = 3 + ?n"
  proof -
    have "unat (ucast (of_nat (length ?src) :: u8) :: u16) = 7 + ?n" using u assms(2) by (simp add: unsigned_ucast_eq take_bit_nat_eq_self)
    moreover from this have "(4 :: u16) \<le> ucast (of_nat (length ?src) :: u8)" by (simp add: word_le_nat_alt)
    ultimately show ?thesis by (simp add: unat_sub)
  qed
  have t: "take (3 + ?n) (memcpy_at 0 ?tail (im_data r)) = ?tail"
    unfolding memcpy_at_def using lt by (simp only: take_append) simp
  define r' where "r' = bridge_response ?rbuf (of_nat (length ?src)) r"
  have r': "r' = r\<lparr>im_completion_code := 0, im_netfn := 5, im_cmd := 0xA0,
      im_data_len := ucast (of_nat (length ?src) :: u8) - 4, im_data := memcpy_at 0 ?tail (im_data r)\<rparr>"
    unfolding r'_def bridge_response_def Let_def nth using gt s by (simp add: u mctp_consts)
  show ?thesis unfolding r'_def [symmetric] by (intro exI [of _ r'] conjI) (use t in \<open>simp_all add: r' d CC_SUCCESS_def\<close>)
qed

theorem pldm_bridge_reads_iana_witness:
  "\<exists>r'. bridge_response (memcpy_at 0 (ipmi_cmd_resp (ipmi_zero\<lparr>im_netfn := 6, im_cmd := 1, im_completion_code := 0xC1\<rparr>)) (zeros PLDM_MAX_DATA_SIZE))
      7 ipmi_zero = r'
    \<and> im_completion_code r' = CC_SUCCESS \<and> im_cmd r' = 0xA0 \<and> take (unat (im_data_len r')) (im_data r') = [0x1C, 1, 0xC1]"
proof -
  let ?m = "ipmi_zero\<lparr>im_netfn := 6, im_cmd := 1, im_completion_code := 0xC1\<rparr>"
  have "unat (im_data_len ?m) \<le> length (im_data ?m)" "unat (im_data_len ?m) \<le> 248" "255 \<le> length (im_data ipmi_zero)"
    by (simp_all add: ipmi_zero_def Ipmb.IPMI_MSG_MAX_LENGTH_def)
  moreover have "length (ipmi_cmd_resp ?m) = 7" by (simp add: ipmi_cmd_resp_def ipmi_zero_def)
  ultimately show ?thesis using pldm_bridge_reads_iana [of ?m ipmi_zero] by (simp add: ipmi_zero_def)
qed

text \<open>
  The queue of the IPMI task: a request is appended while there is room. When the queue is full and the mutex
  is obtained in one of three tries, all older requests are dropped and the request is the only one
  left; otherwise it is lost. Success is reported exactly when the request was queued, except that the third try
  reports an error although it queued the request.
\<close>

lemma ipmi_notify_outcome:
  assumes "\<not> IS_RESPONSE (mc_buffer m)" and "length q \<le> IPMI_BUF_LEN"
  shows "notify_ipmi_client lock m q =
    (if length q < IPMI_BUF_LEN then (q @ [m], IPMB_ERROR_SUCCESS)
     else if lock 3 \<or> lock 2 then ([m], IPMB_ERROR_SUCCESS)
     else if lock 1 then ([m], IPMB_ERROR_MUTEX_LOCK)
     else (q, IPMB_ERROR_MUTEX_LOCK))"
proof -
  have "notify_loop lock m 3 q = (if lock 3 then ([m], 2) else if lock 2 then ([m], 1) else if lock 1 then ([m], 0) else (q, 0))"
    if "length q = IPMI_BUF_LEN"
    using that by (simp add: numeral_3_eq_3 IPMI_BUF_LEN_def numeral_2_eq_2)
  then show ?thesis using assms by (auto simp: notify_ipmi_client_def)
qed

end
