(* ===== verification/Ipmb_Frames.thy ===== *)
theory Ipmb_Frames
  imports Ipmb
begin

text \<open>
  Frames of IPMB: a frame is encoded with its two checksums, and what a receiver reads from the bus
  passes both checks and decodes to the same message.
\<close>

section \<open>Reference definitions and examples\<close>

text \<open>Locks and allocations that succeed, and buffers of their size.\<close>

definition env_good :: "ipmb_env \<Rightarrow> bool" where
  "env_good env = (ev_lock_id env \<and> ev_lock_req env \<and> ev_lock_res env \<and> ev_lock_read env \<and> ev_malloc_node env
     \<and> ev_malloc_i2c env \<and> 256 \<le> length (ev_buffer env) \<and> 256 \<le> length (im_data (ev_msg env))
     \<and> 256 \<le> length (i2c_data (ev_i2c_msg env)))"

definition frame :: "ipmi_msg \<Rightarrow> bytes" where
  "frame m = (let b = encode_header m @ take (unat (im_data_len m)) (im_data m)
     in b @ [calculate_checksum b (of_nat (length b))])"

definition msg_ok :: "ipmi_msg \<Rightarrow> bool" where
  "msg_ok m = (im_dest_addr m < 128 \<and> im_netfn m < 64 \<and> im_dest_LUN m < 4 \<and> im_seq m < 64 \<and> im_src_LUN m < 4
     \<and> im_data_len m \<le> 247 \<and> unat (im_data_len m) \<le> length (im_data m))"

text \<open>The bytes of a frame on the bus: the address of the target, shifted, and the bytes behind it.\<close>

definition wire :: "ipmi_msg \<Rightarrow> bytes" where
  "wire m = push_bit 1 (im_dest_addr m) # tl (frame m)"

definition demo_ipmb_env :: ipmb_env where
  "demo_ipmb_env = \<lparr>ev_lock_id = True, ev_lock_req = True, ev_lock_res = True, ev_lock_read = True, ev_malloc_node = True,
     ev_malloc_i2c = True, ev_malloc_kcs = True, ev_malloc_bridge = True, ev_now = 0,
     ev_i2c_msg = \<lparr>i2c_bus = 0, i2c_target_addr = 0, i2c_rx_len = 0, i2c_tx_len = 0, i2c_data = replicate 256 0\<rparr>,
     ev_buffer = replicate 534 0, ev_msg = zero_ipmi_msg, ev_retries = 0, ev_kcs_enabled = False, ev_mpro_enabled = False,
     ev_netfn_shift = False, ev_immediate_respond = (\<lambda>_ _. False), ev_request_to_BIC_from_ME = (\<lambda>_ _. True),
     ev_use_ipmb = (\<lambda>_. True), ev_pldm_send_ipmi_request = id\<rparr>"

definition demo_ipmb_msg :: ipmi_msg where
  "demo_ipmb_msg = zero_ipmi_msg\<lparr>im_dest_addr := 0x20, im_netfn := 6, im_src_addr := 0x40, im_seq := 5, im_cmd := 1,
     im_InF_target := BMC_IPMB, im_data_len := 3\<rparr>"

section \<open>Properties\<close>

subsubsection \<open>Checksums\<close>

lemma fold_minus: "fold (\<lambda>b c. c - b) ys (a :: u8) = a - sum_list ys"
  by (induction ys arbitrary: a) (simp_all add: algebra_simps)

lemma checksum_append:
  assumes "unat r \<le> length xs" and "xs \<noteq> []"
  shows "calculate_checksum (xs @ ys) r = calculate_checksum xs r"
  using assms by (cases xs) (simp_all add: calculate_checksum_def slice_def)

lemma small_bits:
  assumes u: "unat (n :: u8) < 2 ^ k" and "k \<le> i"
  shows "\<not> bit n i"
proof -
  have "unat n div 2 ^ i = 0" using u assms(2) by (meson div_less less_le_trans one_le_numeral power_increasing)
  then have "\<not> bit (unat n) i" by (simp only: bit_iff_odd) simp
  then show ?thesis by (simp add: bit_unsigned_iff)
qed

lemma field_high:
  assumes "(n :: u8) < 64"
  shows "drop_bit 2 ((push_bit 2 n AND 0xFC) OR (l AND 3)) = n"
proof -
  have "\<not> bit n 6" "\<not> bit n 7" using small_bits [of n 6] assms by (simp_all add: word_less_nat_alt)
  then show ?thesis by (intro u8_eqI) (simp_all add: bit_simps)
qed

lemma field_low:
  assumes "(l :: u8) < 4"
  shows "((push_bit 2 n AND 0xFC) OR (l AND 3)) AND 3 = l"
proof -
  have "\<not> bit l i" if "2 \<le> i" for i using small_bits [of l 2 i] assms that by (simp add: word_less_nat_alt)
  then show ?thesis by (intro u8_eqI) (simp_all add: bit_simps)
qed

lemma addr_shift:
  assumes "(a :: u8) < 128"
  shows "drop_bit 1 (push_bit 1 a :: u8) = a"
proof -
  have "\<not> bit a 7" using small_bits [of a 7 7] assms by (simp add: word_less_nat_alt)
  then show ?thesis by (intro u8_eqI) (simp_all add: bit_drop_bit_eq bit_push_bit_iff flip: One_nat_def)
qed


subsubsection \<open>Frames\<close>

lemma length_encode_header [simp]: "length (encode_header m) = (if IS_RESPONSE m then 7 else 6)"
  by (simp add: encode_header_def Let_def)

lemma length_frame:
  "msg_ok m \<Longrightarrow> length (frame m) = (if IS_RESPONSE m then 8 else 7) + unat (im_data_len m)"
  by (simp add: frame_def Let_def msg_ok_def)

lemma msg_ok_len: "msg_ok m \<Longrightarrow> unat (im_data_len m) \<le> 247"
  by (simp add: msg_ok_def word_le_nat_alt)

lemma list_update_memcpy_end:
  "length src < length dst \<Longrightarrow> (memcpy_at 0 src dst)[length src := x] = memcpy_at 0 (src @ [x]) dst"
  by (simp add: memcpy_at_def list_update_append) (metis Cons_nth_drop_Suc list_update_code(2))

lemma ipmb_encode_frame:
  assumes "msg_ok m" and "256 \<le> length buffer"
  shows "ipmb_encode buffer m = memcpy_at 0 (frame m) buffer"
proof -
  let ?b = "encode_header m @ take (unat (im_data_len m)) (im_data m)"
  have l: "length ?b = (if IS_RESPONSE m then 7 else 6) + unat (im_data_len m)" "length ?b < 256"
    using assms(1) msg_ok_len [OF assms(1)] by (auto simp: msg_ok_def)
  have ne: "?b \<noteq> []" by (simp add: encode_header_def Let_def)
  have u: "unat (of_nat (length ?b) :: u8) = length ?b" by (rule unat_of_nat_lt) (use l(2) in simp)
  have "unat (of_nat (length (encode_header m)) + ucast (im_data_len m) :: u8) = length ?b"
  proof -
    have "unat (ucast (im_data_len m) :: u8) = unat (im_data_len m)"
      using msg_ok_len [OF assms(1)] by (simp add: unsigned_ucast_eq take_bit_nat_eq_self)
    then have "(ucast (im_data_len m) :: u8) = of_nat (unat (im_data_len m))" by (metis of_nat_unat ucast_id)
    then have "of_nat (length (encode_header m)) + ucast (im_data_len m) = (of_nat (length ?b) :: u8)"
      using l(1) by simp
    then show ?thesis using u by simp
  qed
  moreover from this have i: "of_nat (length (encode_header m)) + ucast (im_data_len m) = (of_nat (length ?b) :: u8)"
    by (metis of_nat_unat ucast_id)
  moreover have "calculate_checksum (memcpy_at 0 ?b buffer) (of_nat (length ?b)) = calculate_checksum ?b (of_nat (length ?b))"
    unfolding memcpy_at_def take_0 append_Nil by (rule checksum_append) (simp_all only: u ne order.refl not_False_eq_True)
  ultimately show ?thesis
    using assms(2) l(2) unfolding ipmb_encode_def Let_def frame_def
    by (simp only: list_update_memcpy_end order.strict_trans2)
qed

lemma rx_buffer_wire:
  assumes "msg_ok m" and "256 \<le> length (ev_buffer env)"
  shows "rx_buffer env (wire m) = memcpy_at 0 (frame m) (ev_buffer env)"
proof -
  obtain xs where f: "frame m = im_dest_addr m # xs" by (simp add: frame_def encode_header_def Let_def)
  have "im_dest_addr m < 128" using assms(1) by (simp add: msg_ok_def)
  then show ?thesis by (simp add: rx_buffer_def wire_def f memcpy_at_def Let_def addr_shift del: One_nat_def)
qed

lemma length_wire: "length (wire m) = length (frame m)"
  by (simp add: wire_def frame_def encode_header_def Let_def)

lemma frame_checks:
  assumes "msg_ok m"
  shows "validate_checksum (frame m @ rest) (of_nat (length (frame m))) = IPMB_ERROR_SUCCESS"
proof -
  define b where "b = encode_header m @ take (unat (im_data_len m)) (im_data m)"
  have f: "frame m = b @ [calculate_checksum b (of_nat (length b))]" by (simp add: frame_def Let_def b_def)
  have lb: "2 \<le> length b" by (simp add: b_def)
  have l: "length (frame m) < 256" "length (frame m) = length b + 1" "2 \<le> length b"
    using length_frame [OF assms] msg_ok_len [OF assms] lb by (auto simp: f)
  have n: "unat (of_nat (length (frame m)) :: u8) = length (frame m)" "unat (of_nat (length b) :: u8) = length b"
    by (rule unat_of_nat_lt, use l in simp)+
  have n1: "(of_nat (length (frame m)) - 1 :: u8) = of_nat (length b)" unfolding l(2) by simp
  obtain c d xs where h: "encode_header m = [c, d] @ calculate_checksum [c, d] 2 # xs"
    by (simp add: encode_header_def Let_def)
  have "calculate_checksum (frame m @ rest) 2 = calculate_checksum [c, d] 2"
    using checksum_append [of 2 "[c, d]"] by (simp add: f b_def h)
  moreover have "nth0 (frame m @ rest) 2 = calculate_checksum [c, d] 2" by (simp add: f b_def h nth0_def)
  moreover have "calculate_checksum (frame m @ rest) (of_nat (length b)) = calculate_checksum b (of_nat (length b))"
    unfolding f append_assoc by (rule checksum_append) (use n(2) lb in auto)
  moreover have "nth0 (frame m @ rest) (length b) = calculate_checksum b (of_nat (length b))"
    by (simp add: f nth0_def nth_append)
  ultimately show ?thesis using l(2) n n1 by (simp add: validate_checksum_def)
qed

lemma IS_RESPONSE_update [simp]:
  "IS_RESPONSE (m\<lparr>im_completion_code := x\<rparr>) = IS_RESPONSE m"
  by (simp add: IS_RESPONSE_def)

lemma nth0_6:
  "nth0 (a # b # c # d # e # f # bs) 1 = b" "nth0 (a # b # c # d # e # f # bs) 2 = c" "nth0 (a # b # c # d # e # f # bs) 3 = d"
  "nth0 (a # b # c # d # e # f # bs) 4 = e" "nth0 (a # b # c # d # e # f # bs) 5 = f"
  by (simp_all add: nth0_def)

lemma decode_frame:
  fixes rest :: bytes
  assumes "msg_ok m" and "256 \<le> length (im_data junk)"
  defines "r \<equiv> ipmb_decode junk (frame m @ rest) (of_nat (length (frame m)))"
  shows "im_dest_addr r = im_dest_addr m \<and> im_netfn r = im_netfn m \<and> im_dest_LUN r = im_dest_LUN m
    \<and> im_src_addr r = im_src_addr m \<and> im_seq r = im_seq m \<and> im_src_LUN r = im_src_LUN m \<and> im_cmd r = im_cmd m
    \<and> (IS_RESPONSE m \<longrightarrow> im_completion_code r = im_completion_code m)
    \<and> im_data_len r = im_data_len m
    \<and> take (unat (im_data_len r)) (im_data r) = take (unat (im_data_len m)) (im_data m)"
proof -
  define d where "d = take (unat (im_data_len m)) (im_data m)"
  have ld: "length d = unat (im_data_len m)" "length d \<le> 247" using assms(1) msg_ok_len [OF assms(1)] by (auto simp: d_def msg_ok_def)
  define cc where "cc = (if IS_RESPONSE m then [im_completion_code m] else [])"
  obtain hc mc where f: "frame m = [im_dest_addr m, (push_bit 2 (im_netfn m) AND 0xFC) OR (im_dest_LUN m AND 3), hc, im_src_addr m,
      (push_bit 2 (im_seq m) AND 0xFC) OR (im_src_LUN m AND 3), im_cmd m] @ cc @ d @ [mc]"
    by (simp add: frame_def encode_header_def Let_def d_def cc_def)
  have len: "unat (of_nat (length (frame m)) :: u8) = length (frame m)" using ld by (intro unat_of_nat_lt) (simp add: f cc_def)
  have fl: "im_netfn m < 64" "im_dest_LUN m < 4" "im_seq m < 64" "im_src_LUN m < 4" using assms(1) by (simp_all add: msg_ok_def)
  define m0 where "m0 = junk\<lparr>im_dest_addr := im_dest_addr m, im_netfn := im_netfn m, im_dest_LUN := im_dest_LUN m, im_hdr_chksum := hc,
     im_src_addr := im_src_addr m, im_seq := im_seq m, im_src_LUN := im_src_LUN m, im_cmd := im_cmd m\<rparr>"
  have isr: "IS_RESPONSE m0 = IS_RESPONSE m" by (simp add: IS_RESPONSE_def m0_def)
  define k where "k = (if IS_RESPONSE m then 7 else 6 :: nat)"
  have n: "(if k + 1 < length (frame m) then length (frame m) - k - 1 else 0) = length d" by (simp add: f cc_def k_def)
  have sl: "slice k (length d) (frame m @ rest) = d" by (simp add: f cc_def k_def slice_def)
  have r: "r = (if IS_RESPONSE m then m0\<lparr>im_completion_code := nth0 (frame m @ rest) 6\<rparr> else m0)
      \<lparr>im_data_len := of_nat (length d), im_data := memcpy_at 0 d (im_data junk), im_msg_chksum := nth0 (frame m @ rest) (length (frame m) - 1)\<rparr>"
  proof -
    have nths: "nth0 (frame m @ rest) 0 = im_dest_addr m" "nth0 (frame m @ rest) 2 = hc" "nth0 (frame m @ rest) 3 = im_src_addr m"
      "nth0 (frame m @ rest) 5 = im_cmd m" "drop_bit 2 (nth0 (frame m @ rest) 1) = im_netfn m" "nth0 (frame m @ rest) 1 AND 3 = im_dest_LUN m"
      "drop_bit 2 (nth0 (frame m @ rest) 4) = im_seq m" "nth0 (frame m @ rest) 4 AND 3 = im_src_LUN m"
      using fl by (simp_all only: f append.simps nth0_Cons_0 nth0_6 field_high field_low)
    have i2: "IS_RESPONSE (if IS_RESPONSE m then m0\<lparr>im_completion_code := x\<rparr> else m0) = IS_RESPONSE m"
      "im_data (if IS_RESPONSE m then m0\<lparr>im_completion_code := x\<rparr> else m0) = im_data junk" for x
      by (simp_all add: isr) (simp add: m0_def)
    show ?thesis
      unfolding r_def ipmb_decode_def nths len Let_def m0_def [symmetric] isr i2 k_def [symmetric] n sl ..
  qed
  have "nth0 (frame m @ rest) 6 = im_completion_code m" if "IS_RESPONSE m" using that by (simp add: f cc_def nth0_def)
  moreover have "take (length d) (memcpy_at 0 d (im_data junk)) = d" by (simp add: memcpy_at_def)
  moreover have "(of_nat (length d) :: u16) = im_data_len m" using ld(1) by simp
  ultimately show ?thesis unfolding r d_def [symmetric] by (simp add: m0_def ld(1))
qed

text \<open>
  A frame round-trips: the encoder writes the frame of a message, and a receiver of the bytes
  on the bus finds both checksums correct and decodes the same addresses, function code, sequence
  number, command, completion code and data.
\<close>

theorem ipmb_frame_roundtrip:
  assumes "msg_ok m" and "env_good env" and "256 \<le> length buffer"
  defines "buf \<equiv> rx_buffer env (wire m)" and "len \<equiv> of_nat (length (wire m)) :: u8"
  shows "take (length (wire m)) (ipmb_encode buffer m) = im_dest_addr m # tl (wire m)
    \<and> validate_checksum buf len = IPMB_ERROR_SUCCESS
    \<and> (let r = ipmb_decode (ev_msg env) buf len in
        im_dest_addr r = im_dest_addr m \<and> im_netfn r = im_netfn m \<and> im_dest_LUN r = im_dest_LUN m
        \<and> im_src_addr r = im_src_addr m \<and> im_seq r = im_seq m \<and> im_src_LUN r = im_src_LUN m \<and> im_cmd r = im_cmd m
        \<and> (IS_RESPONSE m \<longrightarrow> im_completion_code r = im_completion_code m) \<and> im_data_len r = im_data_len m
        \<and> take (unat (im_data_len r)) (im_data r) = take (unat (im_data_len m)) (im_data m))"
proof -
  have e: "256 \<le> length (ev_buffer env)" "256 \<le> length (im_data (ev_msg env))" using assms(2) by (simp_all add: env_good_def)
  define rest where "rest = drop (length (frame m)) (ev_buffer env)"
  have b: "buf = frame m @ rest" unfolding buf_def rx_buffer_wire [OF assms(1) e(1)] by (simp add: memcpy_at_def rest_def)
  have l: "len = of_nat (length (frame m))" by (simp add: len_def length_wire)
  have "take (length (wire m)) (ipmb_encode buffer m) = frame m"
    unfolding ipmb_encode_frame [OF assms(1,3)] length_wire by (simp add: memcpy_at_def)
  moreover have "frame m = im_dest_addr m # tl (wire m)" by (simp add: wire_def frame_def encode_header_def Let_def)
  ultimately have "take (length (wire m)) (ipmb_encode buffer m) = im_dest_addr m # tl (wire m)" by metis
  then show ?thesis unfolding b l Let_def
    using frame_checks [OF assms(1), of rest] decode_frame [OF assms(1) e(2), of rest] by blast
qed

lemma demo_ipmb_env_good: "env_good demo_ipmb_env"
  by (simp add: env_good_def demo_ipmb_env_def zero_ipmi_msg_def IPMI_MSG_MAX_LENGTH_def)

lemma demo_ipmb_msg_ok: "msg_ok demo_ipmb_msg"
  by (simp add: msg_ok_def demo_ipmb_msg_def zero_ipmi_msg_def IPMI_MSG_MAX_LENGTH_def)

theorem ipmb_frame_roundtrip_witness:
  "validate_checksum (rx_buffer demo_ipmb_env (wire demo_ipmb_msg)) (of_nat (length (wire demo_ipmb_msg))) = IPMB_ERROR_SUCCESS"
  using ipmb_frame_roundtrip [OF demo_ipmb_msg_ok demo_ipmb_env_good, of "replicate 534 0"] by simp

end
