(* ===== verification/Ipmb_Exchange.thy ===== *)
theory Ipmb_Exchange
  imports Ipmb_Frames Id_Pool
begin

text \<open>
  A request and its response over one IPMB channel: sequence numbers, the list of waiting requests,
  the transmit and the receive thread together.
\<close>

section \<open>Reference definitions and examples\<close>

text \<open>A channel that is ready for a request: initialised, idle, with room in the list and a free number.\<close>

definition chan_ready :: "ipmb_chan \<Rightarrow> bool" where
  "chan_ready ch = (ch_queue_init ch \<and> ch_circular ch \<and> ch_txqueue ch = [] \<and> \<not> ch_tx_disable ch
     \<and> unat (ch_seq_current_count ch) = length (ch_reqs ch) \<and> length (ch_reqs ch) < 15
     \<and> (\<forall>r \<in> set (ch_reqs ch). ch_seq_table ch (unat (im_seq_target r))) \<and> (\<exists>s < 64. \<not> ch_seq_table ch s))"

text \<open>The state after the request \<open>c\<close> with the sequence number \<open>s\<close> has been sent.\<close>

definition sent_state :: "ipmb_env \<Rightarrow> nat \<Rightarrow> u8 \<Rightarrow> ipmi_msg_cfg \<Rightarrow> ipmb_state \<Rightarrow> ipmb_state" where
  "sent_state env i s c st = upd_chan i (\<lambda>ch. ch\<lparr>ch_rxqueue := [], ch_current_seq := s, ch_txqueue := [],
     ch_reqs := ch_reqs ch @ [(mc_buffer c)\<lparr>im_seq_target := s, im_timestamp := ev_now env\<rparr>],
     ch_seq_current_count := ch_seq_current_count ch + 1, ch_seq_table := (ch_seq_table ch)(unat s := True)\<rparr>) st"

definition ipmb_zero :: ipmb_state where
  "ipmb_zero = \<lparr>is_config_table = [], is_inf_index_map = zeros 113, is_chan = (\<lambda>_. \<lparr>ch_reqs = [], ch_circular = False,
     ch_seq_current_count = 0, ch_current_seq = 0, ch_seq_table = (\<lambda>_. False), ch_txqueue = [], ch_rxqueue = [],
     ch_queue_init = False, ch_tx_disable = False\<rparr>), is_tick_fix = 0, is_sys_tick_freq = 0, is_mutex_init = False\<rparr>"

text \<open>A system with one I2C channel to the BMC.\<close>

definition demo_ipmb :: ipmb_state where
  "demo_ipmb = ipmb_init demo_ipmb_env True [\<lparr>ic_index = 0, ic_interface = 0, ic_channel = 2, ic_bus = 1,
     ic_channel_target_address = 0x10, ic_enable_status = True, ic_self_address = 0x20\<rparr>] 1000 ipmb_zero"

text \<open>The sequence numbers as an identifier pool: taking a number is \<^verbatim>\<open>get_free_seq\<close> and, when the number
  is not in use, \<^verbatim>\<open>register_seq\<close>.\<close>

definition seq_ids :: "ipmb_chan \<Rightarrow> nat set" where
  "seq_ids ch = {i. ch_seq_table ch i}"

definition seq_alloc :: "ipmb_chan \<Rightarrow> ipmb_chan \<times> nat option" where
  "seq_alloc ch = (case get_free_seq ch of (ch, s) \<Rightarrow>
     if ch_seq_table ch (unat s) then (ch, None) else (register_seq s ch, Some (unat s)))"

definition seq_release :: "nat \<Rightarrow> ipmb_chan \<Rightarrow> ipmb_chan \<times> bool" where
  "seq_release i ch = (if i < 256 then (unregister_seq (of_nat i) ch, ch_seq_table ch i) else (ch, False))"

section \<open>Properties\<close>

subsubsection \<open>Sequence numbers\<close>

lemma next_seq: "unat ((c + 1 :: u8) AND 0x3f) = (unat c + 1) mod 64"
proof -
  have "(c + 1) AND 0x3f = take_bit 6 (c + 1)" by (rule u8_eqI) (simp_all add: bit_simps)
  then have "unat ((c + 1) AND 0x3f) = take_bit 6 (unat (c + 1))" by (simp only: unsigned_take_bit_eq)
  also have "\<dots> = unat (c + 1) mod 64" by (simp add: take_bit_eq_mod)
  also have "unat (c + 1) = (unat c + 1) mod 256" by (simp add: unat_word_ariths)
  finally show ?thesis by (simp add: mod_mod_cancel)
qed

lemma free_seq_loop_result:
  "(0 < n \<longrightarrow> unat (free_seq_loop table n cur) < 64)
   \<and> (\<not> table (unat (free_seq_loop table n cur)) \<and> 0 < n \<or> (\<forall>j. 1 \<le> j \<and> j \<le> n \<longrightarrow> table ((unat cur + j) mod 64)))"
proof (induction n arbitrary: cur)
  case (Suc n)
  let ?c = "(cur + 1) AND 0x3f"
  have c: "unat ?c = (unat cur + 1) mod 64" by (rule next_seq)
  show ?case
  proof (cases "table (unat ?c)")
    case False
    then show ?thesis using c by (simp add: Let_def)
  next
    case True
    then have e: "free_seq_loop table (Suc n) cur = free_seq_loop table n ?c" by (simp add: Let_def)
    have "table ((unat cur + j) mod 64)" if "\<forall>j. 1 \<le> j \<and> j \<le> n \<longrightarrow> table ((unat ?c + j) mod 64)" "1 \<le> j" "j \<le> Suc n" for j
    proof (cases "j = 1")
      case True
      then show ?thesis using \<open>table (unat ?c)\<close> c by simp
    next
      case False
      then have "1 \<le> j - 1 \<and> j - 1 \<le> n" using that(2,3) by auto
      then have "table ((unat ?c + (j - 1)) mod 64)" using that(1) by blast
      moreover have "(unat ?c + (j - 1)) mod 64 = (unat cur + 1 + (j - 1)) mod 64" unfolding c by (simp add: mod_add_left_eq)
      ultimately show ?thesis using that(2) by simp
    qed
    moreover have "n = 0 \<Longrightarrow> unat (free_seq_loop table n ?c) < 64" using c by simp
    ultimately show ?thesis unfolding e using Suc [of ?c] True by (cases "n = 0") auto
  qed
qed simp

lemma get_free_seq_free:
  assumes "s < 64" and "\<not> ch_seq_table ch s"
  shows "\<not> ch_seq_table ch (unat (snd (get_free_seq ch)))"
proof -
  let ?c = "unat (ch_current_seq ch) mod 64"
  have rot: "(a + (x mod 64 + 1)) mod 64 = (a + 1 + x) mod 64" for a x :: nat
  proof -
    have "(a + (x mod 64 + 1)) mod 64 = (a + 1 + x mod 64) mod 64" by (simp add: ac_simps)
    then show ?thesis by (simp only: mod_add_right_eq)
  qed
  define j where "j = (s + 64 - ?c - 1) mod 64 + 1"
  have "(unat (ch_current_seq ch) + j) mod 64 = s"
  proof -
    have "(unat (ch_current_seq ch) + j) mod 64 = (?c + ((s + 64 - ?c - 1) mod 64 + 1)) mod 64"
      unfolding j_def by (simp only: mod_add_left_eq)
    also have "\<dots> = (?c + 1 + (s + 64 - ?c - 1)) mod 64" by (rule rot)
    also have "?c + 1 + (s + 64 - ?c - 1) = s + 64"
    proof -
      have "?c < 64" by simp
      then show ?thesis by linarith
    qed
    finally show ?thesis using assms(1) by simp
  qed
  moreover have "1 \<le> j" "j \<le> 64" by (simp_all add: j_def Suc_leI)
  ultimately have "\<not> (\<forall>j. 1 \<le> j \<and> j \<le> 64 \<longrightarrow> ch_seq_table ch ((unat (ch_current_seq ch) + j) mod 64))" using assms(2) by metis
  moreover have "snd (get_free_seq ch) = free_seq_loop (ch_seq_table ch) 64 (ch_current_seq ch)"
    by (simp add: get_free_seq_def SEQ_NUM_def Let_def)
  ultimately show ?thesis
    using free_seq_loop_result [of 64 "ch_seq_table ch" "ch_current_seq ch"] by metis
qed

lemma get_free_seq_less: "unat (snd (get_free_seq ch)) < 64"
  using free_seq_loop_result [of 64 "ch_seq_table ch" "ch_current_seq ch"] by (simp add: get_free_seq_def SEQ_NUM_def Let_def)

lemma get_free_seq_chan: "fst (get_free_seq ch) = ch\<lparr>ch_current_seq := snd (get_free_seq ch)\<rparr>"
  by (simp add: get_free_seq_def Let_def)

subsubsection \<open>Channels and the request list\<close>

lemma upd_chan_simps [simp]:
  "is_chan (upd_chan i f st) j = (if j = i then f (is_chan st i) else is_chan st j)"
  "is_config_table (upd_chan i f st) = is_config_table st"
  "is_inf_index_map (upd_chan i f st) = is_inf_index_map st"
  "is_mutex_init (upd_chan i f st) = is_mutex_init st"
  "upd_chan i f (upd_chan i g st) = upd_chan i (\<lambda>ch. f (g ch)) st"
  by (simp_all add: upd_chan_def)

lemma remove_match_None: "(remove_match P xs = None) = (\<forall>x \<in> set xs. \<not> P x)"
  by (induction xs) (auto split: option.splits)

lemma remove_match_last: "\<forall>x \<in> set xs. \<not> P x \<Longrightarrow> P y \<Longrightarrow> remove_match P (xs @ [y]) = Some (y, xs)"
  by (induction xs) auto

lemma remove_match_Some:
  assumes "remove_match P xs = Some (x, ys)"
  obtains us vs where "xs = us @ x # vs" "ys = us @ vs" "P x"
  using assms
proof (induction xs arbitrary: ys thesis)
  case (Cons a xs)
  show ?case
  proof (cases "P a")
    case True
    with Cons.prems(2) show ?thesis by (intro Cons.prems(1) [of "[]" xs]) auto
  next
    case False
    then obtain zs where z: "remove_match P xs = Some (x, zs)" "ys = a # zs"
      using Cons.prems(2) by (auto split: option.splits)
    obtain us vs where "xs = us @ x # vs" "zs = us @ vs" "P x" by (rule Cons.IH [OF _ z(1)])
    with z(2) show ?thesis by (intro Cons.prems(1) [of "a # us" vs]) auto
  qed
qed simp

lemma read_send_ready:
  assumes "env_good env" and "i < length (is_config_table st)" and "is_mutex_init st" and "chan_ready (is_chan st i)"
  defines "s \<equiv> snd (get_free_seq (is_chan st i))"
  shows "ipmb_read_send env m i st = Some (upd_chan i (\<lambda>ch. ch\<lparr>ch_rxqueue := [], ch_current_seq := s,
      ch_txqueue := [request_cfg (is_config_table st ! i) s m (ev_msg env)]\<rparr>) st, m\<lparr>im_seq := s\<rparr>, IPMB_ERROR_SUCCESS)"
proof -
  let ?ch = "(is_chan st i)\<lparr>ch_rxqueue := []\<rparr>"
  have g: "get_free_seq ?ch = (?ch\<lparr>ch_current_seq := s\<rparr>, s)" by (simp add: s_def get_free_seq_def Let_def)
  show ?thesis
    using assms(1-4) by (simp add: ipmb_read_send_def ipmb_send_request_def env_good_def chan_ready_def g Let_def
        IPMB_TXQUEUE_LEN_def) (simp add: upd_chan_def)
qed

lemma insert_ready:
  assumes "env_good env" and "ch_circular ch" and "ch_seq_current_count ch \<noteq> 15"
  shows "insert_req_ipmi_msg env m ch = (let m = m\<lparr>im_timestamp := ev_now env\<rparr> in
     (register_seq (im_seq_target m) (ch\<lparr>ch_reqs := ch_reqs ch @ [m], ch_seq_current_count := ch_seq_current_count ch + 1\<rparr>), m))"
  using assms by (simp add: insert_req_ipmi_msg_def env_good_def drop_oldest_def MAX_SEQ_QUENE_def Let_def)

lemma tx_request_sent:
  assumes "env_good env" and "ch_circular (is_chan st i)" and "ch_seq_current_count (is_chan st i) \<noteq> 15"
    and "ch_txqueue (is_chan st i) = [c]" and "\<not> ch_tx_disable (is_chan st i)" and "\<not> IS_RESPONSE (mc_buffer c)"
    and "ic_interface (is_config_table st ! i) = I2C_IF" and "\<And>w x. snd (i2c_write w x) = 0"
  defines "r \<equiv> (mc_buffer c)\<lparr>im_seq_target := im_seq (mc_buffer c), im_timestamp := ev_now env\<rparr>"
  shows "IPMB_TXTask env i2c_write i st w = Some (upd_chan i (\<lambda>ch. ch\<lparr>ch_txqueue := [], ch_reqs := ch_reqs ch @ [r],
      ch_seq_current_count := ch_seq_current_count ch + 1, ch_seq_table := (ch_seq_table ch)(unat (im_seq (mc_buffer c)) := True)\<rparr>) st,
    fst (i2c_write w (tx_i2c_msg env (is_config_table st ! i) (ucast (im_data_len (mc_buffer c) + 6))
      (ipmb_encode (ev_buffer env) (mc_buffer c)))), [])"
proof -
  have m: "ev_malloc_i2c env" using assms(1) by (simp add: env_good_def)
  have ir: "insert_req_ipmi_msg env m' ((is_chan st i)\<lparr>ch_txqueue := []\<rparr>)
     = (let m = m'\<lparr>im_timestamp := ev_now env\<rparr>; ch = (is_chan st i)\<lparr>ch_txqueue := []\<rparr> in
     (register_seq (im_seq_target m) (ch\<lparr>ch_reqs := ch_reqs ch @ [m], ch_seq_current_count := ch_seq_current_count ch + 1\<rparr>), m))" for m'
    by (subst insert_ready [OF assms(1)]) (use assms(2,3) in \<open>simp_all add: Let_def\<close>)
  have s: "snd (i2c_write w x) = 0" for w x by (rule assms(8))
  show ?thesis
    using assms(4-7) m unfolding IPMB_TXTask_def tx_request_def r_def
    by (simp add: ir Let_def case_prod_beta s IPMB_REQ_HEADER_LENGTH_def register_seq_def) (simp add: upd_chan_def)
qed

lemma response_of_even:
  assumes "(n :: u8) AND 1 = 0"
  shows "(n + 1) AND 1 \<noteq> 0" and "(n + 1) AND 0xFE = n" and "n < 64 \<Longrightarrow> n + 1 < 64"
proof -
  have e: "even n" using assms by (simp only: and_one_eq even_iff_mod_2_eq_zero)
  then have or: "n + 1 = n OR 1" by (simp only: or_one_eq) simp
  have b0: "\<not> bit n 0" using e by (simp add: bit_0)
  show "(n + 1) AND 1 \<noteq> 0"
  proof
    assume "(n + 1) AND 1 = 0"
    then have "bit ((n + 1) AND 1) 0 = False" by simp
    then show False unfolding or by (simp add: bit_simps)
  qed
  show "(n + 1) AND 0xFE = n" unfolding or by (rule u8_eqI) (use b0 in \<open>simp_all add: bit_simps\<close>)
  show "n + 1 < 64" if "n < 64"
  proof -
    have "unat n < 64" using that by (simp add: word_less_nat_alt)
    moreover have "even (unat n)" 
    proof (rule ccontr)
      assume "odd (unat n)"
      then have "bit (unat n) 0" by (simp add: bit_0)
      then have "bit n 0" by (simp only: bit_unsigned_iff)
      then show False using b0 by simp
    qed
    ultimately have "unat n + 1 < 64" by presburger
    then show ?thesis by (simp add: word_less_nat_alt unat_word_ariths)
  qed
qed

lemma rx_response_self:
  assumes env: "env_good env" and I: "ic_interface (is_config_table st ! i) = I2C_IF" "i < length (is_config_table st)"
    and reqs: "ch_reqs (is_chan st i) = us @ [r]" and others: "\<forall>u \<in> set us. im_seq_target u \<noteq> im_seq resp"
    and rq: "ch_rxqueue (is_chan st i) = []"
    and r: "im_netfn r = im_netfn resp AND 0xFE" "im_cmd r = im_cmd resp" "im_seq_target r = im_seq resp" "im_InF_source r = SELF"
      "unat (im_InF_target r) < length (is_inf_index_map st)" "unat (is_inf_index_map st ! unat (im_InF_target r)) = i"
    and resp: "msg_ok resp" "IS_RESPONSE resp"
  shows "\<exists>m. IPMB_RXTask env i (Some (wire resp)) st = Some (upd_chan i (\<lambda>ch. (unregister_seq (im_seq resp)
        (ch\<lparr>ch_reqs := us, ch_seq_current_count := ch_seq_current_count ch - 1\<rparr>))\<lparr>ch_rxqueue := [m]\<rparr>) st, [])
    \<and> im_netfn m = im_netfn resp \<and> im_cmd m = im_cmd resp \<and> im_completion_code m = im_completion_code resp
    \<and> im_data_len m = im_data_len resp
    \<and> take (unat (im_data_len m)) (im_data m) = take (unat (im_data_len resp)) (im_data resp)
    \<and> im_seq_source m = im_seq_source r"
proof -
  define rest where "rest = drop (length (frame resp)) (ev_buffer env)"
  have b: "rx_buffer env (wire resp) = frame resp @ rest"
    using rx_buffer_wire [OF resp(1)] env by (simp add: env_good_def memcpy_at_def rest_def)
  define d where "d = ipmb_decode (ev_msg env) (frame resp @ rest) (of_nat (length (frame resp)))"
  have junk: "256 \<le> length (im_data (ev_msg env))" using env by (simp add: env_good_def)
  note dec = decode_frame [OF resp(1) junk, of rest, folded d_def]
  have nz: "(of_nat (length (wire resp)) :: u8) \<noteq> 0"
  proof -
    have "unat (of_nat (length (frame resp)) :: u8) = length (frame resp)"
      using length_frame [OF resp(1)] msg_ok_len [OF resp(1)] by (intro unat_of_nat_lt) auto
    moreover have "0 < length (frame resp)" using length_frame [OF resp(1)] by auto
    ultimately show ?thesis unfolding length_wire by auto
  qed
  have isr: "IS_RESPONSE d" using dec resp(2) by (simp add: IS_RESPONSE_def)
  have rx: "IPMB_RXTask env i (Some (wire resp)) st = rx_response env i d st"
    using I(1) nz isr frame_checks [OF resp(1), of rest] unfolding IPMB_RXTask_def
    by (simp add: Let_def b length_wire d_def)
  have an: "answers (d\<lparr>im_seq_target := im_seq d\<rparr>) r" "\<forall>u \<in> set us. \<not> answers (d\<lparr>im_seq_target := im_seq d\<rparr>) u"
    using dec r(1-3) others by (auto simp: answers_def)
  have lk: "ev_lock_id env" using env by (simp add: env_good_def)
  let ?m = "d\<lparr>im_seq_target := im_seq d, im_seq_source := im_seq_source r, im_pldm_inst_id := im_pldm_inst_id r,
      im_InF_source := im_InF_source r, im_InF_target := im_InF_target r\<rparr>"
  have "rx_response env i d st = Some (upd_chan i (\<lambda>ch. (unregister_seq (im_seq resp)
        (ch\<lparr>ch_reqs := us, ch_seq_current_count := ch_seq_current_count ch - 1\<rparr>))\<lparr>ch_rxqueue := [?m]\<rparr>) st, [])"
    using lk r(4-6) I(2) rq
    by (simp add: rx_response_def find_req_ipmi_msg_def reqs remove_match_last [OF an(2,1)] rx_deliver_def Let_def
        msgq_put_def IPMB_RXQUEUE_LEN_def r(3) unregister_seq_def) (simp add: upd_chan_def)
  moreover have "take (unat (im_data_len resp)) (im_data d) = take (unat (im_data_len resp)) (im_data resp)" using dec by metis
  ultimately show ?thesis using rx dec resp(2) by (intro exI [of _ ?m]) simp
qed

lemma exchange_request:
  assumes "env_good env" and "i < length (is_config_table st)" and "is_mutex_init st" and "chan_ready (is_chan st i)"
    and "ic_interface (is_config_table st ! i) = I2C_IF" and "\<And>w x. snd (i2c_write w x) = 0" and "im_netfn m AND 1 = 0"
  defines "s \<equiv> snd (get_free_seq (is_chan st i))"
  defines "c \<equiv> request_cfg (is_config_table st ! i) s m (ev_msg env)"
  shows "\<exists>st1. ipmb_read_send env m i st = Some (st1, m\<lparr>im_seq := s\<rparr>, IPMB_ERROR_SUCCESS)
    \<and> IPMB_TXTask env i2c_write i st1 w = Some (sent_state env i s c st, fst (i2c_write w (tx_i2c_msg env (is_config_table st ! i)
        (ucast (im_data_len m + 6)) (ipmb_encode (ev_buffer env) (mc_buffer c)))), [])
    \<and> s < 64 \<and> (\<forall>r \<in> set (ch_reqs (is_chan st i)). im_seq_target r \<noteq> s)"
proof -
  let ?ch = "is_chan st i"
  define st1 where "st1 = upd_chan i (\<lambda>ch. ch\<lparr>ch_rxqueue := [], ch_current_seq := s, ch_txqueue := [c]\<rparr>) st"
  have rd: "ipmb_read_send env m i st = Some (st1, m\<lparr>im_seq := s\<rparr>, IPMB_ERROR_SUCCESS)"
    unfolding st1_def s_def c_def by (rule read_send_ready [OF assms(1-4)])
  have "\<not> ch_seq_table ?ch (unat s)" using assms(4) get_free_seq_free by (auto simp: chan_ready_def s_def)
  then have diff: "\<forall>r \<in> set (ch_reqs ?ch). im_seq_target r \<noteq> s" using assms(4) by (auto simp: chan_ready_def)
  have s64: "s < 64" using get_free_seq_less [of ?ch] by (simp add: s_def word_less_nat_alt)
  have buf: "im_netfn (mc_buffer c) = im_netfn m" "im_seq (mc_buffer c) = s" "im_data_len (mc_buffer c) = im_data_len m"
    by (simp_all add: c_def request_cfg_def)
  have cnt: "ch_seq_current_count ?ch \<noteq> 15" using assms(4) by (auto simp: chan_ready_def)
  have "IPMB_TXTask env i2c_write i st1 w = Some (sent_state env i s c st, fst (i2c_write w (tx_i2c_msg env (is_config_table st ! i)
        (ucast (im_data_len m + 6)) (ipmb_encode (ev_buffer env) (mc_buffer c)))), [])"
    using tx_request_sent [OF assms(1), of st1 i c i2c_write w] assms(4-7) cnt buf
    by (simp add: st1_def sent_state_def chan_ready_def IS_RESPONSE_def)
  then show ?thesis using rd s64 diff by blast
qed

lemma exchange_response:
  assumes env: "env_good env" and i: "i < length (is_config_table st)" and I: "ic_interface (is_config_table st ! i) = I2C_IF"
    and even: "im_netfn (mc_buffer c) AND 1 = 0" and src: "im_InF_source (mc_buffer c) = SELF"
    and tgt: "unat (im_InF_target (mc_buffer c)) < length (is_inf_index_map st)"
      "unat (is_inf_index_map st ! unat (im_InF_target (mc_buffer c))) = i"
    and diff: "\<forall>r \<in> set (ch_reqs (is_chan st i)). im_seq_target r \<noteq> s"
    and h: "msg_ok resp" "im_netfn resp = im_netfn (mc_buffer c) + 1" "im_cmd resp = im_cmd (mc_buffer c)" "im_seq resp = s"
  shows "\<exists>st3 st4 x. IPMB_RXTask env i (Some (wire resp)) (sent_state env i s c st) = Some (st3, [])
    \<and> ipmb_read_recv env m1 i st3 = Some (st4, x, IPMB_ERROR_SUCCESS)
    \<and> im_completion_code x = im_completion_code resp \<and> im_data_len x = im_data_len resp
    \<and> take (unat (im_data_len x)) (im_data x) = take (unat (im_data_len resp)) (im_data resp)
    \<and> ch_reqs (is_chan st4 i) = ch_reqs (is_chan st i)"
proof -
  let ?st2 = "sent_state env i s c st" and ?r = "(mc_buffer c)\<lparr>im_seq_target := s, im_timestamp := ev_now env\<rparr>"
  have st2: "ch_reqs (is_chan ?st2 i) = ch_reqs (is_chan st i) @ [?r]" "ch_rxqueue (is_chan ?st2 i) = []"
    "is_config_table ?st2 = is_config_table st" "is_inf_index_map ?st2 = is_inf_index_map st"
    by (simp_all add: sent_state_def)
  have "IS_RESPONSE resp" "im_netfn ?r = im_netfn resp AND 0xFE"
    using response_of_even [OF even] h(2) by (simp_all add: IS_RESPONSE_def)
  moreover have "im_cmd ?r = im_cmd resp" "im_seq_target ?r = im_seq resp" "im_InF_source ?r = SELF"
    using h src by simp_all
  ultimately obtain x where x: "IPMB_RXTask env i (Some (wire resp)) ?st2 = Some (upd_chan i (\<lambda>ch. (unregister_seq (im_seq resp)
        (ch\<lparr>ch_reqs := ch_reqs (is_chan st i), ch_seq_current_count := ch_seq_current_count ch - 1\<rparr>))\<lparr>ch_rxqueue := [x]\<rparr>) ?st2, [])"
      "im_completion_code x = im_completion_code resp" "im_data_len x = im_data_len resp"
      "take (unat (im_data_len x)) (im_data x) = take (unat (im_data_len resp)) (im_data resp)"
    using rx_response_self [OF env _ _ st2(1) _ st2(2), of resp] i I tgt diff h(1,4) st2(3,4) by auto
  then show ?thesis by (auto simp: ipmb_read_recv_def unregister_seq_def)
qed

text \<open>The bytes a request is sent as are those of a well-formed frame behind the address.\<close>

lemma request_frame:
  assumes "env_good env" and "im_netfn m AND 1 = 0" "im_netfn m < 64" and "s < 64" and "ic_channel_target_address cfg < 128"
    and "im_data_len m \<le> 247" and "unat (im_data_len m) \<le> length (im_data m)"
  defines "q \<equiv> mc_buffer (request_cfg cfg s m (ev_msg env))"
  defines "x \<equiv> tx_i2c_msg env cfg (ucast (im_data_len m + 6)) (ipmb_encode (ev_buffer env) q)"
  shows "msg_ok q \<and> i2c_target_addr x = im_dest_addr q \<and> take (unat (i2c_tx_len x)) (i2c_data x) = tl (frame q)
    \<and> take (unat (im_data_len q)) (im_data q) = take (unat (im_data_len m)) (im_data m)"
proof -
  have l: "unat (im_data_len m) \<le> 247" using assms(6) by (simp add: word_le_nat_alt)
  have d: "im_data q = memcpy_at 0 (take (unat (im_data_len m)) (im_data m)) (im_data (ev_msg env))" "im_data_len q = im_data_len m"
    by (simp_all add: q_def request_cfg_def)
  have dt: "take (unat (im_data_len m)) (im_data q) = take (unat (im_data_len m)) (im_data m)"
    using assms(7) by (simp add: d memcpy_at_def)
  have ok: "msg_ok q"
    using assms(1,3-7) l by (simp add: msg_ok_def d) (simp add: q_def request_cfg_def env_good_def)
  have nr: "\<not> IS_RESPONSE q" using assms(2) by (simp add: q_def request_cfg_def IS_RESPONSE_def)
  have n: "unat (ucast (im_data_len m + 6) :: u8) = unat (im_data_len m) + 6"
  proof -
    have "unat (im_data_len m + 6) = unat (im_data_len m) + 6" using l by (subst unat_plus_no_wrap) auto
    then show ?thesis using l by (simp add: unsigned_ucast_eq take_bit_nat_eq_self)
  qed
  have lf: "length (frame q) = unat (im_data_len m) + 7" using length_frame [OF ok] nr d by simp
  have sl: "slice 1 (unat (im_data_len m) + 6) (memcpy_at 0 (frame q) (ev_buffer env)) = tl (frame q)"
    using lf by (cases "frame q") (simp_all add: slice_def memcpy_at_def)
  have "take (unat (i2c_tx_len x)) (i2c_data x) = tl (frame q)"
    using assms(1) lf unfolding x_def tx_i2c_msg_def
    by (simp add: n sl [unfolded One_nat_def] ipmb_encode_frame [OF ok] env_good_def memcpy_at_def [of 0 "tl (frame q)"])
  then show ?thesis using ok dt d(2) by (simp add: x_def tx_i2c_msg_def) (simp add: q_def request_cfg_def)
qed

text \<open>
  (C11) A request and its response: the message of a local caller is sent as a well-formed frame to the
  address of the channel, under a sequence number that no waiting request has; a valid response frame
  with this number, the response function code and the command is handed back to the caller with
  its completion code and data, and the list of waiting requests is as before.
\<close>

theorem ipmb_exchange:
  assumes "env_good env" and "i < length (is_config_table st)" and "is_mutex_init st" and "chan_ready (is_chan st i)"
    and "ic_interface (is_config_table st ! i) = I2C_IF" and "ic_channel_target_address (is_config_table st ! i) < 128"
    and "\<And>w x. snd (i2c_write w x) = 0"
    and "im_netfn m AND 1 = 0" and "im_netfn m < 64" and "im_data_len m \<le> 247" and "unat (im_data_len m) \<le> length (im_data m)"
    and "im_InF_source m = SELF" and "unat (im_InF_target m) < length (is_inf_index_map st)"
    and "unat (is_inf_index_map st ! unat (im_InF_target m)) = i"
  shows "\<exists>st1 m1 st2 x q. ipmb_read_send env m i st = Some (st1, m1, IPMB_ERROR_SUCCESS)
    \<and> (\<forall>r \<in> set (ch_reqs (is_chan st i)). im_seq_target r \<noteq> im_seq m1)
    \<and> IPMB_TXTask env i2c_write i st1 w = Some (st2, fst (i2c_write w x), [])
    \<and> msg_ok q \<and> im_netfn q = im_netfn m \<and> im_cmd q = im_cmd m \<and> im_seq q = im_seq m1
    \<and> take (unat (im_data_len q)) (im_data q) = take (unat (im_data_len m)) (im_data m)
    \<and> i2c_target_addr x = im_dest_addr q \<and> take (unat (i2c_tx_len x)) (i2c_data x) = tl (frame q)
    \<and> (\<forall>resp. msg_ok resp \<and> im_netfn resp = im_netfn m + 1 \<and> im_cmd resp = im_cmd m \<and> im_seq resp = im_seq m1 \<longrightarrow>
        (\<exists>st3 st4 r. IPMB_RXTask env i (Some (wire resp)) st2 = Some (st3, [])
          \<and> ipmb_read_recv env m1 i st3 = Some (st4, r, IPMB_ERROR_SUCCESS)
          \<and> im_completion_code r = im_completion_code resp \<and> im_data_len r = im_data_len resp
          \<and> take (unat (im_data_len r)) (im_data r) = take (unat (im_data_len resp)) (im_data resp)
          \<and> ch_reqs (is_chan st4 i) = ch_reqs (is_chan st i)))"
proof -
  let ?cfg = "is_config_table st ! i"
  define s where "s = snd (get_free_seq (is_chan st i))"
  define c where "c = request_cfg ?cfg s m (ev_msg env)"
  define x where "x = tx_i2c_msg env ?cfg (ucast (im_data_len m + 6)) (ipmb_encode (ev_buffer env) (mc_buffer c))"
  obtain st1 where st1: "ipmb_read_send env m i st = Some (st1, m\<lparr>im_seq := s\<rparr>, IPMB_ERROR_SUCCESS)"
    "IPMB_TXTask env i2c_write i st1 w = Some (sent_state env i s c st, fst (i2c_write w x), [])"
    "s < 64" "\<forall>r \<in> set (ch_reqs (is_chan st i)). im_seq_target r \<noteq> s"
    using exchange_request [where i2c_write = i2c_write and w = w, OF assms(1-5,7,8)] unfolding s_def c_def x_def by blast
  note q = request_frame [OF assms(1,8,9) st1(3) assms(6,10,11), folded c_def x_def]
  have buf: "im_netfn (mc_buffer c) = im_netfn m" "im_cmd (mc_buffer c) = im_cmd m" "im_seq (mc_buffer c) = s"
    "im_InF_source (mc_buffer c) = SELF" "im_InF_target (mc_buffer c) = im_InF_target m"
    using assms(12) by (simp_all add: c_def request_cfg_def)
  note r = exchange_response [OF assms(1,2,5), where c = c and s = s and ?m1.0 = "m\<lparr>im_seq := s\<rparr>", unfolded buf, OF assms(8) _ assms(13,14) st1(4)]
  have R: "\<exists>st3 st4 r. IPMB_RXTask env i (Some (wire resp)) (sent_state env i s c st) = Some (st3, [])
          \<and> ipmb_read_recv env (m\<lparr>im_seq := s\<rparr>) i st3 = Some (st4, r, IPMB_ERROR_SUCCESS)
          \<and> im_completion_code r = im_completion_code resp \<and> im_data_len r = im_data_len resp
          \<and> take (unat (im_data_len r)) (im_data r) = take (unat (im_data_len resp)) (im_data resp)
          \<and> ch_reqs (is_chan st4 i) = ch_reqs (is_chan st i)"
    if "msg_ok resp \<and> im_netfn resp = im_netfn m + 1 \<and> im_cmd resp = im_cmd m \<and> im_seq resp = s" for resp
    by (rule r [OF refl]) (use that in simp_all)
  have q': "msg_ok (mc_buffer c)" "i2c_target_addr x = im_dest_addr (mc_buffer c)"
    "take (unat (i2c_tx_len x)) (i2c_data x) = tl (frame (mc_buffer c))"
    "take (unat (im_data_len (mc_buffer c))) (im_data (mc_buffer c)) = take (unat (im_data_len m)) (im_data m)"
    using q by blast+
  have s: "im_seq (m\<lparr>im_seq := s\<rparr>) = s" by simp
  show ?thesis
    by (rule exI [of _ st1], rule exI [of _ "m\<lparr>im_seq := s\<rparr>"], rule exI [of _ "sent_state env i s c st"], rule exI [of _ x],
        rule exI [of _ "mc_buffer c"], unfold s)
      (intro conjI st1 q' buf allI impI R; simp)
qed

lemma demo_ipmb_ready:
  "length (is_config_table demo_ipmb) = 1" "is_mutex_init demo_ipmb" "chan_ready (is_chan demo_ipmb 0)"
  "ic_interface (is_config_table demo_ipmb ! 0) = I2C_IF" "ic_channel_target_address (is_config_table demo_ipmb ! 0) = 0x10"
  "length (is_inf_index_map demo_ipmb) = 113" "is_inf_index_map demo_ipmb ! 2 = 0" "ch_reqs (is_chan demo_ipmb 0) = []"
  by (simp_all add: demo_ipmb_def ipmb_init_def demo_ipmb_env_def channel_index_mapping_def ipmb_consts create_ipmb_threads_def
      upd_chan_def chan_ready_def ipmb_zero_def Let_def exI [of _ "0 :: nat"])

theorem ipmb_exchange_witness:
  "\<exists>st1 m1 st2 w2. ipmb_read_send demo_ipmb_env demo_ipmb_msg 0 demo_ipmb = Some (st1, m1, IPMB_ERROR_SUCCESS)
    \<and> IPMB_TXTask demo_ipmb_env (\<lambda>w x. (w @ [i2c_data x], 0)) 0 st1 [] = Some (st2, w2, [])"
proof -
  have m: "im_netfn demo_ipmb_msg = 6" "im_data_len demo_ipmb_msg = 3" "length (im_data demo_ipmb_msg) = 527"
    "im_InF_source demo_ipmb_msg = SELF" "im_InF_target demo_ipmb_msg = 2"
    by (simp_all add: demo_ipmb_msg_def zero_ipmi_msg_def ipmb_consts)
  show ?thesis
    using ipmb_exchange [OF demo_ipmb_env_good, where i = 0 and st = demo_ipmb and i2c_write = "\<lambda>w x. (w @ [i2c_data x], 0)"
        and m = demo_ipmb_msg and w = "[]"] demo_ipmb_ready m
    by auto
qed

lemma seq_alloc_cases:
  obtains (full) ch' where "seq_alloc ch = (ch', None)" "seq_ids ch' = seq_ids ch" "{..<64} \<subseteq> seq_ids ch"
  | (ok) ch' i where "seq_alloc ch = (ch', Some i)" "seq_ids ch' = insert i (seq_ids ch)" "i < 64" "i \<notin> seq_ids ch"
proof -
  obtain ch1 s where g: "get_free_seq ch = (ch1, s)" by force
  have c: "ch1 = ch\<lparr>ch_current_seq := s\<rparr>" using get_free_seq_chan [of ch] g by simp
  have s: "unat s < 64" using get_free_seq_less [of ch] g by simp
  show thesis
  proof (cases "ch_seq_table ch (unat s)")
    case True
    then have "ch_seq_table ch k" if "k < 64" for k using get_free_seq_free [OF that, of ch] g by auto
    then show thesis using full [of ch1] True g c by (auto simp: seq_alloc_def seq_ids_def)
  next
    case False
    have "seq_ids (register_seq s ch1) = insert (unat s) (seq_ids ch)"
      by (auto simp: c seq_ids_def register_seq_def)
    moreover have "seq_alloc ch = (register_seq s ch1, Some (unat s))" using False by (simp add: seq_alloc_def g c)
    ultimately show thesis using ok s False by (simp add: seq_ids_def [of ch])
  qed
qed

interpretation seqs: id_pool "\<lambda>ch. seq_ids ch \<subseteq> {..<64}" seq_alloc seq_release seq_ids 64
proof unfold_locales
  fix ch :: ipmb_chan and i :: nat
  assume g: "seq_ids ch \<subseteq> {..<64}"
  show "seq_ids ch \<subseteq> {..<64}" by (rule g)
  show "seq_ids (fst (seq_alloc ch)) \<subseteq> {..<64}"
    by (rule seq_alloc_cases [of ch]) (use g in auto)
  show "(snd (seq_alloc ch) = None) = (seq_ids ch = {..<64})"
    by (rule seq_alloc_cases [of ch]) (use g in auto)
  show "i < 64 \<and> i \<notin> seq_ids ch \<and> seq_ids (fst (seq_alloc ch)) = insert i (seq_ids ch)" if "snd (seq_alloc ch) = Some i"
    by (rule seq_alloc_cases [of ch]) (use that in auto)
  show "seq_ids (fst (seq_release i ch)) \<subseteq> {..<64}"
    using g by (auto simp: seq_release_def seq_ids_def unregister_seq_def)
  show "snd (seq_release i ch) = (i \<in> seq_ids ch)" using g by (auto simp: seq_release_def seq_ids_def)
  show "seq_ids (fst (seq_release i ch)) = seq_ids ch - {i}"
    using g by (auto simp: seq_release_def seq_ids_def unregister_seq_def unat_of_nat_lt)
qed

text \<open>
  Sequence numbers: numbers taken one after the other are pairwise different, below 64 and not in
  use, and exactly these are registered, as long as enough are free.
\<close>

theorem ipmb_seqs_distinct:
  assumes "seq_ids ch \<subseteq> {..<64}" and "card (seq_ids ch) + n \<le> 64"
  shows "case alloc_many seq_alloc n ch of (ch', is) \<Rightarrow>
    length is = n \<and> distinct is \<and> set is \<inter> seq_ids ch = {} \<and> seq_ids ch' = seq_ids ch \<union> set is"
  using seqs.alloc_many_distinct [OF assms] by (simp add: case_prod_beta)

theorem ipmb_seqs_distinct_witness:
  "case alloc_many seq_alloc 64 (is_chan ipmb_zero 0) of (ch', is) \<Rightarrow>
    length is = 64 \<and> distinct is \<and> set is \<inter> seq_ids (is_chan ipmb_zero 0) = {}
      \<and> seq_ids ch' = seq_ids (is_chan ipmb_zero 0) \<union> set is"
  by (rule ipmb_seqs_distinct) (simp_all add: seq_ids_def ipmb_zero_def)

end
