(* ===== verification/Ipmb_Reach.thy ===== *)
theory Ipmb_Reach
  imports Ipmb_Exchange
begin

text \<open>
  Every reachable state of the IPMB module, the clean-up of old requests, and three situations in
  which the code does not do what it means to.
\<close>

section \<open>Reference definitions and examples\<close>

abbreviation remove_at :: "nat \<Rightarrow> 'a list \<Rightarrow> 'a list" where
  "remove_at k xs \<equiv> take k xs @ drop (k + 1) xs"

definition drop_req :: "nat \<Rightarrow> ipmb_chan \<Rightarrow> ipmb_chan" where
  "drop_req k ch = unregister_seq (im_seq_target (ch_reqs ch ! k))
     (ch\<lparr>ch_reqs := remove_at k (ch_reqs ch), ch_seq_current_count := ch_seq_current_count ch - 1\<rparr>)"

definition queue_ok :: "ipmi_msg_cfg \<Rightarrow> bool" where
  "queue_ok c = (IS_RESPONSE (mc_buffer c) \<or> im_seq (mc_buffer c) < 64)"

definition chan_inv :: "ipmb_chan \<Rightarrow> bool" where
  "chan_inv ch = (unat (ch_seq_current_count ch) = length (ch_reqs ch) \<and> length (ch_reqs ch) \<le> 15
     \<and> (\<forall>r \<in> set (ch_reqs ch). im_seq_target r < 64) \<and> (\<forall>c \<in> set (ch_txqueue ch). queue_ok c))"

definition ipmb_inv :: "ipmb_state \<Rightarrow> bool" where
  "ipmb_inv st = (\<forall>i. chan_inv (is_chan st i))"

text \<open>
  The steps of the module: calls of its clients, iterations of its threads with any frame and any
  outcome of the environment. Clients answer with the function code of the request, which is even.
\<close>

inductive ipmb_step :: "'w i2c_write_fn \<Rightarrow> ipmb_state \<Rightarrow> ipmb_state \<Rightarrow> bool" for i2c_write where
  request: "ipmb_send_request env m i st = Some (st', m', r) \<Longrightarrow> ipmb_step i2c_write st st'"
| response: "\<not> IS_RESPONSE m \<Longrightarrow> ipmb_send_response env m i st = Some (st', r) \<Longrightarrow> ipmb_step i2c_write st st'"
| read_send: "ipmb_read_send env m i st = Some (st', m', r) \<Longrightarrow> ipmb_step i2c_write st st'"
| read_recv: "ipmb_read_recv env m i st = Some (st', m', r) \<Longrightarrow> ipmb_step i2c_write st st'"
| transmit: "IPMB_TXTask env i2c_write i st w = Some (st', w', evs) \<Longrightarrow> ipmb_step i2c_write st st'"
| receive: "IPMB_RXTask env i f st = Some (st', evs) \<Longrightarrow> ipmb_step i2c_write st st'"
| timeout: "seq_timeout env clock i st = Some st' \<Longrightarrow> ipmb_step i2c_write st st'"
| suspend: "ipmb_step i2c_write st (ipmb_tx_suspend i st)"
| resume: "ipmb_step i2c_write st (ipmb_tx_resume i st)"

section \<open>Properties\<close>

declare timeout_walk.simps [simp del]

lemma timeout_walk_done: "length (ch_reqs ch) \<le> k \<Longrightarrow> timeout_walk old t k ch = ch"
  by (simp add: timeout_walk.simps)

lemma timeout_walk_keep:
  "k < length (ch_reqs ch) \<Longrightarrow> \<not> old t (ch_reqs ch ! k) \<Longrightarrow> timeout_walk old t k ch = timeout_walk old (t + 1) (k + 1) ch"
  by (subst timeout_walk.simps) simp

lemma drop_req_reqs [simp]: "ch_reqs (drop_req k ch) = remove_at k (ch_reqs ch)"
  by (simp add: drop_req_def unregister_seq_def)

lemma timeout_walk_drop:
  "k < length (ch_reqs ch) \<Longrightarrow> old t (ch_reqs ch ! k) \<Longrightarrow> timeout_walk old t k ch
    = timeout_walk old (t + 1) (if k < length (ch_reqs ch) - 1 then k + 1 else 0) (drop_req k ch)"
  by (subst timeout_walk.simps) (auto simp: drop_req_def Let_def min_def)

lemma filter_remove_at:
  assumes "k < length xs" and "\<not> P (xs ! k)"
  shows "filter P (remove_at k xs) = filter P xs"
proof -
  have "filter P xs = filter P (take k xs @ xs ! k # drop (k + 1) xs)"
    using assms(1) by (simp add: id_take_nth_drop [symmetric])
  then show ?thesis using assms(2) by simp
qed

lemma length_filter_remove_at:
  assumes "k < length xs" and "P (xs ! k)"
  shows "Suc (length (filter P (remove_at k xs))) = length (filter P xs)"
proof -
  have "filter P xs = filter P (take k xs @ xs ! k # drop (k + 1) xs)"
    using assms(1) by (simp add: id_take_nth_drop [symmetric])
  then show ?thesis using assms(2) by simp
qed

text \<open>The measure of the walk as an induction principle: the end, a node kept, a node dropped.\<close>

lemma timeout_walk_rule:
  assumes fin: "\<And>k ch t. length (ch_reqs ch) \<le> k \<Longrightarrow> Q t k ch ch"
    and kp: "\<And>k ch t ch'. k < length (ch_reqs ch) \<Longrightarrow> \<not> old t (ch_reqs ch ! k) \<Longrightarrow> Q (t + 1) (k + 1) ch ch' \<Longrightarrow> Q t k ch ch'"
    and dr: "\<And>k ch t ch'. k < length (ch_reqs ch) \<Longrightarrow> old t (ch_reqs ch ! k) \<Longrightarrow>
      Q (t + 1) (if k < length (ch_reqs ch) - 1 then k + 1 else 0) (drop_req k ch) ch' \<Longrightarrow> Q t k ch ch'"
  shows "Q t k ch (timeout_walk old t k ch)"
proof (induction ch arbitrary: t k taking: "\<lambda>ch. length (ch_reqs ch)" rule: measure_induct_rule)
  case (less ch)
  show ?case
  proof (induction "length (ch_reqs ch) - k" arbitrary: t k)
    case 0
    then show ?case using fin by (simp add: timeout_walk_done)
  next
    case (Suc n)
    then have k: "k < length (ch_reqs ch)" by simp
    show ?case
    proof (cases "old t (ch_reqs ch ! k)")
      case True
      have "Q (t + 1) k' (drop_req k ch) (timeout_walk old (t + 1) k' (drop_req k ch))" for k'
        by (rule less.IH) (use k in simp)
      then show ?thesis using dr [OF k True] timeout_walk_drop [of k ch old t] k True by simp
    next
      case False
      have "Q (t + 1) (k + 1) ch (timeout_walk old (t + 1) (k + 1) ch)"
        by (rule Suc.hyps(1)) (use Suc.hyps(2) in simp)
      then show ?thesis using kp [OF k False] timeout_walk_keep [of k ch old t] k False by simp
    qed
  qed
qed

text \<open>With a constant clock the walk keeps every request that is not expired, in order, and drops
  one that is if there is any at or behind its position.\<close>

lemma timeout_walk_keeps:
  "filter (\<lambda>r. \<not> P r) (ch_reqs (timeout_walk (\<lambda>_. P) t k ch)) = filter (\<lambda>r. \<not> P r) (ch_reqs ch)
   \<and> length (filter P (ch_reqs (timeout_walk (\<lambda>_. P) t k ch))) \<le> length (filter P (ch_reqs ch))"
proof (rule timeout_walk_rule [where Q = "\<lambda>t k ch ch'. filter (\<lambda>r. \<not> P r) (ch_reqs ch') = filter (\<lambda>r. \<not> P r) (ch_reqs ch)
    \<and> length (filter P (ch_reqs ch')) \<le> length (filter P (ch_reqs ch))"])
  fix k ch t ch'
  assume k: "k < length (ch_reqs ch)" "P (ch_reqs ch ! k)"
    and h: "filter (\<lambda>r. \<not> P r) (ch_reqs ch') = filter (\<lambda>r. \<not> P r) (ch_reqs (drop_req k ch))
      \<and> length (filter P (ch_reqs ch')) \<le> length (filter P (ch_reqs (drop_req k ch)))"
  then show "filter (\<lambda>r. \<not> P r) (ch_reqs ch') = filter (\<lambda>r. \<not> P r) (ch_reqs ch)
    \<and> length (filter P (ch_reqs ch')) \<le> length (filter P (ch_reqs ch))"
    using filter_remove_at [OF k(1), of "\<lambda>r. \<not> P r"] length_filter_remove_at [OF k(1), of P, OF k(2)] by auto
qed auto

lemma timeout_walk_drops:
  assumes "k \<le> j" and "j < length (ch_reqs ch)" and "P (ch_reqs ch ! j)"
  shows "length (filter P (ch_reqs (timeout_walk (\<lambda>_. P) t k ch))) < length (filter P (ch_reqs ch))"
  using assms
proof (induction "length (ch_reqs ch) - k" arbitrary: t k)
  case (Suc n)
  have k: "k < length (ch_reqs ch)" using Suc by simp
  show ?case
  proof (cases "P (ch_reqs ch ! k)")
    case True
    have "length (filter P (ch_reqs (timeout_walk (\<lambda>_. P) (t + 1) k' (drop_req k ch)))) \<le> length (filter P (remove_at k (ch_reqs ch)))" for k'
      using timeout_walk_keeps [of P "t + 1" k' "drop_req k ch"] by simp
    then show ?thesis using timeout_walk_drop [of k ch "\<lambda>_. P" t] length_filter_remove_at [OF k, of P, OF True] k True
      by (metis (no_types, lifting) less_Suc_eq_le)
  next
    case False
    then have "k + 1 \<le> j" using Suc.prems(1,3) by (cases "k = j") auto
    then show ?thesis using Suc.hyps(1) [of "k + 1" "t + 1"] Suc.hyps(2) Suc.prems(2,3) timeout_walk_keep [of k ch "\<lambda>_. P" t] k False by simp
  qed
qed simp

lemma timeout_passes:
  assumes "length (filter P (ch_reqs ch)) \<le> n"
  shows "ch_reqs (((timeout_walk (\<lambda>_. P) 0 0) ^^ n) ch) = filter (\<lambda>r. \<not> P r) (ch_reqs ch)"
  using assms
proof (induction n arbitrary: ch)
  case 0
  then show ?case by (simp add: filter_empty_conv filter_id_conv)
next
  case (Suc n)
  let ?ch = "timeout_walk (\<lambda>_. P) 0 0 ch"
  have "length (filter P (ch_reqs ?ch)) \<le> n"
  proof (cases "filter P (ch_reqs ch) = []")
    case True
    then show ?thesis using timeout_walk_keeps [of P 0 0 ch] by simp
  next
    case False
    then obtain x where "x \<in> set (ch_reqs ch)" "P x" by (auto simp: filter_empty_conv)
    then obtain j where "j < length (ch_reqs ch)" "P (ch_reqs ch ! j)" by (auto simp: in_set_conv_nth)
    then show ?thesis using timeout_walk_drops [of 0 j ch P 0] Suc.prems by simp
  qed
  from Suc.IH [OF this] show ?case using timeout_walk_keeps [of P 0 0 ch] by (simp add: funpow_Suc_right del: funpow.simps)
qed

lemma ipmb_inv_upd: "ipmb_inv st \<Longrightarrow> chan_inv (f (is_chan st i)) \<Longrightarrow> ipmb_inv (upd_chan i f st)"
  by (simp add: ipmb_inv_def)

lemma chan_inv_get [simp]: "ipmb_inv st \<Longrightarrow> chan_inv (is_chan st i)"
  by (simp add: ipmb_inv_def)

lemma chan_inv_fields [simp]:
  "chan_inv (ch\<lparr>ch_rxqueue := q\<rparr>) = chan_inv ch" "chan_inv (ch\<lparr>ch_current_seq := s\<rparr>) = chan_inv ch"
  "chan_inv (ch\<lparr>ch_circular := b\<rparr>) = chan_inv ch" "chan_inv (ch\<lparr>ch_tx_disable := b\<rparr>) = chan_inv ch"
  "chan_inv (register_seq k ch) = chan_inv ch" "chan_inv (unregister_seq k ch) = chan_inv ch"
  by (simp_all add: chan_inv_def register_seq_def unregister_seq_def)

lemma count_pred:
  assumes "unat (c :: u32) = length xs" and "length xs = Suc n"
  shows "unat (c - 1) = n"
proof -
  have "1 \<le> c" using assms by (simp add: word_le_nat_alt)
  then show ?thesis using assms by (simp add: unat_sub)
qed

lemma chan_inv_remove:
  assumes "chan_inv ch" and "ch_reqs ch = us @ r # vs"
  shows "chan_inv (ch\<lparr>ch_reqs := us @ vs, ch_seq_current_count := ch_seq_current_count ch - 1\<rparr>)"
  using assms count_pred [of "ch_seq_current_count ch" "us @ r # vs"] by (simp add: chan_inv_def)

lemma drop_oldest_inv:
  assumes "chan_inv ch"
  shows "chan_inv (drop_oldest ch) \<and> length (ch_reqs (drop_oldest ch)) < 15"
proof (cases "ch_seq_current_count ch = 15")
  case True
  then obtain r rs where r: "ch_reqs ch = r # rs" using assms by (cases "ch_reqs ch") (auto simp: chan_inv_def)
  have "length (ch_reqs ch) = 15" using assms True by (simp add: chan_inv_def)
  then show ?thesis using chan_inv_remove [of ch "[]" r rs] assms r True by (simp add: drop_oldest_def MAX_SEQ_QUENE_def)
next
  case False
  then have "length (ch_reqs ch) \<noteq> 15" using assms by (auto simp: chan_inv_def word_unat_eq_iff)
  then show ?thesis using assms False by (simp add: drop_oldest_def MAX_SEQ_QUENE_def chan_inv_def)
qed

lemma insert_inv:
  assumes "chan_inv ch" and "im_seq_target m < 64"
  shows "chan_inv (fst (insert_req_ipmi_msg env m ch))"
proof -
  let ?ch = "drop_oldest ch"
  have d: "chan_inv ?ch" "length (ch_reqs ?ch) < 15" using drop_oldest_inv [OF assms(1)] by auto
  have "unat (ch_seq_current_count ?ch + 1) = Suc (length (ch_reqs ?ch))"
    using d by (subst unat_plus_no_wrap) (simp_all add: chan_inv_def)
  then have "chan_inv (?ch\<lparr>ch_reqs := ch_reqs ?ch @ [m\<lparr>im_timestamp := ev_now env\<rparr>], ch_seq_current_count := ch_seq_current_count ?ch + 1\<rparr>)"
    using d assms(2) by (simp add: chan_inv_def)
  then show ?thesis using assms(1) d(1) by (simp add: insert_req_ipmi_msg_def Let_def)
qed

lemma insert_msg: "snd (insert_req_ipmi_msg env m ch) \<in> {m, m\<lparr>im_timestamp := ev_now env\<rparr>}"
  by (simp add: insert_req_ipmi_msg_def Let_def)

lemma find_inv:
  assumes "chan_inv ch" and "find_req_ipmi_msg env m ch = Some (ch', m', b)"
  shows "chan_inv ch' \<and> im_netfn m' = im_netfn m \<and> im_seq m' = im_seq m"
proof (cases "ev_lock_id env \<and> remove_match (answers m) (ch_reqs ch) \<noteq> None")
  case True
  then obtain r rest where r: "remove_match (answers m) (ch_reqs ch) = Some (r, rest)" by auto
  obtain us vs where "ch_reqs ch = us @ r # vs" "rest = us @ vs" by (rule remove_match_Some [OF r])
  then show ?thesis using chan_inv_remove [OF assms(1)] assms(2) True r by (auto simp: find_req_ipmi_msg_def)
next
  case False
  then show ?thesis using assms by (auto simp: find_req_ipmi_msg_def split: if_splits option.splits)
qed

lemma clear_inv:
  assumes "chan_inv ch" and "clear_req_ipmi_msg env m ch = Some ch'"
  shows "chan_inv ch'"
proof -
  let ?P = "\<lambda>r. im_netfn r = im_netfn m \<and> im_cmd r = im_cmd m \<and> im_seq r = im_seq m"
  show ?thesis
  proof (cases "ev_lock_id env \<and> remove_match ?P (ch_reqs ch) \<noteq> None")
    case True
    then obtain r rest where r: "remove_match ?P (ch_reqs ch) = Some (r, rest)" by auto
    obtain us vs where "ch_reqs ch = us @ r # vs" "rest = us @ vs" by (rule remove_match_Some [OF r])
    then show ?thesis using chan_inv_remove [OF assms(1)] assms(2) True r by (auto simp: clear_req_ipmi_msg_def)
  next
    case False
    then show ?thesis using assms by (auto simp: clear_req_ipmi_msg_def split: if_splits option.splits)
  qed
qed

lemma drop_req_inv:
  assumes "chan_inv ch" and "k < length (ch_reqs ch)"
  shows "chan_inv (drop_req k ch)"
  using chan_inv_remove [OF assms(1), of "take k (ch_reqs ch)" "ch_reqs ch ! k" "drop (k + 1) (ch_reqs ch)"] assms(2)
  by (simp add: drop_req_def id_take_nth_drop [symmetric])

lemma timeout_walk_inv: "chan_inv ch \<longrightarrow> chan_inv (timeout_walk old t k ch)"
  by (rule timeout_walk_rule [where Q = "\<lambda>t k ch ch'. chan_inv ch \<longrightarrow> chan_inv ch'"]) (auto simp: drop_req_inv)

lemma send_request_inv:
  assumes "ipmb_inv st" and "ipmb_send_request env m i st = Some (st', m', r)"
  shows "ipmb_inv st'"
proof -
  obtain ch s where g: "get_free_seq (is_chan st i) = (ch, s)" by force
  have ch: "ch = (is_chan st i)\<lparr>ch_current_seq := s\<rparr>" using get_free_seq_chan [of "is_chan st i"] g by simp
  have "s < 64" using get_free_seq_less [of "is_chan st i"] g by (simp add: word_less_nat_alt)
  then have q: "queue_ok (request_cfg cfg s m junk)" for cfg junk by (simp add: queue_ok_def request_cfg_def)
  have "chan_inv ch" using chan_inv_get [OF assms(1), of i] ch by simp
  moreover have "chan_inv (ch\<lparr>ch_txqueue := ch_txqueue ch @ [request_cfg (is_config_table st ! i) s m (ev_msg env)]\<rparr>)"
    using calculation q by (auto simp: chan_inv_def)
  ultimately show ?thesis using assms
    by (auto simp: ipmb_send_request_def g Let_def split: if_splits intro!: ipmb_inv_upd)
qed

lemma even_response: "\<not> IS_RESPONSE m \<Longrightarrow> queue_ok (response_cfg cfg m junk)"
  using response_of_even(1) [of "im_netfn m"] by (simp add: queue_ok_def IS_RESPONSE_def response_cfg_def)

lemma send_response_inv:
  assumes "ipmb_inv st" and "ipmb_send_response env m i st = Some (st', r)" and "\<not> IS_RESPONSE m"
  shows "ipmb_inv st'"
proof -
  have "chan_inv ((is_chan st i)\<lparr>ch_txqueue := ch_txqueue (is_chan st i) @ [response_cfg (is_config_table st ! i) m (ev_msg env)]\<rparr>)"
    using chan_inv_get [OF assms(1), of i] even_response [OF assms(3)] by (auto simp: chan_inv_def)
  then show ?thesis using assms by (auto simp: ipmb_send_response_def Let_def split: if_splits intro!: ipmb_inv_upd)
qed

lemma send_response_to_inv:
  "ipmb_inv st \<Longrightarrow> send_response_to env m chn st = Some st' \<Longrightarrow> \<not> IS_RESPONSE m \<Longrightarrow> ipmb_inv st'"
  by (auto simp: send_response_to_def split: if_splits intro: send_response_inv)

lemma requeue_inv: "ipmb_inv st \<Longrightarrow> queue_ok c \<Longrightarrow> ipmb_inv (requeue i c st)"
  using chan_inv_get [of st i] by (auto simp: requeue_def chan_inv_def msgq_put_def intro!: ipmb_inv_upd)

lemma read_send_inv: "ipmb_inv st \<Longrightarrow> ipmb_read_send env m i st = Some (st', m', r) \<Longrightarrow> ipmb_inv st'"
  by (auto simp: ipmb_read_send_def split: if_splits option.splits intro!: ipmb_inv_upd
      elim!: send_request_inv [rotated])

lemma read_recv_inv: "ipmb_inv st \<Longrightarrow> ipmb_read_recv env m i st = Some (st', m', r) \<Longrightarrow> ipmb_inv st'"
  by (auto simp: ipmb_read_recv_def split: list.splits option.splits intro!: ipmb_inv_upd
      intro: clear_inv chan_inv_get)

lemma give_up_inv: "ipmb_inv st \<Longrightarrow> tx_give_up env m st = Some (st', evs) \<Longrightarrow> ipmb_inv st'"
  by (auto simp: tx_give_up_def Let_def IS_RESPONSE_def NETFN_OEM_1S_REQ_def split: if_splits
      elim!: send_response_to_inv [rotated])

lemma tx_failed_inv:
  assumes inv: "ipmb_inv st" and ch: "chan_inv ch" and s: "im_seq m < 64" and f: "tx_failed env i c m ch st = Some (st', evs)"
  shows "ipmb_inv st'"
proof -
  obtain ch2 m2 b where fr: "find_req_ipmi_msg env m ch = Some (ch2, m2, b)"
    using f by (cases "find_req_ipmi_msg env m ch") (auto simp: tx_failed_def)
  have f2: "chan_inv ch2" "im_seq m2 = im_seq m" using find_inv [OF ch fr] by auto
  have inv2: "ipmb_inv (upd_chan i (\<lambda>_. ch2) st)" using inv f2(1) by (intro ipmb_inv_upd) auto
  have "queue_ok (c\<lparr>mc_buffer := m2, mc_retries := y\<rparr>)" for y using s f2 by (simp add: queue_ok_def)
  then show ?thesis using f fr requeue_inv [OF inv2] give_up_inv [OF inv2]
    by (auto simp: tx_failed_def Let_def split: if_splits)
qed

lemma tx_request_inv:
  assumes inv: "ipmb_inv st" and c: "queue_ok c" "\<not> IS_RESPONSE (mc_buffer c)"
    and tx: "tx_request env i2c_write i c st w = Some (st', w', evs)"
  shows "ipmb_inv st'"
proof (cases "ic_interface (is_config_table st ! i) \<noteq> I2C_IF \<or> \<not> ev_malloc_i2c env")
  case True
  then show ?thesis using inv tx by (auto simp: tx_request_def Let_def)
next
  case False
  let ?m0 = "(mc_buffer c)\<lparr>im_seq_target := im_seq (mc_buffer c)\<rparr>"
  obtain ch m where ins: "insert_req_ipmi_msg env ?m0 (is_chan st i) = (ch, m)" by force
  have s: "im_seq (mc_buffer c) < 64" using c by (simp add: queue_ok_def)
  have ch: "chan_inv ch" using insert_inv [OF chan_inv_get [OF inv, of i], of ?m0 env] s ins by simp
  have m: "im_seq m < 64" using insert_msg [of env ?m0 "is_chan st i"] ins s by auto
  obtain w2 ret where x: "i2c_write w (tx_i2c_msg env (is_config_table st ! i) (ucast (im_data_len (mc_buffer c) + IPMB_REQ_HEADER_LENGTH))
      (ipmb_encode (ev_buffer env) (mc_buffer c))) = (w2, ret)" by force
  show ?thesis using tx False ins x tx_failed_inv [OF inv ch m] inv ch
    by (auto simp: tx_request_def Let_def split: if_splits intro!: ipmb_inv_upd)
qed

lemma tx_response_inv:
  assumes "ipmb_inv st" and "IS_RESPONSE (mc_buffer c)" and "tx_response env i2c_write i c st w = Some (st', w', evs)"
  shows "ipmb_inv st'"
proof -
  have "queue_ok (c\<lparr>mc_buffer := (mc_buffer c)\<lparr>im_dest_addr := a\<rparr>, mc_retries := r\<rparr>)" for a r
    using assms(2) by (simp add: queue_ok_def IS_RESPONSE_def)
  then show ?thesis using assms requeue_inv [OF assms(1)]
    by (auto simp: tx_response_def Let_def split: if_splits prod.splits)
qed

lemma tx_task_inv:
  assumes "ipmb_inv st" and "IPMB_TXTask env i2c_write i st w = Some (st', w', evs)"
  shows "ipmb_inv st'"
proof (cases "ch_txqueue (is_chan st i)")
  case Nil
  then show ?thesis using assms by (simp add: IPMB_TXTask_def)
next
  case (Cons c q)
  have c: "queue_ok c" and "chan_inv ((is_chan st i)\<lparr>ch_txqueue := q\<rparr>)"
    using chan_inv_get [OF assms(1), of i] Cons by (auto simp: chan_inv_def)
  then have inv: "ipmb_inv (upd_chan i (\<lambda>ch. ch\<lparr>ch_txqueue := q\<rparr>) st)" using assms(1) by (intro ipmb_inv_upd) auto
  show ?thesis using assms(2) Cons inv tx_request_inv [OF inv c] tx_response_inv [OF inv]
    by (auto simp: IPMB_TXTask_def Let_def split: if_splits)
qed

lemma rx_deliver_inv:
  assumes "ipmb_inv st" and "IS_RESPONSE m" and "rx_deliver env i m st = Some (st', evs)"
  shows "ipmb_inv st'"
proof -
  have "im_netfn m - 1 AND 1 = 0"
  proof -
    have "bit (im_netfn m) 0" using assms(2) by (simp add: IS_RESPONSE_def and_one_eq odd_iff_mod_2_eq_one bit_0)
    then have "even (im_netfn m - 1)" by (simp add: bit_0)
    then show ?thesis by (simp only: and_one_eq even_iff_mod_2_eq_zero)
  qed
  then have "\<not> IS_RESPONSE (zero_ipmi_msg\<lparr>im_netfn := im_netfn m - 1, im_cmd := a, im_completion_code := b, im_seq := c, im_data_len := d, im_data := e\<rparr>)" for a b c d e
    by (simp add: IS_RESPONSE_def)
  moreover have "\<not> IS_RESPONSE (pal_encode_response_bridge_cmd env m cfg z)" for cfg z
    by (simp add: IS_RESPONSE_def pal_encode_response_bridge_cmd_def NETFN_OEM_1S_REQ_def)
  ultimately show ?thesis using assms(1,3) send_response_to_inv [OF assms(1)]
    by (auto simp: rx_deliver_def Let_def split: if_splits intro!: ipmb_inv_upd)
qed

lemma rx_bridge_inv:
  assumes "ipmb_inv st" and "\<not> IS_RESPONSE m" and "rx_bridge_me env m st = Some st'"
  shows "ipmb_inv st'"
proof -
  let ?b = "zero_ipmi_msg\<lparr>im_data_len := im_data_len m, im_seq_source := im_seq m, im_InF_target := BMC_IPMB,
                im_InF_source := ME_IPMB, im_netfn := im_netfn m, im_cmd := im_cmd m,
                im_data := memcpy_at 0 (take (unat (im_data_len m)) (im_data m)) (im_data zero_ipmi_msg)\<rparr>"
  let ?bmc = "nth0 (is_inf_index_map st) (unat BMC_IPMB)"
  show ?thesis
  proof (cases "ev_use_ipmb env ?bmc")
    case False
    have "\<not> IS_RESPONSE (x\<lparr>im_netfn := im_netfn m, im_seq := im_seq m\<rparr>)" for x using assms(2) by (simp add: IS_RESPONSE_def)
    then show ?thesis using assms False send_response_to_inv [OF assms(1)] by (auto simp: rx_bridge_me_def Let_def)
  next
    case True
    then obtain st1 b r where s: "ipmb_send_request env ?b (unat ?bmc) st = Some (st1, b, r)"
      using assms(3) by (cases "ipmb_send_request env ?b (unat ?bmc) st") (auto simp: rx_bridge_me_def Let_def)
    have inv1: "ipmb_inv st1" by (rule send_request_inv [OF assms(1) s])
    have "im_netfn b = im_netfn m" using s by (auto simp: ipmb_send_request_def Let_def split: if_splits prod.splits)
    then have "\<not> IS_RESPONSE (b\<lparr>im_completion_code := CC_TIMEOUT\<rparr>)" using assms(2) by (simp add: IS_RESPONSE_def)
    then show ?thesis using assms(3) True s inv1 send_response_to_inv [OF inv1]
      by (auto simp: rx_bridge_me_def Let_def split: if_splits)
  qed
qed

lemma rx_task_inv:
  assumes inv: "ipmb_inv st" and rx: "IPMB_RXTask env i f st = Some (st', evs)"
  shows "ipmb_inv st'"
proof -
  have resp: "ipmb_inv s'" if m: "IS_RESPONSE m" and r: "rx_response env i m st = Some (s', evs)" for m s' evs
  proof -
    let ?m = "m\<lparr>im_seq_target := im_seq m\<rparr>"
    obtain ch m2 b where fr: "find_req_ipmi_msg env ?m (is_chan st i) = Some (ch, m2, b)"
      using r by (cases "find_req_ipmi_msg env ?m (is_chan st i)") (auto simp: rx_response_def)
    have f2: "chan_inv ch" "IS_RESPONSE m2" using find_inv [OF chan_inv_get [OF inv] fr] m by (auto simp: IS_RESPONSE_def)
    have inv2: "ipmb_inv (upd_chan i (\<lambda>_. ch) st)" using inv f2(1) by (intro ipmb_inv_upd) auto
    show ?thesis using r fr rx_deliver_inv [OF inv2 f2(2)] inv2 by (auto simp: rx_response_def Let_def split: if_splits)
  qed
  have req: "ipmb_inv s'" if "\<not> IS_RESPONSE (mc_buffer c)" "rx_request env i c st = Some (s', evs)" for c s' evs
    using that inv rx_bridge_inv [OF inv that(1)] by (auto simp: rx_request_def Let_def split: if_splits)
  show ?thesis using rx inv
    by (auto simp: IPMB_RXTask_def Let_def split: if_splits option.splits intro: resp req [rotated])
qed

lemma ipmb_step_inv: "ipmb_step i2c_write st st' \<Longrightarrow> ipmb_inv st \<Longrightarrow> ipmb_inv st'"
proof (induction rule: ipmb_step.induct)
  case (timeout env clock i st st')
  then show ?case using timeout_walk_inv [of "is_chan st i"]
    by (auto simp: seq_timeout_def split: if_splits intro!: ipmb_inv_upd)
qed (auto intro: send_request_inv send_response_inv read_send_inv read_recv_inv tx_task_inv rx_task_inv
    simp: ipmb_tx_suspend_def ipmb_tx_resume_def intro!: ipmb_inv_upd)

lemma create_threads_inv:
  assumes "ipmb_inv st" and "ch_seq_current_count (is_chan st i) = 0"
  shows "ipmb_inv (create_ipmb_threads env ok i st)"
  using assms chan_inv_get [OF assms(1), of i] unfolding create_ipmb_threads_def
  by (intro ipmb_inv_upd) (auto simp: chan_inv_def Let_def)

lemma init_fold_inv:
  assumes "ipmb_inv st" and "\<forall>i. ch_seq_current_count (is_chan st i) = 0"
  shows "ipmb_inv (fold (\<lambda>i st. if en i then create_ipmb_threads env True i st else st) is st)"
  using assms
proof (induction "is" arbitrary: st)
  case (Cons i "is")
  have "\<forall>j. ch_seq_current_count (is_chan (create_ipmb_threads env True i st) j) = 0"
    using Cons.prems(2) by (simp add: create_ipmb_threads_def Let_def)
  then show ?case using Cons create_threads_inv [of st i env True] by simp
qed simp

lemma ipmb_init_inv: "ipmb_inv (ipmb_init env ok cfgs freq ipmb_zero)"
proof -
  have z: "ipmb_inv ipmb_zero" by (simp add: ipmb_inv_def ipmb_zero_def chan_inv_def)
  let ?st = "\<lparr>is_config_table = cfgs, is_inf_index_map = channel_index_mapping cfgs,
                     is_chan = (\<lambda>i. (is_chan ipmb_zero i)\<lparr>ch_current_seq := 0\<rparr>),
                     is_tick_fix = freq div 1000, is_sys_tick_freq = freq, is_mutex_init = True\<rparr>"
  have "ipmb_inv ?st" "\<forall>i. ch_seq_current_count (is_chan ?st i) = 0"
    by (simp_all add: ipmb_inv_def chan_inv_def ipmb_zero_def)
  then show ?thesis using z init_fold_inv [of ?st "\<lambda>i. ic_enable_status (cfgs ! i)" env "[0..<length cfgs]"]
    by (simp add: ipmb_init_def Let_def)
qed

lemma ipmb_reach_inv_all: "(ipmb_step i2c_write)\<^sup>*\<^sup>* (ipmb_init env ok cfgs freq ipmb_zero) st \<Longrightarrow> ipmb_inv st"
  by (induction rule: rtranclp_induct) (auto intro: ipmb_init_inv ipmb_step_inv)

text \<open>
  (C20) In every state the module can reach from its initialisation, with any frames, any failures of
  locks and allocations and any order of its threads and clients, every channel counts its
  waiting requests correctly, holds at most 15 of them, and all their sequence numbers lie within the table.
\<close>

theorem ipmb_reach_inv:
  assumes "(ipmb_step i2c_write)\<^sup>*\<^sup>* (ipmb_init env ok cfgs freq ipmb_zero) st"
  shows "unat (ch_seq_current_count (is_chan st i)) = length (ch_reqs (is_chan st i))
    \<and> length (ch_reqs (is_chan st i)) \<le> 15 \<and> (\<forall>r \<in> set (ch_reqs (is_chan st i)). unat (im_seq_target r) < SEQ_NUM)"
  using ipmb_reach_inv_all [OF assms] by (simp add: ipmb_inv_def chan_inv_def SEQ_NUM_def word_less_nat_alt)

theorem ipmb_reach_inv_witness:
  "unat (ch_seq_current_count (is_chan (ipmb_tx_suspend 0 demo_ipmb) 0)) = length (ch_reqs (is_chan (ipmb_tx_suspend 0 demo_ipmb) 0))"
proof -
  have "(ipmb_step (\<lambda>w x. (w @ [i2c_data x], 0)))\<^sup>*\<^sup>* demo_ipmb (ipmb_tx_suspend 0 demo_ipmb)"
    by (intro r_into_rtranclp ipmb_step.suspend)
  then show ?thesis using ipmb_reach_inv unfolding demo_ipmb_def by blast
qed

text \<open>
  The clean-up drops only requests that are too old, and as many passes as there are old requests
  drop them all; the requests that are not too old stay in the list in their order. Every pass ends,
  although the walk may begin again at the start of the list.
\<close>

theorem ipmb_timeout_clears:
  assumes "length (filter (expired st now) (ch_reqs ch)) \<le> n"
  shows "ch_reqs (((timeout_walk (\<lambda>_. expired st now) 0 0) ^^ n) ch) = filter (\<lambda>r. \<not> expired st now r) (ch_reqs ch)"
  by (rule timeout_passes [OF assms])

theorem ipmb_timeout_clears_witness:
  "ch_reqs (((timeout_walk (\<lambda>_. expired demo_ipmb 5000) 0 0) ^^ 2)
     ((is_chan demo_ipmb 0)\<lparr>ch_reqs := [demo_ipmb_msg, demo_ipmb_msg, demo_ipmb_msg\<lparr>im_timestamp := 4000\<rparr>]\<rparr>))
   = [demo_ipmb_msg\<lparr>im_timestamp := 4000\<rparr>]"
proof -
  have t: "is_tick_fix demo_ipmb = 1" "is_sys_tick_freq demo_ipmb = 1000" "im_timestamp demo_ipmb_msg = 0"
    by (simp_all add: demo_ipmb_def ipmb_init_def demo_ipmb_env_def create_ipmb_threads_def upd_chan_def Let_def
        demo_ipmb_msg_def zero_ipmi_msg_def)
  have e: "expired demo_ipmb 5000 demo_ipmb_msg" "\<not> expired demo_ipmb 5000 (demo_ipmb_msg\<lparr>im_timestamp := 4000\<rparr>)"
    by (simp_all add: expired_def t Let_def IPMB_SEQ_TIMEOUT_MS_def)
  show ?thesis
    by (subst ipmb_timeout_clears) (simp_all add: e)
qed

text \<open>
  One pass is not enough: of two neighbouring requests that are both too old the second is stepped
  over and stays for another period.
\<close>

theorem ipmb_timeout_skips:
  assumes "P a" and "P b" and "\<not> P c" and "ch_reqs ch = [a, b, c]"
  shows "ch_reqs (timeout_walk (\<lambda>_. P) 0 0 ch) = [b, c]"
proof -
  have d: "ch_reqs (drop_req 0 ch) = [b, c]" using assms(4) by simp
  have "timeout_walk (\<lambda>_. P) 0 0 ch = timeout_walk (\<lambda>_. P) (0 + 1) (0 + 1) (drop_req 0 ch)"
    using timeout_walk_drop [of 0 ch "\<lambda>_. P" 0] assms by simp
  also have "\<dots> = timeout_walk (\<lambda>_. P) (0 + 1 + 1) (0 + 1 + 1) (drop_req 0 ch)"
    by (rule timeout_walk_keep) (use d assms(3) in simp_all)
  also have "\<dots> = drop_req 0 ch" by (rule timeout_walk_done) (use d in simp)
  finally show ?thesis using d by simp
qed

theorem ipmb_timeout_skips_witness:
  "ch_reqs (timeout_walk (\<lambda>_ r. im_timestamp r = 0) 0 0
     ((is_chan demo_ipmb 0)\<lparr>ch_reqs := [demo_ipmb_msg, demo_ipmb_msg, demo_ipmb_msg\<lparr>im_timestamp := 4000\<rparr>]\<rparr>))
   = [demo_ipmb_msg, demo_ipmb_msg\<lparr>im_timestamp := 4000\<rparr>]"
  by (rule ipmb_timeout_skips) (simp_all add: demo_ipmb_msg_def zero_ipmi_msg_def)

text \<open>
  A request that comes when 15 are waiting drops the oldest one, but the sequence number of
  the dropped request stays registered although no waiting request has it: the number is lost.
\<close>

theorem ipmb_eviction_leaks:
  assumes "ev_lock_id env" and "ev_malloc_node env" and "ch_circular ch" and "ch_seq_current_count ch = 15"
    and "ch_reqs ch = r # rs" and "ch_seq_table ch (unat (im_seq_target r))"
    and "\<forall>q \<in> set (rs @ [m]). im_seq_target q \<noteq> im_seq_target r"
  shows "let ch' = fst (insert_req_ipmi_msg env m ch) in
    ch_reqs ch' = rs @ [m\<lparr>im_timestamp := ev_now env\<rparr>] \<and> ch_seq_table ch' (unat (im_seq_target r))
    \<and> (\<forall>q \<in> set (ch_reqs ch'). im_seq_target q \<noteq> im_seq_target r)"
  using assms by (simp add: insert_req_ipmi_msg_def drop_oldest_def MAX_SEQ_QUENE_def register_seq_def Let_def)

theorem ipmb_eviction_leaks_witness:
  "let ch' = fst (insert_req_ipmi_msg demo_ipmb_env (demo_ipmb_msg\<lparr>im_seq_target := 20\<rparr>)
     ((is_chan demo_ipmb 0)\<lparr>ch_circular := True, ch_seq_current_count := 15, ch_seq_table := (\<lambda>_. True),
       ch_reqs := demo_ipmb_msg # replicate 14 (demo_ipmb_msg\<lparr>im_seq_target := 7\<rparr>)\<rparr>)) in
   ch_seq_table ch' 0 \<and> (\<forall>q \<in> set (ch_reqs ch'). im_seq_target q \<noteq> 0)"
proof -
  let ?ch = "(is_chan demo_ipmb 0)\<lparr>ch_circular := True, ch_seq_current_count := 15, ch_seq_table := (\<lambda>_. True),
       ch_reqs := demo_ipmb_msg # replicate 14 (demo_ipmb_msg\<lparr>im_seq_target := 7\<rparr>)\<rparr>"
  have t: "im_seq_target demo_ipmb_msg = 0" by (simp add: demo_ipmb_msg_def zero_ipmi_msg_def)
  from ipmb_eviction_leaks [of demo_ipmb_env ?ch demo_ipmb_msg "replicate 14 (demo_ipmb_msg\<lparr>im_seq_target := 7\<rparr>)"
      "demo_ipmb_msg\<lparr>im_seq_target := 20\<rparr>"] demo_ipmb_env_good
  show ?thesis by (simp add: t env_good_def Let_def)
qed

text \<open>
  A failed allocation for a new request leaves a list that is no longer circular: from then on
  no request is recorded, and a response without a matching request makes the receive thread
  read through a null pointer.
\<close>

theorem ipmb_alloc_failure_breaks:
  assumes "ev_lock_id env" and "\<not> ev_malloc_node env" and "ev_lock_id env'" and "ch_seq_current_count ch \<noteq> 15"
    and "\<forall>r \<in> set (ch_reqs ch). \<not> answers resp r"
  shows "let ch' = fst (insert_req_ipmi_msg env m ch) in
    ch_reqs (fst (insert_req_ipmi_msg env' m' ch')) = ch_reqs ch \<and> find_req_ipmi_msg env' resp ch' = None"
proof -
  define ch' where "ch' = fst (insert_req_ipmi_msg env m ch)"
  have c: "\<not> ch_circular ch'" "ch_reqs ch' = ch_reqs ch" "ch_seq_current_count ch' = ch_seq_current_count ch"
    using assms(1,2,4) by (simp_all add: ch'_def insert_req_ipmi_msg_def drop_oldest_def MAX_SEQ_QUENE_def Let_def)
  have "remove_match (answers resp) (ch_reqs ch') = None" using assms(5) c(2) by (simp add: remove_match_None)
  then show ?thesis using c assms(3,4) unfolding ch'_def [symmetric] Let_def
    by (simp add: insert_req_ipmi_msg_def drop_oldest_def MAX_SEQ_QUENE_def find_req_ipmi_msg_def Let_def)
qed

theorem ipmb_alloc_failure_breaks_witness:
  "let ch' = fst (insert_req_ipmi_msg (demo_ipmb_env\<lparr>ev_malloc_node := False\<rparr>) demo_ipmb_msg (is_chan demo_ipmb 0)) in
    find_req_ipmi_msg demo_ipmb_env demo_ipmb_msg ch' = None"
proof -
  have "unat (ch_seq_current_count (is_chan demo_ipmb 0)) = 0" using demo_ipmb_ready(3,8) by (simp add: chan_ready_def)
  then have c: "ch_seq_current_count (is_chan demo_ipmb 0) \<noteq> 15" by (auto simp: word_unat_eq_iff)
  then show ?thesis using ipmb_alloc_failure_breaks [of "demo_ipmb_env\<lparr>ev_malloc_node := False\<rparr>" demo_ipmb_env "is_chan demo_ipmb 0" demo_ipmb_msg
      demo_ipmb_msg demo_ipmb_msg] demo_ipmb_ready(8) demo_ipmb_env_good
    by (simp add: env_good_def Let_def)
qed

end
