(* ===== verification/Pldm_Fw_Update.thy ===== *)
theory Pldm_Fw_Update
  imports Pldm_Base "HOL-Library.Sublist"
begin

text \<open>
  The firmware update of PLDM, \<^verbatim>\<open>common/service/pldm/pldm_firmware_update.c\<close>: the commands of the update agent,
  which drive a state machine, and the thread that downloads an image.

  The static variables of the file form one record. The functions of the platform's component
  table work on a world of any type and get the update configuration; they are \<^verbatim>\<open>None\<close> where the
  table has a null pointer. A result \<^verbatim>\<open>None\<close> of a function of the model is an access out of bounds, a
  division by zero or a call that does not return.
\<close>

section \<open>Constants and data\<close>

definition MAX_FWUPDATE_RSP_BUF_SIZE :: u16 where "MAX_FWUPDATE_RSP_BUF_SIZE = 256"
definition MIN_FW_UPDATE_BASELINE_TRANS_SIZE :: u32 where "MIN_FW_UPDATE_BASELINE_TRANS_SIZE = 32"
definition PLDM_NO_SUPPORT_PROGRESS_PERCENT :: u8 where "PLDM_NO_SUPPORT_PROGRESS_PERCENT = 0x65"
definition UPDATE_REQUEST_DATA_MAX_RETRY_COUNT :: nat where "UPDATE_REQUEST_DATA_MAX_RETRY_COUNT = 3"
definition UPDATE_THREAD_DELAY_SECOND :: u16 where "UPDATE_THREAD_DELAY_SECOND = 1"
definition COMP_STR_SIZE :: nat where "COMP_STR_SIZE = 100"

definition PLDM_FW_UPDATE_CC_NOT_IN_UPDATE_MODE :: u8 where "PLDM_FW_UPDATE_CC_NOT_IN_UPDATE_MODE = 0x80"
definition PLDM_FW_UPDATE_CC_ALREADY_IN_UPDATE_MODE :: u8 where "PLDM_FW_UPDATE_CC_ALREADY_IN_UPDATE_MODE = 0x81"
definition PLDM_FW_UPDATE_CC_DATA_OUT_OF_RANGE :: u8 where "PLDM_FW_UPDATE_CC_DATA_OUT_OF_RANGE = 0x82"
definition PLDM_FW_UPDATE_CC_INVALID_STATE_FOR_COMMAND :: u8 where "PLDM_FW_UPDATE_CC_INVALID_STATE_FOR_COMMAND = 0x84"
definition PLDM_FW_UPDATE_CC_SELF_CONTAINED_ACTIVATION_NOT_PERMITTED :: u8 where
  "PLDM_FW_UPDATE_CC_SELF_CONTAINED_ACTIVATION_NOT_PERMITTED = 0x8C"
definition PLDM_FW_UPDATE_GENERIC_ERROR :: u8 where "PLDM_FW_UPDATE_GENERIC_ERROR = 0x0A"
definition PLDM_COMP_DOWNSTREAM_DEVICE :: u16 where "PLDM_COMP_DOWNSTREAM_DEVICE = 0xFFFF"
definition COMP_RSP_CAN_UPDATE :: u8 where "COMP_RSP_CAN_UPDATE = 0"
definition COMP_RSP_FD_NOT_SUPPORT :: u8 where "COMP_RSP_FD_NOT_SUPPORT = 6"
definition COMP_RSP_UNKNOWN_ERR :: u8 where "COMP_RSP_UNKNOWN_ERR = 0xD0"
definition COMP_ACT_SELF :: u16 where "COMP_ACT_SELF = 2"
definition COMP_ACT_DC_PWR_CYCLE :: u16 where "COMP_ACT_DC_PWR_CYCLE = 0x10"
definition COMP_ACT_AC_PWR_CYCLE :: u16 where "COMP_ACT_AC_PWR_CYCLE = 0x20"

lemmas fw_ccs =
  PLDM_FW_UPDATE_CC_NOT_IN_UPDATE_MODE_def PLDM_FW_UPDATE_CC_ALREADY_IN_UPDATE_MODE_def
  PLDM_FW_UPDATE_CC_DATA_OUT_OF_RANGE_def PLDM_FW_UPDATE_CC_INVALID_STATE_FOR_COMMAND_def
  PLDM_FW_UPDATE_CC_SELF_CONTAINED_ACTIVATION_NOT_PERMITTED_def PLDM_SUCCESS_def PLDM_ERROR_def
  PLDM_ERROR_INVALID_DATA_def PLDM_ERROR_INVALID_LENGTH_def

subsection \<open>Commands\<close>

definition PLDM_FW_UPDATE_CMD_CODE_QUERY_DEVICE_IDENTIFIERS :: u8 where
  "PLDM_FW_UPDATE_CMD_CODE_QUERY_DEVICE_IDENTIFIERS = 0x01"
definition PLDM_FW_UPDATE_CMD_CODE_GET_FIRMWARE_PARAMETERS :: u8 where
  "PLDM_FW_UPDATE_CMD_CODE_GET_FIRMWARE_PARAMETERS = 0x02"
definition PLDM_FW_UPDATE_CMD_CODE_QUERY_DOWNSTREAM_DEVICES :: u8 where
  "PLDM_FW_UPDATE_CMD_CODE_QUERY_DOWNSTREAM_DEVICES = 0x03"
definition PLDM_FW_UPDATE_CMD_CODE_QUERY_DOWNSTREAM_IDENTIFIERS :: u8 where
  "PLDM_FW_UPDATE_CMD_CODE_QUERY_DOWNSTREAM_IDENTIFIERS = 0x04"
definition PLDM_FW_UPDATE_CMD_CODE_GET_DOWNSTREAM_FW_PARAMETERS :: u8 where
  "PLDM_FW_UPDATE_CMD_CODE_GET_DOWNSTREAM_FW_PARAMETERS = 0x05"
definition PLDM_FW_UPDATE_CMD_CODE_REQUEST_UPDATE :: u8 where "PLDM_FW_UPDATE_CMD_CODE_REQUEST_UPDATE = 0x10"
definition PLDM_FW_UPDATE_CMD_CODE_PASS_COMPONENT_TABLE :: u8 where
  "PLDM_FW_UPDATE_CMD_CODE_PASS_COMPONENT_TABLE = 0x13"
definition PLDM_FW_UPDATE_CMD_CODE_UPDATE_COMPONENT :: u8 where "PLDM_FW_UPDATE_CMD_CODE_UPDATE_COMPONENT = 0x14"
definition PLDM_FW_UPDATE_CMD_CODE_REQUEST_FIRMWARE_DATA :: u8 where
  "PLDM_FW_UPDATE_CMD_CODE_REQUEST_FIRMWARE_DATA = 0x15"
definition PLDM_FW_UPDATE_CMD_CODE_TRANSFER_COMPLETE :: u8 where "PLDM_FW_UPDATE_CMD_CODE_TRANSFER_COMPLETE = 0x16"
definition PLDM_FW_UPDATE_CMD_CODE_VERIFY_COMPLETE :: u8 where "PLDM_FW_UPDATE_CMD_CODE_VERIFY_COMPLETE = 0x17"
definition PLDM_FW_UPDATE_CMD_CODE_APPLY_COMPLETE :: u8 where "PLDM_FW_UPDATE_CMD_CODE_APPLY_COMPLETE = 0x18"
definition PLDM_FW_UPDATE_CMD_CODE_ACTIVE_FIRMWARE :: u8 where "PLDM_FW_UPDATE_CMD_CODE_ACTIVE_FIRMWARE = 0x1A"
definition PLDM_FW_UPDATE_CMD_CODE_GET_STATUS :: u8 where "PLDM_FW_UPDATE_CMD_CODE_GET_STATUS = 0x1B"
definition PLDM_FW_UPDATE_CMD_CODE_CANCEL_UPDATE :: u8 where "PLDM_FW_UPDATE_CMD_CODE_CANCEL_UPDATE = 0x1D"

lemmas fw_cmds =
  PLDM_FW_UPDATE_CMD_CODE_QUERY_DEVICE_IDENTIFIERS_def PLDM_FW_UPDATE_CMD_CODE_GET_FIRMWARE_PARAMETERS_def
  PLDM_FW_UPDATE_CMD_CODE_QUERY_DOWNSTREAM_DEVICES_def PLDM_FW_UPDATE_CMD_CODE_QUERY_DOWNSTREAM_IDENTIFIERS_def
  PLDM_FW_UPDATE_CMD_CODE_GET_DOWNSTREAM_FW_PARAMETERS_def PLDM_FW_UPDATE_CMD_CODE_REQUEST_UPDATE_def
  PLDM_FW_UPDATE_CMD_CODE_PASS_COMPONENT_TABLE_def PLDM_FW_UPDATE_CMD_CODE_UPDATE_COMPONENT_def
  PLDM_FW_UPDATE_CMD_CODE_REQUEST_FIRMWARE_DATA_def PLDM_FW_UPDATE_CMD_CODE_TRANSFER_COMPLETE_def
  PLDM_FW_UPDATE_CMD_CODE_VERIFY_COMPLETE_def PLDM_FW_UPDATE_CMD_CODE_APPLY_COMPLETE_def
  PLDM_FW_UPDATE_CMD_CODE_ACTIVE_FIRMWARE_def PLDM_FW_UPDATE_CMD_CODE_GET_STATUS_def
  PLDM_FW_UPDATE_CMD_CODE_CANCEL_UPDATE_def

subsection \<open>State\<close>

datatype fw_state = STATE_IDLE | STATE_LEARN_COMP | STATE_RDY_XFER | STATE_DOWNLOAD | STATE_VERIFY
  | STATE_APPLY | STATE_ACTIVATE

fun fw_state_code :: "fw_state \<Rightarrow> u8" where
  "fw_state_code STATE_IDLE = 0"
| "fw_state_code STATE_LEARN_COMP = 1"
| "fw_state_code STATE_RDY_XFER = 2"
| "fw_state_code STATE_DOWNLOAD = 3"
| "fw_state_code STATE_VERIFY = 4"
| "fw_state_code STATE_APPLY = 5"
| "fw_state_code STATE_ACTIVATE = 6"

datatype fw_aux_state = STATE_AUX_INPROGRESS | STATE_AUX_SUCCESS | STATE_AUX_FAILED | STATE_AUX_NOT_IN_UPDATE

fun fw_aux_code :: "fw_aux_state \<Rightarrow> u8" where
  "fw_aux_code STATE_AUX_INPROGRESS = 0"
| "fw_aux_code STATE_AUX_SUCCESS = 1"
| "fw_aux_code STATE_AUX_FAILED = 2"
| "fw_aux_code STATE_AUX_NOT_IN_UPDATE = 3"

datatype fd_update_interface = COMP_UPDATE_VIA_UNKNOWN | COMP_UPDATE_VIA_I2C | COMP_UPDATE_VIA_SPI
  | COMP_UPDATE_VIA_JTAG

record pldm_fw_update_param =
  up_comp_id :: u16
  up_comp_version_str :: bytes
  up_data :: bytes
  up_data_ofs :: u32
  up_data_len :: u32
  up_next_ofs :: u32
  up_next_len :: u32
  up_inf :: fd_update_interface
  up_bus :: u8
  up_addr :: u8

record pldm_fw_update_cfg =
  uc_image_size :: u32
  uc_max_buff_size :: u16

type_synonym 'w fwupdate_func =
  "pldm_fw_update_cfg \<Rightarrow> 'w \<Rightarrow> pldm_fw_update_param \<Rightarrow> ('w \<times> pldm_fw_update_param \<times> u8) option"

text \<open>
  \<^verbatim>\<open>get_fw_version_fn\<close> is called with a null buffer for the length and with a buffer for the string;
  \<^verbatim>\<open>pi_fw_version\<close> has the result of both calls, \<^verbatim>\<open>None\<close> for a call that returns false.
\<close>

record 'w pldm_fw_update_info =
  pi_enable :: bool
  pi_comp_classification :: u16
  pi_comp_identifier :: u16
  pi_comp_classification_index :: u8
  pi_pre_update_func :: "'w fwupdate_func option"
  pi_update_func :: "'w fwupdate_func option"
  pi_pos_update_func :: "'w fwupdate_func option"
  pi_inf :: fd_update_interface
  pi_activate_method :: u16
  pi_self_apply_work_func :: "('w \<Rightarrow> 'w \<times> u8) option"
  pi_self_act_func :: "('w \<Rightarrow> 'w \<times> u8) option"
  pi_fw_version :: "(u8 option \<times> bytes option) option"
  pi_pending_version :: "bytes option"
  pi_comp_version_str :: "bytes option"

text \<open>
  \<^verbatim>\<open>fu_timer\<close> says whether the update mode timer runs, \<^verbatim>\<open>fu_thread\<close> is the instance and the parameters an
  update thread was started with, and \<^verbatim>\<open>fu_overrun\<close> records a copy behind the 100 bytes of
  \<^verbatim>\<open>cur_update_comp_str\<close>.
\<close>

record 'w fwu =
  fu_state :: fw_state
  fu_prev :: fw_state
  fu_aux :: fw_aux_state
  fu_comp_cnt :: u16
  fu_rcv_cnt :: u16
  fu_comp_id :: u16
  fu_comp_str :: bytes
  fu_keep :: bool
  fu_cfg :: pldm_fw_update_cfg
  fu_timer :: bool
  fu_thread :: "(nat \<times> mctp_ext_params) option"
  fu_config :: "'w pldm_fw_update_info list"
  fu_world :: 'w
  fu_overrun :: bool

definition c_str :: "bytes \<Rightarrow> bytes" where
  "c_str bs = takeWhile (\<lambda>b. b \<noteq> 0) bs"

definition unknown_str :: bytes where
  "unknown_str = [0x75, 0x6E, 0x6B, 0x6E, 0x6F, 0x77, 0x6E, 0]"

section \<open>The state machine\<close>

definition state_update :: "fw_state \<Rightarrow> 'w fwu \<Rightarrow> 'w fwu" where
  "state_update st s = s\<lparr>fu_prev := fu_state s, fu_state := st, fu_timer := (st \<noteq> STATE_IDLE)\<rparr>"

definition pldm_status_reset :: "'w fwu \<Rightarrow> 'w fwu" where
  "pldm_status_reset s = (state_update STATE_IDLE s)\<lparr>fu_aux := STATE_AUX_NOT_IN_UPDATE, fu_comp_id := - 1,
     fu_comp_cnt := 0, fu_rcv_cnt := 0, fu_comp_str := memcpy_at 0 unknown_str (fu_comp_str s), fu_keep := False\<rparr>"

text \<open>The handler of the update mode timer.\<close>

definition exit_update_mode :: "'w fwu \<Rightarrow> 'w fwu" where
  "exit_update_mode s = pldm_status_reset s"

text \<open>\<^verbatim>\<open>work\<close> is the platform's \<^verbatim>\<open>plat_find_update_info_work\<close>; by default it is the identity.\<close>

definition verify_comp :: "(u16 \<Rightarrow> u16) \<Rightarrow> u16 \<Rightarrow> u16 \<Rightarrow> u8 \<Rightarrow> 'w fwu \<Rightarrow> u8" where
  "verify_comp work comp_class comp_id comp_class_idx s =
    (if fu_config s = [] then COMP_RSP_UNKNOWN_ERR
     else if \<exists>c \<in> set (fu_config s). pi_enable c \<and> comp_class = pi_comp_classification c
          \<and> work comp_id = pi_comp_identifier c \<and> comp_class_idx = pi_comp_classification_index c
     then COMP_RSP_CAN_UPDATE else COMP_RSP_FD_NOT_SUPPORT)"

text \<open>
  The loop of \<^verbatim>\<open>do_self_activate\<close> over the component table: the new table, the world and the result.
  \<^verbatim>\<open>heap i\<close> says whether the allocation for entry \<^verbatim>\<open>i\<close> succeeds.
\<close>

fun self_activate_loop ::
  "(nat \<Rightarrow> bool) \<Rightarrow> u16 \<Rightarrow> bytes \<Rightarrow> nat \<Rightarrow> 'w pldm_fw_update_info list \<Rightarrow> 'w
     \<Rightarrow> 'w pldm_fw_update_info list \<times> 'w \<times> u8" where
  "self_activate_loop heap comp_id str i [] w = ([], w, 0)"
| "self_activate_loop heap comp_id str i (c # cs) w =
    (if pi_comp_identifier c \<noteq> comp_id
     then (case self_activate_loop heap comp_id str (i + 1) cs w of (cs, w, r) \<Rightarrow> (c # cs, w, r))
     else (case (if pi_activate_method c = COMP_ACT_SELF then pi_self_act_func c else None) of
         Some act \<Rightarrow> (case act w of (w, r) \<Rightarrow> (c # cs, w, if r \<noteq> 0 then 1 else 0))
       | None \<Rightarrow>
           let c = (if pi_activate_method c = COMP_ACT_AC_PWR_CYCLE \<or> pi_activate_method c = COMP_ACT_DC_PWR_CYCLE
                    then c\<lparr>pi_pending_version := (if heap i then Some str else None)\<rparr> else c) in
           (case self_activate_loop heap comp_id str (i + 1) cs w of (cs, w, r) \<Rightarrow> (c # cs, w, r))))"

definition do_self_activate :: "(nat \<Rightarrow> bool) \<Rightarrow> u16 \<Rightarrow> 'w fwu \<Rightarrow> 'w fwu \<times> u8" where
  "do_self_activate heap comp_id s =
    (case self_activate_loop heap comp_id (c_str (fu_comp_str s)) 0 (fu_config s) (fu_world s) of (cs, w, r) \<Rightarrow>
     (s\<lparr>fu_config := cs, fu_world := w\<rparr>, r))"

section \<open>Commands of the update agent\<close>

text \<open>A refused command answers with its completion code alone and leaves the state as it is.\<close>

abbreviation fw_refuse :: "'w fwu \<Rightarrow> u8 \<Rightarrow> 'w fwu \<times> pldm_result" where
  "fw_refuse s cc \<equiv> (s, \<lparr>pr_resp = [cc], pr_resp_len = 1, pr_rc = PLDM_SUCCESS\<rparr>)"

abbreviation fw_reply :: "'w fwu \<Rightarrow> bytes \<Rightarrow> u16 \<Rightarrow> 'w fwu \<times> pldm_result" where
  "fw_reply s resp n \<equiv> (s, \<lparr>pr_resp = resp, pr_resp_len = n, pr_rc = PLDM_SUCCESS\<rparr>)"

definition request_update :: "'w fwu pldm_cmd_proc_fn" where
  "request_update s buf len instance_id ext =
    (if len \<noteq> 11 + ucast (nth0 buf 10) then fw_refuse s PLDM_ERROR_INVALID_LENGTH
     else if fu_state s \<noteq> STATE_IDLE then fw_refuse s PLDM_FW_UPDATE_CC_ALREADY_IN_UPDATE_MODE
     else
       let max_buff = (ucast (get32 buf 0) :: u16);
           max_buff = (if MAX_FWUPDATE_RSP_BUF_SIZE < max_buff then MAX_FWUPDATE_RSP_BUF_SIZE else max_buff);
           s = s\<lparr>fu_cfg := (fu_cfg s)\<lparr>uc_max_buff_size := max_buff\<rparr>, fu_comp_cnt := get16 buf 4\<rparr> in
       fw_reply ((state_update STATE_LEARN_COMP s)\<lparr>fu_keep := True\<rparr>)
         ([PLDM_SUCCESS] @ le16 0 @ [if get16 buf 7 \<noteq> 0 then 1 else 0]) 4)"

text \<open>The restrictions on the component that both of the following commands check.\<close>

definition comp_refused :: "u16 \<Rightarrow> u16 \<Rightarrow> u8 \<Rightarrow> bool" where
  "comp_refused comp_class comp_id comp_class_idx \<longleftrightarrow>
     comp_class \<noteq> PLDM_COMP_DOWNSTREAM_DEVICE \<or> 0x0FFF < comp_id \<or> comp_class_idx \<noteq> 0"

text \<open>\<^verbatim>\<open>chk\<close> is the platform's \<^verbatim>\<open>plat_pldm_pass_component_table_check\<close>, which by default accepts everything.\<close>

definition pass_component_table :: "(u16 \<Rightarrow> u16) \<Rightarrow> (u16 \<Rightarrow> bytes \<Rightarrow> u8) \<Rightarrow> 'w fwu pldm_cmd_proc_fn" where
  "pass_component_table work chk s buf len instance_id ext =
    (let comp_class = get16 buf 1; comp_id = get16 buf 3; comp_class_idx = nth0 buf 5; ver_len = nth0 buf 11;
         check_result = chk comp_id (slice 12 (unat ver_len) buf) in
     if len \<noteq> 12 + ucast ver_len then fw_refuse s PLDM_ERROR_INVALID_LENGTH
     else if check_result \<noteq> PLDM_SUCCESS then fw_refuse s check_result
     else if fu_state s \<noteq> STATE_LEARN_COMP then fw_refuse s PLDM_FW_UPDATE_CC_INVALID_STATE_FOR_COMMAND
     else if nth0 buf 0 \<noteq> PLDM_START_AND_END then fw_refuse s PLDM_ERROR_INVALID_DATA
     else if comp_refused comp_class comp_id comp_class_idx then fw_refuse s PLDM_ERROR_INVALID_DATA
     else
       let code = verify_comp work comp_class comp_id comp_class_idx s;
           s = s\<lparr>fu_rcv_cnt := fu_rcv_cnt s + 1\<rparr>;
           s = (if fu_rcv_cnt s = fu_comp_cnt s
                then (state_update STATE_RDY_XFER s)\<lparr>fu_rcv_cnt := 0\<rparr> else s) in
       fw_reply s [PLDM_SUCCESS, if code \<noteq> 0 then 1 else 0, code] 3)"

text \<open>\<^verbatim>\<open>heap\<close> says whether the allocation for the thread's parameters succeeds.\<close>

definition update_component ::
  "(u16 \<Rightarrow> u16) \<Rightarrow> bool \<Rightarrow> nat \<Rightarrow> 'w fwu pldm_cmd_proc_fn" where
  "update_component work heap inst s buf len instance_id ext =
    (let comp_class = get16 buf 0; comp_id = get16 buf 2; comp_class_idx = nth0 buf 4; ver_len = nth0 buf 18 in
     if len \<noteq> 19 + ucast ver_len then fw_refuse s PLDM_ERROR_INVALID_LENGTH
     else if fu_state s \<noteq> STATE_RDY_XFER then fw_refuse s PLDM_FW_UPDATE_CC_NOT_IN_UPDATE_MODE
     else if comp_refused comp_class comp_id comp_class_idx then fw_refuse s PLDM_ERROR_INVALID_DATA
     else
       let code = verify_comp work comp_class comp_id comp_class_idx s;
           s = s\<lparr>fu_cfg := (fu_cfg s)\<lparr>uc_image_size := get32 buf 9\<rparr>\<rparr>;
           resp = (\<lambda>cc. [cc, if code \<noteq> 0 then 1 else 0, code] @ slice 13 4 (buf @ zeros 17)
                     @ le16 UPDATE_THREAD_DELAY_SECOND) in
       if code \<noteq> 0 then fw_reply s (resp PLDM_SUCCESS) 9
       else
         let str = memcpy_at 0 (take (unat ver_len) (drop 19 buf @ zeros (unat ver_len)) @ [0]) (fu_comp_str s);
             s = s\<lparr>fu_comp_id := comp_id, fu_comp_str := take COMP_STR_SIZE str,
                   fu_overrun := (fu_overrun s \<or> COMP_STR_SIZE < unat ver_len + 1)\<rparr> in
         if \<not> heap then fw_reply s (resp PLDM_ERROR) 9
         else fw_reply (state_update STATE_DOWNLOAD (s\<lparr>fu_thread := Some (inst, ext)\<rparr>)) (resp PLDM_SUCCESS) 9)"

definition activate_firmware :: "(nat \<Rightarrow> bool) \<Rightarrow> 'w fwu pldm_cmd_proc_fn" where
  "activate_firmware heap s buf len instance_id ext =
    (if len \<noteq> 1 then fw_refuse s PLDM_ERROR_INVALID_LENGTH
     else if fu_state s \<noteq> STATE_RDY_XFER then fw_refuse s PLDM_FW_UPDATE_CC_INVALID_STATE_FOR_COMMAND
     else if nth0 buf 0 \<noteq> 0 then fw_refuse s PLDM_ERROR_INVALID_DATA
     else (case do_self_activate heap (fu_comp_id s) (state_update STATE_ACTIVATE s) of (s, r) \<Rightarrow>
       if r \<noteq> 0
       then fw_refuse (s\<lparr>fu_aux := STATE_AUX_FAILED\<rparr>) PLDM_FW_UPDATE_CC_SELF_CONTAINED_ACTIVATION_NOT_PERMITTED
       else fw_reply (pldm_status_reset (s\<lparr>fu_aux := STATE_AUX_SUCCESS\<rparr>)) ([PLDM_SUCCESS] @ le16 0) 3))"

definition get_status :: "'w fwu pldm_cmd_proc_fn" where
  "get_status s buf len instance_id ext =
    (if len \<noteq> 0 then fw_refuse s PLDM_ERROR_INVALID_LENGTH
     else fw_reply s ([PLDM_SUCCESS, fw_state_code (fu_state s), fw_state_code (fu_prev s), fw_aux_code (fu_aux s),
       if fu_aux s = STATE_AUX_FAILED then 0x0A else 0, PLDM_NO_SUPPORT_PROGRESS_PERCENT, 0] @ le32 0) 11)"

definition cancel_update :: "'w fwu pldm_cmd_proc_fn" where
  "cancel_update s buf len instance_id ext =
    (if len \<noteq> 0 then fw_refuse s PLDM_ERROR_INVALID_LENGTH
     else if fu_state s = STATE_IDLE then fw_refuse s PLDM_FW_UPDATE_CC_NOT_IN_UPDATE_MODE
     else fw_reply (pldm_status_reset s) ([PLDM_SUCCESS, 0] @ zeros 8) 10)"

definition is_update_state_download_phase :: "'w fwu \<Rightarrow> bool" where
  "is_update_state_download_phase s \<longleftrightarrow> fu_state s = STATE_DOWNLOAD"

definition is_update_state_idle :: "'w fwu \<Rightarrow> bool" where
  "is_update_state_idle s \<longleftrightarrow> fu_state s = STATE_IDLE"

definition is_update_state_idle_or_learn_comp :: "'w fwu \<Rightarrow> bool" where
  "is_update_state_idle_or_learn_comp s \<longleftrightarrow> fu_state s = STATE_IDLE \<or> fu_state s = STATE_LEARN_COMP"

section \<open>Firmware versions\<close>

text \<open>
  \<^verbatim>\<open>ver\<close> are the four numbers of the platform's version and \<^verbatim>\<open>bin2hex\<close> the function of the RTOS.
\<close>

definition pldm_get_bic_fw_version :: "(bytes \<Rightarrow> bytes) \<Rightarrow> bytes \<Rightarrow> bytes" where
  "pldm_get_bic_fw_version bin2hex ver =
     bin2hex (take 2 ver) @ [0x2E] @ bin2hex (slice 2 1 ver) @ [0x2E] @ bin2hex (slice 3 1 ver)"

definition fw_error_code :: bytes where
  "fw_error_code = [0x45, 0x52, 0x52, 0x4F, 0x52, 0x3A, 0x30]"

text \<open>The version string that an entry reports: its own or, if there is none, the error string.\<close>

definition version_of :: "bytes option \<Rightarrow> bytes" where
  "version_of v = (case v of None \<Rightarrow> fw_error_code | Some bs \<Rightarrow> bs)"

definition pending_of :: "'w pldm_fw_update_info \<Rightarrow> bytes" where
  "pending_of c = (case pi_pending_version c of None \<Rightarrow> [] | Some bs \<Rightarrow> bs)"

definition component_parameter_entry :: "'w pldm_fw_update_info \<Rightarrow> bytes option \<Rightarrow> bytes" where
  "component_parameter_entry c v =
     le16 (pi_comp_classification c) @ le16 (pi_comp_identifier c) @ [0] @ le32 0
     @ [1, of_nat (length (version_of v))] @ zeros 8
     @ le32 0 @ [1, of_nat (length (pending_of c))] @ zeros 8
     @ le16 (pi_activate_method c) @ le32 0 @ version_of v @ pending_of c"

text \<open>The number of bytes the code expects an entry to need.\<close>

definition needed_len :: "'w pldm_fw_update_info \<Rightarrow> u8 option \<Rightarrow> nat" where
  "needed_len c probe = 39 + (case probe of None \<Rightarrow> length fw_error_code | Some n \<Rightarrow> unat n) + length (pending_of c)"

text \<open>
  The loop over the components: the entries and their number, and whether it ran to the end. \<^verbatim>\<open>used\<close> is the
  number of bytes in front of the entry.
\<close>

fun parameter_loop :: "nat \<Rightarrow> 'w pldm_fw_update_info list \<Rightarrow> bytes \<times> nat \<times> bool" where
  "parameter_loop used [] = ([], 0, True)"
| "parameter_loop used (c # cs) =
    (case pi_fw_version c of
       None \<Rightarrow> parameter_loop used cs
     | Some (probe, v) \<Rightarrow>
       if PLDM_MAX_DATA_SIZE < used + needed_len c probe then ([], 0, False)
       else
         let e = component_parameter_entry c v in
         (case parameter_loop (used + length e) cs of (es, n, ok) \<Rightarrow> (e @ es, n + 1, ok)))"

definition get_firmware_parameter :: "(bytes \<Rightarrow> bytes) \<Rightarrow> bytes \<Rightarrow> 'w fwu pldm_cmd_proc_fn" where
  "get_firmware_parameter bin2hex ver s buf len instance_id ext =
    (if len \<noteq> 0 then fw_refuse s PLDM_ERROR_INVALID_LENGTH
     else
       let v = pldm_get_bic_fw_version bin2hex ver in
       (case parameter_loop (11 + length v) (fu_config s) of (es, n, ok) \<Rightarrow>
        fw_reply s ([if ok then PLDM_SUCCESS else PLDM_ERROR] @ le32 0 @ le16 (of_nat n)
            @ [1, of_nat (length v), 0, 0] @ v @ es)
          (if ok then of_nat (11 + length v + length es) else 11)))"

definition downstream_parameter_entry :: "'w pldm_fw_update_info \<Rightarrow> bytes option \<Rightarrow> bytes" where
  "downstream_parameter_entry c v =
     le16 (pi_comp_identifier c) @ le32 0 @ [1, of_nat (length (version_of v))] @ zeros 8
     @ le32 0 @ [1, of_nat (length (pending_of c))] @ zeros 8
     @ le16 (pi_activate_method c) @ le32 0 @ version_of v @ pending_of c"

fun downstream_loop :: "nat \<Rightarrow> 'w pldm_fw_update_info list \<Rightarrow> bytes \<times> nat \<times> bool" where
  "downstream_loop used [] = ([], 0, True)"
| "downstream_loop used (c # cs) =
    (case pi_fw_version c of
       None \<Rightarrow> downstream_loop used cs
     | Some (probe, v) \<Rightarrow>
       if PLDM_MAX_DATA_SIZE < used then ([], 0, False)
       else
         let e = downstream_parameter_entry c v in
         (case downstream_loop (used + length e) cs of (es, n, ok) \<Rightarrow> (e @ es, n + 1, ok)))"

text \<open>The first entry of the table is the controller itself and is skipped.\<close>

definition get_downstream_firmware_parameters :: "'w fwu pldm_cmd_proc_fn" where
  "get_downstream_firmware_parameters s buf len instance_id ext =
    (if len \<noteq> 5 then fw_refuse s PLDM_ERROR_INVALID_LENGTH
     else (case downstream_loop 12 (drop 1 (fu_config s)) of (es, n, ok) \<Rightarrow>
       fw_reply s ([if ok then PLDM_SUCCESS else PLDM_ERROR] @ le32 0 @ [0] @ le32 0 @ le16 (of_nat n) @ es)
         (if ok then of_nat (12 + length es) else 1)))"

section \<open>The command table\<close>

text \<open>The commands that only the platform can answer, as they are if it does not.\<close>

definition plat_pldm_query_device_identifiers :: "'w fwu pldm_cmd_proc_fn" where
  "plat_pldm_query_device_identifiers s buf len instance_id ext =
     (s, \<lparr>pr_resp = [PLDM_ERROR_UNSUPPORTED_PLDM_CMD], pr_resp_len = 1, pr_rc = PLDM_ERROR_UNSUPPORTED_PLDM_CMD\<rparr>)"

definition plat_pldm_query_downstream_devices :: "'w fwu pldm_cmd_proc_fn" where
  "plat_pldm_query_downstream_devices s buf len instance_id ext =
     (s, \<lparr>pr_resp = [PLDM_ERROR_UNSUPPORTED_PLDM_CMD], pr_resp_len = 1, pr_rc = PLDM_ERROR_UNSUPPORTED_PLDM_CMD\<rparr>)"

definition plat_pldm_query_downstream_identifiers :: "'w fwu pldm_cmd_proc_fn" where
  "plat_pldm_query_downstream_identifiers s buf len instance_id ext =
     (s, \<lparr>pr_resp = [PLDM_ERROR_UNSUPPORTED_PLDM_CMD], pr_resp_len = 1, pr_rc = PLDM_ERROR_UNSUPPORTED_PLDM_CMD\<rparr>)"

text \<open>What the platform and the RTOS contribute to the commands.\<close>

record 'w fw_plat =
  fp_work :: "u16 \<Rightarrow> u16"
  fp_check :: "u16 \<Rightarrow> bytes \<Rightarrow> u8"
  fp_heap :: bool
  fp_heap_at :: "nat \<Rightarrow> bool"
  fp_bin2hex :: "bytes \<Rightarrow> bytes"
  fp_version :: bytes
  fp_query_device :: "'w fwu pldm_cmd_proc_fn"
  fp_query_downstream :: "'w fwu pldm_cmd_proc_fn"
  fp_query_downstream_ids :: "'w fwu pldm_cmd_proc_fn"

definition pldm_fw_update_cmd_tbl :: "'w fw_plat \<Rightarrow> nat \<Rightarrow> (u8 \<times> 'w fwu pldm_cmd_proc_fn) list" where
  "pldm_fw_update_cmd_tbl p inst =
     [(PLDM_FW_UPDATE_CMD_CODE_QUERY_DEVICE_IDENTIFIERS, fp_query_device p),
      (PLDM_FW_UPDATE_CMD_CODE_GET_FIRMWARE_PARAMETERS, get_firmware_parameter (fp_bin2hex p) (fp_version p)),
      (PLDM_FW_UPDATE_CMD_CODE_QUERY_DOWNSTREAM_DEVICES, fp_query_downstream p),
      (PLDM_FW_UPDATE_CMD_CODE_QUERY_DOWNSTREAM_IDENTIFIERS, fp_query_downstream_ids p),
      (PLDM_FW_UPDATE_CMD_CODE_GET_DOWNSTREAM_FW_PARAMETERS, get_downstream_firmware_parameters),
      (PLDM_FW_UPDATE_CMD_CODE_REQUEST_UPDATE, request_update),
      (PLDM_FW_UPDATE_CMD_CODE_PASS_COMPONENT_TABLE, pass_component_table (fp_work p) (fp_check p)),
      (PLDM_FW_UPDATE_CMD_CODE_UPDATE_COMPONENT, update_component (fp_work p) (fp_heap p) inst),
      (PLDM_FW_UPDATE_CMD_CODE_ACTIVE_FIRMWARE, activate_firmware (fp_heap_at p)),
      (PLDM_FW_UPDATE_CMD_CODE_GET_STATUS, get_status),
      (PLDM_FW_UPDATE_CMD_CODE_CANCEL_UPDATE, cancel_update)]"

text \<open>The table of components, which the first query loads, is part of the state from the start.\<close>

definition pldm_fw_update_handler_query :: "'w fw_plat \<Rightarrow> nat \<Rightarrow> 'w fwu handler_query" where
  "pldm_fw_update_handler_query p inst code = map_of (pldm_fw_update_cmd_tbl p inst) code"

subsection \<open>Reference definitions and examples\<close>

text \<open>What the platform's query functions must not do, and the steps of the state machine.\<close>

definition fw_plat_ok :: "'w fw_plat \<Rightarrow> bool" where
  "fw_plat_ok p \<longleftrightarrow> (\<forall>s buf len i ext. fst (fp_query_device p s buf len i ext) = s
     \<and> fst (fp_query_downstream p s buf len i ext) = s \<and> fst (fp_query_downstream_ids p s buf len i ext) = s)"

text \<open>
  What can happen to the state: a command of the agent, the expiry of the timer and a step of the update thread. The
  steps of the thread are the assignments it makes: the state of the machine, the auxiliary state, a restart of
  the timer, the device, the end of the thread and the reset.
\<close>

datatype 'w thread_act = Act_state fw_state | Act_aux fw_aux_state | Act_timer | Act_world 'w | Act_end | Act_reset

datatype 'w fw_event = Agent u8 bytes mctp_ext_params | Expiry | Thread "'w thread_act"

fun thread_step :: "'w thread_act \<Rightarrow> 'w fwu \<Rightarrow> 'w fwu" where
  "thread_step (Act_state st) s = state_update st s"
| "thread_step (Act_aux a) s = s\<lparr>fu_aux := a\<rparr>"
| "thread_step Act_timer s = s\<lparr>fu_timer := True\<rparr>"
| "thread_step (Act_world w) s = s\<lparr>fu_world := w\<rparr>"
| "thread_step Act_end s = s\<lparr>fu_cfg := (fu_cfg s)\<lparr>uc_image_size := 0\<rparr>, fu_thread := None\<rparr>"
| "thread_step Act_reset s = pldm_status_reset s"

fun fw_step :: "'w fw_plat \<Rightarrow> nat \<Rightarrow> 'w fw_event \<Rightarrow> 'w fwu \<Rightarrow> 'w fwu" where
  "fw_step p inst (Agent cmd data ext) s =
    (case pldm_fw_update_handler_query p inst cmd of
       None \<Rightarrow> s | Some fn \<Rightarrow> fst (fn s data (of_nat (length data)) 0 ext))"
| "fw_step p inst Expiry s = (if fu_timer s then exit_update_mode s else s)"
| "fw_step p inst (Thread a) s = thread_step a s"

definition fw_run :: "'w fw_plat \<Rightarrow> nat \<Rightarrow> 'w fw_event list \<Rightarrow> 'w fwu \<Rightarrow> 'w fwu" where
  "fw_run p inst es s = fold (fw_step p inst) es s"

text \<open>
  A step of the thread is timely when the state is still the one in which the thread sent its report, or, for the
  restart of the timer, when an update is under way. The code does not check this.
\<close>

fun fw_timely :: "'w fw_event \<Rightarrow> fw_state \<Rightarrow> bool" where
  "fw_timely (Thread (Act_state st)) a \<longleftrightarrow>
     (a, st) \<in> {(STATE_DOWNLOAD, STATE_VERIFY), (STATE_VERIFY, STATE_APPLY), (STATE_APPLY, STATE_RDY_XFER)}"
| "fw_timely (Thread Act_timer) a \<longleftrightarrow> a \<noteq> STATE_IDLE"
| "fw_timely _ a \<longleftrightarrow> True"

fun fw_timely_run :: "'w fw_plat \<Rightarrow> nat \<Rightarrow> 'w fw_event list \<Rightarrow> 'w fwu \<Rightarrow> bool" where
  "fw_timely_run p inst [] s \<longleftrightarrow> True"
| "fw_timely_run p inst (e # es) s \<longleftrightarrow> fw_timely e (fu_state s) \<and> fw_timely_run p inst es (fw_step p inst e s)"

text \<open>The state with the number of components whose description is still to come, and the events that change it.\<close>

definition fw_mark :: "'w fwu \<Rightarrow> fw_state \<times> u16" where
  "fw_mark s = (fu_state s, if fu_state s = STATE_LEARN_COMP then fu_comp_cnt s - fu_rcv_cnt s else 0)"

fun fw_changes :: "'w fw_plat \<Rightarrow> nat \<Rightarrow> 'w fw_event list \<Rightarrow> 'w fwu \<Rightarrow> 'w fw_event list" where
  "fw_changes p inst [] s = []"
| "fw_changes p inst (e # es) s =
    (if fw_mark (fw_step p inst e s) = fw_mark s then [] else [e]) @ fw_changes p inst es (fw_step p inst e s)"

text \<open>The state machine of the update, and the courses it allows from the idle state.\<close>

inductive fw_next :: "'w fw_event \<Rightarrow> fw_state \<times> u16 \<Rightarrow> fw_state \<times> u16 \<Rightarrow> bool" where
  fn_request: "fw_next (Agent PLDM_FW_UPDATE_CMD_CODE_REQUEST_UPDATE data ext) (STATE_IDLE, 0)
    (STATE_LEARN_COMP, get16 data 4)"
| fn_pass: "n \<noteq> 1 \<Longrightarrow> fw_next (Agent PLDM_FW_UPDATE_CMD_CODE_PASS_COMPONENT_TABLE data ext) (STATE_LEARN_COMP, n)
    (STATE_LEARN_COMP, n - 1)"
| fn_last: "fw_next (Agent PLDM_FW_UPDATE_CMD_CODE_PASS_COMPONENT_TABLE data ext) (STATE_LEARN_COMP, 1) (STATE_RDY_XFER, 0)"
| fn_update: "fw_next (Agent PLDM_FW_UPDATE_CMD_CODE_UPDATE_COMPONENT data ext) (STATE_RDY_XFER, 0) (STATE_DOWNLOAD, 0)"
| fn_verify: "fw_next (Thread (Act_state STATE_VERIFY)) (STATE_DOWNLOAD, 0) (STATE_VERIFY, 0)"
| fn_apply: "fw_next (Thread (Act_state STATE_APPLY)) (STATE_VERIFY, 0) (STATE_APPLY, 0)"
| fn_ready: "fw_next (Thread (Act_state STATE_RDY_XFER)) (STATE_APPLY, 0) (STATE_RDY_XFER, 0)"
| fn_activate: "fw_next (Agent PLDM_FW_UPDATE_CMD_CODE_ACTIVE_FIRMWARE data ext) (STATE_RDY_XFER, 0) (STATE_ACTIVATE, 0)"
| fn_activated: "fw_next (Agent PLDM_FW_UPDATE_CMD_CODE_ACTIVE_FIRMWARE data ext) (STATE_RDY_XFER, 0) (STATE_IDLE, 0)"
| fn_cancel: "a \<noteq> STATE_IDLE \<Longrightarrow> fw_next (Agent PLDM_FW_UPDATE_CMD_CODE_CANCEL_UPDATE data ext) (a, n) (STATE_IDLE, 0)"
| fn_expiry: "a \<noteq> STATE_IDLE \<Longrightarrow> fw_next Expiry (a, n) (STATE_IDLE, 0)"
| fn_gave_up: "a \<noteq> STATE_IDLE \<Longrightarrow> fw_next (Thread Act_reset) (a, n) (STATE_IDLE, 0)"

inductive fw_course :: "'w fw_event list \<Rightarrow> fw_state \<times> u16 \<Rightarrow> bool" where
  fc_idle: "fw_course [] (STATE_IDLE, 0)"
| fc_next: "fw_course h m \<Longrightarrow> fw_next e m m' \<Longrightarrow> fw_course (h @ [e]) m'"

inductive_cases fw_next_activateE: "fw_next e (STATE_ACTIVATE, 0) m"

text \<open>The number of components a request announces; 0 stands for 65536, because the counter wraps around.\<close>

definition announced :: "bytes \<Rightarrow> nat" where
  "announced data = unat (get16 data 4 - 1) + 1"

definition is_pass :: "'w fw_event \<Rightarrow> bool" where
  "is_pass e \<longleftrightarrow> (case e of Agent cmd data ext \<Rightarrow> cmd = PLDM_FW_UPDATE_CMD_CODE_PASS_COMPONENT_TABLE | _ \<Rightarrow> False)"

text \<open>The events between the description of the components and the end of the update.\<close>

definition is_work :: "'w fw_event \<Rightarrow> bool" where
  "is_work e \<longleftrightarrow> (case e of
       Agent cmd data ext \<Rightarrow> cmd = PLDM_FW_UPDATE_CMD_CODE_UPDATE_COMPONENT \<or> cmd = PLDM_FW_UPDATE_CMD_CODE_ACTIVE_FIRMWARE
     | Thread (Act_state st) \<Rightarrow> True | _ \<Rightarrow> False)"

definition fw_inv :: "(u16 \<Rightarrow> u16) \<Rightarrow> 'w fwu \<Rightarrow> bool" where
  "fw_inv work s \<longleftrightarrow> length (fu_comp_str s) = COMP_STR_SIZE \<and> (fu_timer s \<longleftrightarrow> fu_state s \<noteq> STATE_IDLE)
     \<and> (fu_keep s \<longleftrightarrow> fu_state s \<noteq> STATE_IDLE)
     \<and> (fu_state s = STATE_IDLE \<longrightarrow> fu_comp_cnt s = 0 \<and> fu_rcv_cnt s = 0)
     \<and> (fu_state s = STATE_DOWNLOAD
          \<longrightarrow> verify_comp work PLDM_COMP_DOWNSTREAM_DEVICE (fu_comp_id s) 0 s = COMP_RSP_CAN_UPDATE)"

definition fw_demo_plat :: "'w fw_plat" where
  "fw_demo_plat = \<lparr>fp_work = (\<lambda>i. i), fp_check = (\<lambda>_ _. PLDM_SUCCESS), fp_heap = True, fp_heap_at = (\<lambda>_. True),
     fp_bin2hex = (\<lambda>bs. concat (map (\<lambda>b. [0x30, 0x30]) bs)), fp_version = [0x20, 0x25, 0x01, 0x02],
     fp_query_device = plat_pldm_query_device_identifiers,
     fp_query_downstream = plat_pldm_query_downstream_devices,
     fp_query_downstream_ids = plat_pldm_query_downstream_identifiers\<rparr>"

definition fw_demo_idle :: "'w pldm_fw_update_info list \<Rightarrow> 'w \<Rightarrow> 'w fwu" where
  "fw_demo_idle cs w = \<lparr>fu_state = STATE_IDLE, fu_prev = STATE_IDLE, fu_aux = STATE_AUX_NOT_IN_UPDATE, fu_comp_cnt = 0,
     fu_rcv_cnt = 0, fu_comp_id = 0, fu_comp_str = zeros COMP_STR_SIZE, fu_keep = False,
     fu_cfg = \<lparr>uc_image_size = 0, uc_max_buff_size = 0\<rparr>, fu_timer = False, fu_thread = None, fu_config = cs,
     fu_world = w, fu_overrun = False\<rparr>"

definition fw_demo_info :: "'w fwupdate_func option \<Rightarrow> 'w pldm_fw_update_info" where
  "fw_demo_info upd = \<lparr>pi_enable = True, pi_comp_classification = PLDM_COMP_DOWNSTREAM_DEVICE, pi_comp_identifier = 3,
     pi_comp_classification_index = 0, pi_pre_update_func = None, pi_update_func = upd, pi_pos_update_func = None,
     pi_inf = COMP_UPDATE_VIA_SPI, pi_activate_method = COMP_ACT_SELF, pi_self_apply_work_func = None,
     pi_self_act_func = None, pi_fw_version = None, pi_pending_version = None, pi_comp_version_str = None\<rparr>"

text \<open>Version functions that tell the length of what they deliver, and components that have a version function.\<close>

definition probe_true :: "'w pldm_fw_update_info \<Rightarrow> bool" where
  "probe_true c \<longleftrightarrow> (case pi_fw_version c of None \<Rightarrow> True
     | Some (probe, v) \<Rightarrow> probe = map_option (\<lambda>bs. of_nat (length bs)) v \<and> length (version_of v) < 256)"

definition has_version :: "'w pldm_fw_update_info \<Rightarrow> bool" where
  "has_version c \<longleftrightarrow> pi_fw_version c \<noteq> None"

definition version_entry :: "'w pldm_fw_update_info \<Rightarrow> bytes" where
  "version_entry c = component_parameter_entry c (snd (the (pi_fw_version c)))"

definition version_entries :: "'w pldm_fw_update_info list \<Rightarrow> bytes" where
  "version_entries cs = concat (map version_entry (filter has_version cs))"

text \<open>The answer to GetFirmwareParameters.\<close>

definition parameters_answer :: "bytes \<Rightarrow> 'w pldm_fw_update_info list \<Rightarrow> bytes" where
  "parameters_answer v cs = [PLDM_SUCCESS] @ le32 0 @ le16 (of_nat (length (filter has_version cs)))
     @ [1, of_nat (length v), 0, 0] @ v @ version_entries cs"

definition long_table :: "unit pldm_fw_update_info list" where
  "long_table = replicate 8 ((fw_demo_info None)\<lparr>pi_fw_version := Some (Some 22, Some (replicate 22 0x31))\<rparr>)"

section \<open>Properties\<close>

lemma state_update_simps [simp]:
  "fu_state (state_update st s) = st" "fu_prev (state_update st s) = fu_state s"
  "fu_timer (state_update st s) = (st \<noteq> STATE_IDLE)" "fu_config (state_update st s) = fu_config s"
  "fu_comp_str (state_update st s) = fu_comp_str s" "fu_keep (state_update st s) = fu_keep s"
  "fu_cfg (state_update st s) = fu_cfg s" "fu_world (state_update st s) = fu_world s"
  "fu_comp_id (state_update st s) = fu_comp_id s" "fu_aux (state_update st s) = fu_aux s"
  "fu_comp_cnt (state_update st s) = fu_comp_cnt s" "fu_rcv_cnt (state_update st s) = fu_rcv_cnt s"
  "fu_thread (state_update st s) = fu_thread s" "fu_overrun (state_update st s) = fu_overrun s"
  by (simp_all add: state_update_def)

lemma pldm_status_reset_simps [simp]:
  "fu_state (pldm_status_reset s) = STATE_IDLE" "\<not> fu_timer (pldm_status_reset s)" "\<not> fu_keep (pldm_status_reset s)"
  "fu_comp_cnt (pldm_status_reset s) = 0" "fu_rcv_cnt (pldm_status_reset s) = 0"
  "length (fu_comp_str s) = COMP_STR_SIZE \<Longrightarrow> length (fu_comp_str (pldm_status_reset s)) = COMP_STR_SIZE"
  "fu_prev (pldm_status_reset s) = fu_state s" "fu_aux (pldm_status_reset s) = STATE_AUX_NOT_IN_UPDATE"
  "fu_config (pldm_status_reset s) = fu_config s" "fu_world (pldm_status_reset s) = fu_world s"
  "fu_cfg (pldm_status_reset s) = fu_cfg s" "fu_comp_id (pldm_status_reset s) = - 1"
  by (simp_all add: pldm_status_reset_def unknown_str_def COMP_STR_SIZE_def)

lemma verify_comp_upd [simp]:
  "verify_comp w c i x (s\<lparr>fu_cfg := cfg\<rparr>) = verify_comp w c i x s"
  "verify_comp w c i x (s\<lparr>fu_comp_id := n\<rparr>) = verify_comp w c i x s"
  "verify_comp w c i x (s\<lparr>fu_comp_str := str\<rparr>) = verify_comp w c i x s"
  "verify_comp w c i x (s\<lparr>fu_overrun := b\<rparr>) = verify_comp w c i x s"
  "verify_comp w c i x (s\<lparr>fu_thread := t\<rparr>) = verify_comp w c i x s"
  "verify_comp w c i x (s\<lparr>fu_aux := a\<rparr>) = verify_comp w c i x s"
  "verify_comp w c i x (s\<lparr>fu_timer := b\<rparr>) = verify_comp w c i x s"
  "verify_comp w c i x (s\<lparr>fu_world := y\<rparr>) = verify_comp w c i x s"
  "verify_comp w c i x (state_update st s) = verify_comp w c i x s"
  by (simp_all add: verify_comp_def)

lemma fw_inv_reset: "fw_inv work s \<Longrightarrow> fw_inv work (pldm_status_reset s)"
  by (simp add: fw_inv_def)

lemma request_update_step:
  assumes "fw_inv work s"
  shows "fw_inv work (fst (request_update s buf len i ext))"
    and "fw_mark (fst (request_update s buf len i ext)) = fw_mark s
      \<or> fw_next (Agent PLDM_FW_UPDATE_CMD_CODE_REQUEST_UPDATE buf ext) (fw_mark s) (fw_mark (fst (request_update s buf len i ext)))"
  using assms by (auto simp: request_update_def fw_inv_def fw_mark_def Let_def intro: fn_request)

lemma pass_component_table_step:
  assumes "fw_inv work s"
  shows "fw_inv work (fst (pass_component_table work' chk s buf len i ext))"
    and "fw_mark (fst (pass_component_table work' chk s buf len i ext)) = fw_mark s
      \<or> fw_next (Agent PLDM_FW_UPDATE_CMD_CODE_PASS_COMPONENT_TABLE buf ext) (fw_mark s)
          (fw_mark (fst (pass_component_table work' chk s buf len i ext)))"
proof -
  have one: "c = r + 1 \<longleftrightarrow> c - r = (1 :: u16)" for c r by (auto simp: algebra_simps)
  show "fw_inv work (fst (pass_component_table work' chk s buf len i ext))"
    using assms by (auto simp: pass_component_table_def fw_inv_def Let_def)
  show "fw_mark (fst (pass_component_table work' chk s buf len i ext)) = fw_mark s
      \<or> fw_next (Agent PLDM_FW_UPDATE_CMD_CODE_PASS_COMPONENT_TABLE buf ext) (fw_mark s)
          (fw_mark (fst (pass_component_table work' chk s buf len i ext)))"
    using fn_pass [of "fu_comp_cnt s - fu_rcv_cnt s" buf ext]
    by (auto simp: pass_component_table_def fw_mark_def Let_def one eq_commute [of "_ + 1"] diff_diff_eq intro: fn_last)
qed

lemma min_comp_str [simp]:
  "length str = COMP_STR_SIZE \<Longrightarrow> min (length (memcpy_at 0 x str)) COMP_STR_SIZE = COMP_STR_SIZE"
  by (simp add: memcpy_at_def)

text \<open>What an \<^verbatim>\<open>UpdateComponent\<close> that is not refused does to the state.\<close>

lemma update_component_eq:
  assumes "len = 19 + ucast (nth0 buf 18)" and "fu_state s = STATE_RDY_XFER"
    and "\<not> comp_refused (get16 buf 0) (get16 buf 2) (nth0 buf 4)"
  defines "s1 \<equiv> s\<lparr>fu_cfg := (fu_cfg s)\<lparr>uc_image_size := get32 buf 9\<rparr>\<rparr>"
  defines "x \<equiv> take (unat (nth0 buf 18)) (drop 19 buf @ zeros (unat (nth0 buf 18))) @ [0]"
  defines "s2 \<equiv> s1\<lparr>fu_comp_id := get16 buf 2, fu_comp_str := take COMP_STR_SIZE (memcpy_at 0 x (fu_comp_str s)),
    fu_overrun := (fu_overrun s \<or> COMP_STR_SIZE < unat (nth0 buf 18) + 1)\<rparr>"
  shows "fst (update_component work heap inst s buf len i ext) =
    (if verify_comp work (get16 buf 0) (get16 buf 2) (nth0 buf 4) s \<noteq> 0 then s1 else if \<not> heap then s2
     else state_update STATE_DOWNLOAD (s2\<lparr>fu_thread := Some (inst, ext)\<rparr>))"
  using assms(1-3) by (simp add: update_component_def Let_def s2_def s1_def x_def)

lemma update_component_step:
  assumes "fw_inv work s"
  shows "fw_inv work (fst (update_component work heap inst s buf len i ext))"
    and "fw_mark (fst (update_component work heap inst s buf len i ext)) = fw_mark s
      \<or> fw_next (Agent PLDM_FW_UPDATE_CMD_CODE_UPDATE_COMPONENT buf ext) (fw_mark s)
          (fw_mark (fst (update_component work heap inst s buf len i ext)))"
proof -
  have "fw_inv work (fst (update_component work heap inst s buf len i ext))
    \<and> (fw_mark (fst (update_component work heap inst s buf len i ext)) = fw_mark s
      \<or> fw_next (Agent PLDM_FW_UPDATE_CMD_CODE_UPDATE_COMPONENT buf ext) (fw_mark s)
          (fw_mark (fst (update_component work heap inst s buf len i ext))))"
  proof (cases "len \<noteq> 19 + ucast (nth0 buf 18) \<or> fu_state s \<noteq> STATE_RDY_XFER
      \<or> comp_refused (get16 buf 0) (get16 buf 2) (nth0 buf 4)")
    case True
    then have "fst (update_component work heap inst s buf len i ext) = s"
      by (auto simp: update_component_def Let_def)
    then show ?thesis using assms by simp
  next
    case False
    then have F: "len = 19 + ucast (nth0 buf 18)" "fu_state s = STATE_RDY_XFER"
      "\<not> comp_refused (get16 buf 0) (get16 buf 2) (nth0 buf 4)" by blast+
    then have "get16 buf 0 = PLDM_COMP_DOWNSTREAM_DEVICE" "nth0 buf 4 = 0" by (simp_all add: comp_refused_def)
    then show ?thesis unfolding update_component_eq [OF F] using assms F(2)
      by (simp add: fw_inv_def fw_mark_def COMP_RSP_CAN_UPDATE_def fn_update)
  qed
  then show "fw_inv work (fst (update_component work heap inst s buf len i ext))"
    and "fw_mark (fst (update_component work heap inst s buf len i ext)) = fw_mark s
      \<or> fw_next (Agent PLDM_FW_UPDATE_CMD_CODE_UPDATE_COMPONENT buf ext) (fw_mark s)
          (fw_mark (fst (update_component work heap inst s buf len i ext)))" by blast+
qed

lemma activate_firmware_step:
  assumes "fw_inv work s"
  shows "fw_inv work (fst (activate_firmware heap s buf len i ext))"
    and "fw_mark (fst (activate_firmware heap s buf len i ext)) = fw_mark s
      \<or> fw_next (Agent PLDM_FW_UPDATE_CMD_CODE_ACTIVE_FIRMWARE buf ext) (fw_mark s)
          (fw_mark (fst (activate_firmware heap s buf len i ext)))"
  using assms
  by (auto simp: activate_firmware_def fw_inv_def fw_mark_def do_self_activate_def fn_activate fn_activated
      split: prod.splits)

lemma cancel_update_step:
  assumes "fw_inv work s"
  shows "fw_inv work (fst (cancel_update s buf len i ext))"
    and "fw_mark (fst (cancel_update s buf len i ext)) = fw_mark s
      \<or> fw_next (Agent PLDM_FW_UPDATE_CMD_CODE_CANCEL_UPDATE buf ext) (fw_mark s) (fw_mark (fst (cancel_update s buf len i ext)))"
  using assms fw_inv_reset [OF assms] by (auto simp: cancel_update_def fw_mark_def intro: fn_cancel)

lemma thread_step_ok:
  assumes "fw_inv work s" and "fw_timely (Thread a) (fu_state s)"
  shows "fw_inv work (thread_step a s)"
    and "fw_mark (thread_step a s) = fw_mark s \<or> fw_next (Thread a) (fw_mark s) (fw_mark (thread_step a s))"
proof -
  show "fw_inv work (thread_step a s)"
    using assms fw_inv_reset [OF assms(1)] by (cases a) (auto simp: fw_inv_def)
  show "fw_mark (thread_step a s) = fw_mark s \<or> fw_next (Thread a) (fw_mark s) (fw_mark (thread_step a s))"
  proof (cases a)
    case Act_reset
    then show ?thesis using assms(1) by (cases "fu_state s = STATE_IDLE") (auto simp: fw_mark_def intro: fn_gave_up)
  qed (use assms(2) in \<open>auto simp: fw_mark_def intro: fn_verify fn_apply fn_ready\<close>)
qed

lemma fw_reads_only [simp]:
  "fst (get_status s buf len i ext) = s" "fst (get_firmware_parameter b v s buf len i ext) = s"
  "fst (get_downstream_firmware_parameters s buf len i ext) = s"
  by (auto simp: get_status_def get_firmware_parameter_def get_downstream_firmware_parameters_def Let_def
      split: prod.splits)

lemma fw_query_cases:
  assumes "pldm_fw_update_handler_query p inst cmd = Some fn"
  shows "cmd = PLDM_FW_UPDATE_CMD_CODE_REQUEST_UPDATE \<and> fn = request_update
    \<or> cmd = PLDM_FW_UPDATE_CMD_CODE_PASS_COMPONENT_TABLE \<and> fn = pass_component_table (fp_work p) (fp_check p)
    \<or> cmd = PLDM_FW_UPDATE_CMD_CODE_UPDATE_COMPONENT \<and> fn = update_component (fp_work p) (fp_heap p) inst
    \<or> cmd = PLDM_FW_UPDATE_CMD_CODE_ACTIVE_FIRMWARE \<and> fn = activate_firmware (fp_heap_at p)
    \<or> cmd = PLDM_FW_UPDATE_CMD_CODE_CANCEL_UPDATE \<and> fn = cancel_update
    \<or> fn \<in> {get_status, get_firmware_parameter (fp_bin2hex p) (fp_version p), get_downstream_firmware_parameters,
        fp_query_device p, fp_query_downstream p, fp_query_downstream_ids p}"
  using assms unfolding pldm_fw_update_handler_query_def pldm_fw_update_cmd_tbl_def
  by (auto split: if_splits)

lemma fw_step_ok:
  assumes "fw_plat_ok p" and "fw_inv (fp_work p) s" and "fw_timely e (fu_state s)"
  shows "fw_inv (fp_work p) (fw_step p inst e s)"
    and "fw_mark (fw_step p inst e s) = fw_mark s \<or> fw_next e (fw_mark s) (fw_mark (fw_step p inst e s))"
proof -
  have "fw_inv (fp_work p) (fw_step p inst e s)
    \<and> (fw_mark (fw_step p inst e s) = fw_mark s \<or> fw_next e (fw_mark s) (fw_mark (fw_step p inst e s)))"
  proof (cases e)
    case Expiry
    then show ?thesis using assms(2) fw_inv_reset [OF assms(2)]
      by (auto simp: exit_update_mode_def fw_inv_def fw_mark_def intro: fn_expiry)
  next
    case (Thread a)
    then show ?thesis using thread_step_ok [OF assms(2)] assms(3) by simp
  next
    case (Agent cmd data ext)
    show ?thesis
    proof (cases "pldm_fw_update_handler_query p inst cmd")
      case None
      then show ?thesis using Agent assms(2) by simp
    next
      case (Some fn)
      note I = assms(2)
      note steps = request_update_step [OF I] pass_component_table_step [OF I] update_component_step [OF I]
        activate_firmware_step [OF I] cancel_update_step [OF I]
      have q: "fst (fp_query_device p s buf len i ext) = s" "fst (fp_query_downstream p s buf len i ext) = s"
        "fst (fp_query_downstream_ids p s buf len i ext) = s" for buf len i ext
        using assms(1) by (simp_all add: fw_plat_ok_def)
      from fw_query_cases [OF Some] show ?thesis
        using Agent Some I by (elim disjE) (auto simp: steps q)
    qed
  qed
  then show "fw_inv (fp_work p) (fw_step p inst e s)"
    "fw_mark (fw_step p inst e s) = fw_mark s \<or> fw_next e (fw_mark s) (fw_mark (fw_step p inst e s))" by blast+
qed

lemma fw_run_append: "fw_run p inst (es @ es') s = fw_run p inst es' (fw_run p inst es s)"
  by (simp add: fw_run_def)

text \<open>Every run is a course of the state machine, continued by the events that change the mark.\<close>

lemma fw_run_course:
  assumes "fw_plat_ok p"
  shows "fw_inv (fp_work p) s \<Longrightarrow> fw_timely_run p inst es s \<Longrightarrow> fw_course h (fw_mark s)
    \<Longrightarrow> fw_course (h @ fw_changes p inst es s) (fw_mark (fw_run p inst es s))
      \<and> fw_inv (fp_work p) (fw_run p inst es s)"
proof (induction es arbitrary: s h)
  case Nil
  then show ?case by (simp add: fw_run_def)
next
  case (Cons e es)
  let ?s = "fw_step p inst e s"
  let ?h = "h @ (if fw_mark ?s = fw_mark s then [] else [e])"
  have t: "fw_timely e (fu_state s)" "fw_timely_run p inst es ?s" using Cons.prems(2) by simp_all
  note ok = fw_step_ok [OF assms Cons.prems(1) t(1), of inst]
  have "fw_course ?h (fw_mark ?s)" using ok(2) Cons.prems(3) fc_next [of h "fw_mark s" e "fw_mark ?s"] by auto
  from Cons.IH [OF ok(1) t(2) this] show ?case by (simp add: fw_run_def)
qed

text \<open>What a course looks like: the request, as many descriptions as it announced, and the work on the components.\<close>

lemma fw_course_shape:
  assumes "fw_course h m"
  shows "case m of
      (STATE_IDLE, n) \<Rightarrow> n = 0
    | (STATE_LEARN_COMP, n) \<Rightarrow> \<exists>h0 data ext ps. h = h0 @ Agent PLDM_FW_UPDATE_CMD_CODE_REQUEST_UPDATE data ext # ps
        \<and> list_all is_pass ps \<and> length ps + (unat (n - 1) + 1) = announced data
    | (st, n) \<Rightarrow> n = 0 \<and> (\<exists>h0 data ext ps ws. h = h0 @ Agent PLDM_FW_UPDATE_CMD_CODE_REQUEST_UPDATE data ext # ps @ ws
        \<and> list_all is_pass ps \<and> length ps = announced data \<and> list_all is_work ws)"
  using assms
proof induction
  case fc_idle
  then show ?case by simp
next
  case (fc_next h m e m')
  have work: "\<exists>h0 data ext ps ws. h @ [e] = h0 @ Agent PLDM_FW_UPDATE_CMD_CODE_REQUEST_UPDATE data ext # ps @ ws
        \<and> list_all is_pass ps \<and> length ps = announced data \<and> list_all is_work ws"
    if S: "\<exists>h0 data ext ps ws. h = h0 @ Agent PLDM_FW_UPDATE_CMD_CODE_REQUEST_UPDATE data ext # ps @ ws
        \<and> list_all is_pass ps \<and> length ps = announced data \<and> list_all is_work ws" and W: "is_work e"
  proof -
    obtain h0 data ext ps ws where "h = h0 @ Agent PLDM_FW_UPDATE_CMD_CODE_REQUEST_UPDATE data ext # ps @ ws"
      "list_all is_pass ps" "length ps = announced data" "list_all is_work ws" using S by blast
    then show ?thesis using W
      by (intro exI [of _ h0] exI [of _ data] exI [of _ ext] exI [of _ ps] exI [of _ "ws @ [e]"]) simp
  qed
  from fc_next.hyps(2) fc_next.IH work show ?case
  proof cases
    case (fn_request data ext)
    show ?thesis unfolding fn_request prod.case fw_state.case
      by (intro exI [of _ h] exI [of _ data] exI [of _ ext] exI [of _ "[]"]) (simp add: announced_def)
  next
    case (fn_pass n data ext)
    then obtain h0 d x ps where P: "h = h0 @ Agent PLDM_FW_UPDATE_CMD_CODE_REQUEST_UPDATE d x # ps"
      "list_all is_pass ps" "length ps + (unat (n - 1) + 1) = announced d" using fc_next.IH by auto
    have "n - 1 \<noteq> 0" using fn_pass by simp
    then have "unat (n - 1 - 1) = unat (n - 1) - 1" "unat (n - 1) \<noteq> 0"
      using unat_minus_one [of "n - 1"] unat_eq_zero [of "n - 1"] by blast+
    then show ?thesis unfolding fn_pass prod.case fw_state.case using P
      by (intro exI [of _ h0] exI [of _ d] exI [of _ x] exI [of _ "ps @ [e]"]) (simp add: is_pass_def fn_pass)
  next
    case (fn_last data ext)
    then obtain h0 d x ps where P: "h = h0 @ Agent PLDM_FW_UPDATE_CMD_CODE_REQUEST_UPDATE d x # ps"
      "list_all is_pass ps" "length ps + 1 = announced d" using fc_next.IH by auto
    then show ?thesis unfolding fn_last prod.case fw_state.case
      by (intro conjI exI [of _ h0] exI [of _ d] exI [of _ x] exI [of _ "ps @ [e]"] exI [of _ "[]"])
        (simp_all add: is_pass_def fn_last)
  qed (simp_all add: is_work_def)
qed

lemma fw_demo_plat_ok: "fw_plat_ok fw_demo_plat"
  by (simp add: fw_plat_ok_def fw_demo_plat_def plat_pldm_query_device_identifiers_def
      plat_pldm_query_downstream_devices_def plat_pldm_query_downstream_identifiers_def)

lemma fw_demo_idle_inv: "fw_inv work (fw_demo_idle cs w)"
  by (simp add: fw_inv_def fw_demo_idle_def)

text \<open>What leads out of the state of activation.\<close>

lemma fw_activate_left:
  fixes s :: "'w fwu"
  assumes "fw_plat_ok p" and "fw_inv (fp_work p) s" and "fu_state s = STATE_ACTIVATE"
  shows "fu_state (fw_step p inst (Agent c data x) s) = STATE_ACTIVATE
      \<or> c = PLDM_FW_UPDATE_CMD_CODE_CANCEL_UPDATE \<and> fu_state (fw_step p inst (Agent c data x) s) = STATE_IDLE"
    and "fu_state (fw_step p inst (Agent PLDM_FW_UPDATE_CMD_CODE_CANCEL_UPDATE [] x) s) = STATE_IDLE"
    and "fu_state (fw_step p inst Expiry s) = STATE_IDLE"
proof -
  have m: "fw_mark s = (STATE_ACTIVATE, 0)" using assms(3) by (simp add: fw_mark_def)
  have "fw_mark (fw_step p inst (Agent c data x) s) = (STATE_ACTIVATE, 0)
      \<or> fw_next (Agent c data x :: 'w fw_event) (STATE_ACTIVATE, 0) (fw_mark (fw_step p inst (Agent c data x) s))"
    using fw_step_ok(2) [OF assms(1,2), of "Agent c data x" inst] by (simp add: m)
  then show "fu_state (fw_step p inst (Agent c data x) s) = STATE_ACTIVATE
      \<or> c = PLDM_FW_UPDATE_CMD_CODE_CANCEL_UPDATE \<and> fu_state (fw_step p inst (Agent c data x) s) = STATE_IDLE"
    by (auto simp: fw_mark_def elim: fw_next_activateE)
  show "fu_state (fw_step p inst (Agent PLDM_FW_UPDATE_CMD_CODE_CANCEL_UPDATE [] x) s) = STATE_IDLE"
    using assms(3) by (simp add: pldm_fw_update_handler_query_def pldm_fw_update_cmd_tbl_def fw_cmds cancel_update_def)
  show "fu_state (fw_step p inst Expiry s) = STATE_IDLE"
    using assms(2,3) by (simp add: fw_inv_def exit_update_mode_def)
qed

lemma fw_error_steps:
  "nth0 (pr_resp (snd (request_update s buf len i ext))) 0 \<noteq> PLDM_SUCCESS
     \<Longrightarrow> fu_state (fst (request_update s buf len i ext)) = fu_state s"
  "nth0 (pr_resp (snd (pass_component_table work chk s buf len i ext))) 0 \<noteq> PLDM_SUCCESS
     \<Longrightarrow> fu_state (fst (pass_component_table work chk s buf len i ext)) = fu_state s"
  "nth0 (pr_resp (snd (update_component work heap inst s buf len i ext))) 0 \<noteq> PLDM_SUCCESS
     \<Longrightarrow> fu_state (fst (update_component work heap inst s buf len i ext)) = fu_state s"
  "nth0 (pr_resp (snd (cancel_update s buf len i ext))) 0 \<noteq> PLDM_SUCCESS
     \<Longrightarrow> fu_state (fst (cancel_update s buf len i ext)) = fu_state s"
  "nth0 (pr_resp (snd (activate_firmware hp s buf len i ext))) 0 \<noteq> PLDM_SUCCESS
     \<Longrightarrow> fu_state (fst (activate_firmware hp s buf len i ext)) = fu_state s
       \<or> fu_state s = STATE_RDY_XFER \<and> fu_state (fst (activate_firmware hp s buf len i ext)) = STATE_ACTIVATE"
  by (auto simp: request_update_def pass_component_table_def update_component_def cancel_update_def
      activate_firmware_def do_self_activate_def Let_def nth0_append split: if_splits prod.splits)

text \<open>
  (C10) Whatever commands the agent sends, whenever the timer of the update mode expires and whatever the update thread does,
  every change of the state is one of the state machine \<^verbatim>\<open>fw_next\<close>. So behind the description of the
  components, in the states of transfer, download, verification, application and activation, the changes since
  the last request are: RequestUpdate, as many accepted PassComponentTable as it announced components, then only
  UpdateComponent, ActivateFirmware and the thread's changes of state. In the download state the component is one of the
  platform's table that may be updated, and the timer runs in every state but the idle one. The steps of the thread have
  to find the state in which it reported; the code does not see to that, and another property shows what happens otherwise.
\<close>

theorem fw_update_order:
  assumes "fw_plat_ok p" and "fw_inv (fp_work p) s" and "fu_state s = STATE_IDLE" and "fw_timely_run p inst es s"
  defines "h \<equiv> fw_changes p inst es s" and "s' \<equiv> fw_run p inst es s"
  shows "fw_course h (fw_mark s') \<and> fw_inv (fp_work p) s'
    \<and> (fu_state s' \<notin> {STATE_IDLE, STATE_LEARN_COMP} \<longrightarrow>
        (\<exists>h0 data ext ps ws. h = h0 @ Agent PLDM_FW_UPDATE_CMD_CODE_REQUEST_UPDATE data ext # ps @ ws
          \<and> list_all is_pass ps \<and> length ps = announced data \<and> list_all is_work ws))"
proof -
  have "fw_course [] (fw_mark s)" using assms(3) by (simp add: fw_mark_def fc_idle)
  from fw_run_course [OF assms(1,2,4) this] have c: "fw_course h (fw_mark s')" "fw_inv (fp_work p) s'"
    by (simp_all add: h_def s'_def)
  then show ?thesis using fw_course_shape [OF c(1)] by (cases "fu_state s'") (auto simp: fw_mark_def)
qed

text \<open>An update of one component: three commands, the steps of the thread, and the activation.\<close>

theorem fw_update_order_witness:
  fixes ext :: mctp_ext_params
  defines "es \<equiv> [Agent PLDM_FW_UPDATE_CMD_CODE_REQUEST_UPDATE (le32 64 @ le16 1 @ [1] @ le16 0 @ [1, 0]) demo_pldm_ext,
      Agent PLDM_FW_UPDATE_CMD_CODE_PASS_COMPONENT_TABLE
        ([PLDM_START_AND_END] @ le16 PLDM_COMP_DOWNSTREAM_DEVICE @ le16 3 @ [0] @ le32 0 @ [1, 0]) demo_pldm_ext,
      Agent PLDM_FW_UPDATE_CMD_CODE_UPDATE_COMPONENT
        (le16 PLDM_COMP_DOWNSTREAM_DEVICE @ le16 3 @ [0] @ le32 0 @ le32 64 @ le32 0 @ [1, 0]) demo_pldm_ext,
      Thread (Act_aux STATE_AUX_INPROGRESS), Thread Act_timer, Thread (Act_state STATE_VERIFY),
      Thread (Act_state STATE_APPLY), Thread (Act_state STATE_RDY_XFER), Thread Act_end]"
  shows "fw_timely_run fw_demo_plat 0 es (fw_demo_idle [fw_demo_info None] ())
    \<and> fu_state (fw_run fw_demo_plat 0 es (fw_demo_idle [fw_demo_info None] ())) = STATE_RDY_XFER
    \<and> fw_course (fw_changes fw_demo_plat 0 es (fw_demo_idle [fw_demo_info None] ())) (STATE_RDY_XFER, 0)"
proof -
  let ?s = "fw_demo_idle [fw_demo_info None] ()"
  have t: "fw_timely_run fw_demo_plat 0 es ?s" unfolding es_def by code_simp
  have r: "fu_state (fw_run fw_demo_plat 0 es ?s) = STATE_RDY_XFER" unfolding es_def by code_simp
  have "fu_state ?s = STATE_IDLE" by (simp add: fw_demo_idle_def)
  from fw_update_order [OF fw_demo_plat_ok fw_demo_idle_inv this t] t r show ?thesis by (simp add: fw_mark_def)
qed

text \<open>
  (C30) A command that answers with an error code does not change the state of the update, with one exception:
  ActivateFirmware whose activation function fails leaves the controller in the activation state. From there every command of
  the agent but CancelUpdate leaves the state as it is, and CancelUpdate and the timer lead to the idle state.
\<close>

theorem fw_error_keeps_state:
  assumes "fw_plat_ok p" and "fw_inv (fp_work p) s" and "pldm_fw_update_handler_query p inst cmd = Some fn"
    and "nth0 (pr_resp (snd (fn s buf len i ext))) 0 \<noteq> PLDM_SUCCESS"
  defines "s' \<equiv> fst (fn s buf len i ext)"
  shows "fu_state s' = fu_state s
    \<or> cmd = PLDM_FW_UPDATE_CMD_CODE_ACTIVE_FIRMWARE \<and> fu_state s = STATE_RDY_XFER \<and> fu_state s' = STATE_ACTIVATE
      \<and> (\<forall>c data x. fu_state (fw_step p inst (Agent c data x) s') = STATE_ACTIVATE
           \<or> c = PLDM_FW_UPDATE_CMD_CODE_CANCEL_UPDATE \<and> fu_state (fw_step p inst (Agent c data x) s') = STATE_IDLE)
      \<and> (\<forall>x. fu_state (fw_step p inst (Agent PLDM_FW_UPDATE_CMD_CODE_CANCEL_UPDATE [] x) s') = STATE_IDLE)
      \<and> fu_state (fw_step p inst Expiry s') = STATE_IDLE"
proof -
  have q: "fst (fp_query_device p s buf len i ext) = s" "fst (fp_query_downstream p s buf len i ext) = s"
    "fst (fp_query_downstream_ids p s buf len i ext) = s"
    using assms(1) by (simp_all add: fw_plat_ok_def)
  show ?thesis
  proof (cases "fn = activate_firmware (fp_heap_at p) \<and> cmd = PLDM_FW_UPDATE_CMD_CODE_ACTIVE_FIRMWARE")
    case True
    have inv: "fw_inv (fp_work p) s'" using activate_firmware_step(1) [OF assms(2)] True by (simp add: s'_def)
    show ?thesis using True fw_error_steps(5) [of "fp_heap_at p" s buf len i ext] assms(4)
        fw_activate_left [OF assms(1) inv] by (auto simp: s'_def)
  next
    case False
    then show ?thesis using fw_query_cases [OF assms(3)] assms(4) by (elim disjE) (auto simp: fw_error_steps q s'_def)
  qed
qed

theorem fw_error_keeps_state_witness:
  "fu_state (fst (activate_firmware (\<lambda>_. True)
      ((fw_demo_idle [(fw_demo_info None)\<lparr>pi_self_act_func := Some (\<lambda>w. (w, 1))\<rparr>] ())
        \<lparr>fu_state := STATE_RDY_XFER, fu_timer := True, fu_keep := True, fu_comp_id := 3\<rparr>) [0] 1 0 demo_pldm_ext)) = STATE_ACTIVATE"
proof -
  let ?s = "(fw_demo_idle [(fw_demo_info None)\<lparr>pi_self_act_func := Some (\<lambda>w. (w, 1))\<rparr>] ())
        \<lparr>fu_state := STATE_RDY_XFER, fu_timer := True, fu_keep := True, fu_comp_id := 3\<rparr>"
  have q: "pldm_fw_update_handler_query fw_demo_plat 0 PLDM_FW_UPDATE_CMD_CODE_ACTIVE_FIRMWARE
      = Some (activate_firmware (\<lambda>_. True))"
    by (simp add: pldm_fw_update_handler_query_def pldm_fw_update_cmd_tbl_def fw_cmds fw_demo_plat_def)
  have i: "fw_inv (fp_work fw_demo_plat) ?s"
    by (simp add: fw_inv_def fw_demo_idle_def)
  have r: "activate_firmware (\<lambda>_. True) ?s [0] 1 0 demo_pldm_ext
      = ((state_update STATE_ACTIVATE ?s)\<lparr>fu_aux := STATE_AUX_FAILED\<rparr>,
         \<lparr>pr_resp = [PLDM_FW_UPDATE_CC_SELF_CONTAINED_ACTIVATION_NOT_PERMITTED], pr_resp_len = 1, pr_rc = PLDM_SUCCESS\<rparr>)"
    by (simp add: activate_firmware_def do_self_activate_def fw_demo_idle_def fw_demo_info_def state_update_def)
  have e: "nth0 (pr_resp (snd (activate_firmware (\<lambda>_. True) ?s [0] 1 0 demo_pldm_ext))) 0 \<noteq> PLDM_SUCCESS"
    unfolding r by (simp add: fw_ccs)
  show ?thesis using fw_error_keeps_state [OF fw_demo_plat_ok i q e] unfolding r by auto
qed

lemma version_entries_simps [simp]:
  "version_entries [] = []"
  "version_entries (c # cs) = (if has_version c then version_entry c @ version_entries cs else version_entries cs)"
  by (simp_all add: version_entries_def)

lemma length_component_parameter_entry:
  "length (component_parameter_entry c v) = 39 + length (version_of v) + length (pending_of c)"
  by (simp add: component_parameter_entry_def)

lemma needed_len_true:
  assumes "probe_true c" and "pi_fw_version c = Some (probe, v)"
  shows "needed_len c probe = length (component_parameter_entry c v)"
proof (cases v)
  case None
  then show ?thesis using assms
    by (simp add: needed_len_def length_component_parameter_entry version_of_def probe_true_def)
next
  case (Some bs)
  then have "unat (of_nat (length bs) :: u8) = length bs" using assms
    by (intro unat_of_nat_lt) (simp add: probe_true_def version_of_def)
  then show ?thesis using assms Some
    by (simp add: needed_len_def length_component_parameter_entry version_of_def probe_true_def)
qed

lemma parameter_loop_true:
  assumes "\<forall>c \<in> set cs. probe_true c"
  shows "parameter_loop used cs = (es, n, ok)
    \<Longrightarrow> (ok \<longleftrightarrow> filter has_version cs = [] \<or> used + length (version_entries cs) \<le> PLDM_MAX_DATA_SIZE)
      \<and> (ok \<longrightarrow> es = version_entries cs \<and> n = length (filter has_version cs))
      \<and> (used \<le> PLDM_MAX_DATA_SIZE \<longrightarrow> used + length es \<le> PLDM_MAX_DATA_SIZE)"
  using assms
proof (induction cs arbitrary: used es n ok)
  case (Cons c cs)
  show ?case
  proof (cases "pi_fw_version c")
    case None
    then show ?thesis using Cons by (simp add: has_version_def)
  next
    case (Some pv)
    obtain probe v where pv: "pv = (probe, v)" by fastforce
    let ?e = "component_parameter_entry c v"
    have nl: "needed_len c probe = length ?e" using needed_len_true [of c probe v] Cons.prems(2) Some pv by simp
    have ve: "has_version c" "version_entry c = ?e" using Some pv by (simp_all add: has_version_def version_entry_def)
    show ?thesis
    proof (cases "PLDM_MAX_DATA_SIZE < used + length ?e")
      case True
      then show ?thesis using Cons.prems(1) Some pv nl ve by simp
    next
      case False
      obtain es' n' ok' where r: "parameter_loop (used + length ?e) cs = (es', n', ok')" by (metis surj_pair)
      note IH = Cons.IH [OF r]
      have out: "es = ?e @ es'" "n = n' + 1" "ok = ok'" using Cons.prems(1) Some pv nl False r by simp_all
      have fil: "version_entries cs = []" if "filter has_version cs = []" using that by (simp add: version_entries_def)
      show ?thesis using IH Cons.prems(2) False ve fil unfolding out by auto
    qed
  qed
qed simp

lemma length_version_entries: "length (version_entries cs) = 0 \<longleftrightarrow> filter has_version cs = []"
  by (induction cs) (auto simp: version_entry_def component_parameter_entry_def)

lemma get_firmware_parameter_true:
  fixes bin2hex :: "bytes \<Rightarrow> bytes" and ver :: bytes
  assumes "\<forall>c \<in> set (fu_config s). probe_true c"
  defines "v \<equiv> pldm_get_bic_fw_version bin2hex ver"
  defines "n \<equiv> 11 + length v + length (version_entries (fu_config s))"
  shows "n \<le> PLDM_MAX_DATA_SIZE \<Longrightarrow> snd (get_firmware_parameter bin2hex ver s buf 0 i ext)
      = \<lparr>pr_resp = parameters_answer v (fu_config s), pr_resp_len = of_nat n, pr_rc = PLDM_SUCCESS\<rparr>"
    and "11 + length v \<le> PLDM_MAX_DATA_SIZE \<Longrightarrow> PLDM_MAX_DATA_SIZE < n \<Longrightarrow>
      \<exists>resp. snd (get_firmware_parameter bin2hex ver s buf 0 i ext) = \<lparr>pr_resp = resp, pr_resp_len = 11, pr_rc = PLDM_SUCCESS\<rparr>
        \<and> nth0 resp 0 = PLDM_ERROR \<and> length resp \<le> PLDM_MAX_DATA_SIZE"
proof -
  obtain es k ok where r: "parameter_loop (11 + length v) (fu_config s) = (es, k, ok)" by (metis surj_pair)
  note P = parameter_loop_true [OF assms(1) r]
  have eq: "snd (get_firmware_parameter bin2hex ver s buf 0 i ext) =
    \<lparr>pr_resp = [if ok then PLDM_SUCCESS else PLDM_ERROR] @ le32 0 @ le16 (of_nat k) @ [1, of_nat (length v), 0, 0] @ v @ es,
     pr_resp_len = (if ok then of_nat (11 + length v + length es) else 11), pr_rc = PLDM_SUCCESS\<rparr>"
    using r by (simp add: get_firmware_parameter_def Let_def v_def)
  show "snd (get_firmware_parameter bin2hex ver s buf 0 i ext)
      = \<lparr>pr_resp = parameters_answer v (fu_config s), pr_resp_len = of_nat n, pr_rc = PLDM_SUCCESS\<rparr>"
    if "n \<le> PLDM_MAX_DATA_SIZE"
    using P that unfolding eq by (auto simp: n_def parameters_answer_def)
  show "\<exists>resp. snd (get_firmware_parameter bin2hex ver s buf 0 i ext) = \<lparr>pr_resp = resp, pr_resp_len = 11, pr_rc = PLDM_SUCCESS\<rparr>
        \<and> nth0 resp 0 = PLDM_ERROR \<and> length resp \<le> PLDM_MAX_DATA_SIZE"
    if "11 + length v \<le> PLDM_MAX_DATA_SIZE" "PLDM_MAX_DATA_SIZE < n"
  proof -
    have "\<not> ok" using P that length_version_entries [of "fu_config s"] by (auto simp: n_def)
    then show ?thesis using P that unfolding eq by simp
  qed
qed

text \<open>
  (C25) With version functions that tell the length of what they deliver, GetFirmwareParameters lists every component that has
  one, in the order of the table and with its versions, when the whole answer has at most 508
  bytes, and the caller sends exactly that; when it would be longer than 512 bytes the command fails. For the
  lengths in between the command succeeds although the caller's buffer of 512 bytes has only 508 left behind the header, and the
  caller writes behind it.
\<close>

theorem fw_parameters_listed:
  assumes "\<forall>c \<in> set (fu_config s). probe_true c" and "length buf = 4"
    and "ph_rq (pldm_hdr_of buf)" and "ph_pldm_type (pldm_hdr_of buf) = PLDM_TYPE_FW_UPDATE"
    and "ph_cmd (pldm_hdr_of buf) = PLDM_FW_UPDATE_CMD_CODE_GET_FIRMWARE_PARAMETERS"
    and "v = pldm_get_bic_fw_version (fp_bin2hex p) (fp_version p)" and "length v < 256"
    and "n = 11 + length v + length (version_entries (fu_config s))"
  shows "(n \<le> 508 \<longrightarrow> mctp_pldm_cmd_handler [(5, pldm_fw_update_handler_query p inst)] send inst buf ext st s w
        = (case send w (pldm_hdr_bytes ((pldm_hdr_of buf)\<lparr>ph_rq := False\<rparr>) @ parameters_answer v (fu_config s)) ext of
             (w, r) \<Rightarrow> Some (st, s, w, [], r)))
    \<and> (n \<in> {509..512} \<longrightarrow>
        mctp_pldm_cmd_handler [(5, pldm_fw_update_handler_query p inst)] send inst buf ext st s w = None)
    \<and> (512 < n \<longrightarrow> (\<exists>resp. run_handler [(5, pldm_fw_update_handler_query p inst)] s buf ext
        = (s, \<lparr>pr_resp = resp, pr_resp_len = 11, pr_rc = PLDM_SUCCESS\<rparr>) \<and> nth0 resp 0 = PLDM_ERROR))"
proof -
  let ?r = "get_firmware_parameter (fp_bin2hex p) (fp_version p) s [] 0 (ucast (ph_inst_id (pldm_hdr_of buf))) ext"
  note T = get_firmware_parameter_true [OF assms(1), of "fp_bin2hex p" "fp_version p", folded assms(6), folded assms(8)]
  have q: "pldm_fw_update_handler_query p inst PLDM_FW_UPDATE_CMD_CODE_GET_FIRMWARE_PARAMETERS
      = Some (get_firmware_parameter (fp_bin2hex p) (fp_version p))"
    by (simp add: pldm_fw_update_handler_query_def pldm_fw_update_cmd_tbl_def fw_cmds)
  have run: "run_handler [(5, pldm_fw_update_handler_query p inst)] s buf ext = ?r"
    using assms(2,4,5) q by (simp add: run_handler_def Let_def PLDM_TYPE_FW_UPDATE_def)
  have st: "fst ?r = s" by simp
  have res: "?r = (s, \<lparr>pr_resp = parameters_answer v (fu_config s), pr_resp_len = of_nat n, pr_rc = PLDM_SUCCESS\<rparr>)" if "n \<le> 512"
    using T(1) [of "[]" "ucast (ph_inst_id (pldm_hdr_of buf))" ext] that st by (metis prod.collapse PLDM_MAX_DATA_SIZE_def)
  have ln: "length (parameters_answer v (fu_config s)) = n" by (simp add: parameters_answer_def assms(8))
  have un: "unat (of_nat n :: u16) = n" if "n \<le> 512" by (rule unat_of_nat_lt) (use that in simp)
  have nb: "buf \<noteq> []" using assms(2) by auto
  note H = mctp_pldm_cmd_handler_def [of "[(5, pldm_fw_update_handler_query p inst)]" send inst buf ext st s w]
  show ?thesis
  proof (intro conjI impI)
    show "mctp_pldm_cmd_handler [(5, pldm_fw_update_handler_query p inst)] send inst buf ext st s w
        = (case send w (pldm_hdr_bytes ((pldm_hdr_of buf)\<lparr>ph_rq := False\<rparr>) @ parameters_answer v (fu_config s)) ext of
             (w, r) \<Rightarrow> Some (st, s, w, [], r))" if "n \<le> 508"
      using that un ln nb assms(2,3) res unfolding H run by (simp add: PLDM_SUCCESS_def PLDM_LATER_RESP_def PLDM_MAX_DATA_SIZE_def zeros_def)
    show "mctp_pldm_cmd_handler [(5, pldm_fw_update_handler_query p inst)] send inst buf ext st s w = None" if "n \<in> {509..512}"
      using that un ln nb assms(2,3) res unfolding H run by (simp add: PLDM_SUCCESS_def PLDM_LATER_RESP_def PLDM_MAX_DATA_SIZE_def)
    show "\<exists>resp. run_handler [(5, pldm_fw_update_handler_query p inst)] s buf ext
        = (s, \<lparr>pr_resp = resp, pr_resp_len = 11, pr_rc = PLDM_SUCCESS\<rparr>) \<and> nth0 resp 0 = PLDM_ERROR" if "512 < n"
    proof -
      obtain resp where "snd ?r = \<lparr>pr_resp = resp, pr_resp_len = 11, pr_rc = PLDM_SUCCESS\<rparr>" "nth0 resp 0 = PLDM_ERROR"
        using T(2) [of "[]" "ucast (ph_inst_id (pldm_hdr_of buf))" ext] \<open>512 < n\<close> assms(7) by (auto simp: PLDM_MAX_DATA_SIZE_def)
      then show ?thesis unfolding run using st by (metis prod.collapse)
    qed
  qed
qed

theorem fw_parameters_listed_witness:
  "mctp_pldm_cmd_handler [(5, pldm_fw_update_handler_query fw_demo_plat 0)] good_send 0 [1, 0x80, 5, 2] demo_pldm_ext pldm_init
     (fw_demo_idle long_table ()) [] = None"
proof -
  let ?s = "fw_demo_idle long_table ()"
  have c: "fu_config ?s = long_table" by (simp add: fw_demo_idle_def)
  have t: "\<forall>c \<in> set (fu_config ?s). probe_true c"
    unfolding c by (simp add: long_table_def probe_true_def version_of_def)
  have h: "ph_rq (pldm_hdr_of [1, 0x80, 5, 2])" "ph_pldm_type (pldm_hdr_of [1, 0x80, 5, 2]) = PLDM_TYPE_FW_UPDATE"
    "ph_cmd (pldm_hdr_of [1, 0x80, 5, 2]) = PLDM_FW_UPDATE_CMD_CODE_GET_FIRMWARE_PARAMETERS"
    by (simp_all add: pldm_hdr_of_def nth0_def PLDM_TYPE_FW_UPDATE_def fw_cmds)
  have v: "length (pldm_get_bic_fw_version (fp_bin2hex (fw_demo_plat :: unit fw_plat)) (fp_version (fw_demo_plat :: unit fw_plat))) = 10"
    by (simp add: pldm_get_bic_fw_version_def fw_demo_plat_def slice_def)
  have e: "length (version_entries long_table) = 488"
    by (simp add: long_table_def numeral_eq_Suc has_version_def version_entry_def length_component_parameter_entry
        version_of_def pending_of_def fw_demo_info_def)
  show ?thesis
    using fw_parameters_listed [OF t _ h refl _ refl, where p = fw_demo_plat and inst = 0 and send = good_send
        and ext = demo_pldm_ext and st = pldm_init and w = "[]"] v e c by simp
qed

end
