(* ===== verification/Pldm_Fw_Thread.thy ===== *)
theory Pldm_Fw_Thread
  imports Pldm_Fw_Update Pldm_Read
begin

text \<open>
  The update thread of \<^verbatim>\<open>common/service/pldm/pldm_firmware_update.c\<close>: it asks the update agent for the image
  piece by piece, hands every piece to the update function of the component and reports the end of the
  transfer, of the verification and of the application.

  The thread sleeps while it waits for an answer; commands of the agent and the timer may change the
  state in the meantime. The reading function is therefore an argument: it gets and returns the whole
  state. \<^verbatim>\<open>pldm_fw_update_read\<close> below is the one of the firmware.
\<close>

section \<open>Reading\<close>

definition fw_read_msg :: "u8 \<Rightarrow> bytes \<Rightarrow> mctp_ext_params \<Rightarrow> pldm_msg" where
  "fw_read_msg cmd req ext =
     \<lparr>pm_hdr = \<lparr>ph_msg_type = 0, ph_ic = False, ph_inst_id = 0, ph_rsvd = False, ph_d = False, ph_rq = True,
        ph_pldm_type = PLDM_TYPE_FW_UPDATE, ph_ver = 0, ph_cmd = cmd\<rparr>,
      pm_buf = req, pm_len = of_nat (length req), pm_ext_params = ext, pm_recv_resp_cb_fn = None,
      pm_recv_resp_cb_args = 0, pm_timeout_ms = 0, pm_timeout_cb_fn = None, pm_timeout_cb_fn_args = 0\<rparr>"

definition pldm_fw_update_read ::
  "(nat \<times> nat) option \<Rightarrow> (nat \<Rightarrow> nat option \<times> int) \<Rightarrow> 'w mctp_send_fn \<Rightarrow> nat \<Rightarrow> u8 \<Rightarrow> bytes
   \<Rightarrow> mctp_ext_params \<Rightarrow> pldm_input list \<Rightarrow> pldm_state \<Rightarrow> 'w \<Rightarrow> bytes \<Rightarrow> (pldm_state \<times> 'w \<times> bytes \<times> u16) option" where
  "pldm_fw_update_read alloc env send inst cmd req ext inps st w rbuf =
     mctp_pldm_read alloc env send inst (fw_read_msg cmd req ext) inps st w rbuf (of_nat (length rbuf))"

text \<open>
  A reading function: state, command, request and size of the buffer; it returns the state, the length read
  and the buffer.
\<close>

type_synonym 'w fw_read_fn = "'w fwu \<Rightarrow> u8 \<Rightarrow> bytes \<Rightarrow> nat \<Rightarrow> ('w fwu \<times> u16 \<times> bytes) option"

section \<open>Reports\<close>

definition report_request :: "fw_state \<Rightarrow> u8 \<Rightarrow> (u8 \<times> bytes) option" where
  "report_request st result_code =
    (case st of
       STATE_DOWNLOAD \<Rightarrow> Some (PLDM_FW_UPDATE_CMD_CODE_TRANSFER_COMPLETE, [result_code])
     | STATE_VERIFY \<Rightarrow> Some (PLDM_FW_UPDATE_CMD_CODE_VERIFY_COMPLETE, [result_code])
     | STATE_APPLY \<Rightarrow> Some (PLDM_FW_UPDATE_CMD_CODE_APPLY_COMPLETE, [result_code] @ le16 0)
     | _ \<Rightarrow> None)"

definition report_tranfer :: "'w fw_read_fn \<Rightarrow> 'w fwu \<Rightarrow> u8 \<Rightarrow> ('w fwu \<times> u8) option" where
  "report_tranfer rd s result_code =
    (case report_request (fu_state s) result_code of
       None \<Rightarrow> Some (s, 0)
     | Some (cmd, req) \<Rightarrow>
       (case rd s cmd req 10 of
          None \<Rightarrow> None
        | Some (s, read_len, rbuf) \<Rightarrow>
          Some (s, if read_len \<noteq> 1 \<or> nth0 rbuf 0 \<noteq> PLDM_SUCCESS then 1 else 0)))"

section \<open>Downloading\<close>

definition find_update_info :: "(u16 \<Rightarrow> u16) \<Rightarrow> u16 \<Rightarrow> 'w fwu \<Rightarrow> 'w pldm_fw_update_info option" where
  "find_update_info work comp_id s =
     find (\<lambda>c. pi_comp_identifier c = work comp_id \<and>
       (case pi_comp_version_str c of None \<Rightarrow> True
        | Some str \<Rightarrow> take (length str) (c_str (fu_comp_str s)) = str)) (fu_config s)"

text \<open>The length to request and the number of bytes of the answer that belong to the image.\<close>

definition request_length :: "pldm_fw_update_cfg \<Rightarrow> u32 \<Rightarrow> u32 \<Rightarrow> u32 \<times> u32" where
  "request_length cfg ofs len =
    (let len = (if uc_image_size cfg + MIN_FW_UPDATE_BASELINE_TRANS_SIZE < ofs + len
                then uc_image_size cfg - ofs else len) in
     if len \<le> MIN_FW_UPDATE_BASELINE_TRANS_SIZE then (MIN_FW_UPDATE_BASELINE_TRANS_SIZE, len)
     else if ucast (uc_max_buff_size cfg) < len then (ucast (uc_max_buff_size cfg), ucast (uc_max_buff_size cfg))
     else (len, len))"

text \<open>A call of a function of the component table; the parameter holds a pointer to the version string.\<close>

definition call_update ::
  "'w fwupdate_func \<Rightarrow> 'w fwu \<Rightarrow> pldm_fw_update_param \<Rightarrow> ('w fwu \<times> pldm_fw_update_param \<times> u8) option" where
  "call_update f s p =
    (case f (fu_cfg s) (fu_world s) (p\<lparr>up_comp_version_str := c_str (fu_comp_str s)\<rparr>) of
       None \<Rightarrow> None
     | Some (w, p, r) \<Rightarrow> Some (s\<lparr>fu_world := w\<rparr>, p, r))"

definition fw_failed :: "'w fwu \<Rightarrow> 'w fwu" where
  "fw_failed s = s\<lparr>fu_aux := STATE_AUX_FAILED\<rparr>"

text \<open>
  What the loop does with an answer of the expected length: check the code, compute the percentage, which
  divides by the image size, and call the update function. The result says whether the update failed.
\<close>

definition handle_data ::
  "'w fw_read_fn \<Rightarrow> 'w fwupdate_func \<Rightarrow> 'w fwu \<Rightarrow> pldm_fw_update_param \<Rightarrow> u32 \<Rightarrow> u32 \<Rightarrow> bytes
     \<Rightarrow> ('w fwu \<times> pldm_fw_update_param \<times> bool) option" where
  "handle_data rd upd s p ofs expect_len resp_buf =
    (if nth0 resp_buf 0 \<noteq> PLDM_SUCCESS \<and> nth0 resp_buf 0 \<noteq> PLDM_FW_UPDATE_CC_DATA_OUT_OF_RANGE
     then Some (fw_failed s, p, True)
     else if uc_image_size (fu_cfg s) = 0 then None
     else (case call_update upd s (p\<lparr>up_data := drop 1 resp_buf, up_data_len := expect_len, up_data_ofs := ofs\<rparr>) of
         None \<Rightarrow> None
       | Some (s, p, r) \<Rightarrow>
         if r \<noteq> 0 then
           (case report_tranfer rd s PLDM_FW_UPDATE_GENERIC_ERROR of
              None \<Rightarrow> None
            | Some (s, _) \<Rightarrow> Some (fw_failed s, p, True))
         else Some (s, p, False)))"

text \<open>The loop; its result says whether the whole image was taken.\<close>

partial_function (option) download_loop ::
  "'w fw_read_fn \<Rightarrow> 'w fwupdate_func \<Rightarrow> 'w fwu \<Rightarrow> pldm_fw_update_param \<Rightarrow> u32 \<Rightarrow> u32 \<Rightarrow> u32 \<Rightarrow> nat
     \<Rightarrow> ('w fwu \<times> pldm_fw_update_param \<times> bool) option" where
  "download_loop rd upd s p ofs len last_ofs retry =
    (if \<not> fu_keep s then Some (fw_failed s, p, False)
     else case request_length (fu_cfg s) ofs len of (len, expect_len) \<Rightarrow>
       (case rd s PLDM_FW_UPDATE_CMD_CODE_REQUEST_FIRMWARE_DATA (le32 ofs @ le32 len) (unat len + 1) of
          None \<Rightarrow> None
        | Some (s, read_len, resp_buf) \<Rightarrow>
          if read_len = 0 then Some (fw_failed s, p, False)
          else
            let retry = (if last_ofs \<noteq> ofs then 0 else retry) in
            if (ucast read_len :: u32) \<noteq> len + 1 then
              (if UPDATE_REQUEST_DATA_MAX_RETRY_COUNT < retry + 1 then Some (fw_failed s, p, False)
               else download_loop rd upd s p ofs len ofs (retry + 1))
            else
              (case handle_data rd upd s p ofs expect_len resp_buf of
                 None \<Rightarrow> None
               | Some (s, p, failed) \<Rightarrow>
                 if failed then Some (s, p, False)
                 else if up_next_len p = 0 then Some (s, p, True)
                 else download_loop rd upd (s\<lparr>fu_timer := True\<rparr>) p (up_next_ofs p) (up_next_len p) ofs retry)))"

section \<open>The thread\<close>

text \<open>
  A report of success that is not acknowledged is followed by a report of an error and ends the update.
\<close>

definition report_success :: "'w fw_read_fn \<Rightarrow> 'w fwu \<Rightarrow> u8 \<Rightarrow> ('w fwu \<times> bool) option" where
  "report_success rd s code =
    (case report_tranfer rd s code of
       None \<Rightarrow> None
     | Some (s, r) \<Rightarrow>
       if r = 0 then Some (s, True)
       else (case report_tranfer rd s PLDM_FW_UPDATE_GENERIC_ERROR of
           None \<Rightarrow> None
         | Some (s, _) \<Rightarrow> Some (fw_failed s, False)))"

definition complete_update :: "'w fw_read_fn \<Rightarrow> 'w pldm_fw_update_info \<Rightarrow> 'w fwu \<Rightarrow> 'w fwu option" where
  "complete_update rd info s =
    (case report_success rd (s\<lparr>fu_aux := STATE_AUX_SUCCESS\<rparr>) 0 of
       None \<Rightarrow> None
     | Some (s, False) \<Rightarrow> Some s
     | Some (s, True) \<Rightarrow>
     (case report_success rd (state_update STATE_VERIFY s) 0 of
       None \<Rightarrow> None
     | Some (s, False) \<Rightarrow> Some s
     | Some (s, True) \<Rightarrow>
       let s = state_update STATE_APPLY s in
       (case (case pi_self_apply_work_func info of
           None \<Rightarrow> (s, 0)
         | Some f \<Rightarrow> (case f (fu_world s) of (w, r) \<Rightarrow> (s\<lparr>fu_world := w\<rparr>, r))) of
        (s, apply_result) \<Rightarrow>
     (case report_success rd s apply_result of
       None \<Rightarrow> None
     | Some (s, False) \<Rightarrow> Some s
     | Some (s, True) \<Rightarrow> Some ((state_update STATE_RDY_XFER s)\<lparr>fu_aux := STATE_AUX_SUCCESS\<rparr>)))))"

text \<open>The end of the thread, which all paths behind the pre-update share.\<close>

definition finish_update ::
  "'w pldm_fw_update_info \<Rightarrow> 'w fwu \<Rightarrow> pldm_fw_update_param \<Rightarrow> 'w fwu option" where
  "finish_update info s p =
    (case (case pi_pos_update_func info of None \<Rightarrow> Some s
       | Some f \<Rightarrow> (case call_update f s p of None \<Rightarrow> None | Some (s, _, _) \<Rightarrow> Some s)) of
       None \<Rightarrow> None
     | Some s \<Rightarrow> Some (s\<lparr>fu_cfg := (fu_cfg s)\<lparr>uc_image_size := 0\<rparr>, fu_thread := None\<rparr>))"

definition first_param :: "'w pldm_fw_update_info \<Rightarrow> 'w fwu \<Rightarrow> pldm_fw_update_param" where
  "first_param info s = \<lparr>up_comp_id = fu_comp_id s, up_comp_version_str = c_str (fu_comp_str s), up_data = [],
     up_data_ofs = 0, up_data_len = 0, up_next_ofs = 0, up_next_len = 0, up_inf = pi_inf info,
     up_bus = 0, up_addr = 0\<rparr>"

definition req_fw_update_handler :: "(u16 \<Rightarrow> u16) \<Rightarrow> 'w fw_read_fn \<Rightarrow> 'w fwu \<Rightarrow> 'w fwu option" where
  "req_fw_update_handler work rd s =
    (case find_update_info work (fu_comp_id s) s of
       None \<Rightarrow> Some (pldm_status_reset s)
     | Some info \<Rightarrow>
       (case pi_update_func info of
          None \<Rightarrow> Some (pldm_status_reset s)
        | Some upd \<Rightarrow>
          (case (case pi_pre_update_func info of
                   None \<Rightarrow> Some (s, first_param info s, 0)
                 | Some pre \<Rightarrow> call_update pre s (first_param info s)) of
             None \<Rightarrow> None
           | Some (s, p, r) \<Rightarrow>
             if r \<noteq> 0 then finish_update info s p
             else
               (case download_loop rd upd (s\<lparr>fu_aux := STATE_AUX_INPROGRESS\<rparr>) p 0
                       (ucast (uc_max_buff_size (fu_cfg s))) 0xFFFFFFFF 0 of
                  None \<Rightarrow> None
                | Some (s, p, ok) \<Rightarrow>
                  if \<not> ok then finish_update info s p
                  else (case complete_update rd info s of None \<Rightarrow> None | Some s \<Rightarrow> finish_update info s p)))))"

subsection \<open>Reference definitions and examples\<close>

text \<open>
  An update agent that returns from every request and, when it answers a data request in full, answers with the
  bytes of the image; while the thread waits, it and anybody else may change the state of the update machine, but
  not the configuration and the device. And an agent that serves every request at once.
\<close>

definition fw_rd_ok :: "bytes \<Rightarrow> 'w fw_read_fn \<Rightarrow> bool" where
  "fw_rd_ok img rd \<longleftrightarrow> (\<forall>s cmd req n. \<exists>s' len r. rd s cmd req n = Some (s', len, r)
     \<and> fu_world s' = fu_world s \<and> fu_cfg s' = fu_cfg s
     \<and> (\<forall>o' l. cmd = PLDM_FW_UPDATE_CMD_CODE_REQUEST_FIRMWARE_DATA \<longrightarrow> req = le32 o' @ le32 l
          \<longrightarrow> unat len = unat l + 1 \<longrightarrow> nth0 r 0 \<in> {PLDM_SUCCESS, PLDM_FW_UPDATE_CC_DATA_OUT_OF_RANGE}
          \<longrightarrow> unat o' + unat l \<le> length img \<longrightarrow> take (unat l) (drop 1 r) = slice (unat o') (unat l) img))"

definition fw_rd_honest :: "'w fw_read_fn \<Rightarrow> bool" where
  "fw_rd_honest rd \<longleftrightarrow> (\<forall>s cmd req n. \<exists>len r. rd s cmd req n = Some (s, len, r) \<and> nth0 r 0 = PLDM_SUCCESS
     \<and> (cmd = PLDM_FW_UPDATE_CMD_CODE_REQUEST_FIRMWARE_DATA \<longrightarrow> n < 65536 \<longrightarrow> unat len = n)
     \<and> (cmd \<noteq> PLDM_FW_UPDATE_CMD_CODE_REQUEST_FIRMWARE_DATA \<longrightarrow> len = 1))"

text \<open>
  Sizes for which every piece of the image has at least 32 bytes: the agent's transfer size divides 64 KiB, and the last piece is
  not shorter than 32 bytes.
\<close>

definition fw_sizes_ok :: "pldm_fw_update_cfg \<Rightarrow> nat \<Rightarrow> bool" where
  "fw_sizes_ok cfg N \<longleftrightarrow>
     unat (uc_image_size cfg) = N \<and> 0 < N \<and> N < 2 ^ 31 \<and>
     32 \<le> unat (uc_max_buff_size cfg) \<and> 65536 mod unat (uc_max_buff_size cfg) = 0 \<and>
     (N mod unat (uc_max_buff_size cfg) = 0 \<or> 32 \<le> N mod unat (uc_max_buff_size cfg)) \<and>
     (unat (uc_max_buff_size cfg) \<le> N \<or> N + 32 < unat (uc_max_buff_size cfg))"

definition piece :: "nat \<Rightarrow> nat \<Rightarrow> nat \<Rightarrow> nat" where
  "piece M N ofs = min M (N - ofs)"

definition fw_rd_acks :: "'w fw_read_fn \<Rightarrow> bool" where
  "fw_rd_acks rd \<longleftrightarrow> (\<forall>s cmd req n. cmd \<noteq> PLDM_FW_UPDATE_CMD_CODE_REQUEST_FIRMWARE_DATA
     \<longrightarrow> (\<exists>r. rd s cmd req n = Some (s, 1, r) \<and> nth0 r 0 = PLDM_SUCCESS))"

text \<open>What an agent may do to the version string while the thread waits.\<close>

definition fw_rd_keeps :: "(bytes \<Rightarrow> bool) \<Rightarrow> 'w fw_read_fn \<Rightarrow> bool" where
  "fw_rd_keeps P rd \<longleftrightarrow> (\<forall>s cmd req n s' len r. rd s cmd req n = Some (s', len, r)
     \<longrightarrow> P (c_str (fu_comp_str s)) \<longrightarrow> P (c_str (fu_comp_str s')))"

text \<open>
  A component with only an update function; and one whose other functions may choose bus and address before the update
  and do nothing that the update depends on afterwards.
\<close>

definition fw_plain_info :: "'w pldm_fw_update_info \<Rightarrow> 'w fwupdate_func \<Rightarrow> bool" where
  "fw_plain_info info upd \<longleftrightarrow> pi_update_func info = Some upd \<and> pi_pre_update_func info = None
     \<and> pi_pos_update_func info = None \<and> pi_self_apply_work_func info = None"

definition param_dest :: "pldm_fw_update_param \<Rightarrow> u8 \<times> u8" where
  "param_dest p = (up_bus p, up_addr p)"

definition fw_dest_info :: "'w pldm_fw_update_info \<Rightarrow> 'w fwupdate_func \<Rightarrow> u8 \<times> u8 \<Rightarrow> bool" where
  "fw_dest_info info upd d \<longleftrightarrow> pi_update_func info = Some upd \<and> pi_self_apply_work_func info = None
     \<and> (case pi_pre_update_func info of None \<Rightarrow> d = (0, 0)
        | Some pre \<Rightarrow> \<forall>cfg w p. pre cfg w p = Some (w, p\<lparr>up_bus := fst d, up_addr := snd d\<rparr>, 0))
     \<and> (case pi_pos_update_func info of None \<Rightarrow> True | Some pos \<Rightarrow> \<forall>cfg w p. \<exists>p' r. pos cfg w p = Some (w, p', r))"

definition request_update_msg :: "u32 \<Rightarrow> bytes" where
  "request_update_msg transfer_size = le32 transfer_size @ le16 1 @ [1] @ le16 0 @ [1, 0]"

definition pass_component_table_msg :: "u16 \<Rightarrow> bytes" where
  "pass_component_table_msg comp_id = [PLDM_START_AND_END] @ le16 PLDM_COMP_DOWNSTREAM_DEVICE @ le16 comp_id @ [0] @ le32 0 @ [1, 0]"

definition update_component_msg :: "u16 \<Rightarrow> bytes \<Rightarrow> u32 \<Rightarrow> bytes" where
  "update_component_msg comp_id ver image_size =
     le16 PLDM_COMP_DOWNSTREAM_DEVICE @ le16 comp_id @ [0] @ le32 0 @ le32 image_size @ le32 0 @ [1, of_nat (length ver)] @ ver"

text \<open>A version string that fits its array.\<close>

definition ver_ok :: "bytes \<Rightarrow> bool" where
  "ver_ok ver \<longleftrightarrow> length ver < COMP_STR_SIZE \<and> 0 \<notin> set ver"

definition update_dialogue :: "mctp_ext_params \<Rightarrow> u32 \<Rightarrow> u16 \<Rightarrow> bytes \<Rightarrow> u32 \<Rightarrow> 'w fw_event list" where
  "update_dialogue ext transfer_size comp_id ver image_size =
     [Agent PLDM_FW_UPDATE_CMD_CODE_REQUEST_UPDATE (request_update_msg transfer_size) ext,
      Agent PLDM_FW_UPDATE_CMD_CODE_PASS_COMPONENT_TABLE (pass_component_table_msg comp_id) ext,
      Agent PLDM_FW_UPDATE_CMD_CODE_UPDATE_COMPONENT (update_component_msg comp_id ver image_size) ext]"

text \<open>A component that the platform offers for an update.\<close>

definition comp_offered :: "'w fw_plat \<Rightarrow> u16 \<Rightarrow> 'w pldm_fw_update_info \<Rightarrow> 'w fwu \<Rightarrow> bool" where
  "comp_offered p comp_id info s \<longleftrightarrow>
     find (\<lambda>c. pi_comp_identifier c = fp_work p comp_id) (fu_config s) = Some info
     \<and> pi_enable info \<and> pi_comp_classification info = PLDM_COMP_DOWNSTREAM_DEVICE
     \<and> pi_comp_classification_index info = 0 \<and> pi_comp_version_str info = None
     \<and> fp_heap p \<and> fp_check p comp_id [] = PLDM_SUCCESS \<and> comp_id \<le> 0x0FFF"

text \<open>An agent that serves an image.\<close>

definition serve_image :: "bytes \<Rightarrow> 'w fw_read_fn" where
  "serve_image img s cmd req n =
    (if cmd = PLDM_FW_UPDATE_CMD_CODE_REQUEST_FIRMWARE_DATA
     then Some (s, of_nat n, 0 # slice (unat (get32 req 0)) (unat (get32 req 4)) img)
     else Some (s, 1, [0]))"

definition cancelling_agent :: "bytes \<Rightarrow> 'w fw_read_fn" where
  "cancelling_agent img s cmd req n =
    (if cmd = PLDM_FW_UPDATE_CMD_CODE_REQUEST_FIRMWARE_DATA
     then Some (fst (cancel_update s [] 0 0 demo_pldm_ext), of_nat n,
            0 # slice (unat (get32 req 0)) (unat (get32 req 4)) img)
     else Some (s, 1, [0]))"

definition cancel_demo :: "pldm_fw_update_param list fwu" where
  "cancel_demo = (fw_demo_idle [] [])\<lparr>fu_state := STATE_DOWNLOAD, fu_keep := True, fu_timer := True,
     fu_cfg := \<lparr>uc_image_size = 32, uc_max_buff_size = 32\<rparr>\<rparr>"

text \<open>
  The states that a history has the thread set, and what it means that a run leads from one state to another; an agent
  whose answers come with commands and expiries only.
\<close>

fun thread_states :: "'w fw_event list \<Rightarrow> fw_state list" where
  "thread_states [] = []"
| "thread_states (Thread (Act_state st) # es) = st # thread_states es"
| "thread_states (e # es) = thread_states es"

definition fw_leads :: "'w fw_plat \<Rightarrow> nat \<Rightarrow> fw_state list \<Rightarrow> 'w fwu \<Rightarrow> 'w fwu \<Rightarrow> bool" where
  "fw_leads p inst sts s s' \<longleftrightarrow> (\<exists>es. s' = fw_run p inst es s \<and> thread_states es = sts)"

definition rd_leads :: "'w fw_plat \<Rightarrow> nat \<Rightarrow> 'w fw_read_fn \<Rightarrow> bool" where
  "rd_leads p inst rd \<longleftrightarrow> (\<forall>s cmd req n s' len r. rd s cmd req n = Some (s', len, r)
     \<longrightarrow> (\<exists>es. s' = fw_run p inst es s \<and> (\<forall>e \<in> set es. case e of Thread a \<Rightarrow> False | _ \<Rightarrow> True)))"

section \<open>Properties\<close>

text \<open>The thread as a history of events.\<close>

lemma thread_states_append: "thread_states (es @ es') = thread_states es @ thread_states es'"
  by (induction es rule: thread_states.induct) simp_all

lemma fw_leads_refl: "fw_leads p inst [] s s"
  unfolding fw_leads_def by (rule exI [of _ "[]"]) (simp add: fw_run_def)

lemma fw_leads_trans: "fw_leads p inst xs s s1 \<Longrightarrow> fw_leads p inst ys s1 s2 \<Longrightarrow> fw_leads p inst (xs @ ys) s s2"
  unfolding fw_leads_def by (metis fw_run_append thread_states_append)

lemmas fw_leads_quiet = fw_leads_trans [where xs = "[]", unfolded append_Nil]

lemma fw_leads_act:
  "fw_leads p inst [st] s (state_update st s)" "fw_leads p inst [] s (s\<lparr>fu_aux := a\<rparr>)"
  "fw_leads p inst [] s (s\<lparr>fu_timer := True\<rparr>)" "fw_leads p inst [] s (s\<lparr>fu_world := w\<rparr>)"
  "fw_leads p inst [] s (s\<lparr>fu_cfg := (fu_cfg s)\<lparr>uc_image_size := 0\<rparr>, fu_thread := None\<rparr>)"
  "fw_leads p inst [] s (pldm_status_reset s)" "fw_leads p inst [] s (fw_failed s)"
  unfolding fw_leads_def fw_failed_def
  by (rule exI [of _ "[Thread (Act_state st)]"], simp add: fw_run_def,
      rule exI [of _ "[Thread (Act_aux a)]"], simp add: fw_run_def,
      rule exI [of _ "[Thread Act_timer]"], simp add: fw_run_def,
      rule exI [of _ "[Thread (Act_world w)]"], simp add: fw_run_def,
      rule exI [of _ "[Thread Act_end]"], simp add: fw_run_def,
      rule exI [of _ "[Thread Act_reset]"], simp add: fw_run_def,
      rule exI [of _ "[Thread (Act_aux STATE_AUX_FAILED)]"], simp add: fw_run_def)

lemma rd_leads_read:
  assumes "rd_leads p inst rd" and "rd s cmd req n = Some (s', len, r)"
  shows "fw_leads p inst [] s s'"
proof -
  obtain es where es: "s' = fw_run p inst es s" "\<forall>e \<in> set es. case e of Thread a \<Rightarrow> False | _ \<Rightarrow> True"
    using assms unfolding rd_leads_def by blast
  from es(2) have "thread_states es = []" by (induction es rule: thread_states.induct) auto
  then show ?thesis using es(1) unfolding fw_leads_def by blast
qed

lemma call_update_leads: "call_update f s q = Some (s', q', r) \<Longrightarrow> fw_leads p inst [] s s'"
  by (auto simp: call_update_def fw_leads_act split: option.splits)

lemma report_tranfer_leads:
  assumes "rd_leads p inst rd" and "report_tranfer rd s c = Some (s', r)"
  shows "fw_leads p inst [] s s'"
  using assms(2) rd_leads_read [OF assms(1)]
  by (auto simp: report_tranfer_def fw_leads_refl split: option.splits if_splits)

lemma report_success_leads:
  assumes "rd_leads p inst rd" and "report_success rd s c = Some (s', b)"
  shows "fw_leads p inst [] s s'"
proof -
  obtain s1 k where c: "report_tranfer rd s c = Some (s1, k)"
    using assms(2) by (auto simp: report_success_def split: option.splits)
  note l = report_tranfer_leads [OF assms(1) c]
  show ?thesis
  proof (cases "k = 0")
    case True
    then show ?thesis using assms(2) l c by (simp add: report_success_def)
  next
    case False
    then obtain s2 k2 where "report_tranfer rd s1 PLDM_FW_UPDATE_GENERIC_ERROR = Some (s2, k2)" "s' = fw_failed s2"
      using assms(2) c by (auto simp: report_success_def split: option.splits)
    then show ?thesis using l report_tranfer_leads [OF assms(1)] fw_leads_quiet fw_leads_act(7) by metis
  qed
qed

lemma handle_data_leads:
  assumes "rd_leads p inst rd" and "handle_data rd upd s q ofs e r = Some (s', q', b)"
  shows "fw_leads p inst [] s s'"
proof (cases "nth0 r 0 \<noteq> PLDM_SUCCESS \<and> nth0 r 0 \<noteq> PLDM_FW_UPDATE_CC_DATA_OUT_OF_RANGE")
  case True
  then show ?thesis using assms(2) by (auto simp: handle_data_def fw_leads_act)
next
  case False
  then obtain s1 q1 k where c: "call_update upd s (q\<lparr>up_data := drop 1 r, up_data_len := e, up_data_ofs := ofs\<rparr>) = Some (s1, q1, k)"
    and rest: "(if k \<noteq> 0 then (case report_tranfer rd s1 PLDM_FW_UPDATE_GENERIC_ERROR of None \<Rightarrow> None
        | Some (s, _) \<Rightarrow> Some (fw_failed s, q1, True)) else Some (s1, q1, False)) = Some (s', q', b)"
    using assms(2) by (auto simp: handle_data_def split: if_splits option.splits)
  note l = call_update_leads [OF c, of p inst]
  show ?thesis
  proof (cases "k = 0")
    case True
    then show ?thesis using rest l by simp
  next
    case False
    then obtain s2 k2 where "report_tranfer rd s1 PLDM_FW_UPDATE_GENERIC_ERROR = Some (s2, k2)" "s' = fw_failed s2"
      using rest by (auto split: option.splits)
    then show ?thesis using l report_tranfer_leads [OF assms(1)] fw_leads_quiet fw_leads_act(7) by metis
  qed
qed

lemma download_loop_leads:
  assumes "rd_leads p inst rd" and "download_loop rd upd s q ofs len last_ofs retry = Some (s', q', ok)"
  shows "fw_leads p inst [] s s'"
proof -
  let ?P = "\<lambda>rd upd s q ofs len last_ofs retry (y :: _ \<times> pldm_fw_update_param \<times> bool).
    rd_leads p inst rd \<longrightarrow> fw_leads p inst [] s (fst y)"
  have "?P rd upd s q ofs len last_ofs retry (s', q', ok)"
  proof (rule download_loop.raw_induct [of ?P, OF _ assms(2)])
    fix rec rd upd s q ofs len last_ofs retry y
    assume IH: "\<And>rd upd s q ofs len last_ofs retry y. rec rd upd s q ofs len last_ofs retry = Some y
        \<Longrightarrow> ?P rd upd s q ofs len last_ofs retry y"
      and eq: "(if \<not> fu_keep s then Some (fw_failed s, q, False)
        else case request_length (fu_cfg s) ofs len of (len, expect_len) \<Rightarrow>
          (case rd s PLDM_FW_UPDATE_CMD_CODE_REQUEST_FIRMWARE_DATA (le32 ofs @ le32 len) (unat len + 1) of
             None \<Rightarrow> None
           | Some (s, read_len, resp_buf) \<Rightarrow>
             if read_len = 0 then Some (fw_failed s, q, False)
             else
               let retry = (if last_ofs \<noteq> ofs then 0 else retry) in
               if (ucast read_len :: u32) \<noteq> len + 1 then
                 (if UPDATE_REQUEST_DATA_MAX_RETRY_COUNT < retry + 1 then Some (fw_failed s, q, False)
                  else rec rd upd s q ofs len ofs (retry + 1))
               else
                 (case handle_data rd upd s q ofs expect_len resp_buf of
                    None \<Rightarrow> None
                  | Some (s, q, failed) \<Rightarrow>
                    if failed then Some (s, q, False)
                    else if up_next_len q = 0 then Some (s, q, True)
                    else rec rd upd (s\<lparr>fu_timer := True\<rparr>) q (up_next_ofs q) (up_next_len q) ofs retry))) = Some y"
    show "?P rd upd s q ofs len last_ofs retry y"
    proof (intro impI, cases "fu_keep s")
      case False
      then show "fw_leads p inst [] s (fst y)" using eq by (auto simp: fw_leads_act)
    next
      case True
      assume ok: "rd_leads p inst rd"
      obtain l e where rl: "request_length (fu_cfg s) ofs len = (l, e)" by force
      obtain s1 k b where read: "rd s PLDM_FW_UPDATE_CMD_CODE_REQUEST_FIRMWARE_DATA (le32 ofs @ le32 l) (unat l + 1) = Some (s1, k, b)"
        using eq True rl by (auto split: option.splits)
      note l1 = fw_leads_quiet [OF rd_leads_read [OF ok read]]
      define R where "R = (if last_ofs \<noteq> ofs then 0 else retry)"
      have eq1: "(if k = 0 then Some (fw_failed s1, q, False)
         else if (ucast k :: u32) \<noteq> l + 1 then
           (if UPDATE_REQUEST_DATA_MAX_RETRY_COUNT < R + 1 then Some (fw_failed s1, q, False)
            else rec rd upd s1 q ofs l ofs (R + 1))
         else (case handle_data rd upd s1 q ofs e b of
              None \<Rightarrow> None
            | Some (s, q, failed) \<Rightarrow>
              if failed then Some (s, q, False)
              else if up_next_len q = 0 then Some (s, q, True)
              else rec rd upd (s\<lparr>fu_timer := True\<rparr>) q (up_next_ofs q) (up_next_len q) ofs R)) = Some y"
        using eq True by (simp only: rl read Let_def R_def [symmetric] prod.case option.case not_True_eq_False if_False)
      consider "y = (fw_failed s1, q, False)" | "rec rd upd s1 q ofs l ofs (R + 1) = Some y"
        | s2 q2 f where "handle_data rd upd s1 q ofs e b = Some (s2, q2, f)" "fst y = s2"
        | s2 q2 where "handle_data rd upd s1 q ofs e b = Some (s2, q2, False)"
            "rec rd upd (s2\<lparr>fu_timer := True\<rparr>) q2 (up_next_ofs q2) (up_next_len q2) ofs R = Some y"
      proof (cases "k = 0 \<or> (ucast k :: u32) \<noteq> l + 1")
        case True
        have "(fw_failed s1, q, False) = y \<or> rec rd upd s1 q ofs l ofs (R + 1) = Some y"
        proof (cases "k = 0")
          case True
          show ?thesis using eq1 by (simp only: True if_True option.inject simp_thms)
        next
          case k: False
          then have l: "((ucast k :: u32) \<noteq> l + 1) = True" using True by blast
          show ?thesis
          proof (cases "UPDATE_REQUEST_DATA_MAX_RETRY_COUNT < R + 1")
            case True
            show ?thesis using eq1 unfolding l by (simp only: k True if_True if_False option.inject simp_thms)
          next
            case False
            show ?thesis using eq1 unfolding l by (simp only: k False if_True if_False simp_thms)
          qed
        qed
        then show thesis using that(1,2) by metis
      next
        case False
        then have k: "(k = 0) = False" "((ucast k :: u32) \<noteq> l + 1) = False" by blast+
        have eq2: "(case handle_data rd upd s1 q ofs e b of
              None \<Rightarrow> None
            | Some (s, q, failed) \<Rightarrow>
              if failed then Some (s, q, False)
              else if up_next_len q = 0 then Some (s, q, True)
              else rec rd upd (s\<lparr>fu_timer := True\<rparr>) q (up_next_ofs q) (up_next_len q) ofs R) = Some y"
          using eq1 unfolding k if_False .
        then obtain s2 q2 f where h: "handle_data rd upd s1 q ofs e b = Some (s2, q2, f)"
          by (cases "handle_data rd upd s1 q ofs e b") (simp, metis prod_cases3)
        have eq3: "(if f then Some (s2, q2, False) else if up_next_len q2 = 0 then Some (s2, q2, True)
            else rec rd upd (s2\<lparr>fu_timer := True\<rparr>) q2 (up_next_ofs q2) (up_next_len q2) ofs R) = Some y"
          using eq2 unfolding h option.case prod.case .
        show thesis
        proof (cases "f \<or> up_next_len q2 = 0")
          case True
          then have "fst y = s2" using eq3 by (cases f) (auto split: if_splits)
          then show thesis using that(3) h by blast
        next
          case False
          then have n: "f = False" "(up_next_len q2 = 0) = False" by simp_all
          show thesis using that(4) [OF h [unfolded n] eq3 [unfolded n if_False]] .
        qed
      qed
      then show "fw_leads p inst [] s (fst y)"
      proof cases
        case 1
        then show ?thesis using l1 [OF fw_leads_act(7)] by simp
      next
        case 2
        then show ?thesis using IH ok l1 by blast
      next
        case 3
        then show ?thesis using handle_data_leads [OF ok] l1 by blast
      next
        case 4
        then have "fw_leads p inst [] (s2\<lparr>fu_timer := True\<rparr>) (fst y)" using IH ok by blast
        then show ?thesis using handle_data_leads [OF ok 4(1)] l1 fw_leads_quiet fw_leads_act(3) by metis
      qed
    qed
  qed
  then show ?thesis using assms(1) by simp
qed

text \<open>
  Whatever the agent does while the thread waits: what a run of the thread does is a history of events, and the states that
  the thread sets are, in this order, verification, application and ready for the transfer, or the first of them.
\<close>

lemma complete_update_leads:
  assumes "rd_leads p inst rd" and "complete_update rd info s = Some s'"
  shows "\<exists>sts. prefix sts [STATE_VERIFY, STATE_APPLY, STATE_RDY_XFER] \<and> fw_leads p inst sts s s'"
proof -
  note rep = report_success_leads [OF assms(1)]
  obtain s1 b1 where r1: "report_success rd (s\<lparr>fu_aux := STATE_AUX_SUCCESS\<rparr>) 0 = Some (s1, b1)"
    using assms(2) by (auto simp: complete_update_def split: option.splits)
  have l1: "fw_leads p inst [] s s1" by (rule fw_leads_quiet [OF fw_leads_act(2) rep [OF r1]])
  show ?thesis
  proof (cases b1)
    case False
    then show ?thesis using assms(2) r1 l1 by (intro exI [of _ "[]"]) (simp add: complete_update_def)
  next
    case b1: True
    then obtain s2 b2 where r2: "report_success rd (state_update STATE_VERIFY s1) 0 = Some (s2, b2)"
      using assms(2) r1 by (auto simp: complete_update_def split: option.splits)
    have l2: "fw_leads p inst [STATE_VERIFY] s s2"
      using fw_leads_quiet [OF l1 fw_leads_trans [OF fw_leads_act(1) rep [OF r2]]] by simp
    show ?thesis
    proof (cases b2)
      case False
      then show ?thesis using assms(2) r1 r2 b1 l2 by (intro exI [of _ "[STATE_VERIFY]"]) (simp add: complete_update_def)
    next
      case b2: True
      define s3 where "s3 = state_update STATE_APPLY s2"
      obtain s4 c where a: "(case pi_self_apply_work_func info of None \<Rightarrow> (s3, 0)
          | Some f \<Rightarrow> (case f (fu_world s3) of (w, r) \<Rightarrow> (s3\<lparr>fu_world := w\<rparr>, r))) = (s4, c)" by force
      have "fw_leads p inst [] s3 s4" using a fw_leads_refl [of p inst s3] fw_leads_act(4) [of p inst s3]
        by (auto split: option.splits prod.splits)
      then have l4: "fw_leads p inst [STATE_VERIFY, STATE_APPLY] s s4"
        using fw_leads_trans [OF l2 fw_leads_trans [OF fw_leads_act(1)]] by (fastforce simp: s3_def)
      obtain s5 b5 where r5: "report_success rd s4 c = Some (s5, b5)"
        and e: "s' = (if b5 then (state_update STATE_RDY_XFER s5)\<lparr>fu_aux := STATE_AUX_SUCCESS\<rparr> else s5)"
        using assms(2) r1 r2 b1 b2 a unfolding s3_def
        by (auto simp: complete_update_def Let_def split: option.splits bool.splits)
      have l5: "fw_leads p inst [STATE_VERIFY, STATE_APPLY] s s5" using fw_leads_trans [OF l4 rep [OF r5]] by simp
      then have "fw_leads p inst [STATE_VERIFY, STATE_APPLY, STATE_RDY_XFER] s
          ((state_update STATE_RDY_XFER s5)\<lparr>fu_aux := STATE_AUX_SUCCESS\<rparr>)"
        using fw_leads_trans [OF l5 fw_leads_trans [OF fw_leads_act(1) fw_leads_act(2)]] by simp
      then show ?thesis using l5 e by (cases b5) (force intro: exI [of _ "[STATE_VERIFY, STATE_APPLY]"])+
    qed
  qed
qed

lemma finish_update_leads:
  assumes "finish_update info s q = Some s'"
  shows "fw_leads p inst [] s s'"
proof (cases "pi_pos_update_func info")
  case None
  then show ?thesis using assms by (auto simp: finish_update_def fw_leads_act)
next
  case (Some f)
  then obtain s1 q1 r where "call_update f s q = Some (s1, q1, r)"
      "s' = s1\<lparr>fu_cfg := (fu_cfg s1)\<lparr>uc_image_size := 0\<rparr>, fu_thread := None\<rparr>"
    using assms by (auto simp: finish_update_def split: option.splits)
  then show ?thesis using fw_leads_quiet [OF call_update_leads fw_leads_act(5)] by simp
qed

lemma req_fw_update_handler_leads:
  assumes "rd_leads p inst rd" and "req_fw_update_handler work rd s = Some s'"
  shows "\<exists>sts. prefix sts [STATE_VERIFY, STATE_APPLY, STATE_RDY_XFER] \<and> fw_leads p inst sts s s'"
proof (cases "find_update_info work (fu_comp_id s) s")
  case None
  then show ?thesis using assms(2) by (auto simp: req_fw_update_handler_def intro: exI [of _ "[]"] fw_leads_act)
next
  case info: (Some info)
  show ?thesis
  proof (cases "pi_update_func info")
    case None
    then show ?thesis using assms(2) info by (auto simp: req_fw_update_handler_def intro: exI [of _ "[]"] fw_leads_act)
  next
    case upd: (Some upd)
    obtain s1 q1 k where pre: "(case pi_pre_update_func info of None \<Rightarrow> Some (s, first_param info s, 0)
        | Some pre \<Rightarrow> call_update pre s (first_param info s)) = Some (s1, q1, k)"
      using assms(2) info upd by (auto simp: req_fw_update_handler_def split: option.splits)
    have l1: "fw_leads p inst [] s s1"
      using pre call_update_leads fw_leads_refl by (auto split: option.splits)
    note q1 = fw_leads_quiet [OF l1]
    show ?thesis
    proof (cases "k = 0")
      case False
      then have "finish_update info s1 q1 = Some s'" using assms(2) info upd pre by (simp add: req_fw_update_handler_def)
      then show ?thesis using q1 finish_update_leads by (blast intro: Nil_prefix)
    next
      case True
      then obtain s2 q2 ok where dl: "download_loop rd upd (s1\<lparr>fu_aux := STATE_AUX_INPROGRESS\<rparr>) q1 0
            (ucast (uc_max_buff_size (fu_cfg s1))) 0xFFFFFFFF 0 = Some (s2, q2, ok)"
          "(if \<not> ok then finish_update info s2 q2
            else case complete_update rd info s2 of None \<Rightarrow> None | Some s \<Rightarrow> finish_update info s q2) = Some s'"
        using assms(2) info upd pre by (auto simp: req_fw_update_handler_def split: option.splits)
      have l2: "fw_leads p inst [] s s2"
        by (rule q1 [OF fw_leads_quiet [OF fw_leads_act(2) download_loop_leads [OF assms(1) dl(1)]]])
      show ?thesis
      proof (cases ok)
        case False
        then show ?thesis using dl(2) fw_leads_quiet [OF l2 finish_update_leads] by (auto intro: exI [of _ "[]"])
      next
        case True
        then obtain s3 where c: "complete_update rd info s2 = Some s3" "finish_update info s3 q2 = Some s'"
          using dl(2) by (auto split: option.splits)
        from complete_update_leads [OF assms(1) c(1)] obtain sts where
          "prefix sts [STATE_VERIFY, STATE_APPLY, STATE_RDY_XFER]" "fw_leads p inst sts s2 s3" by blast
        then show ?thesis using fw_leads_trans [OF fw_leads_quiet [OF l2] finish_update_leads [OF c(2)]]
          by (metis append_Nil2)
      qed
    qed
  qed
qed

lemma piece_le: "piece M N ofs \<le> M" "ofs \<le> N \<Longrightarrow> ofs + piece M N ofs \<le> N"
  by (simp_all add: piece_def)

lemma piece_ge:
  assumes "ofs < N" and "ofs mod M = 0" and "32 \<le> M" and "N mod M = 0 \<or> 32 \<le> N mod (M :: nat)"
  shows "32 \<le> piece M N ofs"
proof (cases "M \<le> N - ofs")
  case True
  then show ?thesis using assms(3) by (simp add: piece_def)
next
  case False
  then have "(N - ofs) mod M = N - ofs" by simp
  moreover have "(N - ofs) mod M = N mod M" using assms(1,2)
    by (metis add_0 le_add_diff_inverse less_imp_le mod_add_left_eq)
  ultimately have "N mod M = N - ofs" by simp
  then have "32 \<le> N - ofs" using assms(1,4) by linarith
  then show ?thesis using assms(3) by (simp add: piece_def)
qed

lemma sector_room:
  assumes "M dvd (K :: nat)" and "ofs mod M = 0" and "0 < K" and "l \<le> M"
  shows "ofs mod K + l \<le> K"
proof -
  obtain q where q: "K = M * q" using assms(1) by (auto simp: dvd_def)
  have "(ofs mod K) mod M = 0" using assms(2) by (simp add: q mod_mult2_eq)
  then obtain j where j: "ofs mod K = M * j" by (metis mod_0_imp_dvd dvdE)
  have "M * j < M * q" using assms(3) j q by (metis mod_less_divisor)
  then have "M * (j + 1) \<le> M * q" by (simp add: Suc_leI del: mult_Suc_right)
  then show ?thesis using j q assms(4) by simp
qed

lemma size_facts:
  assumes sizes: "fw_sizes_ok cfg N" and M: "M = unat (uc_max_buff_size cfg)"
  shows "unat (uc_image_size cfg) = N" "0 < N" "N < 2147483648" "32 \<le> M" "65536 mod M = 0" "M < 65536"
  "N mod M = 0 \<or> 32 \<le> N mod M" "M \<le> N \<or> N + 32 < M" "unat (ucast (uc_max_buff_size cfg) :: u32) = M"
  using sizes by (simp_all add: fw_sizes_ok_def M)

lemma size_half:
  assumes "fw_sizes_ok cfg N" and "M = unat (uc_max_buff_size cfg)"
  shows "M \<le> 32768"
proof -
  note S = size_facts [OF assms]
  obtain q where q: "65536 = M * q" using S(5) by (metis mod_0_imp_dvd dvdE)
  then have "q \<noteq> 0" "q \<noteq> 1" using S(6) by (metis mult_0_right zero_neq_numeral, metis mult_1_right less_irrefl)
  then have "M * 2 \<le> M * q" by simp
  then show ?thesis using q by linarith
qed

lemma request_length_piece:
  assumes sizes: "fw_sizes_ok cfg N" and M: "M = unat (uc_max_buff_size cfg)"
    and ofs: "unat ofs = n" "n < N" "n mod M = 0"
    and len: "unat len = piece M N n \<or> n = 0 \<and> unat len = M"
  shows "\<exists>l. request_length cfg ofs len = (l, l) \<and> unat l = piece M N n"
proof -
  note S = size_facts [OF sizes M]
  have g: "32 \<le> piece M N n" by (rule piece_ge) (use ofs S in simp_all)
  have img: "unat (uc_image_size cfg + MIN_FW_UPDATE_BASELINE_TRANS_SIZE) = N + 32"
    by (subst unat_plus_no_wrap) (use S in \<open>simp_all add: MIN_FW_UPDATE_BASELINE_TRANS_SIZE_def\<close>)
  have lM: "unat len \<le> M" using len piece_le(1) by auto
  have sum: "unat (ofs + len) = n + unat len"
    by (subst unat_plus_no_wrap) (use ofs lM S in simp_all)
  have mb: "unat MIN_FW_UPDATE_BASELINE_TRANS_SIZE = 32" by (simp add: MIN_FW_UPDATE_BASELINE_TRANS_SIZE_def)
  define len' where "len' = (if uc_image_size cfg + MIN_FW_UPDATE_BASELINE_TRANS_SIZE < ofs + len
    then uc_image_size cfg - ofs else len)"
  have len': "unat len' = piece M N n"
  proof (cases "unat len = piece M N n")
    case True
    then have "\<not> N + 32 < n + unat len" using piece_le(2) [of n N M] ofs by linarith
    then show ?thesis using True by (simp add: len'_def word_less_nat_alt img sum)
  next
    case False
    then have z: "n = 0" "unat len = M" using len by blast+
    then have "N < M" using False by (simp add: piece_def min_def split: if_splits)
    then have "N + 32 < n + unat len" using S(8) z by linarith
    then have "len' = uc_image_size cfg - ofs" by (simp add: len'_def word_less_nat_alt img sum)
    moreover have "ofs = 0" using ofs(1) z(1) by (simp add: word_unat_eq_iff)
    ultimately show ?thesis using z \<open>N < M\<close> S(1) by (simp add: piece_def)
  qed
  show ?thesis
  proof (cases "unat len' = 32")
    case True
    then have "len' = MIN_FW_UPDATE_BASELINE_TRANS_SIZE" by (simp add: word_unat_eq_iff mb)
    then show ?thesis using len' by (simp add: request_length_def Let_def flip: len'_def)
  next
    case False
    then have "\<not> len' \<le> MIN_FW_UPDATE_BASELINE_TRANS_SIZE" "\<not> ucast (uc_max_buff_size cfg) < len'"
      using g len' piece_le(1) [of M N n] S(9) by (simp_all add: word_le_nat_alt word_less_nat_alt mb)
    then show ?thesis using len' by (simp add: request_length_def Let_def flip: len'_def)
  qed
qed

lemma fw_failed_simps [simp]:
  "fu_world (fw_failed s) = fu_world s" "fu_cfg (fw_failed s) = fu_cfg s" "fu_aux (fw_failed s) = STATE_AUX_FAILED"
  "fu_state (fw_failed s) = fu_state s" "fu_config (fw_failed s) = fu_config s" "fu_keep (fw_failed s) = fu_keep s"
  by (simp_all add: fw_failed_def)

lemma fw_rdE:
  assumes "fw_rd_ok img rd"
  obtains s' len r where "rd s cmd req n = Some (s', len, r)" and "fu_world s' = fu_world s" and "fu_cfg s' = fu_cfg s"
    and "\<And>o' l. cmd = PLDM_FW_UPDATE_CMD_CODE_REQUEST_FIRMWARE_DATA \<Longrightarrow> req = le32 o' @ le32 l \<Longrightarrow> unat len = unat l + 1
          \<Longrightarrow> nth0 r 0 \<in> {PLDM_SUCCESS, PLDM_FW_UPDATE_CC_DATA_OUT_OF_RANGE} \<Longrightarrow> unat o' + unat l \<le> length img
          \<Longrightarrow> take (unat l) (drop 1 r) = slice (unat o') (unat l) img"
proof -
  from assms [unfolded fw_rd_ok_def, THEN spec [of _ s], THEN spec [of _ cmd], THEN spec [of _ req], THEN spec [of _ n]]
  obtain s' len r where 1: "rd s cmd req n = Some (s', len, r)" "fu_world s' = fu_world s" "fu_cfg s' = fu_cfg s"
    and 2: "\<forall>o' l. cmd = PLDM_FW_UPDATE_CMD_CODE_REQUEST_FIRMWARE_DATA \<longrightarrow> req = le32 o' @ le32 l
          \<longrightarrow> unat len = unat l + 1 \<longrightarrow> nth0 r 0 \<in> {PLDM_SUCCESS, PLDM_FW_UPDATE_CC_DATA_OUT_OF_RANGE}
          \<longrightarrow> unat o' + unat l \<le> length img \<longrightarrow> take (unat l) (drop 1 r) = slice (unat o') (unat l) img"
    by (elim exE conjE) (rule that)
  show ?thesis by (rule that [OF 1]) (use 2 in simp)
qed

lemma report_returns:
  assumes "fw_rd_ok img rd"
  obtains s' r where "report_tranfer rd s c = Some (s', r)" and "fu_world s' = fu_world s" and "fu_cfg s' = fu_cfg s"
proof (cases "report_request (fu_state s) c")
  case None
  then show ?thesis using that [of s 0] by (simp add: report_tranfer_def)
next
  case (Some x)
  obtain cmd req where x: "x = (cmd, req)" by fastforce
  obtain s' len r where "rd s cmd req 10 = Some (s', len, r)" "fu_world s' = fu_world s" "fu_cfg s' = fu_cfg s"
    by (rule fw_rdE [OF assms])
  then show ?thesis
    using that [of s' "if len \<noteq> 1 \<or> nth0 r 0 \<noteq> PLDM_SUCCESS then 1 else 0"] Some x
    by (simp add: report_tranfer_def)
qed

lemma fw_rd_honest_acks: "fw_rd_honest rd \<Longrightarrow> fw_rd_acks rd"
  unfolding fw_rd_honest_def fw_rd_acks_def by metis

lemma report_tranfer_acks:
  assumes "fw_rd_acks rd"
  shows "report_tranfer rd s c = Some (s, 0)"
proof (cases "report_request (fu_state s) c")
  case None
  then show ?thesis by (simp add: report_tranfer_def)
next
  case (Some x)
  obtain cmd req where x: "x = (cmd, req)" by fastforce
  have "cmd \<noteq> PLDM_FW_UPDATE_CMD_CODE_REQUEST_FIRMWARE_DATA"
    using Some x by (cases "fu_state s") (auto simp: report_request_def fw_cmds)
  then obtain r where "rd s cmd req 10 = Some (s, 1, r)" "nth0 r 0 = PLDM_SUCCESS"
    using assms [unfolded fw_rd_acks_def, THEN spec [of _ s], THEN spec [of _ cmd], THEN spec [of _ req],
        THEN spec [of _ 10]] by auto
  then show ?thesis using Some x by (simp add: report_tranfer_def)
qed

lemma report_success_acks:
  assumes "fw_rd_acks rd"
  shows "report_success rd s c = Some (s, True)"
  by (simp add: report_success_def report_tranfer_acks [OF assms])

lemma report_success_returns:
  assumes "fw_rd_ok img rd"
  obtains s' b where "report_success rd s c = Some (s', b)" and "fu_world s' = fu_world s"
    and "\<not> b \<Longrightarrow> fu_aux s' = STATE_AUX_FAILED"
proof -
  obtain s1 r1 where 1: "report_tranfer rd s c = Some (s1, r1)" "fu_world s1 = fu_world s" by (rule report_returns [OF assms])
  obtain s2 r2 where 2: "report_tranfer rd s1 PLDM_FW_UPDATE_GENERIC_ERROR = Some (s2, r2)" "fu_world s2 = fu_world s1"
    by (rule report_returns [OF assms])
  show ?thesis
    using that [of s1 True] that [of "fw_failed s2" False] 1 2
    by (cases "r1 = 0") (simp_all add: report_success_def)
qed

lemma complete_update_returns:
  assumes rd: "fw_rd_ok img rd" and ap: "pi_self_apply_work_func info = None"
  obtains s' where "complete_update rd info s = Some s'" and "fu_world s' = fu_world s"
proof -
  obtain s1 b1 where 1: "report_success rd (s\<lparr>fu_aux := STATE_AUX_SUCCESS\<rparr>) 0 = Some (s1, b1)" "fu_world s1 = fu_world s"
    by (rule report_success_returns [OF rd, of "s\<lparr>fu_aux := STATE_AUX_SUCCESS\<rparr>" 0]) (rule that, assumption, simp)
  obtain s2 b2 where 2: "report_success rd (state_update STATE_VERIFY s1) 0 = Some (s2, b2)" "fu_world s2 = fu_world s1"
    by (rule report_success_returns [OF rd, of "state_update STATE_VERIFY s1" 0]) (rule that, assumption, simp)
  obtain s3 b3 where 3: "report_success rd (state_update STATE_APPLY s2) 0 = Some (s3, b3)" "fu_world s3 = fu_world s2"
    by (rule report_success_returns [OF rd, of "state_update STATE_APPLY s2" 0]) (rule that, assumption, simp)
  show ?thesis
  proof (cases b1)
    case False
    then show ?thesis using that [of s1] 1 by (simp add: complete_update_def)
  next
    case b1: True
    show ?thesis
    proof (cases b2)
      case False
      then show ?thesis using that [of s2] 1 2 b1 by (simp add: complete_update_def)
    next
      case b2: True
      show ?thesis
        using that [of s3] that [of "(state_update STATE_RDY_XFER s3)\<lparr>fu_aux := STATE_AUX_SUCCESS\<rparr>"] 1 2 3 b1 b2 ap
        by (cases b3) (simp_all add: complete_update_def Let_def)
    qed
  qed
qed

lemma complete_update_acks:
  assumes "fw_rd_acks rd" and "pi_self_apply_work_func info = None"
  shows "complete_update rd info s = Some (s\<lparr>fu_prev := STATE_APPLY, fu_state := STATE_RDY_XFER, fu_timer := True,
    fu_aux := STATE_AUX_SUCCESS\<rparr>)"
  by (simp add: complete_update_def report_success_acks [OF assms(1)] assms(2) Let_def state_update_def)

lemmas complete_update_honest = complete_update_acks [OF fw_rd_honest_acks]

text \<open>
  The contract between the download loop and the update function of a component. \<^verbatim>\<open>stream cfg img n w\<close> says that the
  world \<^verbatim>\<open>w\<close> has taken the first \<^verbatim>\<open>n\<close> bytes of the image and, for all of them, that the component
  is updated. The function asks for the next piece of the image until there is none. \<open>legal\<close> is the destination and the version
  strings that it is called with, and \<open>works\<close> what makes it succeed.
\<close>

locale image_update =
  fixes upd :: "'w fwupdate_func"
    and stream :: "pldm_fw_update_cfg \<Rightarrow> bytes \<Rightarrow> nat \<Rightarrow> 'w \<Rightarrow> bool" and legal :: "u8 \<times> u8 \<Rightarrow> bytes \<Rightarrow> bool" and works :: "u8 \<times> u8 \<Rightarrow> bytes \<Rightarrow> bytes \<Rightarrow> bool"
  assumes stream_sizes: "stream cfg img n w \<Longrightarrow> fw_sizes_ok cfg (length img)"
    and stream_step: "stream cfg img n w \<Longrightarrow> n < length img \<Longrightarrow> n mod unat (uc_max_buff_size cfg) = 0
      \<Longrightarrow> unat (up_data_ofs p) = n \<Longrightarrow> l = piece (unat (uc_max_buff_size cfg)) (length img) n
      \<Longrightarrow> unat (up_data_len p) = l \<Longrightarrow> take l (up_data p) = slice n l img
      \<Longrightarrow> legal (param_dest p) (up_comp_version_str p)
      \<Longrightarrow> \<exists>w' p' r. upd cfg w p = Some (w', p', r) \<and> param_dest p' = param_dest p
        \<and> (r = 0 \<longrightarrow> stream cfg img (n + l) w' \<and> unat (up_next_ofs p') = n + l
            \<and> unat (up_next_len p') = (if n + l < length img then piece (unat (uc_max_buff_size cfg)) (length img) (n + l) else 0))
        \<and> (works (param_dest p) (up_comp_version_str p) img \<longrightarrow> r = 0)"
begin

lemma handle_data_piece:
  assumes rd: "fw_rd_ok img rd" and st: "stream cfg img n (fu_world s)" and cfg: "fu_cfg s = cfg"
    and n: "unat ofs = n" "n < length img" "n mod unat (uc_max_buff_size cfg) = 0"
    and l: "l = piece (unat (uc_max_buff_size cfg)) (length img) n" and len: "unat len = l"
    and data: "nth0 r 0 \<in> {PLDM_SUCCESS, PLDM_FW_UPDATE_CC_DATA_OUT_OF_RANGE} \<Longrightarrow> take l (drop 1 r) = slice n l img"
    and lg: "legal (param_dest p) (c_str (fu_comp_str s))"
  shows "\<exists>s' p' failed. handle_data rd upd s p ofs len r = Some (s', p', failed)
    \<and> (if failed then fu_aux s' = STATE_AUX_FAILED
       else fu_cfg s' = cfg \<and> fu_comp_str s' = fu_comp_str s \<and> param_dest p' = param_dest p
         \<and> stream cfg img (n + l) (fu_world s') \<and> unat (up_next_ofs p') = n + l
         \<and> unat (up_next_len p') = (if n + l < length img then piece (unat (uc_max_buff_size cfg)) (length img) (n + l) else 0))
    \<and> (nth0 r 0 = PLDM_SUCCESS \<longrightarrow> works (param_dest p) (c_str (fu_comp_str s)) img \<longrightarrow> \<not> failed \<and> s' = s\<lparr>fu_world := fu_world s'\<rparr>)"
proof (cases "nth0 r 0 \<in> {PLDM_SUCCESS, PLDM_FW_UPDATE_CC_DATA_OUT_OF_RANGE}")
  case False
  then have "handle_data rd upd s p ofs len r = Some (fw_failed s, p, True)" by (auto simp: handle_data_def)
  then show ?thesis using False by auto
next
  case True
  have "uc_image_size cfg \<noteq> 0"
    using stream_sizes [OF st] unfolding fw_sizes_ok_def by (metis unat_0 less_irrefl)
  then have img0: "uc_image_size (fu_cfg s) \<noteq> 0" by (simp add: cfg)
  let ?p = "p\<lparr>up_data := drop 1 r, up_data_len := len, up_data_ofs := ofs, up_comp_version_str := c_str (fu_comp_str s)\<rparr>"
  have P: "unat (up_data_ofs ?p) = n" "unat (up_data_len ?p) = l" "take l (up_data ?p) = slice n l img"
    using n(1) len data [OF True] by simp_all
  have Q: "param_dest ?p = param_dest p" "up_comp_version_str ?p = c_str (fu_comp_str s)"
    by (simp_all add: param_dest_def)
  obtain w p1 r1 where run: "upd cfg (fu_world s) ?p = Some (w, p1, r1)"
    and res: "r1 = 0 \<longrightarrow> stream cfg img (n + l) w \<and> unat (up_next_ofs p1) = n + l
      \<and> unat (up_next_len p1) = (if n + l < length img then piece (unat (uc_max_buff_size cfg)) (length img) (n + l) else 0)"
    and d1: "param_dest p1 = param_dest p" and wk: "works (param_dest p) (c_str (fu_comp_str s)) img \<longrightarrow> r1 = 0"
    using stream_step [OF st n(2,3) P(1) l P(2,3), unfolded Q, OF lg] by blast
  have cu: "call_update upd s (p\<lparr>up_data := drop 1 r, up_data_len := len, up_data_ofs := ofs\<rparr>) = Some (s\<lparr>fu_world := w\<rparr>, p1, r1)"
    using run by (simp add: call_update_def cfg)
  show ?thesis
  proof (cases "r1 = 0")
    case ok: True
    have "handle_data rd upd s p ofs len r = Some (s\<lparr>fu_world := w\<rparr>, p1, False)"
      using True img0 cu ok by (auto simp: handle_data_def)
    then show ?thesis using ok res cfg d1 by (intro exI) (rule conjI, assumption, simp)
  next
    case bad: False
    obtain s2 c2 where rp: "report_tranfer rd (s\<lparr>fu_world := w\<rparr>) PLDM_FW_UPDATE_GENERIC_ERROR = Some (s2, c2)"
      by (rule report_returns [OF rd])
    have "handle_data rd upd s p ofs len r = Some (fw_failed s2, p1, True)"
      using True img0 cu bad rp by (auto simp: handle_data_def)
    then show ?thesis using bad wk by (intro exI) (rule conjI, assumption, simp)
  qed
qed

text \<open>The download of the rest of an image.\<close>

lemma download_image:
  assumes rd: "fw_rd_ok img rd" and "stream cfg img n (fu_world s)" and "fu_cfg s = cfg"
    and "unat ofs = n" and "n < length img" and "n mod unat (uc_max_buff_size cfg) = 0"
    and "unat len = piece (unat (uc_max_buff_size cfg)) (length img) n \<or> n = 0 \<and> unat len = unat (uc_max_buff_size cfg)"
    and "param_dest p = d" and "legal d (c_str (fu_comp_str s))" and keeps: "fw_rd_keeps (legal d) rd"
  shows "\<exists>s' p' ok. download_loop rd upd s p ofs len last_ofs retry = Some (s', p', ok)
    \<and> (if ok then stream cfg img (length img) (fu_world s') else fu_aux s' = STATE_AUX_FAILED)
    \<and> (fw_rd_honest rd \<longrightarrow> works d (c_str (fu_comp_str s)) img \<longrightarrow> fu_keep s \<longrightarrow> fu_timer s \<longrightarrow> ok \<and> s' = s\<lparr>fu_world := fu_world s'\<rparr>)"
  using assms(2-9)
proof (induction "(length img - n) * 4 + (3 - (if last_ofs \<noteq> ofs then 0 else retry))"
    arbitrary: s p ofs len n last_ofs retry rule: less_induct)
  case less
  define M where "M = unat (uc_max_buff_size cfg)"
  note P = less.prems [folded M_def]
  have sz: "fw_sizes_ok cfg (length img)" by (rule stream_sizes [OF P(1)])
  note S = size_facts [OF sz M_def]
  show ?case
  proof (cases "fu_keep s")
    case False
    then show ?thesis by (subst download_loop.simps) auto
  next
    case keep: True
    obtain l where rl: "request_length cfg ofs len = (l, l)" and l: "unat l = piece M (length img) n"
      using request_length_piece [OF sz M_def P(3-6)] by blast
    let ?n = "n + unat l"
    have lM: "unat l \<le> M" and lN: "?n \<le> length img" and l0: "0 < unat l"
      using piece_le piece_ge [OF P(4,5) S(4,7)] P(4) l by auto
    have l1: "unat (l + 1) = unat l + 1" by (subst unat_plus_no_wrap) (use lM S in simp_all)
    obtain s1 rl1 r where rd1: "rd s PLDM_FW_UPDATE_CMD_CODE_REQUEST_FIRMWARE_DATA (le32 ofs @ le32 l) (unat l + 1) = Some (s1, rl1, r)"
      and w1: "fu_world s1 = fu_world s" and c1: "fu_cfg s1 = fu_cfg s"
      and dat: "\<And>o' l'. le32 ofs @ le32 l = le32 o' @ le32 l' \<Longrightarrow> unat rl1 = unat l' + 1
          \<Longrightarrow> nth0 r 0 \<in> {PLDM_SUCCESS, PLDM_FW_UPDATE_CC_DATA_OUT_OF_RANGE} \<Longrightarrow> unat o' + unat l' \<le> length img
          \<Longrightarrow> take (unat l') (drop 1 r) = slice (unat o') (unat l') img"
      by (rule fw_rdE [OF rd, of s PLDM_FW_UPDATE_CMD_CODE_REQUEST_FIRMWARE_DATA "le32 ofs @ le32 l" "unat l + 1"])
        (erule that, assumption+, blast)
    have lg: "legal d (c_str (fu_comp_str s1))" using keeps rd1 P(8) unfolding fw_rd_keeps_def by blast
    have hon: "s1 = s \<and> unat rl1 = unat l + 1 \<and> nth0 r 0 = PLDM_SUCCESS" if "fw_rd_honest rd"
    proof -
      from that [unfolded fw_rd_honest_def, THEN spec [of _ s],
          THEN spec [of _ PLDM_FW_UPDATE_CMD_CODE_REQUEST_FIRMWARE_DATA], THEN spec [of _ "le32 ofs @ le32 l"],
          THEN spec [of _ "unat l + 1"]]
      have "\<exists>len' r'. rd s PLDM_FW_UPDATE_CMD_CODE_REQUEST_FIRMWARE_DATA (le32 ofs @ le32 l) (unat l + 1) = Some (s, len', r')
        \<and> nth0 r' 0 = PLDM_SUCCESS \<and> (unat l + 1 < 65536 \<longrightarrow> unat len' = unat l + 1)"
        by simp
      then show ?thesis using rd1 lM size_half [OF sz M_def] by simp
    qed
    define retry1 where "retry1 = (if last_ofs \<noteq> ofs then 0 else retry)"
    have eq: "download_loop rd upd s p ofs len last_ofs retry =
        (if rl1 = 0 then Some (fw_failed s1, p, False)
         else if (ucast rl1 :: u32) \<noteq> l + 1 then
           (if 3 < retry1 + 1 then Some (fw_failed s1, p, False)
            else download_loop rd upd s1 p ofs l ofs (retry1 + 1))
         else (case handle_data rd upd s1 p ofs l r of None \<Rightarrow> None
           | Some (s2, p2, failed) \<Rightarrow>
             if failed then Some (s2, p2, False)
             else if up_next_len p2 = 0 then Some (s2, p2, True)
             else download_loop rd upd (s2\<lparr>fu_timer := True\<rparr>) p2 (up_next_ofs p2) (up_next_len p2) ofs retry1))"
      unfolding retry1_def
      by (subst download_loop.simps, unfold Let_def)
        (simp add: keep P(2) rl rd1 [simplified] UPDATE_REQUEST_DATA_MAX_RETRY_COUNT_def)
    have full: "(ucast rl1 :: u32) = l + 1 \<longleftrightarrow> unat rl1 = unat l + 1"
      by (simp add: word_unat_eq_iff l1)
    show ?thesis
    proof (cases "unat rl1 = unat l + 1")
      case False
      then have nh: "\<not> fw_rd_honest rd" using hon by blast
      show ?thesis
      proof (cases "rl1 = 0 \<or> 3 < retry1 + 1")
        case True
        then show ?thesis using nh full False unfolding eq by auto
      next
        case F2: False
        have "\<exists>s' p' ok. download_loop rd upd s1 p ofs l ofs (retry1 + 1) = Some (s', p', ok)
          \<and> (if ok then stream cfg img (length img) (fu_world s') else fu_aux s' = STATE_AUX_FAILED)
          \<and> (fw_rd_honest rd \<longrightarrow> works d (c_str (fu_comp_str s1)) img \<longrightarrow> fu_keep s1 \<longrightarrow> fu_timer s1 \<longrightarrow> ok \<and> s' = s1\<lparr>fu_world := fu_world s'\<rparr>)"
        proof (rule less.hyps)
          have "(if ofs \<noteq> ofs then 0 else retry1 + 1) = retry1 + 1" by simp
          then show "(length img - n) * 4 + (3 - (if ofs \<noteq> ofs then 0 else retry1 + 1))
            < (length img - n) * 4 + (3 - (if last_ofs \<noteq> ofs then 0 else retry))"
            using F2 unfolding retry1_def by linarith
          show "unat l = piece (unat (uc_max_buff_size cfg)) (length img) n \<or> n = 0 \<and> unat l = unat (uc_max_buff_size cfg)"
            using l by (simp add: M_def)
        qed (use less.prems w1 c1 lg in simp_all)
        then show ?thesis using F2 full False nh unfolding eq by auto
      qed
    next
      case True
      have nz: "rl1 \<noteq> 0" using True by auto
      have "take (unat l) (drop 1 r) = slice n (unat l) img"
        if "nth0 r 0 \<in> {PLDM_SUCCESS, PLDM_FW_UPDATE_CC_DATA_OUT_OF_RANGE}"
        using dat [OF refl True that] lN P(3) by simp
      then obtain s2 p2 failed where hd: "handle_data rd upd s1 p ofs l r = Some (s2, p2, failed)"
        and nf: "if failed then fu_aux s2 = STATE_AUX_FAILED
          else fu_cfg s2 = cfg \<and> fu_comp_str s2 = fu_comp_str s1 \<and> param_dest p2 = d \<and> stream cfg img ?n (fu_world s2) \<and> unat (up_next_ofs p2) = ?n
            \<and> unat (up_next_len p2) = (if ?n < length img then piece M (length img) ?n else 0)"
        and wk: "nth0 r 0 = PLDM_SUCCESS \<longrightarrow> works d (c_str (fu_comp_str s1)) img \<longrightarrow> \<not> failed \<and> s2 = s1\<lparr>fu_world := fu_world s2\<rparr>"
        using handle_data_piece [OF rd _ _ P(3,4) P(5) [unfolded M_def] l [unfolded M_def] refl, of s1 r p, folded M_def]
          P(1,2,7) lg w1 c1 by auto
      show ?thesis
      proof (cases failed)
        case f: True
        have "download_loop rd upd s p ofs len last_ofs retry = Some (s2, p2, False)"
          unfolding eq using nz full True hd f by simp
        then show ?thesis using f nf wk hon by auto
      next
        case f: False
        then have K: "param_dest p2 = d" "legal d (c_str (fu_comp_str s2))" using nf lg by simp_all
        have N: "fu_cfg s2 = cfg" "stream cfg img ?n (fu_world s2)" "unat (up_next_ofs p2) = ?n"
          "unat (up_next_len p2) = (if ?n < length img then piece M (length img) ?n else 0)"
          using nf f by simp_all
        have w2: "s2 = s\<lparr>fu_world := fu_world s2\<rparr>" if "fw_rd_honest rd" "works d (c_str (fu_comp_str s)) img"
          using wk hon that by auto
        show ?thesis
        proof (cases "?n < length img")
          case last: False
          then have "?n = length img" "up_next_len p2 = 0" using N lN by (simp_all add: word_unat_eq_iff)
          then have "download_loop rd upd s p ofs len last_ofs retry = Some (s2, p2, True)"
            and "stream cfg img (length img) (fu_world s2)"
            unfolding eq using nz full True hd f N(2) by simp_all
          then show ?thesis using w2 by auto
        next
          case more: True
          have "unat l = M" using l more by (auto simp: piece_def min_def split: if_splits)
          then have mm: "?n mod M = 0" using P(5) by simp
          have "32 \<le> piece M (length img) ?n" by (rule piece_ge) (use more mm S in simp_all)
          then have nz2: "up_next_len p2 \<noteq> 0" using N(4) more by auto
          have ne: "ofs \<noteq> up_next_ofs p2" using N(3) P(3) l0 by auto
          have "\<exists>s' p' ok. download_loop rd upd (s2\<lparr>fu_timer := True\<rparr>) p2 (up_next_ofs p2) (up_next_len p2) ofs retry1 = Some (s', p', ok)
            \<and> (if ok then stream cfg img (length img) (fu_world s') else fu_aux s' = STATE_AUX_FAILED)
            \<and> (fw_rd_honest rd \<longrightarrow> works d (c_str (fu_comp_str (s2\<lparr>fu_timer := True\<rparr>))) img \<longrightarrow> fu_keep (s2\<lparr>fu_timer := True\<rparr>)
                 \<longrightarrow> fu_timer (s2\<lparr>fu_timer := True\<rparr>) \<longrightarrow> ok \<and> s' = s2\<lparr>fu_timer := True, fu_world := fu_world s'\<rparr>)"
          proof (rule less.hyps)
            show "(length img - ?n) * 4 + (3 - (if ofs \<noteq> up_next_ofs p2 then 0 else retry1))
              < (length img - n) * 4 + (3 - (if last_ofs \<noteq> ofs then 0 else retry))"
              using more l0 ne by simp
          qed (use N K more mm in \<open>simp_all add: M_def\<close>)
          then obtain s3 p3 ok where R: "download_loop rd upd (s2\<lparr>fu_timer := True\<rparr>) p2 (up_next_ofs p2) (up_next_len p2) ofs retry1 = Some (s3, p3, ok)"
            and R2: "if ok then stream cfg img (length img) (fu_world s3) else fu_aux s3 = STATE_AUX_FAILED"
            and R3: "fw_rd_honest rd \<longrightarrow> works d (c_str (fu_comp_str s2)) img \<longrightarrow> fu_keep s2 \<longrightarrow> ok \<and> s3 = s2\<lparr>fu_timer := True, fu_world := fu_world s3\<rparr>" by auto
          have "download_loop rd upd s p ofs len last_ofs retry = Some (s3, p3, ok)"
            unfolding eq using nz full True hd f nz2 R by simp
          moreover have "ok \<and> s3 = s\<lparr>fu_world := fu_world s3\<rparr>" if h: "fw_rd_honest rd" "works d (c_str (fu_comp_str s)) img" "fu_timer s"
          proof -
            have k2: "fu_keep s2" using w2 [OF h(1,2)] keep by (metis fwu.select_convs(8) fwu.surjective fwu.update_convs(13))
            have "fu_comp_str s2 = fu_comp_str s" using w2 [OF h(1,2)] by (metis fwu.select_convs(7) fwu.surjective fwu.update_convs(13))
            then have "ok" "s3 = s2\<lparr>fu_timer := True, fu_world := fu_world s3\<rparr>" using R3 h k2 by auto
            moreover have "s2\<lparr>fu_timer := True, fu_world := fu_world s3\<rparr> = s\<lparr>fu_world := fu_world s3\<rparr>"
              using h(3) by (subst w2 [OF h(1,2)]) simp
            ultimately show ?thesis by simp
          qed
          ultimately show ?thesis using R2 by blast
        qed
      qed
    qed
  qed
qed

end

text \<open>The thread with a component that has an update function, and perhaps functions before and after it.\<close>

definition dest_param :: "'w pldm_fw_update_info \<Rightarrow> u8 \<times> u8 \<Rightarrow> 'w fwu \<Rightarrow> pldm_fw_update_param" where
  "dest_param info d s = (first_param info s)\<lparr>up_bus := fst d, up_addr := snd d\<rparr>"

lemma req_fw_update_handler_dest:
  assumes "find_update_info work (fu_comp_id s) s = Some info" and "fw_dest_info info upd d"
  shows "req_fw_update_handler work rd s =
    (case download_loop rd upd (s\<lparr>fu_aux := STATE_AUX_INPROGRESS\<rparr>) (dest_param info d s) 0
        (ucast (uc_max_buff_size (fu_cfg s))) 0xFFFFFFFF 0 of
       None \<Rightarrow> None
     | Some (s, p, ok) \<Rightarrow>
       (case (if ok then complete_update rd info s else Some s) of None \<Rightarrow> None
        | Some s \<Rightarrow> Some (s\<lparr>fu_cfg := (fu_cfg s)\<lparr>uc_image_size := 0\<rparr>, fu_thread := None\<rparr>)))"
proof -
  have pre: "(case pi_pre_update_func info of None \<Rightarrow> Some (s, first_param info s, 0)
      | Some pre \<Rightarrow> call_update pre s (first_param info s)) = Some (s, dest_param info d s, 0)"
    using assms(2) by (cases "pi_pre_update_func info") (simp_all add: fw_dest_info_def dest_param_def first_param_def call_update_def)
  have pos: "finish_update info t p = Some (t\<lparr>fu_cfg := (fu_cfg t)\<lparr>uc_image_size := 0\<rparr>, fu_thread := None\<rparr>)" for t p
  proof (cases "pi_pos_update_func info")
    case (Some f)
    then have "\<forall>cfg w p. \<exists>p' r. f cfg w p = Some (w, p', r)" using assms(2) by (simp add: fw_dest_info_def)
    then obtain p' r where "f (fu_cfg t) (fu_world t) (p\<lparr>up_comp_version_str := c_str (fu_comp_str t)\<rparr>) = Some (fu_world t, p', r)" by blast
    then show ?thesis using Some by (simp add: finish_update_def call_update_def)
  qed (simp add: finish_update_def)
  have "pi_update_func info = Some upd" using assms(2) by (simp add: fw_dest_info_def)
  then show ?thesis unfolding req_fw_update_handler_def assms(1) using pre pos
    by (auto split: option.splits)
qed

lemma fw_plain_dest: "fw_plain_info info upd \<Longrightarrow> fw_dest_info info upd (0, 0)"
  by (simp add: fw_plain_info_def fw_dest_info_def)

lemma req_fw_update_handler_plain:
  assumes "find_update_info work (fu_comp_id s) s = Some info" and "fw_plain_info info upd"
  shows "req_fw_update_handler work rd s =
    (case download_loop rd upd (s\<lparr>fu_aux := STATE_AUX_INPROGRESS\<rparr>) (first_param info s) 0
        (ucast (uc_max_buff_size (fu_cfg s))) 0xFFFFFFFF 0 of
       None \<Rightarrow> None
     | Some (s, p, ok) \<Rightarrow>
       (case (if ok then complete_update rd info s else Some s) of None \<Rightarrow> None
        | Some s \<Rightarrow> Some (s\<lparr>fu_cfg := (fu_cfg s)\<lparr>uc_image_size := 0\<rparr>, fu_thread := None\<rparr>)))"
proof -
  have "dest_param info (0, 0) s = first_param info s" by (simp add: dest_param_def first_param_def)
  then show ?thesis using req_fw_update_handler_dest [OF assms(1) fw_plain_dest [OF assms(2)], of rd] by simp
qed

lemma comp_offered_verify:
  assumes "comp_offered p comp_id info s"
  shows "verify_comp (fp_work p) PLDM_COMP_DOWNSTREAM_DEVICE comp_id 0 s = COMP_RSP_CAN_UPDATE"
proof -
  have f: "find (\<lambda>c. pi_comp_identifier c = fp_work p comp_id) (fu_config s) = Some info"
    using assms by (simp add: comp_offered_def)
  then have "info \<in> set (fu_config s)" "pi_comp_identifier info = fp_work p comp_id"
    unfolding find_Some_iff by auto
  then show ?thesis using assms by (auto simp: comp_offered_def verify_comp_def)
qed

lemma find_pred_strong: "find P xs = Some x \<Longrightarrow> Q x \<Longrightarrow> find (\<lambda>y. P y \<and> Q y) xs = Some x"
  by (induction xs) (auto split: if_splits)

lemma comp_offered_find:
  assumes "comp_offered p comp_id info s" and "fu_config s' = fu_config s"
  shows "find_update_info (fp_work p) comp_id s' = Some info"
  unfolding find_update_info_def assms(2)
  by (rule find_pred_strong) (use assms(1) in \<open>simp_all add: comp_offered_def\<close>)

lemma request_update_msg_fields:
  "length (request_update_msg t) = 11" "nth0 (request_update_msg t) 10 = 0" "get32 (request_update_msg t) 0 = t"
  "get16 (request_update_msg t) 4 = 1" "get16 (request_update_msg t) 7 = 0"
proof -
  show "get16 (request_update_msg t) 4 = 1"
    using get16_shift [of "le32 t" _ 0] by (simp add: request_update_msg_def)
  show "get16 (request_update_msg t) 7 = 0"
    using get16_shift [of "le32 t @ le16 1 @ [1]" _ 0] by (simp add: request_update_msg_def)
  show "nth0 (request_update_msg t) 10 = 0" by (simp add: request_update_msg_def nth0_def le16_def le32_def)
qed (simp_all add: request_update_msg_def)

lemma pass_component_table_msg_fields:
  "length (pass_component_table_msg c) = 12" "nth0 (pass_component_table_msg c) 0 = PLDM_START_AND_END"
  "nth0 (pass_component_table_msg c) 5 = 0" "nth0 (pass_component_table_msg c) 11 = 0"
  "get16 (pass_component_table_msg c) (Suc 0) = PLDM_COMP_DOWNSTREAM_DEVICE" "get16 (pass_component_table_msg c) 3 = c"
proof -
  show "get16 (pass_component_table_msg c) (Suc 0) = PLDM_COMP_DOWNSTREAM_DEVICE"
    using get16_shift [of "[PLDM_START_AND_END]" _ 0] by (simp add: pass_component_table_msg_def)
  show "get16 (pass_component_table_msg c) 3 = c"
    using get16_shift [of "[PLDM_START_AND_END] @ le16 PLDM_COMP_DOWNSTREAM_DEVICE" _ 0]
    by (simp add: pass_component_table_msg_def)
  show "nth0 (pass_component_table_msg c) 5 = 0" by (simp add: pass_component_table_msg_def nth0_def le16_def le32_def)
  show "nth0 (pass_component_table_msg c) 11 = 0" by (simp add: pass_component_table_msg_def nth0_def le16_def le32_def)
qed (simp_all add: pass_component_table_msg_def)

lemma update_component_msg_fields:
  "length (update_component_msg c ver n) = 19 + length ver" "nth0 (update_component_msg c ver n) 4 = 0"
  "nth0 (update_component_msg c ver n) 18 = of_nat (length ver)"
  "get16 (update_component_msg c ver n) 0 = PLDM_COMP_DOWNSTREAM_DEVICE" "get16 (update_component_msg c ver n) 2 = c"
  "get32 (update_component_msg c ver n) 9 = n" "drop 19 (update_component_msg c ver n) = ver"
proof -
  show "get16 (update_component_msg c ver n) 2 = c"
    using get16_shift [of "le16 PLDM_COMP_DOWNSTREAM_DEVICE" _ 0] by (simp add: update_component_msg_def)
  show "get32 (update_component_msg c ver n) 9 = n"
    using get32_shift [of "le16 PLDM_COMP_DOWNSTREAM_DEVICE @ le16 c @ [0] @ le32 0" _ 0]
    by (simp add: update_component_msg_def)
  show "nth0 (update_component_msg c ver n) 4 = 0" by (simp add: update_component_msg_def nth0_def le16_def le32_def)
  show "nth0 (update_component_msg c ver n) 18 = of_nat (length ver)" by (simp add: update_component_msg_def nth0_def le16_def le32_def)
qed (simp_all add: update_component_msg_def)

lemma update_component_msg_len:
  assumes "ver_ok ver"
  shows "(of_nat (length (update_component_msg c ver n)) :: u16) = 19 + ucast (of_nat (length ver) :: u8)"
    and "unat (of_nat (length ver) :: u8) = length ver"
proof -
  have l: "length ver < 100" using assms by (simp add: ver_ok_def COMP_STR_SIZE_def)
  then show u: "unat (of_nat (length ver) :: u8) = length ver" by (subst unat_of_nat_lt) simp_all
  have a: "unat (of_nat (19 + length ver) :: u16) = 19 + length ver" by (rule unat_of_nat_lt) (use l in simp)
  have b: "unat (ucast (of_nat (length ver) :: u8) :: u16) = length ver" using u by (simp add: unsigned_ucast_eq take_bit_nat_eq_self l)
  have "unat (19 + ucast (of_nat (length ver) :: u8) :: u16) = 19 + length ver"
    by (subst unat_plus_no_wrap) (use l b in simp_all)
  then show "(of_nat (length (update_component_msg c ver n)) :: u16) = 19 + ucast (of_nat (length ver) :: u8)"
    using a unfolding update_component_msg_fields(1) word_unat_eq_iff by simp
qed

lemma c_str_ver:
  assumes "ver_ok ver" and "length str = COMP_STR_SIZE"
  shows "c_str (take COMP_STR_SIZE (memcpy_at 0 (ver @ [0]) str)) = ver"
proof -
  have l: "length ver < COMP_STR_SIZE" and z: "\<forall>b \<in> set ver. b \<noteq> 0" using assms(1) by (auto simp: ver_ok_def)
  have "take COMP_STR_SIZE (memcpy_at 0 (ver @ [0]) str) = ver @ 0 # drop (length ver + 1) str"
    using l assms(2) by (simp add: memcpy_at_def)
  then show ?thesis using z by (simp add: c_str_def takeWhile_tail)
qed

lemma fw_query_update:
  "pldm_fw_update_handler_query p inst PLDM_FW_UPDATE_CMD_CODE_REQUEST_UPDATE = Some request_update"
  "pldm_fw_update_handler_query p inst PLDM_FW_UPDATE_CMD_CODE_PASS_COMPONENT_TABLE = Some (pass_component_table (fp_work p) (fp_check p))"
  "pldm_fw_update_handler_query p inst PLDM_FW_UPDATE_CMD_CODE_UPDATE_COMPONENT = Some (update_component (fp_work p) (fp_heap p) inst)"
  by (simp_all add: pldm_fw_update_handler_query_def pldm_fw_update_cmd_tbl_def fw_cmds)

lemma update_dialogue_run:
  fixes inst :: nat and ext :: mctp_ext_params and t n :: u32 and ver :: bytes
  assumes "fw_inv (fp_work p) s" and "fu_state s = STATE_IDLE" and "comp_offered p comp_id info s" and "ver_ok ver"
  defines "s' \<equiv> fw_run p inst (update_dialogue ext t comp_id ver n) s"
  shows "fu_state s' = STATE_DOWNLOAD \<and> fu_keep s' \<and> fu_timer s' \<and> fu_thread s' = Some (inst, ext)
    \<and> fu_comp_id s' = comp_id \<and> fu_config s' = fu_config s \<and> fu_world s' = fu_world s
    \<and> fu_cfg s' = \<lparr>uc_image_size = n, uc_max_buff_size = min 256 (ucast t)\<rparr> \<and> c_str (fu_comp_str s') = ver"
proof -
  have z: "fu_comp_cnt s = 0" "fu_rcv_cnt s = 0" using assms(1,2) by (simp_all add: fw_inv_def)
  have V: "verify_comp (fp_work p) PLDM_COMP_DOWNSTREAM_DEVICE comp_id 0 x = COMP_RSP_CAN_UPDATE" if "fu_config x = fu_config s" for x :: "'a fwu"
    by (rule comp_offered_verify [where info = info]) (use assms(3) that in \<open>simp add: comp_offered_def\<close>)
  define s1 where "s1 = fst (request_update s (request_update_msg t) 11 0 ext)"
  have s1: "fu_state s1 = STATE_LEARN_COMP" "fu_keep s1" "fu_comp_cnt s1 = 1" "fu_rcv_cnt s1 = 0"
    "fu_config s1 = fu_config s" "fu_world s1 = fu_world s" "fu_comp_str s1 = fu_comp_str s" "uc_max_buff_size (fu_cfg s1) = min 256 (ucast t)"
    by (auto simp: s1_def request_update_def request_update_msg_fields assms(2) z Let_def
        MAX_FWUPDATE_RSP_BUF_SIZE_def min_def)
  define s2 where "s2 = fst (pass_component_table (fp_work p) (fp_check p) s1 (pass_component_table_msg comp_id) 12 0 ext)"
  have chk: "fp_check p comp_id (slice 12 0 (pass_component_table_msg comp_id)) = PLDM_SUCCESS"
    "\<not> comp_refused PLDM_COMP_DOWNSTREAM_DEVICE comp_id 0"
    using assms(3) by (auto simp: comp_offered_def slice_def comp_refused_def)
  have s2: "fu_state s2 = STATE_RDY_XFER" "fu_keep s2" "fu_config s2 = fu_config s" "fu_world s2 = fu_world s"
    "fu_cfg s2 = fu_cfg s1" "fu_comp_str s2 = fu_comp_str s"
    by (simp_all add: s2_def pass_component_table_def pass_component_table_msg_fields s1 chk Let_def)
  let ?m = "update_component_msg comp_id ver n"
  have "fst (update_component (fp_work p) (fp_heap p) inst s2 ?m (of_nat (length ?m)) 0 ext) = s'"
    unfolding s'_def fw_run_def update_dialogue_def s2_def s1_def
    by (simp add: fw_query_update request_update_msg_fields pass_component_table_msg_fields)
  note eq = update_component_eq [of "of_nat (length ?m)" ?m s2 "fp_work p" "fp_heap p" inst 0 ext, unfolded this]
  have len: "(of_nat (length ?m) :: u16) = 19 + ucast (nth0 ?m 18)" and u: "unat (nth0 ?m 18) = length ver"
    using update_component_msg_len [OF assms(4)] by (simp_all add: update_component_msg_fields)
  have x: "take (unat (nth0 ?m 18)) (drop 19 ?m @ zeros (unat (nth0 ?m 18))) @ [0] = ver @ [0]"
    using u by (simp add: update_component_msg_fields)
  note eq = eq [OF len s2(1), unfolded x]
  have cl: "length (fu_comp_str s) = COMP_STR_SIZE" using assms(1) by (simp add: fw_inv_def)
  have s': "s' = state_update STATE_DOWNLOAD (s2\<lparr>fu_cfg := (fu_cfg s2)\<lparr>uc_image_size := n\<rparr>, fu_comp_id := comp_id,
      fu_comp_str := take COMP_STR_SIZE (memcpy_at 0 (ver @ [0]) (fu_comp_str s2)),
      fu_overrun := (fu_overrun s2 \<or> COMP_STR_SIZE < unat (nth0 ?m 18) + 1), fu_thread := Some (inst, ext)\<rparr>)"
    using eq assms(3) chk(2) V [OF s2(3)] by (simp add: update_component_msg_fields COMP_RSP_CAN_UPDATE_def comp_offered_def)
  show ?thesis unfolding s' using s2 s1 c_str_ver [OF assms(4) cl] by simp
qed

text \<open>The thread of a component whose update function keeps the contract, and the whole update.\<close>

context image_update
begin

lemma req_fw_update_handler_image:
  assumes rd: "fw_rd_ok img rd" and st: "stream (fu_cfg s) img 0 (fu_world s)"
    and info: "find_update_info work (fu_comp_id s) s = Some info" and pl: "fw_dest_info info upd d"
    and lg: "legal d (c_str (fu_comp_str s))" and keeps: "fw_rd_keeps (legal d) rd"
  shows "\<exists>s'. req_fw_update_handler work rd s = Some s' \<and> fu_thread s' = None
    \<and> (fu_aux s' \<noteq> STATE_AUX_FAILED \<longrightarrow> stream (fu_cfg s) img (length img) (fu_world s'))
    \<and> (fw_rd_honest rd \<longrightarrow> works d (c_str (fu_comp_str s)) img \<longrightarrow> fu_keep s \<longrightarrow> fu_timer s
         \<longrightarrow> fu_state s' = STATE_RDY_XFER \<and> fu_aux s' = STATE_AUX_SUCCESS)"
proof -
  let ?s = "s\<lparr>fu_aux := STATE_AUX_INPROGRESS\<rparr>" and ?len = "ucast (uc_max_buff_size (fu_cfg s)) :: u32"
  note S = size_facts [OF stream_sizes [OF st] refl]
  have st': "stream (fu_cfg s) img 0 (fu_world ?s)" using st by simp
  have dp: "param_dest (dest_param info d s) = d" by (simp add: param_dest_def dest_param_def)
  obtain s1 p1 ok where dl: "download_loop rd upd ?s (dest_param info d s) 0 ?len 0xFFFFFFFF 0 = Some (s1, p1, ok)"
    and m: "if ok then stream (fu_cfg s) img (length img) (fu_world s1) else fu_aux s1 = STATE_AUX_FAILED"
    and hon: "fw_rd_honest rd \<longrightarrow> works d (c_str (fu_comp_str s)) img \<longrightarrow> fu_keep ?s \<longrightarrow> fu_timer ?s \<longrightarrow> ok"
    using download_image [OF rd st', of 0 ?len "dest_param info d s" d "0xFFFFFFFF" 0] S(2,9) dp lg keeps by auto
  have ap: "pi_self_apply_work_func info = None" using pl by (simp add: fw_dest_info_def)
  note H = req_fw_update_handler_dest [OF info pl, of rd]
  show ?thesis
  proof (cases ok)
    case False
    then show ?thesis unfolding H dl using m hon by simp
  next
    case True
    obtain s2 where c: "complete_update rd info s1 = Some s2" "fu_world s2 = fu_world s1"
      by (rule complete_update_returns [OF rd ap])
    have "fu_state s2 = STATE_RDY_XFER \<and> fu_aux s2 = STATE_AUX_SUCCESS" if "fw_rd_honest rd"
      using complete_update_honest [OF that ap, of s1] c by auto
    then show ?thesis unfolding H dl using m True c by simp
  qed
qed

lemma update_session:
  fixes transfer_size :: u32 and img :: bytes
  defines "cfg \<equiv> \<lparr>uc_image_size = of_nat (length img), uc_max_buff_size = min 256 (ucast transfer_size)\<rparr>"
  assumes "fw_inv (fp_work p) s" and "fu_state s = STATE_IDLE" and "comp_offered p comp_id info s" and "ver_ok ver"
    and "fw_dest_info info upd d" and "fw_rd_ok img rd" and "stream cfg img 0 (fu_world s)"
    and "legal d ver" and "fw_rd_keeps (legal d) rd"
  shows "\<exists>s'. req_fw_update_handler (fp_work p) rd
        (fw_run p inst (update_dialogue ext transfer_size comp_id ver (of_nat (length img))) s) = Some s'
    \<and> fu_thread s' = None
    \<and> (fu_aux s' \<noteq> STATE_AUX_FAILED \<longrightarrow> stream cfg img (length img) (fu_world s'))
    \<and> (fw_rd_honest rd \<longrightarrow> works d ver img \<longrightarrow> fu_state s' = STATE_RDY_XFER \<and> fu_aux s' = STATE_AUX_SUCCESS)"
proof -
  let ?s = "fw_run p inst (update_dialogue ext transfer_size comp_id ver (of_nat (length img))) s"
  note R = update_dialogue_run [OF assms(2-5), of inst ext transfer_size "of_nat (length img)"]
  have f: "find_update_info (fp_work p) (fu_comp_id ?s) ?s = Some info"
    using comp_offered_find [OF assms(4), of ?s] R by simp
  have c: "fu_cfg ?s = cfg" using R by (simp add: cfg_def)
  have st: "stream (fu_cfg ?s) img 0 (fu_world ?s)" using R assms(8) c by simp
  have lg: "legal d (c_str (fu_comp_str ?s))" using R assms(9) by simp
  show ?thesis using req_fw_update_handler_image [OF assms(7) st f assms(6) lg assms(10)] R c by auto
qed

end

lemma get32_le32_second: "get32 (le32 a @ le32 b) 4 = b"
  using get32_shift [of "le32 a" "le32 b" 0] get32_le32 [of b "[]"] by simp

lemma serve_image_ok: "fw_rd_ok img (serve_image img)"
  by (auto simp: fw_rd_ok_def serve_image_def get32_le32_second slice_def)

lemma serve_image_honest: "fw_rd_honest (serve_image img)"
proof -
  have "\<exists>len r. serve_image img s cmd req n = Some (s, len, r) \<and> nth0 r 0 = PLDM_SUCCESS
     \<and> (cmd = PLDM_FW_UPDATE_CMD_CODE_REQUEST_FIRMWARE_DATA \<longrightarrow> n < 65536 \<longrightarrow> unat len = n)
     \<and> (cmd \<noteq> PLDM_FW_UPDATE_CMD_CODE_REQUEST_FIRMWARE_DATA \<longrightarrow> len = 1)" for s :: "'b fwu" and cmd req n
  proof (cases "cmd = PLDM_FW_UPDATE_CMD_CODE_REQUEST_FIRMWARE_DATA")
    case True
    have "unat (of_nat n :: u16) = n" if "n < 65536" by (rule unat_of_nat_lt) (use that in simp)
    then show ?thesis using True by (simp add: serve_image_def PLDM_SUCCESS_def)
  next
    case False
    then show ?thesis by (simp add: serve_image_def PLDM_SUCCESS_def)
  qed
  then show ?thesis unfolding fw_rd_honest_def by blast
qed

lemma request_length_baseline:
  assumes "unat ofs < unat (uc_image_size cfg)" and "unat (uc_image_size cfg) < 2147483648" and "unat len \<le> 32"
  shows "request_length cfg ofs len = (32, len)"
proof -
  have "unat (ofs + len) = unat ofs + unat len" by (subst unat_plus_no_wrap) (use assms in simp_all)
  moreover have "unat (uc_image_size cfg + 32) = unat (uc_image_size cfg) + 32"
    by (subst unat_plus_no_wrap) (use assms in simp_all)
  ultimately have "\<not> uc_image_size cfg + 32 < ofs + len" using assms by (simp add: word_less_nat_alt)
  then show ?thesis using assms(3)
    by (simp add: request_length_def MIN_FW_UPDATE_BASELINE_TRANS_SIZE_def Let_def word_le_nat_alt)
qed

text \<open>One turn of the download loop whose answer has the expected length, and one whose answer has not.\<close>

lemma download_loop_full:
  assumes "fu_keep s" and "request_length (fu_cfg s) ofs len = (l, e)"
    and "rd s PLDM_FW_UPDATE_CMD_CODE_REQUEST_FIRMWARE_DATA (le32 ofs @ le32 l) (unat l + 1) = Some (s', k, r)"
    and "k \<noteq> 0" and "ucast k = l + 1"
  shows "download_loop rd upd s p ofs len last_ofs retry =
    (case handle_data rd upd s' p ofs e r of None \<Rightarrow> None
     | Some (s, p, failed) \<Rightarrow>
       if failed then Some (s, p, False)
       else if up_next_len p = 0 then Some (s, p, True)
       else download_loop rd upd (s\<lparr>fu_timer := True\<rparr>) p (up_next_ofs p) (up_next_len p) ofs
              (if last_ofs \<noteq> ofs then 0 else retry))"
  by (subst download_loop.simps) (simp add: assms(1,2,4,5) assms(3) [simplified] Let_def)

lemma download_loop_short:
  assumes "fu_keep s" and "request_length (fu_cfg s) ofs len = (l, e)"
    and "rd s PLDM_FW_UPDATE_CMD_CODE_REQUEST_FIRMWARE_DATA (le32 ofs @ le32 l) (unat l + 1) = Some (s', k, r)"
    and "k \<noteq> 0" and "ucast k \<noteq> l + 1" and "last_ofs \<noteq> ofs"
  shows "download_loop rd upd s p ofs len last_ofs retry = download_loop rd upd s' p ofs l ofs 1"
  by (subst download_loop.simps)
    (simp add: assms(1,2,4-6) assms(3) [simplified] Let_def UPDATE_REQUEST_DATA_MAX_RETRY_COUNT_def)

text \<open>
  (C34) A cancellation that arrives while the thread waits for the last piece is overtaken: the thread takes the piece, does
  not report the end of the transfer, because in the idle state it reports nothing, and then sets the state to
  verification, application and ready for the transfer as if nothing had been cancelled.
\<close>

theorem cancel_overtaken:
  assumes "fu_keep s" and "fu_state s = STATE_DOWNLOAD" and "request_length (fu_cfg s) ofs len = (l, e)"
    and "rd s PLDM_FW_UPDATE_CMD_CODE_REQUEST_FIRMWARE_DATA (le32 ofs @ le32 l) (unat l + 1)
      = Some (fst (cancel_update s [] 0 i ext), k, r)"
    and "k \<noteq> 0" and "ucast k = l + 1" and "nth0 r 0 = PLDM_SUCCESS" and "uc_image_size (fu_cfg s) \<noteq> 0"
    and "call_update upd (pldm_status_reset s) (p\<lparr>up_data := drop 1 r, up_data_len := e, up_data_ofs := ofs\<rparr>) = Some (s1, q, 0)"
    and "up_next_len q = 0" and "fw_rd_acks rd" and "pi_self_apply_work_func info = None"
  shows "download_loop rd upd s p ofs len last_ofs retry = Some (s1, q, True)
    \<and> fu_state s1 = STATE_IDLE \<and> \<not> fu_keep s1
    \<and> (\<forall>c. report_request (fu_state s1) c = None)
    \<and> (\<exists>s2. complete_update rd info s1 = Some s2 \<and> fu_state s2 = STATE_RDY_XFER \<and> fu_aux s2 = STATE_AUX_SUCCESS)"
proof -
  have c: "fst (cancel_update s [] 0 i ext) = pldm_status_reset s"
    using assms(2) by (simp add: cancel_update_def)
  have "handle_data rd upd (pldm_status_reset s) p ofs e r = Some (s1, q, False)"
    using assms(7-9) by (simp add: handle_data_def)
  then have "download_loop rd upd s p ofs len last_ofs retry = Some (s1, q, True)"
    using download_loop_full [where upd = upd and rd = rd and s = s and ofs = ofs, OF assms(1,3,4,5,6), of p last_ofs retry] assms(10) by (simp add: c)
  moreover have "fu_state s1 = STATE_IDLE" "\<not> fu_keep s1"
    using assms(9) by (auto simp: call_update_def split: option.splits)
  ultimately show ?thesis by (simp add: report_request_def complete_update_acks [OF assms(11,12)])
qed

theorem cancel_overtaken_witness:
  "\<exists>s1 q s2. download_loop (cancelling_agent (replicate 32 7)) (\<lambda>cfg w p. Some (p # w, p, 0)) cancel_demo
      (first_param (fw_demo_info None) cancel_demo) 0 32 0xFFFFFFFF 0 = Some (s1, q, True)
    \<and> fu_state s1 = STATE_IDLE
    \<and> complete_update (cancelling_agent (replicate 32 7)) (fw_demo_info None) s1 = Some s2 \<and> fu_state s2 = STATE_RDY_XFER"
proof -
  let ?rd = "cancelling_agent (replicate 32 7)" and ?upd = "\<lambda>cfg w p. Some (p # w, p, 0)"
  let ?p = "first_param (fw_demo_info None) cancel_demo"
  let ?r = "0 # slice (unat (get32 (le32 0 @ le32 32) 0)) (unat (get32 (le32 0 @ le32 32) 4)) (replicate 32 7)"
  let ?p1 = "?p\<lparr>up_data := drop 1 ?r, up_data_len := 32, up_data_ofs := 0\<rparr>"
  let ?q = "?p1\<lparr>up_comp_version_str := c_str (fu_comp_str (pldm_status_reset cancel_demo))\<rparr>"
  have e1: "fu_keep cancel_demo" "fu_state cancel_demo = STATE_DOWNLOAD" "uc_image_size (fu_cfg cancel_demo) \<noteq> 0" by (simp_all add: cancel_demo_def)
  have e2: "request_length (fu_cfg cancel_demo) 0 32 = (32, 32)"
    by (rule request_length_baseline) (simp_all add: cancel_demo_def)
  have e3: "?rd cancel_demo PLDM_FW_UPDATE_CMD_CODE_REQUEST_FIRMWARE_DATA (le32 0 @ le32 32) (unat (32 :: u32) + 1)
      = Some (fst (cancel_update cancel_demo [] 0 0 demo_pldm_ext), 33, ?r)"
    by (simp add: cancelling_agent_def)
  have e4: "(33 :: u16) \<noteq> 0" "(ucast (33 :: u16) :: u32) = 32 + 1" "nth0 ?r 0 = PLDM_SUCCESS" by (simp_all add: PLDM_SUCCESS_def)
  have e5: "call_update ?upd (pldm_status_reset cancel_demo) ?p1 = Some ((pldm_status_reset cancel_demo)\<lparr>fu_world := ?q # fu_world cancel_demo\<rparr>, ?q, 0)"
    by (simp add: call_update_def)
  have e6: "up_next_len ?q = 0" by (simp add: first_param_def)
  have e7: "fw_rd_acks ?rd" by (simp add: fw_rd_acks_def cancelling_agent_def PLDM_SUCCESS_def)
  have e8: "pi_self_apply_work_func (fw_demo_info None) = None" by (simp add: fw_demo_info_def)
  from cancel_overtaken [where rd = ?rd and s = cancel_demo and ofs = 0 and last_ofs = "0xFFFFFFFF" and retry = 0, OF e1(1,2) e2 e3 e4 e1(3) e5 e6 e7 e8]
  show ?thesis by blast
qed

end
