(* ===== verification/Spi_Flash.thy ===== *)
theory Spi_Flash
  imports Prelude
begin

text \<open>
  Writing images into an SPI flash (\<^verbatim>\<open>common/lib/util_spi.c\<close>): \<^verbatim>\<open>do_update\<close>, which rewrites the
  sectors a byte range touches, and \<^verbatim>\<open>fw_update\<close>, which collects the packets of an image into a
  64 KiB buffer and hands every full buffer to it.

  The flash driver of the RTOS is an argument: a record of its functions over a device state of
  any type. A function returns the new device state and the driver's return code; \<^verbatim>\<open>None\<close> is the
  result of a call that accesses memory outside of a buffer, divides by zero or does not return.
\<close>

section \<open>Constants\<close>

definition SECTOR_SZ_64K :: u32 where "SECTOR_SZ_64K = 0x10000"
definition SECTOR_END_FLAG :: u8 where "SECTOR_END_FLAG = 0x80"
definition FORCE_INIT_FLAG :: u8 where "FORCE_INIT_FLAG = 0x02"
definition NO_RESET_FLAG :: u8 where "NO_RESET_FLAG = 0x01"
definition DEVSPI_FMC_CS0 :: u8 where "DEVSPI_FMC_CS0 = 0"
definition IS25WP256D_ID :: u32 where "IS25WP256D_ID = 0x9D7019"
definition FWUPDATE_SUCCESS :: u8 where "FWUPDATE_SUCCESS = 0"
definition FWUPDATE_OUT_OF_HEAP :: u8 where "FWUPDATE_OUT_OF_HEAP = 1"
definition FWUPDATE_OVER_LENGTH :: u8 where "FWUPDATE_OVER_LENGTH = 2"
definition FWUPDATE_REPEATED_UPDATED :: u8 where "FWUPDATE_REPEATED_UPDATED = 3"
definition CC_UNSPECIFIED_ERROR :: u8 where "CC_UNSPECIFIED_ERROR = 0xFF"
definition EINVAL :: int where "EINVAL = 22"
definition EIO :: int where "EIO = 5"
definition ENODEV :: int where "ENODEV = 19"
definition BIOS_MAX_SIZE_BYTES :: u32 where "BIOS_MAX_SIZE_BYTES = 0x4000000"

lemmas spi_consts = SECTOR_SZ_64K_def SECTOR_END_FLAG_def FORCE_INIT_FLAG_def NO_RESET_FLAG_def
  DEVSPI_FMC_CS0_def FWUPDATE_SUCCESS_def FWUPDATE_OUT_OF_HEAP_def FWUPDATE_OVER_LENGTH_def
  FWUPDATE_REPEATED_UPDATED_def CC_UNSPECIFIED_ERROR_def

section \<open>The driver\<close>

record 'd flash_driver =
  fd_size :: u32
  fd_block :: u32
  fd_read :: "'d \<Rightarrow> u32 \<Rightarrow> u32 \<Rightarrow> 'd \<times> int \<times> bytes"
  fd_erase :: "'d \<Rightarrow> u32 \<Rightarrow> u32 \<Rightarrow> 'd \<times> int"
  fd_write :: "'d \<Rightarrow> u32 \<Rightarrow> bytes \<Rightarrow> 'd \<times> int"
  fd_re_init :: "'d \<Rightarrow> 'd \<times> int"
  fd_jedec_id :: "'d \<Rightarrow> 'd \<times> bytes"
  fd_4byte_mode :: "'d \<Rightarrow> 'd"

section \<open>Rewriting the sectors of a byte range\<close>

definition do_erase_write_verify ::
  "'d flash_driver \<Rightarrow> 'd \<Rightarrow> u32 \<Rightarrow> bytes \<Rightarrow> u32 \<Rightarrow> 'd \<times> int" where
  "do_erase_write_verify drv d op_addr write_buf erase_sz =
    (case fd_erase drv d op_addr erase_sz of (d, ret) \<Rightarrow>
     if ret \<noteq> 0 then (d, ret)
     else (case fd_write drv d op_addr write_buf of (d, ret) \<Rightarrow>
     if ret \<noteq> 0 then (d, ret)
     else (case fd_read drv d op_addr erase_sz of (d, ret, read_back_buf) \<Rightarrow>
     if ret \<noteq> 0 then (d, ret)
     else if write_buf \<noteq> read_back_buf then (d, - EINVAL) else (d, 0))))"

text \<open>
  The part of the range in front of the first sector boundary, if the range does not start at one.
  The results are the device, the return code, and the new \<^verbatim>\<open>op_addr\<close> and \<^verbatim>\<open>update_ptr\<close>, the latter
  as an index into the buffer.
\<close>

definition update_start ::
  "'d flash_driver \<Rightarrow> 'd \<Rightarrow> u32 \<Rightarrow> bytes \<Rightarrow> u32 \<Rightarrow> ('d \<times> int \<times> u32 \<times> nat) option" where
  "update_start drv d flash_offset buf len =
    (let sector_sz = fd_block drv;
         op_addr = flash_offset div sector_sz * sector_sz;
         ofs = flash_offset mod sector_sz in
     if ofs \<noteq> 0 then
       (case fd_read drv d op_addr sector_sz of (d, ret, op_buf) \<Rightarrow>
        if ret \<noteq> 0 then Some (d, ret, op_addr, 0)
        else
          let remain = unat (min (sector_sz - ofs) len) in
          if length buf < remain \<or> length op_buf < unat ofs + remain then None
          else
            (case do_erase_write_verify drv d op_addr
                    (memcpy_at (unat ofs) (take remain buf) op_buf) sector_sz of (d, ret) \<Rightarrow>
             if ret \<noteq> 0 then Some (d, ret, op_addr, 0)
             else Some (d, 0, op_addr + sector_sz, remain)))
     else Some (d, 0, op_addr, 0))"

text \<open>The loop over whole sectors; \<^verbatim>\<open>upd\<close> is the local \<^verbatim>\<open>update_it\<close>, which is never cleared.\<close>

partial_function (option) update_body ::
  "'d flash_driver \<Rightarrow> u32 \<Rightarrow> bytes \<Rightarrow> 'd \<Rightarrow> u32 \<Rightarrow> nat \<Rightarrow> bool \<Rightarrow> ('d \<times> int \<times> u32 \<times> nat) option" where
  "update_body drv end_sector_addr buf d op_addr ptr upd =
    (if op_addr < end_sector_addr then
       (case fd_read drv d op_addr (fd_block drv) of (d, ret, op_buf) \<Rightarrow>
        if ret \<noteq> 0 then Some (d, ret, op_addr, ptr)
        else if length buf < ptr + unat (fd_block drv) then None
        else
          let data = slice ptr (unat (fd_block drv)) buf;
              upd = (upd \<or> op_buf \<noteq> data) in
          (case (if upd then do_erase_write_verify drv d op_addr data (fd_block drv) else (d, 0)) of
             (d, ret) \<Rightarrow>
           if ret \<noteq> 0 then Some (d, ret, op_addr, ptr)
           else update_body drv end_sector_addr buf d (op_addr + fd_block drv)
                  (ptr + unat (fd_block drv)) upd))
     else Some (d, 0, op_addr, ptr))"

definition update_remain ::
  "'d flash_driver \<Rightarrow> 'd \<Rightarrow> bytes \<Rightarrow> u32 \<Rightarrow> nat \<Rightarrow> u32 \<Rightarrow> ('d \<times> int) option" where
  "update_remain drv d buf op_addr ptr remain =
    (case fd_read drv d op_addr (fd_block drv) of (d, ret, op_buf) \<Rightarrow>
     if ret \<noteq> 0 then Some (d, ret)
     else if length buf < ptr + unat remain \<or> length op_buf < unat remain then None
     else Some (do_erase_write_verify drv d op_addr (memcpy_at 0 (slice ptr (unat remain) buf) op_buf)
                  (fd_block drv)))"

text \<open>The whole sectors and the remaining part up to the address \<^verbatim>\<open>flash_offset + len\<close>.\<close>

definition update_rest ::
  "'d flash_driver \<Rightarrow> u32 \<Rightarrow> bytes \<Rightarrow> 'd \<Rightarrow> u32 \<Rightarrow> nat \<Rightarrow> ('d \<times> int) option" where
  "update_rest drv end_addr buf d op_addr ptr =
    (let end_sector_addr = end_addr div fd_block drv * fd_block drv in
     case update_body drv end_sector_addr buf d op_addr ptr False of None \<Rightarrow> None
     | Some (d, ret, op_addr, ptr) \<Rightarrow>
       if ret \<noteq> 0 then Some (d, ret)
       else if end_sector_addr < end_addr
       then update_remain drv d buf op_addr ptr (end_addr - end_sector_addr)
       else Some (d, 0))"

text \<open>\<^verbatim>\<open>heap\<close> says whether the two sector buffers can be allocated.\<close>

definition do_update ::
  "'d flash_driver \<Rightarrow> bool \<Rightarrow> 'd \<Rightarrow> u32 \<Rightarrow> bytes \<Rightarrow> u32 \<Rightarrow> ('d \<times> int) option" where
  "do_update drv heap d flash_offset buf len =
    (if fd_size drv < flash_offset + len then Some (d, - EINVAL)
     else if \<not> heap then Some (d, - EINVAL)
     else if fd_block drv = 0 then None
     else (case update_start drv d flash_offset buf len of None \<Rightarrow> None
     | Some (d, ret, op_addr, ptr) \<Rightarrow>
       if ret \<noteq> 0 then Some (d, ret)
       else update_rest drv (flash_offset + len) buf d op_addr ptr))"

section \<open>Collecting the packets of an image\<close>

text \<open>
  The static variables of \<^verbatim>\<open>fw_update\<close>, the file's retry count and its table of devices, and the
  device state the driver functions work on. \<^verbatim>\<open>su_resets\<close> counts the calls of
  \<^verbatim>\<open>submit_bic_warm_reset\<close>.
\<close>

record 'd spi_upd =
  su_is_init :: bool
  su_txbuf :: "bytes option"
  su_start_offset :: u32
  su_buf_offset :: u32
  su_retry :: int
  su_default_retry :: int
  su_isinit :: "bool list"
  su_dev :: 'd
  su_resets :: nat

definition ckeck_flash_device_isinit ::
  "'d flash_driver \<Rightarrow> u8 \<Rightarrow> 'd spi_upd \<Rightarrow> 'd spi_upd \<times> int" where
  "ckeck_flash_device_isinit drv pos s =
    (if \<not> su_isinit s ! unat pos then
       (case fd_re_init drv (su_dev s) of (d, rc) \<Rightarrow>
        if rc = 0 then (s\<lparr>su_dev := d, su_isinit := (su_isinit s)[unat pos := True]\<rparr>, 0)
        else (s\<lparr>su_dev := d\<rparr>, rc))
     else (s, 0))"

definition set_default_retry_count :: "int \<Rightarrow> 'd spi_upd \<Rightarrow> 'd spi_upd" where
  "set_default_retry_count n s = s\<lparr>su_default_retry := n\<rparr>"

text \<open>\<^verbatim>\<open>alloc\<close> and \<^verbatim>\<open>alloc'\<close> are the blocks the first and the second attempt to allocate return.\<close>

definition fw_update_init ::
  "bytes option \<Rightarrow> bytes option \<Rightarrow> u32 \<Rightarrow> 'd spi_upd \<Rightarrow> 'd spi_upd option" where
  "fw_update_init alloc alloc' ofs s =
    (if su_is_init s then Some s
     else (case (case alloc of None \<Rightarrow> alloc' | Some b \<Rightarrow> Some b) of
         None \<Rightarrow> None
       | Some b \<Rightarrow> Some (s\<lparr>su_txbuf := Some b, su_is_init := True, su_start_offset := ofs,
                          su_buf_offset := 0\<rparr>)))"

text \<open>The comparison of the offset with the one that is due; the second result says to give up.\<close>

definition fw_update_offset :: "u32 \<Rightarrow> 'd spi_upd \<Rightarrow> 'd spi_upd \<times> bool" where
  "fw_update_offset ofs s =
    (if ofs \<noteq> su_start_offset s + su_buf_offset s then
       let s = s\<lparr>su_retry := su_retry s - 1\<rparr> in
       if su_retry s < 0 then (s\<lparr>su_txbuf := None, su_is_init := False\<rparr>, True)
       else if ofs < su_start_offset s then (s\<lparr>su_start_offset := ofs, su_buf_offset := 0\<rparr>, False)
       else (s\<lparr>su_buf_offset := ofs - su_start_offset s\<rparr>, False)
     else (s\<lparr>su_retry := su_default_retry s\<rparr>, False))"

definition set_address_mode :: "'d flash_driver \<Rightarrow> 'd \<Rightarrow> 'd" where
  "set_address_mode drv d =
    (case fd_jedec_id drv d of (d, jid) \<Rightarrow>
     if push_bit 16 (ucast (nth0 jid 0)) OR push_bit 8 (ucast (nth0 jid 1)) OR ucast (nth0 jid 2)
        = IS25WP256D_ID
     then fd_4byte_mode drv d else d)"

definition fw_update_flush ::
  "(u8 \<Rightarrow> 'd flash_driver option) \<Rightarrow> bool \<Rightarrow> bytes \<Rightarrow> u8 \<Rightarrow> u8 \<Rightarrow> 'd spi_upd
     \<Rightarrow> ('d spi_upd \<times> u8) option" where
  "fw_update_flush devs heap txbuf flg pos s =
    (case devs pos of None \<Rightarrow> Some (s, CC_UNSPECIFIED_ERROR)
     | Some drv \<Rightarrow>
       (case ckeck_flash_device_isinit drv pos s of (s, rc) \<Rightarrow>
        if rc \<noteq> 0 then Some (s\<lparr>su_txbuf := None, su_is_init := False\<rparr>, word_of_int rc)
        else
          let d = (if su_start_offset s = 0 then set_address_mode drv (su_dev s) else su_dev s) in
          (case do_update drv heap d (su_start_offset s) txbuf (su_buf_offset s) of None \<Rightarrow> None
           | Some (d, ret) \<Rightarrow>
             let s = s\<lparr>su_dev := d, su_txbuf := None, su_is_init := False\<rparr> in
             Some (if flg AND SECTOR_END_FLAG \<noteq> 0 \<and> pos = DEVSPI_FMC_CS0
                      \<and> flg AND NO_RESET_FLAG = 0
                   then s\<lparr>su_resets := su_resets s + 1\<rparr> else s, word_of_int ret))))"

definition fw_update_store ::
  "(u8 \<Rightarrow> 'd flash_driver option) \<Rightarrow> bool \<Rightarrow> bytes \<Rightarrow> u8 \<Rightarrow> u8 \<Rightarrow> 'd spi_upd
     \<Rightarrow> ('d spi_upd \<times> u8) option" where
  "fw_update_store devs heap msg_buf flg pos s =
    (if SECTOR_SZ_64K < su_buf_offset s + of_nat (length msg_buf)
     then Some (s\<lparr>su_txbuf := None, su_is_init := False\<rparr>, FWUPDATE_OVER_LENGTH)
     else (case su_txbuf s of None \<Rightarrow> None | Some txbuf \<Rightarrow>
       if length txbuf < unat (su_buf_offset s) + length msg_buf then None
       else
         let txbuf = memcpy_at (unat (su_buf_offset s)) msg_buf txbuf;
             s = s\<lparr>su_txbuf := Some txbuf,
                   su_buf_offset := su_buf_offset s + of_nat (length msg_buf)\<rparr> in
         if su_buf_offset s = SECTOR_SZ_64K \<or> flg AND SECTOR_END_FLAG \<noteq> 0
         then (if length (su_isinit s) \<le> unat pos then None
               else fw_update_flush devs heap txbuf flg pos s)
         else Some (s, FWUPDATE_SUCCESS)))"

definition fw_update ::
  "(u8 \<Rightarrow> 'd flash_driver option) \<Rightarrow> bool \<Rightarrow> bytes option \<Rightarrow> bytes option
     \<Rightarrow> u32 \<Rightarrow> bytes \<Rightarrow> u8 \<Rightarrow> u8 \<Rightarrow> 'd spi_upd \<Rightarrow> ('d spi_upd \<times> u8) option" where
  "fw_update devs heap alloc alloc' ofs msg_buf flg pos s =
    (let s = (if ofs = 0 \<or> flg AND FORCE_INIT_FLAG \<noteq> 0
              then s\<lparr>su_retry := su_default_retry s, su_is_init := False\<rparr> else s) in
     case fw_update_init alloc alloc' ofs s of
       None \<Rightarrow> Some (s\<lparr>su_txbuf := None\<rparr>, FWUPDATE_OUT_OF_HEAP)
     | Some s \<Rightarrow>
       (case fw_update_offset ofs s of (s, give_up) \<Rightarrow>
        if give_up then Some (s, FWUPDATE_REPEATED_UPDATED)
        else fw_update_store devs heap msg_buf flg pos s))"

definition read_fw_image ::
  "(u8 \<Rightarrow> 'd flash_driver option) \<Rightarrow> u32 \<Rightarrow> u8 \<Rightarrow> u8 \<Rightarrow> 'd spi_upd \<Rightarrow> ('d spi_upd \<times> int \<times> bytes) option" where
  "read_fw_image devs ofs msg_len pos s =
    (if length (su_isinit s) \<le> unat pos then None
     else Some (case devs pos of None \<Rightarrow> (s, - EINVAL, [])
       | Some drv \<Rightarrow>
         (case ckeck_flash_device_isinit drv pos s of (s, rc) \<Rightarrow>
          if rc \<noteq> 0 then (s, rc, [])
          else if fd_size drv < ofs + ucast msg_len then (s, - EINVAL, [])
          else (case fd_read drv (su_dev s) ofs (ucast msg_len) of (d, ret, bs) \<Rightarrow>
                (s\<lparr>su_dev := d\<rparr>, ret, bs)))))"

section \<open>Erasing a whole flash\<close>

text \<open>The state is the device and the volatile progress counter.\<close>

partial_function (option) erase_loop ::
  "'d flash_driver \<Rightarrow> 'd \<Rightarrow> u8 \<Rightarrow> u32 \<Rightarrow> ('d \<times> u8 \<times> int) option" where
  "erase_loop drv d progress off =
    (if off < fd_size drv then
       (case fd_erase drv d off (fd_block drv) of (d, rc) \<Rightarrow>
        if rc \<noteq> 0 then Some (d, progress, rc)
        else erase_loop drv d
               (if off mod 0x100000 = 0
                then ucast (ucast off * 100 div (ucast (fd_size drv) :: u64)) else progress)
               (off + fd_block drv))
     else Some (d, 100, 0))"

definition erase_entire_flash :: "'d flash_driver \<Rightarrow> 'd \<Rightarrow> u8 \<Rightarrow> ('d \<times> u8 \<times> int) option" where
  "erase_entire_flash drv d progress =
    (if fd_size drv = 0 \<or> BIOS_MAX_SIZE_BYTES < fd_size drv then Some (d, progress, - EINVAL)
     else erase_loop drv d 0 0)"

text \<open>
  \<^verbatim>\<open>pos\<close> is the platform's position of the BIOS flash, \<^verbatim>\<open>mux\<close> its function that switches the bus.
\<close>

definition cmd_erase_bios ::
  "int \<Rightarrow> ('d \<Rightarrow> bool \<Rightarrow> 'd \<times> bool) \<Rightarrow> (u8 \<Rightarrow> 'd flash_driver option) \<Rightarrow> 'd spi_upd \<Rightarrow> u8
     \<Rightarrow> ('d spi_upd \<times> u8 \<times> int) option" where
  "cmd_erase_bios pos mux devs s progress =
    (if pos < 0 then Some (s, progress, - EINVAL)
     else (case mux (su_dev s) True of (d, switched) \<Rightarrow>
       let s = s\<lparr>su_dev := d\<rparr>; i = word_of_int pos in
       if \<not> switched then Some (s, progress, - EIO)
       else if length (su_isinit s) \<le> unat i then None
       else (case devs i of
           None \<Rightarrow> Some (s\<lparr>su_dev := fst (mux (su_dev s) False)\<rparr>, progress, - ENODEV)
         | Some drv \<Rightarrow>
           (case ckeck_flash_device_isinit drv i s of (s, rc) \<Rightarrow>
            (case (if rc = 0 then erase_entire_flash drv (fd_4byte_mode drv (su_dev s)) progress
                   else Some (su_dev s, progress, rc)) of
               None \<Rightarrow> None
             | Some (d, progress, rc) \<Rightarrow> Some (s\<lparr>su_dev := fst (mux d False)\<rparr>, progress, rc))))))"

subsection \<open>Reference definitions and examples\<close>

definition same_outside :: "nat \<Rightarrow> nat \<Rightarrow> bytes \<Rightarrow> bytes \<Rightarrow> bool" where
  "same_outside a n xs ys \<longleftrightarrow>
     length ys = length xs \<and> take a ys = take a xs \<and> drop (a + n) ys = drop (a + n) xs"

definition errno_ret :: "int \<Rightarrow> bool" where
  "errno_ret r \<longleftrightarrow> - 256 < r \<and> r \<le> 0"

text \<open>
  The documented behaviour of a flash driver over a device whose contents are \<^verbatim>\<open>mem\<close>: a return code is
  0 or a negative error number, a read that succeeds is in range and returns the contents, and no
  function changes a byte outside of its range. That erasing and writing succeed, or do what they
  report, is not assumed here.
\<close>

definition flash_driver_ok :: "'d flash_driver \<Rightarrow> ('d \<Rightarrow> bytes) \<Rightarrow> bool" where
  "flash_driver_ok drv mem \<longleftrightarrow>
     (\<forall>d a n. case fd_read drv d a n of (d', ret, bs) \<Rightarrow> errno_ret ret \<and> mem d' = mem d \<and>
        (ret = 0 \<longrightarrow> unat a + unat n \<le> length (mem d) \<and> bs = slice (unat a) (unat n) (mem d))) \<and>
     (\<forall>d a n. case fd_erase drv d a n of (d', ret) \<Rightarrow> errno_ret ret
        \<and> same_outside (unat a) (unat n) (mem d) (mem d')) \<and>
     (\<forall>d a bs. case fd_write drv d a bs of (d', ret) \<Rightarrow> errno_ret ret
        \<and> same_outside (unat a) (length bs) (mem d) (mem d')) \<and>
     (\<forall>d. mem (fst (fd_re_init drv d)) = mem d \<and> errno_ret (snd (fd_re_init drv d))) \<and>
     (\<forall>d. mem (fst (fd_jedec_id drv d)) = mem d) \<and> (\<forall>d. mem (fd_4byte_mode drv d) = mem d)"

definition sector_end :: "nat \<Rightarrow> nat \<Rightarrow> nat" where
  "sector_end s a = (a + s - 1) div s * s"

text \<open>A driver that also does its work: reads in range, erases whole sectors to 0xFF, writes erased bytes.\<close>

definition flash_works :: "'d flash_driver \<Rightarrow> ('d \<Rightarrow> bytes) \<Rightarrow> bool" where
  "flash_works drv mem \<longleftrightarrow>
     (\<forall>d a n. unat a + unat n \<le> length (mem d) \<longrightarrow> fst (snd (fd_read drv d a n)) = 0) \<and>
     (\<forall>d a. unat a mod unat (fd_block drv) = 0 \<longrightarrow> unat a + unat (fd_block drv) \<le> length (mem d)
        \<longrightarrow> (case fd_erase drv d a (fd_block drv) of (d', ret) \<Rightarrow> ret = 0
             \<and> mem d' = memcpy_at (unat a) (replicate (unat (fd_block drv)) 0xFF) (mem d))) \<and>
     (\<forall>d a bs. unat a + length bs \<le> length (mem d)
        \<longrightarrow> slice (unat a) (length bs) (mem d) = replicate (length bs) 0xFF
        \<longrightarrow> (case fd_write drv d a bs of (d', ret) \<Rightarrow> ret = 0 \<and> mem d' = memcpy_at (unat a) bs (mem d))) \<and>
     (\<forall>d. snd (fd_re_init drv d) = 0)"

text \<open>A NOR flash of a few bytes: erasing sets bits, writing can only clear them.\<close>

definition nor_flash :: "u32 \<Rightarrow> u32 \<Rightarrow> bytes flash_driver" where
  "nor_flash sz blk = \<lparr>fd_size = sz, fd_block = blk,
     fd_read = (\<lambda>d a n. if unat a + unat n \<le> length d then (d, 0, slice (unat a) (unat n) d) else (d, - EINVAL, [])),
     fd_erase = (\<lambda>d a n. if unat a + unat n \<le> length d then (memcpy_at (unat a) (replicate (unat n) 0xFF) d, 0)
        else (d, - EINVAL)),
     fd_write = (\<lambda>d a bs. if unat a + length bs \<le> length d
        then (memcpy_at (unat a) (map2 (AND) (slice (unat a) (length bs) d) bs) d, 0) else (d, - EINVAL)),
     fd_re_init = (\<lambda>d. (d, 0)), fd_jedec_id = (\<lambda>d. (d, [0, 0, 0])), fd_4byte_mode = (\<lambda>d. d)\<rparr>"

section \<open>Properties\<close>

lemma errno_ret_simps [simp]: "errno_ret 0" "errno_ret (- EINVAL)"
  by (simp_all add: errno_ret_def EINVAL_def)

lemma errno_ret_u8:
  assumes "errno_ret r"
  shows "(word_of_int r :: u8) = 0 \<longleftrightarrow> r = 0"
proof -
  have "(word_of_int r :: u8) = 0 \<longleftrightarrow> r mod 256 = 0"
    by (simp add: word_of_int_eq_0_iff mod_eq_0_iff_dvd)
  also have "\<dots> \<longleftrightarrow> r = 0" using assms by (auto simp: errno_ret_def)
  finally show ?thesis .
qed

lemma same_outside_refl [simp]: "same_outside a n xs xs"
  by (simp add: same_outside_def)

lemma same_outside_trans [trans]:
  "same_outside a n xs ys \<Longrightarrow> same_outside a n ys zs \<Longrightarrow> same_outside a n xs zs"
  by (simp add: same_outside_def)

lemma same_outside_mono:
  assumes "same_outside a n xs ys" and "b \<le> a" and "a + n \<le> b + m"
  shows "same_outside b m xs ys"
proof -
  have "take b zs = take b (take a zs)" for zs :: bytes using assms(2) by (simp add: min_def)
  moreover have "drop (b + m) zs = drop (b + m - (a + n)) (drop (a + n) zs)" for zs :: bytes
    using assms(3) by simp
  ultimately show ?thesis using assms(1) unfolding same_outside_def by metis
qed

lemma same_outside_join:
  assumes "same_outside a n xs ys" and "same_outside (a + n) m ys zs"
  shows "same_outside a (n + m) xs zs"
  using same_outside_mono [OF assms(1), of a "n + m"] same_outside_mono [OF assms(2), of a "n + m"]
  by (auto intro: same_outside_trans)

lemma same_outside_memcpy:
  assumes "same_outside a (length w) xs ys" and "slice a (length w) ys = w"
  shows "ys = memcpy_at a w xs"
proof -
  have "ys = take a ys @ take (length w) (drop a ys) @ drop (length w) (drop a ys)"
    by (simp only: append_take_drop_id)
  then show ?thesis using assms by (simp add: same_outside_def slice_def memcpy_at_def add.commute)
qed

lemma same_outside_memcpy_at:
  "a + length w \<le> length xs \<Longrightarrow> same_outside a (length w) xs (memcpy_at a w xs)"
  by (simp add: same_outside_def take_memcpy_at_before drop_memcpy_at_after)

lemma memcpy_at_append:
  "a + length x \<le> length m \<Longrightarrow> memcpy_at (a + length x) y (memcpy_at a x m) = memcpy_at a (x @ y) m"
  by (simp add: memcpy_at_def ac_simps)

lemma memcpy_at_slice:
  assumes "ofs + length x \<le> n" and "a + n \<le> length m"
  shows "memcpy_at a (memcpy_at ofs x (slice a n m)) m = memcpy_at (a + ofs) x m"
proof -
  have tl: "drop (ofs + length x) (slice a n m) @ drop (a + n) m = drop (a + (ofs + length x)) m"
  proof -
    have "drop (ofs + length x) (slice a n m)
        = take (n - (ofs + length x)) (drop (a + (ofs + length x)) m)"
      by (simp add: slice_def drop_take add.commute)
    moreover have "drop (a + n) m = drop (n - (ofs + length x)) (drop (a + (ofs + length x)) m)"
      using assms by (simp add: add.commute)
    ultimately show ?thesis by (simp only: append_take_drop_id)
  qed
  have hd: "take a m @ take ofs (slice a n m) = take (a + ofs) m"
    using assms by (simp add: slice_def take_add min_def)
  have len: "length (memcpy_at ofs x (slice a n m)) = n" using assms by simp
  have "memcpy_at a (memcpy_at ofs x (slice a n m)) m
      = take a m @ memcpy_at ofs x (slice a n m) @ drop (a + n) m"
    unfolding memcpy_at_def [of a] len by (rule refl)
  also have "\<dots> = (take a m @ take ofs (slice a n m)) @ x @ drop (ofs + length x) (slice a n m) @ drop (a + n) m"
    by (simp only: memcpy_at_def append.assoc)
  also have "\<dots> = memcpy_at (a + ofs) x m"
    by (simp only: tl hd memcpy_at_def add.assoc)
  finally show ?thesis .
qed

lemma flash_readD:
  assumes "flash_driver_ok drv mem" and "fd_read drv d a n = (d', ret, bs)"
  shows "mem d' = mem d" and "errno_ret ret" and "ret = 0 \<Longrightarrow> unat a + unat n \<le> length (mem d)"
    and "ret = 0 \<Longrightarrow> bs = slice (unat a) (unat n) (mem d)"
  using assms(1) [unfolded flash_driver_ok_def, THEN conjunct1, THEN spec [of _ d], THEN spec [of _ a],
      THEN spec [of _ n]] assms(2) by simp_all

lemma flash_eraseD:
  assumes "flash_driver_ok drv mem" and "fd_erase drv d a n = (d', ret)"
  shows "same_outside (unat a) (unat n) (mem d) (mem d')" and "errno_ret ret"
  using assms(1) [unfolded flash_driver_ok_def, THEN conjunct2, THEN conjunct1, THEN spec [of _ d],
      THEN spec [of _ a], THEN spec [of _ n]] assms(2) by simp_all

lemma flash_writeD:
  assumes "flash_driver_ok drv mem" and "fd_write drv d a bs = (d', ret)"
  shows "same_outside (unat a) (length bs) (mem d) (mem d')" and "errno_ret ret"
  using assms(1) [unfolded flash_driver_ok_def, THEN conjunct2, THEN conjunct2, THEN conjunct1,
      THEN spec [of _ d], THEN spec [of _ a], THEN spec [of _ bs]] assms(2) by simp_all

text \<open>Whatever the driver does: a rewrite that returns 0 has stored its data, and no rewrite touches another sector.\<close>

lemma do_erase_write_verify_ok:
  assumes ok: "flash_driver_ok drv mem" and w: "length w = unat n"
    and run: "do_erase_write_verify drv d a w n = (d', ret)"
  shows "same_outside (unat a) (unat n) (mem d) (mem d')"
    and "ret = 0 \<Longrightarrow> mem d' = memcpy_at (unat a) w (mem d)" and "errno_ret ret"
proof -
  obtain d1 r1 where e: "fd_erase drv d a n = (d1, r1)" by fastforce
  obtain d2 r2 where wr: "fd_write drv d1 a w = (d2, r2)" by fastforce
  obtain d3 r3 rb where rd: "fd_read drv d2 a n = (d3, r3, rb)" by (metis prod_cases3)
  note s1 = flash_eraseD [OF ok e] and s2 = flash_writeD [OF ok wr, unfolded w]
  note s3 = flash_readD [OF ok rd]
  have s12: "same_outside (unat a) (unat n) (mem d) (mem d2)" using s1(1) s2(1) by (rule same_outside_trans)
  show "errno_ret ret"
    using run s1(2) s2(2) s3(2) by (auto simp: do_erase_write_verify_def e wr rd split: if_splits)
  show "same_outside (unat a) (unat n) (mem d) (mem d')"
    using run s1(1) s12 s3(1) by (auto simp: do_erase_write_verify_def e wr rd split: if_splits)
  assume "ret = 0"
  then have "r3 = 0" "w = rb" "d' = d3"
    using run by (auto simp: do_erase_write_verify_def e wr rd EINVAL_def split: if_splits)
  then show "mem d' = memcpy_at (unat a) w (mem d)"
    using same_outside_memcpy [of "unat a" w "mem d" "mem d2"] s12 s3 w by simp
qed

lemma unat_sector_addr:
  fixes a s :: u32
  shows "unat (a div s * s) = unat a div unat s * unat s"
proof -
  have "unat (a div s) * unat s < 2 ^ LENGTH(32)"
    unfolding unat_div
    by (rule order.strict_trans1 [OF div_times_less_eq_dividend]) (rule unsigned_less)
  then show ?thesis by (simp only: unat_word_ariths(2) unat_div mod_less)
qed

lemma update_start_gen:
  fixes drv :: "'d flash_driver"
  defines "s \<equiv> unat (fd_block drv)"
  assumes ok: "flash_driver_ok drv mem" and sz: "length (mem d) = unat (fd_size drv)"
    and s0: "0 < s" and buf: "unat len \<le> length buf"
  obtains d' ret op ptr where "update_start drv d ofs buf len = Some (d', ret, op, ptr)"
    and "if unat ofs mod s = 0 then d' = d else same_outside (unat ofs div s * s) s (mem d) (mem d')"
    and "ret = 0 \<Longrightarrow> unat op = (if unat ofs mod s = 0 then unat ofs else unat ofs div s * s + s)
           \<and> ptr = (if unat ofs mod s = 0 then 0 else min (s - unat ofs mod s) (unat len)) \<and> mem d' = memcpy_at (unat ofs) (take ptr buf) (mem d)"
    and "errno_ret ret"
proof (cases "unat ofs mod s = 0")
  case True
  then have m: "ofs mod fd_block drv = 0" by (simp add: s_def word_unat_eq_iff unat_mod)
  from True have o: "unat ofs div s * s = unat ofs" by auto
  show ?thesis
  proof (rule that)
    show "update_start drv d ofs buf len = Some (d, 0, ofs div fd_block drv * fd_block drv, 0)"
      by (simp add: update_start_def m Let_def)
    show "if unat ofs mod s = 0 then d = d else same_outside (unat ofs div s * s) s (mem d) (mem d)"
      by simp
  qed (use True o s0 in \<open>simp_all add: unat_sector_addr flip: s_def\<close>)
next
  case False
  let ?b = "unat ofs div s * s" and ?r = "min (s - unat ofs mod s) (unat len)"
  have m: "ofs mod fd_block drv \<noteq> 0" using False by (simp add: s_def word_unat_eq_iff unat_mod)
  have lt: "unat ofs mod s < s" using s0 by simp
  have ofs: "?b + unat ofs mod s = unat ofs" by simp
  have rem: "unat (min (fd_block drv - ofs mod fd_block drv) len) = ?r"
  proof -
    have "ofs mod fd_block drv \<le> fd_block drv" using lt by (simp add: word_le_nat_alt unat_mod s_def)
    then have "unat (fd_block drv - ofs mod fd_block drv) = s - unat ofs mod s" by (simp add: unat_sub unat_mod s_def)
    then show ?thesis by (auto simp: min_def word_le_nat_alt)
  qed
  let ?op = "ofs div fd_block drv * fd_block drv"
  have op: "unat ?op = ?b" by (simp add: unat_sector_addr s_def)
  obtain d1 r1 ob where rd: "fd_read drv d ?op (fd_block drv) = (d1, r1, ob)" by (metis prod_cases3)
  note rdD = flash_readD [OF ok rd, unfolded op, folded s_def]
  show ?thesis
  proof (cases "r1 = 0")
    case F: False
    show ?thesis
      by (rule that [of d1 r1 ?op 0]) (use False F m rd rdD(1,2) in \<open>simp_all add: update_start_def Let_def\<close>)
  next
    case r1: True
    from rdD(3) [OF r1] have fits: "?b + s \<le> length (mem d)" .
    from rdD(4) [OF r1] have ob: "ob = slice ?b s (mem d)" .
    with fits have lob: "length ob = s" by simp
    let ?w = "memcpy_at (unat ofs mod s) (take ?r buf) ob"
    have lr: "?r \<le> length buf" "length (take ?r buf) = ?r" using buf by auto
    have lw: "length ?w = unat (fd_block drv)" using lob lr lt by (simp add: s_def [symmetric])
    obtain d2 r2 where dw: "do_erase_write_verify drv d1 ?op ?w (fd_block drv) = (d2, r2)" by fastforce
    note dwD = do_erase_write_verify_ok [OF ok lw dw, unfolded op, folded s_def, unfolded rdD(1)]
    have wrap: "unat (?op + fd_block drv) = ?b + s"
    proof -
      have "?b + s < 2 ^ LENGTH(32)"
        using fits sz unsigned_less [of "fd_size drv", where 'a = nat] by linarith
      then show ?thesis using op by (subst unat_plus_no_wrap) (simp_all add: s_def)
    qed
    have run: "update_start drv d ofs buf len
        = Some (if r2 \<noteq> 0 then (d2, r2, ?op, 0) else (d2, 0, ?op + fd_block drv, ?r))"
    proof -
      have "\<not> (length buf < ?r \<or> length ob < unat ofs mod s + ?r)" using lr(1) lob lt by linarith
      then show ?thesis
        by (simp add: update_start_def m rd r1 rem unat_mod dw Let_def flip: s_def del: min_less_iff_conj)
    qed
    have mem: "r2 = 0 \<Longrightarrow> mem d2 = memcpy_at (unat ofs) (take ?r buf) (mem d)"
      using dwD(2) memcpy_at_slice [of "unat ofs mod s" "take ?r buf" s ?b "mem d"] lr lt fits
      by (simp add: ob ofs)
    show ?thesis
    proof (cases "r2 = 0")
      case True
      show ?thesis
        by (rule that [of d2 0 "?op + fd_block drv" ?r])
          (use True False run dwD(1,3) mem wrap in \<open>simp_all\<close>)
    next
      case nz: False
      show ?thesis
        by (rule that [of d2 r2 ?op 0]) (use nz False run dwD(1,3) in simp_all)
    qed
  qed
qed

lemma update_start_ok:
  fixes drv :: "'d flash_driver"
  defines "s \<equiv> unat (fd_block drv)"
  assumes ok: "flash_driver_ok drv mem" and sz: "length (mem d) = unat (fd_size drv)"
    and s0: "0 < s" and buf: "unat len \<le> length buf"
    and reach: "unat ofs mod s = 0 \<or> s \<le> unat ofs mod s + unat len"
  obtains d' ret op ptr where "update_start drv d ofs buf len = Some (d', ret, op, ptr)"
    and "if unat ofs mod s = 0 then d' = d else same_outside (unat ofs div s * s) s (mem d) (mem d')"
    and "ret = 0 \<Longrightarrow> unat op = unat ofs + ptr \<and> unat op mod s = 0 \<and> ptr \<le> unat len \<and> ptr < s
           \<and> mem d' = memcpy_at (unat ofs) (take ptr buf) (mem d)"
    and "errno_ret ret"
proof -
  obtain d' ret op ptr where st: "update_start drv d ofs buf len = Some (d', ret, op, ptr)"
      "if unat ofs mod s = 0 then d' = d else same_outside (unat ofs div s * s) s (mem d) (mem d')"
    and g: "ret = 0 \<Longrightarrow> unat op = (if unat ofs mod s = 0 then unat ofs else unat ofs div s * s + s)
      \<and> ptr = (if unat ofs mod s = 0 then 0 else min (s - unat ofs mod s) (unat len))
      \<and> mem d' = memcpy_at (unat ofs) (take ptr buf) (mem d)"
    and er: "errno_ret ret"
    by (rule update_start_gen [OF ok sz s0 [unfolded s_def] buf, folded s_def])
      (erule that, assumption, blast, assumption)
  show ?thesis
  proof (rule that [OF st _ er])
    assume r: "ret = 0"
    have lt: "unat ofs mod s < s" and ofs: "unat ofs div s * s + unat ofs mod s = unat ofs" using s0 by simp_all
    show "unat op = unat ofs + ptr \<and> unat op mod s = 0 \<and> ptr \<le> unat len \<and> ptr < s
        \<and> mem d' = memcpy_at (unat ofs) (take ptr buf) (mem d)"
    proof (cases "unat ofs mod s = 0")
      case True
      then show ?thesis using g [OF r] s0 by simp
    next
      case False
      then have p: "ptr = s - unat ofs mod s" "unat op = unat ofs div s * s + s"
        "mem d' = memcpy_at (unat ofs) (take ptr buf) (mem d)"
        using g [OF r] reach by (auto simp: min_def)
      have "unat op = unat ofs + ptr" "ptr \<le> unat len" "ptr < s"
        using p(1,2) False lt ofs reach by linarith+
      moreover have "unat op mod s = 0" unfolding p(2) by simp
      ultimately show ?thesis using p(3) by blast
    qed
  qed
qed

lemma update_body_ok:
  fixes drv :: "'d flash_driver"
  defines "s \<equiv> unat (fd_block drv)"
  assumes ok: "flash_driver_ok drv mem" and s0: "0 < s"
    and "unat op + k * s = unat e" and "ptr + k * s \<le> length buf"
  shows "\<exists>d' ret op' ptr'. update_body drv e buf d op ptr upd = Some (d', ret, op', ptr')
    \<and> same_outside (unat op) (k * s) (mem d) (mem d')
    \<and> errno_ret ret
    \<and> (ret = 0 \<longrightarrow> op' = e \<and> ptr' = ptr + k * s
          \<and> mem d' = memcpy_at (unat op) (slice ptr (k * s) buf) (mem d))"
  using assms(4, 5)
proof (induction k arbitrary: d op ptr upd)
  case 0
  then have "op = e" by (simp add: word_unat_eq_iff)
  then show ?case by (subst update_body.simps) (simp add: slice_def)
next
  case (Suc k)
  from Suc.prems(1) s0 have lt: "op < e" by (simp add: word_less_nat_alt)
  have ops: "unat (op + fd_block drv) = unat op + s"
  proof -
    have "unat op + s < 2 ^ LENGTH(32)" using Suc.prems(1) unat_u32_lt [of e] by (simp del: unat_u32_lt)
    then show ?thesis by (subst unat_plus_no_wrap) (simp_all add: s_def)
  qed
  let ?data = "slice ptr s buf"
  have ld: "length ?data = unat (fd_block drv)" "length ?data = s" "\<not> length buf < ptr + s"
    using Suc.prems(2) by (simp_all add: s_def)
  obtain d1 r1 ob where rd: "fd_read drv d op (fd_block drv) = (d1, r1, ob)" by (metis prod_cases3)
  note rdD = flash_readD [OF ok rd, folded s_def]
  show ?case
  proof (cases "r1 = 0")
    case False
    then show ?thesis by (subst update_body.simps) (simp add: lt rd rdD(1,2))
  next
    case r1: True
    let ?upd = "upd \<or> ob \<noteq> ?data"
    obtain d2 r2 where st: "(if ?upd then do_erase_write_verify drv d1 op ?data (fd_block drv) else (d1, 0)) = (d2, r2)"
      by fastforce
    have step: "same_outside (unat op) s (mem d) (mem d2) \<and> errno_ret r2
        \<and> (r2 = 0 \<longrightarrow> mem d2 = memcpy_at (unat op) ?data (mem d))"
    proof (cases ?upd)
      case True
      then have "do_erase_write_verify drv d1 op ?data (fd_block drv) = (d2, r2)" using st by simp
      from do_erase_write_verify_ok [OF ok ld(1) this, folded s_def] show ?thesis by (simp add: rdD(1))
    next
      case False
      then have "d2 = d1" "ob = ?data" "r2 = 0" using st by auto
      moreover have "mem d = memcpy_at (unat op) ?data (mem d)"
        by (rule same_outside_memcpy) (use rdD(4) [OF r1] \<open>ob = ?data\<close> ld(2) in simp_all)
      ultimately show ?thesis by (simp add: rdD(1))
    qed
    have eq: "update_body drv e buf d op ptr upd
        = (if r2 \<noteq> 0 then Some (d2, r2, op, ptr)
           else update_body drv e buf d2 (op + fd_block drv) (ptr + s) ?upd)"
      by (subst update_body.simps) (simp add: lt rd r1 ld(3) Let_def st flip: s_def)
    show ?thesis
    proof (cases "r2 = 0")
      case False
      have "same_outside (unat op) (Suc k * s) (mem d) (mem d2)"
        using step by (auto intro: same_outside_mono)
      with False step show ?thesis by (simp add: eq)
    next
      case True
      obtain d3 r3 op3 p3 where
        run: "update_body drv e buf d2 (op + fd_block drv) (ptr + s) ?upd = Some (d3, r3, op3, p3)"
        and fr: "same_outside (unat op + s) (k * s) (mem d2) (mem d3)" and er: "errno_ret r3"
        and fin: "r3 = 0 \<longrightarrow> op3 = e \<and> p3 = ptr + s + k * s
          \<and> mem d3 = memcpy_at (unat op + s) (slice (ptr + s) (k * s) buf) (mem d2)"
      proof -
        have "unat (op + fd_block drv) + k * s = unat e" "ptr + s + k * s \<le> length buf"
          using Suc.prems unfolding ops mult_Suc by (simp_all only: add.assoc)
        from Suc.IH [OF this, of d2 ?upd] show ?thesis using that unfolding ops by blast
      qed
      have "same_outside (unat op) (s + k * s) (mem d) (mem d3)"
        using step fr by (blast intro: same_outside_join)
      moreover have "mem d3 = memcpy_at (unat op) (slice ptr (s + k * s) buf) (mem d)" if "r3 = 0"
      proof -
        have "mem d3 = memcpy_at (unat op + length ?data) (slice (ptr + s) (k * s) buf) (memcpy_at (unat op) ?data (mem d))"
          using that fin step True ld(2) by simp
        also have "\<dots> = memcpy_at (unat op) (?data @ slice (ptr + s) (k * s) buf) (mem d)"
          by (rule memcpy_at_append) (use rdD(3) [OF r1] ld(2) in simp)
        finally show ?thesis by (simp only: slice_append_next)
      qed
      moreover have "update_body drv e buf d op ptr upd = Some (d3, r3, op3, p3)"
        unfolding eq using True run by simp
      moreover have "r3 = 0 \<Longrightarrow> op3 = e" "r3 = 0 \<Longrightarrow> p3 = ptr + (s + k * s)"
        using fin by (simp_all only: simp_thms add.assoc)
      ultimately show ?thesis using er unfolding mult_Suc by blast
    qed
  qed
qed

lemma update_remain_ok:
  fixes drv :: "'d flash_driver"
  defines "s \<equiv> unat (fd_block drv)"
  assumes ok: "flash_driver_ok drv mem" and buf: "ptr + unat r \<le> length buf" and r: "unat r \<le> s"
  shows "\<exists>d' ret. update_remain drv d buf op ptr r = Some (d', ret)
    \<and> same_outside (unat op) s (mem d) (mem d') \<and> errno_ret ret
    \<and> (ret = 0 \<longrightarrow> mem d' = memcpy_at (unat op) (slice ptr (unat r) buf) (mem d))"
proof -
  obtain d1 r1 ob where rd: "fd_read drv d op (fd_block drv) = (d1, r1, ob)" by (metis prod_cases3)
  note rdD = flash_readD [OF ok rd, folded s_def]
  show ?thesis
  proof (cases "r1 = 0")
    case False
    then show ?thesis by (simp add: update_remain_def rd rdD(1,2))
  next
    case True
    let ?x = "slice ptr (unat r) buf"
    let ?w = "memcpy_at 0 ?x ob"
    have ob: "ob = slice (unat op) s (mem d)" "length ob = s"
      using rdD(3, 4) [OF True] by simp_all
    have lx: "length ?x = unat r" using buf by simp
    have lw: "length ?w = unat (fd_block drv)" using ob(2) r lx by (simp add: s_def)
    obtain d2 r2 where dw: "do_erase_write_verify drv d1 op ?w (fd_block drv) = (d2, r2)" by fastforce
    note dwD = do_erase_write_verify_ok [OF ok lw dw, folded s_def, unfolded rdD(1)]
    have "update_remain drv d buf op ptr r = Some (d2, r2)"
      using buf r ob(2) by (simp add: update_remain_def rd True dw not_less)
    moreover have "memcpy_at (unat op) ?w (mem d) = memcpy_at (unat op) ?x (mem d)"
      using memcpy_at_slice [of 0 ?x s "unat op" "mem d"] rdD(3) [OF True] lx r by (simp add: ob(1))
    ultimately show ?thesis using dwD by simp
  qed
qed

lemma sector_end_ge: "0 < s \<Longrightarrow> a \<le> sector_end s a"
proof -
  assume "0 < s"
  then have "(a + s - 1) mod s < s" by simp
  moreover have "(a + s - 1) div s * s + (a + s - 1) mod s = a + s - 1" by simp
  ultimately show ?thesis unfolding sector_end_def using \<open>0 < s\<close> by linarith
qed

lemma sector_end_partial:
  assumes "0 < s" and "a mod s \<noteq> 0"
  shows "a div s * s + s \<le> sector_end s a"
proof -
  have "a div s * s + a mod s = a" by simp
  then have "(a div s + 1) * s \<le> a + s - 1" using assms unfolding add_mult_distrib by linarith
  then have "a div s + 1 \<le> (a + s - 1) div s" using assms(1) by (simp only: less_eq_div_iff_mult_less_eq)
  then have "(a div s + 1) * s \<le> sector_end s a" unfolding sector_end_def by (rule mult_le_mono1)
  then show ?thesis by simp
qed

lemma update_loop_count:
  assumes "0 < s" and "op mod s = 0" and "op \<le> (t :: nat)"
  obtains k where "op + k * s = t div s * s"
proof -
  obtain q where q: "op = q * s" using assms(2) by (metis mod_0_imp_dvd dvd_div_mult_self)
  with assms have "q \<le> t div s" by (simp add: less_eq_div_iff_mult_less_eq)
  then have "op + (t div s - q) * s = t div s * s" by (simp add: q diff_mult_distrib)
  then show ?thesis by (rule that)
qed

lemma update_rest_ok:
  fixes drv :: "'d flash_driver" and e :: u32
  defines "s \<equiv> unat (fd_block drv)"
  assumes ok: "flash_driver_ok drv mem" and s0: "0 < s"
    and op: "unat op mod s = 0" "unat op \<le> unat e" and fits: "unat e \<le> length (mem d)"
    and buf: "ptr + (unat e - unat op) \<le> length buf"
  shows "\<exists>d' ret. update_rest drv e buf d op ptr = Some (d', ret)
    \<and> same_outside (unat op) (sector_end s (unat e) - unat op) (mem d) (mem d') \<and> errno_ret ret
    \<and> (ret = 0 \<longrightarrow> mem d' = memcpy_at (unat op) (slice ptr (unat e - unat op) buf) (mem d))"
proof -
  let ?e = "e div fd_block drv * fd_block drv" and ?E = "sector_end s (unat e)"
  have es: "unat ?e = unat e div s * s" by (simp add: unat_sector_addr s_def)
  have te: "unat e div s * s + unat e mod s = unat e" by simp
  have tE: "unat e \<le> ?E" by (rule sector_end_ge [OF s0])
  obtain k where k: "unat op + k * s = unat e div s * s"
    by (rule update_loop_count [OF s0 op])
  have "unat op + k * unat (fd_block drv) = unat ?e" "ptr + k * unat (fd_block drv) \<le> length buf"
    using k es te buf unfolding s_def by linarith+
  from update_body_ok [OF ok s0 [unfolded s_def] this, of d False]
  obtain d2 r2 op2 p2 where bd: "update_body drv ?e buf d op ptr False = Some (d2, r2, op2, p2)"
    and fr2: "same_outside (unat op) (k * s) (mem d) (mem d2)" and er2: "errno_ret r2"
    and ok2: "r2 = 0 \<longrightarrow> op2 = ?e \<and> p2 = ptr + k * s
      \<and> mem d2 = memcpy_at (unat op) (slice ptr (k * s) buf) (mem d)"
    unfolding s_def by blast
  have frame2: "same_outside (unat op) (?E - unat op) (mem d) (mem d2)"
    by (rule same_outside_mono [OF fr2]) (use k te tE in linarith)+
  show ?thesis
  proof (cases "r2 = 0 \<and> unat e mod s \<noteq> 0")
    case False
    then have "r2 = 0 \<Longrightarrow> unat ?e = unat e" using te es by simp
    then have "r2 = 0 \<Longrightarrow> \<not> ?e < e" by (simp add: word_less_nat_alt)
    then have "update_rest drv e buf d op ptr = Some (d2, r2)"
      by (simp add: update_rest_def Let_def bd)
    moreover have "r2 = 0 \<Longrightarrow> k * s = unat e - unat op" using False k te by linarith
    ultimately show ?thesis using frame2 ok2 er2 by auto
  next
    case True
    then have op2: "op2 = ?e" and p2: "p2 = ptr + k * s" and r2: "r2 = 0" and un: "unat e mod s \<noteq> 0"
      and m2: "mem d2 = memcpy_at (unat op) (slice ptr (k * s) buf) (mem d)" using ok2 by blast+
    have lt: "?e < e" unfolding word_less_nat_alt es using te un by linarith
    have r: "unat (e - ?e) = unat e mod s"
    proof -
      have "unat (e - ?e) = unat e - unat ?e" by (rule unat_sub) (use lt in simp)
      then show ?thesis using te es by linarith
    qed
    have "p2 + unat (e - ?e) \<le> length buf" "unat (e - ?e) \<le> unat (fd_block drv)"
    proof -
      show "p2 + unat (e - ?e) \<le> length buf" unfolding r p2 using k te buf by linarith
      show "unat (e - ?e) \<le> unat (fd_block drv)" unfolding r using s0 by (simp add: s_def)
    qed
    from update_remain_ok [OF ok this, of d2 ?e]
    obtain d3 r3 where rm: "update_remain drv d2 buf ?e p2 (e - ?e) = Some (d3, r3)"
      and fr3: "same_outside (unat e div s * s) s (mem d2) (mem d3)" and er3: "errno_ret r3"
      and m3: "r3 = 0 \<longrightarrow> mem d3 = memcpy_at (unat e div s * s) (slice p2 (unat e mod s) buf) (mem d2)"
      unfolding r es s_def by blast
    have "update_rest drv e buf d op ptr = Some (d3, r3)"
      using r2 lt by (simp add: update_rest_def Let_def bd op2 rm)
    moreover have "same_outside (unat op) (?E - unat op) (mem d) (mem d3)"
      by (rule same_outside_trans [OF frame2], rule same_outside_mono [OF fr3])
        (use sector_end_partial [OF s0 un] k in linarith)+
    moreover have "mem d3 = memcpy_at (unat op) (slice ptr (unat e - unat op) buf) (mem d)" if "r3 = 0"
    proof -
      have "ptr + k * s \<le> length buf" using k te buf by linarith
      then have l: "length (slice ptr (k * s) buf) = k * s" by simp
      have "mem d3 = memcpy_at (unat op + length (slice ptr (k * s) buf)) (slice p2 (unat e mod s) buf)
          (memcpy_at (unat op) (slice ptr (k * s) buf) (mem d))" using m3 that m2 l k by simp
      also have "\<dots> = memcpy_at (unat op) (slice ptr (k * s) buf @ slice p2 (unat e mod s) buf) (mem d)"
        by (rule memcpy_at_append) (use l k te fits in linarith)
      also have "slice ptr (k * s) buf @ slice p2 (unat e mod s) buf = slice ptr (k * s + unat e mod s) buf"
        unfolding p2 by (rule slice_append_next)
      also have "k * s + unat e mod s = unat e - unat op" using k te by linarith
      finally show ?thesis .
    qed
    ultimately show ?thesis using er3 by blast
  qed
qed

lemma do_update_ok:
  fixes drv :: "'d flash_driver"
  defines "s \<equiv> unat (fd_block drv)"
  assumes ok: "flash_driver_ok drv mem" and sz: "length (mem d) = unat (fd_size drv)"
    and s0: "0 < s" and buf: "unat len \<le> length buf" and nowrap: "unat ofs + unat len < 2 ^ 32"
    and reach: "unat ofs mod s = 0 \<or> s \<le> unat ofs mod s + unat len"
  shows "\<exists>d' ret. do_update drv heap d ofs buf len = Some (d', ret)
    \<and> same_outside (unat ofs div s * s) (sector_end s (unat ofs + unat len) - unat ofs div s * s) (mem d) (mem d') \<and> errno_ret ret
    \<and> (ret = 0 \<longrightarrow> heap \<and> unat ofs + unat len \<le> length (mem d)
         \<and> mem d' = memcpy_at (unat ofs) (take (unat len) buf) (mem d))"
proof -
  let ?t = "unat ofs + unat len" and ?b = "unat ofs div s * s"
  let ?E = "sector_end s ?t"
  have t: "unat (ofs + len) = ?t" using nowrap by (simp add: unat_plus_no_wrap)
  have tE: "?t \<le> ?E" and bo: "?b \<le> unat ofs" using s0 sector_end_ge by auto
  have blk: "fd_block drv \<noteq> 0" using s0 by (auto simp: s_def)
  show ?thesis
  proof (cases "fd_size drv < ofs + len \<or> \<not> heap")
    case True
    then show ?thesis by (auto simp: do_update_def) (simp_all add: EINVAL_def)
  next
    case False
    then have fits: "?t \<le> length (mem d)" and heap by (simp_all add: sz t word_less_nat_alt not_less)
    obtain d1 r1 op1 p1 where st: "update_start drv d ofs buf len = Some (d1, r1, op1, p1)"
      and fr1: "if unat ofs mod s = 0 then d1 = d else same_outside ?b s (mem d) (mem d1)"
      and ok1: "r1 = 0 \<Longrightarrow> unat op1 = unat ofs + p1 \<and> unat op1 mod s = 0 \<and> p1 \<le> unat len \<and> p1 < s
        \<and> mem d1 = memcpy_at (unat ofs) (take p1 buf) (mem d)"
      and er1: "errno_ret r1"
      by (rule update_start_ok [OF ok sz s0 [unfolded s_def] buf reach [unfolded s_def], folded s_def])
        (erule that, assumption, blast, assumption)
    have frame1: "same_outside ?b (?E - ?b) (mem d) (mem d1)"
    proof (cases "unat ofs mod s = 0")
      case False
      then have "?b + s \<le> ?t" using reach div_mult_mod_eq [of "unat ofs" s] by linarith
      then show ?thesis using fr1 False tE by (auto intro: same_outside_mono)
    qed (use fr1 in simp)
    show ?thesis
    proof (cases "r1 = 0")
      case r1: False
      have "do_update drv heap d ofs buf len = Some (d1, r1)"
        using False r1 by (simp add: do_update_def blk st)
      with r1 frame1 er1 show ?thesis by blast
    next
      case True
      have O: "unat op1 = unat ofs + p1" "unat op1 mod s = 0" "p1 \<le> unat len" "p1 < s"
        "mem d1 = memcpy_at (unat ofs) (take p1 buf) (mem d)"
        using ok1 [OF True] by - ((elim conjE)?, assumption)+
      have len1: "length (mem d1) = length (mem d)" using frame1 by (simp add: same_outside_def)
      have rest: "unat (ofs + len) - unat op1 = unat len - p1" using O t by linarith
      have "unat op1 \<le> unat (ofs + len)" "unat (ofs + len) \<le> length (mem d1)"
        "p1 + (unat (ofs + len) - unat op1) \<le> length buf"
        using O(1,3) t fits len1 buf rest by linarith+
      from update_rest_ok [OF ok s0 [unfolded s_def] O(2) [unfolded s_def] this, unfolded rest, unfolded t, folded s_def]
      obtain d2 r2 where rs: "update_rest drv (ofs + len) buf d1 op1 p1 = Some (d2, r2)"
        and fr2: "same_outside (unat op1) (?E - unat op1) (mem d1) (mem d2)" and er2: "errno_ret r2"
        and ok2: "r2 = 0 \<longrightarrow> mem d2 = memcpy_at (unat op1) (slice p1 (unat len - p1) buf) (mem d1)"
        by (elim exE conjE) (rule that)
      have "do_update drv heap d ofs buf len = Some (d2, r2)"
        using False True by (simp add: do_update_def blk st rs)
      moreover have "same_outside ?b (?E - ?b) (mem d) (mem d2)"
        by (rule same_outside_trans [OF frame1], rule same_outside_mono [OF fr2])
          (use O(1,3) bo tE in linarith)+
      moreover have "mem d2 = memcpy_at (unat ofs) (take (unat len) buf) (mem d)" if "r2 = 0"
      proof -
        have l: "length (take p1 buf) = p1" using O buf by simp
        have "mem d2 = memcpy_at (unat ofs + length (take p1 buf)) (slice p1 (unat len - p1) buf)
            (memcpy_at (unat ofs) (take p1 buf) (mem d))" using ok2 that O(1,5) l by simp
        also have "\<dots> = memcpy_at (unat ofs) (take p1 buf @ slice p1 (unat len - p1) buf) (mem d)"
          by (rule memcpy_at_append) (use l O(3) fits in linarith)
        also have "take p1 buf @ slice p1 (unat len - p1) buf = take (unat len) buf"
          using O(3) by (simp add: slice_def flip: take_add)
        finally show ?thesis .
      qed
      ultimately show ?thesis using fits \<open>heap\<close> er2 by blast
    qed
  qed
qed

lemma flash_works_read:
  "flash_works drv mem \<Longrightarrow> fd_read drv d a n = (d', ret, bs) \<Longrightarrow> unat a + unat n \<le> length (mem d)
    \<Longrightarrow> ret = 0"
  using flash_works_def [of drv mem] by (metis fst_conv snd_conv)

lemma slice_memcpy_at: "a + length w \<le> length m \<Longrightarrow> slice a (length w) (memcpy_at a w m) = w"
  by (simp add: slice_def memcpy_at_def)

lemma do_erase_write_verify_works:
  fixes drv :: "'d flash_driver"
  defines "s \<equiv> unat (fd_block drv)"
  assumes ok: "flash_driver_ok drv mem" and works: "flash_works drv mem"
    and al: "unat a mod s = 0" and fits: "unat a + s \<le> length (mem d)" and w: "length w = s"
    and run: "do_erase_write_verify drv d a w (fd_block drv) = (d', ret)"
  shows "ret = 0"
proof -
  obtain d1 r1 where e: "fd_erase drv d a (fd_block drv) = (d1, r1)" by fastforce
  obtain d2 r2 where wr: "fd_write drv d1 a w = (d2, r2)" by fastforce
  obtain d3 r3 rb where rd: "fd_read drv d2 a (fd_block drv) = (d3, r3, rb)" by (metis prod_cases3)
  have 1: "r1 = 0 \<and> mem d1 = memcpy_at (unat a) (replicate s 0xFF) (mem d)"
    using works [unfolded flash_works_def, THEN conjunct2, THEN conjunct1, THEN spec [of _ d],
        THEN spec [of _ a]] al fits e by (simp add: s_def)
  then have l1: "length (mem d1) = length (mem d)" and "slice (unat a) s (mem d1) = replicate s 0xFF"
    using fits slice_memcpy_at [of "unat a" "replicate s 0xFF" "mem d"] by simp_all
  then have 2: "r2 = 0 \<and> mem d2 = memcpy_at (unat a) w (mem d1)"
    using works [unfolded flash_works_def, THEN conjunct2, THEN conjunct2, THEN conjunct1,
        THEN spec [of _ d1], THEN spec [of _ a], THEN spec [of _ w]] fits wr w by simp
  with l1 w fits have l2: "length (mem d2) = length (mem d)" by simp
  have 3: "r3 = 0" by (rule flash_works_read [OF works rd]) (use l2 fits in \<open>simp add: s_def\<close>)
  have "rb = w"
    using flash_readD(4) [OF ok rd 3] slice_memcpy_at [of "unat a" w "mem d1"] 2 w l1 fits
    by (simp add: s_def)
  with 1 2 3 show "ret = 0" using run by (simp add: do_erase_write_verify_def e wr rd)
qed

lemma update_start_works:
  fixes drv :: "'d flash_driver"
  defines "s \<equiv> unat (fd_block drv)"
  assumes ok: "flash_driver_ok drv mem" and works: "flash_works drv mem" and s0: "0 < s"
    and fits: "unat ofs mod s \<noteq> 0 \<Longrightarrow> unat ofs div s * s + s \<le> length (mem d)"
    and run: "update_start drv d ofs buf len = Some (d', ret, op, ptr)"
  shows "ret = 0"
proof (cases "unat ofs mod s = 0")
  case True
  then have "ofs mod fd_block drv = 0" by (simp add: s_def word_unat_eq_iff unat_mod)
  then show ?thesis using run by (simp add: update_start_def Let_def)
next
  case False
  then have m: "ofs mod fd_block drv \<noteq> 0" by (simp add: s_def word_unat_eq_iff unat_mod)
  let ?op = "ofs div fd_block drv * fd_block drv"
  have op: "unat ?op = unat ofs div s * s" by (simp add: unat_sector_addr s_def)
  obtain d1 r1 ob where rd: "fd_read drv d ?op (fd_block drv) = (d1, r1, ob)" by (metis prod_cases3)
  have r1: "r1 = 0" by (rule flash_works_read [OF works rd]) (use fits [OF False] op in \<open>simp add: s_def\<close>)
  note rdD = flash_readD [OF ok rd, unfolded op, folded s_def]
  have lob: "length ob = s" using rdD(3, 4) [OF r1] by simp
  let ?rem = "unat (min (fd_block drv - ofs mod fd_block drv) len)"
  obtain d2 r2 where dw: "do_erase_write_verify drv d1 ?op
      (memcpy_at (unat (ofs mod fd_block drv)) (take ?rem buf) ob) (fd_block drv) = (d2, r2)" by fastforce
  have "\<not> (length buf < ?rem \<or> length ob < unat (ofs mod fd_block drv) + ?rem)"
    using run by (auto simp: update_start_def Let_def m rd r1)
  then have lw: "length (memcpy_at (unat (ofs mod fd_block drv)) (take ?rem buf) ob) = s"
    and run': "Some (d', ret, op, ptr) = Some (if r2 \<noteq> 0 then (d2, r2, ?op, 0)
      else (d2, 0, ?op + fd_block drv, ?rem))"
    using run dw lob by (auto simp: update_start_def Let_def m rd r1)
  have "r2 = 0"
    by (rule do_erase_write_verify_works [OF ok works _ _ _ dw])
      (use op fits [OF False] rdD(1) lw in \<open>simp_all add: s_def\<close>)
  with run' show ?thesis by simp
qed

lemma update_body_works:
  fixes drv :: "'d flash_driver"
  defines "s \<equiv> unat (fd_block drv)"
  assumes ok: "flash_driver_ok drv mem" and works: "flash_works drv mem" and s0: "0 < s"
    and "unat op + k * s = unat e" and "unat e \<le> length (mem d)" and "unat op mod s = 0"
    and "update_body drv e buf d op ptr upd = Some (d', ret, op', ptr')"
  shows "ret = 0"
  using assms(5-)
proof (induction k arbitrary: d op ptr upd)
  case 0
  then have "op = e" by (simp add: word_unat_eq_iff)
  with 0(4) show ?case by (subst (asm) update_body.simps) simp
next
  case (Suc k)
  from Suc.prems(1) s0 have lt: "op < e" by (simp add: word_less_nat_alt)
  have fits: "unat op + s \<le> length (mem d)" using Suc.prems(1,2) unfolding mult_Suc by linarith
  have ops: "unat (op + fd_block drv) = unat op + s"
  proof -
    have "unat op + s < 2 ^ LENGTH(32)" using Suc.prems(1) unat_u32_lt [of e] by (simp del: unat_u32_lt)
    then show ?thesis by (subst unat_plus_no_wrap) (simp_all add: s_def)
  qed
  obtain d1 r1 ob where rd: "fd_read drv d op (fd_block drv) = (d1, r1, ob)" by (metis prod_cases3)
  have r1: "r1 = 0" by (rule flash_works_read [OF works rd]) (use fits in \<open>simp add: s_def\<close>)
  note m1 = flash_readD(1) [OF ok rd]
  let ?data = "slice ptr s buf" and ?upd = "upd \<or> ob \<noteq> slice ptr s buf"
  obtain d2 r2 where st: "(if ?upd then do_erase_write_verify drv d1 op ?data (fd_block drv) else (d1, 0)) = (d2, r2)"
    by fastforce
  have eq: "update_body drv e buf d op ptr upd
      = (if length buf < ptr + s then None else if r2 \<noteq> 0 then Some (d2, r2, op, ptr)
         else update_body drv e buf d2 (op + fd_block drv) (ptr + s) ?upd)"
    by (subst update_body.simps) (simp add: lt rd r1 Let_def st flip: s_def)
  have buf: "ptr + s \<le> length buf" using Suc.prems(4) unfolding eq by (simp split: if_splits)
  have ld: "length ?data = unat (fd_block drv)" "length ?data = s" using buf by (simp_all add: s_def)
  have r2: "r2 = 0 \<and> length (mem d2) = length (mem d)"
  proof (cases ?upd)
    case True
    then have dw: "do_erase_write_verify drv d1 op ?data (fd_block drv) = (d2, r2)" using st by simp
    have "r2 = 0"
      by (rule do_erase_write_verify_works [OF ok works _ _ _ dw])
        (use Suc.prems(3) fits m1 ld in \<open>simp_all add: s_def\<close>)
    with do_erase_write_verify_ok(1) [OF ok ld(1) dw] m1 show ?thesis by (simp add: same_outside_def)
  qed (use st m1 in auto)
  show ?case
  proof (rule Suc.IH)
    show "update_body drv e buf d2 (op + fd_block drv) (ptr + s) ?upd = Some (d', ret, op', ptr')"
      using Suc.prems(4) r2 buf unfolding eq by simp
    show "unat (op + fd_block drv) mod s = 0" using Suc.prems(3) by (simp add: ops)
    show "unat (op + fd_block drv) + k * s = unat e" using Suc.prems(1) unfolding ops mult_Suc by linarith
  qed (use Suc.prems(2) r2 in simp)
qed

lemma sector_end_le:
  assumes "0 < s" and "t \<le> m" and "m mod s = 0"
  shows "sector_end s t \<le> m"
proof -
  obtain q where q: "m = q * s" using assms(3) by (metis mod_0_imp_dvd dvd_div_mult_self)
  have "(t + s - 1) div s \<le> (s - 1 + q * s) div s" using assms(1,2) q by (intro div_le_mono) simp
  also have "\<dots> = q" using assms(1) by (subst div_mult_self1) simp_all
  finally show ?thesis unfolding sector_end_def q by (rule mult_le_mono1)
qed

lemma update_rest_works:
  fixes drv :: "'d flash_driver" and e :: u32
  defines "s \<equiv> unat (fd_block drv)"
  assumes ok: "flash_driver_ok drv mem" and works: "flash_works drv mem" and s0: "0 < s"
    and op: "unat op mod s = 0" "unat op \<le> unat e" and fits: "sector_end s (unat e) \<le> length (mem d)"
    and buf: "ptr + (unat e - unat op) \<le> length buf"
    and run: "update_rest drv e buf d op ptr = Some (d', ret)"
  shows "ret = 0"
proof -
  let ?e = "e div fd_block drv * fd_block drv"
  have es: "unat ?e = unat e div s * s" by (simp add: unat_sector_addr s_def)
  have te: "unat e div s * s + unat e mod s = unat e" by simp
  have eE: "unat e \<le> sector_end s (unat e)" by (rule sector_end_ge [OF s0])
  obtain k where k: "unat op + k * s = unat e div s * s" by (rule update_loop_count [OF s0 op])
  have ks: "unat op + k * unat (fd_block drv) = unat ?e" "ptr + k * unat (fd_block drv) \<le> length buf"
    using k es te buf unfolding s_def by linarith+
  from update_body_ok [OF ok s0 [unfolded s_def] ks, of d False]
  obtain d2 r2 op2 p2 where bd: "update_body drv ?e buf d op ptr False = Some (d2, r2, op2, p2)"
    and fr2: "same_outside (unat op) (k * s) (mem d) (mem d2)"
    and ok2: "r2 = 0 \<longrightarrow> op2 = ?e \<and> p2 = ptr + k * s"
    unfolding s_def by blast
  have r2: "r2 = 0"
  proof (rule update_body_works [OF ok works s0 [unfolded s_def] ks(1) _ op(1) [unfolded s_def] bd])
    show "unat ?e \<le> length (mem d)" using es te eE fits by linarith
  qed
  then have op2: "op2 = ?e" "p2 = ptr + k * s" using ok2 by blast+
  show ?thesis
  proof (cases "?e < e")
    case False
    then show ?thesis using run r2 by (simp add: update_rest_def Let_def bd)
  next
    case lt: True
    have r: "unat (e - ?e) = unat e mod s"
    proof -
      have "unat (e - ?e) = unat e - unat ?e" by (rule unat_sub) (use lt in simp)
      then show ?thesis using te es by linarith
    qed
    have un: "unat e mod s \<noteq> 0" using lt te es unfolding word_less_nat_alt by linarith
    have at: "unat ?e + s \<le> length (mem d2)"
      using sector_end_partial [OF s0 un] fits es fr2 by (simp add: same_outside_def)
    obtain d3 r3 ob where rd: "fd_read drv d2 ?e (fd_block drv) = (d3, r3, ob)" by (metis prod_cases3)
    have r3: "r3 = 0" by (rule flash_works_read [OF works rd]) (use at in \<open>simp add: s_def\<close>)
    note rdD = flash_readD [OF ok rd]
    let ?w = "memcpy_at 0 (slice p2 (unat (e - ?e)) buf) ob"
    have lob: "length ob = s" using rdD(3,4) [OF r3] by (simp add: s_def)
    have le: "unat (e - ?e) \<le> s" unfolding r using s0 by simp
    have "p2 + unat (e - ?e) \<le> length buf" unfolding op2 r using k te buf by linarith
    then have "length ?w = s" and rm: "update_remain drv d2 buf ?e p2 (e - ?e)
        = Some (do_erase_write_verify drv d3 ?e ?w (fd_block drv))"
      using lob le by (simp_all add: update_remain_def rd r3)
    with run r2 lt have dw: "do_erase_write_verify drv d3 ?e ?w (fd_block drv) = (d', ret)"
      by (simp add: update_rest_def Let_def bd op2)
    show ?thesis
      by (rule do_erase_write_verify_works [OF ok works _ _ _ dw])
        (use \<open>length ?w = s\<close> at es rdD(1) in \<open>simp_all add: s_def\<close>)
  qed
qed

lemma do_update_works:
  fixes drv :: "'d flash_driver"
  defines "s \<equiv> unat (fd_block drv)"
  assumes ok: "flash_driver_ok drv mem" and works: "flash_works drv mem"
    and sz: "length (mem d) = unat (fd_size drv)" "length (mem d) mod s = 0"
    and s0: "0 < s" and buf: "unat len \<le> length buf" and fits: "unat ofs + unat len \<le> length (mem d)"
    and reach: "unat ofs mod s = 0 \<or> s \<le> unat ofs mod s + unat len"
    and run: "do_update drv True d ofs buf len = Some (d', ret)"
  shows "ret = 0"
proof -
  let ?t = "unat ofs + unat len"
  have nowrap: "?t < 2 ^ LENGTH(32)" using fits sz(1) unat_u32_lt [of "fd_size drv"] by (simp del: unat_u32_lt)
  have t: "unat (ofs + len) = ?t" using nowrap by (simp add: unat_plus_no_wrap)
  have "\<not> fd_size drv < ofs + len" "fd_block drv \<noteq> 0"
    using fits sz(1) t s0 by (auto simp: word_less_nat_alt s_def)
  note go = this
  obtain d1 r1 op1 p1 where st: "update_start drv d ofs buf len = Some (d1, r1, op1, p1)"
    and fr1: "if unat ofs mod s = 0 then d1 = d else same_outside (unat ofs div s * s) s (mem d) (mem d1)"
    and ok1: "r1 = 0 \<Longrightarrow> unat op1 = unat ofs + p1 \<and> unat op1 mod s = 0 \<and> p1 \<le> unat len \<and> p1 < s
      \<and> mem d1 = memcpy_at (unat ofs) (take p1 buf) (mem d)"
    by (rule update_start_ok [OF ok sz(1) s0 [unfolded s_def] buf reach [unfolded s_def], folded s_def])
      (erule that, assumption, blast)
  have l1: "length (mem d1) = length (mem d)" using fr1 by (auto simp: same_outside_def split: if_splits)
  have r1: "r1 = 0"
  proof (rule update_start_works [OF ok works s0 [unfolded s_def] _ st])
    assume "unat ofs mod unat (fd_block drv) \<noteq> 0"
    then have "unat ofs div s * s + s \<le> ?t"
      using reach div_mult_mod_eq [of "unat ofs" s] unfolding s_def by linarith
    then show "unat ofs div unat (fd_block drv) * unat (fd_block drv) + unat (fd_block drv) \<le> length (mem d)"
      using fits unfolding s_def by linarith
  qed
  have O: "unat op1 = unat ofs + p1" "unat op1 mod s = 0" "p1 \<le> unat len"
    using ok1 [OF r1] by - ((elim conjE)?, assumption)+
  have rs: "update_rest drv (ofs + len) buf d1 op1 p1 = Some (d', ret)"
    using run go r1 by (simp add: do_update_def st)
  have "sector_end s ?t \<le> length (mem d1)" unfolding l1 by (rule sector_end_le [OF s0 fits sz(2)])
  then show ?thesis
    by (intro update_rest_works [OF ok works s0 [unfolded s_def] _ _ _ _ rs])
      (use O t buf in \<open>simp_all add: s_def\<close>)
qed

lemma nor_flash_sel [simp]: "fd_size (nor_flash sz blk) = sz" "fd_block (nor_flash sz blk) = blk"
  by (simp_all add: nor_flash_def)

lemma map2_and_ones: "map2 (AND) (replicate (length bs) (0xFF :: u8)) bs = bs"
proof (induction bs)
  case (Cons b bs)
  have "(0xFF :: u8) = - 1" by simp
  then have "0xFF AND b = b" by (simp only: and.left_neutral)
  with Cons show ?case by simp
qed simp

lemma nor_flash_ok: "flash_driver_ok (nor_flash sz blk) (\<lambda>d. d)"
proof -
  have "same_outside a n d (memcpy_at a (replicate n 0xFF) d)" if "a + n \<le> length d" for a n d
    using same_outside_memcpy_at [of a "replicate n 0xFF" d] that by simp
  moreover have "same_outside a (length bs) d (memcpy_at a (map2 (AND) (slice a (length bs) d) bs) d)"
    if "a + length bs \<le> length d" for a bs d
    using same_outside_memcpy_at [of a "map2 (AND) (slice a (length bs) d) bs" d] that
    by (simp add: min_absorb1)
  moreover have "EINVAL \<noteq> 0" by (simp add: EINVAL_def)
  ultimately show ?thesis by (simp add: flash_driver_ok_def nor_flash_def)
qed

lemma nor_flash_works: "flash_works (nor_flash sz blk) (\<lambda>d. d)"
  by (simp add: flash_works_def nor_flash_def map2_and_ones)

lemma unat_ucast_32_64: "unat (ucast (x :: u32) :: u64) = unat x"
  using order.strict_trans2 [OF unat_u32_lt [of x], of "2 ^ 64"]
  by (simp add: unsigned_ucast_eq take_bit_nat_eq_self)

lemma erase_progress_lt:
  fixes off size :: u32
  assumes "off < size"
  shows "(ucast (ucast off * 100 div (ucast size :: u64)) :: u8) < 100"
proof -
  have lt: "unat off < unat size" using assms by (simp add: word_less_nat_alt)
  have "unat (ucast off :: u64) * unat (100 :: u64) < 2 ^ LENGTH(64)"
    using unat_u32_lt [of off] by (simp add: unat_ucast_32_64 del: unat_u32_lt)
  then have "unat (ucast off * 100 :: u64) = unat off * 100"
    by (simp only: unat_word_ariths(2) mod_less unat_ucast_32_64) simp
  then have "unat (ucast off * 100 div (ucast size :: u64)) = unat off * 100 div unat size"
    by (simp only: unat_div unat_ucast_32_64)
  moreover have "unat off * 100 div unat size < 100" using lt by (simp add: less_mult_imp_div_less)
  ultimately show ?thesis
    by (simp add: word_less_nat_alt unsigned_ucast_eq take_bit_nat_eq_self)
qed

lemma erase_loop_returns:
  assumes s0: "0 < unat (fd_block drv)" and p: "p < 100"
    and nowrap: "unat (fd_size drv) + unat (fd_block drv) < 2 ^ 32"
  shows "\<exists>d' p' rc. erase_loop drv d p off = Some (d', p', rc) \<and> (rc = 0 \<longleftrightarrow> p' = 100)"
  using p
proof (induction "unat (fd_size drv) - unat off" arbitrary: d p off rule: less_induct)
  case less
  show ?case
  proof (cases "off < fd_size drv")
    case False
    then show ?thesis by (subst erase_loop.simps) simp
  next
    case True
    obtain d1 rc where e: "fd_erase drv d off (fd_block drv) = (d1, rc)" by fastforce
    show ?thesis
    proof (cases "rc = 0")
      case False
      then show ?thesis using less.prems by (subst erase_loop.simps) (auto simp: True e)
    next
      case rc: True
      have "unat (off + fd_block drv) = unat off + unat (fd_block drv)"
        by (rule unat_plus_no_wrap) (use True nowrap in \<open>simp add: word_less_nat_alt\<close>)
      then have lt: "unat (fd_size drv) - unat (off + fd_block drv) < unat (fd_size drv) - unat off"
        using True s0 unfolding word_less_nat_alt by linarith
      from less.hyps [OF lt, of "if off mod 0x100000 = 0
          then ucast (ucast off * 100 div (ucast (fd_size drv) :: u64)) else p" d1]
      show ?thesis using less.prems erase_progress_lt [OF True]
        by (subst erase_loop.simps) (simp add: True e rc split: if_splits)
    qed
  qed
qed

lemma erase_loop_works:
  fixes drv :: "'d flash_driver"
  defines "s \<equiv> unat (fd_block drv)"
  assumes ok: "flash_driver_ok drv mem" and works: "flash_works drv mem" and s0: "0 < s"
    and "length (mem d) = unat (fd_size drv)" and "unat off + k * s = unat (fd_size drv)"
    and "unat off mod s = 0"
    and "erase_loop drv d p off = Some (d', p', rc)"
  shows "rc = 0 \<and> mem d' = take (unat off) (mem d) @ replicate (k * s) 0xFF"
  using assms(5-)
proof (induction k arbitrary: d off p)
  case 0
  then have "\<not> off < fd_size drv" by (simp add: word_less_nat_alt)
  then have "erase_loop drv d p off = Some (d, 100, 0)" by (subst erase_loop.simps) simp
  with 0 show ?case by simp
next
  case (Suc k)
  have lt: "off < fd_size drv" using Suc.prems(2) s0 by (simp add: word_less_nat_alt)
  obtain d1 rc1 where e: "fd_erase drv d off (fd_block drv) = (d1, rc1)" by fastforce
  have fits: "unat off + s \<le> length (mem d)" using Suc.prems(1,2) unfolding mult_Suc by linarith
  have 1: "rc1 = 0 \<and> mem d1 = memcpy_at (unat off) (replicate s 0xFF) (mem d)"
    using works [unfolded flash_works_def, THEN conjunct2, THEN conjunct1, THEN spec [of _ d],
        THEN spec [of _ off]] Suc.prems(3) fits e by (simp add: s_def)
  have ops: "unat (off + fd_block drv) = unat off + s"
  proof -
    have "unat off + s < 2 ^ LENGTH(32)"
      using fits Suc.prems(1) unat_u32_lt [of "fd_size drv"] by (simp del: unat_u32_lt)
    then show ?thesis by (subst unat_plus_no_wrap) (simp_all add: s_def)
  qed
  have "rc = 0 \<and> mem d' = take (unat (off + fd_block drv)) (mem d1) @ replicate (k * s) 0xFF"
  proof (rule Suc.IH)
    show "length (mem d1) = unat (fd_size drv)" using 1 fits Suc.prems(1) by simp
    show "unat (off + fd_block drv) + k * s = unat (fd_size drv)"
      using Suc.prems(2) unfolding ops mult_Suc by linarith
    show "unat (off + fd_block drv) mod s = 0" using Suc.prems(3) by (simp add: ops)
    show "erase_loop drv d1 (if off mod 0x100000 = 0
          then ucast (ucast off * 100 div (ucast (fd_size drv) :: u64)) else p) (off + fd_block drv)
        = Some (d', p', rc)"
      using Suc.prems(4) 1 by (subst (asm) erase_loop.simps) (simp add: lt e)
  qed
  moreover have "take (unat (off + fd_block drv)) (mem d1) = take (unat off) (mem d) @ replicate s 0xFF"
    using 1 take_memcpy_at [of "unat off" "mem d" "replicate s 0xFF"] fits by (simp add: ops)
  ultimately show ?case by (simp add: replicate_add)
qed

lemma replicate_small: "xs = replicate 0 x @ replicate n x \<Longrightarrow> xs = replicate n x" by simp

text \<open>
  (C8) Whatever the flash driver does, \<^verbatim>\<open>do_update\<close> returns, changes no sector that its range does not
  touch, and when it returns 0 the flash holds exactly the buffer at the offset and its old contents
  everywhere else; with a driver that works it returns 0. This holds for ranges that start at a
  sector boundary or reach the end of their first sector.
\<close>

theorem do_update_writes:
  fixes drv :: "'d flash_driver" and ofs len :: u32
  defines "s \<equiv> unat (fd_block drv)"
  assumes "flash_driver_ok drv mem" and "length (mem d) = unat (fd_size drv)" and "0 < s"
    and "unat len \<le> length buf" and "unat ofs + unat len < 2 ^ 32"
    and "unat ofs mod s = 0 \<or> s \<le> unat ofs mod s + unat len"
  shows "\<exists>d' ret. do_update drv heap d ofs buf len = Some (d', ret)
    \<and> same_outside (unat ofs div s * s) (sector_end s (unat ofs + unat len) - unat ofs div s * s) (mem d) (mem d')
    \<and> (ret = 0 \<longrightarrow> unat ofs + unat len \<le> length (mem d)
         \<and> mem d' = memcpy_at (unat ofs) (take (unat len) buf) (mem d))
    \<and> (flash_works drv mem \<longrightarrow> heap \<longrightarrow> length (mem d) mod s = 0 \<longrightarrow> unat ofs + unat len \<le> length (mem d)
         \<longrightarrow> ret = 0)"
proof -
  note pre = assms(2,3) assms(4) [unfolded s_def] assms(5)
  obtain d' ret where run: "do_update drv heap d ofs buf len = Some (d', ret)"
    and fr: "same_outside (unat ofs div s * s) (sector_end s (unat ofs + unat len) - unat ofs div s * s) (mem d) (mem d')"
    and res: "ret = 0 \<longrightarrow> unat ofs + unat len \<le> length (mem d)
         \<and> mem d' = memcpy_at (unat ofs) (take (unat len) buf) (mem d)"
    using do_update_ok [OF pre assms(6) assms(7) [unfolded s_def], of heap] unfolding s_def by blast
  have "ret = 0" if "flash_works drv mem" "heap" "length (mem d) mod s = 0" "unat ofs + unat len \<le> length (mem d)"
    by (rule do_update_works [OF assms(2) that(1) assms(3) that(3) [unfolded s_def] pre(3,4) that(4)
          assms(7) [unfolded s_def]]) (use run that(2) in simp)
  then show ?thesis
    by (intro exI [of _ d'] exI [of _ ret]) (use run fr res in simp)
qed

theorem do_update_writes_witness:
  "\<exists>d' ret. do_update (nor_flash 8 4) True (replicate 8 0) 3 [1, 2] 2 = Some (d', ret)
     \<and> same_outside 0 8 (replicate 8 0) d' \<and> d' = [0, 0, 0, 1, 2, 0, 0, 0] \<and> ret = 0"
proof -
  have "sector_end 4 5 = 8" by (simp add: sector_end_def)
  moreover have "memcpy_at 3 (take 2 [1, 2]) (replicate 8 (0 :: u8)) = [0, 0, 0, 1, 2, 0, 0, 0]"
    by (simp add: memcpy_at_def numeral_eq_Suc)
  ultimately show ?thesis
    using do_update_writes [OF nor_flash_ok [of 8 4], of "replicate 8 0" 2 "[1, 2]" 3 True]
      nor_flash_works [of 8 4] by auto
qed

text \<open>
  (C39) A range strictly inside of one sector that does not start at its beginning is written, and then the
  code for the remaining part also rewrites the beginning of the following sector with the bytes
  that lie behind the range in the buffer. \<^verbatim>\<open>do_update\<close> returns 0.
\<close>

theorem do_update_short_range:
  fixes drv :: "'d flash_driver" and ofs len :: u32
  defines "s \<equiv> unat (fd_block drv)"
  assumes ok: "flash_driver_ok drv mem" and works: "flash_works drv mem"
    and sz: "length (mem d) = unat (fd_size drv)" "length (mem d) mod s = 0"
    and short: "unat ofs mod s \<noteq> 0" "unat ofs mod s + unat len < s"
    and fits: "unat ofs div s * s + 2 * s \<le> length (mem d)"
    and buf: "unat ofs mod s + 2 * unat len \<le> length buf"
  shows "\<exists>d'. do_update drv True d ofs buf len = Some (d', 0)
    \<and> mem d' = memcpy_at (unat ofs div s * s + s) (slice (unat len) (unat ofs mod s + unat len) buf)
        (memcpy_at (unat ofs) (take (unat len) buf) (mem d))"
proof -
  let ?b = "unat ofs div s * s" and ?m = "unat ofs mod s" and ?l = "unat len"
  have s0: "0 < s" using short(2) by linarith
  have bm: "?b + ?m = unat ofs" by simp
  have "unat ofs + ?l < 4294967296"
    using bm short(2) fits sz(1) unat_u32_lt [of "fd_size drv"] by linarith
  then have nw: "unat ofs + ?l < 2 ^ LENGTH(32)" by simp
  have t: "unat (ofs + len) = unat ofs + ?l" using nw by (rule unat_plus_no_wrap)
  have dv: "(unat ofs + ?l) div s * s = ?b"
  proof -
    have "unat ofs + ?l = (?m + ?l) + unat ofs div s * s" using bm by linarith
    then have "(unat ofs + ?l) div s = ((?m + ?l) + unat ofs div s * s) div s" by presburger
    also have "\<dots> = unat ofs div s + (?m + ?l) div s" by (rule div_mult_self1) (use s0 in simp)
    finally show ?thesis using short(2) by simp
  qed
  have bl: "?l \<le> length buf" using buf by linarith
  obtain d1 r1 op1 p1 where st: "update_start drv d ofs buf len = Some (d1, r1, op1, p1)"
    and fr: "if ?m = 0 then d1 = d else same_outside ?b s (mem d) (mem d1)"
    and g: "r1 = 0 \<Longrightarrow> unat op1 = (if ?m = 0 then unat ofs else ?b + s)
      \<and> p1 = (if ?m = 0 then 0 else min (s - ?m) ?l) \<and> mem d1 = memcpy_at (unat ofs) (take p1 buf) (mem d)"
    by (rule update_start_gen [OF ok sz(1) s0 [unfolded s_def] bl, folded s_def])
      (erule that, assumption, blast)
  have r1: "r1 = 0"
    by (rule update_start_works [OF ok works s0 [unfolded s_def] _ st]) (use fits in \<open>simp add: s_def\<close>)
  have P: "unat op1 = ?b + s" "p1 = ?l" "mem d1 = memcpy_at (unat ofs) (take ?l buf) (mem d)"
    using g [OF r1] short by auto
  have l1: "length (mem d1) = length (mem d)" using fr short(1) by (simp add: same_outside_def)
  let ?e = "(ofs + len) div fd_block drv * fd_block drv"
  have e: "unat ?e = ?b" by (simp add: unat_sector_addr t dv flip: s_def)
  have "update_body drv ?e buf d1 op1 p1 False = Some (d1, 0, op1, p1)"
    by (subst update_body.simps) (simp add: word_less_nat_alt e P(1))
  moreover have lt: "?e < ofs + len" using short bm t e unfolding word_less_nat_alt by linarith
  moreover have r: "unat (ofs + len - ?e) = ?m + ?l"
  proof -
    have "unat (ofs + len - ?e) = unat (ofs + len) - unat ?e" by (rule unat_sub) (use lt in simp)
    then show ?thesis using t e bm by linarith
  qed
  ultimately have rest: "update_rest drv (ofs + len) buf d1 op1 p1
      = update_remain drv d1 buf op1 p1 (ofs + len - ?e)"
    by (simp add: update_rest_def Let_def)
  have "p1 + unat (ofs + len - ?e) \<le> length buf" "unat (ofs + len - ?e) \<le> unat (fd_block drv)"
    using P(2) r buf short(2) by (simp_all add: s_def)
  from update_remain_ok [OF ok this, of d1 op1]
  obtain d2 r2 where rm: "update_remain drv d1 buf op1 p1 (ofs + len - ?e) = Some (d2, r2)"
    and m2: "r2 = 0 \<longrightarrow> mem d2 = memcpy_at (?b + s) (slice ?l (?m + ?l) buf) (mem d1)"
    unfolding r P(1,2) by blast
  have "r2 = 0"
  proof -
    obtain d3 r3 ob where rd: "fd_read drv d1 op1 (fd_block drv) = (d3, r3, ob)" by (metis prod_cases3)
    have r3: "r3 = 0"
      by (rule flash_works_read [OF works rd]) (use fits l1 P(1) in \<open>simp add: s_def\<close>)
    note rdD = flash_readD [OF ok rd]
    have lob: "length ob = s" using rdD(3,4) [OF r3] by (simp add: s_def)
    let ?w = "memcpy_at 0 (slice p1 (?m + ?l) buf) ob"
    have lw: "length ?w = unat (fd_block drv)" using lob short(2) by (simp add: s_def)
    have "do_erase_write_verify drv d3 op1 ?w (fd_block drv) = (d2, r2)"
      using rm r3 by (auto simp: update_remain_def rd r split: if_splits)
    from do_erase_write_verify_works [OF ok works _ _ lw this]
    show ?thesis using P(1) fits l1 rdD(1) by (simp flip: s_def)
  qed
  moreover have "do_update drv True d ofs buf len = Some (d2, r2)"
  proof -
    have "\<not> fd_size drv < ofs + len" using t sz(1) fits bm short(2) unfolding word_less_nat_alt by linarith
    moreover have "fd_block drv \<noteq> 0" using s0 by (auto simp: s_def)
    ultimately show ?thesis using r1 by (simp add: do_update_def st rest rm)
  qed
  ultimately show ?thesis using m2 P(3) by simp
qed

theorem do_update_short_range_witness:
  "\<exists>d'. do_update (nor_flash 8 4) True (replicate 8 0) 1 [1, 2, 3, 4, 5] 2 = Some (d', 0)
    \<and> d' = [0, 1, 2, 0, 3, 4, 5, 0]"
proof -
  have "memcpy_at 4 (slice 2 (Suc (Suc (Suc 0))) [1, 2, 3, 4, 5]) (memcpy_at (Suc 0) [1, 2] (replicate 8 (0 :: u8)))
      = [0, 1, 2, 0, 3, 4, 5, 0]"
    by (simp add: memcpy_at_def slice_def numeral_eq_Suc)
  then show ?thesis
    using do_update_short_range [OF nor_flash_ok [of 8 4] nor_flash_works [of 8 4],
        of "replicate 8 0" 1 2 "[1, 2, 3, 4, 5]"] by auto
qed

end
