(* ===== verification/Spi_Image.thy ===== *)
theory Spi_Image
  imports Spi_Flash
begin

text \<open>
  What \<^verbatim>\<open>fw_update\<close> of \<^verbatim>\<open>common/lib/util_spi.c\<close> does with the packets of an image, and the erasing of a
  whole flash. \<^verbatim>\<open>su_stream mem M0 D s\<close> relates the state to the bytes \<^verbatim>\<open>D\<close> received so far: the flash
  holds their full 64 KiB blocks on top of its first contents \<^verbatim>\<open>M0\<close>, the buffer the rest.
\<close>

subsection \<open>Reference definitions and examples\<close>

text \<open>The environment of an update: the device at the position, and blocks of 64 KiB from the heap.\<close>

definition spi_env_ok ::
  "(u8 \<Rightarrow> 'd flash_driver option) \<Rightarrow> u8 \<Rightarrow> 'd flash_driver \<Rightarrow> ('d \<Rightarrow> bytes) \<Rightarrow> bytes \<Rightarrow> bool" where
  "spi_env_ok devs pos drv mem M0 \<longleftrightarrow>
     devs pos = Some drv \<and> flash_driver_ok drv mem \<and> length M0 = unat (fd_size drv) \<and>
     0 < unat (fd_block drv) \<and> 65536 mod unat (fd_block drv) = 0"

definition block_ok :: "bytes option \<Rightarrow> bool" where
  "block_ok a \<longleftrightarrow> (case a of None \<Rightarrow> True | Some b \<Rightarrow> length b = 65536)"

definition su_stream :: "('d \<Rightarrow> bytes) \<Rightarrow> bytes \<Rightarrow> bytes \<Rightarrow> 'd spi_upd \<Rightarrow> bool" where
  "su_stream mem M0 D s \<longleftrightarrow>
     (let b = length D div 65536 * 65536; n = length D mod 65536 in
      mem (su_dev s) = memcpy_at 0 (take b D) M0 \<and>
      (if n = 0 then D = [] \<or> \<not> su_is_init s
       else su_is_init s \<and> unat (su_start_offset s) = b \<and> unat (su_buf_offset s) = n \<and>
         (case su_txbuf s of None \<Rightarrow> False | Some t \<Rightarrow> length t = 65536 \<and> take n t = drop b D)))"

definition spi_example :: "bytes spi_upd" where
  "spi_example = \<lparr>su_is_init = True, su_txbuf = Some (replicate 65536 0), su_start_offset = 0,
     su_buf_offset = 0x100, su_retry = 1, su_default_retry = 1, su_isinit = [True], su_dev = [], su_resets = 0\<rparr>"

section \<open>Properties\<close>

lemma set_address_mode_mem:
  assumes "flash_driver_ok drv mem"
  shows "mem (set_address_mode drv d) = mem d"
proof -
  have "mem (fst (fd_jedec_id drv x)) = mem x" "mem (fd_4byte_mode drv x) = mem x" for x
    using assms by (simp_all add: flash_driver_ok_def)
  then show ?thesis by (auto simp: set_address_mode_def split: prod.splits) (metis fst_conv)+
qed

lemma ckeck_flash_device_isinit_ok:
  assumes "flash_driver_ok drv mem" and "ckeck_flash_device_isinit drv pos s = (s', rc)"
  shows "mem (su_dev s') = mem (su_dev s)" and "errno_ret rc"
    and "su_start_offset s' = su_start_offset s" and "su_buf_offset s' = su_buf_offset s"
    and "length (su_isinit s') = length (su_isinit s)" and "flash_works drv mem \<Longrightarrow> rc = 0"
proof -
  obtain d r where i: "fd_re_init drv (su_dev s) = (d, r)" by fastforce
  have "mem (fst (fd_re_init drv (su_dev s))) = mem (su_dev s) \<and> errno_ret (snd (fd_re_init drv (su_dev s)))"
    using assms(1) by (simp add: flash_driver_ok_def)
  with i have m: "mem d = mem (su_dev s)" "errno_ret r" by simp_all
  show "mem (su_dev s') = mem (su_dev s)" "errno_ret rc" "su_start_offset s' = su_start_offset s"
    "su_buf_offset s' = su_buf_offset s" "length (su_isinit s') = length (su_isinit s)"
    using assms(2) i m by (auto simp: ckeck_flash_device_isinit_def split: if_splits)
  assume "flash_works drv mem"
  then have "snd (fd_re_init drv (su_dev s)) = 0" by (simp add: flash_works_def)
  then show "rc = 0" using assms(2) i by (auto simp: ckeck_flash_device_isinit_def split: if_splits)
qed

lemma dvd_mult_mod_0: "(65536 :: nat) mod s = 0 \<Longrightarrow> q * 65536 mod s = 0"
  by (metis mod_mult_right_eq mult_0_right mod_0)

lemma fw_update_flush_ok:
  assumes env: "spi_env_ok devs pos drv mem M0" and mem: "length (mem (su_dev s)) = length M0"
    and b: "unat (su_start_offset s) = q * 65536" and n: "unat (su_buf_offset s) \<le> length t"
    and fits: "unat (su_start_offset s) + unat (su_buf_offset s) \<le> length M0"
  shows "\<exists>s' r. fw_update_flush devs heap t flg pos s = Some (s', r)
    \<and> length (su_isinit s') = length (su_isinit s) \<and> \<not> su_is_init s'
    \<and> (r = 0 \<longrightarrow> mem (su_dev s')
         = memcpy_at (unat (su_start_offset s)) (take (unat (su_buf_offset s)) t) (mem (su_dev s)))
    \<and> (flash_works drv mem \<longrightarrow> heap \<longrightarrow> length M0 mod unat (fd_block drv) = 0 \<longrightarrow> r = 0)"
proof -
  have E: "devs pos = Some drv" "flash_driver_ok drv mem" "length M0 = unat (fd_size drv)"
    "0 < unat (fd_block drv)" "65536 mod unat (fd_block drv) = 0"
    using env by (simp_all add: spi_env_ok_def)
  obtain s1 rc where ini: "ckeck_flash_device_isinit drv pos s = (s1, rc)" by fastforce
  note I = ckeck_flash_device_isinit_ok [OF E(2) ini]
  show ?thesis
  proof (cases "rc = 0")
    case False
    then have "fw_update_flush devs heap t flg pos s
        = Some (s1\<lparr>su_txbuf := None, su_is_init := False\<rparr>, word_of_int rc)"
      by (simp add: fw_update_flush_def E(1) ini)
    with False I errno_ret_u8 [OF I(2)] show ?thesis by auto
  next
    case True
    define d where "d = (if su_start_offset s = 0 then set_address_mode drv (su_dev s1) else su_dev s1)"
    have md: "mem d = mem (su_dev s)" by (simp add: d_def set_address_mode_mem [OF E(2)] I(1))
    have sz: "length (mem d) = unat (fd_size drv)" by (simp add: md mem E(3))
    have al: "unat (su_start_offset s) mod unat (fd_block drv) = 0
        \<or> unat (fd_block drv) \<le> unat (su_start_offset s) mod unat (fd_block drv) + unat (su_buf_offset s)"
      using dvd_mult_mod_0 [OF E(5)] b by simp
    have nw: "unat (su_start_offset s) + unat (su_buf_offset s) < 2 ^ 32"
      using fits E(3) unat_u32_lt [of "fd_size drv"] by (simp del: unat_u32_lt)
    from do_update_ok [OF E(2) sz E(4) n nw al, of heap]
    obtain d' ret where run: "do_update drv heap d (su_start_offset s) t (su_buf_offset s) = Some (d', ret)"
      and er: "errno_ret ret" and res: "ret = 0 \<longrightarrow> mem d'
        = memcpy_at (unat (su_start_offset s)) (take (unat (su_buf_offset s)) t) (mem d)"
      by blast
    have "flash_works drv mem \<longrightarrow> heap \<longrightarrow> length M0 mod unat (fd_block drv) = 0 \<longrightarrow> ret = 0"
      by (intro impI, rule do_update_works [OF E(2) _ sz _ E(4) n _ al]) (use run fits sz E(3) in simp_all)
    moreover have "\<exists>s2. fw_update_flush devs heap t flg pos s = Some (s2, word_of_int ret)
        \<and> su_dev s2 = d' \<and> \<not> su_is_init s2 \<and> length (su_isinit s2) = length (su_isinit s)"
      using True I(3-5) run by (simp add: fw_update_flush_def E(1) ini Let_def d_def)
    ultimately show ?thesis using res md errno_ret_u8 [OF er] by metis
  qed
qed

lemma fw_update_store_ok:
  assumes env: "spi_env_ok devs pos drv mem M0" and pos: "unat pos < length (su_isinit s)"
    and D: "length D = q * 65536 + n" "n + length c \<le> 65536" "0 < length c" "n < 65536"
    and fits: "length D + length c \<le> length M0"
    and mem: "mem (su_dev s) = memcpy_at 0 (take (q * 65536) D) M0"
    and b: "unat (su_start_offset s) = q * 65536" and nb: "unat (su_buf_offset s) = n"
    and ini: "su_is_init s"
    and t: "su_txbuf s = Some t" "length t = 65536" "take n t = drop (q * 65536) D"
  shows "\<exists>s' r. fw_update_store devs heap c flg pos s = Some (s', r)
    \<and> length (su_isinit s') = length (su_isinit s)
    \<and> (r = 0 \<longrightarrow> (if flg AND SECTOR_END_FLAG = 0 then su_stream mem M0 (D @ c) s'
         else mem (su_dev s') = memcpy_at 0 (D @ c) M0 \<and> \<not> su_is_init s'))
    \<and> (flash_works drv mem \<longrightarrow> heap \<longrightarrow> length M0 mod unat (fd_block drv) = 0 \<longrightarrow> r = 0)"
proof -
  let ?b = "su_buf_offset s + of_nat (length c)"
  have lc: "unat (of_nat (length c) :: u32) = length c"
    by (rule unat_of_nat_lt) (use D(2) in simp)
  have ub: "unat ?b = n + length c" using D(2) by (subst unat_plus_no_wrap) (simp_all add: nb lc)
  have nover: "\<not> SECTOR_SZ_64K < ?b" using D(2) by (simp add: word_less_nat_alt ub SECTOR_SZ_64K_def)
  let ?t = "memcpy_at n c t"
  define s1 where "s1 = s\<lparr>su_txbuf := Some ?t, su_buf_offset := ?b\<rparr>"
  have tk: "take (n + length c) ?t = drop (q * 65536) D @ c"
    using take_memcpy_at [of n t c] t D(2) by simp
  have lt: "length ?t = 65536" using t D(2) by simp
  have whole: "take (q * 65536) D @ drop (q * 65536) D @ c = D @ c"
    by (simp only: append_take_drop_id flip: append_assoc)
  have ltk: "length (take (q * 65536) D) = q * 65536" using D(1) by simp
  have full: "?b = SECTOR_SZ_64K \<longleftrightarrow> n + length c = 65536"
    by (simp add: word_unat_eq_iff ub SECTOR_SZ_64K_def)
  have eq: "fw_update_store devs heap c flg pos s =
      (if n + length c = 65536 \<or> flg AND SECTOR_END_FLAG \<noteq> 0
       then fw_update_flush devs heap ?t flg pos s1 else Some (s1, FWUPDATE_SUCCESS))"
    using nover t D(2) pos full by (simp add: fw_update_store_def nb s1_def Let_def)
  show ?thesis
  proof (cases "n + length c = 65536 \<or> flg AND SECTOR_END_FLAG \<noteq> 0")
    case True
    have "length (mem (su_dev s1)) = length M0" "unat (su_start_offset s1) = q * 65536"
      "unat (su_buf_offset s1) \<le> length ?t"
      "unat (su_start_offset s1) + unat (su_buf_offset s1) \<le> length M0"
      using mem fits D ltk by (simp_all add: s1_def b ub lt)
    from fw_update_flush_ok [OF env this, of heap flg]
    obtain s' r where run: "fw_update_flush devs heap ?t flg pos s1 = Some (s', r)"
      and l: "length (su_isinit s') = length (su_isinit s)" and ni: "\<not> su_is_init s'"
      and m: "r = 0 \<longrightarrow> mem (su_dev s') = memcpy_at (q * 65536) (take (n + length c) ?t) (mem (su_dev s))"
      and w: "flash_works drv mem \<longrightarrow> heap \<longrightarrow> length M0 mod unat (fd_block drv) = 0 \<longrightarrow> r = 0"
      by (auto simp: s1_def b ub)
    have m': "mem (su_dev s') = memcpy_at 0 (D @ c) M0" if "r = 0"
    proof -
      have "mem (su_dev s') = memcpy_at (0 + length (take (q * 65536) D)) (drop (q * 65536) D @ c)
          (memcpy_at 0 (take (q * 65536) D) M0)" using m that tk mem ltk by simp
      also have "\<dots> = memcpy_at 0 (take (q * 65536) D @ drop (q * 65536) D @ c) M0"
        by (rule memcpy_at_append) (use fits D(1) ltk in linarith)
      also have "\<dots> = memcpy_at 0 (D @ c) M0" by (simp only: whole)
      finally show ?thesis .
    qed
    have "su_stream mem M0 (D @ c) s'" if "r = 0" "flg AND SECTOR_END_FLAG = 0"
    proof -
      have "length (D @ c) = (q + 1) * 65536" using True that(2) D(1) by simp
      then show ?thesis using m' [OF that(1)] ni by (simp add: su_stream_def Let_def)
    qed
    then show ?thesis using True run l ni m' w unfolding eq by auto
  next
    case False
    have "n + length c < 65536" using False D(2) by linarith
    then have "length (D @ c) div 65536 = q" "length (D @ c) mod 65536 = n + length c"
      using D(1) by (simp_all add: add.assoc)
    moreover have "q * 65536 - length D = 0" using D(1) by simp
    ultimately have "su_stream mem M0 (D @ c) s1"
      using mem b ub D(3) tk lt ini
      by (simp add: su_stream_def Let_def s1_def)
    then show ?thesis using False unfolding eq by (simp add: s1_def FWUPDATE_SUCCESS_def)
  qed
qed

lemma fw_update_stream_step:
  assumes env: "spi_env_ok devs pos drv mem M0" and pos: "unat pos < length (su_isinit s)"
    and st: "su_stream mem M0 D s" and blk: "block_ok alloc" "block_ok alloc'"
    and c: "0 < length c" "length D mod 65536 + length c \<le> 65536"
    and fits: "length D + length c \<le> length M0"
    and flg: "flg AND FORCE_INIT_FLAG = 0"
  shows "\<exists>s' r. fw_update devs heap alloc alloc' (of_nat (length D)) c flg pos s = Some (s', r)
    \<and> length (su_isinit s') = length (su_isinit s)
    \<and> (r = 0 \<longrightarrow> (if flg AND SECTOR_END_FLAG = 0 then su_stream mem M0 (D @ c) s'
         else mem (su_dev s') = memcpy_at 0 (D @ c) M0 \<and> \<not> su_is_init s'))
    \<and> (flash_works drv mem \<longrightarrow> heap \<longrightarrow> alloc \<noteq> None
         \<longrightarrow> length M0 mod unat (fd_block drv) = 0 \<longrightarrow> r = 0)"
proof -
  let ?ofs = "of_nat (length D) :: u32" and ?q = "length D div 65536" and ?n = "length D mod 65536"
  have szM: "length M0 < 2 ^ LENGTH(32)" using env by (simp add: spi_env_ok_def)
  have uo: "unat ?ofs = length D" by (rule unat_of_nat_lt) (use fits szM in linarith)
  have D: "length D = ?q * 65536 + ?n" "?n < 65536" by simp_all
  have o0: "?ofs = 0 \<longleftrightarrow> D = []" using uo by (metis length_0_conv unat_0_iff)
  define s0 where "s0 = (if ?ofs = 0 then s\<lparr>su_retry := su_default_retry s, su_is_init := False\<rparr> else s)"
  show ?thesis
  proof (cases "?n = 0")
    case True
    have ni: "\<not> su_is_init s0"
      using st True o0 by (auto simp: su_stream_def Let_def s0_def)
    define blk' where "blk' = (case alloc of None \<Rightarrow> alloc' | Some b \<Rightarrow> Some b)"
    show ?thesis
    proof (cases blk')
      case None
      then have "fw_update devs heap alloc alloc' ?ofs c flg pos s
          = Some (s0\<lparr>su_txbuf := None\<rparr>, FWUPDATE_OUT_OF_HEAP)" "alloc = None"
        using ni flg by (auto simp: fw_update_def fw_update_init_def s0_def blk'_def split: option.splits)
      then show ?thesis by (simp add: FWUPDATE_OUT_OF_HEAP_def s0_def)
    next
      case (Some t)
      then have lt: "length t = 65536"
        using blk by (auto simp: blk'_def block_ok_def split: option.splits)
      define s1 where "s1 = s0\<lparr>su_txbuf := Some t, su_is_init := True, su_start_offset := ?ofs,
        su_buf_offset := 0, su_retry := su_default_retry s0\<rparr>"
      have "fw_update devs heap alloc alloc' ?ofs c flg pos s = fw_update_store devs heap c flg pos s1"
        using ni flg Some
        by (simp add: fw_update_def fw_update_init_def fw_update_offset_def blk'_def s1_def flip: s0_def)
      moreover have "su_dev s1 = su_dev s" "su_isinit s1 = su_isinit s" "unat (su_start_offset s1) = ?q * 65536"
        "unat (su_buf_offset s1) = ?n" "su_is_init s1" "su_txbuf s1 = Some t" "take ?n t = drop (?q * 65536) D"
        using True D uo by (simp_all add: s1_def s0_def)
      moreover have "mem (su_dev s) = memcpy_at 0 (take (?q * 65536) D) M0"
        using st by (simp add: su_stream_def Let_def)
      ultimately show ?thesis
        using fw_update_store_ok [OF env _ D(1) c(2,1) D(2) fits, of s1 t heap flg] pos lt by auto
    qed
  next
    case False
    then have D0: "D \<noteq> []" by auto
    from st False obtain t where T: "su_is_init s" "unat (su_start_offset s) = ?q * 65536"
      "unat (su_buf_offset s) = ?n" "su_txbuf s = Some t" "length t = 65536" "take ?n t = drop (?q * 65536) D"
      "mem (su_dev s) = memcpy_at 0 (take (?q * 65536) D) M0"
      by (auto simp: su_stream_def Let_def split: option.splits)
    define s1 where "s1 = s\<lparr>su_retry := su_default_retry s\<rparr>"
    have "?ofs = su_start_offset s + su_buf_offset s"
    proof -
      have "unat (su_start_offset s + su_buf_offset s) = ?q * 65536 + ?n"
        by (subst unat_plus_no_wrap) (use T fits szM in simp_all)
      then show ?thesis using uo by (simp add: word_unat_eq_iff)
    qed
    then have "fw_update devs heap alloc alloc' ?ofs c flg pos s = fw_update_store devs heap c flg pos s1"
      using flg T(1) o0 D0
      by (simp add: fw_update_def fw_update_init_def fw_update_offset_def s1_def)
    then show ?thesis
      using fw_update_store_ok [OF env _ D(1) c(2,1) D(2) fits, of s1 t heap flg] pos T
      by (auto simp: s1_def)
  qed
qed

text \<open>
  (C31) Erasing a whole flash of at most 64 MiB returns for every driver with a positive block size; the
  progress counter reads 100 exactly if it succeeded, and a driver that works on a flash of whole
  blocks leaves every byte erased.
\<close>

theorem erase_entire_flash_returns:
  assumes "flash_driver_ok drv mem" and "length (mem d) = unat (fd_size drv)"
    and "0 < unat (fd_block drv)" and "0 < unat (fd_size drv)" and "unat (fd_size drv) \<le> 0x4000000"
    and "unat (fd_block drv) \<le> 0x4000000"
  shows "\<exists>d' p' rc. erase_entire_flash drv d p = Some (d', p', rc) \<and> (rc = 0 \<longleftrightarrow> p' = 100)
    \<and> (flash_works drv mem \<longrightarrow> unat (fd_size drv) mod unat (fd_block drv) = 0
         \<longrightarrow> rc = 0 \<and> mem d' = replicate (unat (fd_size drv)) 0xFF)"
proof -
  have eq: "erase_entire_flash drv d p = erase_loop drv d 0 0"
    using assms(4,5) by (auto simp: erase_entire_flash_def BIOS_MAX_SIZE_BYTES_def word_less_nat_alt)
  have "unat (fd_size drv) + unat (fd_block drv) < 2 ^ 32" using assms(5,6) by simp
  from erase_loop_returns [OF assms(3) _ this, of 0 d 0]
  obtain d' p' rc where run: "erase_loop drv d 0 0 = Some (d', p', rc)" and pr: "rc = 0 \<longleftrightarrow> p' = 100"
    by auto
  have "rc = 0 \<and> mem d' = replicate (unat (fd_size drv)) 0xFF"
    if works: "flash_works drv mem" and al: "unat (fd_size drv) mod unat (fd_block drv) = 0"
  proof -
    obtain k where k: "unat (fd_size drv) = k * unat (fd_block drv)" using al by (metis mod_0_imp_dvd dvd_div_mult_self)
    have "rc = 0 \<and> mem d' = take (unat (0 :: u32)) (mem d) @ replicate (k * unat (fd_block drv)) 0xFF"
      by (rule erase_loop_works [OF assms(1) works assms(3,2) _ _ run]) (use k in simp_all)
    then show ?thesis by (simp flip: k)
  qed
  then show ?thesis using run pr eq by simp
qed

theorem erase_entire_flash_returns_witness:
  "\<exists>d' p' rc. erase_entire_flash (nor_flash 8 4) (replicate 8 0) 7 = Some (d', p', rc)
    \<and> rc = 0 \<and> p' = 100 \<and> d' = replicate 8 0xFF"
  using erase_entire_flash_returns [OF nor_flash_ok [of 8 4], of "replicate 8 0" 7] nor_flash_works [of 8 4]
  by auto

text \<open>
  With retries allowed, a packet whose offset lies so far behind the collected data that offset and
  length wrap around passes the length check, and the copy goes far behind the 64 KiB buffer.
\<close>

theorem fw_update_retry_wraps:
  assumes "su_is_init s" and "su_txbuf s = Some t" and "length t = 65536" and "1 \<le> su_retry s"
    and "ofs \<noteq> 0" and "flg AND FORCE_INIT_FLAG = 0" and "su_start_offset s \<le> ofs"
    and "ofs \<noteq> su_start_offset s + su_buf_offset s"
    and "length c < 65536" and "2 ^ 32 \<le> unat (ofs - su_start_offset s) + length c"
  shows "fw_update devs heap alloc alloc' ofs c flg pos s = None"
proof -
  let ?b = "ofs - su_start_offset s"
  have lc: "unat (of_nat (length c) :: u32) = length c"
    by (rule unat_of_nat_lt) (use assms(9) in simp)
  have "unat (?b + of_nat (length c)) = (unat ?b + length c) mod 4294967296"
    by (simp add: unat_word_ariths lc)
  also have "\<dots> = unat ?b + length c - 4294967296"
    using assms(9,10) unat_u32_lt [of ?b] by (simp add: mod_if del: unat_u32_lt)
  finally have "unat (?b + of_nat (length c)) \<le> 65536"
    using assms(9) unat_u32_lt [of ?b] by linarith
  then have "\<not> SECTOR_SZ_64K < ?b + of_nat (length c)"
    by (simp add: word_less_nat_alt SECTOR_SZ_64K_def)
  moreover have "length t < unat ?b + length c" using assms(3,10) by simp
  moreover have "\<not> ofs < su_start_offset s" using assms(7) by simp
  ultimately show ?thesis
    using assms(1,2,4-6,8)
    by (simp add: fw_update_def fw_update_init_def fw_update_offset_def fw_update_store_def Let_def)
qed

theorem fw_update_retry_wraps_witness:
  "fw_update (\<lambda>pos. Some (nor_flash 8 4)) True None None 0xFFFFFFF0 (replicate 32 1) 0 0 spi_example = None"
  by (rule fw_update_retry_wraps [where t = "replicate 65536 0"]) (simp_all add: spi_example_def)

text \<open>
  (C17) A packet of an image that arrives in order, stays within its 64 KiB block and fits into the flash is
  accepted by \<^verbatim>\<open>fw_update\<close>: a result of 0 means that the flash holds all full blocks of the
  image so far, and the buffer the rest of it, or, after the last packet, that the flash holds the whole image and is
  otherwise unchanged. With memory and a driver that works the result is 0.
\<close>

theorem fw_update_packet:
  assumes "spi_env_ok devs pos drv mem M0" and "unat pos < length (su_isinit s)"
    and "su_stream mem M0 D s" and "block_ok alloc" and "block_ok alloc'"
    and "0 < length c" and "length D mod 65536 + length c \<le> 65536"
    and "length D + length c \<le> length M0" and "flg AND FORCE_INIT_FLAG = 0"
  shows "\<exists>s' r. fw_update devs heap alloc alloc' (of_nat (length D)) c flg pos s = Some (s', r)
    \<and> (r = 0 \<longrightarrow> (if flg AND SECTOR_END_FLAG = 0 then su_stream mem M0 (D @ c) s'
         else mem (su_dev s') = memcpy_at 0 (D @ c) M0 \<and> \<not> su_is_init s'))
    \<and> (flash_works drv mem \<longrightarrow> heap \<longrightarrow> alloc \<noteq> None
         \<longrightarrow> length M0 mod unat (fd_block drv) = 0 \<longrightarrow> r = 0)"
  using fw_update_stream_step [OF assms, of heap] by (elim exE conjE) (intro exI conjI, assumption+)

theorem fw_update_packet_witness:
  "\<exists>s'. fw_update (\<lambda>pos. Some (nor_flash 8 4)) True (Some (replicate 65536 0)) None 0 [1, 2, 3] 0x81 0
      (spi_example\<lparr>su_dev := replicate 8 0\<rparr>) = Some (s', 0) \<and> su_dev s' = [1, 2, 3, 0, 0, 0, 0, 0]"
proof -
  let ?devs = "\<lambda>pos :: u8. Some (nor_flash 8 4)" and ?s = "spi_example\<lparr>su_dev := replicate 8 0\<rparr>"
  have e1: "spi_env_ok ?devs 0 (nor_flash 8 4) (\<lambda>d. d) (replicate 8 0)"
    by (simp add: spi_env_ok_def nor_flash_ok)
  have e2: "unat (0 :: u8) < length (su_isinit ?s)" by (simp add: spi_example_def)
  have e3: "su_stream (\<lambda>d. d) (replicate 8 0) [] ?s" by (simp add: su_stream_def)
  have e4: "block_ok (Some (replicate 65536 0))" and e5: "block_ok None" by (simp_all add: block_ok_def)
  have e6: "0 < length [1, 2, 3 :: u8]" "length ([] :: bytes) mod 65536 + length [1, 2, 3 :: u8] \<le> 65536"
    "length ([] :: bytes) + length [1, 2, 3 :: u8] \<le> length (replicate 8 (0 :: u8))"
    "(0x81 :: u8) AND FORCE_INIT_FLAG = 0" by (simp_all add: FORCE_INIT_FLAG_def)
  obtain s' r where run: "fw_update ?devs True (Some (replicate 65536 0)) None (of_nat (length ([] :: bytes)))
      [1, 2, 3] 0x81 0 ?s = Some (s', r)"
    and m: "r = 0 \<longrightarrow> (if (0x81 :: u8) AND SECTOR_END_FLAG = 0 then su_stream (\<lambda>d. d) (replicate 8 0) ([] @ [1, 2, 3]) s'
      else su_dev s' = memcpy_at 0 ([] @ [1, 2, 3]) (replicate 8 0) \<and> \<not> su_is_init s')"
    and z: "flash_works (nor_flash 8 4) (\<lambda>d. d) \<longrightarrow> True \<longrightarrow> Some (replicate 65536 (0 :: u8)) \<noteq> None
      \<longrightarrow> length (replicate 8 (0 :: u8)) mod unat (fd_block (nor_flash 8 4)) = 0 \<longrightarrow> r = 0"
    using fw_update_packet [OF e1 e2 e3 e4 e5 e6, of True] by (elim exE conjE) (rule that)
  have "r = 0" using z nor_flash_works [of 8 4] by simp
  moreover have "(0x81 :: u8) AND SECTOR_END_FLAG \<noteq> 0" by (simp add: SECTOR_END_FLAG_def)
  moreover have "memcpy_at 0 [1, 2, 3] (replicate 8 (0 :: u8)) = [1, 2, 3, 0, 0, 0, 0, 0]"
    by (simp add: memcpy_at_def numeral_eq_Suc)
  ultimately show ?thesis using run m by (intro exI [of _ s']) simp
qed

end
