(* ===== verification/Pldm_Fw_Image.thy ===== *)
theory Pldm_Fw_Image
  imports Pldm_Fw_Thread Spi_Image
begin

text \<open>
  Update functions of components in \<^verbatim>\<open>common/service/pldm/pldm_firmware_update.c\<close>: flash devices and voltage
  regulators. Both keep the contract \<^verbatim>\<open>image_update\<close>, so the theorems on whole updates hold for them: the commands of the
  agent, the download thread and, for a flash, \<^verbatim>\<open>pldm_fw_update\<close>, \<^verbatim>\<open>fw_update\<close> and \<^verbatim>\<open>do_update\<close> together.
\<close>

section \<open>Flash devices\<close>

text \<open>
  \<^verbatim>\<open>alloc ofs\<close> and \<^verbatim>\<open>heap ofs\<close> are the outcomes of the allocations that the packet at that offset makes.
\<close>

definition next_request :: "pldm_fw_update_cfg \<Rightarrow> u32 \<Rightarrow> u32 \<Rightarrow> u32 \<Rightarrow> u32 \<times> u32" where
  "next_request cfg sector ofs len =
    (let next_ofs = ofs + len; next_len = ucast (uc_max_buff_size cfg) in
     if next_ofs < uc_image_size cfg then
       let next_len = (if uc_image_size cfg < next_ofs + next_len
                       then uc_image_size cfg - next_ofs else next_len) in
       (next_ofs, if sector < next_ofs mod sector + next_len then sector - next_ofs mod sector else next_len)
     else (next_ofs, 0))"

definition pldm_fw_update ::
  "(u8 \<Rightarrow> 'd flash_driver option) \<Rightarrow> (u32 \<Rightarrow> bool) \<Rightarrow> (u32 \<Rightarrow> bytes option \<times> bytes option) \<Rightarrow> u8
     \<Rightarrow> 'd spi_upd fwupdate_func" where
  "pldm_fw_update devs heap alloc pos cfg s p =
    (let s = (if up_data_ofs p = 0 then set_default_retry_count 0 s else s);
         nxt = next_request cfg SECTOR_SZ_64K (up_data_ofs p) (up_data_len p);
         p = p\<lparr>up_next_ofs := fst nxt, up_next_len := snd nxt\<rparr>;
         update_flag = (if up_next_ofs p < uc_image_size cfg then 0 else SECTOR_END_FLAG OR NO_RESET_FLAG) in
     (case fw_update devs (heap (up_data_ofs p)) (fst (alloc (up_data_ofs p))) (snd (alloc (up_data_ofs p)))
             (up_data_ofs p) (take (unat (ucast (up_data_len p) :: u16)) (up_data p)) update_flag pos s of
        None \<Rightarrow> None
      | Some (s, ret) \<Rightarrow> Some (s, p, if ret \<noteq> 0 then 1 else 0)))"

definition pldm_bic_update ::
  "(u8 \<Rightarrow> 'd flash_driver option) \<Rightarrow> (u32 \<Rightarrow> bool) \<Rightarrow> (u32 \<Rightarrow> bytes option \<times> bytes option)
     \<Rightarrow> 'd spi_upd fwupdate_func" where
  "pldm_bic_update devs heap alloc = pldm_fw_update devs heap alloc DEVSPI_FMC_CS0"

text \<open>\<^verbatim>\<open>pos\<close> is the platform's position of the flash of the host firmware, -1 if there is none.\<close>

definition pldm_bios_update ::
  "int \<Rightarrow> (u8 \<Rightarrow> 'd flash_driver option) \<Rightarrow> (u32 \<Rightarrow> bool) \<Rightarrow> (u32 \<Rightarrow> bytes option \<times> bytes option)
     \<Rightarrow> 'd spi_upd fwupdate_func" where
  "pldm_bios_update pos devs heap alloc cfg s p =
    (if pos = - 1 then Some (s, p, 1) else pldm_fw_update devs heap alloc (word_of_int pos) cfg s p)"

definition pldm_pcie_switch_update ::
  "int \<Rightarrow> (u8 \<Rightarrow> 'd flash_driver option) \<Rightarrow> (u32 \<Rightarrow> bool) \<Rightarrow> (u32 \<Rightarrow> bytes option \<times> bytes option)
     \<Rightarrow> 'd spi_upd fwupdate_func" where
  "pldm_pcie_switch_update pos devs heap alloc cfg s p =
    (if pos = - 1 then Some (s, p, 1) else pldm_fw_update devs heap alloc (word_of_int pos) cfg s p)"

section \<open>Voltage regulators\<close>

text \<open>
  The regulators by their keywords, in the order of the tests. The first component of the world is the static
  \<^verbatim>\<open>hex_buff\<close>; \<^verbatim>\<open>block\<close> is the memory that \<^verbatim>\<open>malloc\<close> returns.
\<close>

definition kw :: "string \<Rightarrow> bytes" where
  "kw str = map of_char str"

definition vr_keywords :: "bytes list" where
  "vr_keywords = map kw [''isl69259'', ''xdpe12284c'', ''mp2971'', ''mp2856'', ''mp2857'', ''xdpe15284'', ''mp2985'',
     ''raa229620'', ''raa229621'', ''isl69260'', ''mpq8746'', ''mp2898'', ''mp2894'', ''tps53685'', ''tps536c5'',
     ''tda38741'', ''mp2988'']"

definition vr_match :: "bytes \<Rightarrow> bytes option" where
  "vr_match str = find (\<lambda>k. take (length k) str = k) vr_keywords"

definition pldm_vr_update ::
  "(nat \<Rightarrow> bytes option) \<Rightarrow> (bytes \<Rightarrow> 'v \<Rightarrow> u8 \<Rightarrow> u8 \<Rightarrow> bytes \<Rightarrow> 'v \<times> bool) \<Rightarrow> (bytes option \<times> 'v) fwupdate_func" where
  "pldm_vr_update malloc fwupdate cfg w p =
    (case w of (hex_buff, v) \<Rightarrow>
     if up_data_ofs p = 0 \<and> hex_buff \<noteq> None then Some ((None, v), p, 1)
     else
       (case (if up_data_ofs p = 0 then malloc (unat (uc_image_size cfg)) else hex_buff) of
          None \<Rightarrow> Some ((None, v), p, 1)
        | Some hex \<Rightarrow>
          if length hex < unat (up_data_ofs p) + unat (up_data_len p) then None
          else
            let hex = memcpy_at (unat (up_data_ofs p)) (take (unat (up_data_len p)) (up_data p)) hex;
                next_ofs = up_data_ofs p + up_data_len p;
                next_len = (ucast (uc_max_buff_size cfg) :: u32) in
            if next_ofs < uc_image_size cfg then
              Some ((Some hex, v),
                p\<lparr>up_next_ofs := next_ofs, up_next_len := (if uc_image_size cfg < next_ofs + next_len
                    then uc_image_size cfg - next_ofs else next_len)\<rparr>, 0)
            else
              let p = p\<lparr>up_next_ofs := next_ofs, up_next_len := 0\<rparr> in
              (case vr_match (up_comp_version_str p) of
                 None \<Rightarrow> Some ((None, v), p, 1)
               | Some k \<Rightarrow> (case fwupdate k v (up_bus p) (up_addr p) hex of (v, ok) \<Rightarrow>
                   Some ((None, v), p, if ok then 0 else 1)))))"

subsection \<open>Reference definitions and examples\<close>

text \<open>The environment of the update of a flash: the driver, the allocations and the sizes of image and transfer.\<close>

definition flash_update_ok ::
  "(u8 \<Rightarrow> 'd flash_driver option) \<Rightarrow> (u32 \<Rightarrow> bytes option \<times> bytes option) \<Rightarrow> u8 \<Rightarrow> 'd flash_driver
     \<Rightarrow> ('d \<Rightarrow> bytes) \<Rightarrow> bytes \<Rightarrow> bytes \<Rightarrow> pldm_fw_update_cfg \<Rightarrow> bool" where
  "flash_update_ok devs alloc pos drv mem M0 img cfg \<longleftrightarrow>
     spi_env_ok devs pos drv mem M0 \<and> (\<forall>ofs. block_ok (fst (alloc ofs)) \<and> block_ok (snd (alloc ofs)))
     \<and> fw_sizes_ok cfg (length img) \<and> length img \<le> length M0"

definition flash_update_works ::
  "(u32 \<Rightarrow> bool) \<Rightarrow> (u32 \<Rightarrow> bytes option \<times> bytes option) \<Rightarrow> 'd flash_driver \<Rightarrow> ('d \<Rightarrow> bytes) \<Rightarrow> bytes \<Rightarrow> bool" where
  "flash_update_works heap alloc drv mem M0 \<longleftrightarrow>
     flash_works drv mem \<and> (\<forall>ofs. heap ofs \<and> fst (alloc ofs) \<noteq> None) \<and> length M0 mod unat (fd_block drv) = 0"

text \<open>A flash that has taken the first \<^verbatim>\<open>n\<close> bytes of an image, and a regulator that has.\<close>

definition flash_stream ::
  "(u8 \<Rightarrow> 'd flash_driver option) \<Rightarrow> (u32 \<Rightarrow> bytes option \<times> bytes option) \<Rightarrow> u8 \<Rightarrow> 'd flash_driver
     \<Rightarrow> ('d \<Rightarrow> bytes) \<Rightarrow> bytes \<Rightarrow> pldm_fw_update_cfg \<Rightarrow> bytes \<Rightarrow> nat \<Rightarrow> 'd spi_upd \<Rightarrow> bool" where
  "flash_stream devs alloc pos drv mem M0 cfg img n s \<longleftrightarrow>
     flash_update_ok devs alloc pos drv mem M0 img cfg \<and> unat pos < length (su_isinit s)
     \<and> (if n < length img then su_stream mem M0 (take n img) s else mem (su_dev s) = memcpy_at 0 img M0)"

definition vr_stream ::
  "(nat \<Rightarrow> bytes option) \<Rightarrow> (bytes \<Rightarrow> 'v \<Rightarrow> u8 \<Rightarrow> u8 \<Rightarrow> bytes \<Rightarrow> 'v \<times> bool) \<Rightarrow> 'v \<Rightarrow> u8 \<times> u8 \<Rightarrow> bytes
     \<Rightarrow> pldm_fw_update_cfg \<Rightarrow> bytes \<Rightarrow> nat \<Rightarrow> bytes option \<times> 'v \<Rightarrow> bool" where
  "vr_stream malloc fwupdate v0 d ver cfg img n w \<longleftrightarrow>
     fw_sizes_ok cfg (length img) \<and> (\<forall>k b. malloc k = Some b \<longrightarrow> length b = k)
     \<and> (if n = 0 then w = (None, v0)
        else if n < length img then \<exists>hex. w = (Some hex, v0) \<and> length hex = length img \<and> take n hex = take n img
        else \<exists>k. vr_match ver = Some k \<and> fst w = None \<and> fwupdate k v0 (fst d) (snd d) img = (snd w, True))"

text \<open>
  The version string that the regulator is recognised by, which a cancellation replaces by one that no regulator has; and
  what makes the update succeed.
\<close>

definition vr_names :: "bytes \<Rightarrow> bytes \<Rightarrow> bool" where
  "vr_names ver str \<longleftrightarrow> str = ver \<or> str = c_str unknown_str"

definition vr_works ::
  "(nat \<Rightarrow> bytes option) \<Rightarrow> (bytes \<Rightarrow> 'v \<Rightarrow> u8 \<Rightarrow> u8 \<Rightarrow> bytes \<Rightarrow> 'v \<times> bool) \<Rightarrow> 'v \<Rightarrow> u8 \<times> u8 \<Rightarrow> bytes \<Rightarrow> bytes \<Rightarrow> bool" where
  "vr_works malloc fwupdate v0 d ver img \<longleftrightarrow> malloc (length img) \<noteq> None
     \<and> (case vr_match ver of None \<Rightarrow> False | Some k \<Rightarrow> snd (fwupdate k v0 (fst d) (snd d) img))"

text \<open>The next request without regard to sectors.\<close>

definition plain_next :: "pldm_fw_update_cfg \<Rightarrow> u32 \<Rightarrow> u32" where
  "plain_next cfg next_ofs = (if next_ofs < uc_image_size cfg
     then (if uc_image_size cfg < next_ofs + ucast (uc_max_buff_size cfg) then uc_image_size cfg - next_ofs
           else ucast (uc_max_buff_size cfg)) else 0)"

definition demo_devs :: "u8 \<Rightarrow> bytes flash_driver option" where
  "demo_devs pos = Some (nor_flash 128 4)"

definition demo_blocks :: "u32 \<Rightarrow> bytes option \<times> bytes option" where
  "demo_blocks ofs = (Some (replicate 65536 0), None)"

definition demo_flash_info :: "bytes spi_upd pldm_fw_update_info" where
  "demo_flash_info = fw_demo_info (Some (pldm_fw_update demo_devs (\<lambda>_. True) demo_blocks 0))"

definition demo_flash_idle :: "bytes spi_upd fwu" where
  "demo_flash_idle = fw_demo_idle [demo_flash_info] (spi_example\<lparr>su_dev := replicate 128 0\<rparr>)"

definition vr_demo_info :: "(bytes option \<times> bytes) pldm_fw_update_info" where
  "vr_demo_info = (fw_demo_info (Some (pldm_vr_update (\<lambda>n. Some (zeros n)) (\<lambda>k v b a img. (b # a # img, True)))))
     \<lparr>pi_pre_update_func := Some (\<lambda>cfg w p. Some (w, p\<lparr>up_bus := 5, up_addr := 0x60\<rparr>, 0))\<rparr>"

definition vr_demo_idle :: "(bytes option \<times> bytes) fwu" where
  "vr_demo_idle = fw_demo_idle [vr_demo_info] (None, [])"

definition vr_demo :: "(bytes option \<times> unit) fwu" where
  "vr_demo = (fw_demo_idle [] (Some (replicate 40 0), ()))\<lparr>fu_state := STATE_DOWNLOAD, fu_keep := True, fu_timer := True,
     fu_cfg := \<lparr>uc_image_size = 40, uc_max_buff_size = 32\<rparr>\<rparr>"

definition vr_demo_agent :: "(bytes option \<times> unit) fw_read_fn" where
  "vr_demo_agent s cmd req n =
    (if fu_timer s then Some (s\<lparr>fu_timer := False\<rparr>, 9, PLDM_SUCCESS # replicate 8 1)
     else Some (s, 33, PLDM_SUCCESS # replicate 32 1))"

section \<open>Properties\<close>

lemma unat_mod_64K: "unat ((x :: u32) mod SECTOR_SZ_64K) = unat x mod 65536"
  by (simp add: unat_mod SECTOR_SZ_64K_def)

lemma next_request_piece:
  assumes sizes: "fw_sizes_ok cfg N" and M: "M = unat (uc_max_buff_size cfg)"
    and ofs: "unat ofs = n" "n < N" "n mod M = 0" and len: "unat len = piece M N n"
  defines "nxt \<equiv> next_request cfg SECTOR_SZ_64K ofs len"
  shows "unat (fst nxt) = n + piece M N n"
    and "fst nxt < uc_image_size cfg \<longleftrightarrow> n + piece M N n < N"
    and "unat (snd nxt) = (if n + piece M N n < N then piece M N (n + piece M N n) else 0)"
    and "n + piece M N n < N \<Longrightarrow> (n + piece M N n) mod M = 0"
proof -
  note S = size_facts [OF sizes M]
  let ?n = "n + piece M N n"
  have u: "unat (ofs + len) = ?n"
    by (subst unat_plus_no_wrap) (use ofs len piece_le(2) [of n N M] S in simp_all)
  then show f: "unat (fst nxt) = ?n" by (simp add: nxt_def next_request_def Let_def)
  show lt: "fst nxt < uc_image_size cfg \<longleftrightarrow> ?n < N" by (simp add: word_less_nat_alt f S(1))
  have f': "fst nxt = ofs + len" by (simp add: nxt_def next_request_def Let_def)
  show md: "?n mod M = 0" if "?n < N"
  proof -
    have "piece M N n = M" using that by (simp add: piece_def min_def split: if_splits)
    then show ?thesis using ofs(3) by simp
  qed
  show "unat (snd nxt) = (if ?n < N then piece M N ?n else 0)"
  proof (cases "?n < N")
    case False
    then show ?thesis using lt f' by (simp add: nxt_def next_request_def Let_def)
  next
    case True
    let ?m = "ucast (uc_max_buff_size cfg) :: u32"
    have sum: "unat (ofs + len + ?m) = ?n + M"
      by (subst unat_plus_no_wrap) (use u S True in simp_all)
    define nl where "nl = (if uc_image_size cfg < ofs + len + ?m then uc_image_size cfg - (ofs + len) else ?m)"
    have nl: "unat nl = piece M N ?n"
    proof (cases "N < ?n + M")
      case le: True
      have "unat (uc_image_size cfg - (ofs + len)) = N - ?n"
        by (subst unat_sub) (use u S True in \<open>simp_all add: word_le_nat_alt\<close>)
      with le show ?thesis by (simp add: nl_def word_less_nat_alt sum S(1) piece_def)
    next
      case gt: False
      then have "nl = ?m" by (simp add: nl_def word_less_nat_alt sum S(1))
      then show ?thesis using gt S(9) True by (simp add: piece_def min_def)
    qed
    have dv: "M dvd 65536" using S(5) by (rule mod_0_imp_dvd)
    have room: "?n mod 65536 + piece M N ?n \<le> 65536"
      by (rule sector_room [OF dv md [OF True] _ piece_le(1)]) simp
    have "unat ((ofs + len) mod SECTOR_SZ_64K + nl) = ?n mod 65536 + piece M N ?n"
      by (subst unat_plus_no_wrap) (use room nl in \<open>simp_all add: unat_mod_64K u\<close>)
    then have "\<not> SECTOR_SZ_64K < (ofs + len) mod SECTOR_SZ_64K + nl"
      using room by (simp add: word_less_nat_alt SECTOR_SZ_64K_def)
    then have "snd nxt = nl" using lt f' True by (simp add: nxt_def next_request_def Let_def flip: nl_def)
    then show ?thesis using nl True by simp
  qed
qed

lemma su_stream_retry: "su_stream mem M0 [] s \<Longrightarrow> su_stream mem M0 [] (set_default_retry_count n s)"
  by (simp add: su_stream_def set_default_retry_count_def)

lemma take_slice: "n + l \<le> length xs \<Longrightarrow> take n xs @ slice n l xs = take (n + l) xs"
  by (simp add: slice_def take_add)

text \<open>One piece of the image in the hands of \<^verbatim>\<open>pldm_fw_update\<close>.\<close>

lemma pldm_fw_update_piece:
  fixes cfg :: pldm_fw_update_cfg
  defines "M \<equiv> unat (uc_max_buff_size cfg)"
  assumes env: "flash_update_ok devs alloc pos drv mem M0 img cfg"
    and pos: "unat pos < length (su_isinit s)" and st: "su_stream mem M0 (take n img) s"
    and n: "unat (up_data_ofs p) = n" "n < length img" "n mod M = 0"
    and len: "unat (up_data_len p) = piece M (length img) n"
    and data: "take (piece M (length img) n) (up_data p) = slice n (piece M (length img) n) img"
  defines "n' \<equiv> n + piece M (length img) n"
  shows "\<exists>s' p' r. pldm_fw_update devs heap alloc pos cfg s p = Some (s', p', r)
    \<and> length (su_isinit s') = length (su_isinit s) \<and> param_dest p' = param_dest p
    \<and> unat (up_next_len p') = (if n' < length img then piece M (length img) n' else 0)
    \<and> unat (up_next_ofs p') = n'
    \<and> (r = 0 \<longrightarrow> (if n' < length img then su_stream mem M0 (take n' img) s'
         else mem (su_dev s') = memcpy_at 0 img M0))
    \<and> (flash_update_works heap alloc drv mem M0 \<longrightarrow> r = 0)"
proof -
  let ?l = "piece M (length img) n"
  have E: "spi_env_ok devs pos drv mem M0" "block_ok (fst (alloc x))" "block_ok (snd (alloc x))"
    "fw_sizes_ok cfg (length img)" "length img \<le> length M0" for x
    using env by (simp_all add: flash_update_ok_def)
  note S = size_facts [OF E(4) M_def [THEN meta_eq_to_obj_eq]]
  note NR = next_request_piece [OF E(4) M_def [THEN meta_eq_to_obj_eq] n len]
  define s0 where "s0 = (if up_data_ofs p = 0 then set_default_retry_count 0 s else s)"
  have "su_stream mem M0 (take n img) s0" "length (su_isinit s0) = length (su_isinit s)"
  proof -
    show "su_stream mem M0 (take n img) s0"
    proof (cases "up_data_ofs p = 0")
      case True
      then have "n = 0" using n(1) by simp
      then show ?thesis using st True su_stream_retry by (simp add: s0_def)
    qed (simp add: s0_def st)
    show "length (su_isinit s0) = length (su_isinit s)" by (simp add: s0_def set_default_retry_count_def)
  qed
  note s0 = this
  have ltk: "length (take n img) = n" using n(2) by simp
  have g: "32 \<le> ?l" by (rule piece_ge) (use n S in simp_all)
  have lM: "?l \<le> M" and lN: "n + ?l \<le> length img" using piece_le n(2) by auto
  define c where "c = take (unat (ucast (up_data_len p) :: u16)) (up_data p)"
  have "unat (ucast (up_data_len p) :: u16) = ?l"
    using len lM S(6) by (simp add: unsigned_ucast_eq take_bit_nat_eq_self)
  then have c: "c = slice n ?l img" using data by (simp add: c_def)
  have lc: "length c = ?l" using lN by (simp add: c)
  have dv: "M dvd 65536" using S(5) by (rule mod_0_imp_dvd)
  have room: "length (take n img) mod 65536 + length c \<le> 65536" unfolding ltk lc
    by (rule sector_room [OF dv n(3) _ lM]) simp
  let ?nxt = "next_request cfg SECTOR_SZ_64K (up_data_ofs p) (up_data_len p)"
  define flg where "flg = (if fst ?nxt < uc_image_size cfg then 0 else SECTOR_END_FLAG OR NO_RESET_FLAG)"
  have flg: "flg AND FORCE_INIT_FLAG = 0" "flg AND SECTOR_END_FLAG = 0 \<longleftrightarrow> n' < length img"
    using NR(2) by (simp_all add: flg_def n'_def spi_consts)
  have ofs: "of_nat (length (take n img)) = up_data_ofs p"
    unfolding ltk word_unat_eq_iff using n(1,2) S(3) by (subst unat_of_nat_lt) simp_all
  have "0 < length c" "length (take n img) + length c \<le> length M0" using lc g ltk lN E(5) by linarith+
  from fw_update_stream_step [OF E(1) _ s0(1) E(2,3) this(1) room this(2) flg(1), where heap = "heap (up_data_ofs p)" and x1 = "up_data_ofs p" and x2 = "up_data_ofs p"]
  obtain s' r where run: "fw_update devs (heap (up_data_ofs p)) (fst (alloc (up_data_ofs p))) (snd (alloc (up_data_ofs p)))
      (up_data_ofs p) c flg pos s0 = Some (s', r)"
    and l: "length (su_isinit s') = length (su_isinit s0)"
    and res: "r = 0 \<longrightarrow> (if flg AND SECTOR_END_FLAG = 0 then su_stream mem M0 (take n img @ c) s'
         else mem (su_dev s') = memcpy_at 0 (take n img @ c) M0 \<and> \<not> su_is_init s')"
    and wk: "flash_works drv mem \<longrightarrow> heap (up_data_ofs p) \<longrightarrow> fst (alloc (up_data_ofs p)) \<noteq> None
         \<longrightarrow> length M0 mod unat (fd_block drv) = 0 \<longrightarrow> r = 0"
    unfolding ofs using pos s0(2) by auto
  have D: "take n img @ c = take n' img" unfolding c n'_def by (rule take_slice [OF lN])
  let ?p' = "p\<lparr>up_next_ofs := fst ?nxt, up_next_len := snd ?nxt\<rparr>"
  have "pldm_fw_update devs heap alloc pos cfg s p = Some (s', ?p', if r \<noteq> 0 then 1 else 0)"
    using run by (simp add: pldm_fw_update_def Let_def c_def flg_def s0_def)
  moreover have "flash_update_works heap alloc drv mem M0 \<longrightarrow> r = 0"
    using wk by (simp add: flash_update_works_def)
  moreover have "r = 0 \<longrightarrow> (if n' < length img then su_stream mem M0 (take n' img) s'
         else mem (su_dev s') = memcpy_at 0 img M0)"
    using res unfolding D flg(2) by auto
  ultimately show ?thesis
    using l s0(2) NR(1,3) unfolding n'_def
    by (intro exI [of _ s'] exI [of _ ?p'] exI [of _ "if r \<noteq> 0 then 1 else 0 :: u8"]) (simp add: param_dest_def)
qed

interpretation flash: image_update "pldm_fw_update devs heap alloc pos" "flash_stream devs alloc pos drv mem M0"
    "\<lambda>_ _. True" "\<lambda>_ _ _. flash_update_works heap alloc drv mem M0"
  for devs :: "u8 \<Rightarrow> 'd flash_driver option" and heap alloc pos drv mem M0
proof unfold_locales
  fix cfg img n and s :: "'d spi_upd" and p :: pldm_fw_update_param and l :: nat
  assume st: "flash_stream devs alloc pos drv mem M0 cfg img n s"
  then show "fw_sizes_ok cfg (length img)" by (simp add: flash_stream_def flash_update_ok_def)
  assume n: "n < length img" "n mod unat (uc_max_buff_size cfg) = 0" "unat (up_data_ofs p) = n"
    and l: "l = piece (unat (uc_max_buff_size cfg)) (length img) n" "unat (up_data_len p) = l"
    and data: "take l (up_data p) = slice n l img"
  have env: "flash_update_ok devs alloc pos drv mem M0 img cfg" "unat pos < length (su_isinit s)"
    "su_stream mem M0 (take n img) s" using st n(1) by (simp_all add: flash_stream_def)
  show "\<exists>s' p' r. pldm_fw_update devs heap alloc pos cfg s p = Some (s', p', r) \<and> param_dest p' = param_dest p
      \<and> (r = 0 \<longrightarrow> flash_stream devs alloc pos drv mem M0 cfg img (n + l) s' \<and> unat (up_next_ofs p') = n + l
          \<and> unat (up_next_len p') = (if n + l < length img then piece (unat (uc_max_buff_size cfg)) (length img) (n + l) else 0))
      \<and> (flash_update_works heap alloc drv mem M0 \<longrightarrow> r = 0)"
    using pldm_fw_update_piece [OF env n(3,1,2) l(2) [unfolded l(1)] data [unfolded l(1)], of heap, folded l(1)] env
    by (auto simp: flash_stream_def)
qed

lemma plain_next_piece:
  assumes sizes: "fw_sizes_ok cfg N" and M: "M = unat (uc_max_buff_size cfg)" and n: "unat next_ofs = n" "n \<le> N"
  shows "next_ofs < uc_image_size cfg \<longleftrightarrow> n < N"
    and "unat (plain_next cfg next_ofs) = (if n < N then piece M N n else 0)"
proof -
  note S = size_facts [OF sizes M]
  show lt: "next_ofs < uc_image_size cfg \<longleftrightarrow> n < N" by (simp add: word_less_nat_alt n S(1))
  let ?m = "ucast (uc_max_buff_size cfg) :: u32"
  have sum: "unat (next_ofs + ?m) = n + M" by (subst unat_plus_no_wrap) (use n S in simp_all)
  have dif: "unat (uc_image_size cfg - next_ofs) = N - n" if "n < N"
    by (subst unat_sub) (use n S that in \<open>simp_all add: word_le_nat_alt\<close>)
  show "unat (plain_next cfg next_ofs) = (if n < N then piece M N n else 0)"
    using lt dif S(9) by (auto simp: plain_next_def word_less_nat_alt [of "uc_image_size cfg"] sum S(1) piece_def)
qed

lemma piece_end:
  fixes ofs len :: u32
  assumes "fw_sizes_ok cfg N" and "M = unat (uc_max_buff_size cfg)" and "unat ofs = n" and "n < N"
    and "unat len = piece M N n"
  shows "unat (ofs + len) = n + piece M N n" and "n + piece M N n \<le> N"
proof -
  note S = size_facts [OF assms(1,2)]
  show le: "n + piece M N n \<le> N" using assms(4) piece_le(2) by simp
  show "unat (ofs + len) = n + piece M N n" by (subst unat_plus_no_wrap) (use assms le S in simp_all)
qed

lemma take_memcpy_slice:
  assumes "n + l \<le> length img" and "length hex = length img" and "take n hex = take n img" and "d = slice n l img"
  shows "take (n + l) (memcpy_at n d hex) = take (n + l) img"
proof -
  have ld: "length d = l" using assms(1,4) by simp
  have "take (n + length d) (memcpy_at n d hex) = take n hex @ d" by (rule take_memcpy_at) (use assms(1,2) in simp)
  then show ?thesis using take_slice [OF assms(1)] assms(3,4) ld by simp
qed

lemma vr_match_unknown: "vr_match (c_str unknown_str) = None"
  by code_simp

interpretation vr: image_update "pldm_vr_update malloc fwupdate" "vr_stream malloc fwupdate v0 d ver"
    "\<lambda>d' str. d' = d \<and> vr_names ver str" "vr_works malloc fwupdate v0"
  for malloc and fwupdate :: "bytes \<Rightarrow> 'v \<Rightarrow> u8 \<Rightarrow> u8 \<Rightarrow> bytes \<Rightarrow> 'v \<times> bool" and v0 d ver
proof unfold_locales
  fix cfg :: pldm_fw_update_cfg and img and n :: nat and w :: "bytes option \<times> 'v" and p :: pldm_fw_update_param and l :: nat
  assume st: "vr_stream malloc fwupdate v0 d ver cfg img n w"
  then show sz: "fw_sizes_ok cfg (length img)" by (simp add: vr_stream_def)
  assume n: "n < length img" "n mod unat (uc_max_buff_size cfg) = 0" "unat (up_data_ofs p) = n"
    and l: "l = piece (unat (uc_max_buff_size cfg)) (length img) n" "unat (up_data_len p) = l"
    and data: "take l (up_data p) = slice n l img"
    and lg: "param_dest p = d \<and> vr_names ver (up_comp_version_str p)"
  let ?no = "up_data_ofs p + up_data_len p"
  let ?p = "p\<lparr>up_next_ofs := ?no, up_next_len := plain_next cfg ?no\<rparr>"
  note E = piece_end [OF sz refl n(3,1) l(2) [unfolded l(1)], folded l(1)]
  note N = plain_next_piece [OF sz refl E]
  note S = size_facts [OF sz refl]
  have zero: "up_data_ofs p = 0 \<longleftrightarrow> n = 0" using n(3) by (metis unat_0_iff)
  have d: "up_bus p = fst d" "up_addr p = snd d" using lg by (auto simp: param_dest_def)
  have dp: "param_dest ?p = param_dest p" by (simp add: param_dest_def)
  let ?W = "vr_works malloc fwupdate v0 (param_dest p) (up_comp_version_str p) img"
  let ?goal = "\<exists>w' p' r. pldm_vr_update malloc fwupdate cfg w p = Some (w', p', r) \<and> param_dest p' = param_dest p
      \<and> (r = 0 \<longrightarrow> vr_stream malloc fwupdate v0 d ver cfg img (n + l) w' \<and> unat (up_next_ofs p') = n + l
          \<and> unat (up_next_len p') = (if n + l < length img then piece (unat (uc_max_buff_size cfg)) (length img) (n + l) else 0))
      \<and> (?W \<longrightarrow> r = 0)"
  have lpos: "0 < l" using piece_ge [OF n(1,2) S(4,7)] l(1) by simp
  show ?goal
  proof (cases "if n = 0 then malloc (length img) else fst w")
    case None
    then have "w = (None, v0) \<and> n = 0" using st n(1) by (auto simp: vr_stream_def split: if_splits)
    then have "pldm_vr_update malloc fwupdate cfg w p = Some ((None, v0), p, 1)"
      using None zero S(1) by (simp add: pldm_vr_update_def)
    moreover have "\<not> ?W" using None \<open>w = (None, v0) \<and> n = 0\<close> by (simp add: vr_works_def)
    ultimately show ?thesis by simp
  next
    case (Some hex)
    have hex: "length hex = length img" "take n hex = take n img" "snd w = v0" "n = 0 \<longrightarrow> fst w = None"
      using Some st n(1) by (auto simp: vr_stream_def split: if_splits)
    let ?hex = "memcpy_at n (take l (up_data p)) hex"
    have run: "pldm_vr_update malloc fwupdate cfg w p =
      (if ?no < uc_image_size cfg then Some ((Some ?hex, v0), ?p, 0)
       else case vr_match (up_comp_version_str p) of None \<Rightarrow> Some ((None, v0), ?p, 1)
         | Some k \<Rightarrow> (case fwupdate k v0 (up_bus p) (up_addr p) ?hex of (v, ok) \<Rightarrow> Some ((None, v), ?p, if ok then 0 else 1)))"
    proof -
      have w: "w = (fst w, v0)" using hex(3) by (metis prod.collapse)
      have b1: "\<not> (up_data_ofs p = 0 \<and> (\<exists>y. fst w = Some y))" using hex(4) zero by auto
      have b2: "(if up_data_ofs p = 0 then malloc (unat (uc_image_size cfg)) else fst w) = Some hex"
        using Some zero S(1) by (cases "n = 0") simp_all
      have b3: "\<not> length hex < n + l" using hex(1) E(2) by simp
      show ?thesis
        apply (subst w, unfold pldm_vr_update_def Let_def prod.case)
        apply (simp only: b1 b2 option.case if_False b3 n(3) l(2) not_None_eq)
        by (cases "?no < uc_image_size cfg") (simp_all add: plain_next_def split: option.splits)
    qed
    have tk: "take (n + l) ?hex = take (n + l) img" by (rule take_memcpy_slice [OF E(2) hex(1,2) data])
    have ll: "length ?hex = length img" using data E(2) hex(1) by simp
    show ?thesis
    proof (cases "n + l < length img")
      case True
      then have "vr_stream malloc fwupdate v0 d ver cfg img (n + l) (Some ?hex, v0)"
        using st tk ll lpos by (auto simp: vr_stream_def)
      then show ?thesis using run N True E(1) dp by simp
    next
      case False
      then have e: "n + l = length img" using E(2) by simp
      then have img: "?hex = img" using tk ll by simp
      have nf: "\<not> ?no < uc_image_size cfg" using N(1) False by simp
      show ?thesis
      proof (cases "vr_match (up_comp_version_str p)")
        case None
        then show ?thesis using run nf dp by (simp add: vr_works_def)
      next
        case (Some k)
        have ver: "up_comp_version_str p = ver" using lg Some vr_match_unknown by (auto simp: vr_names_def)
        obtain v ok where f: "fwupdate k v0 (up_bus p) (up_addr p) img = (v, ok)" by fastforce
        have "vr_stream malloc fwupdate v0 d ver cfg img (n + l) (None, v)" if ok
          using st f that e n(1) Some d ver by (auto simp: vr_stream_def)
        moreover have "?W \<longrightarrow> ok" using Some f d lg by (simp add: vr_works_def)
        ultimately show ?thesis using run nf Some f N E(1) False dp unfolding img by simp
      qed
    qed
  qed
qed

lemma demo_flash_idle_simps:
  "fw_inv (fp_work fw_demo_plat) demo_flash_idle" "fu_state demo_flash_idle = STATE_IDLE"
  "comp_offered fw_demo_plat 3 demo_flash_info demo_flash_idle"
  "fw_plain_info demo_flash_info (pldm_fw_update demo_devs (\<lambda>_. True) demo_blocks 0)"
  "unat (0 :: u8) < length (su_isinit (fu_world demo_flash_idle))"
  "su_dev (fu_world demo_flash_idle) = replicate 128 0"
  by (simp_all add: demo_flash_idle_def fw_demo_idle_inv, simp_all add: fw_demo_idle_def comp_offered_def
      demo_flash_info_def fw_demo_info_def fw_demo_plat_def fw_plain_info_def spi_example_def)

lemma demo_flash_update_ok:
  assumes "length img = 64"
  shows "flash_update_ok demo_devs demo_blocks 0 (nor_flash 128 4) (\<lambda>d. d) (replicate 128 0) img
    \<lparr>uc_image_size = 64, uc_max_buff_size = 32\<rparr>"
  using assms by (simp add: flash_update_ok_def spi_env_ok_def nor_flash_ok demo_devs_def demo_blocks_def block_ok_def
      fw_sizes_ok_def)

lemma demo_flash_update_works:
  "flash_update_works (\<lambda>_. True) demo_blocks (nor_flash 128 4) (\<lambda>d. d) (replicate 128 0)"
  by (simp add: flash_update_works_def demo_blocks_def nor_flash_works)

text \<open>
  (C2) The whole update of a flash: an idle controller that gets RequestUpdate, PassComponentTable and UpdateComponent for a
  component updated by \<^verbatim>\<open>pldm_fw_update\<close> starts a thread, and the thread ends, whatever the agent
  answers, as long as its answers of full length carry the bytes of the image. Unless the
  thread ends with the failure state, the flash holds the image and is otherwise
  unchanged. With an agent that serves every request and a flash that works the update succeeds, and the
  controller is ready for the next component. This holds for an image that fits the flash and a transfer size, of which the
  controller keeps the low 16 bits and at most 256, that divides 64 KiB, has at least 32 bytes, leaves a last piece of at least 32 bytes and
  either does not exceed the image or exceeds it by more than 32 bytes (\<open>fw_sizes_ok\<close>). With a transfer
  size that is a multiple of 64 KiB the claim is false, as another property shows.
\<close>

theorem flash_update_session:
  assumes "fw_inv (fp_work p) s" and "fu_state s = STATE_IDLE" and "comp_offered p comp_id info s" and "ver_ok ver"
    and "fw_dest_info info (pldm_fw_update devs heap alloc pos) d" and "fw_rd_ok img rd"
    and "flash_update_ok devs alloc pos drv mem M0 img
      \<lparr>uc_image_size = of_nat (length img), uc_max_buff_size = min 256 (ucast (transfer_size :: u32))\<rparr>"
    and "unat pos < length (su_isinit (fu_world s))" and "mem (su_dev (fu_world s)) = M0"
  shows "\<exists>s'. req_fw_update_handler (fp_work p) rd
        (fw_run p inst (update_dialogue ext transfer_size comp_id ver (of_nat (length img))) s) = Some s'
    \<and> fu_thread s' = None
    \<and> (fu_aux s' \<noteq> STATE_AUX_FAILED \<longrightarrow> mem (su_dev (fu_world s')) = memcpy_at 0 img M0)
    \<and> (fw_rd_honest rd \<longrightarrow> flash_update_works heap alloc drv mem M0
         \<longrightarrow> fu_state s' = STATE_RDY_XFER \<and> fu_aux s' = STATE_AUX_SUCCESS)"
proof -
  let ?cfg = "\<lparr>uc_image_size = of_nat (length img), uc_max_buff_size = min 256 (ucast transfer_size)\<rparr>"
  have "0 < length img" using assms(7) by (simp add: flash_update_ok_def fw_sizes_ok_def)
  then have st: "flash_stream devs alloc pos drv mem M0 ?cfg img 0 (fu_world s)"
    using assms(7-9) by (simp add: flash_stream_def su_stream_def)
  have "fw_rd_keeps (\<lambda>_. True) rd" by (simp add: fw_rd_keeps_def)
  from flash.update_session [OF assms(1-6) st TrueI this, of inst ext]
  show ?thesis by (auto simp: flash_stream_def)
qed

theorem flash_update_session_witness:
  "\<exists>s'. req_fw_update_handler (fp_work (fw_demo_plat :: bytes spi_upd fw_plat)) (serve_image (replicate 64 7))
      (fw_run fw_demo_plat 0 (update_dialogue demo_pldm_ext 32 3 [0x31] 64) demo_flash_idle) = Some s'
    \<and> su_dev (fu_world s') = replicate 64 7 @ replicate 64 0 \<and> fu_state s' = STATE_RDY_XFER"
proof -
  let ?img = "replicate 64 (7 :: u8)"
  have ok: "flash_update_ok demo_devs demo_blocks 0 (nor_flash 128 4) (\<lambda>d. d) (replicate 128 0) ?img
      \<lparr>uc_image_size = of_nat (length ?img), uc_max_buff_size = min 256 (ucast (32 :: u32))\<rparr>"
    using demo_flash_update_ok [of ?img] by (simp add: min_def)
  have img: "memcpy_at 0 ?img (replicate 128 0) = ?img @ replicate 64 0" by (simp add: memcpy_at_def)
  have ver: "ver_ok [0x31]" by (simp add: ver_ok_def COMP_STR_SIZE_def)
  from flash_update_session [OF demo_flash_idle_simps(1-3) ver fw_plain_dest [OF demo_flash_idle_simps(4)] serve_image_ok ok
      demo_flash_idle_simps(5,6), of 0 demo_pldm_ext]
  show ?thesis using serve_image_honest [of ?img] demo_flash_update_works unfolding img by auto
qed

lemma download_nothing:
  assumes "fw_rd_honest rd" and "fu_keep s" and "uc_max_buff_size (fu_cfg s) = 0" and "uc_image_size (fu_cfg s) \<noteq> 0"
    and "fst (alloc 0) = Some blk"
  shows "\<exists>s' p'. download_loop rd (pldm_fw_update devs heap alloc pos) s p 0 0 0xFFFFFFFF 0 = Some (s', p', True)
    \<and> su_dev (fu_world s') = su_dev (fu_world s)"
proof -
  let ?upd = "pldm_fw_update devs heap alloc pos"
  have "0 < uc_image_size (fu_cfg s)" using assms(4) by (simp add: word_gt_0)
  have rl: "request_length (fu_cfg s) 0 0 = (32, 0)"
    by (simp add: request_length_def MIN_FW_UPDATE_BASELINE_TRANS_SIZE_def Let_def)
  obtain len r where rd: "rd s PLDM_FW_UPDATE_CMD_CODE_REQUEST_FIRMWARE_DATA (le32 0 @ le32 32) 33 = Some (s, len, r)"
    and r: "nth0 r 0 = PLDM_SUCCESS" and len: "unat len = 33"
    using assms(1) [unfolded fw_rd_honest_def, THEN spec [of _ s], THEN spec [of _ PLDM_FW_UPDATE_CMD_CODE_REQUEST_FIRMWARE_DATA],
        THEN spec [of _ "le32 0 @ le32 32"], THEN spec [of _ 33]] by auto
  have l: "len \<noteq> 0" "(ucast len :: u32) = 33" using len by (auto simp: word_unat_eq_iff)
  define q where "q = p\<lparr>up_data := drop 1 r, up_data_len := 0, up_data_ofs := 0, up_comp_version_str := c_str (fu_comp_str s),
    up_next_ofs := 0, up_next_len := 0\<rparr>"
  have nr: "next_request (fu_cfg s) SECTOR_SZ_64K 0 0 = (0, 0)"
    using assms(3) by (simp add: next_request_def Let_def SECTOR_SZ_64K_def)
  obtain w where w: "fw_update devs (heap 0) (fst (alloc 0)) (snd (alloc 0)) 0 [] 0 pos (set_default_retry_count 0 (fu_world s)) = Some (w, 0)"
    "su_dev w = su_dev (fu_world s)"
    using assms(5) by (simp add: fw_update_def fw_update_init_def fw_update_offset_def fw_update_store_def
        set_default_retry_count_def SECTOR_SZ_64K_def FWUPDATE_SUCCESS_def spi_consts)
  have hd: "handle_data rd ?upd s p 0 0 r = Some (s\<lparr>fu_world := w\<rparr>, q, False)"
    using r assms(4) nr w \<open>0 < uc_image_size (fu_cfg s)\<close>
    by (simp add: handle_data_def call_update_def pldm_fw_update_def Let_def q_def)
  have "download_loop rd ?upd s p 0 0 0xFFFFFFFF 0 = Some (s\<lparr>fu_world := w\<rparr>, q, True)"
    by (subst download_loop.simps) (simp add: assms(2) rl rd l hd Let_def q_def)
  then show ?thesis using w(2) by auto
qed

text \<open>
  (C33) An agent whose transfer size is a multiple of 64 KiB: the configuration keeps only its low 16 bits, so
  the thread asks for no bytes of the image, takes the first answer for the last one and reports a successful transfer, verification and application of an
  image of which nothing was written.
\<close>

theorem flash_update_zero_transfer:
  assumes "fw_inv (fp_work p) s" and "fu_state s = STATE_IDLE" and "comp_offered p comp_id info s"
    and "fw_plain_info info (pldm_fw_update devs heap alloc pos)" and "fw_rd_honest rd"
    and "(ucast (transfer_size :: u32) :: u16) = 0" and "n \<noteq> 0" and "fst (alloc 0) \<noteq> None" and "ver_ok ver"
  shows "\<exists>s'. req_fw_update_handler (fp_work p) rd (fw_run p inst (update_dialogue ext transfer_size comp_id ver n) s) = Some s'
    \<and> fu_state s' = STATE_RDY_XFER \<and> fu_aux s' = STATE_AUX_SUCCESS
    \<and> su_dev (fu_world s') = su_dev (fu_world s)"
proof -
  let ?s = "fw_run p inst (update_dialogue ext transfer_size comp_id ver n) s"
  note R = update_dialogue_run [OF assms(1-3,9), of inst ext transfer_size n]
  have f: "find_update_info (fp_work p) (fu_comp_id ?s) ?s = Some info"
    using comp_offered_find [OF assms(3), of ?s] R by simp
  note pl = assms(4)
  then have ap: "pi_self_apply_work_func info = None" by (simp add: fw_plain_info_def)
  obtain blk where blk: "fst (alloc 0) = Some blk" using assms(8) by blast
  obtain s1 p1 where d: "download_loop rd (pldm_fw_update devs heap alloc pos) (?s\<lparr>fu_aux := STATE_AUX_INPROGRESS\<rparr>)
      (first_param info ?s) 0 0 0xFFFFFFFF 0 = Some (s1, p1, True)" "su_dev (fu_world s1) = su_dev (fu_world ?s)"
    using download_nothing [OF assms(5), where alloc = alloc and blk = blk and devs = devs and heap = heap and pos = pos and p = "first_param info ?s" and s = "?s\<lparr>fu_aux := STATE_AUX_INPROGRESS\<rparr>"] blk R assms(6,7) by auto
  show ?thesis
    using d R assms(6) by (simp add: req_fw_update_handler_plain [OF f pl] complete_update_honest [OF assms(5) ap])
qed

theorem flash_update_zero_transfer_witness:
  "\<exists>s'. req_fw_update_handler (fp_work (fw_demo_plat :: bytes spi_upd fw_plat)) (serve_image (replicate 64 7))
      (fw_run fw_demo_plat 0 (update_dialogue demo_pldm_ext 0x10000 3 [] 64) demo_flash_idle) = Some s'
    \<and> fu_state s' = STATE_RDY_XFER \<and> fu_aux s' = STATE_AUX_SUCCESS \<and> su_dev (fu_world s') = replicate 128 0"
  using flash_update_zero_transfer [OF demo_flash_idle_simps(1-4) serve_image_honest [of "replicate 64 7"],
      of "0x10000" 64 "[]" 0 demo_pldm_ext] demo_flash_idle_simps(6)
  by (auto simp: demo_blocks_def ver_ok_def COMP_STR_SIZE_def)

text \<open>
  (C18) The whole update of a voltage regulator at the bus and address that its pre-update function chooses, for the same
  sizes as the update of a flash: after the dialogue the thread ends, and unless it ends with
  the failure state, the image was put together in a buffer of its size, byte for byte, the driver of
  the regulator that the version string of UpdateComponent names was called with it at that bus and address and succeeded, and the buffer was
  given back. With an agent that serves every request, memory for the image, a version string that names a regulator and a driver that succeeds,
  the update succeeds. While the thread waits, the update may be cancelled, but no other component is updated.
\<close>

theorem vr_update_session:
  assumes "fw_inv (fp_work p) s" and "fu_state s = STATE_IDLE" and "comp_offered p comp_id info s" and "ver_ok ver"
    and "fw_dest_info info (pldm_vr_update malloc fwupdate) (bus, addr)" and "fw_rd_ok img rd" and "fw_rd_keeps (vr_names ver) rd"
    and "fw_sizes_ok \<lparr>uc_image_size = of_nat (length img), uc_max_buff_size = min 256 (ucast (transfer_size :: u32))\<rparr> (length img)"
    and "\<forall>k b. malloc k = Some b \<longrightarrow> length b = k" and "fu_world s = (None, v0)"
  shows "\<exists>s'. req_fw_update_handler (fp_work p) rd
        (fw_run p inst (update_dialogue ext transfer_size comp_id ver (of_nat (length img))) s) = Some s'
    \<and> fu_thread s' = None
    \<and> (fu_aux s' \<noteq> STATE_AUX_FAILED
        \<longrightarrow> (\<exists>k v. vr_match ver = Some k \<and> fwupdate k v0 bus addr img = (v, True) \<and> fu_world s' = (None, v)))
    \<and> (fw_rd_honest rd \<longrightarrow> vr_works malloc fwupdate v0 (bus, addr) ver img
        \<longrightarrow> fu_state s' = STATE_RDY_XFER \<and> fu_aux s' = STATE_AUX_SUCCESS)"
proof -
  let ?cfg = "\<lparr>uc_image_size = of_nat (length img), uc_max_buff_size = min 256 (ucast transfer_size)\<rparr>"
  have pos: "0 < length img" using assms(8) by (simp add: fw_sizes_ok_def)
  have st: "vr_stream malloc fwupdate v0 (bus, addr) ver ?cfg img 0 (fu_world s)"
    using assms(8-10) by (simp add: vr_stream_def)
  have lg: "(bus, addr) = (bus, addr) \<and> vr_names ver ver" by (simp add: vr_names_def)
  have "fw_rd_keeps (\<lambda>str. (bus, addr) = (bus, addr) \<and> vr_names ver str) rd" using assms(7) by simp
  from vr.update_session [OF assms(1-6) st lg this, of inst ext] pos
  show ?thesis by (fastforce simp: vr_stream_def prod_eq_iff)
qed

theorem vr_update_session_witness:
  "\<exists>s'. req_fw_update_handler (fp_work (fw_demo_plat :: (bytes option \<times> bytes) fw_plat)) (serve_image (replicate 64 7))
      (fw_run fw_demo_plat 0 (update_dialogue demo_pldm_ext 32 3 (kw ''isl69259'') 64) vr_demo_idle) = Some s'
    \<and> fu_thread s' = None \<and> fu_state s' = STATE_RDY_XFER \<and> fu_world s' = (None, 5 # 0x60 # replicate 64 7)"
proof -
  let ?drv = "\<lambda>k v b a img. (b # a # img :: bytes, True)"
  let ?upd = "pldm_vr_update (\<lambda>n. Some (zeros n)) ?drv"
  have a: "fw_inv (fp_work fw_demo_plat) vr_demo_idle" "fu_state vr_demo_idle = STATE_IDLE"
    by (simp_all add: vr_demo_idle_def fw_demo_idle_inv, simp add: fw_demo_idle_def)
  have b: "comp_offered fw_demo_plat 3 vr_demo_info vr_demo_idle"
    by (simp add: vr_demo_idle_def vr_demo_info_def comp_offered_def fw_demo_plat_def fw_demo_idle_def fw_demo_info_def)
  have v: "ver_ok (kw ''isl69259'')" by code_simp
  have i: "fw_dest_info vr_demo_info ?upd (5, 0x60)"
    by (simp add: vr_demo_info_def fw_dest_info_def fw_demo_info_def)
  have k: "fw_rd_keeps (vr_names (kw ''isl69259'')) (serve_image (replicate 64 7))"
    by (auto simp: fw_rd_keeps_def serve_image_def split: if_splits)
  have c: "fw_sizes_ok \<lparr>uc_image_size = of_nat (length (replicate 64 (7 :: u8))),
      uc_max_buff_size = min 256 (ucast (32 :: u32))\<rparr> (length (replicate 64 (7 :: u8)))"
    by (simp add: fw_sizes_ok_def min_def)
  have d: "\<forall>k b. Some (zeros k) = Some b \<longrightarrow> length b = k" "fu_world vr_demo_idle = (None, [])"
    by (auto simp: vr_demo_idle_def fw_demo_idle_def)
  have m: "vr_match (kw ''isl69259'') = Some (kw ''isl69259'')" by code_simp
  then have w: "vr_works (\<lambda>n. Some (zeros n)) ?drv [] (5, 0x60) (kw ''isl69259'') (replicate 64 7)"
    by (simp add: vr_works_def)
  show ?thesis
    using vr_update_session [OF a b v i serve_image_ok [of "replicate 64 7"] k c d, of 0 demo_pldm_ext]
      serve_image_honest [of "replicate 64 7"] w by auto
qed

text \<open>
  A last piece of less than 32 bytes is requested as 32 bytes of which only the piece is passed on. After one
  answer of the wrong length the request is repeated with the enlarged length as the expected one, so 32 bytes
  are passed on, and \<^verbatim>\<open>pldm_vr_update\<close> writes them behind the end of its buffer of the size of the image.
\<close>

theorem vr_update_retry_overruns:
  assumes "fu_keep s" and "0 < unat ofs" and "unat ofs < unat (uc_image_size (fu_cfg s))"
    and "unat (uc_image_size (fu_cfg s)) < unat ofs + 32" and "unat (uc_image_size (fu_cfg s)) < 2147483648"
    and "unat len \<le> 32" and "last_ofs \<noteq> ofs"
    and "rd s PLDM_FW_UPDATE_CMD_CODE_REQUEST_FIRMWARE_DATA (le32 ofs @ le32 32) 33 = Some (s1, k, r1)"
    and "k \<noteq> 0" and "k \<noteq> 33" and "fu_keep s1" and "fu_cfg s1 = fu_cfg s"
    and "rd s1 PLDM_FW_UPDATE_CMD_CODE_REQUEST_FIRMWARE_DATA (le32 ofs @ le32 32) 33 = Some (s2, 33, r2)"
    and "nth0 r2 0 = PLDM_SUCCESS" and "fu_cfg s2 = fu_cfg s"
    and "fu_world s2 = (Some hex, v)" and "length hex = unat (uc_image_size (fu_cfg s))"
  shows "download_loop rd (pldm_vr_update malloc fwupdate) s p ofs len last_ofs 0 = None"
proof -
  let ?upd = "pldm_vr_update malloc fwupdate"
  have rl: "request_length (fu_cfg s) ofs len = (32, len)" by (rule request_length_baseline [OF assms(3,5,6)])
  have rl2: "request_length (fu_cfg s1) ofs 32 = (32, 32)"
    unfolding assms(12) by (rule request_length_baseline [OF assms(3,5)]) simp
  have k: "(ucast k :: u32) \<noteq> 32 + 1"
  proof
    assume "(ucast k :: u32) = 32 + 1"
    then have "unat (ucast k :: u32) = 33" by simp
    then have "unat k = 33" by simp
    then show False using assms(10) by (simp add: word_unat_eq_iff)
  qed
  have "download_loop rd ?upd s p ofs len last_ofs 0 = download_loop rd ?upd s1 p ofs 32 ofs 1"
    by (rule download_loop_short [OF assms(1) rl _ assms(9) k assms(7)]) (use assms(8) in simp)
  moreover have "download_loop rd ?upd s1 p ofs 32 ofs 1 = None"
  proof -
    have o0: "ofs \<noteq> 0" "uc_image_size (fu_cfg s) \<noteq> 0" using assms(2,3) by auto
    have "handle_data rd ?upd s2 p ofs 32 r2 = None"
      using assms(4,14-17) o0 by (simp add: handle_data_def call_update_def pldm_vr_update_def)
    then show ?thesis
      using download_loop_full [OF assms(11) rl2, of rd s2 33 r2 ?upd p ofs 1] assms(13) by simp
  qed
  ultimately show ?thesis by simp
qed

theorem vr_update_retry_overruns_witness:
  "download_loop vr_demo_agent (pldm_vr_update (\<lambda>_. None) (\<lambda>_ v _ _ _. (v, True))) vr_demo
     (first_param (fw_demo_info None) vr_demo) 32 8 0 0 = None"
proof -
  let ?s1 = "vr_demo\<lparr>fu_timer := False\<rparr>"
  have a: "fu_keep vr_demo" "0 < unat (32 :: u32)" "unat (32 :: u32) < unat (uc_image_size (fu_cfg vr_demo))"
    "unat (uc_image_size (fu_cfg vr_demo)) < unat (32 :: u32) + 32" "unat (uc_image_size (fu_cfg vr_demo)) < 2147483648"
    "unat (8 :: u32) \<le> 32" "(0 :: u32) \<noteq> 32" by (simp_all add: vr_demo_def)
  have b: "vr_demo_agent vr_demo PLDM_FW_UPDATE_CMD_CODE_REQUEST_FIRMWARE_DATA (le32 32 @ le32 32) 33
      = Some (?s1, 9, PLDM_SUCCESS # replicate 8 1)" "(9 :: u16) \<noteq> 0" "(9 :: u16) \<noteq> 33" "fu_keep ?s1" "fu_cfg ?s1 = fu_cfg vr_demo"
    by (simp_all add: vr_demo_def vr_demo_agent_def)
  have c: "vr_demo_agent ?s1 PLDM_FW_UPDATE_CMD_CODE_REQUEST_FIRMWARE_DATA (le32 32 @ le32 32) 33
      = Some (?s1, 33, PLDM_SUCCESS # replicate 32 1)" "nth0 (PLDM_SUCCESS # replicate 32 1) 0 = PLDM_SUCCESS"
    "fu_world ?s1 = (Some (replicate 40 0), ())" "length (replicate 40 (0 :: u8)) = unat (uc_image_size (fu_cfg vr_demo))"
    by (simp_all add: vr_demo_def vr_demo_agent_def fw_demo_idle_def)
  show ?thesis by (rule vr_update_retry_overruns [where rd = vr_demo_agent and s = vr_demo and ofs = 32 and len = 8 and last_ofs = 0, OF a b c(1,2) b(5) c(3,4)])
qed

end
