(* ===== verification/Pldm_Fw_Devices.thy ===== *)
theory Pldm_Fw_Devices
  imports Pldm_Fw_Image Hal_I2c
begin

text \<open>
  The rest of \<^verbatim>\<open>common/service/pldm/pldm_firmware_update.c\<close>: the descriptors of the device, and the update functions
  for retimers and programmable logic. The EEPROM of a retimer is written over the I2C controller; the
  drivers that update a retimer itself or a logic device are arguments.
\<close>

section \<open>Descriptors\<close>

definition PLDM_PCI_VENDOR_ID :: u16 where "PLDM_PCI_VENDOR_ID = 0x0000"
definition PLDM_FWUP_IANA_ENTERPRISE_ID :: u16 where "PLDM_FWUP_IANA_ENTERPRISE_ID = 0x0001"
definition PLDM_PCI_DEVICE_ID :: u16 where "PLDM_PCI_DEVICE_ID = 0x0100"
definition PLDM_ASCII_MODEL_NUMBER_LONG_STRING :: u16 where "PLDM_ASCII_MODEL_NUMBER_LONG_STRING = 0x0106"
definition PLDM_ASCII_MODEL_NUMBER_SHORT_STRING :: u16 where "PLDM_ASCII_MODEL_NUMBER_SHORT_STRING = 0x0107"
definition PLDM_FWUP_VENDOR_DEFINED :: u16 where "PLDM_FWUP_VENDOR_DEFINED = 0xFFFF"
definition PLDM_COMP_ASCII :: u8 where "PLDM_COMP_ASCII = 1"

lemmas descriptor_types = PLDM_PCI_VENDOR_ID_def PLDM_FWUP_IANA_ENTERPRISE_ID_def PLDM_PCI_DEVICE_ID_def
  PLDM_ASCII_MODEL_NUMBER_LONG_STRING_def PLDM_ASCII_MODEL_NUMBER_SHORT_STRING_def PLDM_FWUP_VENDOR_DEFINED_def

text \<open>The strings of a descriptor; \<^verbatim>\<open>None\<close> is a null pointer.\<close>

record pldm_descriptor_string =
  ds_descriptor_type :: u16
  ds_title_string :: "bytes option"
  ds_descriptor_data :: "bytes option"

definition get_descriptor_type_length :: "u16 \<Rightarrow> int" where
  "get_descriptor_type_length ty =
    (if ty = PLDM_PCI_VENDOR_ID then 2
     else if ty = PLDM_FWUP_IANA_ENTERPRISE_ID then 4
     else if ty = PLDM_PCI_DEVICE_ID then 2
     else if ty = PLDM_ASCII_MODEL_NUMBER_LONG_STRING then 40
     else if ty = PLDM_ASCII_MODEL_NUMBER_SHORT_STRING then 10
     else - 1)"

text \<open>The length of the string of a null pointer is not defined.\<close>

definition get_device_single_descriptor_length :: "pldm_descriptor_string \<Rightarrow> int option" where
  "get_device_single_descriptor_length d =
    (if ds_descriptor_type d \<noteq> PLDM_FWUP_VENDOR_DEFINED then
       (case ds_descriptor_data d of None \<Rightarrow> None | Some bs \<Rightarrow> Some (5 - 1 + int (length bs)))
     else
       (case (ds_title_string d, ds_descriptor_data d) of
          (Some t, Some bs) \<Rightarrow> Some (7 - 1 + int (length t) + int (length bs))
        | _ \<Rightarrow> None))"

fun get_device_descriptor_total_length :: "pldm_descriptor_string list \<Rightarrow> int option" where
  "get_device_descriptor_total_length [] = Some 0"
| "get_device_descriptor_total_length (d # ds) =
    (case get_device_single_descriptor_length d of None \<Rightarrow> None
     | Some n \<Rightarrow> map_option (\<lambda>k. n + k) (get_device_descriptor_total_length ds))"

text \<open>The conversion of the C library to base 16, of strings that are too short to exceed its range.\<close>

definition hex_digit :: "u8 \<Rightarrow> nat option" where
  "hex_digit c = (if 0x30 \<le> c \<and> c \<le> 0x39 then Some (unat c - 0x30)
     else if 0x41 \<le> c \<and> c \<le> 0x46 then Some (unat c - 0x41 + 10)
     else if 0x61 \<le> c \<and> c \<le> 0x66 then Some (unat c - 0x61 + 10) else None)"

definition c_space :: "u8 \<Rightarrow> bool" where
  "c_space c \<longleftrightarrow> c = 0x20 \<or> 0x09 \<le> c \<and> c \<le> 0x0D"

fun hex_value :: "nat \<Rightarrow> bytes \<Rightarrow> nat" where
  "hex_value acc [] = acc"
| "hex_value acc (c # cs) = (case hex_digit c of None \<Rightarrow> acc | Some d \<Rightarrow> hex_value (16 * acc + d) cs)"

definition hex_prefix :: "bytes \<Rightarrow> bytes" where
  "hex_prefix s = (case s of z # x # d # r \<Rightarrow>
       if z = 0x30 \<and> (x = 0x78 \<or> x = 0x58) \<and> hex_digit d \<noteq> None then d # r else s | _ \<Rightarrow> s)"

definition strtol16 :: "bytes \<Rightarrow> int" where
  "strtol16 str =
    (case dropWhile c_space str of
       [] \<Rightarrow> 0
     | c # cs \<Rightarrow>
       if c = 0x2D then - int (hex_value 0 (hex_prefix cs))
       else if c = 0x2B then int (hex_value 0 (hex_prefix cs))
       else int (hex_value 0 (hex_prefix (c # cs))))"

text \<open>The first \<^verbatim>\<open>n\<close> pairs of characters as bytes.\<close>

definition hex_bytes :: "nat \<Rightarrow> bytes \<Rightarrow> bytes" where
  "hex_bytes n str = map (\<lambda>i. word_of_int (strtol16 (slice (2 * i) 2 str))) [0..<n]"

text \<open>
  The completion code and the bytes written to the buffer. The local array for a descriptor has 45 bytes; \<^verbatim>\<open>None\<close> is
  an access behind it or through a null pointer.
\<close>

definition fill_descriptor_into_buf :: "pldm_descriptor_string \<Rightarrow> u16 \<Rightarrow> (u8 \<times> bytes) option" where
  "fill_descriptor_into_buf d current_length =
    (case get_device_single_descriptor_length d of
       None \<Rightarrow> None
     | Some n \<Rightarrow>
       let descriptor_count = (word_of_int n :: u8) in
       if int PLDM_MAX_DATA_SIZE < uint current_length + uint descriptor_count then Some (PLDM_ERROR, [])
       else if ds_descriptor_type d \<noteq> PLDM_FWUP_VENDOR_DEFINED then
         let type_length = get_descriptor_type_length (ds_descriptor_type d);
             str = (case ds_descriptor_data d of None \<Rightarrow> [] | Some bs \<Rightarrow> bs) in
         if type_length < 0 then Some (PLDM_ERROR, [])
         else if int (length str div 2) \<noteq> type_length \<or> length str mod 2 \<noteq> 0 then Some (PLDM_ERROR, [])
         else
           let descriptor_count = descriptor_count - word_of_int type_length;
               tlv = le16 (ds_descriptor_type d) @ le16 (word_of_int type_length) @ hex_bytes (nat type_length) str in
           if 45 < length tlv \<or> 45 < unat descriptor_count then None
           else Some (PLDM_SUCCESS, take (unat descriptor_count) (tlv @ zeros 45))
       else
         (case (ds_title_string d, ds_descriptor_data d) of
            (Some t, Some bs) \<Rightarrow>
              let title_len = (of_nat (length t) :: u8);
                  tlv = le16 PLDM_FWUP_VENDOR_DEFINED @ le16 (2 + of_nat (length t) + of_nat (length bs))
                    @ [PLDM_COMP_ASCII, title_len] @ take (unat title_len) t @ bs in
              if 45 < length tlv \<or> 45 < unat descriptor_count then None
              else Some (PLDM_SUCCESS, take (unat descriptor_count) (tlv @ zeros 45))
          | _ \<Rightarrow> Some (PLDM_ERROR, [])))"

section \<open>Retimers\<close>

definition RETIMER_IMAGE_PACKAGE_SIZE :: u8 where "RETIMER_IMAGE_PACKAGE_SIZE = 64"
definition SECTOR_SZ_256 :: u32 where "SECTOR_SZ_256 = 0x100"
definition FWUPDATE_UPDATE_FAIL :: u8 where "FWUPDATE_UPDATE_FAIL = 4"

text \<open>
  The loop that writes the bytes of one call. Its message is filled with the offset and the data; \<^verbatim>\<open>None\<close> is a copy
  behind one of the buffers.
\<close>

partial_function (option) eeprom_loop ::
  "i2c_env \<Rightarrow> 'w i2c_write_fn \<Rightarrow> bytes \<Rightarrow> I2C_MSG \<Rightarrow> u32 \<Rightarrow> u16 \<Rightarrow> u8 \<Rightarrow> u8 \<Rightarrow> 'w
     \<Rightarrow> ('w \<times> I2C_MSG \<times> u8) option" where
  "eeprom_loop env i2c_write msg_buf msg ofs msg_len per_len buffer_offset w =
    (if msg_len = 0 then Some (w, msg, 0)
     else
       let len = (if ucast per_len \<le> msg_len then per_len else ucast msg_len);
           msg_len = msg_len - ucast len in
       if length msg_buf < unat buffer_offset + unat len \<or> length (i2c_data msg) < 2 + unat len then None
       else
         let msg = msg\<lparr>i2c_data := memcpy_at 0 ([ucast (drop_bit 8 ofs), ucast ofs]
                         @ slice (unat buffer_offset) (unat len) msg_buf) (i2c_data msg),
                       i2c_tx_len := 2 + len\<rparr> in
         (case i2c_master_write env i2c_write w msg 3 of
            None \<Rightarrow> None
          | Some (w, ret) \<Rightarrow>
            if ret \<noteq> 0 then Some (w, msg, FWUPDATE_UPDATE_FAIL)
            else eeprom_loop env i2c_write msg_buf msg (ofs + ucast len) msg_len len (buffer_offset + len) w))"

definition fw_recovery_eeprom ::
  "i2c_env \<Rightarrow> 'w i2c_write_fn \<Rightarrow> I2C_MSG \<Rightarrow> u32 \<Rightarrow> u16 \<Rightarrow> bytes \<Rightarrow> u8 \<Rightarrow> 'w
     \<Rightarrow> ('w \<times> I2C_MSG \<times> u8) option" where
  "fw_recovery_eeprom env i2c_write msg ofs msg_len msg_buf flg w =
    (let origin_target_addr = i2c_target_addr msg;
         msg = msg\<lparr>i2c_target_addr := i2c_target_addr msg + ucast (drop_bit 16 ofs AND 0xF)\<rparr>;
         ofs = ofs AND 0xFFFF in
     if ucast RETIMER_IMAGE_PACKAGE_SIZE < msg_len then Some (w, msg, FWUPDATE_OVER_LENGTH)
     else if msg_len = ucast RETIMER_IMAGE_PACKAGE_SIZE \<or> flg AND SECTOR_END_FLAG \<noteq> 0 then
       (case eeprom_loop env i2c_write msg_buf msg ofs msg_len RETIMER_IMAGE_PACKAGE_SIZE 0 w of
          None \<Rightarrow> None
        | Some (w, msg, r) \<Rightarrow>
          Some (w, if r = 0 then msg\<lparr>i2c_target_addr := origin_target_addr\<rparr> else msg, r))
     else Some (w, msg\<lparr>i2c_target_addr := origin_target_addr\<rparr>, 0))"

definition keyword_pt5161l :: bytes where "keyword_pt5161l = kw ''pt5161l''"
definition keyword_pt4080l :: bytes where "keyword_pt4080l = kw ''pt4080l''"
definition keyword_ds160pt801 :: bytes where "keyword_ds160pt801 = kw ''ds160pt801''"
definition keyword_cpld_lattice :: bytes where "keyword_cpld_lattice = kw ''LCMXO3-9400C''"

definition starts_with :: "bytes \<Rightarrow> bytes \<Rightarrow> bool" where
  "starts_with str k \<longleftrightarrow> take (length k) str = k"

text \<open>The next request of both retimer functions; the update, but not the recovery, keeps it within 256 bytes.\<close>

definition retimer_next :: "bool \<Rightarrow> pldm_fw_update_cfg \<Rightarrow> u32 \<Rightarrow> u32 \<Rightarrow> u32 \<times> u32" where
  "retimer_next within cfg ofs len =
    (let next_ofs = ofs + len; next_len = ucast (uc_max_buff_size cfg) in
     if next_ofs < uc_image_size cfg then
       let next_len = (if uc_image_size cfg < next_ofs + next_len
                       then uc_image_size cfg - next_ofs else next_len) in
       (next_ofs, if within \<and> SECTOR_SZ_256 < next_ofs mod SECTOR_SZ_256 + next_len
                  then SECTOR_SZ_256 - next_ofs mod SECTOR_SZ_256 else next_len)
     else (next_ofs, 0))"

text \<open>The largest part of the rest that lies in one bank of 64 KiB, one page of 256 bytes and one package.\<close>

definition chunk_len :: "u32 \<Rightarrow> u32 \<Rightarrow> u8" where
  "chunk_len current_offset remaining_len =
    (let next_boundary = (current_offset AND NOT 0xFFFF) + 0x10000;
         max_chunk_len = next_boundary - current_offset;
         allowed_len = 256 - current_offset mod 256;
         chunk = (if ucast RETIMER_IMAGE_PACKAGE_SIZE < remaining_len then RETIMER_IMAGE_PACKAGE_SIZE
                  else ucast remaining_len);
         chunk = (if max_chunk_len < ucast chunk then ucast max_chunk_len else chunk) in
     if allowed_len < ucast chunk then ucast allowed_len else chunk)"

partial_function (option) recovery_loop ::
  "i2c_env \<Rightarrow> 'w i2c_write_fn \<Rightarrow> I2C_MSG \<Rightarrow> u32 \<Rightarrow> bytes \<Rightarrow> u32 \<Rightarrow> u8 \<Rightarrow> 'w \<Rightarrow> ('w \<times> u8) option" where
  "recovery_loop env i2c_write msg current_offset current_data remaining_len update_flag w =
    (if remaining_len = 0 then Some (w, 0)
     else
       let chunk = chunk_len current_offset remaining_len;
           update_flag = (if chunk \<noteq> RETIMER_IMAGE_PACKAGE_SIZE then SECTOR_END_FLAG else update_flag) in
       (case fw_recovery_eeprom env i2c_write msg current_offset (ucast chunk) current_data update_flag w of
          None \<Rightarrow> None
        | Some (w, msg, ret) \<Rightarrow>
          if ret \<noteq> 0 then Some (w, 1)
          else recovery_loop env i2c_write msg (current_offset + ucast chunk) (drop (unat chunk) current_data)
                 (remaining_len - ucast chunk) update_flag w))"

text \<open>\<^verbatim>\<open>msg\<close> is the local message, whose data are not initialised.\<close>

definition pldm_retimer_recovery :: "i2c_env \<Rightarrow> 'w i2c_write_fn \<Rightarrow> I2C_MSG \<Rightarrow> 'w fwupdate_func" where
  "pldm_retimer_recovery env i2c_write msg cfg w p =
    (let msg = msg\<lparr>i2c_bus := up_bus p, i2c_target_addr := up_addr p\<rparr>;
         nxt = retimer_next False cfg (up_data_ofs p) (up_data_len p);
         p = p\<lparr>up_next_ofs := fst nxt, up_next_len := snd nxt\<rparr>;
         update_flag = (if up_next_ofs p < uc_image_size cfg then 0 else SECTOR_END_FLAG) in
     if starts_with (up_comp_version_str p) keyword_pt5161l \<or> starts_with (up_comp_version_str p) keyword_pt4080l then
       (case recovery_loop env i2c_write msg (up_data_ofs p) (up_data p) (up_data_len p) update_flag w of
          None \<Rightarrow> None | Some (w, r) \<Rightarrow> Some (w, p, r))
     else Some (w, p, 1))"

text \<open>
  \<^verbatim>\<open>pcie\<close> and \<^verbatim>\<open>ds160\<close> are the drivers of the two kinds of retimers; the second, which moves offset and length itself, is
  missing from some builds.
\<close>

definition pldm_retimer_update ::
  "('w \<Rightarrow> u8 \<Rightarrow> u8 \<Rightarrow> u32 \<Rightarrow> bytes \<Rightarrow> u8 \<Rightarrow> 'w \<times> u8)
     \<Rightarrow> ('w \<Rightarrow> u8 \<Rightarrow> u8 \<Rightarrow> u32 \<Rightarrow> u32 \<Rightarrow> bytes \<Rightarrow> u8 \<Rightarrow> 'w \<times> u8 \<times> u32 \<times> u32) option \<Rightarrow> 'w fwupdate_func" where
  "pldm_retimer_update pcie ds160 cfg w p =
    (let nxt = retimer_next True cfg (up_data_ofs p) (up_data_len p);
         p = p\<lparr>up_next_ofs := fst nxt, up_next_len := snd nxt\<rparr>;
         update_flag = (if up_next_ofs p < uc_image_size cfg then 0 else SECTOR_END_FLAG) in
     if starts_with (up_comp_version_str p) keyword_pt5161l \<or> starts_with (up_comp_version_str p) keyword_pt4080l then
       (case pcie w (up_bus p) (up_addr p) (up_data_ofs p)
               (take (unat (ucast (up_data_len p) :: u16)) (up_data p)) update_flag of
          (w, ret) \<Rightarrow> Some (w, p, if ret \<noteq> 0 then 1 else 0))
     else if starts_with (up_comp_version_str p) keyword_ds160pt801 then
       (case ds160 of
          None \<Rightarrow> Some (w, p, 1)
        | Some drv \<Rightarrow> (case drv w (up_bus p) (up_addr p) (up_data_ofs p) (up_data_len p) (up_data p) update_flag of
            (w, ret, ofs, len) \<Rightarrow> Some (w, p\<lparr>up_data_ofs := ofs, up_data_len := len, up_next_ofs := ofs, up_next_len := len\<rparr>,
              if ret \<noteq> 0 then 1 else 0)))
     else Some (w, p, 1))"

section \<open>Programmable logic and activation\<close>

text \<open>\<^verbatim>\<open>lattice\<close> is the driver, which gets the device type from the version string and returns the next request.\<close>

definition pldm_cpld_update ::
  "('w \<Rightarrow> pldm_fw_update_param \<Rightarrow> 'w \<times> bool \<times> u32 \<times> u32) \<Rightarrow> 'w fwupdate_func" where
  "pldm_cpld_update lattice cfg w p =
    (if starts_with (up_comp_version_str p) keyword_cpld_lattice then
       (case lattice w p of (w, ok, next_ofs, next_len) \<Rightarrow>
          if ok then Some (w, p\<lparr>up_next_len := next_len, up_next_ofs := next_ofs\<rparr>, 0) else Some (w, p, 1))
     else Some (w, p, 1))"

text \<open>\<^verbatim>\<open>schedule\<close> is the delayed work that resets the controller.\<close>

definition pldm_bic_activate :: "('w \<Rightarrow> 'w) \<Rightarrow> 'w \<Rightarrow> 'w \<times> u8" where
  "pldm_bic_activate schedule w = (schedule w, 0)"

subsection \<open>Reference definitions and examples\<close>

text \<open>The bytes that a string of pairs of hexadecimal digits denotes.\<close>

fun hex_pairs :: "bytes \<Rightarrow> bytes option" where
  "hex_pairs [] = Some []"
| "hex_pairs [c] = None"
| "hex_pairs (c # d # r) =
    (case (hex_digit c, hex_digit d, hex_pairs r) of
       (Some a, Some b, Some bs) \<Rightarrow> Some (of_nat (16 * a + b) # bs)
     | _ \<Rightarrow> None)"

definition pci_vendor :: pldm_descriptor_string where
  "pci_vendor = \<lparr>ds_descriptor_type = PLDM_PCI_VENDOR_ID, ds_title_string = None, ds_descriptor_data = Some (kw ''1d9B'')\<rparr>"

definition vendor_string :: "nat \<Rightarrow> pldm_descriptor_string" where
  "vendor_string n = \<lparr>ds_descriptor_type = PLDM_FWUP_VENDOR_DEFINED, ds_title_string = Some (kw ''SKU''),
     ds_descriptor_data = Some (replicate n 0x41)\<rparr>"

text \<open>
  An EEPROM behind sixteen addresses from \<^verbatim>\<open>base\<close>, 64 KiB each: a write of a position and data that stays within a
  page of 256 bytes changes at most these bytes and stores the data if it succeeds.
\<close>

definition eeprom_ok :: "'w i2c_write_fn \<Rightarrow> u8 \<Rightarrow> ('w \<Rightarrow> bytes) \<Rightarrow> bool" where
  "eeprom_ok f base mem \<longleftrightarrow> (\<forall>w k hi lo bs. k < 16 \<longrightarrow> unat lo + length bs \<le> 256
     \<longrightarrow> k * 65536 + unat hi * 256 + unat lo + length bs \<le> length (mem w)
     \<longrightarrow> (case f w (hi # lo # bs) (base + of_nat k) of (w', ret) \<Rightarrow>
           same_outside (k * 65536 + unat hi * 256 + unat lo) (length bs) (mem w) (mem w')
         \<and> (ret = 0 \<longrightarrow> slice (k * 65536 + unat hi * 256 + unat lo) (length bs) (mem w') = bs)))"

definition eeprom_works :: "i2c_env \<Rightarrow> 'w i2c_write_fn \<Rightarrow> u8 \<Rightarrow> bool" where
  "eeprom_works env f bus \<longleftrightarrow> ie_dev env bus \<and> ie_lock env \<and> ie_malloc_tx env \<and> (\<forall>w b a. snd (f w b a) = 0)"

text \<open>An EEPROM of 512 bytes at the addresses from \<^verbatim>\<open>0x50\<close>.\<close>

definition demo_eeprom :: "bytes i2c_write_fn" where
  "demo_eeprom m b a = (case b of hi # lo # bs \<Rightarrow>
       let pos = unat (a - 0x50) * 65536 + unat hi * 256 + unat lo in
       if pos + length bs \<le> length m then (memcpy_at pos bs m, 0) else (m, 0)
     | _ \<Rightarrow> (m, 0))"

definition demo_retimer :: pldm_fw_update_param where
  "demo_retimer = \<lparr>up_comp_id = 5, up_comp_version_str = kw ''pt4080l_v1'', up_data = replicate 100 7, up_data_ofs = 200,
     up_data_len = 100, up_next_ofs = 0, up_next_len = 0, up_inf = COMP_UPDATE_VIA_I2C, up_bus = 1, up_addr = 0x50\<rparr>"

definition demo_recovery_env :: i2c_env where
  "demo_recovery_env = \<lparr>ie_dev = \<lambda>_. True, ie_lock = True, ie_malloc_tx = True, ie_malloc_rx = True, ie_obmf = False\<rparr>"

definition demo_recovery_msg :: I2C_MSG where
  "demo_recovery_msg = \<lparr>i2c_bus = 0, i2c_target_addr = 0, i2c_rx_len = 0, i2c_tx_len = 0, i2c_data = zeros 256\<rparr>"

section \<open>Properties\<close>

lemma hex_digit_plain:
  assumes "hex_digit c = Some a"
  shows "\<not> c_space c" "c \<noteq> 0x2D" "c \<noteq> 0x2B"
  using assms by (auto simp: hex_digit_def c_space_def word_le_nat_alt word_unat_eq_iff split: if_splits)

lemma strtol16_pair:
  assumes "hex_digit c = Some a" and "hex_digit d = Some b"
  shows "strtol16 [c, d] = int (16 * a + b)"
  using hex_digit_plain [OF assms(1)] assms by (simp add: strtol16_def hex_prefix_def)

lemma hex_bytes_pairs:
  "hex_pairs str = Some bs \<Longrightarrow> hex_bytes (length bs) str = bs \<and> length str = 2 * length bs"
proof (induction str arbitrary: bs rule: hex_pairs.induct)
  case (3 c d r)
  from 3(2) obtain a b cs where h: "hex_digit c = Some a" "hex_digit d = Some b" "hex_pairs r = Some cs"
    and bs: "bs = of_nat (16 * a + b) # cs" by (auto split: option.splits)
  have a: "slice (2 * Suc i) 2 (c # d # r) = slice (2 * i) 2 r" for i by (simp add: slice_def)
  have b: "strtol16 (slice 0 2 (c # d # r)) = int (16 * a + b)"
    using strtol16_pair [OF h(1,2)] by (simp add: slice_def)
  have "hex_bytes (Suc k) (c # d # r) = of_nat (16 * a + b) # hex_bytes k r" for k
  proof -
    have "[0..<Suc k] = 0 # map Suc [0..<k]" by (simp add: map_Suc_upt upt_conv_Cons del: upt_Suc)
    with a b show ?thesis unfolding hex_bytes_def by (simp add: comp_def del: upt_Suc)
  qed
  then show ?case using 3(1) [OF h(3)] bs by simp
qed (simp_all add: hex_bytes_def)

lemma int_less_uint_sum: "int n < uint x + uint y \<longleftrightarrow> n < unat x + unat y"
  by (subst of_nat_less_iff [symmetric, where 'a = int]) simp

lemma fill_plain:
  assumes "ds_descriptor_type d \<noteq> PLDM_FWUP_VENDOR_DEFINED" and "ds_descriptor_data d = Some str"
    and "get_device_single_descriptor_length d = Some n" and "word_of_int n = (c :: u8)"
    and "get_descriptor_type_length (ds_descriptor_type d) = int k" and "length str = 2 * k"
    and "unat (c - word_of_int (int k)) = 4 + k" and "4 + k \<le> 45"
  shows "fill_descriptor_into_buf d current = Some
    (if PLDM_MAX_DATA_SIZE < unat current + unat c then (PLDM_ERROR, [])
     else (PLDM_SUCCESS, le16 (ds_descriptor_type d) @ le16 (of_nat k) @ hex_bytes k str))"
proof -
  have l: "length (le16 (ds_descriptor_type d) @ le16 (word_of_int (int k)) @ hex_bytes k str) = 4 + k"
    by (simp add: hex_bytes_def)
  have t: "take (4 + k) ((le16 (ds_descriptor_type d) @ le16 (word_of_int (int k)) @ hex_bytes k str) @ zeros 45)
    = le16 (ds_descriptor_type d) @ le16 (word_of_int (int k)) @ hex_bytes k str"
    by (subst l [symmetric], subst append_eq_conv_conj [THEN iffD1, OF refl, THEN conjunct1, symmetric]) simp
  show ?thesis
    unfolding fill_descriptor_into_buf_def assms(2-5) option.case Let_def nat_int l int_less_uint_sum assms(7) t
    using assms(1,6,8) by simp
qed

text \<open>
  (C26) A descriptor that is not vendor defined and whose string is pairs of hexadecimal digits, on every branch: the
  buffer gets type, length and the bytes that the digits denote if the string has the length of the type and
  the header, the string and the current length together do not exceed 512; otherwise the result is an error and nothing is written.
\<close>

theorem descriptor_filled:
  assumes ty: "ds_descriptor_type d \<noteq> PLDM_FWUP_VENDOR_DEFINED"
    and str: "ds_descriptor_data d = Some str" "hex_pairs str = Some bs"
  shows "fill_descriptor_into_buf d current = Some
    (if int (length bs) = get_descriptor_type_length (ds_descriptor_type d)
        \<and> unat current + 4 + 2 * length bs \<le> PLDM_MAX_DATA_SIZE
     then (PLDM_SUCCESS, le16 (ds_descriptor_type d) @ le16 (of_nat (length bs)) @ bs) else (PLDM_ERROR, []))"
proof -
  note hb = hex_bytes_pairs [OF str(2)]
  define k where "k = length bs"
  have len: "get_device_single_descriptor_length d = Some (int (4 + 2 * k))"
    using ty str(1) hb by (simp add: get_device_single_descriptor_length_def k_def)
  let ?c = "word_of_int (int (4 + 2 * k)) :: u8"
  show ?thesis
  proof (cases "int k = get_descriptor_type_length (ds_descriptor_type d)")
    case True
    then have "int k \<in> {2, 4, 40, 10}"
      by (simp add: get_descriptor_type_length_def split: if_splits)
    then have k: "k \<in> {2, 4, 10, 40}" by auto
    then have c: "unat ?c = 4 + 2 * k" "unat (?c - word_of_int (int k)) = 4 + k" by auto
    have "length bs = k" "length str = 2 * k" "hex_bytes k str = bs" using hb by (simp_all add: k_def)
    moreover have "fill_descriptor_into_buf d current = Some
        (if PLDM_MAX_DATA_SIZE < unat current + unat ?c then (PLDM_ERROR, [])
         else (PLDM_SUCCESS, le16 (ds_descriptor_type d) @ le16 (of_nat k) @ hex_bytes k str))"
      by (rule fill_plain [OF ty str(1) len refl True [symmetric] _ c(2)]) (use hb k in \<open>auto simp: k_def\<close>)
    ultimately show ?thesis unfolding c(1) using True by auto
  next
    case False
    then show ?thesis using ty str hb len
      by (simp add: fill_descriptor_into_buf_def Let_def k_def)
  qed
qed

theorem descriptor_filled_witness:
  "fill_descriptor_into_buf pci_vendor 10 = Some (PLDM_SUCCESS, [0x00, 0x00, 2, 0, 0x1D, 0x9B])"
proof -
  have "hex_pairs (kw ''1d9B'') = Some [0x1D, 0x9B]" by (simp add: kw_def hex_digit_def)
  then show ?thesis
    using descriptor_filled [of pci_vendor "kw ''1d9B''" "[0x1D, 0x9B]" 10]
    by (simp add: pci_vendor_def descriptor_types get_descriptor_type_length_def PLDM_MAX_DATA_SIZE_def le16_def)
qed

text \<open>
  (C38) A vendor defined descriptor that fits into the message: title and data of together at most 39 bytes are encoded
  behind type, length and the title's length; longer ones are written behind the end of the local array, which has room for the longest standard descriptor only.
\<close>

theorem vendor_descriptor_filled:
  assumes "ds_descriptor_type d = PLDM_FWUP_VENDOR_DEFINED" and "ds_title_string d = Some t" and "ds_descriptor_data d = Some bs"
    and "6 + length t + length bs < 256" and "unat current + 6 + length t + length bs \<le> PLDM_MAX_DATA_SIZE"
  shows "fill_descriptor_into_buf d current =
    (if length t + length bs \<le> 39 then Some (PLDM_SUCCESS, le16 PLDM_FWUP_VENDOR_DEFINED
       @ le16 (of_nat (2 + length t + length bs)) @ [PLDM_COMP_ASCII, of_nat (length t)] @ t @ bs) else None)"
proof -
  define n where "n = 6 + length t + length bs"
  have len: "get_device_single_descriptor_length d = Some (int n)"
    using assms(1-3) by (simp add: get_device_single_descriptor_length_def n_def)
  have c: "unat (word_of_int (int n) :: u8) = n"
  proof -
    have "unat (of_nat n :: u8) = n" using assms(4) by (subst unat_of_nat_lt) (simp_all add: n_def)
    then show ?thesis by simp
  qed
  have tl: "unat (of_nat (length t) :: u8) = length t" using assms(4) by (subst unat_of_nat_lt) simp_all
  have m: "\<not> int PLDM_MAX_DATA_SIZE < uint current + uint (word_of_int (int n) :: u8)"
    unfolding int_less_uint_sum c using assms(5) by (simp add: n_def)
  let ?tlv = "le16 PLDM_FWUP_VENDOR_DEFINED @ le16 (2 + of_nat (length t) + of_nat (length bs))
    @ [PLDM_COMP_ASCII, of_nat (length t)] @ t @ bs"
  have tlv: "length ?tlv = n" by (simp add: n_def)
  have tk: "take n (?tlv @ zeros 45) = ?tlv" by (subst tlv [symmetric]) simp
  show ?thesis
    unfolding fill_descriptor_into_buf_def len assms(1-3) option.case prod.case Let_def c tl take_all [OF order_refl]
    using m tlv tk by (simp add: n_def add.assoc)
qed

theorem vendor_descriptor_filled_witness:
  "fill_descriptor_into_buf (vendor_string 2) 10 = Some (PLDM_SUCCESS, [0xFF, 0xFF, 7, 0, 1, 3, 0x53, 0x4B, 0x55, 0x41, 0x41])
   \<and> fill_descriptor_into_buf (vendor_string 40) 10 = None"
proof -
  have l: "length (kw ''SKU'') = 3" by (simp add: kw_def)
  have "fill_descriptor_into_buf (vendor_string k) 10 = (if k \<le> 36 then Some (PLDM_SUCCESS, le16 PLDM_FWUP_VENDOR_DEFINED
      @ le16 (of_nat (5 + k)) @ [PLDM_COMP_ASCII, 3] @ kw ''SKU'' @ replicate k 0x41) else None)" if "k \<le> 40" for k
    using vendor_descriptor_filled [of "vendor_string k" "kw ''SKU''" "replicate k 0x41" 10] that
    by (simp add: vendor_string_def PLDM_MAX_DATA_SIZE_def l)
  moreover have "replicate 2 (0x41 :: u8) = [0x41, 0x41]" by (simp add: numeral_2_eq_2)
  ultimately show ?thesis
    by (simp add: PLDM_FWUP_VENDOR_DEFINED_def PLDM_COMP_ASCII_def le16_def kw_def)
qed

lemma write_attempts_eeprom:
  fixes hi lo :: u8 and k :: nat
  assumes "eeprom_ok f base mem" and "k < 16" and "unat lo + length bs \<le> 256"
  defines "pos \<equiv> k * 65536 + unat hi * 256 + unat lo"
  assumes "pos + length bs \<le> length (mem w)" and "write_attempts se f (hi # lo # bs) (base + of_nat k) n w r = (w', ret)" and "r \<noteq> 0"
  shows "same_outside pos (length bs) (mem w) (mem w') \<and> (ret = 0 \<longrightarrow> mem w' = memcpy_at pos bs (mem w))"
  using assms(5-)
proof (induction n arbitrary: w r)
  case (Suc n)
  obtain w1 r1 where f: "f w (hi # lo # bs) (base + of_nat k) = (w1, r1)" by fastforce
  have C: "same_outside pos (length bs) (mem w) (mem w1)" "r1 = 0 \<longrightarrow> slice pos (length bs) (mem w1) = bs"
    using assms(1) [unfolded eeprom_ok_def, THEN spec [of _ w], THEN spec [of _ k], THEN spec [of _ hi],
        THEN spec [of _ lo], THEN spec [of _ bs]] assms(2,3) Suc.prems(1) f by (simp_all add: pos_def)
  show ?case
  proof (cases "r1 = 0 \<or> se \<and> r1 \<noteq> - EAGAIN")
    case True
    then have "w' = w1" "ret = r1" using Suc.prems(2) f by auto
    then show ?thesis using C same_outside_memcpy by blast
  next
    case False
    then have rec: "write_attempts se f (hi # lo # bs) (base + of_nat k) n w1 r1 = (w', ret)" "r1 \<noteq> 0" using Suc.prems(2) f by auto
    have "length (mem w1) = length (mem w)" using C(1) by (simp add: same_outside_def)
    then have I: "same_outside pos (length bs) (mem w1) (mem w')" "ret = 0 \<longrightarrow> mem w' = memcpy_at pos bs (mem w1)"
      using Suc.IH [OF _ rec] Suc.prems(1) by simp_all
    have "memcpy_at pos bs (mem w1) = memcpy_at pos bs (mem w)"
      using C(1) by (simp add: same_outside_def memcpy_at_def)
    then show ?thesis using I same_outside_trans [OF C(1) I(1)] by simp
  qed
qed simp

lemma eeprom_offset:
  fixes ofs :: u32
  assumes "unat ofs < 1048576"
  shows "(ucast (drop_bit 16 ofs AND 0xF) :: u8) = of_nat (unat ofs div 65536)"
    and "unat (ucast (drop_bit 8 (ofs AND 0xFFFF)) :: u8) = unat ofs div 256 mod 256"
    and "unat (ucast (ofs AND 0xFFFF) :: u8) = unat ofs mod 256"
proof -
  have m4: "(0xF :: u32) = mask 4" and m16: "(0xFFFF :: u32) = mask 16" by (simp_all add: mask_eq_exp_minus_1)
  show "unat (ucast (ofs AND 0xFFFF) :: u8) = unat ofs mod 256"
    unfolding m16 take_bit_eq_mask [symmetric]
    by (simp add: unsigned_ucast_eq unsigned_take_bit_eq take_bit_eq_mod unat_mod mod_mod_cancel)
  show "unat (ucast (drop_bit 8 (ofs AND 0xFFFF)) :: u8) = unat ofs div 256 mod 256"
    unfolding m16 take_bit_eq_mask [symmetric]
    using mod_mult2_eq [of "unat ofs" 256 256]
    by (simp add: unsigned_ucast_eq unsigned_take_bit_eq unat_drop_bit_eq take_bit_eq_mod drop_bit_eq_div unat_div unat_mod)
  show "(ucast (drop_bit 16 ofs AND 0xF) :: u8) = of_nat (unat ofs div 65536)"
    unfolding m4 take_bit_eq_mask [symmetric] word_unat_eq_iff
    using assms by (simp add: unsigned_ucast_eq unsigned_take_bit_eq unat_drop_bit_eq take_bit_eq_mod drop_bit_eq_div unsigned_of_nat unat_div unat_mod)
qed

text \<open>One package: a call that has data for one transfer only.\<close>

lemma eeprom_write_package:
  fixes ofs :: u32 and buf :: bytes
  defines "n \<equiv> unat ofs"
  assumes ok: "eeprom_ok f base mem" and sz: "length (mem w) \<le> 1048576"
    and l: "0 < unat len" "unat len \<le> 64" "unat len \<le> length buf" "n mod 256 + unat len \<le> 256" "n + unat len \<le> length (mem w)"
    and flg: "len = 64 \<or> flg AND SECTOR_END_FLAG \<noteq> 0"
    and msg: "66 \<le> length (i2c_data msg)" "i2c_target_addr msg = base"
  shows "\<exists>w' msg' r. fw_recovery_eeprom env f msg ofs (ucast (len :: u8)) buf flg w = Some (w', msg', r)
    \<and> same_outside n (unat len) (mem w) (mem w') \<and> (r = 0 \<longrightarrow> mem w' = memcpy_at n (take (unat len) buf) (mem w)
        \<and> length (i2c_data msg') = length (i2c_data msg) \<and> i2c_target_addr msg' = base \<and> i2c_bus msg' = i2c_bus msg)
    \<and> (eeprom_works env f (i2c_bus msg) \<longrightarrow> r = 0)"
proof -
  let ?L = "unat len" and ?d = "take (unat len) buf"
  let ?hi = "ucast (drop_bit 8 (ofs AND 0xFFFF)) :: u8" and ?lo = "ucast (ofs AND 0xFFFF) :: u8"
  let ?msg = "msg\<lparr>i2c_target_addr := base + of_nat (n div 65536),
    i2c_data := memcpy_at 0 ([?hi, ?lo] @ ?d) (i2c_data msg), i2c_tx_len := 2 + len\<rparr>"
  have lt: "n < 1048576" using sz l by simp
  note O = eeprom_offset [OF lt [unfolded n_def], folded n_def]
  have pos: "(n div 65536) * 65536 + unat ?hi * 256 + unat ?lo = n"
  proof -
    show ?thesis unfolding O using mod_mult2_eq [of n 256 256] div_mult_mod_eq [of n 65536] by simp
  qed
  have len: "unat (2 + len) = 2 + ?L" by (subst unat_plus_no_wrap) (use l in simp_all)
  have tx: "take (unat (i2c_tx_len ?msg)) (i2c_data ?msg) = ?hi # ?lo # ?d"
    using l(3) msg(1) by (simp add: len memcpy_at_def)
  define ready where "ready \<longleftrightarrow> ie_dev env (i2c_bus msg) \<and> ie_lock env \<and> ie_malloc_tx env"
  define res where "res = (if ready then write_attempts (ie_obmf env) f (?hi # ?lo # ?d) (base + of_nat (n div 65536)) 4 w (-1)
    else (w, if ie_dev env (i2c_bus msg) \<and> \<not> ie_lock env then ENOLCK else -1))"
  obtain w1 r1 where res: "res = (w1, r1)" by fastforce
  have M: "i2c_master_write env f w ?msg 3 = Some (w1, r1)"
    unfolding res [symmetric] res_def ready_def by (subst i2c_master_write_eq) (simp, subst tx, simp)
  have R: "same_outside n ?L (mem w) (mem w1) \<and> (r1 = 0 \<longrightarrow> mem w1 = memcpy_at n ?d (mem w))"
  proof (cases ready)
    case True
    have ld: "length ?d = ?L" using l(3) by simp
    have wa: "write_attempts (ie_obmf env) f (?hi # ?lo # ?d) (base + of_nat (n div 65536)) 4 w (-1) = (w1, r1)"
      using res True by (simp add: res_def)
    show ?thesis
      using write_attempts_eeprom [OF ok _ _ _ wa, unfolded pos ld] lt l(4,5) O(3) by auto
  next
    case False
    then show ?thesis using res by (auto simp: res_def ENOLCK_def split: if_splits)
  qed
  have W: "r1 = 0" if "eeprom_works env f (i2c_bus msg)"
  proof -
    have "snd (f w b a) = 0" for w b a using that by (simp add: eeprom_works_def)
    then have z: "snd (write_attempts s f b a (Suc k) w r) = 0" for s b a k w r
      by (simp add: case_prod_unfold)
    have "(4 :: nat) = Suc 3" by simp
    from z [of _ _ _ 3, folded this] have "snd res = 0" unfolding res_def ready_def
      using that by (simp del: write_attempts.simps add: eeprom_works_def)
    then show ?thesis by (simp add: res)
  qed
  have C: "\<not> ucast RETIMER_IMAGE_PACKAGE_SIZE < (ucast len :: u16)" "(ucast len :: u16) = ucast RETIMER_IMAGE_PACKAGE_SIZE \<longleftrightarrow> len = 64"
    "(ucast RETIMER_IMAGE_PACKAGE_SIZE :: u16) \<le> ucast len \<longrightarrow> len = RETIMER_IMAGE_PACKAGE_SIZE" "(ucast len :: u16) \<noteq> 0"
    using l(1,2) by (auto simp: RETIMER_IMAGE_PACKAGE_SIZE_def word_less_nat_alt word_le_nat_alt word_unat_eq_iff unsigned_ucast_eq)
  have C5: "(ucast (ucast len :: u16) :: u8) = len" by (rule bit_word_eqI) (auto simp: bit_simps)
  have loop: "eeprom_loop env f buf (msg\<lparr>i2c_target_addr := base + of_nat (n div 65536)\<rparr>) (ofs AND 0xFFFF) (ucast len) RETIMER_IMAGE_PACKAGE_SIZE 0 w
    = (if r1 \<noteq> 0 then Some (w1, ?msg, FWUPDATE_UPDATE_FAIL) else Some (w1, ?msg, 0))"
  proof -
    have pl: "(if (ucast RETIMER_IMAGE_PACKAGE_SIZE :: u16) \<le> ucast len then RETIMER_IMAGE_PACKAGE_SIZE else ucast (ucast len :: u16)) = len"
      using C(3) C5 by auto
    have sl: "slice (unat (0 :: u8)) ?L buf = ?d" by (simp add: slice_def)
    show ?thesis
      apply (subst eeprom_loop.simps, unfold Let_def pl sl)
      using C(4) l(2,3) msg(1) M by (subst eeprom_loop.simps) simp
  qed
  have addr: "base + ucast (drop_bit 16 ofs AND 0xF) = base + (of_nat (n div 65536) :: u8)" by (simp only: O(1))
  let ?out = "if r1 = 0 then ?msg\<lparr>i2c_target_addr := base\<rparr> else ?msg"
  have "fw_recovery_eeprom env f msg ofs (ucast len) buf flg w
      = Some (w1, ?out, if r1 \<noteq> 0 then FWUPDATE_UPDATE_FAIL else 0)"
    unfolding fw_recovery_eeprom_def Let_def msg(2) addr if_not_P [OF C(1)] using C(2) flg loop
    by (auto simp: FWUPDATE_UPDATE_FAIL_def)
  moreover have "length (memcpy_at 0 (a # b # ?d) (i2c_data msg)) = length (i2c_data msg)" for a b
    by (subst length_memcpy_at) (use l(2,3) msg(1) in simp_all)
  ultimately show ?thesis using R W
    by (intro exI [of _ w1] exI [of _ ?out] exI [of _ "if r1 \<noteq> 0 then FWUPDATE_UPDATE_FAIL else 0"])
      (auto simp: FWUPDATE_UPDATE_FAIL_def)
qed

lemma unat_min_byte:
  "unat (if (m :: u32) < ucast (c :: u8) then ucast m else c) = min (unat c) (unat m)"
proof (cases "m < ucast c")
  case True
  then have "unat m < unat c" by (simp add: word_less_nat_alt)
  moreover from this have "unat m < 256" using unsigned_less [of c, where 'a = nat] by (simp add: order_less_trans)
  ultimately show ?thesis using True by (simp add: unsigned_ucast_eq take_bit_nat_eq_self)
qed (simp add: word_less_nat_alt)

lemma chunk_len_bounds:
  fixes ofs rem :: u32
  assumes "unat ofs < 1048576" and "0 < unat rem"
  shows "0 < unat (chunk_len ofs rem)" and "unat (chunk_len ofs rem) \<le> 64" and "unat (chunk_len ofs rem) \<le> unat rem"
    and "unat ofs mod 256 + unat (chunk_len ofs rem) \<le> 256"
proof -
  have m16: "(0xFFFF :: u32) = mask 16" by (simp add: mask_eq_exp_minus_1)
  have lo: "unat (ofs AND 0xFFFF) = unat ofs mod 65536"
    unfolding m16 take_bit_eq_mask [symmetric] by (simp add: unsigned_take_bit_eq take_bit_eq_mod unat_mod)
  let ?mx = "(ofs AND NOT 0xFFFF) + 0x10000 - ofs" and ?al = "256 - ofs mod 256"
  have "ofs AND NOT 0xFFFF = push_bit 16 (drop_bit 16 ofs)" unfolding m16
    by (rule bit_word_eqI) (auto simp: bit_simps)
  then have "ofs AND NOT 0xFFFF = ofs - (ofs AND 0xFFFF)"
    using bits_ident [of 16 ofs] by (simp add: m16 take_bit_eq_mask eq_diff_eq)
  then have "?mx = 0x10000 - (ofs AND 0xFFFF)" by simp
  moreover have "unat (0x10000 - (ofs AND 0xFFFF)) = 65536 - unat ofs mod 65536"
    by (subst unat_sub) (simp_all add: word_le_nat_alt lo)
  ultimately have mx: "unat ?mx = 65536 - unat ofs mod 65536" by metis
  have al: "unat ?al = 256 - unat ofs mod 256" by (subst unat_sub) (simp_all add: word_le_nat_alt unat_mod)
  define c1 where "c1 = (if ucast RETIMER_IMAGE_PACKAGE_SIZE < rem then RETIMER_IMAGE_PACKAGE_SIZE else ucast rem)"
  have c1: "unat c1 = min 64 (unat rem)"
    by (auto simp: c1_def RETIMER_IMAGE_PACKAGE_SIZE_def word_less_nat_alt unsigned_ucast_eq take_bit_nat_eq_self)
  define c2 where "c2 = (if ?mx < ucast c1 then ucast ?mx else c1)"
  have c2: "unat c2 = min (unat c1) (unat ?mx)" unfolding c2_def by (rule unat_min_byte)
  have "chunk_len ofs rem = (if ?al < ucast c2 then ucast ?al else c2)"
    unfolding chunk_len_def Let_def c2_def c1_def ..
  then have c: "unat (chunk_len ofs rem) = min (unat c2) (unat ?al)" by (simp only: unat_min_byte)
  have lt: "unat ofs mod 256 < 256" "unat ofs mod 65536 < 65536" by simp_all
  show "0 < unat (chunk_len ofs rem)" "unat (chunk_len ofs rem) \<le> 64" "unat (chunk_len ofs rem) \<le> unat rem"
    unfolding c c2 c1 mx al using assms(2) lt by (simp_all add: min_le_iff_disj)
  have "unat (chunk_len ofs rem) \<le> 256 - unat ofs mod 256" unfolding c al by (rule min.cobounded2)
  then show "unat ofs mod 256 + unat (chunk_len ofs rem) \<le> 256" using lt(1) by linarith
qed

lemma recovery_loop_writes:
  assumes "eeprom_ok f base mem" and "length (mem w) \<le> 1048576" and "unat rem \<le> length dat"
    and "unat ofs + unat rem \<le> length (mem w)" and "66 \<le> length (i2c_data msg)" and "i2c_target_addr msg = base"
  shows "\<exists>w' r. recovery_loop env f msg ofs dat rem flg w = Some (w', r)
    \<and> same_outside (unat ofs) (unat rem) (mem w) (mem w')
    \<and> (r = 0 \<longrightarrow> mem w' = memcpy_at (unat ofs) (take (unat rem) dat) (mem w))
    \<and> (eeprom_works env f (i2c_bus msg) \<longrightarrow> r = 0)"
  using assms(2-)
proof (induction "unat rem" arbitrary: rem ofs dat msg flg w rule: less_induct)
  case less
  show ?case
  proof (cases "rem = 0")
    case True
    then show ?thesis by (subst recovery_loop.simps) (simp add: same_outside_def)
  next
    case False
    then have "0 < unat rem" by (simp add: word_gt_0 [symmetric] unat_gt_0)
    let ?c = "chunk_len ofs rem"
    let ?f = "if ?c \<noteq> RETIMER_IMAGE_PACKAGE_SIZE then SECTOR_END_FLAG else flg"
    have lt: "unat ofs < 1048576" using less.prems(1,3) \<open>0 < unat rem\<close> by simp
    note C = chunk_len_bounds [OF lt \<open>0 < unat rem\<close>]
    have "?c = 64 \<or> ?f AND SECTOR_END_FLAG \<noteq> 0" by (simp add: RETIMER_IMAGE_PACKAGE_SIZE_def spi_consts)
    from eeprom_write_package [OF assms(1) less.prems(1) C(1,2) _ C(4) _ this less.prems(4,5), of dat env]
    obtain w1 msg1 r where E: "fw_recovery_eeprom env f msg ofs (ucast ?c) dat ?f w = Some (w1, msg1, r)"
      and so: "same_outside (unat ofs) (unat ?c) (mem w) (mem w1)"
      and ok: "r = 0 \<longrightarrow> mem w1 = memcpy_at (unat ofs) (take (unat ?c) dat) (mem w)
        \<and> length (i2c_data msg1) = length (i2c_data msg) \<and> i2c_target_addr msg1 = base \<and> i2c_bus msg1 = i2c_bus msg"
      and wk: "eeprom_works env f (i2c_bus msg) \<longrightarrow> r = 0"
      using C(3) less.prems(2,3) by auto
    have eq: "recovery_loop env f msg ofs dat rem flg w = (if r \<noteq> 0 then Some (w1, 1)
        else recovery_loop env f msg1 (ofs + ucast ?c) (drop (unat ?c) dat) (rem - ucast ?c) ?f w1)"
      by (subst recovery_loop.simps) (simp add: False Let_def E)
    show ?thesis
    proof (cases "r = 0")
      case bad: False
      then show ?thesis using wk C(3) same_outside_mono [OF so, of "unat ofs" "unat rem"] unfolding eq by auto
    next
      case good: True
      have l: "length (mem w1) = length (mem w)" using so by (simp add: same_outside_def)
      have o1: "unat (ofs + ucast ?c) = unat ofs + unat ?c"
        by (subst unat_plus_no_wrap) (use C(3) lt less.prems(1,3) in simp_all)
      have r1: "unat (rem - ucast ?c) = unat rem - unat ?c" by (subst unat_sub) (use C(3) in \<open>simp_all add: word_le_nat_alt\<close>)
      have pre: "unat (rem - ucast ?c) < unat rem" "length (mem w1) \<le> 1048576"
        "unat (rem - ucast ?c) \<le> length (drop (unat ?c) dat)"
        "unat (ofs + ucast ?c) + unat (rem - ucast ?c) \<le> length (mem w1)"
        "66 \<le> length (i2c_data msg1)" "i2c_target_addr msg1 = base"
        unfolding o1 r1 l using C(1,3) less.prems ok good by simp_all
      note IH = less.hyps [OF pre, of ?f, unfolded o1 r1]
      obtain w' r' where R: "recovery_loop env f msg1 (ofs + ucast ?c) (drop (unat ?c) dat) (rem - ucast ?c) ?f w1 = Some (w', r')"
        and so2: "same_outside (unat ofs + unat ?c) (unat rem - unat ?c) (mem w1) (mem w')"
        and m2: "r' = 0 \<longrightarrow> mem w' = memcpy_at (unat ofs + unat ?c) (take (unat rem - unat ?c) (drop (unat ?c) dat)) (mem w1)"
        and wk2: "eeprom_works env f (i2c_bus msg1) \<longrightarrow> r' = 0"
        using IH by (elim exE conjE) (rule that)
      have d: "take (unat ?c) dat @ take (unat rem - unat ?c) (drop (unat ?c) dat) = take (unat rem) dat"
        using C(3) by (metis le_add_diff_inverse take_add)
      have lc: "length (take (unat ?c) dat) = unat ?c" using C(3) less.prems(2) by simp
      have "r' = 0 \<longrightarrow> mem w' = memcpy_at (unat ofs) (take (unat rem) dat) (mem w)"
        using m2 ok good memcpy_at_append [of "unat ofs" "take (unat ?c) dat" "mem w"] C(3) less.prems(2,3)
        unfolding d [symmetric] by (simp add: lc)
      moreover have "same_outside (unat ofs) (unat rem) (mem w) (mem w')"
        using same_outside_join [OF so so2] C(3) by simp
      ultimately show ?thesis using R wk2 ok good unfolding eq by auto
    qed
  qed
qed

lemma starts_with_self [simp]: "starts_with (k @ r) k"
  by (simp add: starts_with_def)

text \<open>
  (C19) One call of the update function for the EEPROM of a retimer, for a supported part and a position of the
  image and data within the EEPROM of at most 1 MiB: it always returns; it changes at most the bytes of the position,
  whatever the bus does; if it reports success these bytes are the data of the call and nothing else has changed, although
  they are written in packages that cross no page and no bank; it succeeds when the transfers succeed; and it asks
  for the next piece of the image.
\<close>

theorem retimer_recovery_writes:
  assumes "eeprom_ok f (up_addr p) mem" and "length (mem w) \<le> 1048576"
    and "unat (up_data_len p) \<le> length (up_data p)"
    and "unat (up_data_ofs p) + unat (up_data_len p) \<le> length (mem w)" and "66 \<le> length (i2c_data msg)"
    and "starts_with (up_comp_version_str p) keyword_pt5161l \<or> starts_with (up_comp_version_str p) keyword_pt4080l"
  defines "n \<equiv> unat (up_data_ofs p)" and "l \<equiv> unat (up_data_len p)"
  shows "\<exists>w' r. pldm_retimer_recovery env f msg cfg w p = Some (w', p\<lparr>up_next_ofs := up_data_ofs p + up_data_len p,
        up_next_len := plain_next cfg (up_data_ofs p + up_data_len p)\<rparr>, r)
    \<and> same_outside n l (mem w) (mem w')
    \<and> (r = 0 \<longrightarrow> mem w' = memcpy_at n (take l (up_data p)) (mem w))
    \<and> (eeprom_works env f (up_bus p) \<longrightarrow> r = 0)"
proof -
  let ?msg = "msg\<lparr>i2c_bus := up_bus p, i2c_target_addr := up_addr p\<rparr>"
  let ?f = "if up_data_ofs p + up_data_len p < uc_image_size cfg then 0 else SECTOR_END_FLAG"
  have nx: "retimer_next False cfg (up_data_ofs p) (up_data_len p)
      = (up_data_ofs p + up_data_len p, plain_next cfg (up_data_ofs p + up_data_len p))"
    by (simp add: retimer_next_def plain_next_def Let_def)
  obtain w' r where "recovery_loop env f ?msg (up_data_ofs p) (up_data p) (up_data_len p) ?f w = Some (w', r)"
    and "same_outside n l (mem w) (mem w')" "r = 0 \<longrightarrow> mem w' = memcpy_at n (take l (up_data p)) (mem w)"
    and "eeprom_works env f (up_bus p) \<longrightarrow> r = 0"
    using recovery_loop_writes [OF assms(1-4), of ?msg env ?f] assms(5) unfolding n_def l_def by auto
  then show ?thesis using assms(6) by (auto simp: pldm_retimer_recovery_def nx Let_def)
qed

lemma demo_eeprom_ok: "eeprom_ok demo_eeprom 0x50 (\<lambda>m. m)"
  unfolding eeprom_ok_def
proof (intro allI impI)
  fix w :: bytes and k :: nat and hi lo :: u8 and bs :: bytes
  assume k: "k < 16" and "unat lo + length bs \<le> 256" and l: "k * 65536 + unat hi * 256 + unat lo + length bs \<le> length w"
  have "unat (0x50 + of_nat k - 0x50 :: u8) = k" using k by (simp add: unat_of_nat_lt)
  then have "demo_eeprom w (hi # lo # bs) (0x50 + of_nat k) = (memcpy_at (k * 65536 + unat hi * 256 + unat lo) bs w, 0)"
    unfolding demo_eeprom_def Let_def list.case using l by simp
  then show "case demo_eeprom w (hi # lo # bs) (0x50 + of_nat k) of (w', ret) \<Rightarrow>
      same_outside (k * 65536 + unat hi * 256 + unat lo) (length bs) w w'
      \<and> (ret = 0 \<longrightarrow> slice (k * 65536 + unat hi * 256 + unat lo) (length bs) w' = bs)"
    using same_outside_memcpy_at [OF l] slice_memcpy_at [OF l] by simp
qed

theorem retimer_recovery_writes_witness:
  "\<exists>p'. pldm_retimer_recovery demo_recovery_env demo_eeprom demo_recovery_msg
       \<lparr>uc_image_size = 512, uc_max_buff_size = 100\<rparr> (replicate 512 0) demo_retimer
       = Some (replicate 200 0 @ replicate 100 7 @ replicate 212 0, p', 0) \<and> up_next_ofs p' = 300 \<and> up_next_len p' = 100"
proof -
  have "eeprom_ok demo_eeprom (up_addr demo_retimer) (\<lambda>m. m)" using demo_eeprom_ok by (simp add: demo_retimer_def)
  moreover have "starts_with (up_comp_version_str demo_retimer) keyword_pt4080l"
    by (simp add: demo_retimer_def keyword_pt4080l_def starts_with_def kw_def)
  moreover have "snd (demo_eeprom w b a) = 0" for w b a by (simp add: demo_eeprom_def Let_def split: list.split)
  then have "eeprom_works demo_recovery_env demo_eeprom b" for b by (simp add: eeprom_works_def demo_recovery_env_def)
  moreover have "memcpy_at 200 (take 100 (replicate 100 7)) (replicate 512 0) = replicate 200 0 @ replicate 100 7 @ replicate 212 (0 :: u8)"
    by (simp add: memcpy_at_def)
  ultimately show ?thesis
    using retimer_recovery_writes [of demo_eeprom demo_retimer "\<lambda>m. m" "replicate 512 0" demo_recovery_msg demo_recovery_env
        "\<lparr>uc_image_size = 512, uc_max_buff_size = 100\<rparr>"]
    by (auto simp: demo_retimer_def demo_recovery_msg_def plain_next_def)
qed

end
