(* ===== verification/Ssif.thy ===== *)
theory Ssif
  imports Ipmi Hal_I2c_Target
begin

text \<open>
  The SMBus system interface of the host, \<^verbatim>\<open>src/common/service/host/ssif.c\<close>: IPMI messages from and to the host in
  blocks of at most 32 bytes over the I2C target. An instance has a thread that puts the written blocks together and
  passes the message to the IPMI task or to the BMC, a callback of the I2C target that answers the read
  commands with the blocks of the response, and a monitor that frees the address of the firmware when no
  response comes.

  The functions work on one instance and on what it shares, \<open>ssif_io\<close>: its I2C target, the queue of the IPMI task, the
  jobs of the worker and a world of any type for the BMC and the platform. \<open>None\<close> is a copy that leaves a
  buffer. The thread runs between the bus callbacks; its wait for a response gets the message that arrives in time, if any.
\<close>

section \<open>Definitions\<close>

definition SSIF_MAX_IPMI_DATA_SIZE :: nat where "SSIF_MAX_IPMI_DATA_SIZE = 32"
definition SSIF_BUFF_SIZE :: nat where "SSIF_BUFF_SIZE = 50"
definition SSIF_MULTI_RD_KEY :: u16 where "SSIF_MULTI_RD_KEY = 1"
definition SSIF_ERR_RCD_SIZE :: nat where "SSIF_ERR_RCD_SIZE = 100"
definition SSIF_TIMEOUT_MS :: int where "SSIF_TIMEOUT_MS = 5000"
definition CMD_SYS_INFO_FW_VERSION :: u8 where "CMD_SYS_INFO_FW_VERSION = 1"
definition CMD_APP_SET_SYS_INFO_PARAMS :: u8 where "CMD_APP_SET_SYS_INFO_PARAMS = 0x58"
definition CMD_OEM_POST_END :: u8 where "CMD_OEM_POST_END = 0x74"

datatype ssif_status =
    SSIF_STATUS_WAIT_FOR_WR_START | SSIF_STATUS_WAIT_FOR_WR_NEXT
  | SSIF_STATUS_WAIT_FOR_RD_START | SSIF_STATUS_WAIT_FOR_RD_NEXT
  | SSIF_STATUS_WR_SINGLE_START | SSIF_STATUS_WR_MULTI_START | SSIF_STATUS_WR_MIDDLE | SSIF_STATUS_WR_END
  | SSIF_STATUS_RD_START | SSIF_STATUS_RD_MIDDLE | SSIF_STATUS_RD_RETRY | SSIF_STATUS_RD_END

datatype ssif_err_status =
    SSIF_STATUS_NO_ERR | SSIF_STATUS_INVALID_CMD | SSIF_STATUS_INVALID_CMD_IN_CUR_STATUS | SSIF_STATUS_INVALID_PEC
  | SSIF_STATUS_INVALID_LEN | SSIF_STATUS_ADDR_LCK_TIMEOUT | SSIF_STATUS_ADDR_LOCK_ERR | SSIF_STATUS_MUTEX_ERR
  | SSIF_STATUS_RSP_MSG_TIMEOUT | SSIF_STATUS_RSP_NOT_READY | SSIF_STATUS_TARGET_WR_RD_ERROR | SSIF_STATUS_UNKNOWN_ERR

definition SSIF_WR_SINGLE :: u8 where "SSIF_WR_SINGLE = 0x02"
definition SSIF_WR_MULTI_START :: u8 where "SSIF_WR_MULTI_START = 0x06"
definition SSIF_WR_MULTI_MIDDLE :: u8 where "SSIF_WR_MULTI_MIDDLE = 0x07"
definition SSIF_WR_MULTI_END :: u8 where "SSIF_WR_MULTI_END = 0x08"
definition SSIF_RD_START :: u8 where "SSIF_RD_START = 0x03"
definition SSIF_RD_NEXT :: u8 where "SSIF_RD_NEXT = 0x09"
definition SSIF_RD_RETRY :: u8 where "SSIF_RD_RETRY = 0x0A"

lemmas ssif_cmds = SSIF_WR_SINGLE_def SSIF_WR_MULTI_START_def SSIF_WR_MULTI_MIDDLE_def SSIF_WR_MULTI_END_def
  SSIF_RD_START_def SSIF_RD_NEXT_def SSIF_RD_RETRY_def

lemmas ssif_consts = SSIF_MAX_IPMI_DATA_SIZE_def SSIF_BUFF_SIZE_def SSIF_MULTI_RD_KEY_def SSIF_ERR_RCD_SIZE_def
  SSIF_TIMEOUT_MS_def CMD_SYS_INFO_FW_VERSION_def CMD_APP_SET_SYS_INFO_PARAMS_def CMD_OEM_POST_END_def

text \<open>The mutex and the semaphore, which counts to 1, of the response buffer are \<open>sd_mutex_init\<close> and \<open>sd_rsp_sem\<close>.\<close>

record ssif_dev =
  sd_index :: u8
  sd_i2c_bus :: u8
  sd_addr :: u8
  sd_addr_lock :: bool
  sd_exp_to_ms :: int
  sd_mutex_init :: bool
  sd_sem_limit :: nat
  sd_rsp_sem :: nat
  sd_rsp_buff :: bytes
  sd_rsp_buf_len :: u16
  sd_remain_data_len :: u16
  sd_current_ipmi_msg :: ipmi_msg
  sd_cur_rd_blck :: u16
  sd_cur_status :: ssif_status
  sd_err_status_lst :: "ssif_err_status list"
  sd_err_idx :: u8
  sd_err_status :: ssif_err_status

record 'w ssif_io =
  io_target :: i2c_target_device
  io_ipmi_msgq :: "ipmi_msg_cfg list"
  io_jobs :: nat
  io_proc_ssif_ok :: bool
  io_world :: 'w

text \<open>
  Build switches, outcomes of services, and the functions of the platform and of other components: the
  address register, the alert pin (\<^verbatim>\<open>True\<close> is high), the bridges to the BMC with the response, the SBMR
  handler, and the content of an uninitialised message.
\<close>

record 'w ssif_env =
  se_target :: target_env
  se_crc8 :: "bytes \<Rightarrow> u8"
  se_rsp_pec :: bool
  se_lock :: bool
  se_addr_set :: "'w \<Rightarrow> u8 \<Rightarrow> u8 \<Rightarrow> 'w \<times> int"
  se_alert :: "bool \<Rightarrow> 'w \<Rightarrow> 'w"
  se_to_bic :: "u8 \<Rightarrow> u8 \<Rightarrow> bool"
  se_immediate :: "u8 \<Rightarrow> u8 \<Rightarrow> bool"
  se_sbmr :: "(ipmi_msg \<Rightarrow> ipmi_msg \<times> bool) option"
  se_add_sel :: "ipmi_msg \<Rightarrow> 'w \<Rightarrow> 'w"
  se_post_complete :: "'w \<Rightarrow> 'w"
  se_record_version :: "bytes \<Rightarrow> 'w \<Rightarrow> 'w"
  se_use_ipmb :: bool
  se_pldm_request :: "ipmi_msg \<Rightarrow> 'w \<Rightarrow> 'w \<times> ipmi_msg \<times> int"
  se_ipmb_read :: "ipmi_msg \<Rightarrow> 'w \<Rightarrow> 'w \<times> ipmi_msg \<times> bool"
  se_local_msg :: ipmi_msg

subsection \<open>Error records and response data\<close>

text \<open>The record of \<^verbatim>\<open>ssif[channel]\<close>; an instance is the element of the array at its index.\<close>

definition error_record :: "ssif_err_status \<Rightarrow> ssif_dev \<Rightarrow> ssif_dev" where
  "error_record errcode d =
    (let d = (if unat (sd_err_idx d) = SSIF_ERR_RCD_SIZE then d\<lparr>sd_err_idx := 0\<rparr> else d);
         d = d\<lparr>sd_err_status := errcode\<rparr> in
     if errcode \<noteq> SSIF_STATUS_NO_ERR
     then d\<lparr>sd_err_status_lst := (sd_err_status_lst d)[unat (sd_err_idx d) := errcode], sd_err_idx := sd_err_idx d + 1\<rparr>
     else d)"

definition ssif_error_record :: "u8 \<Rightarrow> ssif_err_status \<Rightarrow> ssif_dev list \<Rightarrow> ssif_dev list" where
  "ssif_error_record channel errcode ssif =
    (if length ssif \<le> unat channel then ssif
     else ssif[unat channel := error_record errcode (ssif ! unat channel)])"

definition set_rsp_data :: "bool \<Rightarrow> ipmi_msg \<Rightarrow> ssif_dev \<Rightarrow> ssif_dev \<times> bool" where
  "set_rsp_data lock m d =
    (if \<not> sd_mutex_init d then (d, False)
     else if \<not> lock then (error_record SSIF_STATUS_MUTEX_ERR d, False)
     else (d\<lparr>sd_rsp_buff := memcpy_at 0 ([im_netfn m, im_cmd m, im_completion_code m]
               @ take (min (unat (im_data_len m)) (Ipmb.IPMI_MSG_MAX_LENGTH - 3)) (im_data m)) (sd_rsp_buff d),
             sd_rsp_buf_len := im_data_len m + 3, sd_rsp_sem := min (sd_sem_limit d) (sd_rsp_sem d + 1)\<rparr>, True))"

definition ssif_set_data :: "bool \<Rightarrow> u8 \<Rightarrow> ipmi_msg \<Rightarrow> ssif_dev list \<Rightarrow> ssif_dev list \<times> bool" where
  "ssif_set_data lock channel m ssif =
    (if length ssif \<le> unat channel then (ssif, False)
     else (case set_rsp_data lock m (ssif ! unat channel) of (d, ok) \<Rightarrow> (ssif[unat channel := d], ok)))"

fun ssif_inst_get_by_bus :: "u8 \<Rightarrow> ssif_dev list \<Rightarrow> nat option" where
  "ssif_inst_get_by_bus bus [] = None"
| "ssif_inst_get_by_bus bus (d # ds) =
    (if sd_i2c_bus d = bus then Some 0 else map_option Suc (ssif_inst_get_by_bus bus ds))"

subsection \<open>Address lock, check of frames, state machine\<close>

definition ssif_lock_ctl ::
  "'w ssif_env \<Rightarrow> int \<Rightarrow> bool \<Rightarrow> ssif_dev \<Rightarrow> 'w ssif_io \<Rightarrow> ssif_dev \<times> 'w ssif_io \<times> bool" where
  "ssif_lock_ctl env now lck_flag d io =
    (let addr = (if lck_flag then 0 else push_bit 1 (sd_addr d));
         d = (if lck_flag then d\<lparr>sd_addr_lock := True, sd_exp_to_ms := now + SSIF_TIMEOUT_MS\<rparr>
              else d\<lparr>sd_addr_lock := False\<rparr>) in
     (case se_addr_set env (io_world io) (sd_i2c_bus d) addr of
        (w, ret) \<Rightarrow> (d, io\<lparr>io_world := w\<rparr>, ret = 0)))"

text \<open>Whether the code is right, and whether there is one.\<close>

definition ssif_pec_check :: "(bytes \<Rightarrow> u8) \<Rightarrow> u8 \<Rightarrow> bytes \<Rightarrow> nat \<Rightarrow> bool \<times> u8" where
  "ssif_pec_check crc8 addr data len =
    (if len < 2 then (False, 0)
     else if len = unat (nth0 data 1) + 2 then (True, 0)
     else (nth0 data (len - 1) = crc8 (push_bit 1 addr # take (len - 1) data), 1))"

definition ssif_pec_get :: "(bytes \<Rightarrow> u8) \<Rightarrow> u8 \<Rightarrow> u8 \<Rightarrow> bytes \<Rightarrow> u8" where
  "ssif_pec_get crc8 addr smb_cmd data = crc8 ([push_bit 1 addr, smb_cmd, push_bit 1 addr + 1] @ data)"

definition ssif_reset :: "ssif_dev \<Rightarrow> ssif_dev" where
  "ssif_reset d = d\<lparr>sd_cur_status := SSIF_STATUS_WAIT_FOR_WR_START, sd_current_ipmi_msg := zero_ipmi_msg\<rparr>"

definition ssif_status_check :: "u8 \<Rightarrow> ssif_dev \<Rightarrow> ssif_dev \<times> bool" where
  "ssif_status_check smb_cmd d =
    (let st = sd_cur_status d;
         goto = (\<lambda>s. (d\<lparr>sd_cur_status := s\<rparr>, True));
         err = (error_record SSIF_STATUS_INVALID_CMD_IN_CUR_STATUS d, False) in
     if smb_cmd = SSIF_WR_SINGLE \<or> smb_cmd = SSIF_WR_MULTI_START then
       if st \<noteq> SSIF_STATUS_WAIT_FOR_WR_START \<and> st \<noteq> SSIF_STATUS_WAIT_FOR_RD_START then err
       else goto (if smb_cmd = SSIF_WR_SINGLE then SSIF_STATUS_WR_SINGLE_START else SSIF_STATUS_WR_MULTI_START)
     else if smb_cmd = SSIF_WR_MULTI_MIDDLE \<or> smb_cmd = SSIF_WR_MULTI_END then
       if st \<noteq> SSIF_STATUS_WAIT_FOR_WR_NEXT then err
       else goto (if smb_cmd = SSIF_WR_MULTI_MIDDLE then SSIF_STATUS_WR_MIDDLE else SSIF_STATUS_WR_END)
     else if smb_cmd = SSIF_RD_START then
       if st \<noteq> SSIF_STATUS_WAIT_FOR_RD_START then err else goto SSIF_STATUS_RD_START
     else if smb_cmd = SSIF_RD_NEXT then
       if st \<noteq> SSIF_STATUS_WAIT_FOR_RD_NEXT then err else goto SSIF_STATUS_RD_MIDDLE
     else if smb_cmd = SSIF_RD_RETRY then
       if st \<noteq> SSIF_STATUS_WAIT_FOR_RD_NEXT then err else goto SSIF_STATUS_RD_RETRY
     else (error_record SSIF_STATUS_INVALID_CMD d, False))"

subsection \<open>Requests to the IPMI task and to the BMC\<close>

text \<open>The bridge to the BMC: the response, if the request was answered.\<close>

definition bmc_request :: "'w ssif_env \<Rightarrow> ipmi_msg \<Rightarrow> 'w \<Rightarrow> ('w \<times> ipmi_msg option) option" where
  "bmc_request env req w =
    (case construct_ipmi_message (se_local_msg env) 0xFF (im_netfn req) (im_cmd req) SELF BMC_IPMB
            (im_data_len req) (Some (im_data req)) of
       None \<Rightarrow> None
     | Some msg \<Rightarrow>
       if \<not> se_use_ipmb env then
         (case se_pldm_request env (msg\<lparr>im_InF_target := PLDM\<rparr>) w of (w, msg, ret) \<Rightarrow>
            Some (w, if ret < 0 then None else Some msg))
       else (case se_ipmb_read env msg w of (w, msg, ok) \<Rightarrow> Some (w, if ok then Some msg else None)))"

text \<open>The job of the worker, which sends the message that is the current one when it runs.\<close>

definition send_cmd_work_handler :: "'w ssif_env \<Rightarrow> ssif_dev \<Rightarrow> 'w ssif_io \<Rightarrow> 'w ssif_io option" where
  "send_cmd_work_handler env d io =
    (case bmc_request env (sd_current_ipmi_msg d) (io_world io) of
       None \<Rightarrow> None | Some (w, _) \<Rightarrow> Some (io\<lparr>io_world := w, io_jobs := io_jobs io - 1\<rparr>))"

definition ipmi_msgq_put :: "ipmi_msg \<Rightarrow> ipmi_msg_cfg list \<Rightarrow> ipmi_msg_cfg list" where
  "ipmi_msgq_put m q =
    (let c = \<lparr>mc_buffer = m, mc_retries = 0\<rparr> in if length q < IPMI_BUF_LEN then q @ [c] else [c])"

definition ssif_immediate ::
  "'w ssif_env \<Rightarrow> ssif_dev \<Rightarrow> 'w ssif_io \<Rightarrow> ssif_dev \<times> 'w ssif_io" where
  "ssif_immediate env d io =
    (let m = sd_current_ipmi_msg d;
         rsp = m\<lparr>im_data_len := 0, im_completion_code := CC_SUCCESS\<rparr>;
         add_sel = (im_netfn m = NETFN_STORAGE_REQ \<and> im_cmd m = CMD_STORAGE_ADD_SEL);
         post_end = (im_netfn m = NETFN_OEM_REQ \<and> im_cmd m = CMD_OEM_POST_END);
         w = (if add_sel then se_add_sel env m (io_world io) else if post_end then se_post_complete env (io_world io)
              else io_world io);
         rsp = (if add_sel then rsp\<lparr>im_data_len := 2, im_data := memcpy_at 0 [0, 0] (im_data rsp)\<rparr> else rsp);
         rsp = rsp\<lparr>im_netfn := push_bit 2 (im_netfn m + 1)\<rparr> in
     (fst (set_rsp_data (se_lock env) rsp d), io\<lparr>io_world := w, io_jobs := io_jobs io + 1\<rparr>))"

definition ssif_to_bmc ::
  "'w ssif_env \<Rightarrow> ssif_dev \<Rightarrow> 'w ssif_io \<Rightarrow> (ssif_dev \<times> 'w ssif_io) option" where
  "ssif_to_bmc env d io =
    (let m = sd_current_ipmi_msg d;
         version = (im_netfn m = NETFN_APP_REQ \<and> im_cmd m = CMD_APP_SET_SYS_INFO_PARAMS
                    \<and> nth0 (im_data m) 0 = CMD_SYS_INFO_FW_VERSION) in
     if version \<and> Ipmb.IPMI_MSG_MAX_LENGTH < unat (im_data_len m) + 2 then None
     else
       let w = (if version then se_record_version env ([im_netfn m, im_cmd m] @ take (unat (im_data_len m)) (im_data m)) (io_world io)
                else io_world io) in
       (case bmc_request env m w of
          None \<Rightarrow> None
        | Some (w, None) \<Rightarrow> Some (d, io\<lparr>io_world := w\<rparr>)
        | Some (w, Some msg) \<Rightarrow>
          Some (fst (set_rsp_data (se_lock env) (msg\<lparr>im_netfn := push_bit 2 (im_netfn msg OR 1)\<rparr>) d), io\<lparr>io_world := w\<rparr>)))"

definition ssif_dispatch ::
  "'w ssif_env \<Rightarrow> ssif_dev \<Rightarrow> 'w ssif_io \<Rightarrow> (ssif_dev \<times> 'w ssif_io) option" where
  "ssif_dispatch env d io =
    (let m = sd_current_ipmi_msg d in
     if se_to_bic env (im_netfn m) (im_cmd m) then
       if se_sbmr env \<noteq> None \<and> im_netfn m = NETFN_DCMI_REQ then
         (case the (se_sbmr env) m of (m, ok) \<Rightarrow>
            let d = d\<lparr>sd_current_ipmi_msg := m\<rparr> in
            Some (if ok then fst (set_rsp_data (se_lock env) m d) else d, io))
       else Some (d, io\<lparr>io_ipmi_msgq := ipmi_msgq_put m (io_ipmi_msgq io)\<rparr>)
     else if se_immediate env (im_netfn m) (im_cmd m) then Some (ssif_immediate env d io)
     else ssif_to_bmc env d io)"

text \<open>
  The wait for the response. \<open>late\<close> is what the IPMI task sets while the thread waits, if the semaphore was not
  available at once.
\<close>

definition ssif_wait_response ::
  "'w ssif_env \<Rightarrow> int \<Rightarrow> ipmi_msg option \<Rightarrow> ssif_dev \<Rightarrow> 'w ssif_io \<Rightarrow> ssif_dev \<times> 'w ssif_io \<times> bool" where
  "ssif_wait_response env now late d io =
    (let d = (if 0 < sd_rsp_sem d then d else case late of None \<Rightarrow> d | Some m \<Rightarrow> fst (set_rsp_data (se_lock env) m d)) in
     if sd_rsp_sem d = 0 then (error_record SSIF_STATUS_RSP_MSG_TIMEOUT d, io, False)
     else let d = d\<lparr>sd_rsp_sem := sd_rsp_sem d - 1\<rparr> in
       (case ssif_lock_ctl env now False d io of (d, io, ok) \<Rightarrow>
          if \<not> ok then (error_record SSIF_STATUS_ADDR_LOCK_ERR d, io, False)
          else (d, io\<lparr>io_world := se_alert env False (io_world io)\<rparr>, True)))"

subsection \<open>Blocks of a response\<close>

text \<open>
  The data of the block for a read command and the next state; \<^verbatim>\<open>None\<close> inside is the branch of another command.
\<close>

definition ssif_block :: "u8 \<Rightarrow> ssif_dev \<Rightarrow> (ssif_dev \<times> bytes \<times> ssif_status) option option" where
  "ssif_block smb_cmd d =
    (if smb_cmd = SSIF_RD_START then
       let d = d\<lparr>sd_remain_data_len := sd_rsp_buf_len d, sd_cur_rd_blck := 0\<rparr> in
       if 32 < sd_remain_data_len d then
         Some (Some (d\<lparr>sd_remain_data_len := sd_remain_data_len d - 30\<rparr>,
           [ucast (drop_bit 8 SSIF_MULTI_RD_KEY), ucast SSIF_MULTI_RD_KEY] @ take 30 (sd_rsp_buff d), SSIF_STATUS_WAIT_FOR_RD_NEXT))
       else Some (Some (d\<lparr>sd_remain_data_len := 0\<rparr>, take (unat (sd_rsp_buf_len d)) (sd_rsp_buff d), SSIF_STATUS_WAIT_FOR_WR_START))
     else if smb_cmd = SSIF_RD_NEXT then
       let more = 31 < sd_remain_data_len d;
           wdata_len = (if more then 32 else sd_remain_data_len d + 1);
           d' = (if more then d else d\<lparr>sd_cur_status := SSIF_STATUS_RD_END\<rparr>);
           pos = unat (sd_rsp_buf_len d) - unat (sd_remain_data_len d);
           n = unat wdata_len - 1 in
       if unat (sd_rsp_buf_len d) < unat (sd_remain_data_len d) \<or> length (sd_rsp_buff d) < pos + n then None
       else Some (Some (d'\<lparr>sd_remain_data_len := sd_remain_data_len d - (wdata_len - 1), sd_cur_rd_blck := sd_cur_rd_blck d + 1\<rparr>,
           (if more then ucast (sd_cur_rd_blck d) else 0xFF) # slice pos n (sd_rsp_buff d),
           if more then SSIF_STATUS_WAIT_FOR_RD_NEXT else SSIF_STATUS_WAIT_FOR_WR_START))
     else Some None)"

definition ssif_collect ::
  "'w ssif_env \<Rightarrow> u8 \<Rightarrow> ssif_dev \<Rightarrow> 'w ssif_io \<Rightarrow> (ssif_dev \<times> 'w ssif_io \<times> bool) option" where
  "ssif_collect env smb_cmd d io =
    (if sd_rsp_buf_len d = 0 then Some (error_record SSIF_STATUS_RSP_NOT_READY d, io, False)
     else (case ssif_block smb_cmd d of
        None \<Rightarrow> None
      | Some None \<Rightarrow> Some (error_record SSIF_STATUS_INVALID_CMD d, io, False)
      | Some (Some (d, blk, next_status)) \<Rightarrow>
        let wdata = of_nat (length blk) # blk;
            wdata = (if se_rsp_pec env then wdata @ [ssif_pec_get (se_crc8 env) (sd_addr d) smb_cmd wdata] else wdata) in
        (case i2c_target_write (se_target env) (sd_i2c_bus d) wdata (of_nat (length wdata)) (io_target io) of
           (t, rc) \<Rightarrow>
             if rc \<noteq> 0 then Some (error_record SSIF_STATUS_TARGET_WR_RD_ERROR d, io\<lparr>io_target := t\<rparr>, False)
             else Some (d\<lparr>sd_cur_status := next_status\<rparr>, io\<lparr>io_target := t\<rparr>, True))))"

subsection \<open>Callbacks of the I2C target\<close>

text \<open>
  \<open>d\<close> is the instance of the bus, \<^verbatim>\<open>None\<close> if there is none. The flag is false if the message, a read command, is not
  to be queued.
\<close>

definition ssif_collect_data ::
  "'w ssif_env \<Rightarrow> u8 \<Rightarrow> ssif_dev option \<Rightarrow> 'w ssif_io \<Rightarrow> (ssif_dev option \<times> 'w ssif_io \<times> bool) option" where
  "ssif_collect_data env smb_cmd inst io =
    (if smb_cmd \<noteq> SSIF_RD_START \<and> smb_cmd \<noteq> SSIF_RD_NEXT \<and> smb_cmd \<noteq> SSIF_RD_RETRY then Some (inst, io, True)
     else let io = io\<lparr>io_world := se_alert env True (io_world io)\<rparr> in
       (case inst of
          None \<Rightarrow> Some (None, io, False)
        | Some d \<Rightarrow>
          if smb_cmd = SSIF_RD_RETRY then Some (Some (ssif_reset d), io, False)
          else (case ssif_status_check smb_cmd d of (d, ok) \<Rightarrow>
            if \<not> ok then Some (Some (ssif_reset d), io, False)
            else (case ssif_collect env smb_cmd d io of
               None \<Rightarrow> None
             | Some (d, io, ok) \<Rightarrow>
               if \<not> ok then Some (Some (ssif_reset d), io, False)
               else if sd_cur_status d = SSIF_STATUS_WAIT_FOR_RD_NEXT then Some (Some d, io, False)
               else if sd_cur_status d = SSIF_STATUS_WAIT_FOR_WR_START
                 then Some (Some (ssif_reset (error_record SSIF_STATUS_NO_ERR d)), io, False)
               else Some (Some d, io, True)))))"

definition ssif_write_data ::
  "'w ssif_env \<Rightarrow> ssif_dev option \<Rightarrow> 'w ssif_io \<Rightarrow> (ssif_dev option \<times> 'w ssif_io \<times> bool) option" where
  "ssif_write_data env inst io =
    (let data = dv_data (io_target io) in
     if td_wr_buffer_idx data = 1 then ssif_collect_data env (nth0 (pk_msg (td_target_wr_msg data)) 0) inst io
     else Some (inst, io, True))"

definition ssif_bus_drop ::
  "'w ssif_env \<Rightarrow> int \<Rightarrow> ssif_dev option \<Rightarrow> 'w ssif_io \<Rightarrow> ssif_dev option \<times> 'w ssif_io" where
  "ssif_bus_drop env now inst io =
    (let data = dv_data (io_target io); smb_cmd = nth0 (pk_msg (td_target_wr_msg data)) 0 in
     if td_wr_buffer_idx data = 1 \<and> (smb_cmd = SSIF_WR_SINGLE \<or> smb_cmd = SSIF_WR_MULTI_END) then
       (case inst of
          None \<Rightarrow> (None, io)
        | Some d \<Rightarrow> (case ssif_lock_ctl env now True d io of
            (d, io, ok) \<Rightarrow> (Some (if ok then d else error_record SSIF_STATUS_ADDR_LOCK_ERR d), io)))
     else (inst, io))"

text \<open>One round of the monitor for an instance.\<close>

definition ssif_timeout_check ::
  "'w ssif_env \<Rightarrow> int \<Rightarrow> ssif_dev \<Rightarrow> 'w ssif_io \<Rightarrow> ssif_dev \<times> 'w ssif_io" where
  "ssif_timeout_check env now d io =
    (if \<not> sd_addr_lock d then (d, io)
     else if sd_exp_to_ms d \<le> now then
       (case ssif_lock_ctl env now False (error_record SSIF_STATUS_ADDR_LCK_TIMEOUT d) io of
          (d, io, ok) \<Rightarrow> (ssif_reset (if ok then d else error_record SSIF_STATUS_ADDR_LOCK_ERR d), io))
     else (d, io))"

subsection \<open>The thread of an instance\<close>

definition ssif_data_pre_handle :: "u8 \<Rightarrow> ssif_dev \<Rightarrow> ssif_dev \<times> bool" where
  "ssif_data_pre_handle smb_cmd d =
    (if smb_cmd = SSIF_RD_START \<or> smb_cmd = SSIF_RD_NEXT \<or> smb_cmd = SSIF_RD_RETRY
     then (error_record SSIF_STATUS_UNKNOWN_ERR d, False) else ssif_status_check smb_cmd d)"

datatype ssif_next = Cold_reset | Next_frame | Send_ipmi

text \<open>The first frame of a message, \<^verbatim>\<open>struct ssif_wr_start\<close> behind the command, and a following one.\<close>

definition ssif_wr_start ::
  "u8 \<Rightarrow> bytes \<Rightarrow> nat \<Rightarrow> nat \<Rightarrow> ssif_dev \<Rightarrow> (ssif_dev \<times> ssif_next) option" where
  "ssif_wr_start smb_cmd rdata rlen pec d =
    (let len = nth0 rdata 1; m = sd_current_ipmi_msg d in
     if 33 < rlen - 1 - pec \<or> int (unat len) \<noteq> int rlen - 2 - int pec
     then Some (error_record SSIF_STATUS_INVALID_LEN d, Cold_reset)
     else
       let data_len = (ucast len - 2 :: u16) in
       if length (im_data m) < unat data_len \<or> length rdata < 4 + unat data_len then None
       else
         let d = d\<lparr>sd_current_ipmi_msg := m\<lparr>im_InF_source := HOST_SSIF_1 + sd_index d,
                 im_netfn := drop_bit 2 (nth0 rdata 2), im_cmd := nth0 rdata 3, im_data_len := data_len,
                 im_data := memcpy_at 0 (slice 4 (unat data_len) rdata) (im_data m)\<rparr>\<rparr> in
         if smb_cmd = SSIF_WR_MULTI_START
         then Some ((error_record SSIF_STATUS_NO_ERR d)\<lparr>sd_cur_status := SSIF_STATUS_WAIT_FOR_WR_NEXT\<rparr>, Next_frame)
         else Some (d, Send_ipmi))"

definition ssif_wr_middle ::
  "u8 \<Rightarrow> bytes \<Rightarrow> nat \<Rightarrow> nat \<Rightarrow> ssif_dev \<Rightarrow> (ssif_dev \<times> ssif_next) option" where
  "ssif_wr_middle smb_cmd rdata rlen pec d =
    (let len = nth0 rdata 1; m = sd_current_ipmi_msg d in
     if 33 < rlen - 1 - pec \<or> int (unat len) \<noteq> int rlen - 2 - int pec
        \<or> smb_cmd = SSIF_WR_MULTI_MIDDLE \<and> unat len \<noteq> SSIF_MAX_IPMI_DATA_SIZE
     then Some (error_record SSIF_STATUS_INVALID_LEN d, Cold_reset)
     else if im_data_len m = 0 then Some (error_record SSIF_STATUS_INVALID_CMD_IN_CUR_STATUS d, Cold_reset)
     else if length (im_data m) < unat (im_data_len m) + unat len \<or> length rdata < 2 + unat len then None
     else
       let d = d\<lparr>sd_current_ipmi_msg := m\<lparr>im_data := memcpy_at (unat (im_data_len m)) (slice 2 (unat len) rdata) (im_data m),
               im_data_len := im_data_len m + ucast len\<rparr>\<rparr> in
       if smb_cmd = SSIF_WR_MULTI_MIDDLE
       then Some ((error_record SSIF_STATUS_NO_ERR d)\<lparr>sd_cur_status := SSIF_STATUS_WAIT_FOR_WR_NEXT\<rparr>, Next_frame)
       else Some (d, Send_ipmi))"

text \<open>The frame that was read, \<open>rlen\<close> bytes of the buffer of \<^verbatim>\<open>SSIF_BUFF_SIZE\<close>.\<close>

definition ssif_frame ::
  "'w ssif_env \<Rightarrow> bytes \<Rightarrow> nat \<Rightarrow> ssif_dev \<Rightarrow> (ssif_dev \<times> ssif_next) option" where
  "ssif_frame env rdata rlen d =
    (if rlen = 0 then Some (error_record SSIF_STATUS_INVALID_LEN d, Cold_reset)
     else let smb_cmd = nth0 rdata 0 in
       (case ssif_data_pre_handle smb_cmd d of (d, ok) \<Rightarrow>
          if \<not> ok then Some (d, Cold_reset)
          else (case ssif_pec_check (se_crc8 env) (sd_addr d) rdata rlen of (ok, pec) \<Rightarrow>
             if \<not> ok then Some (error_record SSIF_STATUS_INVALID_PEC d, Cold_reset)
             else if smb_cmd = SSIF_WR_SINGLE \<or> smb_cmd = SSIF_WR_MULTI_START then ssif_wr_start smb_cmd rdata rlen (unat pec) d
             else if smb_cmd = SSIF_WR_MULTI_MIDDLE \<or> smb_cmd = SSIF_WR_MULTI_END then ssif_wr_middle smb_cmd rdata rlen (unat pec) d
             else Some (d, Cold_reset))))"

definition ssif_cold_reset ::
  "'w ssif_env \<Rightarrow> int \<Rightarrow> ssif_dev \<Rightarrow> 'w ssif_io \<Rightarrow> ssif_dev \<times> 'w ssif_io" where
  "ssif_cold_reset env now d io =
    (case (if sd_addr_lock d then
             (case ssif_lock_ctl env now False d io of (d, io, ok) \<Rightarrow>
                (if ok then d else error_record SSIF_STATUS_ADDR_LOCK_ERR d, io))
           else (d, io)) of
       (d, io) \<Rightarrow> (ssif_reset d, io))"

definition ssif_send_ipmi ::
  "'w ssif_env \<Rightarrow> int \<Rightarrow> ipmi_msg option \<Rightarrow> ssif_dev \<Rightarrow> 'w ssif_io \<Rightarrow> (ssif_dev \<times> 'w ssif_io) option" where
  "ssif_send_ipmi env now late d io =
    (case ssif_dispatch env d io of
       None \<Rightarrow> None
     | Some (d, io) \<Rightarrow>
       (case ssif_wait_response env now late d io of (d, io, ok) \<Rightarrow>
          if \<not> ok then Some (ssif_reset d, io)
          else Some ((error_record SSIF_STATUS_NO_ERR d)\<lparr>sd_cur_status := SSIF_STATUS_WAIT_FOR_RD_START\<rparr>, io)))"

definition ssif_handle_frame ::
  "'w ssif_env \<Rightarrow> int \<Rightarrow> ipmi_msg option \<Rightarrow> bytes \<Rightarrow> nat \<Rightarrow> ssif_dev \<Rightarrow> 'w ssif_io \<Rightarrow> (ssif_dev \<times> 'w ssif_io) option" where
  "ssif_handle_frame env now late rdata rlen d io =
    (case ssif_frame env rdata rlen d of
       None \<Rightarrow> None
     | Some (d, Cold_reset) \<Rightarrow> Some (ssif_cold_reset env now d io)
     | Some (d, Next_frame) \<Rightarrow> Some (d, io)
     | Some (d, Send_ipmi) \<Rightarrow> ssif_send_ipmi env now late d io)"

text \<open>An iteration of the thread, which is called when the target has a message.\<close>

definition ssif_read_task ::
  "'w ssif_env \<Rightarrow> int \<Rightarrow> ipmi_msg option \<Rightarrow> ssif_dev \<Rightarrow> 'w ssif_io \<Rightarrow> (ssif_dev \<times> 'w ssif_io) option" where
  "ssif_read_task env now late d io =
    (case i2c_target_read (se_target env) (sd_i2c_bus d) (of_nat SSIF_BUFF_SIZE) (io_target io) of
       None \<Rightarrow> None
     | Some (t, rc, buff) \<Rightarrow>
       let io = io\<lparr>io_target := t\<rparr> in
       if rc \<noteq> 0 then Some (ssif_cold_reset env now (error_record SSIF_STATUS_TARGET_WR_RD_ERROR d) io)
       else ssif_handle_frame env now late (take SSIF_BUFF_SIZE (buff @ zeros SSIF_BUFF_SIZE)) (length buff) d (io\<lparr>io_proc_ssif_ok := True\<rparr>))"

text \<open>The sign of life that the boards test.\<close>

definition get_ssif_ok :: "'w ssif_io \<Rightarrow> bool" where
  "get_ssif_ok io = io_proc_ssif_ok io"

definition reset_ssif_ok :: "'w ssif_io \<Rightarrow> 'w ssif_io" where
  "reset_ssif_ok io = io\<lparr>io_proc_ssif_ok := False\<rparr>"

subsection \<open>Initialisation\<close>

record ssif_init_cfg =
  sc_i2c_bus :: u8
  sc_addr :: u8
  sc_target_msgq_cnt :: u8

definition ssif_zero :: ssif_dev where
  "ssif_zero = \<lparr>sd_index = 0, sd_i2c_bus = 0, sd_addr = 0, sd_addr_lock = False, sd_exp_to_ms = 0, sd_mutex_init = False,
     sd_sem_limit = 0, sd_rsp_sem = 0, sd_rsp_buff = zeros Ipmb.IPMI_MSG_MAX_LENGTH, sd_rsp_buf_len = 0,
     sd_remain_data_len = 0, sd_current_ipmi_msg = zero_ipmi_msg, sd_cur_rd_blck = 0, sd_cur_status = SSIF_STATUS_WAIT_FOR_WR_START,
     sd_err_status_lst = replicate SSIF_ERR_RCD_SIZE SSIF_STATUS_NO_ERR, sd_err_idx = 0, sd_err_status = SSIF_STATUS_NO_ERR\<rparr>"

text \<open>
  The hooks of a target that belongs to an instance have the number 1 here. Mutex and semaphore are set up
  through \<^verbatim>\<open>ssif->\<close>, the first element of the array. \<open>max_bus\<close> is
  the number of buses of the board. The list of numbers is the instances with a thread.
\<close>

definition ssif_target_cfg :: "ssif_init_cfg \<Rightarrow> i2c_target_config" where
  "ssif_target_cfg c = \<lparr>tc_address = sc_addr c, tc_i2c_msg_count = ucast (sc_target_msgq_cnt c),
     tc_rd_data_collect_func = Some 1, tc_post_wr_rcv_func = Some 1, tc_address_sec = 0, tc_is_enable_sec = False,
     tc_address_thd = 0, tc_is_enable_thd = False\<rparr>"

fun ssif_init_loop ::
  "nat \<Rightarrow> target_env \<Rightarrow> nat \<Rightarrow> ssif_init_cfg list \<Rightarrow> (u8 \<Rightarrow> i2c_target_device) \<Rightarrow> ssif_dev list
     \<Rightarrow> ssif_dev list \<times> (u8 \<Rightarrow> i2c_target_device) \<times> nat list" where
  "ssif_init_loop max_bus env i [] targets ssif = (ssif, targets, [])"
| "ssif_init_loop max_bus env i (c # cs) targets ssif =
    (if max_bus \<le> unat (sc_i2c_bus c) then ssif_init_loop max_bus env (i + 1) cs targets ssif
     else (case i2c_target_control env (sc_i2c_bus c) (ssif_target_cfg c) I2C_CONTROL_REGISTER (targets (sc_i2c_bus c)) of
       (t, ret) \<Rightarrow>
         let targets = targets(sc_i2c_bus c := t) in
         if ret \<noteq> I2C_TARGET_API_NO_ERR then ssif_init_loop max_bus env (i + 1) cs targets ssif
         else
           let ssif = ssif[0 := (ssif ! 0)\<lparr>sd_mutex_init := True, sd_sem_limit := 1, sd_rsp_sem := 0\<rparr>];
               ssif = ssif[i := error_record SSIF_STATUS_NO_ERR ((ssif ! i)\<lparr>sd_i2c_bus := sc_i2c_bus c,
                 sd_addr := drop_bit 1 (sc_addr c), sd_addr_lock := False, sd_cur_status := SSIF_STATUS_WAIT_FOR_WR_START,
                 sd_index := of_nat i\<rparr>)] in
           (case ssif_init_loop max_bus env (i + 1) cs targets ssif of (ssif, targets, ths) \<Rightarrow> (ssif, targets, i # ths))))"

definition ssif_device_init ::
  "nat \<Rightarrow> target_env \<Rightarrow> bool \<Rightarrow> ssif_init_cfg list \<Rightarrow> (u8 \<Rightarrow> i2c_target_device)
     \<Rightarrow> ssif_dev list \<times> (u8 \<Rightarrow> i2c_target_device) \<times> nat list" where
  "ssif_device_init max_bus env heap cfgs targets =
    (if \<not> heap then ([], targets, []) else ssif_init_loop max_bus env 0 cfgs targets (replicate (length cfgs) ssif_zero))"

subsection \<open>Reference definitions and examples\<close>

definition ssif_sound :: "ssif_dev \<Rightarrow> bool" where
  "ssif_sound d \<longleftrightarrow> length (sd_rsp_buff d) = Ipmb.IPMI_MSG_MAX_LENGTH
     \<and> length (im_data (sd_current_ipmi_msg d)) = Ipmb.IPMI_MSG_MAX_LENGTH
     \<and> length (sd_err_status_lst d) = SSIF_ERR_RCD_SIZE \<and> unat (sd_err_idx d) \<le> SSIF_ERR_RCD_SIZE \<and> sd_rsp_sem d \<le> sd_sem_limit d"

definition ssif_waiting :: "ssif_dev \<Rightarrow> bool" where
  "ssif_waiting d \<longleftrightarrow> sd_cur_status d \<in> {SSIF_STATUS_WAIT_FOR_WR_START, SSIF_STATUS_WAIT_FOR_WR_NEXT,
     SSIF_STATUS_WAIT_FOR_RD_START, SSIF_STATUS_WAIT_FOR_RD_NEXT}"

definition sbmr_ok :: "'w ssif_env \<Rightarrow> bool" where
  "sbmr_ok env \<longleftrightarrow> (\<forall>f m. se_sbmr env = Some f \<longrightarrow> length (im_data (fst (f m))) = length (im_data m))"

inductive ssif_step :: "'w ssif_env \<Rightarrow> ssif_dev \<times> 'w ssif_io \<Rightarrow> ssif_dev \<times> 'w ssif_io \<Rightarrow> bool" for env :: "'w ssif_env" where
  thread: "ssif_read_task env now late d io = Some (d', io') \<Longrightarrow> ssif_step env (d, io) (d', io')"
| read_cb: "ssif_write_data env (Some d) io = Some (Some d', io', b) \<Longrightarrow> ssif_step env (d, io) (d', io')"
| write_cb: "ssif_bus_drop env now (Some d) io = (Some d', io') \<Longrightarrow> ssif_step env (d, io) (d', io')"
| monitor: "ssif_timeout_check env now d io = (d', io') \<Longrightarrow> ssif_step env (d, io) (d', io')"
| response: "set_rsp_data lock m d = (d', ok) \<Longrightarrow> ssif_step env (d, io) (d', io)"
| job: "send_cmd_work_handler env d io = Some io' \<Longrightarrow> ssif_step env (d, io) (d, io')"
| outside: "ssif_step env (d, io) (d, io')"

definition ssif_cfgs :: "ssif_init_cfg list" where
  "ssif_cfgs = [\<lparr>sc_i2c_bus = 1, sc_addr = 0x20, sc_target_msgq_cnt = 10\<rparr>, \<lparr>sc_i2c_bus = 2, sc_addr = 0x20, sc_target_msgq_cnt = 10\<rparr>]"

definition demo_ssif :: "ssif_dev list \<times> (u8 \<Rightarrow> i2c_target_device) \<times> nat list" where
  "demo_ssif = ssif_device_init 10 nominal_env True ssif_cfgs (\<lambda>_. target_zero)"

text \<open>An environment and the first channel after initialisation, for examples.\<close>

definition demo_ssif_env :: "unit ssif_env" where
  "demo_ssif_env = \<lparr>se_target = nominal_env, se_crc8 = (\<lambda>bs. of_nat (length bs)), se_rsp_pec = True, se_lock = True,
     se_addr_set = \<lambda>w b a. (w, 0), se_alert = \<lambda>h w. w, se_to_bic = \<lambda>n c. True, se_immediate = \<lambda>n c. False, se_sbmr = None,
     se_add_sel = \<lambda>m w. w, se_post_complete = \<lambda>w. w, se_record_version = \<lambda>b w. w, se_use_ipmb = False,
     se_pldm_request = \<lambda>m w. (w, m, 0), se_ipmb_read = \<lambda>m w. (w, m, True), se_local_msg = zero_ipmi_msg\<rparr>"

definition demo_ssif_dev :: ssif_dev where
  "demo_ssif_dev = fst demo_ssif ! 0"

definition demo_ssif_io :: "unit ssif_io" where
  "demo_ssif_io = \<lparr>io_target = fst (snd demo_ssif) 1, io_ipmi_msgq = [], io_jobs = 0, io_proc_ssif_ok = False, io_world = ()\<rparr>"

section \<open>Properties\<close>

lemma error_record_fields [simp]:
  "sd_index (error_record e d) = sd_index d" "sd_i2c_bus (error_record e d) = sd_i2c_bus d"
  "sd_addr (error_record e d) = sd_addr d" "sd_addr_lock (error_record e d) = sd_addr_lock d"
  "sd_exp_to_ms (error_record e d) = sd_exp_to_ms d" "sd_mutex_init (error_record e d) = sd_mutex_init d"
  "sd_sem_limit (error_record e d) = sd_sem_limit d" "sd_rsp_sem (error_record e d) = sd_rsp_sem d"
  "sd_rsp_buff (error_record e d) = sd_rsp_buff d" "sd_rsp_buf_len (error_record e d) = sd_rsp_buf_len d"
  "sd_remain_data_len (error_record e d) = sd_remain_data_len d"
  "sd_current_ipmi_msg (error_record e d) = sd_current_ipmi_msg d"
  "sd_cur_rd_blck (error_record e d) = sd_cur_rd_blck d" "sd_cur_status (error_record e d) = sd_cur_status d"
  by (simp_all add: error_record_def Let_def)

lemma sound_error_record [simp]: "ssif_sound d \<Longrightarrow> ssif_sound (error_record e d)"
proof -
  assume s: "ssif_sound d"
  have u: "unat (i + 1) \<le> SSIF_ERR_RCD_SIZE" if "unat (i :: u8) \<le> SSIF_ERR_RCD_SIZE" "unat i \<noteq> SSIF_ERR_RCD_SIZE" for i
    using that by (subst unat_plus_no_wrap) (simp_all add: SSIF_ERR_RCD_SIZE_def)
  show ?thesis using s u [of "sd_err_idx d"] u [of 0]
    by (auto simp: ssif_sound_def error_record_def Let_def SSIF_ERR_RCD_SIZE_def)
qed

lemma sound_updates [simp]:
  "ssif_sound (d\<lparr>sd_cur_status := s\<rparr>) = ssif_sound d" "ssif_sound (d\<lparr>sd_addr_lock := l\<rparr>) = ssif_sound d"
  "ssif_sound (d\<lparr>sd_addr_lock := l, sd_exp_to_ms := x\<rparr>) = ssif_sound d" "ssif_sound (d\<lparr>sd_remain_data_len := r\<rparr>) = ssif_sound d"
  "ssif_sound (d\<lparr>sd_remain_data_len := r, sd_cur_rd_blck := k\<rparr>) = ssif_sound d"
  by (simp_all add: ssif_sound_def)

lemma sound_reset [simp]: "ssif_sound d \<Longrightarrow> ssif_sound (ssif_reset d)" "ssif_waiting (ssif_reset d)"
  by (simp_all add: ssif_sound_def ssif_reset_def zero_ipmi_msg_def ssif_waiting_def)

lemma waiting_error_record [simp]: "ssif_waiting (error_record e d) = ssif_waiting d"
  by (simp add: ssif_waiting_def)

lemma waiting_status [simp]:
  "ssif_waiting (d\<lparr>sd_cur_status := SSIF_STATUS_WAIT_FOR_RD_START\<rparr>)" "ssif_waiting (d\<lparr>sd_cur_status := SSIF_STATUS_WAIT_FOR_WR_NEXT\<rparr>)"
  by (simp_all add: ssif_waiting_def)

lemma set_rsp_data_sound:
  assumes "ssif_sound d"
  shows "ssif_sound (fst (set_rsp_data lock m d))" and "sd_cur_status (fst (set_rsp_data lock m d)) = sd_cur_status d"
proof -
  have "length (memcpy_at 0 ([im_netfn m, im_cmd m, im_completion_code m]
      @ take (min (unat (im_data_len m)) (Ipmb.IPMI_MSG_MAX_LENGTH - 3)) (im_data m)) (sd_rsp_buff d)) = Ipmb.IPMI_MSG_MAX_LENGTH"
    using assms by (subst length_memcpy_at) (simp_all add: ssif_sound_def Ipmb.IPMI_MSG_MAX_LENGTH_def)
  then show "ssif_sound (fst (set_rsp_data lock m d))"
    using assms sound_error_record [OF assms, of SSIF_STATUS_MUTEX_ERR] by (auto simp: set_rsp_data_def) (simp add: ssif_sound_def)
  show "sd_cur_status (fst (set_rsp_data lock m d)) = sd_cur_status d" by (simp add: set_rsp_data_def)
qed

lemma lock_ctl_sound:
  assumes "ssif_lock_ctl env now l d io = (d', io', ok)"
  shows "ssif_sound d' = ssif_sound d" "sd_cur_status d' = sd_cur_status d" "sd_current_ipmi_msg d' = sd_current_ipmi_msg d"
  using assms by (auto simp: ssif_lock_ctl_def Let_def split: prod.splits if_splits)

lemma status_check_sound: "ssif_sound d \<Longrightarrow> ssif_sound (fst (ssif_status_check c d))"
  by (simp add: ssif_status_check_def Let_def)

lemma wr_start_sound:
  assumes "ssif_sound d" and "ssif_wr_start c rdata rlen pec d = Some (d', nxt)"
  shows "ssif_sound d' \<and> (nxt = Next_frame \<longrightarrow> ssif_waiting d')"
proof (cases "33 < rlen - 1 - pec \<or> int (unat (nth0 rdata 1)) \<noteq> int rlen - 2 - int pec")
  case True
  then have "d' = error_record SSIF_STATUS_INVALID_LEN d" "nxt = Cold_reset"
    using assms(2) unfolding ssif_wr_start_def Let_def by simp_all
  then show ?thesis using assms(1) by simp
next
  case False
  let ?n = "unat (ucast (nth0 rdata 1) - 2 :: u16)" and ?m = "sd_current_ipmi_msg d"
  let ?d = "d\<lparr>sd_current_ipmi_msg := ?m\<lparr>im_InF_source := HOST_SSIF_1 + sd_index d, im_netfn := drop_bit 2 (nth0 rdata 2),
    im_cmd := nth0 rdata 3, im_data_len := ucast (nth0 rdata 1) - 2, im_data := memcpy_at 0 (slice 4 ?n rdata) (im_data ?m)\<rparr>\<rparr>"
  have g: "?n \<le> length (im_data ?m)" "d' = (if c = SSIF_WR_MULTI_START
      then (error_record SSIF_STATUS_NO_ERR ?d)\<lparr>sd_cur_status := SSIF_STATUS_WAIT_FOR_WR_NEXT\<rparr> else ?d)"
    "nxt = (if c = SSIF_WR_MULTI_START then Next_frame else Send_ipmi)"
    using assms(2) False unfolding ssif_wr_start_def Let_def by (auto simp: not_less split: if_splits)
  have "ssif_sound ?d" using assms(1) g(1) by (simp add: ssif_sound_def)
  then show ?thesis using g(2,3) by (simp add: ssif_waiting_def)
qed

lemma wr_middle_sound:
  assumes "ssif_sound d" and "ssif_wr_middle c rdata rlen pec d = Some (d', nxt)"
  shows "ssif_sound d' \<and> (nxt = Next_frame \<longrightarrow> ssif_waiting d')"
proof (cases "33 < rlen - 1 - pec \<or> int (unat (nth0 rdata 1)) \<noteq> int rlen - 2 - int pec
    \<or> c = SSIF_WR_MULTI_MIDDLE \<and> unat (nth0 rdata 1) \<noteq> SSIF_MAX_IPMI_DATA_SIZE \<or> im_data_len (sd_current_ipmi_msg d) = 0")
  case True
  then have "\<exists>e. d' = error_record e d" "nxt = Cold_reset"
    using assms(2) unfolding ssif_wr_middle_def Let_def by (auto split: if_splits)
  then show ?thesis using assms(1) by auto
next
  case False
  let ?n = "unat (nth0 rdata 1)" and ?m = "sd_current_ipmi_msg d"
  let ?d = "d\<lparr>sd_current_ipmi_msg := ?m\<lparr>im_data := memcpy_at (unat (im_data_len ?m)) (slice 2 ?n rdata) (im_data ?m),
    im_data_len := im_data_len ?m + ucast (nth0 rdata 1)\<rparr>\<rparr>"
  have g: "unat (im_data_len ?m) + ?n \<le> length (im_data ?m)" "d' = (if c = SSIF_WR_MULTI_MIDDLE
      then (error_record SSIF_STATUS_NO_ERR ?d)\<lparr>sd_cur_status := SSIF_STATUS_WAIT_FOR_WR_NEXT\<rparr> else ?d)"
    "nxt = (if c = SSIF_WR_MULTI_MIDDLE then Next_frame else Send_ipmi)"
    using assms(2) False unfolding ssif_wr_middle_def Let_def by (auto simp: not_less split: if_splits)
  have "length (memcpy_at (unat (im_data_len ?m)) (slice 2 ?n rdata) (im_data ?m)) = length (im_data ?m)"
    by (rule length_memcpy_at) (use g(1) in simp)
  then have "ssif_sound ?d" using assms(1) by (simp add: ssif_sound_def)
  then show ?thesis using g(2,3) by (simp add: ssif_waiting_def)
qed

lemma frame_sound:
  assumes "ssif_sound d" and "ssif_frame env rdata rlen d = Some (d', nxt)"
  shows "ssif_sound d' \<and> (nxt = Next_frame \<longrightarrow> ssif_waiting d')"
proof -
  obtain d1 ok where pre: "ssif_data_pre_handle (nth0 rdata 0) d = (d1, ok)" by fastforce
  have s1: "ssif_sound d1"
    using pre assms(1) status_check_sound [OF assms(1), of "nth0 rdata 0"]
    by (auto simp: ssif_data_pre_handle_def split: if_splits)
  show ?thesis
    using assms pre s1 by (auto simp: ssif_frame_def Let_def split: if_splits prod.splits dest: wr_start_sound wr_middle_sound)
qed

lemma cold_reset_sound:
  assumes "ssif_sound d"
  shows "ssif_sound (fst (ssif_cold_reset env now d io))" and "ssif_waiting (fst (ssif_cold_reset env now d io))"
  using assms lock_ctl_sound(1) [of env now False d io]
  by (auto simp: ssif_cold_reset_def split: prod.splits if_splits)

lemma dispatch_sound:
  assumes "ssif_sound d" and "sbmr_ok env" and "ssif_dispatch env d io = Some (d', io')"
  shows "ssif_sound d'"
proof -
  have r: "ssif_sound (fst (set_rsp_data l m x))" if "ssif_sound x" for l m x using set_rsp_data_sound(1) [OF that] .
  have c: "ssif_sound (d\<lparr>sd_current_ipmi_msg := m\<rparr>)" if "length (im_data m) = length (im_data (sd_current_ipmi_msg d))" for m
    using assms(1) that by (simp add: ssif_sound_def)
  have b: "length (im_data m) = length (im_data (sd_current_ipmi_msg d))" if "se_sbmr env = Some f" "f (sd_current_ipmi_msg d) = (m, ok)" for f m ok
    using assms(2) that unfolding sbmr_ok_def by (metis fst_conv)
  show ?thesis using assms(1,3) r [OF assms(1)] r [OF c] c b
    by (auto simp: ssif_dispatch_def ssif_immediate_def ssif_to_bmc_def Let_def split: if_splits prod.splits option.splits)
qed

lemma send_sound:
  assumes "ssif_sound d" and "sbmr_ok env" and "ssif_send_ipmi env now late d io = Some (d', io')"
  shows "ssif_sound d'" and "ssif_waiting d'"
proof -
  obtain d1 io1 where disp: "ssif_dispatch env d io = Some (d1, io1)" using assms(3) by (auto simp: ssif_send_ipmi_def split: option.splits)
  have s1: "ssif_sound d1" by (rule dispatch_sound [OF assms(1,2) disp])
  obtain d2 io2 ok where w: "ssif_wait_response env now late d1 io1 = (d2, io2, ok)" by (metis prod_cases3)
  define d3 where "d3 = (if 0 < sd_rsp_sem d1 then d1 else case late of None \<Rightarrow> d1 | Some m \<Rightarrow> fst (set_rsp_data (se_lock env) m d1))"
  have s3: "ssif_sound d3" using s1 set_rsp_data_sound(1) [OF s1] by (simp add: d3_def split: option.split)
  then have s4: "ssif_sound (d3\<lparr>sd_rsp_sem := sd_rsp_sem d3 - 1\<rparr>)"
    using order_trans [OF diff_le_self [of "sd_rsp_sem d3" 1], of "sd_sem_limit d3"] by (simp add: ssif_sound_def)
  have "ssif_sound d2"
    using w s3 s4 lock_ctl_sound(1) [of env now False "d3\<lparr>sd_rsp_sem := sd_rsp_sem d3 - 1\<rparr>" io1]
    by (auto simp: ssif_wait_response_def Let_def simp flip: d3_def split: if_splits prod.splits)
  then show "ssif_sound d'" "ssif_waiting d'"
    using assms(3) disp w by (auto simp: ssif_send_ipmi_def split: if_splits)
qed

lemma read_task_sound:
  assumes "ssif_sound d" and "sbmr_ok env" and "ssif_read_task env now late d io = Some (d', io')"
  shows "ssif_sound d' \<and> ssif_waiting d'"
proof -
  have h: "ssif_sound d' \<and> ssif_waiting d'" if hf: "ssif_handle_frame env now late r l d x = Some (d', io')" for r l x
  proof -
    obtain d1 nxt where F: "ssif_frame env r l d = Some (d1, nxt)" using hf by (auto simp: ssif_handle_frame_def split: option.splits)
    note S = frame_sound [OF assms(1) F]
    show ?thesis
    proof (cases nxt)
      case Cold_reset
      then have "d' = fst (ssif_cold_reset env now d1 x)" using hf F by (simp add: ssif_handle_frame_def)
      then show ?thesis using cold_reset_sound S by blast
    next
      case Next_frame
      then show ?thesis using hf F S by (simp add: ssif_handle_frame_def)
    next
      case Send_ipmi
      then show ?thesis using hf F S send_sound [OF _ assms(2)] by (simp add: ssif_handle_frame_def)
    qed
  qed
  have c: "ssif_sound d' \<and> ssif_waiting d'" if "ssif_cold_reset env now (error_record e d) x = (d', io')" for e x
    using cold_reset_sound [OF sound_error_record [OF assms(1)]] that by (metis fst_conv)
  show ?thesis using assms(3) h c
    by (auto simp: ssif_read_task_def Let_def split: option.splits prod.splits if_splits)
qed

lemma write_data_sound:
  assumes "ssif_sound d" and "ssif_waiting d" and "ssif_write_data env (Some d) io = Some (Some d', io', b)"
  shows "ssif_sound d' \<and> ssif_waiting d'"
proof -
  have col: "ssif_sound d2 \<and> (ok \<longrightarrow> sd_cur_status d2 = SSIF_STATUS_WAIT_FOR_RD_NEXT \<or> sd_cur_status d2 = SSIF_STATUS_WAIT_FOR_WR_START)"
    if "ssif_sound d1" "ssif_collect env c d1 x = Some (d2, io2, ok)" for c d1 x d2 io2 ok
  proof -
    have blk: "ssif_sound d3 \<and> (n = SSIF_STATUS_WAIT_FOR_RD_NEXT \<or> n = SSIF_STATUS_WAIT_FOR_WR_START)"
      if "ssif_block c d1 = Some (Some (d3, bl, n))" for d3 bl n
      using that \<open>ssif_sound d1\<close> by (auto simp: ssif_block_def Let_def ssif_sound_def split: if_splits)
    show ?thesis
    proof (cases "sd_rsp_buf_len d1 = 0")
      case True
      then show ?thesis using that by (auto simp: ssif_collect_def)
    next
      case nz: False
      show ?thesis
      proof (cases "ssif_block c d1")
        case None
        then show ?thesis using that(2) nz by (simp add: ssif_collect_def)
      next
        case (Some o1)
        show ?thesis
        proof (cases o1)
          case None
          then show ?thesis using that Some nz by (auto simp: ssif_collect_def)
        next
          case (Some e)
          obtain d3 bl n where e: "e = (d3, bl, n)" by (metis prod_cases3)
          have eq: "ssif_block c d1 = Some (Some (d3, bl, n))" using Some e \<open>ssif_block c d1 = Some o1\<close> by simp
          have "d2 = d3\<lparr>sd_cur_status := n\<rparr> \<and> ok \<or> d2 = error_record SSIF_STATUS_TARGET_WR_RD_ERROR d3 \<and> \<not> ok"
            using that(2) nz unfolding ssif_collect_def eq Let_def by (auto split: prod.splits if_splits)
          then show ?thesis using blk [OF eq] by auto
        qed
      qed
    qed
  qed
  have cd: "ssif_sound d' \<and> ssif_waiting d'" if "ssif_collect_data env c (Some d) x = Some (Some d', y, b)" for c x y
  proof -
    obtain d1 ok where ch: "ssif_status_check c d = (d1, ok)" by fastforce
    have s1: "ssif_sound d1" using status_check_sound [OF assms(1), of c] ch by simp
    have cases: "d' = d \<or> d' = ssif_reset d \<or> d' = ssif_reset d1
      \<or> (\<exists>d2 io2 ok2. ssif_collect env c d1 (x\<lparr>io_world := se_alert env True (io_world x)\<rparr>) = Some (d2, io2, ok2)
          \<and> (d' = ssif_reset d2 \<or> d' = ssif_reset (error_record SSIF_STATUS_NO_ERR d2) \<or> d' = d2 \<and> ok2))"
      using that ch unfolding ssif_collect_data_def Let_def by (simp split: if_splits option.splits prod.splits)
    have w: "ssif_waiting d2" if "ssif_collect env c d1 y = Some (d2, io2, True)" for d2 y io2
      using col [OF s1 that] by (auto simp: ssif_waiting_def)
    show ?thesis using cases assms(1,2) s1 w col [OF s1] by auto
  qed
  show ?thesis using assms cd by (auto simp: ssif_write_data_def Let_def split: if_splits)
qed

text \<open>
  (C21) Whatever the host writes and reads, whenever responses, time-outs and jobs come, and whatever the outcomes of all services: as long as no frame
  overruns the message, the buffers of an instance keep their sizes, the next error is recorded within
  the list of 100, the semaphore stays within its limit, and between two operations the
  state machine is in one of its four waiting states.
\<close>

theorem ssif_reach_inv:
  assumes "(ssif_step env)\<^sup>*\<^sup>* (d, io) (d', io')" and "sbmr_ok env" and "ssif_sound d" and "ssif_waiting d"
  shows "ssif_sound d' \<and> ssif_waiting d'"
proof -
  have step: "ssif_sound (fst y) \<and> ssif_waiting (fst y)" if "ssif_step env x y" "ssif_sound (fst x) \<and> ssif_waiting (fst x)" for x y
    using that
  proof (induction rule: ssif_step.induct)
    case (thread now late d io d' io')
    then show ?case using read_task_sound [OF _ assms(2)] by auto
  next
    case (read_cb d io d' io' b)
    then show ?case using write_data_sound [OF _ _ read_cb(1)] by simp
  next
    case (write_cb now d io d' io')
    then show ?case using lock_ctl_sound [of env now True d io]
      by (auto simp: ssif_bus_drop_def ssif_waiting_def Let_def split: if_splits prod.splits)
  next
    case (monitor now d io d' io')
    then show ?case using lock_ctl_sound(1) [of env now False "error_record SSIF_STATUS_ADDR_LCK_TIMEOUT d" io]
      by (auto simp: ssif_timeout_check_def split: if_splits prod.splits)
  next
    case (response lock m d d' ok io)
    then show ?case using set_rsp_data_sound [of d lock m] by (auto simp: ssif_waiting_def)
  qed auto
  have "ssif_sound (fst (d', io')) \<and> ssif_waiting (fst (d', io'))"
    using assms(1) by (induction rule: rtranclp_induct) (use assms(3,4) step in auto)
  then show ?thesis by simp
qed

lemma ssif_init_loop_others:
  assumes "0 < j" and "ssif_init_loop max_bus te i cs targets ssif = (ssif', targets', ths)"
  shows "length ssif' = length ssif \<and> (j < length ssif \<longrightarrow> sd_mutex_init (ssif' ! j) = sd_mutex_init (ssif ! j))"
  using assms(2)
proof (induction cs arbitrary: i targets ssif ssif' targets' ths)
  case (Cons c cs)
  obtain t ret where ctl: "i2c_target_control te (sc_i2c_bus c) (ssif_target_cfg c) I2C_CONTROL_REGISTER (targets (sc_i2c_bus c)) = (t, ret)"
    by fastforce
  show ?case
  proof (cases "max_bus \<le> unat (sc_i2c_bus c) \<or> ret \<noteq> I2C_TARGET_API_NO_ERR")
    case True
    then obtain tg where "ssif_init_loop max_bus te (i + 1) cs tg ssif = (ssif', targets', ths)"
      using Cons.prems ctl by (auto simp: Let_def split: if_splits)
    then show ?thesis by (rule Cons.IH)
  next
    case False
    define s1 where "s1 = ssif[0 := (ssif ! 0)\<lparr>sd_mutex_init := True, sd_sem_limit := 1, sd_rsp_sem := 0\<rparr>]"
    define s2 where "s2 = s1[i := error_record SSIF_STATUS_NO_ERR ((s1 ! i)\<lparr>sd_i2c_bus := sc_i2c_bus c,
       sd_addr := drop_bit 1 (sc_addr c), sd_addr_lock := False, sd_cur_status := SSIF_STATUS_WAIT_FOR_WR_START, sd_index := of_nat i\<rparr>)]"
    obtain ths' where run: "ssif_init_loop max_bus te (i + 1) cs (targets(sc_i2c_bus c := t)) s2 = (ssif', targets', ths')"
      using Cons.prems ctl False by (auto simp: Let_def s1_def s2_def split: prod.splits)
    have "length s2 = length ssif" by (simp add: s2_def s1_def)
    moreover have "j < length ssif \<longrightarrow> sd_mutex_init (s2 ! j) = sd_mutex_init (ssif ! j)"
      using assms(1) by (cases "i = j") (simp_all add: s2_def s1_def)
    ultimately show ?thesis using Cons.IH [OF run] by simp
  qed
qed simp

text \<open>
  (C37) Initialisation of several channels: mutex and semaphore are set up for the first channel only, so no
  response can be set on any other one, although it has its target and its thread.
\<close>

theorem ssif_second_channel_mute:
  assumes "ssif_device_init max_bus te heap cfgs targets = (ssif, targets', ths)" and "channel \<noteq> 0"
  shows "ssif_set_data lock channel m ssif = (ssif, False)"
proof (cases "length ssif \<le> unat channel")
  case False
  have pos: "0 < unat channel" using assms(2) by (simp add: unat_gt_0)
  have heap: "heap" using assms(1) False by (auto simp: ssif_device_init_def split: if_splits)
  then have run: "ssif_init_loop max_bus te 0 cfgs targets (replicate (length cfgs) ssif_zero) = (ssif, targets', ths)"
    using assms(1) by (simp add: ssif_device_init_def)
  have "\<not> sd_mutex_init (ssif ! unat channel)"
    using ssif_init_loop_others [OF pos run] False by (simp add: ssif_zero_def)
  then show ?thesis using False by (simp add: ssif_set_data_def set_rsp_data_def list_update_id)
qed (simp add: ssif_set_data_def)

lemma demo_ssif_threads: "snd (snd demo_ssif) = [0, 1]"
  by code_simp

theorem ssif_second_channel_mute_witness:
  "snd (snd demo_ssif) = [0, 1] \<and> ssif_set_data True 1 zero_ipmi_msg (fst demo_ssif) = (fst demo_ssif, False)"
  using ssif_second_channel_mute [of 10 nominal_env True ssif_cfgs "\<lambda>_. target_zero" "fst demo_ssif" "fst (snd demo_ssif)"
      "snd (snd demo_ssif)" 1 True zero_ipmi_msg] demo_ssif_threads
  by (simp add: demo_ssif_def)

lemma demo_ssif_dev_fields:
  "sd_mutex_init demo_ssif_dev" "sd_sem_limit demo_ssif_dev = 1" "sd_rsp_sem demo_ssif_dev = 0" "sd_i2c_bus demo_ssif_dev = 1"
  "length (sd_rsp_buff demo_ssif_dev) = 527" "length (im_data (sd_current_ipmi_msg demo_ssif_dev)) = 527"
  "sd_cur_status demo_ssif_dev = SSIF_STATUS_WAIT_FOR_WR_START" "sd_index demo_ssif_dev = 0"
  "length (sd_err_status_lst demo_ssif_dev) = 100" "sd_err_idx demo_ssif_dev = 0"
  by code_simp+

theorem ssif_reach_inv_witness:
  "ssif_sound (fst (set_rsp_data True zero_ipmi_msg demo_ssif_dev)) \<and> ssif_waiting (fst (set_rsp_data True zero_ipmi_msg demo_ssif_dev))"
proof -
  let ?d = "fst (set_rsp_data True zero_ipmi_msg demo_ssif_dev)"
  have "ssif_step demo_ssif_env (demo_ssif_dev, demo_ssif_io) (?d, demo_ssif_io)"
    by (rule ssif_step.response [of True "zero_ipmi_msg" _ _ "snd (set_rsp_data True zero_ipmi_msg demo_ssif_dev)"]) simp
  then have "(ssif_step demo_ssif_env)\<^sup>*\<^sup>* (demo_ssif_dev, demo_ssif_io) (?d, demo_ssif_io)" by simp
  moreover have "sbmr_ok demo_ssif_env" by (simp add: sbmr_ok_def demo_ssif_env_def)
  moreover have "ssif_sound demo_ssif_dev" "ssif_waiting demo_ssif_dev"
    using demo_ssif_dev_fields by (simp_all add: ssif_sound_def ssif_waiting_def Ipmb.IPMI_MSG_MAX_LENGTH_def SSIF_ERR_RCD_SIZE_def)
  ultimately show ?thesis by (rule ssif_reach_inv)
qed

end
