(* ===== verification/Ssif_Exchange.thy ===== *)
theory Ssif_Exchange
  imports Ssif
begin

text \<open>
  Exchanges with a host over the SMBus system interface: the transactions of the host on the bus, through the callbacks of
  the I2C target and of the instance, the frames it writes for a message, and how it puts the blocks of a response
  together. The theorems compose both components: what is written arrives, and what is answered is read.
\<close>

subsection \<open>Reference definitions and examples\<close>

text \<open>The frames of a message as the host writes them: first byte (network function and LUN), command and data.\<close>

fun ssif_middles :: "bytes \<Rightarrow> (u8 \<times> bytes) list" where
  "ssif_middles data = (if length data \<le> 32 then [(SSIF_WR_MULTI_END, data)]
     else (SSIF_WR_MULTI_MIDDLE, take 32 data) # ssif_middles (drop 32 data))"

definition ssif_blocks :: "u8 \<Rightarrow> u8 \<Rightarrow> bytes \<Rightarrow> (u8 \<times> bytes) list" where
  "ssif_blocks nf cmd data = (if length data \<le> 30 then [(SSIF_WR_SINGLE, nf # cmd # data)]
     else (SSIF_WR_MULTI_START, nf # cmd # take 30 data) # ssif_middles (drop 30 data))"

definition block_frame :: "(bytes \<Rightarrow> u8) \<Rightarrow> u8 \<Rightarrow> bool \<Rightarrow> u8 \<times> bytes \<Rightarrow> bytes" where
  "block_frame crc8 addr pec b = (let f = fst b # of_nat (length (snd b)) # snd b in
     f @ (if pec then [crc8 (push_bit 1 addr # f)] else []))"

definition frame_buffer :: "bytes \<Rightarrow> bytes" where
  "frame_buffer f = take SSIF_BUFF_SIZE (f @ zeros SSIF_BUFF_SIZE)"

text \<open>What the collection of a message leaves alone.\<close>

definition ssif_fixed :: "ssif_dev \<Rightarrow> ssif_dev" where
  "ssif_fixed d = d\<lparr>sd_current_ipmi_msg := zero_ipmi_msg, sd_cur_status := SSIF_STATUS_WAIT_FOR_WR_START,
     sd_err_status_lst := [], sd_err_idx := 0, sd_err_status := SSIF_STATUS_NO_ERR, sd_addr_lock := False, sd_exp_to_ms := 0\<rparr>"

definition holds_msg :: "u8 \<Rightarrow> u8 \<Rightarrow> bytes \<Rightarrow> ssif_dev \<Rightarrow> bool" where
  "holds_msg nf cmd data d \<longleftrightarrow> (let m = sd_current_ipmi_msg d in
     im_InF_source m = HOST_SSIF_1 + sd_index d \<and> im_netfn m = drop_bit 2 nf \<and> im_cmd m = cmd
     \<and> unat (im_data_len m) = length data \<and> length (im_data m) = Ipmb.IPMI_MSG_MAX_LENGTH
     \<and> take (length data) (im_data m) = data)"

definition ssif_frames :: "(bytes \<Rightarrow> u8) \<Rightarrow> u8 \<Rightarrow> bool \<Rightarrow> u8 \<Rightarrow> u8 \<Rightarrow> bytes \<Rightarrow> bytes list" where
  "ssif_frames crc8 addr pec nf cmd data = map (block_frame crc8 addr pec) (ssif_blocks nf cmd data)"

text \<open>An instance with its mutex and semaphore, and the bytes of a response.\<close>

definition ssif_ready :: "ssif_dev \<Rightarrow> bool" where
  "ssif_ready d \<longleftrightarrow> sd_mutex_init d \<and> sd_sem_limit d = 1 \<and> length (sd_rsp_buff d) = Ipmb.IPMI_MSG_MAX_LENGTH
     \<and> length (im_data (sd_current_ipmi_msg d)) = Ipmb.IPMI_MSG_MAX_LENGTH"

definition rsp_bytes :: "ipmi_msg \<Rightarrow> bytes" where
  "rsp_bytes m = [im_netfn m, im_cmd m, im_completion_code m] @ take (unat (im_data_len m)) (im_data m)"

definition rsp_ok :: "ipmi_msg \<Rightarrow> bool" where
  "rsp_ok m \<longleftrightarrow> length (im_data m) = Ipmb.IPMI_MSG_MAX_LENGTH \<and> unat (im_data_len m) \<le> Ipmb.IPMI_MSG_MAX_LENGTH - 3"

text \<open>The response that the host reads.\<close>

definition holds_rsp :: "bytes \<Rightarrow> ssif_dev \<Rightarrow> bool" where
  "holds_rsp rsp d \<longleftrightarrow> unat (sd_rsp_buf_len d) = length rsp \<and> take (length rsp) (sd_rsp_buff d) = rsp
     \<and> length (sd_rsp_buff d) = Ipmb.IPMI_MSG_MAX_LENGTH"

text \<open>
  The I2C target of an instance, with an empty queue, and the transactions of the host on the bus: a write of a frame and a
  read command. The hooks are the callbacks of the instance; the one for received bytes leaves the target alone.
\<close>

definition ssif_target :: "target_env \<Rightarrow> u8 \<Rightarrow> i2c_target_device \<Rightarrow> bool" where
  "ssif_target te bus t \<longleftrightarrow> te_ctrl te \<and> unat bus < MAX_TARGET_NUM \<and> dv_is_init t
     \<and> td_target_wr_msgq (dv_data t) = Some [] \<and> 2 \<le> td_max_msgs (dv_data t)
     \<and> td_rd_data_collect_func (dv_data t) = Some 1 \<and> td_post_wr_rcv_func (dv_data t) = Some 1
     \<and> length (pk_msg (td_target_rd_msg (dv_data t))) = MAX_I2C_TARGET_BUFF"

definition ssif_hooks :: "i2c_target_data \<Rightarrow> bool \<Rightarrow> target_hooks" where
  "ssif_hooks td collected = \<lparr>th_collect = \<lambda>_ _. (td, collected), th_post = \<lambda>_ x. x\<rparr>"

fun bus_read_more :: "target_env \<Rightarrow> nat \<Rightarrow> i2c_target_device \<Rightarrow> (i2c_target_device \<times> bytes) option" where
  "bus_read_more te 0 t = Some (t, [])"
| "bus_read_more te (Suc n) t =
    (case i2c_target_read_processed te config t of
       None \<Rightarrow> None
     | Some (t, _, None) \<Rightarrow> Some (t, [])
     | Some (t, _, Some b) \<Rightarrow> map_option (\<lambda>(t, bs). (t, b # bs)) (bus_read_more te n t))"

definition host_read ::
  "'w ssif_env \<Rightarrow> u8 \<Rightarrow> ssif_dev \<Rightarrow> 'w ssif_io \<Rightarrow> (ssif_dev \<times> 'w ssif_io \<times> bytes) option" where
  "host_read env smb_cmd d io =
    (case i2c_target_write_requested (se_target env) config (io_target io) of
       None \<Rightarrow> None
     | Some (t, _) \<Rightarrow>
       (case i2c_target_write_received (se_target env) (ssif_hooks (dv_data t) True) config smb_cmd t of
          None \<Rightarrow> None
        | Some (t, _) \<Rightarrow>
          (case ssif_write_data env (Some d) (io\<lparr>io_target := t\<rparr>) of
             Some (Some d, io, ok) \<Rightarrow>
               (case i2c_target_read_requested (se_target env) (ssif_hooks (dv_data (io_target io)) ok) config t of
                  None \<Rightarrow> None
                | Some (t, _, first) \<Rightarrow>
                  (case (case first of None \<Rightarrow> Some (t, []) | Some b \<Rightarrow>
                           map_option (\<lambda>(t, bs). (t, b # bs)) (bus_read_more (se_target env) 255 t)) of
                     None \<Rightarrow> None
                   | Some (t, bs) \<Rightarrow>
                     (case i2c_target_stop (se_target env) config t of
                        None \<Rightarrow> None | Some (t, _) \<Rightarrow> Some (d, io\<lparr>io_target := t\<rparr>, bs))))
           | _ \<Rightarrow> None)))"

definition rd_view :: "bytes \<Rightarrow> nat \<Rightarrow> i2c_target_device \<Rightarrow> bool" where
  "rd_view bs k t \<longleftrightarrow> unat (td_rd_buffer_idx (dv_data t)) = k \<and> unat (pk_msg_length (td_target_rd_msg (dv_data t))) = length bs
     \<and> take (length bs) (pk_msg (td_target_rd_msg (dv_data t))) = bs"

text \<open>The host puts the blocks of a response together; \<open>n\<close> bounds the number of blocks after the first.\<close>

fun host_rest :: "'w ssif_env \<Rightarrow> nat \<Rightarrow> ssif_dev \<Rightarrow> 'w ssif_io \<Rightarrow> (ssif_dev \<times> 'w ssif_io \<times> bytes) option" where
  "host_rest env 0 d io = None"
| "host_rest env (Suc n) d io =
    (case host_read env SSIF_RD_NEXT d io of
       None \<Rightarrow> None
     | Some (d, io, b) \<Rightarrow>
       let part = slice 2 (unat (nth0 b 0) - 1) b in
       if nth0 b 1 = 0xFF then Some (d, io, part)
       else map_option (\<lambda>(d, io, r). (d, io, part @ r)) (host_rest env n d io))"

definition host_response :: "'w ssif_env \<Rightarrow> nat \<Rightarrow> ssif_dev \<Rightarrow> 'w ssif_io \<Rightarrow> (ssif_dev \<times> 'w ssif_io \<times> bytes) option" where
  "host_response env n d io =
    (case host_read env SSIF_RD_START d io of
       None \<Rightarrow> None
     | Some (d, io, b) \<Rightarrow>
       let blk = slice 1 (unat (nth0 b 0)) b in
       if take 2 blk = [0, 1] then map_option (\<lambda>(d, io, r). (d, io, drop 2 blk @ r)) (host_rest env n d io)
       else Some (d, io, blk))"

text \<open>What reading a response leaves alone.\<close>

definition ssif_static :: "ssif_dev \<Rightarrow> u8 \<times> u8 \<times> u8 \<times> bool \<times> bool \<times> nat \<times> nat \<times> bytes \<times> u16" where
  "ssif_static d = (sd_index d, sd_i2c_bus d, sd_addr d, sd_addr_lock d, sd_mutex_init d, sd_sem_limit d, sd_rsp_sem d,
     sd_rsp_buff d, sd_rsp_buf_len d)"

text \<open>The host writes a frame, and the thread reads it.\<close>

definition host_write ::
  "'w ssif_env \<Rightarrow> int \<Rightarrow> ipmi_msg option \<Rightarrow> bytes \<Rightarrow> ssif_dev \<Rightarrow> 'w ssif_io \<Rightarrow> (ssif_dev \<times> 'w ssif_io) option" where
  "host_write env now late f d io =
    (case i2c_target_write_requested (se_target env) config (io_target io) of
       None \<Rightarrow> None
     | Some (t, _) \<Rightarrow>
       (case i2c_target_write_received (se_target env) (ssif_hooks (dv_data t) True) config (hd f) t of
          None \<Rightarrow> None
        | Some (t, _) \<Rightarrow>
          (case ssif_bus_drop env now (Some d) (io\<lparr>io_target := t\<rparr>) of
             (Some d, io) \<Rightarrow>
               (case bus_bytes (se_target env) (ssif_hooks (dv_data t) True) config (tl f) (io_target io) of
                  None \<Rightarrow> None
                | Some t \<Rightarrow>
                  (case i2c_target_stop (se_target env) config t of
                     None \<Rightarrow> None | Some (t, _) \<Rightarrow> ssif_read_task env now late d (io\<lparr>io_target := t\<rparr>)))
           | _ \<Rightarrow> None)))"

definition same_io :: "'w ssif_env \<Rightarrow> ssif_dev \<Rightarrow> 'w ssif_io \<Rightarrow> 'w ssif_io \<Rightarrow> bool" where
  "same_io env d io io' \<longleftrightarrow> ssif_target (se_target env) (sd_i2c_bus d) (io_target io')
     \<and> io_ipmi_msgq io' = io_ipmi_msgq io \<and> io_jobs io' = io_jobs io"

fun host_writes ::
  "'w ssif_env \<Rightarrow> int \<Rightarrow> ipmi_msg option \<Rightarrow> bytes list \<Rightarrow> ssif_dev \<Rightarrow> 'w ssif_io \<Rightarrow> (ssif_dev \<times> 'w ssif_io) option" where
  "host_writes env now late [] d io = Some (d, io)"
| "host_writes env now late (f # fs) d io =
    (case host_write env now late f d io of None \<Rightarrow> None | Some (d, io) \<Rightarrow> host_writes env now late fs d io)"

text \<open>What an exchange relies on: the platform, the instance between two messages and its target.\<close>

definition ssif_env_ok :: "'w ssif_env \<Rightarrow> bool" where
  "ssif_env_ok env \<longleftrightarrow> se_lock env \<and> (\<forall>w b a. snd (se_addr_set env w b a) = 0)"

definition ssif_idle :: "'w ssif_env \<Rightarrow> ssif_dev \<Rightarrow> 'w ssif_io \<Rightarrow> bool" where
  "ssif_idle env d io \<longleftrightarrow> ssif_ready d \<and> sd_cur_status d \<in> {SSIF_STATUS_WAIT_FOR_WR_START, SSIF_STATUS_WAIT_FOR_RD_START}
     \<and> ssif_target (se_target env) (sd_i2c_bus d) (io_target io)"

definition to_bic :: "'w ssif_env \<Rightarrow> u8 \<Rightarrow> u8 \<Rightarrow> bool" where
  "to_bic env nf cmd \<longleftrightarrow> se_to_bic env (drop_bit 2 nf) cmd \<and> (se_sbmr env = None \<or> drop_bit 2 nf \<noteq> NETFN_DCMI_REQ)"

definition demo_ssif_rsp :: "nat \<Rightarrow> ipmi_msg" where
  "demo_ssif_rsp n = zero_ipmi_msg\<lparr>im_netfn := 0x1C, im_cmd := 1, im_data_len := of_nat n\<rparr>"

section \<open>Properties\<close>

declare ssif_middles.simps [simp del]

lemma ssif_fixed_error_record [simp]: "ssif_fixed (error_record e d) = ssif_fixed d"
  by (auto simp: error_record_def ssif_fixed_def Let_def)

lemma ssif_fixed_update [simp]:
  "ssif_fixed (d\<lparr>sd_current_ipmi_msg := m\<rparr>) = ssif_fixed d" "ssif_fixed (d\<lparr>sd_cur_status := s\<rparr>) = ssif_fixed d"
  "ssif_fixed (d\<lparr>sd_addr_lock := l, sd_exp_to_ms := e\<rparr>) = ssif_fixed d"
  by (simp_all add: ssif_fixed_def)

lemma ssif_fixedD:
  assumes "ssif_fixed d' = ssif_fixed d"
  shows "sd_index d' = sd_index d" "sd_i2c_bus d' = sd_i2c_bus d" "sd_addr d' = sd_addr d"
    "sd_mutex_init d' = sd_mutex_init d" "sd_sem_limit d' = sd_sem_limit d" "sd_rsp_sem d' = sd_rsp_sem d"
    "sd_rsp_buff d' = sd_rsp_buff d" "sd_rsp_buf_len d' = sd_rsp_buf_len d"
  using arg_cong [OF assms, of sd_index] arg_cong [OF assms, of sd_i2c_bus] arg_cong [OF assms, of sd_addr]
    arg_cong [OF assms, of sd_mutex_init] arg_cong [OF assms, of sd_sem_limit]
    arg_cong [OF assms, of sd_rsp_sem] arg_cong [OF assms, of sd_rsp_buff] arg_cong [OF assms, of sd_rsp_buf_len]
  by (simp_all add: ssif_fixed_def)

lemma frame_buffer_nth0: "i < 50 \<Longrightarrow> nth0 (frame_buffer f) i = nth0 f i"
  by (simp add: frame_buffer_def ssif_consts nth0_take zeros_def)

lemma frame_buffer_length [simp]: "length (frame_buffer f) = 50"
  by (simp add: frame_buffer_def ssif_consts)

lemma frame_buffer_take: "n \<le> length f \<Longrightarrow> n \<le> 50 \<Longrightarrow> take n (frame_buffer f) = take n f"
  by (simp add: frame_buffer_def ssif_consts)

lemma block_frame_facts:
  fixes crc :: "bytes \<Rightarrow> u8" and addr :: u8 and pec :: bool
  assumes "length (snd b) \<le> 32"
  defines "f \<equiv> block_frame crc addr pec b"
  shows "length f = 2 + length (snd b) + (if pec then 1 else 0)" and "nth0 (frame_buffer f) 0 = fst b"
    and "nth0 (frame_buffer f) 1 = of_nat (length (snd b))"
    and "2 + n \<le> 2 + length (snd b) \<Longrightarrow> slice 2 n (frame_buffer f) = take n (snd b)"
    and "ssif_pec_check crc addr (frame_buffer f) (length f) = (True, if pec then 1 else 0)"
proof -
  let ?l = "length (snd b)" and ?g = "fst b # of_nat (length (snd b)) # snd b"
  have u: "unat (of_nat ?l :: u8) = ?l" using assms(1) by (subst unat_of_nat_lt) simp_all
  have f: "f = ?g @ (if pec then [crc (push_bit 1 addr # ?g)] else [])" by (simp add: f_def block_frame_def Let_def)
  show l: "length f = 2 + ?l + (if pec then 1 else 0)" by (simp add: f)
  have t: "take (2 + k) (frame_buffer f) = take (2 + k) ?g" if "k \<le> ?l" for k
    using that assms(1) by (subst frame_buffer_take) (simp_all add: l, simp add: f)
  have n0: "nth0 (frame_buffer f) i = nth0 f i" if "i < 50" for i by (rule frame_buffer_nth0 [OF that])
  have ff: "nth0 f 0 = fst b" "nth0 f (Suc 0) = of_nat ?l" "pec \<Longrightarrow> nth0 f (Suc (Suc ?l)) = crc (push_bit 1 addr # ?g)"
    by (simp_all add: f nth0_append)
  show "nth0 (frame_buffer f) 0 = fst b" using n0 [of 0] ff(1) by simp
  show n1: "nth0 (frame_buffer f) 1 = of_nat ?l" using n0 [of 1] ff(2) by simp
  show "slice 2 n (frame_buffer f) = take n (snd b)" if "2 + n \<le> 2 + ?l"
    using t [of n] that by (simp add: slice_def drop_take [symmetric] take_drop)
  have pc: "nth0 (frame_buffer f) (2 + ?l) = crc (push_bit 1 addr # ?g)" if pec
    using assms(1) n0 [of "2 + ?l"] ff(3) [OF that] by simp
  show "ssif_pec_check crc addr (frame_buffer f) (length f) = (True, if pec then 1 else 0)"
    using pc t [of ?l] n1 u by (simp add: ssif_pec_check_def l)
qed

lemma ssif_frame_checked:
  fixes c :: u8 and env :: "'w ssif_env" and pec :: bool
  assumes "c = SSIF_WR_SINGLE \<or> c = SSIF_WR_MULTI_START \<or> c = SSIF_WR_MULTI_MIDDLE \<or> c = SSIF_WR_MULTI_END"
    and st: "if c = SSIF_WR_SINGLE \<or> c = SSIF_WR_MULTI_START
      then sd_cur_status d \<in> {SSIF_STATUS_WAIT_FOR_WR_START, SSIF_STATUS_WAIT_FOR_RD_START}
      else sd_cur_status d = SSIF_STATUS_WAIT_FOR_WR_NEXT"
    and l: "length blk \<le> 32"
  defines "f \<equiv> block_frame (se_crc8 env) (sd_addr d) pec (c, blk)" and "p \<equiv> if pec then 1 else 0 :: nat"
  shows "\<exists>s. ssif_frame env (frame_buffer f) (length f) d =
    (if c = SSIF_WR_SINGLE \<or> c = SSIF_WR_MULTI_START
     then ssif_wr_start c (frame_buffer f) (length f) p (d\<lparr>sd_cur_status := s\<rparr>)
     else ssif_wr_middle c (frame_buffer f) (length f) p (d\<lparr>sd_cur_status := s\<rparr>))"
proof -
  note F = block_frame_facts [where b = "(c, blk)" and crc = "se_crc8 env" and addr = "sd_addr d" and pec = pec, unfolded snd_conv fst_conv, folded f_def, OF l]
  have nz: "length f \<noteq> 0" using F(1) by simp
  have "\<exists>s. ssif_data_pre_handle c d = (d\<lparr>sd_cur_status := s\<rparr>, True)"
    using assms(1) st by (elim disjE) (auto simp: ssif_data_pre_handle_def ssif_status_check_def ssif_cmds)
  then obtain s where pre: "ssif_data_pre_handle c d = (d\<lparr>sd_cur_status := s\<rparr>, True)" ..
  have "ssif_frame env (frame_buffer f) (length f) d =
    (if c = SSIF_WR_SINGLE \<or> c = SSIF_WR_MULTI_START
     then ssif_wr_start c (frame_buffer f) (length f) p (d\<lparr>sd_cur_status := s\<rparr>)
     else ssif_wr_middle c (frame_buffer f) (length f) p (d\<lparr>sd_cur_status := s\<rparr>))"
    unfolding ssif_frame_def Let_def F(2) pre using F(5) nz assms(1) by (auto simp: p_def)
  then show ?thesis ..
qed

lemma ssif_frame_start:
  fixes c nf cmd :: u8 and env :: "'w ssif_env" and pec :: bool
  assumes c: "c = SSIF_WR_SINGLE \<or> c = SSIF_WR_MULTI_START"
    and st: "sd_cur_status d \<in> {SSIF_STATUS_WAIT_FOR_WR_START, SSIF_STATUS_WAIT_FOR_RD_START}"
    and l: "length data \<le> 30" and m: "length (im_data (sd_current_ipmi_msg d)) = Ipmb.IPMI_MSG_MAX_LENGTH"
  defines "f \<equiv> block_frame (se_crc8 env) (sd_addr d) pec (c, nf # cmd # data)"
  shows "\<exists>d'. ssif_frame env (frame_buffer f) (length f) d
      = Some (d', if c = SSIF_WR_MULTI_START then Next_frame else Send_ipmi)
    \<and> ssif_fixed d' = ssif_fixed d \<and> holds_msg nf cmd data d'
    \<and> (c = SSIF_WR_MULTI_START \<longrightarrow> sd_cur_status d' = SSIF_STATUS_WAIT_FOR_WR_NEXT)"
proof -
  let ?blk = "nf # cmd # data" and ?p = "if pec then 1 else 0 :: nat"
  have l32: "length ?blk \<le> 32" using l by simp
  note F = block_frame_facts [where b = "(c, ?blk)" and crc = "se_crc8 env" and addr = "sd_addr d" and pec = pec, unfolded snd_conv fst_conv, folded f_def, OF l32]
  obtain s where run: "ssif_frame env (frame_buffer f) (length f) d = ssif_wr_start c (frame_buffer f) (length f) ?p (d\<lparr>sd_cur_status := s\<rparr>)"
    using ssif_frame_checked [OF _ _ l32, of c d env pec] c st unfolding f_def by auto
  have s4: "slice 2 (2 + length data) (frame_buffer f) = ?blk" using F(4) [of "2 + length data"] by simp
  have nf: "nth0 (frame_buffer f) 2 = nf" "nth0 (frame_buffer f) 3 = cmd"
    using nth0_slice [of 0 "2 + length data" 2 "frame_buffer f", unfolded s4]
      nth0_slice [of 1 "2 + length data" 2 "frame_buffer f", unfolded s4] by (simp_all add: eval_nat_numeral)
  have dt: "slice 4 (length data) (frame_buffer f) = data"
  proof -
    have "slice 4 (length data) (frame_buffer f) = drop 2 (slice 2 (2 + length data) (frame_buffer f))"
      by (simp add: slice_def drop_take)
    then show ?thesis unfolding s4 by simp
  qed
  have ul: "unat (of_nat (length ?blk) :: u8) = 2 + length data" using l by (subst unat_of_nat_lt) simp_all
  have dl: "(ucast (of_nat (length ?blk) :: u8) - 2 :: u16) = of_nat (length data)"
  proof -
    have "unat (of_nat (length ?blk) :: u16) = length ?blk" using l by (subst unat_of_nat_lt) simp_all
    then have "(ucast (of_nat (length ?blk) :: u8) :: u16) = of_nat (length ?blk)"
      unfolding word_unat_eq_iff using ul by (simp only: unat_ucast_8_16) simp
    then show ?thesis by simp
  qed
  have udl: "unat (of_nat (length data) :: u16) = length data" using l by (subst unat_of_nat_lt) simp_all
  let ?m = "(sd_current_ipmi_msg d)\<lparr>im_InF_source := HOST_SSIF_1 + sd_index d, im_netfn := drop_bit 2 nf, im_cmd := cmd,
    im_data_len := of_nat (length data), im_data := memcpy_at 0 data (im_data (sd_current_ipmi_msg d))\<rparr>"
  let ?d = "d\<lparr>sd_cur_status := s, sd_current_ipmi_msg := ?m\<rparr>"
  have "ssif_wr_start c (frame_buffer f) (length f) ?p (d\<lparr>sd_cur_status := s\<rparr>) =
    (if c = SSIF_WR_MULTI_START then Some ((error_record SSIF_STATUS_NO_ERR ?d)\<lparr>sd_cur_status := SSIF_STATUS_WAIT_FOR_WR_NEXT\<rparr>, Next_frame)
     else Some (?d, Send_ipmi))"
    unfolding ssif_wr_start_def Let_def F(3) dl udl nf dt ul using l m F(1)
    by (simp add: Ipmb.IPMI_MSG_MAX_LENGTH_def)
  moreover have "holds_msg nf cmd data ?d"
    using l m udl by (simp add: holds_msg_def Let_def Ipmb.IPMI_MSG_MAX_LENGTH_def memcpy_at_def)
  ultimately show ?thesis unfolding run using c by (auto simp: holds_msg_def)
qed

lemma ssif_frame_middle:
  fixes c nf cmd :: u8 and env :: "'w ssif_env" and pec :: bool
  assumes c: "c = SSIF_WR_MULTI_MIDDLE \<or> c = SSIF_WR_MULTI_END" and st: "sd_cur_status d = SSIF_STATUS_WAIT_FOR_WR_NEXT"
    and l: "length blk \<le> 32" "c = SSIF_WR_MULTI_MIDDLE \<longrightarrow> length blk = 32"
    and h: "holds_msg nf cmd acc d" "acc \<noteq> []"
  defines "f \<equiv> block_frame (se_crc8 env) (sd_addr d) pec (c, blk)"
  shows "if length acc + length blk \<le> Ipmb.IPMI_MSG_MAX_LENGTH
    then \<exists>d'. ssif_frame env (frame_buffer f) (length f) d
        = Some (d', if c = SSIF_WR_MULTI_MIDDLE then Next_frame else Send_ipmi)
      \<and> ssif_fixed d' = ssif_fixed d \<and> holds_msg nf cmd (acc @ blk) d'
      \<and> (c = SSIF_WR_MULTI_MIDDLE \<longrightarrow> sd_cur_status d' = SSIF_STATUS_WAIT_FOR_WR_NEXT)
    else ssif_frame env (frame_buffer f) (length f) d = None"
proof -
  let ?p = "if pec then 1 else 0 :: nat"
  note F = block_frame_facts [where b = "(c, blk)" and crc = "se_crc8 env" and addr = "sd_addr d" and pec = pec,
      unfolded snd_conv fst_conv, folded f_def, OF l(1)]
  have cc: "\<not> (c = SSIF_WR_SINGLE \<or> c = SSIF_WR_MULTI_START)" using c by (auto simp: ssif_cmds)
  obtain s where run: "ssif_frame env (frame_buffer f) (length f) d = ssif_wr_middle c (frame_buffer f) (length f) ?p (d\<lparr>sd_cur_status := s\<rparr>)"
    using ssif_frame_checked [OF _ _ l(1), of c d env pec] c cc st unfolding f_def by auto
  have dt: "slice 2 (length blk) (frame_buffer f) = blk" using F(4) [of "length blk"] by simp
  let ?m = "sd_current_ipmi_msg d"
  have m: "unat (im_data_len ?m) = length acc" "length (im_data ?m) = Ipmb.IPMI_MSG_MAX_LENGTH" "take (length acc) (im_data ?m) = acc"
    "im_InF_source ?m = HOST_SSIF_1 + sd_index d" "im_netfn ?m = drop_bit 2 nf" "im_cmd ?m = cmd"
    using h(1) by (simp_all add: holds_msg_def Let_def)
  have m0: "im_data_len ?m \<noteq> 0" using m(1) h(2) by auto
  have ul: "unat (of_nat (length blk) :: u8) = length blk" using l by (subst unat_of_nat_lt) simp_all
  let ?d = "d\<lparr>sd_cur_status := s, sd_current_ipmi_msg := ?m\<lparr>im_data := memcpy_at (length acc) blk (im_data ?m),
    im_data_len := im_data_len ?m + ucast (of_nat (length blk) :: u8)\<rparr>\<rparr>"
  have eq: "ssif_wr_middle c (frame_buffer f) (length f) ?p (d\<lparr>sd_cur_status := s\<rparr>) =
    (if Ipmb.IPMI_MSG_MAX_LENGTH < length acc + length blk then None
     else if c = SSIF_WR_MULTI_MIDDLE then Some ((error_record SSIF_STATUS_NO_ERR ?d)\<lparr>sd_cur_status := SSIF_STATUS_WAIT_FOR_WR_NEXT\<rparr>, Next_frame)
     else Some (?d, Send_ipmi))"
    unfolding ssif_wr_middle_def Let_def F(3) ul dt using l m(1,2) m0 F(1)
    by (simp add: SSIF_MAX_IPMI_DATA_SIZE_def)
  have "holds_msg nf cmd (acc @ blk) ?d" if le: "length acc + length blk \<le> Ipmb.IPMI_MSG_MAX_LENGTH"
  proof -
    have "unat (im_data_len ?m + ucast (of_nat (length blk) :: u8)) = length acc + length blk"
      by (subst unat_plus_no_wrap) (use le m(1) ul in \<open>simp_all add: Ipmb.IPMI_MSG_MAX_LENGTH_def\<close>)
    moreover have "take (length acc + length blk) (memcpy_at (length acc) blk (im_data ?m)) = acc @ blk"
      using m(2,3) le by simp
    ultimately show ?thesis using m le by (simp add: holds_msg_def Let_def)
  qed
  then show ?thesis unfolding run eq using c by (auto simp: holds_msg_def not_less)
qed

lemma set_rsp_data_holds:
  assumes "sd_mutex_init d" and "length (sd_rsp_buff d) = Ipmb.IPMI_MSG_MAX_LENGTH" and "rsp_ok m"
  shows "\<exists>d'. set_rsp_data True m d = (d', True) \<and> holds_rsp (rsp_bytes m) d'
    \<and> sd_rsp_sem d' = min (sd_sem_limit d) (sd_rsp_sem d + 1)
    \<and> d' = d\<lparr>sd_rsp_buff := sd_rsp_buff d', sd_rsp_buf_len := sd_rsp_buf_len d', sd_rsp_sem := sd_rsp_sem d'\<rparr>"
proof -
  have l: "min (unat (im_data_len m)) (Ipmb.IPMI_MSG_MAX_LENGTH - 3) = unat (im_data_len m)" "length (rsp_bytes m) = unat (im_data_len m) + 3"
    "length (rsp_bytes m) \<le> Ipmb.IPMI_MSG_MAX_LENGTH"
    using assms(3) by (simp_all add: rsp_ok_def rsp_bytes_def Ipmb.IPMI_MSG_MAX_LENGTH_def)
  have u: "unat (im_data_len m + 3) = length (rsp_bytes m)"
    by (subst unat_plus_no_wrap) (use l in \<open>simp_all add: Ipmb.IPMI_MSG_MAX_LENGTH_def\<close>)
  let ?b = "memcpy_at 0 (rsp_bytes m) (sd_rsp_buff d)"
  have "set_rsp_data True m d = (d\<lparr>sd_rsp_buff := ?b, sd_rsp_buf_len := im_data_len m + 3,
      sd_rsp_sem := min (sd_sem_limit d) (sd_rsp_sem d + 1)\<rparr>, True)"
    using assms(1) unfolding set_rsp_data_def l(1) by (simp add: rsp_bytes_def)
  moreover have "length ?b = Ipmb.IPMI_MSG_MAX_LENGTH" "take (length (rsp_bytes m)) ?b = rsp_bytes m"
    using assms(2) l(3) by (simp_all add: memcpy_at_def)
  ultimately show ?thesis using u by (simp add: holds_rsp_def)
qed

text \<open>A request for the IPMI task whose response arrives in time.\<close>

lemma ssif_send_bic:
  assumes "ssif_ready d" and "sd_rsp_sem d = 0" and "holds_msg nf cmd data d"
    and bic: "se_to_bic env (drop_bit 2 nf) cmd" "se_sbmr env = None \<or> drop_bit 2 nf \<noteq> NETFN_DCMI_REQ"
    and env: "se_lock env" "\<And>w b a. snd (se_addr_set env w b a) = 0" and rsp: "rsp_ok rsp"
  shows "\<exists>d' w'. ssif_send_ipmi env now (Some rsp) d io
      = Some (d', io\<lparr>io_ipmi_msgq := ipmi_msgq_put (sd_current_ipmi_msg d) (io_ipmi_msgq io), io_world := w'\<rparr>)
    \<and> sd_cur_status d' = SSIF_STATUS_WAIT_FOR_RD_START \<and> \<not> sd_addr_lock d' \<and> holds_rsp (rsp_bytes rsp) d'
    \<and> ssif_ready d' \<and> sd_rsp_sem d' = 0 \<and> sd_i2c_bus d' = sd_i2c_bus d \<and> sd_addr d' = sd_addr d \<and> sd_index d' = sd_index d"
proof -
  have m: "im_netfn (sd_current_ipmi_msg d) = drop_bit 2 nf" "im_cmd (sd_current_ipmi_msg d) = cmd"
    using assms(3) by (simp_all add: holds_msg_def Let_def)
  let ?io = "io\<lparr>io_ipmi_msgq := ipmi_msgq_put (sd_current_ipmi_msg d) (io_ipmi_msgq io)\<rparr>"
  have disp: "ssif_dispatch env d io = Some (d, ?io)"
    using m bic by (auto simp: ssif_dispatch_def Let_def)
  have R: "sd_mutex_init d" "sd_sem_limit d = 1" "length (sd_rsp_buff d) = Ipmb.IPMI_MSG_MAX_LENGTH"
    using assms(1) by (simp_all add: ssif_ready_def)
  obtain d1 where d1: "set_rsp_data True rsp d = (d1, True)" "holds_rsp (rsp_bytes rsp) d1" "sd_rsp_sem d1 = min (sd_sem_limit d) (sd_rsp_sem d + 1)"
    and e: "d1 = d\<lparr>sd_rsp_buff := sd_rsp_buff d1, sd_rsp_buf_len := sd_rsp_buf_len d1, sd_rsp_sem := sd_rsp_sem d1\<rparr>"
    using set_rsp_data_holds [OF R(1,3) rsp] by blast
  have f: "sd_i2c_bus d1 = sd_i2c_bus d" "sd_addr d1 = sd_addr d" "sd_index d1 = sd_index d" "sd_mutex_init d1 = sd_mutex_init d"
    "sd_sem_limit d1 = sd_sem_limit d" "sd_current_ipmi_msg d1 = sd_current_ipmi_msg d"
    by (subst e, simp)+
  have sem: "sd_rsp_sem d1 = 1" using d1(3) R(2) assms(2) by simp
  obtain w1 where w1: "se_addr_set env (io_world io) (sd_i2c_bus d) (push_bit 1 (sd_addr d)) = (w1, 0)"
    using env(2) by (metis prod.collapse)
  let ?d2 = "d1\<lparr>sd_rsp_sem := 0, sd_addr_lock := False\<rparr>"
  have "ssif_wait_response env now (Some rsp) d ?io = (?d2, ?io\<lparr>io_world := se_alert env False w1\<rparr>, True)"
    using assms(2) d1(1) env(1) sem w1 f by (simp add: ssif_wait_response_def ssif_lock_ctl_def)
  then have "ssif_send_ipmi env now (Some rsp) d io
      = Some ((error_record SSIF_STATUS_NO_ERR ?d2)\<lparr>sd_cur_status := SSIF_STATUS_WAIT_FOR_RD_START\<rparr>, ?io\<lparr>io_world := se_alert env False w1\<rparr>)"
    by (simp add: ssif_send_ipmi_def disp)
  moreover have "ssif_ready ?d2" using assms(1) d1(2) f by (simp add: ssif_ready_def holds_rsp_def)
  ultimately show ?thesis using d1(2) f by (auto simp: holds_rsp_def ssif_ready_def)
qed

lemma bus_read_more_all:
  assumes "rd_view bs k t" and "k \<le> length bs" and "length bs \<le> 256" and "length bs - k \<le> n"
  shows "\<exists>i. bus_read_more te n t = Some (t\<lparr>dv_data := (dv_data t)\<lparr>td_rd_buffer_idx := i\<rparr>\<rparr>, drop k bs)"
  using assms
proof (induction n arbitrary: k t)
  case 0
  then show ?case by (intro exI [of _ "td_rd_buffer_idx (dv_data t)"]) simp
next
  case (Suc n)
  let ?d = "dv_data t"
  have v: "unat (td_rd_buffer_idx ?d) = k" "unat (pk_msg_length (td_target_rd_msg ?d)) = length bs"
    "take (length bs) (pk_msg (td_target_rd_msg ?d)) = bs" using Suc.prems(1) by (simp_all add: rd_view_def)
  have fin: "ucast (pk_msg_length (td_target_rd_msg ?d)) - td_rd_buffer_idx ?d = 0 \<longleftrightarrow> k = length bs"
    by (subst right_minus_eq) (use v(1,2) in \<open>auto simp: word_unat_eq_iff\<close>)
  show ?case
  proof (cases "k = length bs")
    case True
    then have "bus_read_more te (Suc n) t = Some (t, [])"
      using fin by (simp add: i2c_target_read_processed_def i2c_find_slave_config_def)
    then show ?thesis using True by (intro exI [of _ "td_rd_buffer_idx ?d"]) simp
  next
    case False
    then have k: "k < length bs" using Suc.prems(2) by simp
    let ?t = "t\<lparr>dv_data := ?d\<lparr>td_rd_buffer_idx := td_rd_buffer_idx ?d + 1\<rparr>\<rparr>"
    have b: "nth0 (pk_msg (td_target_rd_msg ?d)) k = bs ! k"
    proof -
      have "nth0 (pk_msg (td_target_rd_msg ?d)) k = nth0 bs k" using nth0_take [OF k, of "pk_msg (td_target_rd_msg ?d)"] v(3) by simp
      then show ?thesis using k by (simp add: nth0_def)
    qed
    have step: "i2c_target_read_processed te config t = Some (?t, 0, Some (bs ! k))"
      using fin False k v(1) Suc.prems(3) b
      by (simp add: i2c_target_read_processed_def i2c_find_slave_config_def MAX_I2C_TARGET_BUFF_def)
    have "unat (td_rd_buffer_idx ?d + 1) = k + 1"
      by (subst unat_plus_no_wrap) (use v(1) k Suc.prems(3) in simp_all)
    then have rv: "rd_view bs (k + 1) ?t" using v by (simp add: rd_view_def)
    have that_n: "length bs - (k + 1) \<le> n" using Suc.prems(4) by linarith
    from rv obtain i where "bus_read_more te n ?t = Some (?t\<lparr>dv_data := (dv_data ?t)\<lparr>td_rd_buffer_idx := i\<rparr>\<rparr>, drop (k + 1) bs)"
      using Suc.IH [of "k + 1" ?t] k Suc.prems(3) that_n by auto
    then show ?thesis using step k by (intro exI [of _ i]) (simp add: Cons_nth_drop_Suc)
  qed
qed

lemma ssif_collect_data_block:
  assumes "smb_cmd = SSIF_RD_START \<or> smb_cmd = SSIF_RD_NEXT" and "ssif_status_check smb_cmd d = (d1, True)"
    and "ssif_collect env smb_cmd d1 (io\<lparr>io_world := se_alert env True (io_world io)\<rparr>) = Some (d3, io3, True)"
    and "sd_cur_status d3 = SSIF_STATUS_WAIT_FOR_RD_NEXT \<or> sd_cur_status d3 = SSIF_STATUS_WAIT_FOR_WR_START"
  shows "ssif_collect_data env smb_cmd (Some d) io = Some (Some (if sd_cur_status d3 = SSIF_STATUS_WAIT_FOR_RD_NEXT then d3
    else ssif_reset (error_record SSIF_STATUS_NO_ERR d3)), io3, False)"
proof -
  have "smb_cmd \<noteq> SSIF_RD_RETRY" using assms(1) by (auto simp: ssif_cmds)
  then show ?thesis using assms by (auto simp: ssif_collect_data_def Let_def)
qed

text \<open>What the instance puts into the target is what the host reads.\<close>

lemma host_read_block:
  fixes env :: "'w ssif_env"
  assumes tg: "ssif_target (se_target env) (sd_i2c_bus d) (io_target io)"
    and cmd: "smb_cmd = SSIF_RD_START \<or> smb_cmd = SSIF_RD_NEXT"
    and chk: "ssif_status_check smb_cmd d = (d1, True)" and len: "sd_rsp_buf_len d1 \<noteq> 0"
    and blk: "ssif_block smb_cmd d1 = Some (Some (d2, blk, nxt))" and l: "length blk \<le> 32" "blk \<noteq> []"
    and bus: "sd_i2c_bus d2 = sd_i2c_bus d" and nxt: "nxt = SSIF_STATUS_WAIT_FOR_RD_NEXT \<or> nxt = SSIF_STATUS_WAIT_FOR_WR_START"
  shows "\<exists>io' tail. host_read env smb_cmd d io = Some
      (if nxt = SSIF_STATUS_WAIT_FOR_RD_NEXT then d2\<lparr>sd_cur_status := nxt\<rparr>
       else ssif_reset (error_record SSIF_STATUS_NO_ERR (d2\<lparr>sd_cur_status := nxt\<rparr>)), io', of_nat (length blk) # blk @ tail)
    \<and> ssif_target (se_target env) (sd_i2c_bus d) (io_target io') \<and> io_ipmi_msgq io' = io_ipmi_msgq io \<and> io_jobs io' = io_jobs io"
proof -
  let ?te = "se_target env" and ?t0 = "io_target io"
  let ?m1 = "\<lparr>pk_msg_length = 0, pk_msg = (zeros 256)[0 := smb_cmd]\<rparr>"
  let ?d0 = "(dv_data ?t0)\<lparr>td_req_address := td_address (dv_data ?t0) AND 0xFF, td_target_wr_msg := ?m1,
    td_wr_buffer_idx := 1, td_skip_msg_wr := False\<rparr>"
  let ?t2 = "?t0\<lparr>dv_data := ?d0\<rparr>"
  have T: "te_ctrl ?te" "unat (sd_i2c_bus d) < MAX_TARGET_NUM" "dv_is_init ?t0" "td_target_wr_msgq (dv_data ?t0) = Some []"
    "2 \<le> td_max_msgs (dv_data ?t0)" "td_rd_data_collect_func (dv_data ?t0) = Some 1" "td_post_wr_rcv_func (dv_data ?t0) = Some 1"
    "length (pk_msg (td_target_rd_msg (dv_data ?t0))) = 256"
    using tg by (simp_all add: ssif_target_def MAX_I2C_TARGET_BUFF_def)
  define t1 where "t1 = ?t0\<lparr>dv_data := (dv_data ?t0)\<lparr>td_req_address := td_address (dv_data ?t0) AND 0xFF,
    td_target_wr_msg := \<lparr>pk_msg_length = 0, pk_msg = zeros 256\<rparr>, td_wr_buffer_idx := 0, td_skip_msg_wr := False\<rparr>\<rparr>"
  have w1: "i2c_target_write_requested ?te config ?t0 = Some (t1, 0)"
    by (simp add: i2c_target_write_requested_def i2c_find_slave_config_def config_address_def MAX_I2C_TARGET_BUFF_def t1_def)
  have w2: "i2c_target_write_received ?te (ssif_hooks (dv_data t1) True) config smb_cmd t1 = Some (?t2, 0)"
    using T(7) by (simp add: i2c_target_write_received_def i2c_find_slave_config_def MAX_I2C_TARGET_BUFF_def post_wr_rcv_def
        ssif_hooks_def t1_def)
  define wdata where "wdata = (let x = of_nat (length blk) # blk in
    if se_rsp_pec env then x @ [ssif_pec_get (se_crc8 env) (sd_addr d2) smb_cmd x] else x)"
  obtain tail where tail: "wdata = of_nat (length blk) # blk @ tail" "length tail \<le> 1"
    by (cases "se_rsp_pec env") (auto simp: wdata_def Let_def intro: that)
  have lw: "length wdata \<le> 34" "1 < length wdata" using tail l by (auto simp: Suc_le_eq)
  have ul: "unat (of_nat (length wdata) :: u16) = length wdata" using lw by (subst unat_of_nat_lt) simp_all
  let ?rd = "\<lparr>pk_msg_length = of_nat (length wdata), pk_msg = memcpy_at 0 wdata (pk_msg (td_target_rd_msg (dv_data ?t0)))\<rparr>"
  define t3 where "t3 = ?t2\<lparr>dv_data := ?d0\<lparr>td_target_rd_msg := ?rd\<rparr>\<rparr>"
  let ?w = "se_alert env True (io_world io)"
  have tw: "i2c_target_write ?te (sd_i2c_bus d2) wdata (of_nat (length wdata)) ?t2 = (t3, 0)"
    using T(1-3) lw ul unfolding bus t3_def
    by (simp add: i2c_target_write_def status_bits MAX_I2C_TARGET_BUFF_def I2C_TARGET_API_NO_ERR_def)
  let ?d3 = "d2\<lparr>sd_cur_status := nxt\<rparr>"
  let ?io2 = "io\<lparr>io_target := ?t2, io_world := ?w\<rparr>" and ?io3 = "io\<lparr>io_target := t3, io_world := ?w\<rparr>"
  have col: "ssif_collect env smb_cmd d1 ?io2 = Some (?d3, ?io3, True)"
    unfolding ssif_collect_def using len blk tw by (simp add: Let_def wdata_def)
  let ?out = "if nxt = SSIF_STATUS_WAIT_FOR_RD_NEXT then ?d3 else ssif_reset (error_record SSIF_STATUS_NO_ERR ?d3)"
  have wr: "ssif_write_data env (Some d) (io\<lparr>io_target := ?t2\<rparr>) = Some (Some ?out, ?io3, False)"
  proof -
    have "nth0 (pk_msg (td_target_wr_msg ?d0)) 0 = smb_cmd" by (simp add: nth0_def)
    then have "ssif_write_data env (Some d) (io\<lparr>io_target := ?t2\<rparr>) = ssif_collect_data env smb_cmd (Some d) (io\<lparr>io_target := ?t2\<rparr>)"
      by (simp add: ssif_write_data_def)
    also have "\<dots> = Some (Some ?out, ?io3, False)"
      using ssif_collect_data_block [OF cmd chk, of env "io\<lparr>io_target := ?t2\<rparr>" ?d3 ?io3] col nxt by simp
    finally show ?thesis .
  qed
  let ?d4 = "(dv_data t3)\<lparr>td_skip_msg_wr := True, td_rd_buffer_idx := 1\<rparr>"
  have rr: "i2c_target_read_requested ?te (ssif_hooks (dv_data (io_target ?io3)) False) config ?t2
      = Some (?t2\<lparr>dv_data := ?d4\<rparr>, 0, Some (of_nat (length blk)))"
  proof -
    have "nth0 (pk_msg (td_target_rd_msg (dv_data t3))) 0 = of_nat (length blk)"
      using lw(2) nth0_memcpy_at_0 [of 0 wdata] by (simp add: t3_def) (simp add: tail(1))
    moreover have "pk_msg_length (td_target_rd_msg (dv_data t3)) \<noteq> 0" using ul lw(2) by (auto simp: t3_def word_unat_eq_iff)
    ultimately show ?thesis using T(6)
      by (simp add: i2c_target_read_requested_def i2c_find_slave_config_def rd_data_collect_def ssif_hooks_def)
  qed
  have "rd_view wdata 1 (?t2\<lparr>dv_data := ?d4\<rparr>)"
    using ul lw T(8) by (simp add: rd_view_def t3_def memcpy_at_def)
  moreover have "1 \<le> length wdata" "length wdata \<le> 256" "length wdata - 1 \<le> 255" using lw by linarith+
  ultimately have "\<exists>i. bus_read_more ?te 255 (?t2\<lparr>dv_data := ?d4\<rparr>)
    = Some (?t2\<lparr>dv_data := ?d4\<rparr>\<lparr>dv_data := (dv_data (?t2\<lparr>dv_data := ?d4\<rparr>))\<lparr>td_rd_buffer_idx := i\<rparr>\<rparr>, drop 1 wdata)"
    by (rule bus_read_more_all)
  then
  obtain i where rm: "bus_read_more ?te 255 (?t2\<lparr>dv_data := ?d4\<rparr>) = Some (?t2\<lparr>dv_data := ?d4\<lparr>td_rd_buffer_idx := i\<rparr>\<rparr>, drop 1 wdata)"
    by auto
  let ?t5 = "?t2\<lparr>dv_data := ?d4\<lparr>td_rd_buffer_idx := 0, td_wr_buffer_idx := 0\<rparr>\<rparr>"
  have st: "i2c_target_stop ?te config (?t2\<lparr>dv_data := ?d4\<lparr>td_rd_buffer_idx := i\<rparr>\<rparr>) = Some (?t5, 0)"
    by (simp add: i2c_target_stop_def i2c_find_slave_config_def Let_def t3_def)
  have "host_read env smb_cmd d io = Some (?out, ?io3\<lparr>io_target := ?t5\<rparr>, of_nat (length blk) # drop 1 wdata)"
    unfolding host_read_def w1 option.case prod.case w2 wr rr rm option.map(2) st ..
  moreover have "ssif_target ?te (sd_i2c_bus d) ?t5"
    using tg lw ul by (simp add: ssif_target_def t3_def MAX_I2C_TARGET_BUFF_def)
  moreover have "drop 1 wdata = blk @ tail" using tail(1) by simp
  ultimately show ?thesis by (intro exI [of _ "?io3\<lparr>io_target := ?t5\<rparr>"] exI [of _ tail]) simp
qed

lemma ssif_static_update [simp]:
  "ssif_static (error_record e d) = ssif_static d" "ssif_static (ssif_reset d) = ssif_static d"
  "ssif_static (d\<lparr>sd_cur_status := s\<rparr>) = ssif_static d" "ssif_static (d\<lparr>sd_remain_data_len := r\<rparr>) = ssif_static d"
  "ssif_static (d\<lparr>sd_cur_rd_blck := b\<rparr>) = ssif_static d"
  by (simp_all add: ssif_static_def ssif_reset_def)

lemma ssif_staticD:
  assumes "ssif_static d' = ssif_static d"
  shows "sd_i2c_bus d' = sd_i2c_bus d" "sd_addr d' = sd_addr d" "holds_rsp rsp d' = holds_rsp rsp d" "sd_addr_lock d' = sd_addr_lock d"
    "sd_rsp_sem d' = sd_rsp_sem d"
  using assms by (simp_all add: ssif_static_def holds_rsp_def)

lemma slice_tail: "slice 1 (length blk) (x # blk @ tail) = blk" "slice 2 (length blk) (x # y # blk @ tail) = blk"
  by (simp_all add: slice_def)

lemma host_rest_all:
  fixes env :: "'w ssif_env"
  assumes "ssif_target (se_target env) (sd_i2c_bus d) (io_target io)" and "holds_rsp rsp d"
    and "sd_cur_status d = SSIF_STATUS_WAIT_FOR_RD_NEXT" and "unat (sd_remain_data_len d) = length rsp - p" and "p < length rsp"
    and "unat (sd_cur_rd_blck d) * 31 \<le> p" and "length rsp \<le> Ipmb.IPMI_MSG_MAX_LENGTH" and "length rsp - p \<le> 31 * n"
  shows "\<exists>d' io'. host_rest env n d io = Some (d', io', drop p rsp) \<and> sd_cur_status d' = SSIF_STATUS_WAIT_FOR_WR_START
    \<and> ssif_static d' = ssif_static d \<and> length (im_data (sd_current_ipmi_msg d')) = Ipmb.IPMI_MSG_MAX_LENGTH
    \<and> ssif_target (se_target env) (sd_i2c_bus d) (io_target io') \<and> io_ipmi_msgq io' = io_ipmi_msgq io \<and> io_jobs io' = io_jobs io"
  using assms
proof (induction n arbitrary: d io p)
  case (Suc n)
  note P = Suc.prems
  define r where "r = length rsp - p"
  have r: "unat (sd_remain_data_len d) = r" "0 < r" "r \<le> 527" using P(4,5,7) by (simp_all add: r_def Ipmb.IPMI_MSG_MAX_LENGTH_def)
  have h: "unat (sd_rsp_buf_len d) = length rsp" "take (length rsp) (sd_rsp_buff d) = rsp" "length (sd_rsp_buff d) = 527"
    using P(2) by (simp_all add: holds_rsp_def Ipmb.IPMI_MSG_MAX_LENGTH_def)
  have len0: "sd_rsp_buf_len d \<noteq> 0" using h(1) P(5) by auto
  have b31: "unat (sd_cur_rd_blck d) < 17" using P(5,6,7) by (simp add: Ipmb.IPMI_MSG_MAX_LENGTH_def)
  let ?k = "min r 31"
  let ?last = "r \<le> 31"
  let ?d1 = "d\<lparr>sd_cur_status := SSIF_STATUS_RD_MIDDLE\<rparr>"
  let ?d2 = "(if ?last then ?d1\<lparr>sd_cur_status := SSIF_STATUS_RD_END\<rparr> else ?d1)\<lparr>
    sd_remain_data_len := sd_remain_data_len d - (if ?last then sd_remain_data_len d else 31), sd_cur_rd_blck := sd_cur_rd_blck d + 1\<rparr>"
  let ?no = "if ?last then 0xFF else ucast (sd_cur_rd_blck d) :: u8"
  let ?nxt = "if ?last then SSIF_STATUS_WAIT_FOR_WR_START else SSIF_STATUS_WAIT_FOR_RD_NEXT"
  have chk: "ssif_status_check SSIF_RD_NEXT d = (?d1, True)"
    using P(3) by (simp add: ssif_status_check_def ssif_cmds)
  have sl: "slice p ?k (sd_rsp_buff d) = take ?k (drop p rsp)"
  proof -
    have "take ?k (drop p rsp) = take ?k (drop p (take (length rsp) (sd_rsp_buff d)))" by (simp add: h(2))
    also have "\<dots> = take ?k (drop p (sd_rsp_buff d))" by (simp add: drop_take r_def min_def)
    finally show ?thesis by (simp add: slice_def)
  qed
  have blk: "ssif_block SSIF_RD_NEXT ?d1 = Some (Some (?d2, ?no # take ?k (drop p rsp), ?nxt))"
  proof -
    have m: "31 < sd_remain_data_len d \<longleftrightarrow> \<not> ?last" using r by (simp add: word_less_nat_alt not_le)
    have pos: "unat (sd_rsp_buf_len d) - unat (sd_remain_data_len d) = p" "\<not> unat (sd_rsp_buf_len d) < unat (sd_remain_data_len d)"
      using h(1) P(4,5) by simp_all
    have ok: "\<not> length (sd_rsp_buff d) < p + ?k"
      using h(3) P(5,7) unfolding Ipmb.IPMI_MSG_MAX_LENGTH_def r_def by linarith
    have ne: "SSIF_RD_NEXT \<noteq> SSIF_RD_START" by (simp add: ssif_cmds)
    show ?thesis
    proof (cases ?last)
      case True
      then have k: "?k = r" by simp
      have "unat (sd_remain_data_len d + 1) - 1 = r"
        by (subst unat_plus_no_wrap) (use r in simp_all)
      then show ?thesis using True m pos ok ne sl unfolding k by (simp add: ssif_block_def Let_def)
    next
      case False
      then have k: "?k = 31" by simp
      show ?thesis using False m pos ok ne sl unfolding k by (simp add: ssif_block_def Let_def)
    qed
  qed
  have pr: "sd_rsp_buf_len ?d1 \<noteq> 0" "length (?no # take ?k (drop p rsp)) \<le> 32" "?no # take ?k (drop p rsp) \<noteq> []"
    "sd_i2c_bus ?d2 = sd_i2c_bus d" "?nxt = SSIF_STATUS_WAIT_FOR_RD_NEXT \<or> ?nxt = SSIF_STATUS_WAIT_FOR_WR_START"
    using len0 by (simp_all add: min_def)
  obtain io1 tail where R: "host_read env SSIF_RD_NEXT d io = Some
      (if ?nxt = SSIF_STATUS_WAIT_FOR_RD_NEXT then ?d2\<lparr>sd_cur_status := ?nxt\<rparr>
       else ssif_reset (error_record SSIF_STATUS_NO_ERR (?d2\<lparr>sd_cur_status := ?nxt\<rparr>)), io1,
       of_nat (length (?no # take ?k (drop p rsp))) # (?no # take ?k (drop p rsp)) @ tail)"
    and T: "ssif_target (se_target env) (sd_i2c_bus d) (io_target io1)" "io_ipmi_msgq io1 = io_ipmi_msgq io" "io_jobs io1 = io_jobs io"
    using host_read_block [OF P(1) disjI2 [OF refl] chk pr(1) blk pr(2,3,4,5)] by (elim exE conjE) (rule that)
  have lk: "length (take ?k (drop p rsp)) = ?k" by (simp add: r_def)
  have ul: "unat (of_nat (length (?no # take ?k (drop p rsp))) :: u8) - 1 = ?k"
    by (subst unat_of_nat_lt) (simp_all add: r_def)
  let ?b = "of_nat (length (?no # take ?k (drop p rsp))) # (?no # take ?k (drop p rsp)) @ tail"
  have part: "slice 2 (unat (nth0 ?b 0) - 1) ?b = take ?k (drop p rsp)"
    using slice_tail(2) [of "take ?k (drop p rsp)"] ul lk by simp
  show ?case
  proof (cases ?last)
    case True
    have fin: "take ?k (drop p rsp) = drop p rsp" using True by (simp add: r_def)
    let ?d' = "ssif_reset (error_record SSIF_STATUS_NO_ERR (?d2\<lparr>sd_cur_status := ?nxt\<rparr>))"
    have "host_rest env (Suc n) d io = Some (?d', io1, drop p rsp)"
      using R part True fin by (simp add: Let_def)
    moreover have "length (im_data (sd_current_ipmi_msg ?d')) = Ipmb.IPMI_MSG_MAX_LENGTH"
      by (simp add: ssif_reset_def zero_ipmi_msg_def)
    moreover have "sd_cur_status ?d' = SSIF_STATUS_WAIT_FOR_WR_START" by (simp add: ssif_reset_def)
    ultimately show ?thesis using T by auto
  next
    case False
    let ?d' = "?d2\<lparr>sd_cur_status := ?nxt\<rparr>"
    have kk: "?k = 31" using False by simp
    have no: "?no \<noteq> 0xFF"
    proof
      assume "?no = 0xFF"
      then have "unat (ucast (sd_cur_rd_blck d) :: u8) = 255" using False by simp
      then show False using b31 by (simp add: unsigned_ucast_eq take_bit_nat_eq_self)
    qed
    have st: "ssif_static ?d' = ssif_static d" using False by simp
    have rem: "unat (sd_remain_data_len ?d') = length rsp - (p + 31)"
      using False r by (simp add: r_def) (subst unat_sub, simp_all add: word_le_nat_alt)
    have no1: "unat (sd_cur_rd_blck ?d') * 31 \<le> p + 31"
    proof -
      have "unat (sd_cur_rd_blck d + 1) = unat (sd_cur_rd_blck d) + 1" by (subst unat_plus_no_wrap) (use b31 in simp_all)
      then show ?thesis using P(6) False by simp
    qed
    have "\<exists>d'' io''. host_rest env n ?d' io1 = Some (d'', io'', drop (p + 31) rsp) \<and> sd_cur_status d'' = SSIF_STATUS_WAIT_FOR_WR_START
      \<and> ssif_static d'' = ssif_static ?d' \<and> length (im_data (sd_current_ipmi_msg d'')) = Ipmb.IPMI_MSG_MAX_LENGTH
      \<and> ssif_target (se_target env) (sd_i2c_bus ?d') (io_target io'') \<and> io_ipmi_msgq io'' = io_ipmi_msgq io1 \<and> io_jobs io'' = io_jobs io1"
      by (rule Suc.IH) (use T(1) P(2,7,8) rem no1 False ssif_staticD [OF st] in \<open>simp_all add: r_def\<close>)
    then obtain d'' io'' where I: "host_rest env n ?d' io1 = Some (d'', io'', drop (p + 31) rsp)"
      "sd_cur_status d'' = SSIF_STATUS_WAIT_FOR_WR_START" "ssif_static d'' = ssif_static ?d'"
      "length (im_data (sd_current_ipmi_msg d'')) = Ipmb.IPMI_MSG_MAX_LENGTH"
      "ssif_target (se_target env) (sd_i2c_bus d) (io_target io'')" "io_ipmi_msgq io'' = io_ipmi_msgq io1" "io_jobs io'' = io_jobs io1"
      using ssif_staticD(1) [OF st] by auto
    have "take 31 (drop p rsp) @ drop (p + 31) rsp = drop p rsp"
      by (metis add.commute append_take_drop_id drop_drop)
    then have "host_rest env (Suc n) d io = Some (d'', io'', drop p rsp)"
      using R part no False I(1) kk by (simp add: Let_def)
    then show ?thesis using I(2-) T(2,3) st by auto
  qed
qed simp

text \<open>A response of any length is read back byte for byte.\<close>

lemma host_response_all:
  fixes env :: "'w ssif_env"
  assumes tg: "ssif_target (se_target env) (sd_i2c_bus d) (io_target io)" and h: "holds_rsp rsp d"
    and st: "sd_cur_status d = SSIF_STATUS_WAIT_FOR_RD_START" and l: "length rsp \<le> Ipmb.IPMI_MSG_MAX_LENGTH"
    and hd: "rsp \<noteq> []" "hd rsp \<noteq> 0" and n: "length rsp \<le> 31 * n"
  shows "\<exists>d' io'. host_response env n d io = Some (d', io', rsp) \<and> sd_cur_status d' = SSIF_STATUS_WAIT_FOR_WR_START
    \<and> ssif_static d' = ssif_static d \<and> length (im_data (sd_current_ipmi_msg d')) = Ipmb.IPMI_MSG_MAX_LENGTH
    \<and> ssif_target (se_target env) (sd_i2c_bus d) (io_target io') \<and> io_ipmi_msgq io' = io_ipmi_msgq io \<and> io_jobs io' = io_jobs io"
proof -
  have hl: "unat (sd_rsp_buf_len d) = length rsp" "take (length rsp) (sd_rsp_buff d) = rsp" using h by (simp_all add: holds_rsp_def)
  have len0: "sd_rsp_buf_len d \<noteq> 0" using hl(1) hd(1) by auto
  let ?multi = "32 < length rsp"
  let ?d1 = "d\<lparr>sd_cur_status := SSIF_STATUS_RD_START\<rparr>"
  let ?d2 = "?d1\<lparr>sd_remain_data_len := (if ?multi then sd_rsp_buf_len d - 30 else 0), sd_cur_rd_blck := 0\<rparr>"
  let ?nxt = "if ?multi then SSIF_STATUS_WAIT_FOR_RD_NEXT else SSIF_STATUS_WAIT_FOR_WR_START"
  let ?blk = "if ?multi then [0, 1] @ take 30 rsp else rsp"
  have chk: "ssif_status_check SSIF_RD_START d = (?d1, True)" using st by (simp add: ssif_status_check_def ssif_cmds)
  have m: "32 < sd_rsp_buf_len d \<longleftrightarrow> ?multi" using hl(1) by (simp add: word_less_nat_alt)
  have t30: "take 30 (sd_rsp_buff d) = take 30 rsp" if ?multi
  proof -
    have "take 30 (take (length rsp) (sd_rsp_buff d)) = take 30 (sd_rsp_buff d)" using that by (simp add: min_def)
    then show ?thesis by (simp add: hl(2))
  qed
  have blk: "ssif_block SSIF_RD_START ?d1 = Some (Some (?d2, ?blk, ?nxt))"
    using m t30 hl by (simp add: ssif_block_def Let_def SSIF_MULTI_RD_KEY_def)
  have lb: "length ?blk \<le> 32" "?blk \<noteq> []" using hd(1) by auto
  have pr: "sd_rsp_buf_len ?d1 \<noteq> 0" "sd_i2c_bus ?d2 = sd_i2c_bus d"
    "?nxt = SSIF_STATUS_WAIT_FOR_RD_NEXT \<or> ?nxt = SSIF_STATUS_WAIT_FOR_WR_START" using len0 by simp_all
  obtain io1 tail where R: "host_read env SSIF_RD_START d io = Some
      (if ?nxt = SSIF_STATUS_WAIT_FOR_RD_NEXT then ?d2\<lparr>sd_cur_status := ?nxt\<rparr>
       else ssif_reset (error_record SSIF_STATUS_NO_ERR (?d2\<lparr>sd_cur_status := ?nxt\<rparr>)), io1,
       of_nat (length ?blk) # ?blk @ tail)"
    and T: "ssif_target (se_target env) (sd_i2c_bus d) (io_target io1)" "io_ipmi_msgq io1 = io_ipmi_msgq io" "io_jobs io1 = io_jobs io"
    using host_read_block [OF tg disjI1 [OF refl] chk pr(1) blk lb pr(2,3)] by (elim exE conjE) (rule that)
  have ul: "unat (of_nat (length ?blk) :: u8) = length ?blk" using lb(1) by (subst unat_of_nat_lt) simp_all
  have bk: "slice 1 (unat (nth0 (of_nat (length ?blk) # ?blk @ tail) 0)) (of_nat (length ?blk) # ?blk @ tail) = ?blk"
    using slice_tail(1) [of ?blk] ul by simp
  show ?thesis
  proof (cases ?multi)
    case False
    have "take 2 rsp \<noteq> [0, 1]" using hd by (cases rsp) auto
    then have "host_response env n d io = Some (ssif_reset (error_record SSIF_STATUS_NO_ERR (?d2\<lparr>sd_cur_status := ?nxt\<rparr>)), io1, rsp)"
      using R bk False by (simp add: host_response_def Let_def)
    moreover have "length (im_data (sd_current_ipmi_msg (ssif_reset x))) = Ipmb.IPMI_MSG_MAX_LENGTH"
      "sd_cur_status (ssif_reset x) = SSIF_STATUS_WAIT_FOR_WR_START" for x
      by (simp_all add: ssif_reset_def zero_ipmi_msg_def)
    ultimately show ?thesis using T by auto
  next
    case True
    let ?d' = "?d2\<lparr>sd_cur_status := ?nxt\<rparr>"
    have s: "ssif_static ?d' = ssif_static d" by simp
    have rem: "unat (sd_remain_data_len ?d') = length rsp - 30"
      using True hl(1) by simp (subst unat_sub, simp_all add: word_le_nat_alt)
    have n30: "length rsp - 30 \<le> 31 * n" using n by linarith
    obtain d'' io'' where I: "host_rest env n ?d' io1 = Some (d'', io'', drop 30 rsp)" "sd_cur_status d'' = SSIF_STATUS_WAIT_FOR_WR_START"
      "ssif_static d'' = ssif_static ?d'" "length (im_data (sd_current_ipmi_msg d'')) = Ipmb.IPMI_MSG_MAX_LENGTH"
      "ssif_target (se_target env) (sd_i2c_bus ?d') (io_target io'')" "io_ipmi_msgq io'' = io_ipmi_msgq io1" "io_jobs io'' = io_jobs io1"
      using host_rest_all [of env ?d' io1 rsp 30 n] T(1) h True l n30 rem ssif_staticD [OF s] by auto
    have "take 30 rsp @ drop 30 rsp = rsp" by simp
    then have "host_response env n d io = Some (d'', io'', rsp)"
      using R bk True I(1) by (simp add: host_response_def Let_def)
    then show ?thesis using I(2-) T(2,3) s ssif_staticD(1) [OF s] by auto
  qed
qed

lemma memcpy_at_update: "i < length m \<Longrightarrow> memcpy_at (Suc i) vs (m[i := v]) = memcpy_at i (v # vs) m"
  by (simp add: memcpy_at_def take_Suc_conv_app_nth)

lemma bus_bytes_ssif:
  assumes "unat (td_wr_buffer_idx (dv_data t)) + length vs \<le> 256" and "length (pk_msg (td_target_wr_msg (dv_data t))) = 256"
    and "td_post_wr_rcv_func (dv_data t) = Some 1"
  shows "bus_bytes te (ssif_hooks x b) config vs t = Some (t\<lparr>dv_data := (dv_data t)\<lparr>td_target_wr_msg :=
      (td_target_wr_msg (dv_data t))\<lparr>pk_msg := memcpy_at (unat (td_wr_buffer_idx (dv_data t))) vs (pk_msg (td_target_wr_msg (dv_data t)))\<rparr>,
    td_wr_buffer_idx := td_wr_buffer_idx (dv_data t) + of_nat (length vs)\<rparr>\<rparr>)"
  using assms
proof (induction vs arbitrary: t)
  case (Cons v vs)
  let ?d = "dv_data t" and ?i = "unat (td_wr_buffer_idx (dv_data t))"
  let ?t = "t\<lparr>dv_data := ?d\<lparr>td_target_wr_msg := (td_target_wr_msg ?d)\<lparr>pk_msg := (pk_msg (td_target_wr_msg ?d))[?i := v]\<rparr>,
    td_wr_buffer_idx := td_wr_buffer_idx ?d + 1\<rparr>\<rparr>"
  have i: "unat (td_wr_buffer_idx ?d + 1) = ?i + 1" by (subst unat_plus_no_wrap) (use Cons.prems(1) in simp_all)
  have "i2c_target_write_received te (ssif_hooks x b) config v t = Some (?t, 0)"
    using Cons.prems by (simp add: i2c_target_write_received_def i2c_find_slave_config_def MAX_I2C_TARGET_BUFF_def post_wr_rcv_def ssif_hooks_def)
  moreover have "bus_bytes te (ssif_hooks x b) config vs ?t = Some (?t\<lparr>dv_data := (dv_data ?t)\<lparr>td_target_wr_msg :=
      (td_target_wr_msg (dv_data ?t))\<lparr>pk_msg := memcpy_at (unat (td_wr_buffer_idx (dv_data ?t))) vs (pk_msg (td_target_wr_msg (dv_data ?t)))\<rparr>,
    td_wr_buffer_idx := td_wr_buffer_idx (dv_data ?t) + of_nat (length vs)\<rparr>\<rparr>)"
    by (rule Cons.IH) (use Cons.prems i in simp_all)
  ultimately show ?case
    using memcpy_at_update [of ?i "pk_msg (td_target_wr_msg ?d)" vs v] Cons.prems i by (simp add: add.assoc)
qed simp

lemma host_write_frame:
  fixes env :: "'w ssif_env"
  assumes tg: "ssif_target (se_target env) (sd_i2c_bus d) (io_target io)" and f: "f \<noteq> []" "length f \<le> 50"
    and set: "\<And>w b a. snd (se_addr_set env w b a) = 0"
  shows "\<exists>lck exp io'. host_write env now late f d io
      = ssif_handle_frame env now late (frame_buffer f) (length f) (d\<lparr>sd_addr_lock := lck, sd_exp_to_ms := exp\<rparr>) io'
    \<and> same_io env d io io'"
proof -
  let ?te = "se_target env" and ?t0 = "io_target io"
  obtain b bs where fb: "f = b # bs" using f(1) by (cases f) auto
  have T: "te_ctrl ?te" "unat (sd_i2c_bus d) < MAX_TARGET_NUM" "dv_is_init ?t0" "td_target_wr_msgq (dv_data ?t0) = Some []"
    "2 \<le> td_max_msgs (dv_data ?t0)" "td_rd_data_collect_func (dv_data ?t0) = Some 1" "td_post_wr_rcv_func (dv_data ?t0) = Some 1"
    "length (pk_msg (td_target_rd_msg (dv_data ?t0))) = 256"
    using tg by (simp_all add: ssif_target_def MAX_I2C_TARGET_BUFF_def)
  define t1 where "t1 = ?t0\<lparr>dv_data := (dv_data ?t0)\<lparr>td_req_address := td_address (dv_data ?t0) AND 0xFF,
    td_target_wr_msg := \<lparr>pk_msg_length = 0, pk_msg = zeros 256\<rparr>, td_wr_buffer_idx := 0, td_skip_msg_wr := False\<rparr>\<rparr>"
  have w1: "i2c_target_write_requested ?te config ?t0 = Some (t1, 0)"
    by (simp add: i2c_target_write_requested_def i2c_find_slave_config_def config_address_def MAX_I2C_TARGET_BUFF_def t1_def)
  define t2 where "t2 = t1\<lparr>dv_data := (dv_data t1)\<lparr>td_target_wr_msg := \<lparr>pk_msg_length = 0, pk_msg = (zeros 256)[0 := b]\<rparr>,
    td_wr_buffer_idx := 1\<rparr>\<rparr>"
  have w2: "i2c_target_write_received ?te (ssif_hooks (dv_data t1) True) config b t1 = Some (t2, 0)"
    using T(7) by (simp add: i2c_target_write_received_def i2c_find_slave_config_def MAX_I2C_TARGET_BUFF_def post_wr_rcv_def
        ssif_hooks_def t1_def t2_def)
  have c: "nth0 (pk_msg (td_target_wr_msg (dv_data t2))) 0 = b" "td_wr_buffer_idx (dv_data t2) = 1"
    by (simp_all add: t2_def nth0_def)
  obtain lck exp w where drop: "ssif_bus_drop env now (Some d) (io\<lparr>io_target := t2\<rparr>)
      = (Some (d\<lparr>sd_addr_lock := lck, sd_exp_to_ms := exp\<rparr>), io\<lparr>io_world := w, io_target := t2\<rparr>)"
  proof (cases "b = SSIF_WR_SINGLE \<or> b = SSIF_WR_MULTI_END")
    case True
    obtain w where w: "se_addr_set env (io_world io) (sd_i2c_bus d) 0 = (w, 0)" using set by (metis prod.collapse)
    then have "ssif_bus_drop env now (Some d) (io\<lparr>io_target := t2\<rparr>)
      = (Some (d\<lparr>sd_addr_lock := True, sd_exp_to_ms := now + SSIF_TIMEOUT_MS\<rparr>), io\<lparr>io_world := w, io_target := t2\<rparr>)"
      using True c by (auto simp: ssif_bus_drop_def Let_def ssif_lock_ctl_def)
    then show ?thesis by (rule that)
  next
    case False
    then have "ssif_bus_drop env now (Some d) (io\<lparr>io_target := t2\<rparr>) = (Some d, io\<lparr>io_target := t2\<rparr>)"
      using c by (simp add: ssif_bus_drop_def Let_def)
    then show ?thesis using that [where lck = "sd_addr_lock d" and exp = "sd_exp_to_ms d" and w = "io_world io"] by simp
  qed
  let ?msg = "memcpy_at 1 bs ((zeros 256)[0 := b])"
  define t3 where "t3 = t2\<lparr>dv_data := (dv_data t2)\<lparr>td_target_wr_msg := \<lparr>pk_msg_length = 0, pk_msg = ?msg\<rparr>,
    td_wr_buffer_idx := of_nat (length f)\<rparr>\<rparr>"
  have w3: "bus_bytes ?te (ssif_hooks (dv_data t2) True) config bs t2 = Some t3"
    using bus_bytes_ssif [of t2 bs ?te "dv_data t2" True] f(2) T(7) by (simp add: t1_def t2_def t3_def fb add.commute)
  have ul: "unat (of_nat (length f) :: u16) = length f" using f(2) by (subst unat_of_nat_lt) simp_all
  have nz: "(of_nat (length f) :: u16) \<noteq> 0" using ul f(1) by auto
  let ?pk = "\<lparr>pk_msg_length = of_nat (length f), pk_msg = ?msg\<rparr>"
  define t4 where "t4 = t3\<lparr>dv_data := (dv_data t3)\<lparr>td_target_wr_msg := ?pk, td_target_wr_msgq := Some [?pk], td_rd_buffer_idx := 0,
    td_wr_buffer_idx := 0\<rparr>\<rparr>"
  have w4: "i2c_target_stop ?te config t3 = Some (t4, 0)"
    using T(4,5) nz by (simp add: i2c_target_stop_def i2c_find_slave_config_def Let_def t1_def t2_def t3_def t4_def queue_used_def)
  let ?t5 = "t4\<lparr>dv_data := (dv_data t4)\<lparr>td_target_wr_msgq := Some []\<rparr>\<rparr>"
  have tk: "take (length f) ?msg = f"
    using memcpy_at_update [of 0 "zeros 256" bs b] f(2) by (simp add: fb memcpy_at_def)
  have rd: "i2c_target_read ?te (sd_i2c_bus d) (of_nat SSIF_BUFF_SIZE) t4 = Some (?t5, 0, f)"
  proof -
    have ns: "\<not> status_fails (i2c_target_status_get ?te (sd_i2c_bus d) t4)"
      using T(1-3) by (subst status_bits) (simp add: t1_def t2_def t3_def t4_def)
    have le: "\<not> (50 :: u16) < of_nat (length f)" using f(2) ul by (simp add: word_less_nat_alt)
    have q: "td_target_wr_msgq (dv_data t4) = Some [?pk]" by (simp add: t4_def)
    have mx: "td_max_msgs (dv_data t4) = td_max_msgs (dv_data ?t0)" by (simp add: t1_def t2_def t3_def t4_def)
    have "int (td_max_msgs (dv_data ?t0)) - 1 \<noteq> 0" using T(5) by linarith
    then show ?thesis using ns le T(5) q mx ul tk
      by (simp add: i2c_target_read_def multi_bus_i2c_target_read_def Let_def SSIF_BUFF_SIZE_def I2C_TARGET_API_NO_ERR_def)
  qed
  let ?io = "io\<lparr>io_world := w, io_target := ?t5, io_proc_ssif_ok := True\<rparr>" and ?d = "d\<lparr>sd_addr_lock := lck, sd_exp_to_ms := exp\<rparr>"
  have "host_write env now late f d io = ssif_read_task env now late ?d (io\<lparr>io_world := w, io_target := t4\<rparr>)"
    by (simp add: host_write_def w1 w2 drop w3 w4 fb)
  also have "\<dots> = ssif_handle_frame env now late (frame_buffer f) (length f) ?d ?io"
    using rd by (simp add: ssif_read_task_def frame_buffer_def)
  finally have "host_write env now late f d io = ssif_handle_frame env now late (frame_buffer f) (length f) ?d ?io" .
  moreover have "same_io env d io ?io"
    using T by (simp add: same_io_def ssif_target_def t1_def t2_def t3_def t4_def MAX_I2C_TARGET_BUFF_def)
  ultimately show ?thesis by blast
qed

lemma same_io_trans: "same_io env d io io' \<Longrightarrow> same_io env d io' io'' \<Longrightarrow> same_io env d io io''"
  by (simp add: same_io_def)

lemma same_io_fixed: "ssif_fixed d' = ssif_fixed d \<Longrightarrow> same_io env d' io io' = same_io env d io io'"
  using ssif_fixedD(2) [of d' d] by (simp add: same_io_def)

lemma block_frame_short: "length (snd b) \<le> 32 \<Longrightarrow> block_frame crc addr pec b \<noteq> [] \<and> length (block_frame crc addr pec b) \<le> 50"
  by (auto simp: block_frame_def Let_def)

lemma holds_msg_lock [simp]: "holds_msg nf cmd data (d\<lparr>sd_addr_lock := l, sd_exp_to_ms := e\<rparr>) = holds_msg nf cmd data d"
  by (simp add: holds_msg_def)

lemma host_write_start:
  fixes c nf cmd :: u8 and env :: "'w ssif_env" and pec :: bool
  assumes tg: "ssif_target (se_target env) (sd_i2c_bus d) (io_target io)" and set: "\<And>w b a. snd (se_addr_set env w b a) = 0"
    and c: "c = SSIF_WR_SINGLE \<or> c = SSIF_WR_MULTI_START"
    and st: "sd_cur_status d \<in> {SSIF_STATUS_WAIT_FOR_WR_START, SSIF_STATUS_WAIT_FOR_RD_START}"
    and l: "length data \<le> 30" and m: "length (im_data (sd_current_ipmi_msg d)) = Ipmb.IPMI_MSG_MAX_LENGTH"
  defines "f \<equiv> block_frame (se_crc8 env) (sd_addr d) pec (c, nf # cmd # data)"
  shows "\<exists>d' io'. host_write env now late f d io
      = (if c = SSIF_WR_MULTI_START then Some (d', io') else ssif_send_ipmi env now late d' io')
    \<and> ssif_fixed d' = ssif_fixed d \<and> holds_msg nf cmd data d' \<and> same_io env d io io'
    \<and> (c = SSIF_WR_MULTI_START \<longrightarrow> sd_cur_status d' = SSIF_STATUS_WAIT_FOR_WR_NEXT)"
proof -
  have sh: "f \<noteq> []" "length f \<le> 50" using block_frame_short [of "(c, nf # cmd # data)"] l by (simp_all add: f_def)
  obtain lck exp io' where W: "host_write env now late f d io
      = ssif_handle_frame env now late (frame_buffer f) (length f) (d\<lparr>sd_addr_lock := lck, sd_exp_to_ms := exp\<rparr>) io'"
    and S: "same_io env d io io'"
    using host_write_frame [OF tg sh set] by blast
  let ?d = "d\<lparr>sd_addr_lock := lck, sd_exp_to_ms := exp\<rparr>"
  obtain d' where F: "ssif_frame env (frame_buffer f) (length f) ?d = Some (d', if c = SSIF_WR_MULTI_START then Next_frame else Send_ipmi)"
    "ssif_fixed d' = ssif_fixed ?d" "holds_msg nf cmd data d'"
    "c = SSIF_WR_MULTI_START \<longrightarrow> sd_cur_status d' = SSIF_STATUS_WAIT_FOR_WR_NEXT"
    using ssif_frame_start [OF c _ l, of ?d env pec nf cmd] st m unfolding f_def by auto
  then show ?thesis unfolding W using S by (auto simp: ssif_handle_frame_def)
qed

lemma host_write_middle:
  fixes c nf cmd :: u8 and env :: "'w ssif_env" and pec :: bool
  assumes tg: "ssif_target (se_target env) (sd_i2c_bus d) (io_target io)" and set: "\<And>w b a. snd (se_addr_set env w b a) = 0"
    and c: "c = SSIF_WR_MULTI_MIDDLE \<or> c = SSIF_WR_MULTI_END" and st: "sd_cur_status d = SSIF_STATUS_WAIT_FOR_WR_NEXT"
    and l: "length blk \<le> 32" "c = SSIF_WR_MULTI_MIDDLE \<longrightarrow> length blk = 32"
    and h: "holds_msg nf cmd acc d" "acc \<noteq> []"
  defines "f \<equiv> block_frame (se_crc8 env) (sd_addr d) pec (c, blk)"
  shows "if length acc + length blk \<le> Ipmb.IPMI_MSG_MAX_LENGTH
    then \<exists>d' io'. host_write env now late f d io
        = (if c = SSIF_WR_MULTI_MIDDLE then Some (d', io') else ssif_send_ipmi env now late d' io')
      \<and> ssif_fixed d' = ssif_fixed d \<and> holds_msg nf cmd (acc @ blk) d' \<and> same_io env d io io'
      \<and> (c = SSIF_WR_MULTI_MIDDLE \<longrightarrow> sd_cur_status d' = SSIF_STATUS_WAIT_FOR_WR_NEXT)
    else host_write env now late f d io = None"
proof -
  have sh: "f \<noteq> []" "length f \<le> 50" using block_frame_short [of "(c, blk)"] l by (simp_all add: f_def)
  obtain lck exp io' where W: "host_write env now late f d io
      = ssif_handle_frame env now late (frame_buffer f) (length f) (d\<lparr>sd_addr_lock := lck, sd_exp_to_ms := exp\<rparr>) io'"
    and S: "same_io env d io io'"
    using host_write_frame [OF tg sh set] by blast
  let ?d = "d\<lparr>sd_addr_lock := lck, sd_exp_to_ms := exp\<rparr>"
  have "holds_msg nf cmd acc ?d" "sd_cur_status ?d = SSIF_STATUS_WAIT_FOR_WR_NEXT" using h(1) st by simp_all
  note M = ssif_frame_middle [OF c this(2) l this(1) h(2), of env pec]
  have "sd_addr ?d = sd_addr d" by simp
  note M = M [unfolded this, folded f_def]
  show ?thesis
  proof (cases "length acc + length blk \<le> Ipmb.IPMI_MSG_MAX_LENGTH")
    case True
    then obtain d' where D: "ssif_frame env (frame_buffer f) (length f) ?d = Some (d', if c = SSIF_WR_MULTI_MIDDLE then Next_frame else Send_ipmi)"
      "ssif_fixed d' = ssif_fixed ?d" "holds_msg nf cmd (acc @ blk) d'"
      "c = SSIF_WR_MULTI_MIDDLE \<longrightarrow> sd_cur_status d' = SSIF_STATUS_WAIT_FOR_WR_NEXT" using M by auto
    have "host_write env now late f d io = (if c = SSIF_WR_MULTI_MIDDLE then Some (d', io') else ssif_send_ipmi env now late d' io')"
      unfolding W using D(1) by (simp add: ssif_handle_frame_def)
    then have "\<exists>d' io'. host_write env now late f d io
        = (if c = SSIF_WR_MULTI_MIDDLE then Some (d', io') else ssif_send_ipmi env now late d' io')
      \<and> ssif_fixed d' = ssif_fixed d \<and> holds_msg nf cmd (acc @ blk) d' \<and> same_io env d io io'
      \<and> (c = SSIF_WR_MULTI_MIDDLE \<longrightarrow> sd_cur_status d' = SSIF_STATUS_WAIT_FOR_WR_NEXT)"
      using D(2-) S by (intro exI [of _ d'] exI [of _ io']) simp
    then show ?thesis using True by simp
  next
    case False
    then show ?thesis using M unfolding W by (simp add: ssif_handle_frame_def)
  qed
qed

lemma host_writes_middles:
  fixes env :: "'w ssif_env"
  assumes "ssif_target (se_target env) (sd_i2c_bus d) (io_target io)" and set: "\<And>w b a. snd (se_addr_set env w b a) = 0"
    and "sd_cur_status d = SSIF_STATUS_WAIT_FOR_WR_NEXT" and "holds_msg nf cmd acc d" and "acc \<noteq> []"
  shows "if length acc + length data \<le> Ipmb.IPMI_MSG_MAX_LENGTH
    then \<exists>d' io'. host_writes env now late (map (block_frame (se_crc8 env) (sd_addr d) pec) (ssif_middles data)) d io
        = ssif_send_ipmi env now late d' io' \<and> ssif_fixed d' = ssif_fixed d \<and> holds_msg nf cmd (acc @ data) d' \<and> same_io env d io io'
    else host_writes env now late (map (block_frame (se_crc8 env) (sd_addr d) pec) (ssif_middles data)) d io = None"
  using assms(1,3-)
proof (induction data arbitrary: acc d io rule: ssif_middles.induct)
  case (1 data)
  let ?c = "if length data \<le> 32 then SSIF_WR_MULTI_END else SSIF_WR_MULTI_MIDDLE"
  let ?blk = "if length data \<le> 32 then data else take 32 data"
  let ?f = "block_frame (se_crc8 env) (sd_addr d) pec (?c, ?blk)"
  have cc: "?c = SSIF_WR_MULTI_MIDDLE \<longleftrightarrow> 32 < length data" by (simp add: ssif_cmds)
  have F: "if length acc + length ?blk \<le> Ipmb.IPMI_MSG_MAX_LENGTH
    then \<exists>d' io'. host_write env now late ?f d io
        = (if ?c = SSIF_WR_MULTI_MIDDLE then Some (d', io') else ssif_send_ipmi env now late d' io')
      \<and> ssif_fixed d' = ssif_fixed d \<and> holds_msg nf cmd (acc @ ?blk) d' \<and> same_io env d io io'
      \<and> (?c = SSIF_WR_MULTI_MIDDLE \<longrightarrow> sd_cur_status d' = SSIF_STATUS_WAIT_FOR_WR_NEXT)
    else host_write env now late ?f d io = None"
    by (rule host_write_middle [OF 1(2) set]) (use 1(3-5) in \<open>auto simp: ssif_cmds\<close>)
  show ?case
  proof (cases "length data \<le> 32")
    case True
    then have fs: "ssif_middles data = [(?c, ?blk)]" by (subst ssif_middles.simps) simp
    show ?thesis
    proof (cases "length acc + length data \<le> Ipmb.IPMI_MSG_MAX_LENGTH")
      case le: True
      then obtain d' io' where W: "host_write env now late ?f d io = ssif_send_ipmi env now late d' io'"
        "ssif_fixed d' = ssif_fixed d" "holds_msg nf cmd (acc @ data) d'" "same_io env d io io'" using F True cc by auto
      from W(1) have "host_writes env now late [?f] d io = ssif_send_ipmi env now late d' io'"
        by (simp split: option.split)
      then show ?thesis using le W(2-) unfolding fs by auto
    next
      case False
      then show ?thesis using F True unfolding fs by simp
    qed
  next
    case False
    then have fs: "ssif_middles data = (?c, ?blk) # ssif_middles (drop 32 data)" by (subst ssif_middles.simps) simp
    show ?thesis
    proof (cases "length acc + 32 \<le> Ipmb.IPMI_MSG_MAX_LENGTH")
      case le: True
      then obtain d1 io1 where F1: "host_write env now late ?f d io = Some (d1, io1)"
        "ssif_fixed d1 = ssif_fixed d" "holds_msg nf cmd (acc @ take 32 data) d1" "sd_cur_status d1 = SSIF_STATUS_WAIT_FOR_WR_NEXT"
        "same_io env d io io1"
        using F False cc by auto
      note D = ssif_fixedD [OF F1(2)]
      have run: "host_writes env now late (map (block_frame (se_crc8 env) (sd_addr d) pec) (ssif_middles data)) d io
        = host_writes env now late (map (block_frame (se_crc8 env) (sd_addr d) pec) (ssif_middles (drop 32 data))) d1 io1"
        unfolding fs using F1(1) by simp
      have tg: "ssif_target (se_target env) (sd_i2c_bus d1) (io_target io1)" using F1(5) D(2) by (simp add: same_io_def)
      have ne: "acc @ take 32 data \<noteq> []" using 1(5) by simp
      have tr: "same_io env d io io2" if "same_io env d1 io1 io2" for io2
        using same_io_trans [OF F1(5)] that same_io_fixed [OF F1(2)] by blast
      from 1(1) [OF False tg F1(4,3) ne] show ?thesis
        unfolding run using False F1(2) tr unfolding D(3) by (auto simp: not_le split: if_splits)
    next
      case nle: False
      then show ?thesis using F False unfolding fs by simp
    qed
  qed
qed

text \<open>A message of any length the buffer has room for is put together; a longer one is written behind the buffer.\<close>

lemma host_writes_message:
  fixes env :: "'w ssif_env"
  assumes tg: "ssif_target (se_target env) (sd_i2c_bus d) (io_target io)" and set: "\<And>w b a. snd (se_addr_set env w b a) = 0"
    and st: "sd_cur_status d \<in> {SSIF_STATUS_WAIT_FOR_WR_START, SSIF_STATUS_WAIT_FOR_RD_START}"
    and m: "length (im_data (sd_current_ipmi_msg d)) = Ipmb.IPMI_MSG_MAX_LENGTH"
  shows "if length data \<le> Ipmb.IPMI_MSG_MAX_LENGTH
    then \<exists>d' io'. host_writes env now late (ssif_frames (se_crc8 env) (sd_addr d) pec nf cmd data) d io = ssif_send_ipmi env now late d' io'
      \<and> ssif_fixed d' = ssif_fixed d \<and> holds_msg nf cmd data d' \<and> same_io env d io io'
    else host_writes env now late (ssif_frames (se_crc8 env) (sd_addr d) pec nf cmd data) d io = None"
proof (cases "length data \<le> 30")
  case True
  let ?f = "block_frame (se_crc8 env) (sd_addr d) pec (SSIF_WR_SINGLE, nf # cmd # data)"
  obtain d' io' where F: "host_write env now late ?f d io = ssif_send_ipmi env now late d' io'"
    "ssif_fixed d' = ssif_fixed d" "holds_msg nf cmd data d'" "same_io env d io io'"
    using host_write_start [OF tg set _ st True m, of SSIF_WR_SINGLE now late pec nf cmd] by (auto simp: ssif_cmds)
  have "host_writes env now late (ssif_frames (se_crc8 env) (sd_addr d) pec nf cmd data) d io = ssif_send_ipmi env now late d' io'"
    using True F(1) by (simp add: ssif_frames_def ssif_blocks_def split: option.split)
  then show ?thesis using True F by (auto simp: Ipmb.IPMI_MSG_MAX_LENGTH_def)
next
  case False
  let ?f = "block_frame (se_crc8 env) (sd_addr d) pec (SSIF_WR_MULTI_START, nf # cmd # take 30 data)"
  obtain d1 io1 where F: "host_write env now late ?f d io = Some (d1, io1)"
    "ssif_fixed d1 = ssif_fixed d" "holds_msg nf cmd (take 30 data) d1" "sd_cur_status d1 = SSIF_STATUS_WAIT_FOR_WR_NEXT"
    "same_io env d io io1"
    using host_write_start [OF tg set _ st _ m, of SSIF_WR_MULTI_START "take 30 data" now late pec nf cmd] by auto
  note D = ssif_fixedD [OF F(2)]
  have run: "host_writes env now late (ssif_frames (se_crc8 env) (sd_addr d) pec nf cmd data) d io
    = host_writes env now late (map (block_frame (se_crc8 env) (sd_addr d1) pec) (ssif_middles (drop 30 data))) d1 io1"
    using False F(1) by (simp add: ssif_frames_def ssif_blocks_def D(3))
  have ne: "take 30 data \<noteq> []" using False by auto
  have tg1: "ssif_target (se_target env) (sd_i2c_bus d1) (io_target io1)" using F(5) D(2) by (simp add: same_io_def)
  have tr: "same_io env d io io2" if "same_io env d1 io1 io2" for io2
    using same_io_trans [OF F(5)] that same_io_fixed [OF F(2)] by blast
  from host_writes_middles [OF tg1 set F(4,3) ne, of "drop 30 data" now late pec] show ?thesis
    unfolding run using False F(2) tr by (auto simp: Ipmb.IPMI_MSG_MAX_LENGTH_def min_def split: if_splits)
qed

lemma ssif_ready_fixed: "ssif_fixed d' = ssif_fixed d \<Longrightarrow> ssif_ready d \<Longrightarrow> holds_msg nf cmd data d' \<Longrightarrow> ssif_ready d'"
  using ssif_fixedD [of d' d] by (simp add: ssif_ready_def holds_msg_def Let_def)

lemma rsp_bytes_facts:
  assumes "rsp_ok m" and "im_netfn m \<noteq> 0"
  shows "rsp_bytes m \<noteq> []" "hd (rsp_bytes m) \<noteq> 0" "length (rsp_bytes m) \<le> Ipmb.IPMI_MSG_MAX_LENGTH"
  using assms by (simp_all add: rsp_bytes_def rsp_ok_def Ipmb.IPMI_MSG_MAX_LENGTH_def)

lemma host_response_17:
  assumes "ssif_target (se_target env) (sd_i2c_bus d) (io_target io)" and "holds_rsp (rsp_bytes m) d"
    and "sd_cur_status d = SSIF_STATUS_WAIT_FOR_RD_START" and "rsp_ok m" and "im_netfn m \<noteq> 0" and "ssif_ready d"
  shows "\<exists>d' io'. host_response env 17 d io = Some (d', io', rsp_bytes m) \<and> ssif_idle env d' io' \<and> sd_rsp_sem d' = sd_rsp_sem d
    \<and> sd_addr_lock d' = sd_addr_lock d \<and> io_ipmi_msgq io' = io_ipmi_msgq io"
proof -
  note R = rsp_bytes_facts [OF assms(4,5)]
  have "length (rsp_bytes m) \<le> 31 * 17" using R(3) by (simp add: Ipmb.IPMI_MSG_MAX_LENGTH_def)
  from host_response_all [OF assms(1-3) R(3,1,2) this]
  obtain d' io' where I: "host_response env 17 d io = Some (d', io', rsp_bytes m)" "sd_cur_status d' = SSIF_STATUS_WAIT_FOR_WR_START"
    "ssif_static d' = ssif_static d" "length (im_data (sd_current_ipmi_msg d')) = Ipmb.IPMI_MSG_MAX_LENGTH"
    "ssif_target (se_target env) (sd_i2c_bus d) (io_target io')" "io_ipmi_msgq io' = io_ipmi_msgq io" by blast
  have "ssif_idle env d' io'" using I(2-5) assms(6) by (simp add: ssif_idle_def ssif_ready_def ssif_static_def)
  then show ?thesis using I ssif_staticD [OF I(3)] by auto
qed

text \<open>
  (C6) A whole exchange with the host over the bus: a message of at most 527 bytes, written in as many frames as it needs, with or without packet error code, reaches
  the queue of the IPMI task with its function, command and data; and the response that arrives
  in time is read back byte for byte by the read commands, whatever its length, after which the
  address of the firmware is free and the interface is ready for the next message.
\<close>

theorem ssif_exchange:
  assumes "ssif_env_ok env" and "ssif_idle env d io" and "sd_rsp_sem d = 0" and "to_bic env nf cmd"
    and "length data \<le> Ipmb.IPMI_MSG_MAX_LENGTH" and "rsp_ok rsp" and "im_netfn rsp \<noteq> 0"
  shows "\<exists>d1 io1 m d2 io2.
      host_writes env now (Some rsp) (ssif_frames (se_crc8 env) (sd_addr d) pec nf cmd data) d io = Some (d1, io1)
    \<and> io_ipmi_msgq io1 = ipmi_msgq_put m (io_ipmi_msgq io) \<and> im_InF_source m = HOST_SSIF_1 + sd_index d
    \<and> im_netfn m = drop_bit 2 nf \<and> im_cmd m = cmd \<and> unat (im_data_len m) = length data \<and> take (length data) (im_data m) = data
    \<and> host_response env 17 d1 io1 = Some (d2, io2, rsp_bytes rsp)
    \<and> ssif_idle env d2 io2 \<and> sd_rsp_sem d2 = 0 \<and> \<not> sd_addr_lock d2 \<and> io_ipmi_msgq io2 = io_ipmi_msgq io1"
proof -
  have I: "ssif_ready d" "sd_cur_status d \<in> {SSIF_STATUS_WAIT_FOR_WR_START, SSIF_STATUS_WAIT_FOR_RD_START}"
    "ssif_target (se_target env) (sd_i2c_bus d) (io_target io)" using assms(2) by (simp_all add: ssif_idle_def)
  have set: "snd (se_addr_set env w b a) = 0" for w b a using assms(1) by (simp add: ssif_env_ok_def)
  have m: "length (im_data (sd_current_ipmi_msg d)) = Ipmb.IPMI_MSG_MAX_LENGTH" using I(1) by (simp add: ssif_ready_def)
  from host_writes_message [OF I(3) set I(2) m, of data now "Some rsp" pec nf cmd] assms(5)
  obtain d' io' where W: "host_writes env now (Some rsp) (ssif_frames (se_crc8 env) (sd_addr d) pec nf cmd data) d io
      = ssif_send_ipmi env now (Some rsp) d' io'"
    and D: "ssif_fixed d' = ssif_fixed d" "holds_msg nf cmd data d'" "same_io env d io io'" by auto
  note F = ssif_fixedD [OF D(1)]
  have bic: "se_to_bic env (drop_bit 2 nf) cmd" "se_sbmr env = None \<or> drop_bit 2 nf \<noteq> NETFN_DCMI_REQ"
    using assms(4) by (simp_all add: to_bic_def)
  have lock: "se_lock env" using assms(1) by (simp add: ssif_env_ok_def)
  have sem: "sd_rsp_sem d' = 0" using F assms(3) by simp
  obtain d1 w where S: "ssif_send_ipmi env now (Some rsp) d' io'
      = Some (d1, io'\<lparr>io_ipmi_msgq := ipmi_msgq_put (sd_current_ipmi_msg d') (io_ipmi_msgq io'), io_world := w\<rparr>)"
    "sd_cur_status d1 = SSIF_STATUS_WAIT_FOR_RD_START" "\<not> sd_addr_lock d1" "holds_rsp (rsp_bytes rsp) d1"
    "ssif_ready d1" "sd_rsp_sem d1 = 0" "sd_i2c_bus d1 = sd_i2c_bus d'"
    using ssif_send_bic [OF ssif_ready_fixed [OF D(1) I(1) D(2)] sem D(2) bic lock set assms(6), of now io'] by blast
  let ?io1 = "io'\<lparr>io_ipmi_msgq := ipmi_msgq_put (sd_current_ipmi_msg d') (io_ipmi_msgq io'), io_world := w\<rparr>"
  have tg: "ssif_target (se_target env) (sd_i2c_bus d1) (io_target ?io1)" using D(3) S(7) F by (simp add: same_io_def)
  obtain d2 io2 where R: "host_response env 17 d1 ?io1 = Some (d2, io2, rsp_bytes rsp)" "ssif_idle env d2 io2"
    "sd_rsp_sem d2 = sd_rsp_sem d1" "sd_addr_lock d2 = sd_addr_lock d1" "io_ipmi_msgq io2 = io_ipmi_msgq ?io1"
    using host_response_17 [OF tg S(4,2) assms(6,7) S(5)] by blast
  show ?thesis
    using W S(1,3,6) D(2,3) R F by (intro exI [of _ d1] exI [of _ ?io1] exI [of _ "sd_current_ipmi_msg d'"] exI [of _ d2] exI [of _ io2])
      (simp add: holds_msg_def Let_def same_io_def)
qed

lemma ssif_dispatch_bic:
  assumes "holds_msg nf cmd data d" and "to_bic env nf cmd"
  shows "ssif_dispatch env d io = Some (d, io\<lparr>io_ipmi_msgq := ipmi_msgq_put (sd_current_ipmi_msg d) (io_ipmi_msgq io)\<rparr>)"
  using assms by (auto simp: ssif_dispatch_def Let_def holds_msg_def to_bic_def)

lemma ssif_send_timeout:
  assumes "holds_msg nf cmd data d" and "to_bic env nf cmd" and "sd_rsp_sem d = 0"
  shows "ssif_send_ipmi env now None d io = Some (ssif_reset (error_record SSIF_STATUS_RSP_MSG_TIMEOUT d),
    io\<lparr>io_ipmi_msgq := ipmi_msgq_put (sd_current_ipmi_msg d) (io_ipmi_msgq io)\<rparr>)"
  using assms(3) by (simp add: ssif_send_ipmi_def ssif_dispatch_bic [OF assms(1,2)] ssif_wait_response_def)

lemma ssif_send_available:
  assumes "ssif_ready d" and "holds_msg nf cmd data d" and "to_bic env nf cmd" and "sd_rsp_sem d = 1"
    and "holds_rsp rsp d" and "ssif_env_ok env"
  shows "\<exists>d' w. ssif_send_ipmi env now late d io
      = Some (d', io\<lparr>io_ipmi_msgq := ipmi_msgq_put (sd_current_ipmi_msg d) (io_ipmi_msgq io), io_world := w\<rparr>)
    \<and> sd_cur_status d' = SSIF_STATUS_WAIT_FOR_RD_START \<and> holds_rsp rsp d' \<and> ssif_ready d' \<and> sd_i2c_bus d' = sd_i2c_bus d
    \<and> sd_err_status d' = SSIF_STATUS_NO_ERR \<and> sd_rsp_sem d' = 0"
proof -
  obtain w where w: "se_addr_set env (io_world io) (sd_i2c_bus d) (push_bit 1 (sd_addr d)) = (w, 0)"
    using assms(6) by (metis prod.collapse ssif_env_ok_def)
  let ?d = "d\<lparr>sd_rsp_sem := 0, sd_addr_lock := False\<rparr>"
  have "ssif_send_ipmi env now late d io = Some ((error_record SSIF_STATUS_NO_ERR ?d)\<lparr>sd_cur_status := SSIF_STATUS_WAIT_FOR_RD_START\<rparr>,
      io\<lparr>io_ipmi_msgq := ipmi_msgq_put (sd_current_ipmi_msg d) (io_ipmi_msgq io), io_world := se_alert env False w\<rparr>)"
    using assms(4) w by (simp add: ssif_send_ipmi_def ssif_dispatch_bic [OF assms(2,3)] ssif_wait_response_def ssif_lock_ctl_def)
  moreover have "sd_err_status (error_record SSIF_STATUS_NO_ERR x) = SSIF_STATUS_NO_ERR" for x
    by (simp add: error_record_def Let_def)
  ultimately show ?thesis using assms(1,5) by (auto simp: holds_rsp_def ssif_ready_def)
qed

text \<open>A response that arrives before the host reads is the one it reads, and its semaphore stays available.\<close>

lemma ssif_set_before_read:
  assumes "ssif_ready d" and "ssif_target (se_target env) (sd_i2c_bus d) (io_target io)" and "sd_rsp_sem d = 0"
    and "sd_cur_status d = SSIF_STATUS_WAIT_FOR_RD_START" and "rsp_ok m" and "im_netfn m \<noteq> 0"
  shows "\<exists>d1 d2 io2. set_rsp_data True m d = (d1, True)
    \<and> host_response env 17 d1 io = Some (d2, io2, rsp_bytes m) \<and> sd_rsp_sem d2 = 1"
proof -
  have r: "sd_mutex_init d" "length (sd_rsp_buff d) = Ipmb.IPMI_MSG_MAX_LENGTH" "sd_sem_limit d = 1"
    using assms(1) by (simp_all add: ssif_ready_def)
  obtain d1 where d1: "set_rsp_data True m d = (d1, True)" "holds_rsp (rsp_bytes m) d1"
    "sd_rsp_sem d1 = min (sd_sem_limit d) (sd_rsp_sem d + 1)"
    and e: "d1 = d\<lparr>sd_rsp_buff := sd_rsp_buff d1, sd_rsp_buf_len := sd_rsp_buf_len d1, sd_rsp_sem := sd_rsp_sem d1\<rparr>"
    using set_rsp_data_holds [OF r(1,2) assms(5)] by blast
  have f: "sd_i2c_bus d1 = sd_i2c_bus d" "sd_cur_status d1 = SSIF_STATUS_WAIT_FOR_RD_START" "sd_mutex_init d1" "sd_sem_limit d1 = 1"
    "length (im_data (sd_current_ipmi_msg d1)) = Ipmb.IPMI_MSG_MAX_LENGTH"
    by (subst e, use assms(1,4) in \<open>simp add: ssif_ready_def\<close>)+
  have rd: "ssif_ready d1" using f d1(2) by (simp add: ssif_ready_def holds_rsp_def)
  have tg: "ssif_target (se_target env) (sd_i2c_bus d1) (io_target io)" using assms(2) f(1) by simp
  from host_response_17 [OF tg d1(2) f(2) assms(5,6) rd] obtain d2 io2 where
    "host_response env 17 d1 io = Some (d2, io2, rsp_bytes m)" "sd_rsp_sem d2 = sd_rsp_sem d1" by blast
  then show ?thesis using d1(1,3) r(3) assms(3) by auto
qed

text \<open>A late response stays available, and the thread takes it for the next request without a wait.\<close>

lemma ssif_late_taken:
  assumes "ssif_env_ok env" and "ssif_idle env d io" and "sd_rsp_sem d = 0" and "to_bic env nf1 cmd1" and "to_bic env nf2 cmd2"
    and "length data1 \<le> Ipmb.IPMI_MSG_MAX_LENGTH" and "length data2 \<le> Ipmb.IPMI_MSG_MAX_LENGTH" and "rsp_ok rsp1"
  shows "\<exists>d1 io1 d2 d3 io3.
      host_writes env now1 None (ssif_frames (se_crc8 env) (sd_addr d) pec nf1 cmd1 data1) d io = Some (d1, io1)
    \<and> sd_err_status d1 = SSIF_STATUS_RSP_MSG_TIMEOUT \<and> set_rsp_data (se_lock env) rsp1 d1 = (d2, True)
    \<and> host_writes env now2 None (ssif_frames (se_crc8 env) (sd_addr d) pec nf2 cmd2 data2) d2 io1 = Some (d3, io3)
    \<and> sd_err_status d3 = SSIF_STATUS_NO_ERR \<and> ssif_target (se_target env) (sd_i2c_bus d3) (io_target io3)
    \<and> holds_rsp (rsp_bytes rsp1) d3 \<and> sd_cur_status d3 = SSIF_STATUS_WAIT_FOR_RD_START \<and> ssif_ready d3 \<and> sd_rsp_sem d3 = 0"
proof -
  have I: "ssif_ready d" "sd_cur_status d \<in> {SSIF_STATUS_WAIT_FOR_WR_START, SSIF_STATUS_WAIT_FOR_RD_START}"
    "ssif_target (se_target env) (sd_i2c_bus d) (io_target io)" using assms(2) by (simp_all add: ssif_idle_def)
  have set: "snd (se_addr_set env w b a) = 0" for w b a using assms(1) by (simp add: ssif_env_ok_def)
  have lock: "se_lock env = True" using assms(1) by (simp add: ssif_env_ok_def)
  have m: "length (im_data (sd_current_ipmi_msg d)) = Ipmb.IPMI_MSG_MAX_LENGTH" using I(1) by (simp add: ssif_ready_def)
  from host_writes_message [OF I(3) set I(2) m, of data1 now1 None pec nf1 cmd1] assms(6)
  obtain d' io' where W: "host_writes env now1 None (ssif_frames (se_crc8 env) (sd_addr d) pec nf1 cmd1 data1) d io
      = ssif_send_ipmi env now1 None d' io'"
    and D: "ssif_fixed d' = ssif_fixed d" "holds_msg nf1 cmd1 data1 d'" "same_io env d io io'" by auto
  note F = ssif_fixedD [OF D(1)]
  have sem: "sd_rsp_sem d' = 0" using F assms(3) by simp
  let ?d1 = "ssif_reset (error_record SSIF_STATUS_RSP_MSG_TIMEOUT d')"
  let ?io1 = "io'\<lparr>io_ipmi_msgq := ipmi_msgq_put (sd_current_ipmi_msg d') (io_ipmi_msgq io')\<rparr>"
  note S1 = ssif_send_timeout [OF D(2) assms(4) sem, of now1 io']
  have d1: "sd_mutex_init ?d1" "length (sd_rsp_buff ?d1) = Ipmb.IPMI_MSG_MAX_LENGTH" "sd_rsp_sem ?d1 = 0" "sd_sem_limit ?d1 = 1"
    "sd_cur_status ?d1 = SSIF_STATUS_WAIT_FOR_WR_START" "length (im_data (sd_current_ipmi_msg ?d1)) = Ipmb.IPMI_MSG_MAX_LENGTH"
    "sd_i2c_bus ?d1 = sd_i2c_bus d" "sd_addr ?d1 = sd_addr d" "sd_err_status ?d1 = SSIF_STATUS_RSP_MSG_TIMEOUT"
    using I(1) F sem by (simp_all add: ssif_reset_def ssif_ready_def zero_ipmi_msg_def) (simp add: error_record_def Let_def)
  obtain d2 where d2: "set_rsp_data True rsp1 ?d1 = (d2, True)" "holds_rsp (rsp_bytes rsp1) d2"
    "sd_rsp_sem d2 = min (sd_sem_limit ?d1) (sd_rsp_sem ?d1 + 1)"
    and e: "d2 = ?d1\<lparr>sd_rsp_buff := sd_rsp_buff d2, sd_rsp_buf_len := sd_rsp_buf_len d2, sd_rsp_sem := sd_rsp_sem d2\<rparr>"
    using set_rsp_data_holds [OF d1(1,2) assms(8)] by blast
  have f2: "sd_i2c_bus d2 = sd_i2c_bus d" "sd_addr d2 = sd_addr d" "sd_mutex_init d2" "sd_sem_limit d2 = 1"
    "sd_cur_status d2 = SSIF_STATUS_WAIT_FOR_WR_START" "length (im_data (sd_current_ipmi_msg d2)) = Ipmb.IPMI_MSG_MAX_LENGTH"
    by (subst e, use d1 in simp)+
  have sem2: "sd_rsp_sem d2 = 1" using d2(3) d1 by simp
  have tg2: "ssif_target (se_target env) (sd_i2c_bus d2) (io_target ?io1)" using D(3) f2(1) by (simp add: same_io_def)
  have st2: "sd_cur_status d2 \<in> {SSIF_STATUS_WAIT_FOR_WR_START, SSIF_STATUS_WAIT_FOR_RD_START}" using f2(5) by simp
  have r2: "ssif_ready d2" using f2 d2(2) by (simp add: ssif_ready_def holds_rsp_def)
  from host_writes_message [OF tg2 set st2 f2(6), of data2 now2 None pec nf2 cmd2] assms(7)
  obtain d'' io'' where W2: "host_writes env now2 None (ssif_frames (se_crc8 env) (sd_addr d2) pec nf2 cmd2 data2) d2 ?io1
      = ssif_send_ipmi env now2 None d'' io''"
    and D2: "ssif_fixed d'' = ssif_fixed d2" "holds_msg nf2 cmd2 data2 d''" "same_io env d2 ?io1 io''" by auto
  note F2 = ssif_fixedD [OF D2(1)]
  have h2: "holds_rsp (rsp_bytes rsp1) d''" using d2(2) F2 by (simp add: holds_rsp_def)
  obtain d3 w where S2: "ssif_send_ipmi env now2 None d'' io''
      = Some (d3, io''\<lparr>io_ipmi_msgq := ipmi_msgq_put (sd_current_ipmi_msg d'') (io_ipmi_msgq io''), io_world := w\<rparr>)"
    "sd_cur_status d3 = SSIF_STATUS_WAIT_FOR_RD_START" "holds_rsp (rsp_bytes rsp1) d3" "ssif_ready d3" "sd_i2c_bus d3 = sd_i2c_bus d''"
    "sd_err_status d3 = SSIF_STATUS_NO_ERR" "sd_rsp_sem d3 = 0"
    using ssif_send_available [OF ssif_ready_fixed [OF D2(1) r2 D2(2)] D2(2) assms(5) _ h2 assms(1), of now2 None io''] F2 sem2 by auto
  let ?io3 = "io''\<lparr>io_ipmi_msgq := ipmi_msgq_put (sd_current_ipmi_msg d'') (io_ipmi_msgq io''), io_world := w\<rparr>"
  have tg3: "ssif_target (se_target env) (sd_i2c_bus d3) (io_target ?io3)" using D2(3) S2(5) F2 by (simp add: same_io_def)
  have W1: "host_writes env now1 None (ssif_frames (se_crc8 env) (sd_addr d) pec nf1 cmd1 data1) d io = Some (?d1, ?io1)"
    using W S1 by simp
  have W3: "host_writes env now2 None (ssif_frames (se_crc8 env) (sd_addr d) pec nf2 cmd2 data2) d2 ?io1 = Some (d3, ?io3)"
    using W2 S2(1) f2(2) by simp
  show ?thesis unfolding lock
    by (intro exI conjI, rule W1, rule d1(9), rule d2(1), rule W3, rule S2(6), rule tg3, rule S2(3), rule S2(2), rule S2(4), rule S2(7))
qed

text \<open>
  (C35) A response that comes after the wait of 1.5 seconds is not dropped: it stays in the buffer with its
  semaphore, and the thread takes it at once for the next request, of any function and command, without a wait. What the host then
  gets depends on when the second request's own response comes. If the host reads first, it gets the response to the
  first request, and the second response stays behind in the same way. If the second response comes first, behind the take of the
  semaphore, it replaces the first one and the host gets it, but its semaphore is left available, so the thread
  does not wait for the response to the third request either. (A response that comes before the thread takes the semaphore replaces
  the stale one without a trace, as the semaphore counts to one.)
\<close>

theorem ssif_stale_response:
  assumes "ssif_env_ok env" and "ssif_idle env d io" and "sd_rsp_sem d = 0" and "to_bic env nf1 cmd1" and "to_bic env nf2 cmd2"
    and "length data1 \<le> Ipmb.IPMI_MSG_MAX_LENGTH" and "length data2 \<le> Ipmb.IPMI_MSG_MAX_LENGTH" and "rsp_ok rsp1" and "im_netfn rsp1 \<noteq> 0"
    and "rsp_ok rsp2" and "im_netfn rsp2 \<noteq> 0"
  shows "\<exists>d1 io1 d2 d3 io3 d4 io4 d5 d6 d7 io7.
      host_writes env now1 None (ssif_frames (se_crc8 env) (sd_addr d) pec nf1 cmd1 data1) d io = Some (d1, io1)
    \<and> sd_err_status d1 = SSIF_STATUS_RSP_MSG_TIMEOUT \<and> set_rsp_data (se_lock env) rsp1 d1 = (d2, True)
    \<and> host_writes env now2 None (ssif_frames (se_crc8 env) (sd_addr d) pec nf2 cmd2 data2) d2 io1 = Some (d3, io3)
    \<and> sd_err_status d3 = SSIF_STATUS_NO_ERR
    \<and> (host_response env 17 d3 io3 = Some (d4, io4, rsp_bytes rsp1)
        \<and> set_rsp_data (se_lock env) rsp2 d4 = (d5, True) \<and> sd_rsp_sem d5 = 1 \<and> holds_rsp (rsp_bytes rsp2) d5)
    \<and> (set_rsp_data (se_lock env) rsp2 d3 = (d6, True)
        \<and> host_response env 17 d6 io3 = Some (d7, io7, rsp_bytes rsp2) \<and> sd_rsp_sem d7 = 1)"
proof -
  have lock: "se_lock env = True" using assms(1) by (simp add: ssif_env_ok_def)
  obtain d1 io1 d2 d3 io3 where A:
      "host_writes env now1 None (ssif_frames (se_crc8 env) (sd_addr d) pec nf1 cmd1 data1) d io = Some (d1, io1)"
      "sd_err_status d1 = SSIF_STATUS_RSP_MSG_TIMEOUT" "set_rsp_data (se_lock env) rsp1 d1 = (d2, True)"
      "host_writes env now2 None (ssif_frames (se_crc8 env) (sd_addr d) pec nf2 cmd2 data2) d2 io1 = Some (d3, io3)"
      "sd_err_status d3 = SSIF_STATUS_NO_ERR"
    and tg: "ssif_target (se_target env) (sd_i2c_bus d3) (io_target io3)"
    and S: "holds_rsp (rsp_bytes rsp1) d3" "sd_cur_status d3 = SSIF_STATUS_WAIT_FOR_RD_START" "ssif_ready d3" "sd_rsp_sem d3 = 0"
    using ssif_late_taken [OF assms(1-8)] by blast
  obtain d4 io4 where R: "host_response env 17 d3 io3 = Some (d4, io4, rsp_bytes rsp1)" "ssif_idle env d4 io4" "sd_rsp_sem d4 = sd_rsp_sem d3"
    using host_response_17 [OF tg S(1,2) assms(8,9) S(3)] by blast
  have r4: "sd_mutex_init d4" "length (sd_rsp_buff d4) = Ipmb.IPMI_MSG_MAX_LENGTH" "sd_sem_limit d4 = 1" "sd_rsp_sem d4 = 0"
    using R(2,3) S(4) by (simp_all add: ssif_idle_def ssif_ready_def)
  obtain d5 where d5: "set_rsp_data (se_lock env) rsp2 d4 = (d5, True)" "holds_rsp (rsp_bytes rsp2) d5" "sd_rsp_sem d5 = 1"
    using set_rsp_data_holds [OF r4(1,2) assms(10)] r4(3,4) lock by auto
  obtain d6 d7 io7 where B: "set_rsp_data (se_lock env) rsp2 d3 = (d6, True)" "host_response env 17 d6 io3 = Some (d7, io7, rsp_bytes rsp2)"
    "sd_rsp_sem d7 = 1" using ssif_set_before_read [OF S(3) tg S(4,2) assms(10,11)] lock by auto
  show ?thesis
    by (intro exI conjI, rule A(1), rule A(2), rule A(3), rule A(4), rule A(5), rule R(1), rule d5(1), rule d5(3), rule d5(2),
      rule B(1), rule B(2), rule B(3))
qed

text \<open>
  (C36) What a host can do to the buffers: a message of more than 527 bytes, written in frames that each are well formed,
  is copied behind the buffer of the message; and so are the 65534 or 65535 bytes that a first frame with a length of 0 or 1 is taken for,
  with or without packet error code.
\<close>

theorem ssif_write_overruns:
  assumes "ssif_env_ok env" and "ssif_idle env d io"
    and "Ipmb.IPMI_MSG_MAX_LENGTH < length data" and "n < 2" and "c = SSIF_WR_SINGLE \<or> c = SSIF_WR_MULTI_START"
  shows "host_writes env now late (ssif_frames (se_crc8 env) (sd_addr d) pec nf cmd data) d io = None
    \<and> host_write env now late (block_frame (se_crc8 env) (sd_addr d) pec (c, replicate n x)) d io = None"
proof
  have I: "ssif_ready d" "sd_cur_status d \<in> {SSIF_STATUS_WAIT_FOR_WR_START, SSIF_STATUS_WAIT_FOR_RD_START}"
    "ssif_target (se_target env) (sd_i2c_bus d) (io_target io)" using assms(2) by (simp_all add: ssif_idle_def)
  have set: "snd (se_addr_set env w b a) = 0" for w b a using assms(1) by (simp add: ssif_env_ok_def)
  have m: "length (im_data (sd_current_ipmi_msg d)) = Ipmb.IPMI_MSG_MAX_LENGTH" using I(1) by (simp add: ssif_ready_def)
  from host_writes_message [OF I(3) set I(2) m, of data now late pec nf cmd] assms(3)
  show "host_writes env now late (ssif_frames (se_crc8 env) (sd_addr d) pec nf cmd data) d io = None" by simp
  let ?blk = "replicate n x"
  let ?f = "block_frame (se_crc8 env) (sd_addr d) pec (c, ?blk)"
  have sh: "?f \<noteq> []" "length ?f \<le> 50" using block_frame_short [of "(c, ?blk)"] assms(4) by simp_all
  obtain lck exp io' where W: "host_write env now late ?f d io
      = ssif_handle_frame env now late (frame_buffer ?f) (length ?f) (d\<lparr>sd_addr_lock := lck, sd_exp_to_ms := exp\<rparr>) io'"
    using host_write_frame [OF I(3) sh set] by blast
  let ?d = "d\<lparr>sd_addr_lock := lck, sd_exp_to_ms := exp\<rparr>"
  have l32: "length ?blk \<le> 32" using assms(4) by simp
  note F = block_frame_facts [where b = "(c, ?blk)" and crc = "se_crc8 env" and addr = "sd_addr d" and pec = pec,
      unfolded snd_conv fst_conv, OF l32]
  obtain s where run: "ssif_frame env (frame_buffer ?f) (length ?f) ?d
      = ssif_wr_start c (frame_buffer ?f) (length ?f) (if pec then 1 else 0) (?d\<lparr>sd_cur_status := s\<rparr>)"
    using ssif_frame_checked [OF _ _ l32, of c ?d env pec] I(2) assms(5) by auto
  have n: "n = 0 \<or> n = 1" using assms(4) by auto
  have ul: "unat (of_nat n :: u8) = n" using n by auto
  have dl: "Ipmb.IPMI_MSG_MAX_LENGTH < unat (ucast (of_nat n :: u8) - 2 :: u16)" using n by (auto simp: Ipmb.IPMI_MSG_MAX_LENGTH_def unsigned_minus_1_eq_mask mask_eq_exp_minus_1)
  have lf: "length ?f = 2 + n + (if pec then 1 else 0)" using F(1) by simp
  have len: "nth0 (frame_buffer ?f) 1 = of_nat n" using F(3) by simp
  have "ssif_wr_start c (frame_buffer ?f) (length ?f) (if pec then 1 else 0) (?d\<lparr>sd_cur_status := s\<rparr>) = None"
    unfolding ssif_wr_start_def Let_def len ul lf using dl m n by auto
  then show "host_write env now late ?f d io = None" unfolding W by (simp add: ssif_handle_frame_def run)
qed

lemma demo_ssif_target: "ssif_target nominal_env 1 (io_target demo_ssif_io)"
  unfolding ssif_target_def by code_simp

lemma demo_ssif_ok: "ssif_env_ok demo_ssif_env" "ssif_idle demo_ssif_env demo_ssif_dev demo_ssif_io" "to_bic demo_ssif_env nf cmd"
  using demo_ssif_dev_fields demo_ssif_target
  by (simp_all add: ssif_env_ok_def ssif_idle_def ssif_ready_def to_bic_def demo_ssif_env_def Ipmb.IPMI_MSG_MAX_LENGTH_def)

lemma demo_ssif_rsp_ok: "n \<le> 524 \<Longrightarrow> rsp_ok (demo_ssif_rsp n)" "im_netfn (demo_ssif_rsp n) \<noteq> 0"
  "n \<le> 524 \<Longrightarrow> rsp_bytes (demo_ssif_rsp n) = [0x1C, 1, 0] @ replicate n 0"
proof -
  have "unat (of_nat n :: u16) = n" if "n \<le> 524" using that by (subst unat_of_nat_lt) simp_all
  then show "n \<le> 524 \<Longrightarrow> rsp_ok (demo_ssif_rsp n)" "n \<le> 524 \<Longrightarrow> rsp_bytes (demo_ssif_rsp n) = [0x1C, 1, 0] @ replicate n 0"
    by (simp_all add: rsp_ok_def rsp_bytes_def demo_ssif_rsp_def zero_ipmi_msg_def Ipmb.IPMI_MSG_MAX_LENGTH_def zeros_def min_def)
  show "im_netfn (demo_ssif_rsp n) \<noteq> 0" by (simp add: demo_ssif_rsp_def)
qed

theorem ssif_exchange_witness:
  "\<exists>d1 io1 m d2 io2.
      host_writes demo_ssif_env 0 (Some (demo_ssif_rsp 100))
        (ssif_frames (se_crc8 demo_ssif_env) (sd_addr demo_ssif_dev) True 0x18 1 (replicate 70 9)) demo_ssif_dev demo_ssif_io = Some (d1, io1)
    \<and> io_ipmi_msgq io1 = [\<lparr>mc_buffer = m, mc_retries = 0\<rparr>] \<and> im_netfn m = 6 \<and> take 70 (im_data m) = replicate 70 9
    \<and> host_response demo_ssif_env 17 d1 io1 = Some (d2, io2, [0x1C, 1, 0] @ replicate 100 0)"
proof -
  have "ipmi_msgq_put m (io_ipmi_msgq demo_ssif_io) = [\<lparr>mc_buffer = m, mc_retries = 0\<rparr>]" for m
    by (simp add: ipmi_msgq_put_def demo_ssif_io_def IPMI_BUF_LEN_def)
  moreover have "drop_bit 2 (0x18 :: u8) = 6" by simp
  moreover have "length (replicate 70 9) \<le> Ipmb.IPMI_MSG_MAX_LENGTH" by (simp add: Ipmb.IPMI_MSG_MAX_LENGTH_def)
  ultimately show ?thesis
    using ssif_exchange [where data = "replicate 70 9" and rsp = "demo_ssif_rsp 100" and now = 0 and pec = True and nf = "0x18" and cmd = 1,
        OF demo_ssif_ok(1,2) demo_ssif_dev_fields(3) demo_ssif_ok(3) _ demo_ssif_rsp_ok(1,2)] demo_ssif_rsp_ok(3) [of 100] by simp blast
qed

theorem ssif_stale_response_witness:
  "\<exists>d1 io1 d2 d3 io3 d4 io4 d6 d7 io7.
      host_writes demo_ssif_env 0 None (ssif_frames (se_crc8 demo_ssif_env) (sd_addr demo_ssif_dev) True 0x18 1 [5])
        demo_ssif_dev demo_ssif_io = Some (d1, io1)
    \<and> set_rsp_data True (demo_ssif_rsp 3) d1 = (d2, True)
    \<and> host_writes demo_ssif_env 9 None (ssif_frames (se_crc8 demo_ssif_env) (sd_addr demo_ssif_dev) True 0x18 2 [6])
        d2 io1 = Some (d3, io3)
    \<and> host_response demo_ssif_env 17 d3 io3 = Some (d4, io4, [0x1C, 1, 0] @ replicate 3 0)
    \<and> set_rsp_data True (demo_ssif_rsp 8) d3 = (d6, True)
    \<and> host_response demo_ssif_env 17 d6 io3 = Some (d7, io7, [0x1C, 1, 0] @ replicate 8 0)"
proof -
  have l: "length [x] \<le> Ipmb.IPMI_MSG_MAX_LENGTH" for x :: u8 by (simp add: Ipmb.IPMI_MSG_MAX_LENGTH_def)
  have lock: "se_lock demo_ssif_env = True" by (simp add: demo_ssif_env_def)
  have n: "(3 :: nat) \<le> 524" "(8 :: nat) \<le> 524" by simp_all
  note S = ssif_stale_response [of demo_ssif_env demo_ssif_dev demo_ssif_io "0x18" 1 "0x18" 2 "[5]" "[6]" "demo_ssif_rsp 3" "demo_ssif_rsp 8" 0 True 9,
        OF demo_ssif_ok(1,2) demo_ssif_dev_fields(3) demo_ssif_ok(3) demo_ssif_ok(3) l l demo_ssif_rsp_ok(1) [OF n(1)] demo_ssif_rsp_ok(2)
          demo_ssif_rsp_ok(1) [OF n(2)] demo_ssif_rsp_ok(2)]
  show ?thesis using S unfolding lock demo_ssif_rsp_ok(3) [OF n(1)] demo_ssif_rsp_ok(3) [OF n(2)] by blast
qed

theorem ssif_write_overruns_witness:
  "host_writes demo_ssif_env 0 None (ssif_frames (se_crc8 demo_ssif_env) (sd_addr demo_ssif_dev) True 0x18 1 (replicate 600 7))
      demo_ssif_dev demo_ssif_io = None
   \<and> host_write demo_ssif_env 0 None (block_frame (se_crc8 demo_ssif_env) (sd_addr demo_ssif_dev) False (SSIF_WR_SINGLE, []))
      demo_ssif_dev demo_ssif_io = None"
  using ssif_write_overruns [OF demo_ssif_ok(1,2), of "replicate 600 7" 0 SSIF_WR_SINGLE]
  by (simp add: Ipmb.IPMI_MSG_MAX_LENGTH_def)

end
