(* ===== verification/Spec2Isabelle.thy ===== *)
theory Spec2Isabelle
  imports Libutil Mctp_Smbus Mctp_Ctrl Pldm_Base Pldm_Wait Pldm_Oem Ipmb_Reach Pldm_Fw_Devices Ssif_Exchange
begin

text \<open>
  \<^bold>\<open>Verification of OpenBIC, the firmware of a bridge IC on Zephyr.\<close>

  \<^bold>\<open>The program.\<close> OpenBIC connects a baseboard management controller with the devices of a board. Its core
  is a stack of message services under \<^verbatim>\<open>src/common\<close>. The I2C layer (\<^verbatim>\<open>hal/hal_i2c.c\<close>, \<^verbatim>\<open>hal/hal_i2c_target.c\<close>) moves
  bytes. MCTP (\<^verbatim>\<open>service/mctp/mctp.c\<close>) splits messages into packets and puts them together again, over
  a medium binding such as SMBus (\<^verbatim>\<open>mctp_smbus.c\<close>). Above it stand the MCTP control protocol
  (\<^verbatim>\<open>mctp_ctrl.c\<close>) and PLDM (\<^verbatim>\<open>service/pldm/pldm.c\<close>, \<^verbatim>\<open>pldm_base.c\<close>), which answer requests and match responses with
  the requests that wait for them. IPMB (\<^verbatim>\<open>service/ipmb/ipmb.c\<close>) does the same for IPMI messages directly
  over I2C. Firmware updates (\<^verbatim>\<open>pldm_firmware_update.c\<close>) come in over PLDM and end in the SPI flash
  (\<^verbatim>\<open>lib/util_spi.c\<close>) or the EEPROM of a retimer. The host of a server sends its IPMI messages over the SMBus system interface
  (\<^verbatim>\<open>service/host/ssif.c\<close>). All use the helpers of \<^verbatim>\<open>lib/libutil.c\<close>.

  \<^bold>\<open>The theories and what they model.\<close>
  \<^item> \<open>Prelude\<close>: byte buffers, \<^verbatim>\<open>memcpy\<close>, little-endian fields, word and list lemmas, the bytes of message
    headers.
  \<^item> \<open>Id_Pool\<close>: the locale \<open>id_pool\<close>, the contract of a table of message ids. It is interpreted by the instance
    ids of PLDM (\<open>instids\<close> in \<open>Pldm\<close>) and the sequence numbers of IPMB (\<open>seqs\<close> in \<open>Ipmb_Exchange\<close>).
  \<^item> \<open>Wait_List\<close>: the locales \<open>wait_list\<close> and \<open>wait_list_events\<close>, the contract of a list of waiting requests, with the
    theorem that every request completes exactly once, by an input that ends its wait, or still waits. It is interpreted by PLDM (\<open>pldm_wait\<close> in \<open>Pldm_Wait\<close>)
    and by MCTP control (\<open>ctrl_wait\<close> in \<open>Mctp_Ctrl\<close>).
  \<^item> \<open>Libutil\<close>: \<^verbatim>\<open>lib/libutil.c\<close>, every helper but \<^verbatim>\<open>power\<close>, which works on floating-point numbers.
  \<^item> \<open>Mctp\<close>, \<open>Mctp_Assembly\<close>, \<open>Mctp_Transfer\<close>: \<^verbatim>\<open>service/mctp/mctp.c\<close>. The record \<open>mctp\<close> is the C struct; one iteration of
    the receive thread is \<open>mctp_rx_step\<close>, one of the transmit thread \<open>mctp_tx_step\<close>. \<open>Mctp_Assembly\<close> refines an
    abstract assembly per tag, with and without memory or a callback, \<open>Mctp_Transfer\<close> has the locale \<open>lossless_medium\<close> and the end-to-end theorems.
  \<^item> \<open>Hal_I2c\<close>, \<open>Hal_I2c_Target\<close>: \<^verbatim>\<open>hal/hal_i2c.c\<close> and \<^verbatim>\<open>hal/hal_i2c_target.c\<close>. The target driver is a state machine over
    the callbacks of the bus and the calls of its client; it interprets the contract of a bounded
    first-in first-out channel.
  \<^item> \<open>Mctp_Smbus\<close>: \<^verbatim>\<open>service/mctp/mctp_smbus.c\<close>. The binding over the two I2C drivers interprets \<open>lossless_medium\<close>, so the
    theorems of the transport hold for the composed stack.
  \<^item> \<open>Mctp_Ctrl\<close>: \<^verbatim>\<open>service/mctp/mctp_ctrl.c\<close>, the four commands, the waiting requests and the blocking read.
  \<^item> \<open>Pldm\<close>, \<open>Pldm_Wait\<close>, \<open>Pldm_Read\<close>: \<^verbatim>\<open>service/pldm/pldm.c\<close>: header, instance ids, dispatch, sending, time-outs, the blocking
    read. Command handlers of the PLDM types are entries of a table that is an argument.
  \<^item> \<open>Pldm_Base\<close>: \<^verbatim>\<open>service/pldm/pldm_base.c\<close>, and the table of the firmware that contains it.
  \<^item> \<open>Pldm_Oem\<close>: \<^verbatim>\<open>service/pldm/pldm_oem.c\<close> and the IPMI bridge of \<^verbatim>\<open>pldm.c\<close>: echo, IPMI inside PLDM, clock.
  \<^item> \<open>Pldm_Fw_Update\<close>: the commands of \<^verbatim>\<open>service/pldm/pldm_firmware_update.c\<close> and their state machine; the record \<open>fwu\<close> holds
    the static variables of the file, and \<open>fw_next\<close> is the abstract state machine that every run follows: commands, the timer and
    the assignments of the thread are its events. \<open>Pldm_Fw_Thread\<close>: the update thread \<^verbatim>\<open>req_fw_update_handler\<close>; commands that
    arrive while it waits are part of its reading function, and \<open>req_fw_update_handler_leads\<close> shows that a run of the thread is
    such a history of events. \<open>Pldm_Fw_Image\<close>: the update functions for flash
    devices and voltage regulators, and the theorems on whole updates; the locale \<open>image_update\<close> is the contract between
    the download loop and an update function, interpreted for both (\<open>flash\<close> and \<open>vr\<close>). \<open>Pldm_Fw_Devices\<close>: the functions for
    retimers and logic devices, and the descriptors.
  \<^item> \<open>Spi_Flash\<close>, \<open>Spi_Image\<close>: \<^verbatim>\<open>lib/util_spi.c\<close>. \<open>do_update\<close> rewrites the sectors of a range; \<open>fw_update\<close> collects the packets
    of an image in a buffer of 64 KiB. The driver is a record of functions with the contracts \<open>flash_driver_ok\<close> (it may fail,
    and touches only the bytes it is told to) and \<open>flash_works\<close>.
  \<^item> \<open>Ipmi\<close>: \<^verbatim>\<open>service/ipmi/ipmi.c\<close>, the task that handles IPMI requests of every interface: its queue, the dispatch by
    network function and the way of a response back to its interface. The handlers are arguments.
  \<^item> \<open>Ipmb\<close>, \<open>Ipmb_Frames\<close>, \<open>Ipmb_Exchange\<close>, \<open>Ipmb_Reach\<close>: \<^verbatim>\<open>service/ipmb/ipmb.c\<close>: frames, sequence numbers, waiting requests, both
    threads of a channel with the bridging to other interfaces, clean-up, initialisation.
  \<^item> \<open>Ssif\<close>, \<open>Ssif_Exchange\<close>: \<^verbatim>\<open>service/host/ssif.c\<close>. The record \<open>ssif_dev\<close> is the C struct; an iteration of the thread is
    \<open>ssif_read_task\<close>, the callbacks of the I2C target are \<open>ssif_write_data\<close> and \<open>ssif_bus_drop\<close>, a round of the monitor is
    \<open>ssif_timeout_check\<close>. \<open>Ssif_Exchange\<close> has the transactions of a host on the bus and the theorems on whole exchanges.

  \<^bold>\<open>How the code is represented.\<close> Structs are records, enums datatypes, integers words of their width, so
  that arithmetic wraps as in C. A function that changes state takes and returns it. The list of
  waiting requests, a linked list in C, is the list of its nodes; nodes and callbacks are identified by
  numbers. Threads are represented by one iteration of their loop; interleavings are lists of inputs or
  inductive step relations (\<open>mctp_reach\<close>, \<open>pldm_reach\<close>, \<open>ipmb_step\<close> and the steps of the I2C target).
  Outcomes of the RTOS (heap, locks, clock), of drivers and of platform hooks are arguments, so the
  theorems hold for each of them. \<open>None\<close> is an access outside a buffer or through a null pointer, or, where the
  theory says so, a call that does not return. Logging is left out.

  \<^bold>\<open>What is shown.\<close>
  \<^item> Transport: a message is delivered intact, alone or interleaved with another, also over the composed
    SMBus stack; the receive loop refines the abstract assembly and stays within its buffers for frames of
    at least a header; every reachable instance satisfies the invariant of its life cycle.
  \<^item> I2C: the target driver is a first-in first-out channel with an invariant over all interleavings, in every environment for
    the bounds, and for the room in the queue where the controller unregisters a full target; a
    controller write ends after the number of attempts asked for; the scan reports the devices that answer.
  \<^item> Requests: the ids in use are those of the waiting requests, ids handed out differ, every request
    completes exactly once by its own response or a check after its expiry, or still waits, the blocking reads return, and
    every request of the other side is answered, unless its handler defers the response or overruns the buffer. PLDM discovery reports exactly what is dispatched.
  \<^item> IPMI in PLDM: a request reaches the IPMI task, and its response goes back to where the request came from.
  \<^item> IPMB: frames round-trip with their checksums, a request gets the response with its number back, the
    counts of a channel are right in every reachable state, and clean-up removes every old request.
  \<^item> Firmware update: the states are entered only by their commands and the thread's reports in order, as many descriptions as
    announced included, provided the thread finds the state it reported in. After the dialogue of commands the thread ends,
    and unless it reports a failure the flash holds the image and nothing else has changed, or the driver of the regulator
    that the version string names has taken exactly the image; this composes the
    commands, the thread, \<^verbatim>\<open>pldm_fw_update\<close>, \<^verbatim>\<open>fw_update\<close> and \<^verbatim>\<open>do_update\<close>. \<open>do_update\<close> alone is shown for every range that does not
    lie inside one sector, \<open>fw_update\<close> for every packet of a stream.
  \<^item> SSIF: a message written by the host reaches the IPMI task and its response is read back, block by block, over
    the modelled I2C target; buffers and state machine satisfy an invariant in every reachable state.
  \<^item> Retimers: a call that reports success has written exactly its data at its position of the EEPROM.
  \<^item> Deviations: the theorems on errors show inputs for which the code does not do what it means to, such
    as frames shorter than a header, a response without data, a lost sequence number, an unchecked
    allocation, the endpoint id of another port, an echo or a list of versions that overruns its buffer, a bridge that reads responses
    with another layout than the one it writes, an update that reports success without writing, a piece of an image
    written behind its buffer, a cancellation that is overtaken, host messages and descriptors that overrun their buffers, a late
    response that answers the next request, or a second channel that cannot answer.

  \<^bold>\<open>Bounds and termination.\<close> Loops over arrays and lists are structural recursions. The retry loop of the
  I2C controller compares two bytes and is a partial function, shown to end for retry counts below 255. The walk
  of the IPMB clean-up restarts at the head of its list and is shown to end. Waits without a time limit consume a
  list of inputs; that they return is proved from the presence of a time-out check in that list. The download
  loop and the loop over the sectors are partial functions; that they end is part of the theorems on them, the former for
  transfer sizes that divide 64 KiB and a last piece of at least 32 bytes. Only the host of the
  system interface is bounded: it reads at most 17 blocks after the first, which is enough for 527 bytes.

  \<^bold>\<open>Not modelled.\<close>
  \<^item> Drivers of the SoC and of Zephyr, and the I3C and USB bindings, which only call them.
  \<^item> Of the firmware update: the drivers of voltage regulators, retimers and logic devices, and the
    hash of an image, which exists for one vendor only. The version string that is copied behind its array is cut, and recorded in
    the state.
  \<^item> The other PLDM types and the handlers of IPMI commands: single commands over platform devices; the
    dispatch to them is modelled.
  \<^item> Sensor polling, SDR and PDR tables, device drivers under \<^verbatim>\<open>common/dev\<close>, the KCS interface, the
    shell, and the boards under \<^verbatim>\<open>meta-facebook\<close> and \<^verbatim>\<open>meta-nuvoton\<close>: data tables and register access of particular
    hardware.
\<close>

end
